(* ===== verification/Prelude.thy ===== *)
theory Prelude
  imports Complex_Main "HOL-Library.Word"
begin

text \<open>
  What every component shares: the exceptions of the source as a datatype and fallible code as a
  sum, byte strings and the standard-library conversions the code calls on them
  (\<^verbatim>\<open>int.to_bytes\<close>, \<^verbatim>\<open>str.encode\<close>), and the collections of
  rewrite rules the component proofs use.

  Texts. A Python \<^verbatim>\<open>str\<close> is modelled by its UTF-8 encoding, one
  \<^typ>\<open>char\<close> for each byte, so that \<^verbatim>\<open>encode("utf-8")\<close> is
  the identity on the bytes and is injective. A text with a lone surrogate has no encoding (the
  first commitment over it raises \<^verbatim>\<open>UnicodeEncodeError\<close>) and is outside the model.
\<close>

unbundle bit_operations_syntax

named_theorems res_simps \<open>rewrite rules of the result monad\<close>
named_theorems len_simps \<open>lengths of the byte strings the encoders produce\<close>
named_theorems commit_defs \<open>definitions of the commitments\<close>

subsection \<open>Exceptions and results\<close>

datatype py_exn =
    TypeError
  | ValueError
  | KeyError
  | IndexError
  | RuntimeError
  | OverflowError
  | ZeroDivisionError
  | InvalidOperation

type_synonym 'a res = "py_exn + 'a"

abbreviation Ok :: "'a \<Rightarrow> 'a res" where
  "Ok \<equiv> Inr"

abbreviation Raise :: "py_exn \<Rightarrow> 'a res" where
  "Raise \<equiv> Inl"

definition bind_res :: "'a res \<Rightarrow> ('a \<Rightarrow> 'b res) \<Rightarrow> 'b res" where
  "bind_res m f = (case m of Inl e \<Rightarrow> Inl e | Inr x \<Rightarrow> f x)"

text \<open>\<^verbatim>\<open>if not condition: raise e\<close> in front of the rest of a body.\<close>

definition require :: "bool \<Rightarrow> py_exn \<Rightarrow> 'a res \<Rightarrow> 'a res" where
  "require b e m = (if b then m else Inl e)"

fun map_res :: "('a \<Rightarrow> 'b res) \<Rightarrow> 'a list \<Rightarrow> 'b list res" where
  "map_res f [] = Inr []"
| "map_res f (x # xs) = bind_res (f x) (\<lambda>y. bind_res (map_res f xs) (\<lambda>ys. Inr (y # ys)))"

fun fold_res :: "('a \<Rightarrow> 's \<Rightarrow> 's res) \<Rightarrow> 'a list \<Rightarrow> 's \<Rightarrow> 's res" where
  "fold_res f [] s = Inr s"
| "fold_res f (x # xs) s = bind_res (f x s) (fold_res f xs)"

lemma bind_res_simps [simp, res_simps]:
  "bind_res (Inr x) f = f x"
  "bind_res (Inl e) f = Inl e"
  by (simp_all add: bind_res_def)

lemma require_simps [simp, res_simps]:
  "require True e m = m"
  "require False e m = Inl e"
  by (simp_all add: require_def)

lemma bind_res_eq_Inr [res_simps]:
  "bind_res m f = Inr y \<longleftrightarrow> (\<exists>x. m = Inr x \<and> f x = Inr y)"
  by (cases m) auto

lemma require_eq_Inr [res_simps]:
  "require b e m = Inr y \<longleftrightarrow> b \<and> m = Inr y"
  by (simp add: require_def)

lemma bind_res_assoc: "bind_res (bind_res m f) g = bind_res m (\<lambda>x. bind_res (f x) g)"
  by (cases m) auto

lemma bind_res_cong: "(\<And>x. m = Inr x \<Longrightarrow> f x = g x) \<Longrightarrow> bind_res m f = bind_res m g"
  by (cases m) auto

lemma map_res_all_Ok:
  "(\<And>x. x \<in> set xs \<Longrightarrow> f x = Inr (g x)) \<Longrightarrow> map_res f xs = Inr (map g xs)"
  by (induction xs) auto

lemma map_res_map: "map_res f (map g xs) = map_res (f \<circ> g) xs"
  by (induction xs) auto

lemma map_res_eq_Inr_length: "map_res f xs = Inr ys \<Longrightarrow> length ys = length xs"
  by (induction xs arbitrary: ys) (auto simp: bind_res_eq_Inr)

lemma map_res_eq_Inr_nth:
  "map_res f xs = Inr ys \<Longrightarrow> i < length xs \<Longrightarrow> f (xs ! i) = Inr (ys ! i)"
  by (induction xs arbitrary: ys i) (auto simp: bind_res_eq_Inr nth_Cons split: nat.splits)

lemma fold_res_append: "fold_res f (xs @ ys) s = bind_res (fold_res f xs s) (fold_res f ys)"
  by (induction xs arbitrary: s) (auto simp: bind_res_assoc intro!: bind_res_cong)

subsection \<open>Byte strings\<close>

type_synonym byte = "8 word"
type_synonym bytes = "byte list"

text \<open>
  \<^verbatim>\<open>n.to_bytes(k, "big")\<close> for a number that fits in \<open>k\<close> bytes.  Where the
  source converts a length, the length of a Python object is below \<open>2 ^ 63\<close>; the bound is a
  hypothesis where a theorem needs it (\<open>n < 256 ^ k\<close>).
\<close>

fun to_bytes :: "nat \<Rightarrow> nat \<Rightarrow> bytes" where
  "to_bytes 0 n = []"
| "to_bytes (Suc k) n = to_bytes k (n div 256) @ [word_of_nat (n mod 256)]"

fun from_bytes :: "bytes \<Rightarrow> nat" where
  "from_bytes bs = foldl (\<lambda>n b. 256 * n + unat b) 0 bs"

definition text_bytes :: "string \<Rightarrow> bytes" where
  "text_bytes s = map (\<lambda>c. word_of_nat (of_char c)) s"

lemma length_to_bytes [simp, len_simps]: "length (to_bytes k n) = k"
  by (induction k arbitrary: n) auto

lemma to_bytes_Nil_iff [simp]: "to_bytes k n = [] \<longleftrightarrow> k = 0"
  by (cases k) auto

lemma from_bytes_snoc: "from_bytes (bs @ [b]) = 256 * from_bytes bs + unat b"
  by simp

lemma unat_word_of_mod_256: "unat (word_of_nat (n mod 256) :: byte) = n mod 256"
  by (simp add: unat_of_nat)

lemma from_bytes_to_bytes: "n < 256 ^ k \<Longrightarrow> from_bytes (to_bytes k n) = n"
proof (induction k arbitrary: n)
  case 0
  then show ?case by simp
next
  case (Suc k)
  then have "n div 256 < 256 ^ k"
    by (simp add: less_mult_imp_div_less mult.commute)
  then have "from_bytes (to_bytes k (n div 256)) = n div 256"
    by (rule Suc.IH)
  then show ?case
    by (simp add: unat_word_of_mod_256 del: from_bytes.simps add: from_bytes_snoc)
qed

lemma to_bytes_inj: "to_bytes k m = to_bytes k n \<Longrightarrow> m < 256 ^ k \<Longrightarrow> n < 256 ^ k \<Longrightarrow> m = n"
  by (metis from_bytes_to_bytes)

lemma length_text_bytes [simp, len_simps]: "length (text_bytes s) = length s"
  by (simp add: text_bytes_def)

lemma byte_of_char_inj: "(word_of_nat (of_char c) :: byte) = word_of_nat (of_char d) \<Longrightarrow> c = d"
proof -
  assume eq: "(word_of_nat (of_char c) :: byte) = word_of_nat (of_char d)"
  have lt: "(of_char x :: nat) < 256" for x
    by (cases x) (simp add: of_char_def horner_sum_bound)
  from eq have "unat (word_of_nat (of_char c) :: byte) = unat (word_of_nat (of_char d) :: byte)"
    by simp
  then have "(of_char c :: nat) = of_char d"
    using lt [of c] lt [of d] by (simp add: unat_of_nat)
  then show "c = d" by simp
qed

lemma text_bytes_inj: "text_bytes s = text_bytes t \<Longrightarrow> s = t"
proof (induction s arbitrary: t)
  case Nil
  then show ?case by (simp add: text_bytes_def)
next
  case (Cons c s)
  then show ?case by (cases t) (auto simp: text_bytes_def dest: byte_of_char_inj)
qed

lemma text_bytes_eq_iff [simp]: "text_bytes s = text_bytes t \<longleftrightarrow> s = t"
  by (auto dest: text_bytes_inj)

subsection \<open>Lists\<close>

lemma sorted_wrt_less_distinct:
  fixes xs :: "'a::linorder list"
  shows "sorted_wrt (<) xs \<Longrightarrow> distinct xs"
  by (induction xs) auto

lemma map_of_eq_Some_iff_mem:
  "distinct (map fst xs) \<Longrightarrow> map_of xs k = Some v \<longleftrightarrow> (k, v) \<in> set xs"
  by (simp add: map_of_eq_Some_iff)

end
