(* ===== verification/Sha256.thy ===== *)
theory Sha256
  imports Prelude
begin

text \<open>
  The standard library's \<^verbatim>\<open>hashlib.sha256(payload).digest()\<close>, after FIPS 180-4: padding,
  message schedule, compression and the final 32-byte digest. The kernel's commitments are built on
  it; the proofs use only that a digest has 32 bytes.
\<close>

type_synonym word32 = "32 word"

definition rotr :: "nat \<Rightarrow> word32 \<Rightarrow> word32" where
  "rotr n w = drop_bit n w OR push_bit (32 - n) w"

definition sha_ch :: "word32 \<Rightarrow> word32 \<Rightarrow> word32 \<Rightarrow> word32" where
  "sha_ch x y z = (x AND y) XOR (NOT x AND z)"

definition sha_maj :: "word32 \<Rightarrow> word32 \<Rightarrow> word32 \<Rightarrow> word32" where
  "sha_maj x y z = (x AND y) XOR (x AND z) XOR (y AND z)"

definition big_sigma0 :: "word32 \<Rightarrow> word32" where
  "big_sigma0 x = rotr 2 x XOR rotr 13 x XOR rotr 22 x"

definition big_sigma1 :: "word32 \<Rightarrow> word32" where
  "big_sigma1 x = rotr 6 x XOR rotr 11 x XOR rotr 25 x"

definition small_sigma0 :: "word32 \<Rightarrow> word32" where
  "small_sigma0 x = rotr 7 x XOR rotr 18 x XOR drop_bit 3 x"

definition small_sigma1 :: "word32 \<Rightarrow> word32" where
  "small_sigma1 x = rotr 17 x XOR rotr 19 x XOR drop_bit 10 x"

text \<open>The round constants and the initial state, in decimal.\<close>

definition sha_k :: "word32 list" where
  "sha_k =
    [1116352408, 1899447441, 3049323471, 3921009573, 961987163, 1508970993, 2453635748, 2870763221,
     3624381080, 310598401, 607225278, 1426881987, 1925078388, 2162078206, 2614888103, 3248222580,
     3835390401, 4022224774, 264347078, 604807628, 770255983, 1249150122, 1555081692, 1996064986,
     2554220882, 2821834349, 2952996808, 3210313671, 3336571891, 3584528711, 113926993, 338241895,
     666307205, 773529912, 1294757372, 1396182291, 1695183700, 1986661051, 2177026350, 2456956037,
     2730485921, 2820302411, 3259730800, 3345764771, 3516065817, 3600352804, 4094571909, 275423344,
     430227734, 506948616, 659060556, 883997877, 958139571, 1322822218, 1537002063, 1747873779,
     1955562222, 2024104815, 2227730452, 2361852424, 2428436474, 2756734187, 3204031479, 3329325298]"

datatype sha_state =
  ShaState word32 word32 word32 word32 word32 word32 word32 word32

definition sha_init :: sha_state where
  "sha_init = ShaState 1779033703 3144134277 1013904242 2773480762
                       1359893119 2600822924 528734635 1541459225"

definition word32_of_bytes :: "byte \<Rightarrow> byte \<Rightarrow> byte \<Rightarrow> byte \<Rightarrow> word32" where
  "word32_of_bytes a b c d =
     push_bit 24 (ucast a) OR push_bit 16 (ucast b) OR push_bit 8 (ucast c) OR ucast d"

definition bytes_of_word32 :: "word32 \<Rightarrow> bytes" where
  "bytes_of_word32 w = [ucast (drop_bit 24 w), ucast (drop_bit 16 w), ucast (drop_bit 8 w), ucast w]"

fun word32s_of_bytes :: "bytes \<Rightarrow> word32 list" where
  "word32s_of_bytes (a # b # c # d # bs) = word32_of_bytes a b c d # word32s_of_bytes bs"
| "word32s_of_bytes bs = []"

text \<open>The schedule is kept newest word first while it grows, and reversed at the end.\<close>

fun sha_schedule_from :: "nat \<Rightarrow> word32 list \<Rightarrow> word32 list" where
  "sha_schedule_from 0 ws = ws"
| "sha_schedule_from (Suc n) ws =
     sha_schedule_from n
       ((small_sigma1 (ws ! 1) + ws ! 6 + small_sigma0 (ws ! 14) + ws ! 15) # ws)"

definition sha_schedule :: "word32 list \<Rightarrow> word32 list" where
  "sha_schedule block = rev (sha_schedule_from 48 (rev block))"

fun sha_round :: "word32 \<times> word32 \<Rightarrow> sha_state \<Rightarrow> sha_state" where
  "sha_round (k, w) (ShaState a b c d e f g h) =
     (let t1 = h + big_sigma1 e + sha_ch e f g + k + w;
          t2 = big_sigma0 a + sha_maj a b c
      in ShaState (t1 + t2) a b c (d + t1) e f g)"

fun sha_add :: "sha_state \<Rightarrow> sha_state \<Rightarrow> sha_state" where
  "sha_add (ShaState a b c d e f g h) (ShaState a' b' c' d' e' f' g' h') =
     ShaState (a + a') (b + b') (c + c') (d + d') (e + e') (f + f') (g + g') (h + h')"

definition sha_block :: "word32 list \<Rightarrow> sha_state \<Rightarrow> sha_state" where
  "sha_block block s = sha_add s (fold sha_round (zip sha_k (sha_schedule block)) s)"

definition sha_pad :: "bytes \<Rightarrow> bytes" where
  "sha_pad msg =
     msg @ [0x80] @ replicate ((55 + 64 - length msg mod 64) mod 64) 0
         @ to_bytes 8 (8 * length msg)"

fun sha_blocks :: "nat \<Rightarrow> word32 list \<Rightarrow> sha_state \<Rightarrow> sha_state" where
  "sha_blocks 0 ws s = s"
| "sha_blocks (Suc n) ws s = sha_blocks n (drop 16 ws) (sha_block (take 16 ws) s)"

fun sha_digest :: "sha_state \<Rightarrow> bytes" where
  "sha_digest (ShaState a b c d e f g h) =
     concat (map bytes_of_word32 [a, b, c, d, e, f, g, h])"

definition sha256 :: "bytes \<Rightarrow> bytes" where
  "sha256 msg =
     (let padded = sha_pad msg
      in sha_digest (sha_blocks (length padded div 64) (word32s_of_bytes padded) sha_init))"

lemma length_sha_digest: "length (sha_digest s) = 32"
  by (cases s) (simp add: bytes_of_word32_def)

lemma length_sha256 [simp, len_simps]: "length (sha256 msg) = 32"
  by (simp add: sha256_def Let_def length_sha_digest)

lemma length_sha_pad: "64 dvd length (sha_pad msg)"
proof -
  define q r where "q = length msg div 64" and "r = length msg mod 64"
  have len: "length msg = 64 * q + r" and r: "r < 64"
    by (simp_all add: q_def r_def)
  have "64 dvd 64 * q + r + 1 + (119 - r) mod 64 + 8"
  proof (cases "r \<le> 55")
    case True
    then have split: "119 - r = 64 + (55 - r)" by arith
    have md: "(119 - r) mod 64 = 55 - r"
      unfolding split by (subst mod_add_self1) (rule mod_less, arith)
    from True have "64 * q + r + 1 + (119 - r) mod 64 + 8 = 64 * (q + 1)"
      unfolding md by arith
    then show ?thesis by (metis dvd_triv_left)
  next
    case False
    with r have md: "(119 - r) mod 64 = 119 - r" by (intro mod_less) arith
    from False r have "64 * q + r + 1 + (119 - r) mod 64 + 8 = 64 * (q + 2)"
      unfolding md by arith
    then show ?thesis by (metis dvd_triv_left)
  qed
  then show ?thesis
    using len r by (simp add: sha_pad_def ac_simps)
qed

end
