(* ===== verification/Identity.thy ===== *)
theory Identity
  imports Sha256
begin

text \<open>
  The exact identities of \<^verbatim>\<open>app/execution_core/identity.py\<close>. Every identity class is a
  type of its own around a nonblank text; the composite keys are records. The three sealed
  identities (market occurrence, market stream generation, acquisition generation) carry their
  decoded bytes and a SHA-256 seal over both, and are checked by re-derivation.
\<close>

subsection \<open>Blank texts\<close>

text \<open>
  \<^verbatim>\<open>str.strip()\<close> removes the code points for which \<^verbatim>\<open>str.isspace()\<close>
  holds; these are their UTF-8 encodings, by length.
\<close>

definition space1 :: "nat \<Rightarrow> bool" where
  "space1 a \<longleftrightarrow> 9 \<le> a \<and> a \<le> 13 \<or> 28 \<le> a \<and> a \<le> 32"

definition space2 :: "nat \<Rightarrow> nat \<Rightarrow> bool" where
  "space2 a b \<longleftrightarrow> a = 0xC2 \<and> (b = 0x85 \<or> b = 0xA0)"

definition space3 :: "nat \<Rightarrow> nat \<Rightarrow> nat \<Rightarrow> bool" where
  "space3 a b c \<longleftrightarrow>
     a = 0xE1 \<and> b = 0x9A \<and> c = 0x80 \<or>
     a = 0xE2 \<and> b = 0x80 \<and> (0x80 \<le> c \<and> c \<le> 0x8A \<or> c = 0xA8 \<or> c = 0xA9 \<or> c = 0xAF) \<or>
     a = 0xE2 \<and> b = 0x81 \<and> c = 0x9F \<or>
     a = 0xE3 \<and> b = 0x80 \<and> c = 0x80"

fun all_space :: "nat list \<Rightarrow> bool" where
  "all_space [] = True"
| "all_space [a] = space1 a"
| "all_space [a, b] = (if space1 a then all_space [b] else space2 a b)"
| "all_space (a # b # c # cs) =
     (if space1 a then all_space (b # c # cs)
      else if space2 a b then all_space (c # cs)
      else space3 a b c \<and> all_space cs)"

definition is_blank :: "string \<Rightarrow> bool" where
  "is_blank s = all_space (map of_char s)"

text \<open>The check every identity makes of its text.\<close>

definition exact_identity :: "(string \<Rightarrow> 'i) \<Rightarrow> string \<Rightarrow> 'i res" where
  "exact_identity mk s = require (\<not> is_blank s) ValueError (Ok (mk s))"

subsection \<open>The identity classes\<close>

datatype broker_id = BrokerId (broker_value: string)
datatype environment_id = EnvironmentId (environment_value: string)
datatype account_id = AccountId (account_value: string)
datatype symbol_id = SymbolId (symbol_value: string)
datatype order_id = OrderId (order_value: string)
datatype root_fill_id = RootFillId (root_fill_value: string)
datatype source_event_id = SourceEventId (source_event_value: string)
datatype request_occurrence_id = RequestOccurrenceId (request_occurrence_value: string)
datatype claim_occurrence_id = ClaimOccurrenceId (claim_occurrence_value: string)
datatype actor_id = ActorId (actor_value: string)
datatype evidence_reference = EvidenceReference (evidence_value: string)

record execution_fact_key =
  fk_broker :: broker_id
  fk_environment :: environment_id
  fk_account :: account_id
  fk_source_event_id :: source_event_id

record root_fill_key =
  rk_broker :: broker_id
  rk_environment :: environment_id
  rk_account :: account_id
  rk_root_fill_id :: root_fill_id

record venue_leg_key =
  lk_broker :: broker_id
  lk_environment :: environment_id
  lk_account :: account_id
  lk_order_id :: order_id

subsection \<open>Hexadecimal texts\<close>

definition hex_digits :: string where
  "hex_digits = ''0123456789abcdef''"

definition nibble :: "char \<Rightarrow> nat" where
  "nibble c = (let n = of_char c in if n < 58 then n - 48 else n - 87)"

definition hex_of_byte :: "byte \<Rightarrow> string" where
  "hex_of_byte b = [hex_digits ! (unat b div 16), hex_digits ! (unat b mod 16)]"

text \<open>\<^verbatim>\<open>bytes.hex()\<close> and \<^verbatim>\<open>bytes.fromhex()\<close> on lowercase digits.\<close>

definition bytes_hex :: "bytes \<Rightarrow> string" where
  "bytes_hex bs = concat (map hex_of_byte bs)"

fun bytes_fromhex :: "string \<Rightarrow> bytes" where
  "bytes_fromhex (c # d # s) = word_of_nat (16 * nibble c + nibble d) # bytes_fromhex s"
| "bytes_fromhex s = []"

definition is_lowercase_hex64 :: "string \<Rightarrow> bool" where
  "is_lowercase_hex64 s \<longleftrightarrow> length s = 64 \<and> (\<forall>c \<in> set s. c \<in> set hex_digits)"

subsection \<open>Sealed identities\<close>

record sealed_id =
  sealed_value :: string
  sealed_bytes :: bytes
  sealed_seal :: bytes

definition seal_of :: "string \<Rightarrow> bytes \<Rightarrow> bytes" where
  "seal_of s decoded = sha256 (to_bytes 8 (length (text_bytes s)) @ text_bytes s @ decoded)"

definition mk_sealed_id :: "string \<Rightarrow> sealed_id res" where
  "mk_sealed_id s =
     bind_res (exact_identity id s) (\<lambda>v.
     require (is_lowercase_hex64 v) ValueError
       (let decoded = bytes_fromhex v
        in Ok \<lparr>sealed_value = v, sealed_bytes = decoded, sealed_seal = seal_of v decoded\<rparr>))"

definition sealed_id_is_canonical :: "sealed_id \<Rightarrow> bool" where
  "sealed_id_is_canonical i \<longleftrightarrow>
     length (sealed_bytes i) = 32 \<and> sealed_value i = bytes_hex (sealed_bytes i) \<and>
     length (sealed_seal i) = 32 \<and> sealed_seal i = seal_of (sealed_value i) (sealed_bytes i)"

subsection \<open>Round trips\<close>

lemma length_hex_digits: "length hex_digits = 16"
  by (simp add: hex_digits_def)

lemma nibble_digit: "i < 16 \<Longrightarrow> nibble (hex_digits ! i) = i"
proof -
  have "\<forall>i \<in> set [0..<16]. nibble (hex_digits ! i) = i"
    by (simp add: hex_digits_def nibble_def upt_rec)
  moreover assume "i < 16"
  ultimately show ?thesis by simp
qed

lemma digit_nibble:
  assumes "c \<in> set hex_digits"
  shows "nibble c < 16" and "hex_digits ! nibble c = c"
proof -
  from assms obtain i where "i < 16" "c = hex_digits ! i"
    unfolding in_set_conv_nth length_hex_digits by auto
  then show "nibble c < 16" and "hex_digits ! nibble c = c"
    by (simp_all add: nibble_digit)
qed

lemma unat_byte_lt: "unat (b :: byte) < 256"
  using unsigned_less [of b] by simp

lemma fromhex_hex: "bytes_fromhex (bytes_hex bs) = bs"
proof (induction bs)
  case Nil
  then show ?case by (simp add: bytes_hex_def)
next
  case (Cons b bs)
  have lt: "unat b div 16 < 16" using unat_byte_lt [of b] by simp
  have "16 * (unat b div 16) + unat b mod 16 = unat b" by simp
  with lt Cons show ?case
    by (simp add: bytes_hex_def hex_of_byte_def nibble_digit)
qed

lemma hex_fromhex:
  "even (length s) \<Longrightarrow> \<forall>c \<in> set s. c \<in> set hex_digits \<Longrightarrow> bytes_hex (bytes_fromhex s) = s"
proof (induction s rule: bytes_fromhex.induct)
  case (1 c d s)
  then have c: "nibble c < 16" "hex_digits ! nibble c = c"
    and d: "nibble d < 16" "hex_digits ! nibble d = d"
    by (simp_all add: digit_nibble)
  then have "unat (word_of_nat (16 * nibble c + nibble d) :: byte) = 16 * nibble c + nibble d"
    by (simp add: unat_of_nat del: of_nat_add of_nat_mult)
  with c d "1" show ?case
    by (simp add: bytes_hex_def hex_of_byte_def)
qed (auto simp: bytes_hex_def)

lemma length_fromhex: "length (bytes_fromhex s) = length s div 2"
  by (induction s rule: bytes_fromhex.induct) auto

lemma length_hex: "length (bytes_hex bs) = 2 * length bs"
  by (induction bs) (auto simp: bytes_hex_def hex_of_byte_def)

lemma set_bytes_hex: "c \<in> set (bytes_hex bs) \<Longrightarrow> c \<in> set hex_digits"
proof -
  assume "c \<in> set (bytes_hex bs)"
  then obtain b where "c \<in> set (hex_of_byte b)"
    by (auto simp: bytes_hex_def)
  moreover have "unat b div 16 < length hex_digits" "unat b mod 16 < length hex_digits"
    using unat_byte_lt [of b] by (simp_all add: hex_digits_def)
  ultimately show ?thesis
    unfolding hex_of_byte_def by auto
qed

lemma hex_not_space: "c \<in> set hex_digits \<Longrightarrow> \<not> space1 (of_char c) \<and> \<not> space2 (of_char c) b \<and> \<not> space3 (of_char c) b d"
  by (auto simp: hex_digits_def space1_def space2_def space3_def)

lemma hex_not_blank:
  assumes "s \<noteq> []" "\<forall>c \<in> set s. c \<in> set hex_digits"
  shows "\<not> is_blank s"
proof -
  obtain c t where s: "s = c # t" and c: "c \<in> set hex_digits"
    using assms by (cases s) auto
  note ns = hex_not_space [OF c]
  show ?thesis
  proof (cases t)
    case Nil
    with s ns show ?thesis by (simp add: is_blank_def)
  next
    case t: (Cons d u)
    then show ?thesis using s ns by (cases u) (simp_all add: is_blank_def)
  qed
qed

text \<open>
  The re-derivation check accepts exactly what the constructor builds: a sealed identity is
  canonical if and only if constructing it again from its text gives it back.
\<close>

lemma sealed_id_canonical_iff:
  "sealed_id_is_canonical i \<longleftrightarrow> mk_sealed_id (sealed_value i) = Ok i"
proof
  assume can: "sealed_id_is_canonical i"
  let ?s = "sealed_value i"
  from can have s: "?s = bytes_hex (sealed_bytes i)" and l: "length (sealed_bytes i) = 32"
    by (auto simp: sealed_id_is_canonical_def)
  then have h: "is_lowercase_hex64 ?s"
    by (auto simp: is_lowercase_hex64_def length_hex dest: set_bytes_hex)
  then have "\<not> is_blank ?s"
    by (intro hex_not_blank) (auto simp: is_lowercase_hex64_def)
  with h can s show "mk_sealed_id ?s = Ok i"
    by (cases i) (simp add: mk_sealed_id_def exact_identity_def fromhex_hex sealed_id_is_canonical_def)
next
  assume "mk_sealed_id (sealed_value i) = Ok i"
  then have h: "is_lowercase_hex64 (sealed_value i)"
    and i: "i = \<lparr>sealed_value = sealed_value i, sealed_bytes = bytes_fromhex (sealed_value i),
      sealed_seal = seal_of (sealed_value i) (bytes_fromhex (sealed_value i))\<rparr>"
    by (auto simp: mk_sealed_id_def exact_identity_def res_simps Let_def)
  from i have b: "sealed_bytes i = bytes_fromhex (sealed_value i)"
    and sl: "sealed_seal i = seal_of (sealed_value i) (bytes_fromhex (sealed_value i))"
    by (metis sealed_id.select_convs(2), metis sealed_id.select_convs(3))
  from h show "sealed_id_is_canonical i"
    by (simp add: sealed_id_is_canonical_def b sl is_lowercase_hex64_def hex_fromhex
        length_fromhex seal_of_def)
qed

end
