(* ===== verification/Values.thy ===== *)
theory Values
  imports Prelude
begin

text \<open>
  The exact value objects of the execution kernel
  (\<^verbatim>\<open>app/execution_core/values.py\<close>): quantities, integer price units, decimal price
  scales, ticks, reported prices and the rational long basis. Each class is a type with the
  source's fields; its \<^verbatim>\<open>__post_init__\<close> is a checked constructor \<open>mk_*\<close>. The
  exact-type guards of the source hold by typing.

  A \<^verbatim>\<open>Decimal\<close> scale is kept by its numeric value, a rational: the dataclass equality of
  the source is numeric equality, and every use goes through
  \<^verbatim>\<open>Fraction(scale.value)\<close>.
\<close>

datatype decimal = DecFinite int int | DecInfinite | DecNaN

fun decimal_value :: "decimal \<Rightarrow> rat" where
  "decimal_value (DecFinite coefficient exponent) = of_int coefficient * 10 powi exponent"
| "decimal_value DecInfinite = 0"
| "decimal_value DecNaN = 0"

fun decimal_is_finite :: "decimal \<Rightarrow> bool" where
  "decimal_is_finite (DecFinite _ _) = True"
| "decimal_is_finite _ = False"

datatype quantity = Quantity (quantity_value: int)

datatype price_units = PriceUnits (units_value: int)

datatype price_scale = PriceScale (scale_value: rat)

record tick_metadata =
  tick_units :: price_units
  tick_scale :: price_scale

record reported_price =
  price_units_of :: price_units
  price_scale_of :: price_scale
  price_tick :: tick_metadata

datatype exact_basis = ExactBasis (basis_value: rat)

definition mk_quantity :: "int \<Rightarrow> quantity res" where
  "mk_quantity v = require (0 \<le> v) ValueError (Ok (Quantity v))"

definition mk_price_units :: "int \<Rightarrow> price_units res" where
  "mk_price_units v = Ok (PriceUnits v)"

definition mk_price_scale :: "decimal \<Rightarrow> price_scale res" where
  "mk_price_scale d =
     require (decimal_is_finite d \<and> decimal_value d > 0) ValueError
       (Ok (PriceScale (decimal_value d)))"

definition mk_tick_metadata :: "price_units \<Rightarrow> price_scale \<Rightarrow> tick_metadata res" where
  "mk_tick_metadata units scale =
     require (units_value units > 0) ValueError (Ok \<lparr>tick_units = units, tick_scale = scale\<rparr>)"

definition mk_reported_price ::
  "price_units \<Rightarrow> price_scale \<Rightarrow> tick_metadata \<Rightarrow> reported_price res" where
  "mk_reported_price units scale tick =
     Ok \<lparr>price_units_of = units, price_scale_of = scale, price_tick = tick\<rparr>"

definition mk_exact_basis :: "rat \<Rightarrow> exact_basis res" where
  "mk_exact_basis v = require (0 \<le> v) ValueError (Ok (ExactBasis v))"

definition exact_value :: "reported_price \<Rightarrow> rat" where
  "exact_value p = of_int (units_value (price_units_of p)) * scale_value (price_scale_of p)"

definition is_aligned :: "reported_price \<Rightarrow> bool" where
  "is_aligned p \<longleftrightarrow>
     price_scale_of p = tick_scale (price_tick p) \<and>
     units_value (price_units_of p) mod units_value (tick_units (price_tick p)) = 0"

definition is_compatible_with :: "reported_price \<Rightarrow> reported_price \<Rightarrow> bool" where
  "is_compatible_with p q \<longleftrightarrow>
     is_aligned p \<and> is_aligned q \<and> price_scale_of p = price_scale_of q \<and>
     tick_units (price_tick p) = tick_units (price_tick q)"

text \<open>What the checked constructors establish of a price.\<close>

definition price_ok :: "reported_price \<Rightarrow> bool" where
  "price_ok p \<longleftrightarrow>
     scale_value (price_scale_of p) > 0 \<and> scale_value (tick_scale (price_tick p)) > 0 \<and>
     units_value (tick_units (price_tick p)) > 0"

lemma mk_price_scale_pos: "mk_price_scale d = Ok s \<Longrightarrow> scale_value s > 0"
  by (auto simp: mk_price_scale_def require_eq_Inr)

lemma mk_reported_price_ok:
  assumes "mk_price_scale d = Ok s" "mk_price_scale e = Ok r"
    "mk_tick_metadata u r = Ok t" "mk_reported_price v s t = Ok p"
  shows "price_ok p"
  using assms(1,2) [THEN mk_price_scale_pos] assms(3,4)
  by (auto simp: price_ok_def mk_tick_metadata_def mk_reported_price_def require_eq_Inr)

lemma exact_value_pos_iff:
  "price_ok p \<Longrightarrow> exact_value p > 0 \<longleftrightarrow> units_value (price_units_of p) > 0"
  by (simp add: price_ok_def exact_value_def zero_less_mult_iff)

text \<open>
  Compatibility is a partial equivalence: symmetric and transitive, and reflexive exactly on the
  aligned prices.
\<close>

lemma is_compatible_with_sym: "is_compatible_with p q \<longleftrightarrow> is_compatible_with q p"
  by (auto simp: is_compatible_with_def)

lemma is_compatible_with_trans:
  "is_compatible_with p q \<Longrightarrow> is_compatible_with q r \<Longrightarrow> is_compatible_with p r"
  by (auto simp: is_compatible_with_def)

lemma is_compatible_with_refl: "is_compatible_with p p \<longleftrightarrow> is_aligned p"
  by (auto simp: is_compatible_with_def)

text \<open>
  Two compatible prices differ by a whole number of ticks: the exact difference is an integral
  multiple of the tick's exact value.
\<close>

lemma is_compatible_with_tick_multiple:
  assumes "is_compatible_with p q"
  shows "\<exists>n::int. exact_value p - exact_value q =
    of_int n * (of_int (units_value (tick_units (price_tick p))) * scale_value (price_scale_of p))"
proof -
  let ?t = "units_value (tick_units (price_tick p))"
  from assms have "?t dvd units_value (price_units_of p)" "?t dvd units_value (price_units_of q)"
    and sc: "price_scale_of p = price_scale_of q"
    by (auto simp: is_compatible_with_def is_aligned_def dvd_eq_mod_eq_0)
  from this(1,2) have "?t dvd units_value (price_units_of p) - units_value (price_units_of q)"
    by (rule dvd_diff)
  then obtain n where "units_value (price_units_of p) - units_value (price_units_of q) = ?t * n"
    by (elim dvdE)
  then have "exact_value p - exact_value q = of_int (?t * n) * scale_value (price_scale_of p)"
    by (simp add: exact_value_def sc left_diff_distrib [symmetric] of_int_diff [symmetric]
        del: of_int_diff of_int_mult)
  then show ?thesis
    by (intro exI [of _ n]) (simp add: ac_simps)
qed

end
