(* ===== verification/Encoding.thy ===== *)
theory Encoding
  imports Identity Values
begin

text \<open>
  The canonical byte encodings and SHA-256 commitments at the head of
  \<^verbatim>\<open>app/execution_core/fills.py\<close>, with the scopes and enumerations they are over.

  The persistent indexes of the kernel are keyed by these encodings themselves, not by digests, so
  exact identity of a looked-up fact rests on their injectivity: a part is framed by its length in
  eight bytes, and the frames can be read back.
\<close>

subsection \<open>Framing\<close>

definition pack_parts :: "bytes \<Rightarrow> bytes list \<Rightarrow> bytes" where
  "pack_parts domain parts =
     to_bytes 4 (length domain) @ domain @
     concat (map (\<lambda>part. to_bytes 8 (length part) @ part) parts)"

definition commit_parts :: "bytes \<Rightarrow> bytes list \<Rightarrow> bytes" where
  "commit_parts domain parts = sha256 (pack_parts domain parts)"

fun bit_length :: "nat \<Rightarrow> nat" where
  "bit_length n = (if n = 0 then 0 else Suc (bit_length (n div 2)))"

declare bit_length.simps [simp del]

definition byte_length :: "nat \<Rightarrow> nat" where
  "byte_length magnitude = max 1 ((bit_length magnitude + 7) div 8)"

definition encode_int :: "int \<Rightarrow> bytes" where
  "encode_int v =
     (let magnitude = nat \<bar>v\<bar>; encoded = to_bytes (byte_length magnitude) magnitude
      in (if v < 0 then [1] else [0]) @ to_bytes 4 (length encoded) @ encoded)"

definition encode_text :: "string \<Rightarrow> bytes" where
  "encode_text s = (let encoded = text_bytes s in to_bytes 8 (length encoded) @ encoded)"

definition encode_fraction :: "rat \<Rightarrow> bytes" where
  "encode_fraction r =
     commit_parts (text_bytes ''execution-core/fraction/v1'')
       [encode_int (fst (quotient_of r)), encode_int (snd (quotient_of r))]"

definition encode_reported_price :: "reported_price option \<Rightarrow> bytes" where
  "encode_reported_price v =
     (case v of
        None \<Rightarrow> commit_parts (text_bytes ''execution-core/reported-price/none/v1'') []
      | Some p \<Rightarrow> commit_parts (text_bytes ''execution-core/reported-price/v1'')
          [encode_int (units_value (price_units_of p)),
           encode_fraction (scale_value (price_scale_of p)),
           encode_int (units_value (tick_units (price_tick p))),
           encode_fraction (scale_value (tick_scale (price_tick p)))])"

subsection \<open>Enumerations and scopes\<close>

datatype execution_side = BUY | SELL

datatype fact_kind = FILL | TRADE_CORRECT | TRADE_BUST

datatype execution_authority = BROKER_AUTHORITATIVE | HUMAN_ATTESTED

datatype first_observation_classification =
    APPLIED_AVAILABLE
  | APPLIED_BASIS_PENDING
  | APPLIED_OVERFILL_QUARANTINE
  | APPLIED_PENDING_OVERFILL
  | CORROBORATED_ZERO_ECONOMIC
  | CLASS_RECONCILIATION_REQUIRED

fun side_value :: "execution_side \<Rightarrow> string" where
  "side_value BUY = ''BUY''"
| "side_value SELL = ''SELL''"

fun kind_value :: "fact_kind \<Rightarrow> string" where
  "kind_value FILL = ''FILL''"
| "kind_value TRADE_CORRECT = ''TRADE_CORRECT''"
| "kind_value TRADE_BUST = ''TRADE_BUST''"

fun authority_value :: "execution_authority \<Rightarrow> string" where
  "authority_value BROKER_AUTHORITATIVE = ''BROKER_AUTHORITATIVE''"
| "authority_value HUMAN_ATTESTED = ''HUMAN_ATTESTED''"

fun classification_value :: "first_observation_classification \<Rightarrow> string" where
  "classification_value APPLIED_AVAILABLE = ''APPLIED_AVAILABLE''"
| "classification_value APPLIED_BASIS_PENDING = ''APPLIED_BASIS_PENDING''"
| "classification_value APPLIED_OVERFILL_QUARANTINE = ''APPLIED_OVERFILL_QUARANTINE''"
| "classification_value APPLIED_PENDING_OVERFILL = ''APPLIED_PENDING_OVERFILL''"
| "classification_value CORROBORATED_ZERO_ECONOMIC = ''CORROBORATED_ZERO_ECONOMIC''"
| "classification_value CLASS_RECONCILIATION_REQUIRED = ''RECONCILIATION_REQUIRED''"

record position_scope =
  ps_broker :: broker_id
  ps_environment :: environment_id
  ps_account :: account_id
  ps_symbol_id :: symbol_id

record execution_scope =
  es_broker :: broker_id
  es_environment :: environment_id
  es_account :: account_id
  es_order_id :: order_id
  es_symbol_id :: symbol_id
  es_side :: execution_side

type_synonym account_scope = "broker_id \<times> environment_id \<times> account_id"

definition position_scope_of :: "execution_scope \<Rightarrow> position_scope" where
  "position_scope_of s =
     \<lparr>ps_broker = es_broker s, ps_environment = es_environment s, ps_account = es_account s,
      ps_symbol_id = es_symbol_id s\<rparr>"

definition encode_position_scope :: "position_scope \<Rightarrow> bytes" where
  "encode_position_scope s =
     pack_parts (text_bytes ''execution-core/position-scope/v1'')
       [encode_text (broker_value (ps_broker s)),
        encode_text (environment_value (ps_environment s)),
        encode_text (account_value (ps_account s)),
        encode_text (symbol_value (ps_symbol_id s))]"

definition encode_execution_scope :: "execution_scope \<Rightarrow> bytes" where
  "encode_execution_scope s =
     pack_parts (text_bytes ''execution-core/execution-scope/v1'')
       [encode_position_scope (position_scope_of s),
        encode_text (order_value (es_order_id s)),
        encode_text (side_value (es_side s))]"

definition account_scope_from_position :: "position_scope \<Rightarrow> account_scope" where
  "account_scope_from_position s = (ps_broker s, ps_environment s, ps_account s)"

definition encode_account_scope :: "account_scope option \<Rightarrow> bytes" where
  "encode_account_scope s =
     (case s of
        None \<Rightarrow> commit_parts (text_bytes ''execution-core/account-scope/none/v1'') []
      | Some (broker, environment, account) \<Rightarrow>
          pack_parts (text_bytes ''execution-core/account-scope/v1'')
            [encode_text (broker_value broker), encode_text (environment_value environment),
             encode_text (account_value account)])"

definition encode_root_fill_key :: "root_fill_key \<Rightarrow> bytes" where
  "encode_root_fill_key k =
     pack_parts (text_bytes ''execution-core/root-fill-key/v1'')
       [encode_text (broker_value (rk_broker k)),
        encode_text (environment_value (rk_environment k)),
        encode_text (account_value (rk_account k)),
        encode_text (root_fill_value (rk_root_fill_id k))]"

definition encode_execution_fact_key :: "execution_fact_key \<Rightarrow> bytes" where
  "encode_execution_fact_key k =
     pack_parts (text_bytes ''execution-core/execution-fact-key/v1'')
       [encode_text (broker_value (fk_broker k)),
        encode_text (environment_value (fk_environment k)),
        encode_text (account_value (fk_account k)),
        encode_text (source_event_value (fk_source_event_id k))]"

definition encode_source_event_id :: "source_event_id \<Rightarrow> bytes" where
  "encode_source_event_id e =
     pack_parts (text_bytes ''execution-core/source-event-id/v1'')
       [encode_text (source_event_value e)]"

definition commit_root_fill_key :: "root_fill_key \<Rightarrow> bytes" where
  "commit_root_fill_key k =
     commit_parts (text_bytes ''execution-core/root-fill-key-commitment/v1'')
       [encode_root_fill_key k]"

definition commit_source_event_id :: "source_event_id \<Rightarrow> bytes" where
  "commit_source_event_id e =
     commit_parts (text_bytes ''execution-core/source-event-id-commitment/v1'')
       [encode_source_event_id e]"

subsection \<open>Lengths\<close>

lemma length_commit_parts [simp, len_simps]: "length (commit_parts d ps) = 32"
  by (simp add: commit_parts_def)

lemma length_commit_keys [simp, len_simps]:
  "length (commit_root_fill_key k) = 32"
  "length (commit_source_event_id e) = 32"
  by (simp_all add: commit_root_fill_key_def commit_source_event_id_def)

lemma pack_parts_nonempty [simp]: "pack_parts d ps \<noteq> []"
  by (simp add: pack_parts_def)

lemma encode_keys_nonempty [simp]:
  "encode_position_scope s \<noteq> []"
  "encode_execution_scope e \<noteq> []"
  "encode_root_fill_key rk \<noteq> []"
  "encode_execution_fact_key fk \<noteq> []"
  by (simp_all add: encode_position_scope_def encode_execution_scope_def encode_root_fill_key_def
      encode_execution_fact_key_def)

subsection \<open>The frames can be read back\<close>

text \<open>
  The bound on what is framed: a part, a text or an integer whose length fits its prefix. No object
  of a running interpreter is longer.
\<close>

definition part_fits :: "bytes \<Rightarrow> bool" where
  "part_fits p \<longleftrightarrow> length p < 256 ^ 8"

definition text_fits :: "string \<Rightarrow> bool" where
  "text_fits s \<longleftrightarrow> length s + 8 < 256 ^ 8"

definition int_fits :: "int \<Rightarrow> bool" where
  "int_fits v \<longleftrightarrow> byte_length (nat \<bar>v\<bar>) < 256 ^ 4"

lemma prefixed_append_inj:
  assumes "to_bytes k (length p) @ p @ r = to_bytes k (length q) @ q @ s"
    and "length p < 256 ^ k" "length q < 256 ^ k"
  shows "p = q \<and> r = s"
proof -
  from assms(1) have "to_bytes k (length p) = to_bytes k (length q)" and rest: "p @ r = q @ s"
    by simp_all
  then have "length p = length q"
    using assms(2,3) by (blast intro: to_bytes_inj)
  with rest show ?thesis by simp
qed

lemma frames_inj:
  assumes "concat (map (\<lambda>part. to_bytes 8 (length part) @ part) ps) =
           concat (map (\<lambda>part. to_bytes 8 (length part) @ part) qs)"
    and "list_all part_fits ps" "list_all part_fits qs"
  shows "ps = qs"
  using assms
proof (induction ps arbitrary: qs)
  case Nil
  then show ?case by (cases qs) auto
next
  case (Cons p ps)
  show ?case
  proof (cases qs)
    case Nil
    with Cons.prems show ?thesis by auto
  next
    case (Cons q qs')
    with Cons.prems have "p = q \<and>
        concat (map (\<lambda>part. to_bytes 8 (length part) @ part) ps) =
        concat (map (\<lambda>part. to_bytes 8 (length part) @ part) qs')"
      by (intro prefixed_append_inj [where k = 8]) (simp_all add: part_fits_def)
    with Cons Cons.IH [of qs'] Cons.prems show ?thesis by simp
  qed
qed

lemma pack_parts_inj:
  assumes "pack_parts d ps = pack_parts e qs"
    and "length d < 256 ^ 4" "length e < 256 ^ 4" "list_all part_fits ps" "list_all part_fits qs"
  shows "d = e \<and> ps = qs"
proof -
  from assms(1-3) have "d = e \<and>
    concat (map (\<lambda>part. to_bytes 8 (length part) @ part) ps) =
    concat (map (\<lambda>part. to_bytes 8 (length part) @ part) qs)"
    unfolding pack_parts_def by (intro prefixed_append_inj [where k = 4])
  with assms(4,5) show ?thesis by (blast dest: frames_inj)
qed

lemma encode_text_inj:
  assumes "encode_text s = encode_text t" "text_fits s" "text_fits t"
  shows "s = t"
  using prefixed_append_inj [of 8 "text_bytes s" "[]" "text_bytes t" "[]"] assms
  by (simp add: encode_text_def Let_def text_fits_def)

lemma encode_text_fits: "text_fits s \<Longrightarrow> part_fits (encode_text s)"
  by (simp add: part_fits_def encode_text_def text_fits_def Let_def)

lemma bit_length_bound: "n < 2 ^ bit_length n"
proof (induction n rule: bit_length.induct)
  case (1 n)
  then show ?case
    by (cases "n = 0") (simp_all add: bit_length.simps [of n])
qed

lemma byte_length_bound: "n < 256 ^ byte_length n"
proof -
  have "bit_length n \<le> 8 * byte_length n"
    unfolding byte_length_def by presburger
  then have "(2::nat) ^ bit_length n \<le> 2 ^ (8 * byte_length n)"
    by (simp add: power_increasing)
  also have "\<dots> = 256 ^ byte_length n"
    by (simp add: power_mult)
  finally show ?thesis
    using bit_length_bound [of n] by simp
qed

lemma encode_int_inj:
  assumes eq: "encode_int v = encode_int w" and "int_fits v" "int_fits w"
  shows "v = w"
proof -
  have sign: "(v < 0) = (w < 0)"
    using eq by (auto simp: encode_int_def Let_def split: if_splits)
  let ?e = "\<lambda>x. to_bytes (byte_length (nat \<bar>x\<bar>)) (nat \<bar>x\<bar>)"
  have "to_bytes 4 (length (?e v)) @ ?e v @ [] = to_bytes 4 (length (?e w)) @ ?e w @ []"
    using eq by (auto simp: encode_int_def Let_def split: if_splits)
  then have e: "?e v = ?e w"
    using assms(2,3) prefixed_append_inj [of 4 "?e v" "[]" "?e w" "[]"] by (simp add: int_fits_def)
  then have "byte_length (nat \<bar>v\<bar>) = byte_length (nat \<bar>w\<bar>)"
    by (metis length_to_bytes)
  with e have "nat \<bar>v\<bar> = nat \<bar>w\<bar>"
    using byte_length_bound [of "nat \<bar>v\<bar>"] byte_length_bound [of "nat \<bar>w\<bar>"]
    by (auto intro: to_bytes_inj)
  with sign show ?thesis by (simp add: abs_if split: if_splits)
qed

text \<open>A key is determined by its encoding when its texts fit.\<close>

definition fact_key_fits :: "execution_fact_key \<Rightarrow> bool" where
  "fact_key_fits k \<longleftrightarrow>
     text_fits (broker_value (fk_broker k)) \<and> text_fits (environment_value (fk_environment k)) \<and>
     text_fits (account_value (fk_account k)) \<and>
     text_fits (source_event_value (fk_source_event_id k))"

definition root_key_fits :: "root_fill_key \<Rightarrow> bool" where
  "root_key_fits k \<longleftrightarrow>
     text_fits (broker_value (rk_broker k)) \<and> text_fits (environment_value (rk_environment k)) \<and>
     text_fits (account_value (rk_account k)) \<and> text_fits (root_fill_value (rk_root_fill_id k))"

definition scope_fits :: "position_scope \<Rightarrow> bool" where
  "scope_fits s \<longleftrightarrow>
     text_fits (broker_value (ps_broker s)) \<and> text_fits (environment_value (ps_environment s)) \<and>
     text_fits (account_value (ps_account s)) \<and> text_fits (symbol_value (ps_symbol_id s))"

lemmas id_expand = broker_id.expand environment_id.expand account_id.expand symbol_id.expand
  order_id.expand root_fill_id.expand source_event_id.expand

lemma pack_four_texts_inj:
  assumes "pack_parts d [encode_text a, encode_text b, encode_text c, encode_text e] =
           pack_parts d [encode_text a', encode_text b', encode_text c', encode_text e']"
    and "length d < 256 ^ 4"
    and "text_fits a" "text_fits b" "text_fits c" "text_fits e"
    and "text_fits a'" "text_fits b'" "text_fits c'" "text_fits e'"
  shows "a = a' \<and> b = b' \<and> c = c' \<and> e = e'"
proof -
  have "[encode_text a, encode_text b, encode_text c, encode_text e] =
        [encode_text a', encode_text b', encode_text c', encode_text e']"
    using pack_parts_inj [OF assms(1,2,2)] assms(3-) by (simp add: encode_text_fits)
  then show ?thesis using assms(3-) by (auto dest: encode_text_inj)
qed

lemma encode_execution_fact_key_inj:
  assumes "encode_execution_fact_key k = encode_execution_fact_key l"
    and "fact_key_fits k" "fact_key_fits l"
  shows "k = l"
proof -
  have "broker_value (fk_broker k) = broker_value (fk_broker l) \<and>
        environment_value (fk_environment k) = environment_value (fk_environment l) \<and>
        account_value (fk_account k) = account_value (fk_account l) \<and>
        source_event_value (fk_source_event_id k) = source_event_value (fk_source_event_id l)"
    using assms unfolding encode_execution_fact_key_def fact_key_fits_def
    by (intro pack_four_texts_inj) auto
  then show ?thesis
    by (intro execution_fact_key.equality) (auto intro: id_expand)
qed

lemma encode_root_fill_key_inj:
  assumes "encode_root_fill_key k = encode_root_fill_key l"
    and "root_key_fits k" "root_key_fits l"
  shows "k = l"
proof -
  have "broker_value (rk_broker k) = broker_value (rk_broker l) \<and>
        environment_value (rk_environment k) = environment_value (rk_environment l) \<and>
        account_value (rk_account k) = account_value (rk_account l) \<and>
        root_fill_value (rk_root_fill_id k) = root_fill_value (rk_root_fill_id l)"
    using assms unfolding encode_root_fill_key_def root_key_fits_def
    by (intro pack_four_texts_inj) auto
  then show ?thesis
    by (intro root_fill_key.equality) (auto intro: id_expand)
qed

lemma encode_position_scope_inj:
  assumes "encode_position_scope k = encode_position_scope l"
    and "scope_fits k" "scope_fits l"
  shows "k = l"
proof -
  have "broker_value (ps_broker k) = broker_value (ps_broker l) \<and>
        environment_value (ps_environment k) = environment_value (ps_environment l) \<and>
        account_value (ps_account k) = account_value (ps_account l) \<and>
        symbol_value (ps_symbol_id k) = symbol_value (ps_symbol_id l)"
    using assms unfolding encode_position_scope_def scope_fits_def
    by (intro pack_four_texts_inj) auto
  then show ?thesis
    by (intro position_scope.equality) (auto intro: id_expand)
qed

end
