(* ===== verification/Interfaces.thy ===== *)
theory Interfaces
  imports Prelude
begin

text \<open>
  The contracts between the components of the kernel.

  \<^item> \<open>keyed_store\<close>: what the indexes rely on of the persistent map: an abstract
    contents function, insertion of a new key, replacement of an existing one, and the errors of
    both.
  \<^item> \<open>committed_sequence\<close>: what the position state and the indexes rely on of the
    persistent sequence: it is a list with a bounded length.
  \<^item> \<open>guarded_machine\<close> and \<open>simulating_machine\<close>: what a run of the
    kernel relies on of its steps.
\<close>

locale keyed_store =
  fixes empty :: "'m"
    and contents :: "'m \<Rightarrow> bytes \<Rightarrow> 'v option"
    and find :: "'m \<Rightarrow> bytes \<Rightarrow> 'v option"
    and insert_new :: "'m \<Rightarrow> bytes \<Rightarrow> 'v \<Rightarrow> bytes \<Rightarrow> 'm res"
    and replace_existing :: "'m \<Rightarrow> bytes \<Rightarrow> 'v \<Rightarrow> bytes \<Rightarrow> 'm res"
    and ok :: "('v \<Rightarrow> bytes \<Rightarrow> bool) \<Rightarrow> 'm \<Rightarrow> bool"
  assumes ok_empty: "ok f empty"
    and contents_empty: "contents empty = Map.empty"
    and find_contents: "ok f m \<Longrightarrow> key \<noteq> [] \<Longrightarrow> find m key = contents m key"
    and insert_new_ok: "ok f m \<Longrightarrow> key \<noteq> [] \<Longrightarrow> contents m key = None \<Longrightarrow> f v c \<Longrightarrow>
      \<exists>m'. insert_new m key v c = Inr m' \<and> ok f m' \<and> contents m' = (contents m)(key \<mapsto> v)"
    and insert_new_present: "ok f m \<Longrightarrow> key \<noteq> [] \<Longrightarrow> contents m key \<noteq> None \<Longrightarrow>
      insert_new m key v c = Inl ValueError"
    and replace_existing_ok: "ok f m \<Longrightarrow> key \<noteq> [] \<Longrightarrow> contents m key \<noteq> None \<Longrightarrow> f v c \<Longrightarrow>
      \<exists>m'. replace_existing m key v c = Inr m' \<and> ok f m' \<and> contents m' = (contents m)(key \<mapsto> v)"
    and replace_existing_absent: "ok f m \<Longrightarrow> key \<noteq> [] \<Longrightarrow> contents m key = None \<Longrightarrow>
      replace_existing m key v c = Inl KeyError"
begin

text \<open>A successful insertion was of an absent key; a successful replacement of a present one.\<close>

lemma insert_new_inv:
  assumes "insert_new m key v c = Inr m'" "ok f m" "key \<noteq> []" "f v c"
  shows "contents m key = None" and "ok f m'" and "contents m' = (contents m)(key \<mapsto> v)"
proof -
  show absent: "contents m key = None"
    using insert_new_present [OF assms(2,3), of v c] assms(1) by fastforce
  from insert_new_ok [OF assms(2,3) absent assms(4)] assms(1)
  show "ok f m'" "contents m' = (contents m)(key \<mapsto> v)" by auto
qed

lemma replace_existing_inv:
  assumes "replace_existing m key v c = Inr m'" "ok f m" "key \<noteq> []" "f v c"
  shows "contents m key \<noteq> None" and "ok f m'" and "contents m' = (contents m)(key \<mapsto> v)"
proof -
  show present: "contents m key \<noteq> None"
    using replace_existing_absent [OF assms(2,3), of v c] assms(1) by fastforce
  from replace_existing_ok [OF assms(2,3) present assms(4)] assms(1)
  show "ok f m'" "contents m' = (contents m)(key \<mapsto> v)" by auto
qed

text \<open>Inserting a list of distinct new keys succeeds and adds exactly that list.\<close>

lemma insert_all:
  assumes "ok (\<lambda>v c. c = g v) m" "\<forall>(k, v) \<in> set kvs. k \<noteq> [] \<and> contents m k = None" "distinct (map fst kvs)"
  shows "\<exists>m'. fold_res (\<lambda>(k, v) m. insert_new m k v (g v)) kvs m = Inr m' \<and> ok (\<lambda>v c. c = g v) m' \<and>
    contents m' = (\<lambda>k. case map_of kvs k of Some v \<Rightarrow> Some v | None \<Rightarrow> contents m k)"
  using assms
proof (induction kvs arbitrary: m)
  case Nil
  then show ?case by simp
next
  case (Cons p kvs)
  obtain k v where p: "p = (k, v)" by (cases p)
  from Cons.prems insert_new_ok [of "\<lambda>v c. c = g v" m k v "g v"] obtain m1 where
    m1: "insert_new m k v (g v) = Inr m1" "ok (\<lambda>v c. c = g v) m1" "contents m1 = (contents m)(k \<mapsto> v)"
    by (auto simp: p)
  have k: "k \<notin> fst ` set kvs" using Cons.prems(3) by (simp add: p)
  have "\<forall>(k', v') \<in> set kvs. k' \<noteq> [] \<and> contents m1 k' = None"
  proof clarify
    fix k' v' assume kv: "(k', v') \<in> set kvs"
    then have "k' \<noteq> k" using k by (metis fst_conv image_eqI)
    with kv Cons.prems(2) show "k' \<noteq> [] \<and> contents m1 k' = None" by (auto simp: m1(3))
  qed
  with m1(2) Cons.prems(3) obtain m2 where
    m2: "fold_res (\<lambda>(k, v) m. insert_new m k v (g v)) kvs m1 = Inr m2" "ok (\<lambda>v c. c = g v) m2"
    "contents m2 = (\<lambda>k. case map_of kvs k of Some v \<Rightarrow> Some v | None \<Rightarrow> contents m1 k)"
    using Cons.IH [of m1] by auto
  moreover have "map_of kvs k = None"
    using k by (simp add: map_of_eq_None_iff)
  ultimately show ?case
    using m1 by (auto simp: p fun_eq_iff split: option.splits)
qed

end

locale committed_sequence =
  fixes list_of :: "'s \<Rightarrow> 'v list"
    and empty :: "'s"
    and get :: "'s \<Rightarrow> int \<Rightarrow> 'v res"
    and append :: "'s \<Rightarrow> 'v \<Rightarrow> bytes \<Rightarrow> 's res"
    and update :: "'s \<Rightarrow> int \<Rightarrow> 'v \<Rightarrow> bytes \<Rightarrow> 's res"
    and ok :: "('v \<Rightarrow> bytes) \<Rightarrow> 's \<Rightarrow> bool"
    and capacity :: nat
  assumes ok_empty: "ok f empty"
    and list_empty: "list_of empty = []"
    and get_list: "ok f s \<Longrightarrow> get s i =
      (if 0 \<le> i \<and> i < int (length (list_of s)) then Inr (list_of s ! nat i) else Inl IndexError)"
    and append_ok: "ok f s \<Longrightarrow> length (list_of s) < capacity \<Longrightarrow> c = f v \<Longrightarrow>
      \<exists>s'. append s v c = Inr s' \<and> ok f s' \<and> list_of s' = list_of s @ [v]"
    and append_full: "ok f s \<Longrightarrow> \<not> length (list_of s) < capacity \<Longrightarrow> append s v c = Inl OverflowError"
    and update_ok: "ok f s \<Longrightarrow> 0 \<le> i \<Longrightarrow> i < int (length (list_of s)) \<Longrightarrow> c = f v \<Longrightarrow>
      \<exists>s'. update s i v c = Inr s' \<and> ok f s' \<and> list_of s' = (list_of s)[nat i := v]"
    and update_outside: "ok f s \<Longrightarrow> \<not> (0 \<le> i \<and> i < int (length (list_of s))) \<Longrightarrow>
      update s i v c = Inl IndexError"
begin

text \<open>Building a sequence from values gives back the values, within the capacity.\<close>

lemma append_all:
  assumes "ok f s" "length (list_of s) + length vs \<le> capacity"
  shows "\<exists>s'. fold_res (\<lambda>v s. append s v (f v)) vs s = Inr s' \<and> ok f s' \<and>
    list_of s' = list_of s @ vs"
  using assms
proof (induction vs arbitrary: s)
  case Nil
  then show ?case by simp
next
  case (Cons v vs)
  then obtain s1 where s1: "append s v (f v) = Inr s1" "ok f s1" "list_of s1 = list_of s @ [v]"
    using append_ok [of f s "f v" v] by auto
  with Cons.prems Cons.IH [of s1] show ?case by auto
qed

text \<open>Reading every index in order materializes the list.\<close>

lemma get_all:
  "ok f s \<Longrightarrow> map_res (\<lambda>i. get s (int i)) [0..<length (list_of s)] = Inr (list_of s)"
proof -
  assume "ok f s"
  then have "map_res (\<lambda>i. get s (int i)) [0..<length (list_of s)] =
      Inr (map (\<lambda>i. list_of s ! i) [0..<length (list_of s)])"
    by (intro map_res_all_Ok) (auto simp: get_list)
  then show ?thesis by (simp add: map_nth)
qed

end

text \<open>
  A machine whose admissible steps always go through while there is room, and keep an invariant; and
  such a machine that simulates an abstract one.
\<close>

locale guarded_machine =
  fixes step :: "'e \<Rightarrow> 's \<Rightarrow> 's res"
    and inv :: "'s \<Rightarrow> bool"
    and admissible :: "'e \<Rightarrow> bool"
    and room :: "'s \<Rightarrow> nat"
  assumes step_ok: "inv s \<Longrightarrow> admissible e \<Longrightarrow> 0 < room s \<Longrightarrow>
    \<exists>s'. step e s = Inr s' \<and> inv s' \<and> room s \<le> Suc (room s')"
begin

lemma run_ok:
  "inv s \<Longrightarrow> list_all admissible es \<Longrightarrow> length es \<le> room s \<Longrightarrow>
   \<exists>s'. fold_res step es s = Inr s' \<and> inv s' \<and> room s \<le> length es + room s'"
proof (induction es arbitrary: s)
  case Nil
  then show ?case by simp
next
  case (Cons e es)
  then obtain s1 where s1: "step e s = Inr s1" "inv s1" "room s \<le> Suc (room s1)"
    using step_ok [of s e] by auto
  with Cons.prems Cons.IH [of s1] show ?case by fastforce
qed

end

locale simulating_machine = guarded_machine step inv admissible room
  for step :: "'e \<Rightarrow> 's \<Rightarrow> 's res" and inv :: "'s \<Rightarrow> bool" and admissible :: "'e \<Rightarrow> bool"
    and room :: "'s \<Rightarrow> nat" +
  fixes related :: "'s \<Rightarrow> 'a \<Rightarrow> bool"
    and abstract_step :: "'e \<Rightarrow> 'a \<Rightarrow> 'a"
  assumes related_inv: "related s a \<Longrightarrow> inv s"
    and step_related: "related s a \<Longrightarrow> admissible e \<Longrightarrow> 0 < room s \<Longrightarrow> step e s = Inr s' \<Longrightarrow>
      related s' (abstract_step e a)"
begin

lemma run_related:
  "related s a \<Longrightarrow> list_all admissible es \<Longrightarrow> length es \<le> room s \<Longrightarrow>
   \<exists>s'. fold_res step es s = Inr s' \<and> related s' (fold abstract_step es a)"
proof (induction es arbitrary: s a)
  case Nil
  then show ?case by simp
next
  case (Cons e es)
  then obtain s1 where s1: "step e s = Inr s1" "room s \<le> Suc (room s1)"
    using step_ok [OF related_inv, of s a e] by auto
  moreover have "related s1 (abstract_step e a)"
    using Cons.prems s1(1) step_related by auto
  ultimately show ?case
    using Cons.prems Cons.IH [of s1 "abstract_step e a"] by auto
qed

end

end
