(* ===== verification/Radix_Correct.thy ===== *)
theory Radix_Correct
  imports Radix_Map Interfaces
begin

text \<open>
  Correctness of the persistent radix map: the binary search for a child, the exclusive-or edge sums
  under insertion and replacement, the update loop as a recursion along the key, the map as a finite
  map, and completeness and soundness of the key-bounded proofs. The interpretation at the end
  presents the map to its clients through the interface \<open>keyed_store\<close>.
\<close>

subsection \<open>Exclusive-or of commitments\<close>

lemma length_xor_commitments [simp]:
  "length (xor_commitments a b) = min (length a) (length b)"
  by (simp add: xor_commitments_def)

lemma xor_commitments_nth:
  "i < length a \<Longrightarrow> i < length b \<Longrightarrow> xor_commitments a b ! i = a ! i XOR b ! i"
  by (simp add: xor_commitments_def)

lemma length_zero_commitment [simp]: "length zero_commitment = 32"
  by (simp add: zero_commitment_def)

lemma length_edge [simp]: "length (radix_edge_commitment l c) = 32"
  by (simp add: radix_edge_commitment_def)

lemma length_digest [simp]: "length (radix_digest h v c) = 32"
  by (simp add: radix_digest_def)

lemma xor_commitments_comm: "xor_commitments a b = xor_commitments b a"
  by (rule nth_equalityI) (auto simp: xor_commitments_nth xor.commute)

lemma xor_commitments_assoc:
  "xor_commitments (xor_commitments a b) c = xor_commitments a (xor_commitments b c)"
  by (rule nth_equalityI) (auto simp: xor_commitments_nth xor.assoc)

lemma xor_commitments_cancel:
  "length a = length b \<Longrightarrow> xor_commitments (xor_commitments a b) b = a"
  by (rule nth_equalityI) (auto simp: xor_commitments_nth xor.assoc)

lemma foldl_xor_shift:
  "foldl (\<lambda>acc (l, c). xor_commitments acc (radix_edge_commitment l c)) (xor_commitments a b) es =
   xor_commitments
     (foldl (\<lambda>acc (l, c). xor_commitments acc (radix_edge_commitment l c)) a es) b"
proof (induction es arbitrary: a)
  case Nil
  then show ?case by simp
next
  case (Cons e es)
  obtain l c where e: "e = (l, c)" by (cases e)
  have "xor_commitments (xor_commitments a b) (radix_edge_commitment l c) =
        xor_commitments (xor_commitments a (radix_edge_commitment l c)) b"
    by (metis xor_commitments_assoc xor_commitments_comm)
  then show ?case using Cons.IH [of "xor_commitments a (radix_edge_commitment l c)"] by (simp add: e)
qed

lemma length_edge_sum [simp]: "length (edge_sum es) = 32"
proof -
  have "length a = 32 \<Longrightarrow>
    length (foldl (\<lambda>acc (l, c). xor_commitments acc (radix_edge_commitment l c)) a es) = 32" for a
    by (induction es arbitrary: a) auto
  then show ?thesis by (simp add: edge_sum_def)
qed

lemma edge_sum_insert:
  "edge_sum (xs @ (l, c) # ys) = xor_commitments (edge_sum (xs @ ys)) (radix_edge_commitment l c)"
  by (simp add: edge_sum_def foldl_xor_shift)

lemma edge_sum_Nil: "edge_sum [] = zero_commitment"
  by (simp add: edge_sum_def)

lemma edge_sum_update:
  "edge_sum (xs @ (l, d) # ys) =
   xor_commitments
     (xor_commitments (edge_sum (xs @ (l, c) # ys)) (radix_edge_commitment l c))
     (radix_edge_commitment l d)"
  by (simp add: edge_sum_insert xor_commitments_cancel)

subsection \<open>The binary search\<close>

lemma sorted_wrt_less_nth:
  "sorted_wrt (<) (map fst xs) \<Longrightarrow> i < j \<Longrightarrow> j < length xs \<Longrightarrow> fst (xs ! i) < fst (xs ! j)"
  for xs :: "('a::linorder \<times> 'b) list"
  using sorted_wrt_nth_less [of "(<)" "map fst xs" i j] by simp

text \<open>The search stops at the first child whose label is not smaller.\<close>

lemma child_search_bounds:
  assumes "sorted_wrt (<) (map fst cs)" "high \<le> length cs" "low \<le> high"
    and "\<And>i. i < low \<Longrightarrow> fst (cs ! i) < label"
    and "\<And>i. high \<le> i \<Longrightarrow> i < length cs \<Longrightarrow> label \<le> fst (cs ! i)"
  shows "child_search cs label low high \<le> length cs \<and>
    (\<forall>i < child_search cs label low high. fst (cs ! i) < label) \<and>
    (\<forall>i. child_search cs label low high \<le> i \<longrightarrow> i < length cs \<longrightarrow> label \<le> fst (cs ! i))"
  using assms
proof (induction cs label low high rule: child_search.induct)
  case (1 cs label low high)
  show ?case
  proof (cases "low < high")
    case False
    then have "child_search cs label low high = low" by (simp add: child_search.simps)
    with False "1.prems" show ?thesis by simp
  next
    case True
    let ?m = "(low + high) div 2"
    have m: "low \<le> ?m" "?m < high" using True by auto
    show ?thesis
    proof (cases "fst (cs ! ?m) < label")
      case less: True
      have "fst (cs ! i) < label" if "i < ?m + 1" for i
      proof (cases "i = ?m")
        case True
        with less show ?thesis by simp
      next
        case False
        with that have "i < ?m" by simp
        then have "fst (cs ! i) < fst (cs ! ?m)"
          using m "1.prems"(1,2) by (intro sorted_wrt_less_nth) auto
        with less show ?thesis by simp
      qed
      with "1.IH"(1) [OF True refl less] "1.prems" m show ?thesis
        by (simp add: child_search.simps [of cs label low high] True less)
    next
      case ge: False
      have "label \<le> fst (cs ! i)" if "?m \<le> i" "i < length cs" for i
      proof (cases "i = ?m")
        case True
        with ge show ?thesis by simp
      next
        case False
        with that have "fst (cs ! ?m) < fst (cs ! i)"
          using "1.prems"(1) by (intro sorted_wrt_less_nth) auto
        with ge show ?thesis by simp
      qed
      with "1.IH"(2) [OF True refl ge] "1.prems" m show ?thesis
        by (simp add: child_search.simps [of cs label low high] True ge)
    qed
  qed
qed

lemma child_at_split:
  assumes "sorted_wrt (<) (map fst cs)"
  obtains (absent) xs ys where "cs = xs @ ys" "child_at cs label = (length xs, None)"
      "\<forall>p \<in> set xs. fst p < label" "\<forall>p \<in> set ys. label < fst p"
  | (present) xs c ys where "cs = xs @ (label, c) # ys" "child_at cs label = (length xs, Some c)"
      "\<forall>p \<in> set xs. fst p < label" "\<forall>p \<in> set ys. label < fst p"
proof -
  define k where "k = child_search cs label 0 (length cs)"
  from child_search_bounds [OF assms, of "length cs" 0 label]
  have k: "k \<le> length cs" "\<And>i. i < k \<Longrightarrow> fst (cs ! i) < label"
    "\<And>i. k \<le> i \<Longrightarrow> i < length cs \<Longrightarrow> label \<le> fst (cs ! i)"
    by (auto simp: k_def)
  have xs: "\<forall>p \<in> set (take k cs). fst p < label"
  proof
    fix p assume "p \<in> set (take k cs)"
    then obtain i where "i < k" "p = cs ! i" by (auto simp: in_set_conv_nth)
    then show "fst p < label" using k(2) by simp
  qed
  show thesis
  proof (cases "k < length cs \<and> fst (cs ! k) = label")
    case True
    then have cs: "cs = take k cs @ (label, snd (cs ! k)) # drop (Suc k) cs"
      by (metis id_take_nth_drop prod.collapse)
    have "\<forall>p \<in> set (drop (Suc k) cs). label < fst p"
    proof
      fix p assume "p \<in> set (drop (Suc k) cs)"
      then obtain j where "j < length cs - Suc k" "p = cs ! (Suc k + j)"
        by (auto simp: in_set_conv_nth)
      then show "label < fst p"
        using sorted_wrt_less_nth [OF assms, of k "Suc k + j"] True by auto
    qed
    moreover have "child_at cs label = (length (take k cs), Some (snd (cs ! k)))"
      using True k(1) by (simp add: child_at_def k_def [symmetric] Let_def)
    ultimately show thesis using present cs xs by blast
  next
    case False
    have "\<forall>p \<in> set (drop k cs). label < fst p"
    proof
      fix p assume "p \<in> set (drop k cs)"
      then obtain j where j: "j < length cs - k" "p = cs ! (k + j)"
        by (auto simp: in_set_conv_nth)
      have "fst (cs ! k) \<noteq> label" "label \<le> fst (cs ! k)" using False j k(3) [of k] by auto
      moreover have "j \<noteq> 0 \<Longrightarrow> fst (cs ! k) < fst (cs ! (k + j))"
        using j sorted_wrt_less_nth [OF assms, of k "k + j"] by simp
      ultimately show "label < fst p"
        using j(2) by (cases "j = 0") (simp, metis order.strict_trans1)
    qed
    moreover have "child_at cs label = (length (take k cs), None)"
      using False k(1) by (auto simp: child_at_def k_def [symmetric] Let_def)
    ultimately show thesis using absent [of "take k cs" "drop k cs"] xs by simp
  qed
qed

lemma child_at_map_of:
  assumes "sorted_wrt (<) (map fst cs)"
  shows "snd (child_at cs label) = map_of cs label"
  using assms
proof (cases rule: child_at_split [where label = label])
  case (absent xs ys)
  then have "label \<notin> fst ` set (xs @ ys)" by auto
  with absent show ?thesis by (metis map_of_eq_None_iff snd_conv)
next
  case (present xs c ys)
  then have "label \<notin> fst ` set xs" by auto
  then have "map_of xs label = None" by (simp add: map_of_eq_None_iff)
  with present show ?thesis by (simp add: map_add_def)
qed

lemma sorted_wrt_insert_label:
  "sorted_wrt (<) (map fst (xs @ ys)) \<Longrightarrow> \<forall>p \<in> set xs. fst p < label \<Longrightarrow>
   \<forall>p \<in> set ys. label < fst p \<Longrightarrow> sorted_wrt (<) (map fst (xs @ (label, c) # ys))"
  by (auto simp: sorted_wrt_append)

subsection \<open>Well-formed nodes\<close>

text \<open>
  The invariant of a node over the relation \<open>f\<close> its map keeps between a value and the value
  commitment stored with it (\<open>committed_by\<close> for a committer): the value flag, the stored value
  commitment, the label order and the two cached commitments.
\<close>

fun radix_ok :: "('v \<Rightarrow> bytes \<Rightarrow> bool) \<Rightarrow> 'v radix_node \<Rightarrow> bool" where
  "radix_ok f (RadixNode v has_value vc cs cc cm) \<longleftrightarrow>
     has_value = (v \<noteq> None) \<and>
     (case v of None \<Rightarrow> vc = [] | Some x \<Rightarrow> f x vc) \<and>
     sorted_wrt (<) (map fst cs) \<and>
     (\<forall>p \<in> set cs. radix_ok f (snd p)) \<and>
     cc = edge_sum (map (\<lambda>(label, child). (label, node_commitment child)) cs) \<and>
     cm = radix_digest has_value vc cc"

lemma radix_okD:
  assumes "radix_ok f n"
  shows "node_has_value n = (node_value n \<noteq> None)"
    and "node_value n = Some x \<Longrightarrow> f x (node_value_commitment n)"
    and "node_value n = None \<Longrightarrow> node_value_commitment n = []"
    and "sorted_wrt (<) (map fst (node_children n))"
    and "(l, c) \<in> set (node_children n) \<Longrightarrow> radix_ok f c"
    and "node_children_commitment n =
         edge_sum (map (\<lambda>(label, child). (label, node_commitment child)) (node_children n))"
    and "node_commitment n =
         radix_digest (node_has_value n) (node_value_commitment n) (node_children_commitment n)"
  using assms by (cases n; force)+

lemma make_radix_node_sel [simp]:
  "node_value (make_radix_node v h vc cs cc) = v"
  "node_has_value (make_radix_node v h vc cs cc) = h"
  "node_value_commitment (make_radix_node v h vc cs cc) = vc"
  "node_children (make_radix_node v h vc cs cc) = cs"
  "node_children_commitment (make_radix_node v h vc cs (Some c)) = c"
  by (simp_all add: make_radix_node_def Let_def)

lemma radix_okI:
  assumes "has_value = (v \<noteq> None)" "case v of None \<Rightarrow> vc = [] | Some x \<Rightarrow> f x vc"
    and "sorted_wrt (<) (map fst cs)" "\<And>l c. (l, c) \<in> set cs \<Longrightarrow> radix_ok f c"
    and "cc = edge_sum (map (\<lambda>(label, child). (label, node_commitment child)) cs)"
  shows "radix_ok f (make_radix_node v has_value vc cs (Some cc))"
  using assms by (auto simp: make_radix_node_def Let_def)

lemma radix_ok_empty_node [simp]: "radix_ok f empty_node"
  by (simp add: empty_node_def make_radix_node_def Let_def)

lemma length_node_commitment: "radix_ok f n \<Longrightarrow> length (node_commitment n) = 32"
  by (simp add: radix_okD(7))

definition child_of :: "'v radix_node \<Rightarrow> byte \<Rightarrow> 'v radix_node option" where
  "child_of n label = map_of (node_children n) label"

lemma child_at_child_of: "radix_ok f n \<Longrightarrow> snd (child_at (node_children n) l) = child_of n l"
  by (simp add: child_of_def child_at_map_of radix_okD(4))

lemma radix_ok_child: "radix_ok f n \<Longrightarrow> child_of n l = Some c \<Longrightarrow> radix_ok f c"
  by (auto simp: child_of_def dest: map_of_SomeD radix_okD(5))

text \<open>Replacing or adding one child keeps the order and the edge sum.\<close>

lemma set_child_ok:
  assumes n: "radix_ok f n" and c: "radix_ok f c"
    and sc: "set_child n label c = (cs, cc)"
  shows "sorted_wrt (<) (map fst cs)"
    and "cc = edge_sum (map (\<lambda>(label, child). (label, node_commitment child)) cs)"
    and "\<And>l d. (l, d) \<in> set cs \<Longrightarrow> radix_ok f d"
    and "map_of cs = (map_of (node_children n))(label \<mapsto> c)"
proof -
  let ?cs = "node_children n"
  have srt: "sorted_wrt (<) (map fst ?cs)" by (rule radix_okD(4) [OF n])
  have "sorted_wrt (<) (map fst cs) \<and>
     cc = edge_sum (map (\<lambda>(label, child). (label, node_commitment child)) cs) \<and>
     (\<forall>l d. (l, d) \<in> set cs \<longrightarrow> radix_ok f d) \<and>
     map_of cs = (map_of ?cs)(label \<mapsto> c)"
    using srt
  proof (cases rule: child_at_split [where label = label])
    case (absent xs ys)
    then have cs: "cs = xs @ (label, c) # ys"
      and cc: "cc = xor_commitments (node_children_commitment n)
        (radix_edge_commitment label (node_commitment c))"
      using sc by (auto simp: set_child_def Let_def)
    have new: "map_of xs label = None" using absent by (auto simp: map_of_eq_None_iff)
    have "map_of cs = (map_of ?cs)(label \<mapsto> c)"
      by (rule ext) (use absent new in \<open>auto simp: cs map_add_def split: option.splits\<close>)
    moreover have "sorted_wrt (<) (map fst cs)"
      unfolding cs using absent srt by (intro sorted_wrt_insert_label) auto
    ultimately show ?thesis
      using absent(1) cs cc c radix_okD(5,6) [OF n] by (auto simp: edge_sum_insert)
  next
    case (present xs d ys)
    then have cs: "cs = xs @ (label, c) # ys"
      and cc: "cc = xor_commitments (xor_commitments (node_children_commitment n)
          (radix_edge_commitment label (node_commitment d)))
        (radix_edge_commitment label (node_commitment c))"
      using sc by (auto simp: set_child_def Let_def)
    have new: "map_of xs label = None" using present by (auto simp: map_of_eq_None_iff)
    have "map_of cs = (map_of ?cs)(label \<mapsto> c)"
      by (rule ext) (use present new in \<open>auto simp: cs map_add_def split: option.splits\<close>)
    moreover have "sorted_wrt (<) (map fst cs)"
      unfolding cs using present srt by (auto simp: sorted_wrt_append)
    ultimately show ?thesis
      using present(1) cs cc c radix_okD(5,6) [OF n]
      by (auto simp: edge_sum_insert xor_commitments_cancel)
  qed
  then show "sorted_wrt (<) (map fst cs)"
    and "cc = edge_sum (map (\<lambda>(label, child). (label, node_commitment child)) cs)"
    and "\<And>l d. (l, d) \<in> set cs \<Longrightarrow> radix_ok f d"
    and "map_of cs = (map_of ?cs)(label \<mapsto> c)"
    by blast+
qed

subsection \<open>The update as a recursion along the key\<close>

fun node_update :: "'v radix_node \<Rightarrow> bytes \<Rightarrow> 'v \<Rightarrow> bytes \<Rightarrow> 'v radix_node" where
  "node_update n [] v vc =
     make_radix_node (Some v) True vc (node_children n) (Some (node_children_commitment n))"
| "node_update n (label # key) v vc =
     (let child = (case snd (child_at (node_children n) label) of
                     Some c \<Rightarrow> c | None \<Rightarrow> empty_node);
          (cs, cc) = set_child n label (node_update child key v vc)
      in make_radix_node (node_value n) (node_has_value n) (node_value_commitment n) cs (Some cc))"

lemma set_rebuild_append:
  "set_rebuild (ps @ qs) n = set_rebuild qs (set_rebuild ps n)"
  by (induction ps arbitrary: n) (auto simp: Let_def split: prod.splits)

text \<open>Descending with a list of parents and rebuilding it backwards is that recursion.\<close>

lemma set_descend_rebuild:
  assumes "set_descend n key parents = (ps, m)"
  shows "set_rebuild (rev ps)
           (make_radix_node (Some v) True vc (node_children m)
              (Some (node_children_commitment m))) =
         set_rebuild (rev parents) (node_update n key v vc)"
  using assms
proof (induction n key parents rule: set_descend.induct)
  case (1 n parents)
  then show ?case by simp
next
  case (2 n label key parents)
  then show ?case
    by (simp add: Let_def set_rebuild_append split: prod.splits)
qed

definition node_map :: "'v radix_node \<Rightarrow> bytes \<Rightarrow> 'v option" where
  "node_map n key = (case walk n key of None \<Rightarrow> None | Some m \<Rightarrow> node_value m)"

lemma node_map_Nil: "node_map n [] = node_value n"
  by (simp add: node_map_def)

lemma node_map_Cons:
  "radix_ok f n \<Longrightarrow>
   node_map n (l # key) = (case child_of n l of None \<Rightarrow> None | Some c \<Rightarrow> node_map c key)"
  by (simp add: node_map_def child_at_child_of split: option.splits)

lemma node_map_empty_node [simp]: "node_map empty_node = Map.empty"
proof
  fix key
  show "node_map empty_node key = None"
    by (cases key) (simp_all add: node_map_def empty_node_def child_at_def Let_def)
qed

lemma node_update_correct:
  assumes "radix_ok f n" "f v vc"
  shows "radix_ok f (node_update n key v vc) \<and>
         node_map (node_update n key v vc) = (node_map n)(key \<mapsto> v)"
  using assms
proof (induction key arbitrary: n)
  case Nil
  let ?m = "node_update n [] v vc"
  have ok: "radix_ok f ?m"
    using Nil radix_okD(4,5,6) [OF Nil(1)] by (auto intro!: radix_okI)
  have "node_map ?m k = ((node_map n)([] \<mapsto> v)) k" for k
    using Nil(1) ok by (cases k) (auto simp: node_map_def)
  with ok show ?case by blast
next
  case (Cons l key)
  define child where "child = (case child_of n l of Some c \<Rightarrow> c | None \<Rightarrow> empty_node)"
  have child: "radix_ok f child"
    using Cons.prems radix_ok_child [of f n l] by (auto simp: child_def split: option.splits)
  note IH = Cons.IH [OF child Cons.prems(2)]
  obtain cs cc where sc: "set_child n l (node_update child key v vc) = (cs, cc)"
    by (cases "set_child n l (node_update child key v vc)") auto
  have upd: "node_update n (l # key) v vc =
      make_radix_node (node_value n) (node_has_value n) (node_value_commitment n) cs (Some cc)"
    using Cons.prems sc
    by (simp add: child_at_child_of [OF Cons.prems(1)] child_def [symmetric])
  note sco = set_child_ok [OF Cons.prems(1) conjunct1 [OF IH] sc]
  have ok: "radix_ok f (node_update n (l # key) v vc)"
    unfolding upd using Cons.prems sco radix_okD [OF Cons.prems(1)]
    by (intro radix_okI) (auto split: option.splits)
  have ch: "child_of (node_update n (l # key) v vc) = (child_of n)(l \<mapsto> node_update child key v vc)"
    unfolding upd using sco(4) by (simp add: child_of_def fun_eq_iff)
  have val: "node_value (node_update n (l # key) v vc) = node_value n"
    unfolding upd by simp
  have "node_map (node_update n (l # key) v vc) k = ((node_map n)(l # key \<mapsto> v)) k" for k
  proof (cases k)
    case Nil
    then show ?thesis by (simp add: node_map_Nil val del: node_update.simps)
  next
    case k: (Cons b ks)
    show ?thesis
    proof (cases "b = l")
      case False
      then show ?thesis
        by (simp add: k node_map_Cons [OF ok] node_map_Cons [OF Cons.prems(1)] ch
            del: node_update.simps)
    next
      case True
      have "node_map child = (\<lambda>ks. node_map n (l # ks))"
        by (rule ext) (simp add: node_map_Cons [OF Cons.prems(1)] child_def split: option.splits)
      with True IH show ?thesis
        by (simp add: k node_map_Cons [OF ok] ch del: node_update.simps)
    qed
  qed
  with ok show ?case by blast
qed

subsection \<open>The map against its abstract contents\<close>

definition pm_map :: "'v pmap \<Rightarrow> bytes \<Rightarrow> 'v option" where
  "pm_map m = node_map (pm_root m)"

abbreviation committed_by :: "('v \<Rightarrow> bytes) \<Rightarrow> 'v \<Rightarrow> bytes \<Rightarrow> bool" where
  "committed_by g v c \<equiv> c = g v"

definition pmap_ok :: "('v \<Rightarrow> bytes \<Rightarrow> bool) \<Rightarrow> 'v pmap \<Rightarrow> bool" where
  "pmap_ok f m \<longleftrightarrow>
     radix_ok f (pm_root m) \<and> finite (dom (pm_map m)) \<and> pm_size m = card (dom (pm_map m))"

lemma walk_ok: "radix_ok f n \<Longrightarrow> walk n k = Some x \<Longrightarrow> radix_ok f x"
  by (induction k arbitrary: n)
    (auto simp: child_at_child_of split: option.splits dest: radix_ok_child)

lemma pm_lookup_map:
  assumes "pmap_ok f m" "key \<noteq> []"
  shows "pm_lookup m key = Ok (pm_map m key \<noteq> None, pm_map m key)"
proof -
  have "node_has_value x = (node_value x \<noteq> None)" if "walk (pm_root m) key = Some x" for x
    using walk_ok [OF _ that, of f] assms(1) by (intro radix_okD(1)) (simp add: pmap_ok_def)
  with assms(2) show ?thesis
    by (auto simp: pm_lookup_def pm_map_def node_map_def split: option.splits)
qed

lemma pm_get_map: "pmap_ok f m \<Longrightarrow> key \<noteq> [] \<Longrightarrow> pm_get m key = Ok (pm_map m key)"
  by (simp add: pm_get_def pm_lookup_map)

lemma pm_empty_ok [simp]: "pmap_ok f pm_empty"
  by (simp add: pmap_ok_def pm_empty_def pm_map_def)

lemma pm_map_empty [simp]: "pm_map pm_empty = Map.empty"
  by (simp add: pm_empty_def pm_map_def)

lemma pm_set_cases:
  assumes ok: "pmap_ok f m" and key: "key \<noteq> []" and vc: "f v vc"
    and present: "require_existing = (pm_map m key \<noteq> None)"
  obtains m' where "pm_set m key v vc require_existing = Ok m'" "pmap_ok f m'"
    "pm_map m' = (pm_map m)(key \<mapsto> v)"
proof -
  obtain ps n where d: "set_descend (pm_root m) key [] = (ps, n)"
    by (cases "set_descend (pm_root m) key []") auto
  define m' where "m' = \<lparr>pm_root = node_update (pm_root m) key v vc,
     pm_size = (if require_existing then pm_size m else pm_size m + 1)\<rparr>"
  have "pm_set m key v vc require_existing = Ok m'"
    using ok key present d set_descend_rebuild [OF d, of v vc]
    by (simp add: pm_set_def pm_lookup_map m'_def)
  moreover have upd: "radix_ok f (pm_root m')" "pm_map m' = (pm_map m)(key \<mapsto> v)"
    using node_update_correct [of f "pm_root m" v vc key] ok vc
    by (simp_all add: m'_def pm_map_def pmap_ok_def)
  moreover have "finite (dom (pm_map m'))" "pm_size m' = card (dom (pm_map m'))"
    using ok present upd(2)
    by (auto simp: pmap_ok_def m'_def card_insert_if insert_absorb domIff)
  ultimately show thesis using that by (simp add: pmap_ok_def)
qed

lemma pm_set_errors:
  assumes "pmap_ok f m" "key \<noteq> []" "require_existing \<noteq> (pm_map m key \<noteq> None)"
  shows "pm_set m key v vc require_existing = Raise (if require_existing then KeyError else ValueError)"
  using assms by (auto simp: pm_set_def pm_lookup_map)

subsection \<open>Proofs of membership and absence\<close>

lemma witness_edges_of:
  assumes "sorted_wrt (<) (map fst cs)" "\<forall>(l, c) \<in> set cs. length c = 32 \<and> previous < uint l"
  shows "witness_edges previous acc (map (\<lambda>(l, c). (uint l, c)) cs) =
    Ok (foldl (\<lambda>acc (l, c). xor_commitments acc (radix_edge_commitment l c)) acc cs)"
  using assms
proof (induction cs arbitrary: previous acc)
  case Nil
  then show ?case by simp
next
  case (Cons p cs)
  obtain l c where p: "p = (l, c)" by (cases p)
  have "uint l \<le> 255" using uint_lt2p [of l] by simp
  moreover have "witness_edges (uint l) a (map (\<lambda>(l, c). (uint l, c)) cs) =
    Ok (foldl (\<lambda>acc (l, c). xor_commitments acc (radix_edge_commitment l c)) a cs)" for a
    using Cons.prems by (intro Cons.IH) (auto simp: p word_less_def)
  ultimately show ?case using Cons.prems by (simp add: p not_less)
qed

lemma length_distinct_bytes: "distinct (xs :: byte list) \<Longrightarrow> length xs \<le> 256"
  using card_mono [of "UNIV :: byte set" "set xs"] by (simp add: distinct_card card_word)

lemma witness_node_of_commitment:
  assumes ok: "radix_ok f n" and len: "\<And>v c. f v c \<Longrightarrow> length c = 32"
  shows "radix_witness_node_commitment (witness_node_of n) = Ok (node_commitment n)"
proof -
  let ?es = "map (\<lambda>(l, c). (l, node_commitment c)) (node_children n)"
  have "sorted_wrt (<) (map fst ?es)"
    using radix_okD(4) [OF ok] by (simp add: comp_def case_prod_beta)
  moreover have "\<forall>(l, c) \<in> set ?es. length c = 32 \<and> - 1 < uint l"
    using radix_okD(5) [OF ok] length_node_commitment [of f]
    by (auto intro: less_le_trans [OF _ uint_ge_0])
  ultimately have edges: "witness_edges (-1) zero_commitment (map (\<lambda>(l, c). (uint l, c)) ?es) =
    Ok (edge_sum ?es)"
    unfolding edge_sum_def by (rule witness_edges_of)
  have "length (node_children n) \<le> 256"
    using length_distinct_bytes [OF sorted_wrt_less_distinct [OF radix_okD(4) [OF ok]]] by simp
  then have len256: "length (map (\<lambda>(l, c). (uint l, c)) ?es) \<le> 256" by simp
  have chs: "rw_children (witness_node_of n) = map (\<lambda>(l, c). (uint l, c)) ?es"
    by (simp add: witness_node_of_def comp_def case_prod_beta)
  have "radix_witness_node_commitment (witness_node_of n) =
        Ok (radix_digest (node_has_value n)
          (if node_has_value n then node_value_commitment n else []) (edge_sum ?es))"
    unfolding radix_witness_node_commitment_def chs edges
    using radix_okD(1,2) [OF ok] len len256 by (auto simp: witness_node_of_def)
  then show ?thesis
    by (simp add: radix_okD(6,7) [OF ok] radix_digest_def)
qed

lemma witness_child_of:
  assumes "radix_ok f n"
  shows "radix_witness_child_commitment (witness_node_of n) (uint l) =
         map_option node_commitment (child_of n l)"
proof -
  have "map_of (map (\<lambda>(l, c). (uint l, node_commitment c)) cs) (uint l) =
        map_option node_commitment (map_of cs l)" for cs :: "(byte \<times> 'a radix_node) list"
    by (induction cs) (auto dest: unsigned_word_eqI)
  then show ?thesis
    by (simp add: radix_witness_child_commitment_def witness_node_of_def child_of_def)
qed

text \<open>The nodes of an honest proof, as a path of the tree.\<close>

fun radix_path :: "'v radix_node \<Rightarrow> bytes \<Rightarrow> 'v radix_node list" where
  "radix_path n [] = [n]"
| "radix_path n (l # key) =
     n # (case child_of n l of None \<Rightarrow> [] | Some c \<Rightarrow> radix_path c key)"

lemma witness_nodes_path:
  "radix_ok f n \<Longrightarrow> witness_nodes n key = map witness_node_of (radix_path n key)"
  by (induction key arbitrary: n)
    (auto simp: child_at_child_of split: option.splits dest: radix_ok_child)

lemma radix_path_ok: "radix_ok f n \<Longrightarrow> x \<in> set (radix_path n key) \<Longrightarrow> radix_ok f x"
  by (induction key arbitrary: n) (auto split: option.splits dest: radix_ok_child [OF _ sym])

lemma radix_path_nonempty [simp]: "radix_path n key \<noteq> []"
  by (cases key) simp_all

lemma radix_path_length: "length (radix_path n key) \<le> Suc (length key)"
  by (induction key arbitrary: n) (auto split: option.splits)

lemma radix_path_0: "radix_path n key ! 0 = n"
  by (cases key) simp_all

lemma radix_path_step:
  "Suc i < length (radix_path n key) \<Longrightarrow>
   i < length key \<and> child_of (radix_path n key ! i) (key ! i) = Some (radix_path n key ! Suc i)"
proof (induction key arbitrary: n i)
  case Nil
  then show ?case by simp
next
  case (Cons l key)
  then obtain c where c: "child_of n l = Some c" by (auto split: option.splits)
  show ?case
  proof (cases i)
    case 0
    with c show ?thesis by (simp add: radix_path_0)
  next
    case (Suc j)
    with Cons.IH [of j c] Cons.prems c show ?thesis by simp
  qed
qed

lemma radix_path_last:
  assumes "radix_ok f n"
  shows "(if length (radix_path n key) \<le> length key
          then child_of (last (radix_path n key)) (key ! (length (radix_path n key) - 1)) = None \<and>
               node_map n key = None
          else length (radix_path n key) = Suc (length key) \<and>
               node_value (last (radix_path n key)) = node_map n key)"
  using assms
proof (induction key arbitrary: n)
  case Nil
  then show ?case by (simp add: node_map_Nil)
next
  case (Cons l key)
  show ?case
  proof (cases "child_of n l")
    case None
    with Cons.prems show ?thesis by (simp add: node_map_Cons)
  next
    case (Some c)
    have "length (radix_path c key) - Suc 0 < length (radix_path c key)" by simp
    with Some Cons.prems Cons.IH [of c] radix_ok_child [OF Cons.prems Some] show ?thesis
      by (auto simp: node_map_Cons [OF Cons.prems] nth_Cons' split: if_splits)
  qed
qed

text \<open>
  Completeness: the proof minted for a key verifies against the map's own commitment, with the
  commitment of the value the map holds there, or with its absence.
\<close>

lemma witness_complete:
  assumes ok: "pmap_ok (committed_by g) m" and key: "key \<noteq> []" and len: "\<And>v. length (g v) = 32"
  shows "\<exists>w. pm_witness_for m key = Ok w \<and>
    witness_matches w (pm_commitment m) key (map_option g (pm_map m key))"
proof -
  let ?n = "pm_root m" and ?p = "radix_path (pm_root m) key"
  define w where "w = \<lparr>mw_key = key, mw_size = int (pm_size m), mw_nodes = witness_nodes ?n key\<rparr>"
  have n: "radix_ok (committed_by g) ?n" using ok by (simp add: pmap_ok_def)
  have nodes: "mw_nodes w = map witness_node_of ?p"
    by (simp add: w_def witness_nodes_path [OF n])
  have okp: "i < length ?p \<Longrightarrow> radix_ok (committed_by g) (?p ! i)" for i
    using radix_path_ok [OF n] nth_mem by blast
  have ncs: "map_res radix_witness_node_commitment (mw_nodes w) = Ok (map node_commitment ?p)"
    unfolding nodes map_res_map
    using len by (intro map_res_all_Ok)
      (auto intro!: witness_node_of_commitment [where f = "committed_by g"] radix_path_ok [OF n])
  have chain: "witness_chain w (map node_commitment ?p)"
    unfolding witness_chain_def
  proof
    fix i assume "i \<in> set [0..<length (mw_nodes w) - 1]"
    then have i: "Suc i < length ?p" by (auto simp: nodes)
    with radix_path_step [OF i] okp [of i]
    show "i < length (mw_key w) \<and>
      radix_witness_child_commitment (mw_nodes w ! i) (uint (mw_key w ! i)) =
      Some (map node_commitment ?p ! (i + 1))"
      by (simp add: nodes w_def [THEN arg_cong [where f = mw_key]] witness_child_of)
  qed
  have lst: "last (mw_nodes w) = witness_node_of (last ?p)"
    by (simp add: nodes last_map)
  have okl: "radix_ok (committed_by g) (last ?p)" by (rule radix_path_ok [OF n last_in_set]) simp
  have wl: "length (mw_nodes w) = length ?p" and mk: "mw_key w = key"
    by (simp_all add: nodes) (simp add: w_def)
  have "witness_terminal w (map_option g (pm_map m key))"
  proof (cases "length ?p \<le> length key")
    case True
    moreover have "0 < length ?p" by simp
    ultimately have "length ?p - 1 < length key" by linarith
    with True radix_path_last [OF n, of key] show ?thesis
      unfolding witness_terminal_def lst wl mk Let_def
      by (simp add: witness_child_of [OF okl] pm_map_def)
  next
    case False
    with radix_path_last [OF n, of key] show ?thesis
      unfolding witness_terminal_def lst wl mk Let_def
      using radix_okD(1,2) [OF okl]
      by (auto simp: witness_node_of_def pm_map_def split: option.splits)
  qed
  moreover have "mw_key w = key" "mw_size w = int (pm_size m)" by (simp_all add: w_def)
  ultimately have "witness_matches w (pm_commitment m) key (map_option g (pm_map m key))"
    using ncs chain key len radix_path_length [of ?n key]
    by (auto simp: witness_matches_def pm_commitment_def radix_path_0 nodes)
  then show ?thesis
    using key by (auto simp: pm_witness_for_def w_def)
qed

text \<open>
  Soundness. What an accepted proof claims of the key is what the map holds, provided no node of
  the proof has the digest of the map's own node at that depth without being that node, and the map
  digest is not shared by a different root.
\<close>

definition binding_on :: "map_witness \<Rightarrow> 'v pmap \<Rightarrow> bytes \<Rightarrow> bool" where
  "binding_on w m key \<longleftrightarrow>
     (\<forall>c. radix_witness_node_commitment (mw_nodes w ! 0) = Ok c \<and>
          commit_parts (text_bytes ''execution-core/persistent-map/v1'')
            [encode_int (mw_size w), c] = pm_commitment m \<longrightarrow> c = node_commitment (pm_root m)) \<and>
     (\<forall>i < length (mw_nodes w). \<forall>j < length (radix_path (pm_root m) key). i = j \<longrightarrow>
        radix_witness_node_commitment (mw_nodes w ! i) =
          Ok (node_commitment (radix_path (pm_root m) key ! j)) \<longrightarrow>
        mw_nodes w ! i = witness_node_of (radix_path (pm_root m) key ! j))"

lemma radix_path_extend:
  "i < length (radix_path n key) \<Longrightarrow> i < length key \<Longrightarrow>
   child_of (radix_path n key ! i) (key ! i) = Some c \<Longrightarrow>
   Suc i < length (radix_path n key) \<and> radix_path n key ! Suc i = c"
proof (induction key arbitrary: n i)
  case Nil
  then show ?case by simp
next
  case (Cons l key)
  show ?case
  proof (cases i)
    case 0
    with Cons.prems show ?thesis by (simp add: radix_path_0)
  next
    case (Suc j)
    with Cons.prems obtain d where d: "child_of n l = Some d" by (auto split: option.splits)
    with Suc Cons.prems Cons.IH [of j d] show ?thesis by simp
  qed
qed

lemma radix_path_stop:
  "i < length (radix_path n key) \<Longrightarrow> i < length key \<Longrightarrow>
   child_of (radix_path n key ! i) (key ! i) = None \<Longrightarrow> Suc i = length (radix_path n key)"
  by (metis Suc_lessI option.distinct(1) radix_path_step)

lemma witness_is_path:
  assumes ok: "radix_ok f (pm_root m)" and b: "binding_on w m key" and k: "mw_key w = key"
    and ncs: "map_res radix_witness_node_commitment (mw_nodes w) = Ok ncs"
    and root: "commit_parts (text_bytes ''execution-core/persistent-map/v1'')
                 [encode_int (mw_size w), ncs ! 0] = pm_commitment m"
    and chain: "witness_chain w ncs" and i: "i < length (mw_nodes w)"
  shows "i < length (radix_path (pm_root m) key) \<and>
         mw_nodes w ! i = witness_node_of (radix_path (pm_root m) key ! i)"
  using i
proof (induction i)
  case 0
  have "ncs ! 0 = node_commitment (pm_root m)"
    using b root map_res_eq_Inr_nth [OF ncs 0] by (auto simp: binding_on_def)
  with map_res_eq_Inr_nth [OF ncs 0] b 0 show ?case
    by (auto simp: binding_on_def radix_path_0)
next
  case (Suc i)
  let ?p = "radix_path (pm_root m) key"
  from Suc have IH: "i < length ?p" "mw_nodes w ! i = witness_node_of (?p ! i)" by auto
  have "radix_ok f (?p ! i)" using radix_path_ok [OF ok] nth_mem [OF IH(1)] by blast
  moreover have ik: "i < length key" and
    "radix_witness_child_commitment (mw_nodes w ! i) (uint (key ! i)) = Some (ncs ! Suc i)"
    using chain Suc.prems k by (auto simp: witness_chain_def)
  ultimately obtain c where c: "child_of (?p ! i) (key ! i) = Some c" "node_commitment c = ncs ! Suc i"
    using IH(2) by (auto simp: witness_child_of)
  from radix_path_extend [OF IH(1) ik c(1)] have "Suc i < length ?p" "?p ! Suc i = c" by auto
  with c(2) map_res_eq_Inr_nth [OF ncs Suc.prems] b Suc.prems show ?case
    by (auto simp: binding_on_def)
qed

text \<open>The proof built from the map itself is bound to it.\<close>

lemma witness_for_bound:
  assumes "radix_ok f (pm_root m)" "pm_witness_for m key = Ok w" "\<And>v c. f v c \<Longrightarrow> length c = 32"
  shows "binding_on w m key"
proof -
  have nodes: "mw_nodes w = map witness_node_of (radix_path (pm_root m) key)"
    using assms(2) by (auto simp: pm_witness_for_def require_eq_Inr witness_nodes_path [OF assms(1)])
  have "mw_nodes w ! 0 = witness_node_of (pm_root m)"
    by (simp add: nodes radix_path_0)
  then show ?thesis
    using witness_node_of_commitment [OF assms(1,3)] by (auto simp: binding_on_def nodes)
qed

lemma witness_sound:
  assumes ok: "pmap_ok (committed_by g) m" and m: "witness_matches w (pm_commitment m) key expected"
    and b: "binding_on w m key"
  shows "expected = map_option g (pm_map m key)"
proof -
  let ?p = "radix_path (pm_root m) key" and ?d = "length (mw_nodes w) - 1"
  have n: "radix_ok (committed_by g) (pm_root m)" using ok by (simp add: pmap_ok_def)
  from m obtain ncs where k: "mw_key w = key" and ne: "mw_nodes w \<noteq> []"
    and ncs: "map_res radix_witness_node_commitment (mw_nodes w) = Ok ncs"
    and root: "commit_parts (text_bytes ''execution-core/persistent-map/v1'')
                 [encode_int (mw_size w), ncs ! 0] = pm_commitment m"
    and chain: "witness_chain w ncs" and trm: "witness_terminal w expected"
    by (auto simp: witness_matches_def split: if_splits sum.splits)
  have d: "?d < length ?p" and wd: "last (mw_nodes w) = witness_node_of (?p ! ?d)"
    using witness_is_path [OF n b k ncs root chain, of ?d] ne by (auto simp: last_conv_nth)
  have okd: "radix_ok (committed_by g) (?p ! ?d)" using radix_path_ok [OF n] nth_mem [OF d] by blast
  show ?thesis
  proof (cases "?d < length key")
    case True
    with trm k have e: "expected = None"
      and "radix_witness_child_commitment (last (mw_nodes w)) (uint (key ! ?d)) = None"
      by (auto simp: witness_terminal_def Let_def)
    then have "child_of (?p ! ?d) (key ! ?d) = None"
      unfolding wd witness_child_of [OF okd] by simp
    from radix_path_stop [OF d True this] have "length ?p \<le> length key"
      using True by simp
    with e show ?thesis
      using radix_path_last [OF n, of key] by (auto simp: pm_map_def split: if_splits)
  next
    case False
    with trm k have dk: "?d = length key"
      by (auto simp: witness_terminal_def Let_def split: if_splits)
    have "length ?p = Suc (length key)" using d dk radix_path_length [of "pm_root m" key] by simp
    then have "?p ! ?d = last ?p" "node_value (last ?p) = node_map (pm_root m) key"
      using radix_path_last [OF n, of key] dk by (auto simp: last_conv_nth split: if_splits)
    with trm k dk wd show ?thesis
      using radix_okD(1,2) [OF okd]
      by (auto simp: witness_terminal_def Let_def witness_node_of_def pm_map_def
          split: option.splits if_splits)
  qed
qed

subsection \<open>The map as a keyed store\<close>

lemma pm_find_map: "pmap_ok f m \<Longrightarrow> key \<noteq> [] \<Longrightarrow> pm_find m key = pm_map m key"
  by (simp add: pm_find_def pm_get_map)

interpretation radix_store: keyed_store pm_empty pm_map pm_find pm_insert_new pm_replace_existing pmap_ok
proof
  fix f :: "'v \<Rightarrow> bytes \<Rightarrow> bool" and m v and key c :: bytes
  assume m: "pmap_ok f m" "key \<noteq> []"
  show "pm_find m key = pm_map m key"
    using m by (rule pm_find_map)
  show "pm_map m key \<noteq> None \<Longrightarrow> pm_insert_new m key v c = Inl ValueError"
    using m pm_set_errors [of f m key False v c] by (simp add: pm_insert_new_def)
  show "pm_map m key = None \<Longrightarrow> pm_replace_existing m key v c = Inl KeyError"
    using m pm_set_errors [of f m key True v c] by (simp add: pm_replace_existing_def)
  show "pm_map m key = None \<Longrightarrow> f v c \<Longrightarrow>
    \<exists>m'. pm_insert_new m key v c = Inr m' \<and> pmap_ok f m' \<and> pm_map m' = (pm_map m)(key \<mapsto> v)"
    using pm_set_cases [OF m, of v c False] unfolding pm_insert_new_def by metis
  show "pm_map m key \<noteq> None \<Longrightarrow> f v c \<Longrightarrow>
    \<exists>m'. pm_replace_existing m key v c = Inr m' \<and> pmap_ok f m' \<and> pm_map m' = (pm_map m)(key \<mapsto> v)"
    using pm_set_cases [OF m, of v c True] unfolding pm_replace_existing_def by metis
qed simp_all

end
