(* ===== verification/Persistent_Sequence.thy ===== *)
theory Persistent_Sequence
  imports Radix_Correct
begin

text \<open>
  \<^verbatim>\<open>_PersistentSequence\<close> of \<^verbatim>\<open>app/execution_core/fills.py\<close>: an
  immutable sequence kept as a radix map from the eight-byte big-endian index. Shown here: it is a
  list of at most \<open>2 ^ 64\<close> elements, and reading, appending and replacing do on that list
  what they do in the source, errors included.
\<close>

record 'v pseq =
  sq_values :: "'v pmap"
  sq_length :: nat

definition seq_empty :: "'v pseq" where
  "seq_empty = \<lparr>sq_values = pm_empty, sq_length = 0\<rparr>"

definition seq_key :: "int \<Rightarrow> bytes res" where
  "seq_key index =
     (if index < 0 \<or> index \<ge> 2 ^ 64 then Raise IndexError else Ok (to_bytes 8 (nat index)))"

definition seq_commitment :: "'v pseq \<Rightarrow> bytes" where
  "seq_commitment s =
     commit_parts (text_bytes ''execution-core/persistent-sequence/v1'')
       [encode_int (int (sq_length s)), pm_commitment (sq_values s)]"

definition seq_get :: "'v pseq \<Rightarrow> int \<Rightarrow> 'v res" where
  "seq_get s index =
     (if index < 0 \<or> index \<ge> int (sq_length s) then Raise IndexError
      else bind_res (seq_key index) (\<lambda>key.
           bind_res (pm_get (sq_values s) key) (\<lambda>v.
             case v of None \<Rightarrow> Raise RuntimeError | Some x \<Rightarrow> Ok x)))"

definition seq_append :: "'v pseq \<Rightarrow> 'v \<Rightarrow> bytes \<Rightarrow> 'v pseq res" where
  "seq_append s v value_commitment =
     (if sq_length s \<ge> 2 ^ 64 then Raise OverflowError
      else bind_res (seq_key (int (sq_length s))) (\<lambda>key.
           bind_res (pm_insert_new (sq_values s) key v value_commitment) (\<lambda>values.
             Ok \<lparr>sq_values = values, sq_length = sq_length s + 1\<rparr>)))"

definition seq_set :: "'v pseq \<Rightarrow> int \<Rightarrow> 'v \<Rightarrow> bytes \<Rightarrow> 'v pseq res" where
  "seq_set s index v value_commitment =
     (if index < 0 \<or> index \<ge> int (sq_length s) then Raise IndexError
      else bind_res (seq_key index) (\<lambda>key.
           bind_res (pm_replace_existing (sq_values s) key v value_commitment) (\<lambda>values.
             Ok \<lparr>sq_values = values, sq_length = sq_length s\<rparr>)))"

definition seq_from_values :: "'v list \<Rightarrow> ('v \<Rightarrow> bytes) \<Rightarrow> 'v pseq res" where
  "seq_from_values values value_committer =
     fold_res (\<lambda>v s. seq_append s v (value_committer v)) values seq_empty"

definition seq_to_tuple :: "'v pseq \<Rightarrow> 'v list res" where
  "seq_to_tuple s = map_res (\<lambda>i. seq_get s (int i)) [0..<sq_length s]"

subsection \<open>A sequence is a list\<close>

definition seq_list :: "'v pseq \<Rightarrow> 'v list" where
  "seq_list s = map (\<lambda>i. the (pm_map (sq_values s) (to_bytes 8 i))) [0..<sq_length s]"

definition seq_ok :: "('v \<Rightarrow> bytes) \<Rightarrow> 'v pseq \<Rightarrow> bool" where
  "seq_ok f s \<longleftrightarrow>
     pmap_ok (committed_by f) (sq_values s) \<and> sq_length s \<le> 2 ^ 64 \<and>
     dom (pm_map (sq_values s)) = to_bytes 8 ` {..<sq_length s}"

lemma length_seq_list [simp]: "length (seq_list s) = sq_length s"
  by (simp add: seq_list_def)

lemma pow_256_8: "(256::nat) ^ 8 = 2 ^ 64"
  by simp

lemma index_key_inj: "i < 2 ^ 64 \<Longrightarrow> j < 2 ^ 64 \<Longrightarrow> to_bytes 8 i = to_bytes 8 j \<Longrightarrow> i = j"
  unfolding pow_256_8 [symmetric] by (rule to_bytes_inj)

lemma seq_map_nth:
  "seq_ok f s \<Longrightarrow> i < sq_length s \<Longrightarrow> pm_map (sq_values s) (to_bytes 8 i) = Some (seq_list s ! i)"
proof -
  assume ok: "seq_ok f s" and i: "i < sq_length s"
  then have "to_bytes 8 i \<in> dom (pm_map (sq_values s))" by (simp add: seq_ok_def)
  with i show ?thesis by (auto simp: seq_list_def)
qed

lemma seq_key_nat: "i < 2 ^ 64 \<Longrightarrow> seq_key (int i) = Ok (to_bytes 8 i)"
  by (auto simp: seq_key_def)

lemma seq_get_list:
  assumes "seq_ok f s"
  shows "seq_get s i =
    (if 0 \<le> i \<and> i < int (length (seq_list s)) then Ok (seq_list s ! nat i) else Raise IndexError)"
proof (cases "0 \<le> i \<and> i < int (sq_length s)")
  case False
  then show ?thesis by (auto simp: seq_get_def)
next
  case True
  then obtain n where n: "i = int n" "n < sq_length s"
    by (metis nonneg_int_cases of_nat_less_iff)
  moreover have "n < 2 ^ 64" using n(2) assms unfolding seq_ok_def by linarith
  ultimately show ?thesis
    using assms seq_map_nth [OF assms n(2)] pm_get_map [of "committed_by f" "sq_values s" "to_bytes 8 n"]
    by (simp add: seq_get_def seq_key_nat seq_ok_def)
qed

lemma seq_append_list:
  assumes ok: "seq_ok f s" and room: "sq_length s < 2 ^ 64" and c: "c = f v"
  shows "\<exists>s'. seq_append s v c = Ok s' \<and> seq_ok f s' \<and> seq_list s' = seq_list s @ [v]"
proof -
  let ?n = "sq_length s" and ?k = "to_bytes 8 (sq_length s)"
  have d: "dom (pm_map (sq_values s)) = to_bytes 8 ` {..<?n}" and m: "pmap_ok (committed_by f) (sq_values s)"
    using ok by (auto simp: seq_ok_def)
  have fresh: "?k \<notin> to_bytes 8 ` {..<?n}"
    using room by (auto dest: index_key_inj [rotated 2])
  then obtain m' where m': "pm_insert_new (sq_values s) ?k v c = Ok m'" "pmap_ok (committed_by f) m'"
      "pm_map m' = (pm_map (sq_values s))(?k \<mapsto> v)"
    using radix_store.insert_new_ok [OF m _ _ c, of ?k] d by auto
  define s' where "s' = \<lparr>sq_values = m', sq_length = ?n + 1\<rparr>"
  have "seq_append s v c = Ok s'"
    using room m'(1) by (simp add: seq_append_def seq_key_nat s'_def)
  moreover have "seq_ok f s'"
    using room m' d by (auto simp: seq_ok_def s'_def lessThan_Suc)
  moreover have "pm_map m' (to_bytes 8 i) = pm_map (sq_values s) (to_bytes 8 i)" if "i < ?n" for i
    using fresh that m'(3) by (metis fun_upd_other imageI lessThan_iff)
  then have "seq_list s' = seq_list s @ [v]"
    by (simp add: seq_list_def s'_def m'(3))
  ultimately show ?thesis by blast
qed

lemma seq_set_list:
  assumes ok: "seq_ok f s" and i: "i < sq_length s" and c: "c = f v"
  shows "\<exists>s'. seq_set s (int i) v c = Ok s' \<and> seq_ok f s' \<and> seq_list s' = (seq_list s)[i := v]"
proof -
  let ?k = "to_bytes 8 i"
  have d: "dom (pm_map (sq_values s)) = to_bytes 8 ` {..<sq_length s}"
    and m: "pmap_ok (committed_by f) (sq_values s)" and le: "sq_length s \<le> 2 ^ 64"
    using ok by (auto simp: seq_ok_def)
  have i64: "i < 2 ^ 64" using i le by linarith
  have "pm_map (sq_values s) ?k \<noteq> None" using d i by blast
  then obtain m' where m': "pm_replace_existing (sq_values s) ?k v c = Ok m'" "pmap_ok (committed_by f) m'"
      "pm_map m' = (pm_map (sq_values s))(?k \<mapsto> v)"
    using radix_store.replace_existing_ok [OF m _ _ c, of ?k] by auto
  define s' where "s' = \<lparr>sq_values = m', sq_length = sq_length s\<rparr>"
  have "seq_set s (int i) v c = Ok s'"
    using i i64 m'(1) by (simp add: seq_set_def seq_key_nat s'_def)
  moreover have "seq_ok f s'"
    using m' d i le by (auto simp: seq_ok_def s'_def)
  moreover have "seq_list s' = (seq_list s)[i := v]"
  proof (rule nth_equalityI)
    fix j assume "j < length (seq_list s')"
    then have j: "j < sq_length s" by (simp add: s'_def)
    then have "to_bytes 8 j = ?k \<longleftrightarrow> j = i"
      using i64 le index_key_inj [of j i] by (metis order_less_le_trans)
    with j show "seq_list s' ! j = (seq_list s)[i := v] ! j"
      by (simp add: seq_list_def s'_def m'(3) nth_list_update)
  qed (simp add: s'_def)
  ultimately show ?thesis by blast
qed

interpretation radix_seq: committed_sequence seq_list seq_empty seq_get seq_append seq_set seq_ok "2 ^ 64"
proof
  fix f :: "'v \<Rightarrow> bytes" and s i c v
  show "seq_ok f seq_empty" by (simp add: seq_ok_def seq_empty_def)
  show "seq_list seq_empty = []" by (simp add: seq_list_def seq_empty_def)
  assume s: "seq_ok f s"
  show "seq_get s i =
    (if 0 \<le> i \<and> i < int (length (seq_list s)) then Inr (seq_list s ! nat i) else Inl IndexError)"
    by (rule seq_get_list [OF s])
  show "length (seq_list s) < 2 ^ 64 \<Longrightarrow> c = f v \<Longrightarrow>
    \<exists>s'. seq_append s v c = Inr s' \<and> seq_ok f s' \<and> seq_list s' = seq_list s @ [v]"
    using seq_append_list [OF s] by simp
  show "\<not> length (seq_list s) < 2 ^ 64 \<Longrightarrow> seq_append s v c = Inl OverflowError"
    by (simp add: seq_append_def)
  show "0 \<le> i \<Longrightarrow> i < int (length (seq_list s)) \<Longrightarrow> c = f v \<Longrightarrow>
    \<exists>s'. seq_set s i v c = Inr s' \<and> seq_ok f s' \<and> seq_list s' = (seq_list s)[nat i := v]"
    using seq_set_list [OF s, of "nat i" c v] by auto
  show "\<not> (0 \<le> i \<and> i < int (length (seq_list s))) \<Longrightarrow> seq_set s i v c = Inl IndexError"
    by (auto simp: seq_set_def)
qed

lemma seq_to_tuple_list: "seq_ok f s \<Longrightarrow> seq_to_tuple s = Ok (seq_list s)"
  using radix_seq.get_all [of f s] by (simp add: seq_to_tuple_def)

lemma seq_from_values_list:
  "length vs \<le> 2 ^ 64 \<Longrightarrow> \<exists>s. seq_from_values vs f = Ok s \<and> seq_ok f s \<and> seq_list s = vs"
  using radix_seq.append_all [OF radix_seq.ok_empty, of vs f]
  by (simp add: seq_from_values_def radix_seq.list_empty)

end
