(* ===== verification/Facts.thy ===== *)
theory Facts
  imports Persistent_Sequence
begin

text \<open>
  The canonical execution facts of \<^verbatim>\<open>app/execution_core/fills.py\<close>: broker fills,
  operator-attested fills, trade corrections and trade busts, with the checks of their constructors,
  their identities and their canonical commitments. A fact is accepted by its constructor exactly
  when \<open>fact_valid\<close> holds of it.
\<close>

record broker_fill_fact =
  bf_key :: execution_fact_key
  bf_scope :: execution_scope
  bf_root_fill_id :: root_fill_id
  bf_quantity :: quantity
  bf_price :: reported_price

record human_attested_fill_fact =
  hf_key :: execution_fact_key
  hf_scope :: execution_scope
  hf_root_fill_id :: root_fill_id
  hf_leg_key :: venue_leg_key
  hf_request_occurrence_id :: request_occurrence_id
  hf_claim_occurrence_id :: claim_occurrence_id
  hf_quantity :: quantity
  hf_prior_cumulative_quantity :: quantity
  hf_resulting_cumulative_quantity :: quantity
  hf_price :: reported_price
  hf_actor :: actor_id
  hf_reason :: string
  hf_evidence_reference :: evidence_reference

record broker_trade_correct_fact =
  cf_key :: execution_fact_key
  cf_scope :: execution_scope
  cf_root_fill_id :: root_fill_id
  cf_predecessor_source_event_id :: source_event_id
  cf_revised_quantity :: quantity
  cf_revised_price :: reported_price

record broker_trade_bust_fact =
  xf_key :: execution_fact_key
  xf_scope :: execution_scope
  xf_root_fill_id :: root_fill_id
  xf_predecessor_source_event_id :: source_event_id
  xf_reported_price :: "reported_price option"

datatype canonical_fact =
    BrokerFill broker_fill_fact
  | HumanAttestedFill human_attested_fill_fact
  | BrokerTradeCorrect broker_trade_correct_fact
  | BrokerTradeBust broker_trade_bust_fact

subsection \<open>Checks of the constructors\<close>

definition validate_fact_identity ::
  "execution_fact_key \<Rightarrow> execution_scope \<Rightarrow> root_fill_id \<Rightarrow> unit res" where
  "validate_fact_identity key scope root_fill_id =
     require (\<not> (fk_broker key \<noteq> es_broker scope \<or> fk_environment key \<noteq> es_environment scope \<or>
                 fk_account key \<noteq> es_account scope)) ValueError (Ok ())"

definition validate_positive_economics :: "quantity \<Rightarrow> reported_price \<Rightarrow> unit res" where
  "validate_positive_economics quantity price =
     require (\<not> quantity_value quantity \<le> 0) ValueError
     (require (\<not> exact_value price \<le> 0) ValueError (Ok ()))"

definition validate_predecessor :: "execution_fact_key \<Rightarrow> source_event_id \<Rightarrow> unit res" where
  "validate_predecessor key predecessor =
     require (predecessor \<noteq> fk_source_event_id key) ValueError (Ok ())"

definition mk_broker_fill_fact :: "broker_fill_fact \<Rightarrow> canonical_fact res" where
  "mk_broker_fill_fact f =
     bind_res (validate_fact_identity (bf_key f) (bf_scope f) (bf_root_fill_id f)) (\<lambda>_.
     bind_res (validate_positive_economics (bf_quantity f) (bf_price f)) (\<lambda>_.
       Ok (BrokerFill f)))"

definition mk_human_attested_fill_fact :: "human_attested_fill_fact \<Rightarrow> canonical_fact res" where
  "mk_human_attested_fill_fact f =
     bind_res (validate_fact_identity (hf_key f) (hf_scope f) (hf_root_fill_id f)) (\<lambda>_.
     bind_res (validate_positive_economics (hf_quantity f) (hf_price f)) (\<lambda>_.
     require (\<not> is_blank (hf_reason f)) ValueError
       (Ok (HumanAttestedFill f))))"

definition mk_broker_trade_correct_fact :: "broker_trade_correct_fact \<Rightarrow> canonical_fact res" where
  "mk_broker_trade_correct_fact f =
     bind_res (validate_fact_identity (cf_key f) (cf_scope f) (cf_root_fill_id f)) (\<lambda>_.
     bind_res (validate_predecessor (cf_key f) (cf_predecessor_source_event_id f)) (\<lambda>_.
     bind_res (validate_positive_economics (cf_revised_quantity f) (cf_revised_price f)) (\<lambda>_.
       Ok (BrokerTradeCorrect f))))"

definition mk_broker_trade_bust_fact :: "broker_trade_bust_fact \<Rightarrow> canonical_fact res" where
  "mk_broker_trade_bust_fact f =
     bind_res (validate_fact_identity (xf_key f) (xf_scope f) (xf_root_fill_id f)) (\<lambda>_.
     bind_res (validate_predecessor (xf_key f) (xf_predecessor_source_event_id f)) (\<lambda>_.
     case xf_reported_price f of
       None \<Rightarrow> Ok (BrokerTradeBust f)
     | Some p \<Rightarrow> require (\<not> exact_value p \<le> 0) ValueError (Ok (BrokerTradeBust f))))"

subsection \<open>Identity, kind and authority\<close>

fun fact_key :: "canonical_fact \<Rightarrow> execution_fact_key" where
  "fact_key (BrokerFill f) = bf_key f"
| "fact_key (HumanAttestedFill f) = hf_key f"
| "fact_key (BrokerTradeCorrect f) = cf_key f"
| "fact_key (BrokerTradeBust f) = xf_key f"

fun fact_scope :: "canonical_fact \<Rightarrow> execution_scope" where
  "fact_scope (BrokerFill f) = bf_scope f"
| "fact_scope (HumanAttestedFill f) = hf_scope f"
| "fact_scope (BrokerTradeCorrect f) = cf_scope f"
| "fact_scope (BrokerTradeBust f) = xf_scope f"

fun fact_root_fill_id :: "canonical_fact \<Rightarrow> root_fill_id" where
  "fact_root_fill_id (BrokerFill f) = bf_root_fill_id f"
| "fact_root_fill_id (HumanAttestedFill f) = hf_root_fill_id f"
| "fact_root_fill_id (BrokerTradeCorrect f) = cf_root_fill_id f"
| "fact_root_fill_id (BrokerTradeBust f) = xf_root_fill_id f"

fun fact_kind_of :: "canonical_fact \<Rightarrow> fact_kind" where
  "fact_kind_of (BrokerFill f) = FILL"
| "fact_kind_of (HumanAttestedFill f) = FILL"
| "fact_kind_of (BrokerTradeCorrect f) = TRADE_CORRECT"
| "fact_kind_of (BrokerTradeBust f) = TRADE_BUST"

fun fact_authority :: "canonical_fact \<Rightarrow> execution_authority" where
  "fact_authority (HumanAttestedFill f) = HUMAN_ATTESTED"
| "fact_authority _ = BROKER_AUTHORITATIVE"

definition fact_root_key :: "canonical_fact \<Rightarrow> root_fill_key" where
  "fact_root_key f =
     \<lparr>rk_broker = fk_broker (fact_key f), rk_environment = fk_environment (fact_key f),
      rk_account = fk_account (fact_key f), rk_root_fill_id = fact_root_fill_id f\<rparr>"

fun encode_execution_fact :: "canonical_fact \<Rightarrow> bytes" where
  "encode_execution_fact (BrokerFill f) =
     commit_parts (text_bytes ''execution-core/broker-fill-fact/v1'')
       [encode_execution_fact_key (bf_key f), encode_execution_scope (bf_scope f),
        encode_root_fill_key (fact_root_key (BrokerFill f)),
        encode_int (quantity_value (bf_quantity f)),
        encode_reported_price (Some (bf_price f))]"
| "encode_execution_fact (HumanAttestedFill f) =
     commit_parts (text_bytes ''execution-core/human-attested-fill-fact/v1'')
       [encode_execution_fact_key (hf_key f), encode_execution_scope (hf_scope f),
        encode_root_fill_key (fact_root_key (HumanAttestedFill f)),
        encode_text (broker_value (lk_broker (hf_leg_key f))),
        encode_text (environment_value (lk_environment (hf_leg_key f))),
        encode_text (account_value (lk_account (hf_leg_key f))),
        encode_text (order_value (lk_order_id (hf_leg_key f))),
        encode_text (request_occurrence_value (hf_request_occurrence_id f)),
        encode_text (claim_occurrence_value (hf_claim_occurrence_id f)),
        encode_int (quantity_value (hf_quantity f)),
        encode_int (quantity_value (hf_prior_cumulative_quantity f)),
        encode_int (quantity_value (hf_resulting_cumulative_quantity f)),
        encode_reported_price (Some (hf_price f)),
        encode_text (actor_value (hf_actor f)), encode_text (hf_reason f),
        encode_text (evidence_value (hf_evidence_reference f))]"
| "encode_execution_fact (BrokerTradeCorrect f) =
     commit_parts (text_bytes ''execution-core/broker-correct-fact/v1'')
       [encode_execution_fact_key (cf_key f), encode_execution_scope (cf_scope f),
        encode_root_fill_key (fact_root_key (BrokerTradeCorrect f)),
        encode_source_event_id (cf_predecessor_source_event_id f),
        encode_int (quantity_value (cf_revised_quantity f)),
        encode_reported_price (Some (cf_revised_price f))]"
| "encode_execution_fact (BrokerTradeBust f) =
     commit_parts (text_bytes ''execution-core/broker-bust-fact/v1'')
       [encode_execution_fact_key (xf_key f), encode_execution_scope (xf_scope f),
        encode_root_fill_key (fact_root_key (BrokerTradeBust f)),
        encode_source_event_id (xf_predecessor_source_event_id f),
        encode_reported_price (xf_reported_price f)]"

declare encode_execution_fact.simps [simp del]

subsection \<open>Valid facts\<close>

text \<open>What a constructed fact satisfies: matching key and scope and positive economics.\<close>

definition same_venue :: "execution_fact_key \<Rightarrow> execution_scope \<Rightarrow> bool" where
  "same_venue k s \<longleftrightarrow>
     fk_broker k = es_broker s \<and> fk_environment k = es_environment s \<and> fk_account k = es_account s"

fun fact_valid :: "canonical_fact \<Rightarrow> bool" where
  "fact_valid (BrokerFill f) =
     (same_venue (bf_key f) (bf_scope f) \<and> quantity_value (bf_quantity f) > 0 \<and>
      exact_value (bf_price f) > 0)"
| "fact_valid (HumanAttestedFill f) =
     (same_venue (hf_key f) (hf_scope f) \<and> quantity_value (hf_quantity f) > 0 \<and>
      exact_value (hf_price f) > 0 \<and> \<not> is_blank (hf_reason f))"
| "fact_valid (BrokerTradeCorrect f) =
     (same_venue (cf_key f) (cf_scope f) \<and>
      cf_predecessor_source_event_id f \<noteq> fk_source_event_id (cf_key f) \<and>
      quantity_value (cf_revised_quantity f) > 0 \<and> exact_value (cf_revised_price f) > 0)"
| "fact_valid (BrokerTradeBust f) =
     (same_venue (xf_key f) (xf_scope f) \<and>
      xf_predecessor_source_event_id f \<noteq> fk_source_event_id (xf_key f) \<and>
      (\<forall>p \<in> set_option (xf_reported_price f). exact_value p > 0))"

lemma mk_fact_valid:
  "mk_broker_fill_fact bf = (if fact_valid (BrokerFill bf) then Ok (BrokerFill bf) else Raise ValueError)"
  "mk_human_attested_fill_fact hf =
     (if fact_valid (HumanAttestedFill hf) then Ok (HumanAttestedFill hf) else Raise ValueError)"
  "mk_broker_trade_correct_fact cf =
     (if fact_valid (BrokerTradeCorrect cf) then Ok (BrokerTradeCorrect cf) else Raise ValueError)"
  "mk_broker_trade_bust_fact xf =
     (if fact_valid (BrokerTradeBust xf) then Ok (BrokerTradeBust xf) else Raise ValueError)"
  by (auto simp: mk_broker_fill_fact_def mk_human_attested_fill_fact_def
      mk_broker_trade_correct_fact_def mk_broker_trade_bust_fact_def validate_fact_identity_def
      validate_positive_economics_def validate_predecessor_def same_venue_def require_def
      split: option.splits)

lemma fact_valid_same_venue: "fact_valid f \<Longrightarrow> same_venue (fact_key f) (fact_scope f)"
  by (cases f) auto

lemma fact_root_key_sel [simp]:
  "rk_broker (fact_root_key f) = fk_broker (fact_key f)"
  "rk_environment (fact_root_key f) = fk_environment (fact_key f)"
  "rk_account (fact_root_key f) = fk_account (fact_key f)"
  "rk_root_fill_id (fact_root_key f) = fact_root_fill_id f"
  by (simp_all add: fact_root_key_def)

lemma length_encode_execution_fact [simp, len_simps]: "length (encode_execution_fact f) = 32"
  by (cases f) (simp_all add: encode_execution_fact.simps)

text \<open>The texts of a fact's key, root key and predecessor fit their frames.\<close>

definition fact_fits :: "canonical_fact \<Rightarrow> bool" where
  "fact_fits f \<longleftrightarrow>
     fact_key_fits (fact_key f) \<and> text_fits (root_fill_value (fact_root_fill_id f)) \<and>
     (case f of
        BrokerTradeCorrect c \<Rightarrow> text_fits (source_event_value (cf_predecessor_source_event_id c))
      | BrokerTradeBust x \<Rightarrow> text_fits (source_event_value (xf_predecessor_source_event_id x))
      | _ \<Rightarrow> True)"

lemma fact_fits_root_key: "fact_fits f \<Longrightarrow> root_key_fits (fact_root_key f)"
  by (simp add: fact_fits_def root_key_fits_def fact_key_fits_def)

subsection \<open>The snapshot binding\<close>

text \<open>
  \<^verbatim>\<open>_SnapshotBinding\<close>, the shared high-water all components of one snapshot carry. The
  source compares bindings with \<^verbatim>\<open>is\<close>, so a binding carries the identity of the object
  (\<open>sb_object\<close>): equality of two values of this type is identity of the two objects.
\<close>

record snapshot_binding =
  sb_object :: nat
  sb_position_scope :: position_scope
  sb_position_commitment :: bytes
  sb_root_heads_commitment :: bytes
  sb_seen_facts_commitment :: bytes
  sb_integrity_bits :: nat
  sb_account_reconciliation_required :: bool
  sb_reconciliation_transition_count :: int
  sb_reconciliation_transition_head :: bytes
  sb_snapshot_commitment :: bytes

definition mk_snapshot_binding :: "snapshot_binding \<Rightarrow> snapshot_binding res" where
  "mk_snapshot_binding b =
     require (length (sb_position_commitment b) = 32 \<and> length (sb_root_heads_commitment b) = 32 \<and>
              length (sb_seen_facts_commitment b) = 32 \<and>
              length (sb_reconciliation_transition_head b) = 32 \<and>
              length (sb_snapshot_commitment b) = 32) ValueError
     (require (sb_reconciliation_transition_count b \<ge> 0) ValueError (Ok b))"

end
