(* ===== verification/Root_Heads.thy ===== *)
theory Root_Heads
  imports Facts
begin

text \<open>
  \<^verbatim>\<open>RootHead\<close> and \<^verbatim>\<open>RootHeadIndex\<close> of
  \<^verbatim>\<open>app/execution_core/fills.py\<close>: the current effective economics of every root, in
  order of first application, indexed by the encoded root key. Shown here: the index is a list of
  heads with distinct roots whose positions are their original sequence numbers, its order and head
  sequences and its signed quantity are those of that list, and appending and replacing do exactly
  that on the list.
\<close>

record root_head =
  rh_root_key :: root_fill_key
  rh_original_sequence :: nat
  rh_scope :: execution_scope
  rh_authority :: execution_authority
  rh_current_source_event_id :: source_event_id
  rh_kind :: fact_kind
  rh_quantity :: quantity
  rh_price :: "reported_price option"
  rh_prefix_heads_commitment :: bytes
  rh_prefix_proof_commitment :: bytes

definition mk_root_head :: "root_head \<Rightarrow> root_head res" where
  "mk_root_head h =
     require (\<not> (rk_broker (rh_root_key h) \<noteq> es_broker (rh_scope h) \<or>
                 rk_environment (rh_root_key h) \<noteq> es_environment (rh_scope h) \<or>
                 rk_account (rh_root_key h) \<noteq> es_account (rh_scope h))) ValueError
     (require (case rh_price h of None \<Rightarrow> True | Some p \<Rightarrow> \<not> exact_value p \<le> 0) ValueError
     (if rh_kind h = TRADE_BUST
      then require (quantity_value (rh_quantity h) = 0) ValueError (Ok h)
      else require (\<not> (quantity_value (rh_quantity h) \<le> 0 \<or> rh_price h = None)) ValueError (Ok h)))"

definition signed_quantity_of :: "root_head \<Rightarrow> int" where
  "signed_quantity_of h =
     (if es_side (rh_scope h) = BUY then quantity_value (rh_quantity h)
      else - quantity_value (rh_quantity h))"

definition commit_root_head :: "root_head \<Rightarrow> bytes" where
  "commit_root_head h =
     commit_parts (text_bytes ''execution-core/root-head/v1'')
       [encode_root_fill_key (rh_root_key h), encode_int (int (rh_original_sequence h)),
        encode_execution_scope (rh_scope h), encode_text (authority_value (rh_authority h)),
        encode_source_event_id (rh_current_source_event_id h),
        encode_text (kind_value (rh_kind h)), encode_int (quantity_value (rh_quantity h)),
        encode_reported_price (rh_price h), rh_prefix_heads_commitment h,
        rh_prefix_proof_commitment h]"

record root_head_index =
  ri_by_root :: "root_head pmap"
  ri_root_sequence :: "root_fill_key pseq"
  ri_head_sequence :: "source_event_id pseq"
  ri_broker_scope_counts :: "nat pmap"
  ri_position_scope :: "position_scope option"
  ri_signed_quantity :: int
  ri_binding :: "snapshot_binding option"

definition ri_empty :: "position_scope option \<Rightarrow> root_head_index" where
  "ri_empty scope =
     \<lparr>ri_by_root = pm_empty, ri_root_sequence = seq_empty, ri_head_sequence = seq_empty,
      ri_broker_scope_counts = pm_empty, ri_position_scope = scope, ri_signed_quantity = 0,
      ri_binding = None\<rparr>"

definition ri_count :: "root_head_index \<Rightarrow> nat" where
  "ri_count idx = sq_length (ri_root_sequence idx)"

definition ri_root_order_commitment :: "root_head_index \<Rightarrow> bytes" where
  "ri_root_order_commitment idx = seq_commitment (ri_root_sequence idx)"

definition ri_head_ids_commitment :: "root_head_index \<Rightarrow> bytes" where
  "ri_head_ids_commitment idx = seq_commitment (ri_head_sequence idx)"

definition ri_commitment :: "root_head_index \<Rightarrow> bytes" where
  "ri_commitment idx =
     (let scope = (case ri_position_scope idx of
                     Some s \<Rightarrow> encode_position_scope s | None \<Rightarrow> [])
      in commit_parts (text_bytes ''execution-core/root-head-index/v2'')
           [scope, encode_int (ri_signed_quantity idx), pm_commitment (ri_by_root idx),
            seq_commitment (ri_root_sequence idx), seq_commitment (ri_head_sequence idx),
            pm_commitment (ri_broker_scope_counts idx)])"

definition ri_get :: "root_head_index \<Rightarrow> root_fill_key \<Rightarrow> root_head option" where
  "ri_get idx root_key = pm_find (ri_by_root idx) (encode_root_fill_key root_key)"

definition ri_current_head_witness :: "root_head_index \<Rightarrow> root_fill_key \<Rightarrow> map_witness res" where
  "ri_current_head_witness idx root_key =
     pm_witness_for (ri_by_root idx) (encode_root_fill_key root_key)"

definition ri_entries :: "root_head_index \<Rightarrow> root_head list res" where
  "ri_entries idx =
     map_res (\<lambda>i. bind_res (seq_get (ri_root_sequence idx) (int i)) (\<lambda>root_key.
        case ri_get idx root_key of None \<Rightarrow> Raise RuntimeError | Some h \<Rightarrow> Ok h))
      [0..<ri_count idx]"

definition broker_root_count :: "root_head_index \<Rightarrow> execution_scope \<Rightarrow> nat" where
  "broker_root_count idx scope =
     (case pm_find (ri_broker_scope_counts idx) (encode_execution_scope scope) of
        None \<Rightarrow> 0 | Some n \<Rightarrow> n)"

definition next_broker_scope_counts :: "root_head_index \<Rightarrow> root_head \<Rightarrow> nat pmap res" where
  "next_broker_scope_counts idx h =
     (let counts = ri_broker_scope_counts idx
      in if rh_authority h = BROKER_AUTHORITATIVE
         then let encoded_scope = encode_execution_scope (rh_scope h);
                  current_count = pm_find counts encoded_scope;
                  next_count = (case current_count of None \<Rightarrow> 1 | Some n \<Rightarrow> n + 1);
                  count_commitment =
                    commit_parts (text_bytes ''execution-core/broker-scope-root-count/v1'')
                      [encoded_scope, encode_int (int next_count)]
              in (case current_count of
                    None \<Rightarrow> pm_insert_new counts encoded_scope next_count count_commitment
                  | Some _ \<Rightarrow> pm_replace_existing counts encoded_scope next_count count_commitment)
         else Ok counts)"

definition ri_append :: "root_head_index \<Rightarrow> root_head \<Rightarrow> root_head_index res" where
  "ri_append idx h =
     require (ri_get idx (rh_root_key h) = None) ValueError
     (require (rh_original_sequence h = ri_count idx) ValueError
     (let head_scope = position_scope_of (rh_scope h)
      in require (case ri_position_scope idx of None \<Rightarrow> True | Some s \<Rightarrow> head_scope = s) ValueError
     (bind_res (next_broker_scope_counts idx h) (\<lambda>counts.
      bind_res (pm_insert_new (ri_by_root idx) (encode_root_fill_key (rh_root_key h)) h
                  (commit_root_head h)) (\<lambda>by_root.
      bind_res (seq_append (ri_root_sequence idx) (rh_root_key h)
                  (commit_root_fill_key (rh_root_key h))) (\<lambda>root_sequence.
      bind_res (seq_append (ri_head_sequence idx) (rh_current_source_event_id h)
                  (commit_source_event_id (rh_current_source_event_id h))) (\<lambda>head_sequence.
        Ok \<lparr>ri_by_root = by_root, ri_root_sequence = root_sequence,
            ri_head_sequence = head_sequence, ri_broker_scope_counts = counts,
            ri_position_scope =
              (case ri_position_scope idx of Some s \<Rightarrow> Some s | None \<Rightarrow> Some head_scope),
            ri_signed_quantity = ri_signed_quantity idx + signed_quantity_of h,
            ri_binding = None\<rparr>)))))))"

definition ri_replace :: "root_head_index \<Rightarrow> root_head \<Rightarrow> root_head_index res" where
  "ri_replace idx h =
     (case ri_get idx (rh_root_key h) of
        None \<Rightarrow> Raise KeyError
      | Some current \<Rightarrow>
          require (rh_original_sequence h = rh_original_sequence current) ValueError
          (require (rh_scope h = rh_scope current) ValueError
          (require (rh_authority h = rh_authority current) ValueError
          (bind_res (pm_replace_existing (ri_by_root idx) (encode_root_fill_key (rh_root_key h)) h
                       (commit_root_head h)) (\<lambda>by_root.
           bind_res (seq_set (ri_head_sequence idx) (int (rh_original_sequence h))
                       (rh_current_source_event_id h)
                       (commit_source_event_id (rh_current_source_event_id h))) (\<lambda>head_sequence.
             Ok (idx\<lparr>ri_by_root := by_root, ri_head_sequence := head_sequence,
                     ri_signed_quantity :=
                       ri_signed_quantity idx - signed_quantity_of current + signed_quantity_of h,
                     ri_binding := None\<rparr>)))))))"

definition ri_with_binding :: "root_head_index \<Rightarrow> snapshot_binding \<Rightarrow> root_head_index" where
  "ri_with_binding idx binding = idx\<lparr>ri_binding := Some binding\<rparr>"

definition ri_new :: "root_head list \<Rightarrow> position_scope option \<Rightarrow> root_head_index res" where
  "ri_new entries scope = fold_res (\<lambda>h idx. ri_append idx h) entries (ri_empty scope)"

subsection \<open>The index as a list of heads\<close>

definition head_valid :: "root_head \<Rightarrow> bool" where
  "head_valid h \<longleftrightarrow>
     rk_broker (rh_root_key h) = es_broker (rh_scope h) \<and>
     rk_environment (rh_root_key h) = es_environment (rh_scope h) \<and>
     rk_account (rh_root_key h) = es_account (rh_scope h) \<and>
     (\<forall>p \<in> set_option (rh_price h). exact_value p > 0) \<and>
     (if rh_kind h = TRADE_BUST then quantity_value (rh_quantity h) = 0
      else quantity_value (rh_quantity h) > 0 \<and> rh_price h \<noteq> None)"

lemma mk_root_head_valid: "mk_root_head h = (if head_valid h then Ok h else Raise ValueError)"
  by (auto simp: mk_root_head_def head_valid_def require_def split: option.splits)

text \<open>The heads in root order.\<close>

definition ri_heads :: "root_head_index \<Rightarrow> root_head list" where
  "ri_heads idx =
     map (\<lambda>k. the (pm_map (ri_by_root idx) (encode_root_fill_key k))) (seq_list (ri_root_sequence idx))"

definition heads_index :: "root_head list \<Rightarrow> bytes \<Rightarrow> root_head option" where
  "heads_index hs = map_of (map (\<lambda>h. (encode_root_fill_key (rh_root_key h), h)) hs)"

definition heads_ok :: "root_head list \<Rightarrow> bool" where
  "heads_ok hs \<longleftrightarrow>
     (\<forall>i < length hs. rh_original_sequence (hs ! i) = i) \<and>
     distinct (map rh_root_key hs) \<and>
     (\<forall>h \<in> set hs. head_valid h \<and> root_key_fits (rh_root_key h))"

text \<open>The number of broker-authoritative heads of a scope, as the index counts them.\<close>

definition scope_count :: "root_head list \<Rightarrow> bytes \<Rightarrow> nat option" where
  "scope_count hs key =
     (let n = length (filter (\<lambda>h. rh_authority h = BROKER_AUTHORITATIVE \<and>
                                   encode_execution_scope (rh_scope h) = key) hs)
      in if n = 0 then None else Some n)"

definition ri_ok :: "root_head_index \<Rightarrow> root_head list \<Rightarrow> bool" where
  "ri_ok idx hs \<longleftrightarrow>
     heads_ok hs \<and>
     pmap_ok (committed_by commit_root_head) (ri_by_root idx) \<and>
     pm_map (ri_by_root idx) = heads_index hs \<and>
     seq_ok commit_root_fill_key (ri_root_sequence idx) \<and>
     seq_list (ri_root_sequence idx) = map rh_root_key hs \<and>
     seq_ok commit_source_event_id (ri_head_sequence idx) \<and>
     seq_list (ri_head_sequence idx) = map rh_current_source_event_id hs \<and>
     pmap_ok (\<lambda>_ c. length c = 32) (ri_broker_scope_counts idx) \<and>
     pm_map (ri_broker_scope_counts idx) = scope_count hs \<and>
     ri_signed_quantity idx = sum_list (map signed_quantity_of hs) \<and>
     (\<forall>h \<in> set hs. Some (position_scope_of (rh_scope h)) = ri_position_scope idx)"

lemma ri_okD:
  assumes "ri_ok idx hs"
  shows "heads_ok hs"
    and "pmap_ok (committed_by commit_root_head) (ri_by_root idx)"
    and "pm_map (ri_by_root idx) = heads_index hs"
    and "seq_ok commit_root_fill_key (ri_root_sequence idx)"
    and "seq_list (ri_root_sequence idx) = map rh_root_key hs"
    and "seq_ok commit_source_event_id (ri_head_sequence idx)"
    and "seq_list (ri_head_sequence idx) = map rh_current_source_event_id hs"
    and "pmap_ok (\<lambda>_ c. length c = 32) (ri_broker_scope_counts idx)"
    and "pm_map (ri_broker_scope_counts idx) = scope_count hs"
    and "ri_signed_quantity idx = sum_list (map signed_quantity_of hs)"
    and "h \<in> set hs \<Longrightarrow> Some (position_scope_of (rh_scope h)) = ri_position_scope idx"
  using assms unfolding ri_ok_def by blast+

lemma heads_okD:
  assumes "heads_ok hs"
  shows "i < length hs \<Longrightarrow> rh_original_sequence (hs ! i) = i"
    and "distinct (map rh_root_key hs)"
    and "h \<in> set hs \<Longrightarrow> head_valid h"
    and "h \<in> set hs \<Longrightarrow> root_key_fits (rh_root_key h)"
  using assms unfolding heads_ok_def by blast+

lemma heads_index_key:
  assumes "heads_ok hs" "root_key_fits k"
  shows "heads_index hs (encode_root_fill_key k) = find (\<lambda>h. rh_root_key h = k) hs"
proof -
  have "\<forall>h \<in> set hs. root_key_fits (rh_root_key h)" using assms(1) by (simp add: heads_ok_def)
  then show ?thesis
    unfolding heads_index_def
    by (induction hs) (auto dest: encode_root_fill_key_inj [OF _ assms(2)])
qed

lemma find_root_key:
  "distinct (map rh_root_key hs) \<Longrightarrow> i < length hs \<Longrightarrow> rh_root_key (hs ! i) = k \<Longrightarrow>
   find (\<lambda>h. rh_root_key h = k) hs = Some (hs ! i)"
proof (induction hs arbitrary: i)
  case Nil
  then show ?case by simp
next
  case (Cons h hs)
  then show ?case by (cases i) (auto dest: nth_mem)
qed

lemma ri_get_ok:
  "ri_ok idx hs \<Longrightarrow> root_key_fits k \<Longrightarrow> ri_get idx k = find (\<lambda>h. rh_root_key h = k) hs"
  by (simp add: ri_get_def pm_find_map [OF ri_okD(2)] ri_okD(3) heads_index_key ri_okD(1))

lemma ri_get_nth:
  "ri_ok idx hs \<Longrightarrow> i < length hs \<Longrightarrow> ri_get idx (rh_root_key (hs ! i)) = Some (hs ! i)"
  by (simp add: ri_get_ok find_root_key heads_okD(2,4) [OF ri_okD(1)])

lemma ri_count_ok: "ri_ok idx hs \<Longrightarrow> ri_count idx = length hs"
  by (metis length_map length_seq_list ri_count_def ri_ok_def)

lemma ri_get_Some_nth:
  assumes "ri_ok idx hs" "root_key_fits k" "ri_get idx k = Some h"
  shows "rh_original_sequence h < length hs" "hs ! rh_original_sequence h = h" "rh_root_key h = k"
proof -
  from assms have "find (\<lambda>h. rh_root_key h = k) hs = Some h" by (simp add: ri_get_ok)
  then obtain i where i: "i < length hs" "hs ! i = h" "rh_root_key h = k"
    by (auto simp: find_Some_iff)
  moreover have "rh_original_sequence (hs ! i) = i"
    using assms(1) i(1) by (auto simp: ri_ok_def heads_ok_def)
  ultimately show "rh_original_sequence h < length hs" "hs ! rh_original_sequence h = h"
    "rh_root_key h = k" by auto
qed

lemma ri_entries_ok: "ri_ok idx hs \<Longrightarrow> ri_entries idx = Ok hs"
proof -
  assume ok: "ri_ok idx hs"
  have "seq_get (ri_root_sequence idx) (int i) = Ok (rh_root_key (hs ! i))" if "i < length hs" for i
    using ok that seq_get_list [of commit_root_fill_key "ri_root_sequence idx" "int i"]
    by (simp add: ri_ok_def)
  then have "ri_entries idx = Ok (map (\<lambda>i. hs ! i) [0..<length hs])"
    unfolding ri_entries_def ri_count_ok [OF ok]
    by (intro map_res_all_Ok) (simp add: ri_get_nth [OF ok])
  then show ?thesis by (simp add: map_nth)
qed

lemma ri_empty_ok: "ri_ok (ri_empty scope) []"
  by (simp add: ri_ok_def ri_empty_def heads_ok_def heads_index_def scope_count_def fun_eq_iff
      radix_seq.ok_empty radix_seq.list_empty)

subsection \<open>Appending and replacing\<close>

lemma heads_index_snoc:
  assumes "heads_ok hs" "root_key_fits (rh_root_key h)" "rh_root_key h \<notin> rh_root_key ` set hs"
  shows "heads_index (hs @ [h]) = (heads_index hs)(encode_root_fill_key (rh_root_key h) \<mapsto> h)"
proof -
  have "encode_root_fill_key (rh_root_key h) \<notin> (\<lambda>h. encode_root_fill_key (rh_root_key h)) ` set hs"
    using assms heads_okD(4) [OF assms(1)] by (auto dest: encode_root_fill_key_inj)
  then have "map_of (map (\<lambda>h. (encode_root_fill_key (rh_root_key h), h)) hs)
      (encode_root_fill_key (rh_root_key h)) = None"
    by (simp add: map_of_eq_None_iff image_image)
  then show ?thesis
    by (auto simp: heads_index_def fun_eq_iff map_add_def split: option.splits)
qed

lemma scope_count_snoc:
  "scope_count (hs @ [h]) =
     (if rh_authority h = BROKER_AUTHORITATIVE
      then (scope_count hs)(encode_execution_scope (rh_scope h) \<mapsto>
             (case scope_count hs (encode_execution_scope (rh_scope h)) of
                None \<Rightarrow> 1 | Some n \<Rightarrow> n + 1))
      else scope_count hs)"
  by (auto simp: scope_count_def Let_def fun_eq_iff)

lemma next_broker_scope_counts_ok:
  assumes "ri_ok idx hs"
  shows "\<exists>counts. next_broker_scope_counts idx h = Ok counts \<and>
    pmap_ok (\<lambda>_ c. length c = 32) counts \<and> pm_map counts = scope_count (hs @ [h])"
proof (cases "rh_authority h = BROKER_AUTHORITATIVE")
  case False
  with ri_okD(8,9) [OF assms] show ?thesis
    by (simp add: next_broker_scope_counts_def scope_count_snoc)
next
  case True
  let ?m = "ri_broker_scope_counts idx" and ?k = "encode_execution_scope (rh_scope h)"
  note m = ri_okD(8) [OF assms] and c = ri_okD(9) [OF assms]
  have f: "pm_find ?m ?k = scope_count hs ?k" by (simp add: pm_find_map [OF m] c)
  show ?thesis
  proof (cases "scope_count hs ?k")
    case None
    with True f c show ?thesis
      using radix_store.insert_new_ok [OF m, where key = ?k and v = 1]
      by (simp add: next_broker_scope_counts_def scope_count_snoc Let_def)
  next
    case (Some n)
    with True f c show ?thesis
      using radix_store.replace_existing_ok [OF m, where key = ?k and v = "n + 1"]
      by (simp add: next_broker_scope_counts_def scope_count_snoc Let_def)
  qed
qed

lemma ri_append_ok:
  assumes ok: "ri_ok idx hs" and h: "head_valid h" "root_key_fits (rh_root_key h)"
    and new: "ri_get idx (rh_root_key h) = None" and seq: "rh_original_sequence h = length hs"
    and room: "length hs < 2 ^ 64"
    and scope: "ri_position_scope idx = Some (position_scope_of (rh_scope h))"
  obtains idx' where "ri_append idx h = Ok idx'" "ri_ok idx' (hs @ [h])"
    "ri_position_scope idx' = ri_position_scope idx" "ri_binding idx' = None"
proof -
  let ?k = "encode_root_fill_key (rh_root_key h)"
  have nin: "rh_root_key h \<notin> rh_root_key ` set hs"
    using new ri_get_ok [OF ok h(2)] by (auto simp: find_None_iff)
  obtain counts where counts: "next_broker_scope_counts idx h = Ok counts"
      "pmap_ok (\<lambda>_ c. length c = 32) counts" "pm_map counts = scope_count (hs @ [h])"
    using next_broker_scope_counts_ok [OF ok] by blast
  have "pm_map (ri_by_root idx) ?k = None"
    using new by (simp add: ri_get_def pm_find_map [OF ri_okD(2) [OF ok]])
  then obtain by_root where by_root:
      "pm_insert_new (ri_by_root idx) ?k h (commit_root_head h) = Ok by_root"
      "pmap_ok (committed_by commit_root_head) by_root"
      "pm_map by_root = (pm_map (ri_by_root idx))(?k \<mapsto> h)"
    using radix_store.insert_new_ok [OF ri_okD(2) [OF ok]] by (metis encode_keys_nonempty(3))
  have len: "sq_length (ri_root_sequence idx) = length hs" "sq_length (ri_head_sequence idx) = length hs"
    using ri_okD(5,7) [OF ok] by (metis length_map length_seq_list)+
  obtain rs where rs: "seq_append (ri_root_sequence idx) (rh_root_key h)
        (commit_root_fill_key (rh_root_key h)) = Ok rs"
      "seq_ok commit_root_fill_key rs" "seq_list rs = map rh_root_key hs @ [rh_root_key h]"
    using seq_append_list [OF ri_okD(4) [OF ok] _ refl] len room ri_okD(5) [OF ok] by metis
  obtain es where es: "seq_append (ri_head_sequence idx) (rh_current_source_event_id h)
        (commit_source_event_id (rh_current_source_event_id h)) = Ok es"
      "seq_ok commit_source_event_id es"
      "seq_list es = map rh_current_source_event_id hs @ [rh_current_source_event_id h]"
    using seq_append_list [OF ri_okD(6) [OF ok] _ refl] len room ri_okD(7) [OF ok] by metis
  define idx' where "idx' = \<lparr>ri_by_root = by_root, ri_root_sequence = rs, ri_head_sequence = es,
      ri_broker_scope_counts = counts, ri_position_scope = ri_position_scope idx,
      ri_signed_quantity = ri_signed_quantity idx + signed_quantity_of h, ri_binding = None\<rparr>"
  have "ri_append idx h = Ok idx'"
    using new seq scope counts(1) by_root(1) rs(1) es(1)
    by (simp add: ri_append_def ri_count_ok [OF ok] Let_def idx'_def)
  moreover have "heads_ok (hs @ [h])"
    using heads_okD [OF ri_okD(1) [OF ok]] h seq nin
    by (auto simp: heads_ok_def nth_append less_Suc_eq)
  then have "ri_ok idx' (hs @ [h])"
    using by_root rs es counts ri_okD(3,10,11) [OF ok] scope
      heads_index_snoc [OF ri_okD(1) [OF ok] h(2) nin]
    by (simp add: ri_ok_def idx'_def)
  ultimately show thesis using that by (simp add: idx'_def)
qed

text \<open>A replacement keeps the root, its place and its scope.\<close>

lemma heads_index_update:
  assumes "heads_ok hs" "i < length hs" "rh_root_key h = rh_root_key (hs ! i)"
  shows "heads_index (hs[i := h]) = (heads_index hs)(encode_root_fill_key (rh_root_key h) \<mapsto> h)"
proof -
  let ?e = "\<lambda>h. (encode_root_fill_key (rh_root_key h), h)"
  have "inj_on encode_root_fill_key (rh_root_key ` set hs)"
    using heads_okD(4) [OF assms(1)] by (auto intro!: inj_onI dest: encode_root_fill_key_inj)
  then have d: "distinct (map (\<lambda>h. encode_root_fill_key (rh_root_key h)) hs)"
    using heads_okD(2) [OF assms(1)]
    by (metis (no_types, lifting) distinct_map list.map_comp map_eq_conv comp_apply image_set)
  have "map_of (map ?e (hs[i := h])) = (map_of (map ?e hs))(fst (?e h) \<mapsto> h)"
    using d assms(2,3)
  proof (induction hs arbitrary: i)
    case Nil
    then show ?case by simp
  next
    case (Cons g hs)
    show ?case
    proof (cases i)
      case 0
      with Cons.prems show ?thesis by (auto simp: fun_eq_iff)
    next
      case (Suc j)
      with Cons.prems have j: "j < length hs" "rh_root_key h = rh_root_key (hs ! j)" by simp_all
      then have "encode_root_fill_key (rh_root_key g) \<noteq> encode_root_fill_key (rh_root_key h)"
        using Cons.prems(1) nth_mem [OF j(1)] by (simp add: image_iff)
      moreover have "map_of (map ?e (hs[j := h])) = (map_of (map ?e hs))(fst (?e h) \<mapsto> h)"
        using Cons.prems(1) j by (intro Cons.IH) simp_all
      ultimately show ?thesis by (auto simp: Suc fun_eq_iff)
    qed
  qed
  then show ?thesis by (simp add: heads_index_def)
qed

lemma sum_list_signed_update:
  "i < length hs \<Longrightarrow>
   sum_list (map signed_quantity_of (hs[i := h])) =
   sum_list (map signed_quantity_of hs) - signed_quantity_of (hs ! i) + signed_quantity_of h"
  by (induction hs arbitrary: i) (auto simp: nth_Cons split: nat.splits)

lemma scope_count_update:
  assumes "i < length hs" "rh_scope h = rh_scope (hs ! i)" "rh_authority h = rh_authority (hs ! i)"
  shows "scope_count (hs[i := h]) = scope_count hs"
proof -
  have "length (filter P (hs[i := h])) = length (filter P hs)" if "P h = P (hs ! i)" for P
    using that assms(1) by (induction hs arbitrary: i) (auto simp: nth_Cons split: nat.splits)
  then show ?thesis using assms(2,3) by (simp add: scope_count_def Let_def fun_eq_iff)
qed

lemma ri_replace_ok:
  assumes ok: "ri_ok idx hs" and i: "i < length hs" and h: "head_valid h"
    and k: "rh_root_key h = rh_root_key (hs ! i)" and q: "rh_original_sequence h = i"
    and s: "rh_scope h = rh_scope (hs ! i)" and a: "rh_authority h = rh_authority (hs ! i)"
  obtains idx' where "ri_replace idx h = Ok idx'" "ri_ok idx' (hs[i := h])"
    "ri_position_scope idx' = ri_position_scope idx" "ri_binding idx' = None"
    "ri_root_sequence idx' = ri_root_sequence idx"
proof -
  let ?k = "encode_root_fill_key (rh_root_key h)"
  note hok = heads_okD [OF ri_okD(1) [OF ok]]
  have get: "ri_get idx (rh_root_key h) = Some (hs ! i)"
    using ri_get_nth [OF ok i] k by simp
  then have "pm_map (ri_by_root idx) ?k \<noteq> None"
    by (simp add: ri_get_def pm_find_map [OF ri_okD(2) [OF ok]])
  then obtain by_root where by_root:
      "pm_replace_existing (ri_by_root idx) ?k h (commit_root_head h) = Ok by_root"
      "pmap_ok (committed_by commit_root_head) by_root"
      "pm_map by_root = (pm_map (ri_by_root idx))(?k \<mapsto> h)"
    using radix_store.replace_existing_ok [OF ri_okD(2) [OF ok]] by (metis encode_keys_nonempty(3))
  have "i < sq_length (ri_head_sequence idx)"
    using i ri_okD(7) [OF ok] by (metis length_map length_seq_list)
  then obtain es where es: "seq_set (ri_head_sequence idx) (int i) (rh_current_source_event_id h)
        (commit_source_event_id (rh_current_source_event_id h)) = Ok es"
      "seq_ok commit_source_event_id es"
      "seq_list es = (map rh_current_source_event_id hs)[i := rh_current_source_event_id h]"
    using seq_set_list [OF ri_okD(6) [OF ok] _ refl] ri_okD(7) [OF ok] by metis
  define idx' where "idx' = idx\<lparr>ri_by_root := by_root, ri_head_sequence := es,
      ri_signed_quantity := ri_signed_quantity idx - signed_quantity_of (hs ! i) + signed_quantity_of h,
      ri_binding := None\<rparr>"
  have "ri_replace idx h = Ok idx'"
    using get q s a by_root(1) es(1) hok(1) [OF i] by (simp add: ri_replace_def idx'_def)
  moreover have rk: "map rh_root_key (hs[i := h]) = map rh_root_key hs"
    using i k by (metis list_update_id map_update)
  then have "heads_ok (hs[i := h])"
    using hok h q k i nth_mem [OF i]
    by (auto simp: heads_ok_def nth_list_update dest!: set_update_subset_insert [THEN subsetD])
  then have "ri_ok idx' (hs[i := h])"
    using by_root es ri_okD(3,4,5,8,9,10,11) [OF ok] i s rk nth_mem [OF i]
      heads_index_update [OF ri_okD(1) [OF ok] i k] scope_count_update [OF i s a]
      sum_list_signed_update [OF i]
    by (auto simp: ri_ok_def idx'_def map_update dest!: set_update_subset_insert [THEN subsetD])
  ultimately show thesis using that by (simp add: idx'_def)
qed

end
