(* ===== verification/Seen_Facts.thy ===== *)
theory Seen_Facts
  imports Root_Heads
begin

text \<open>
  \<^verbatim>\<open>SeenFact\<close> and \<^verbatim>\<open>SeenFactIndex\<close> of
  \<^verbatim>\<open>app/execution_core/fills.py\<close>: the account registry of first observations, with
  the root keys they claim, the position scopes that saw an overfill, the commitment of every
  earlier registry and the scope of the tail. Shown here: the registry is the list of its
  observations in arrival order, every index is the one that list gives, adding an observation
  appends it, and the prefix and suffix questions answered from the indexes are the ones about the
  list.
\<close>

record seen_fact =
  sf_fact :: canonical_fact
  sf_classification :: first_observation_classification
  sf_position_scope :: position_scope

definition mk_seen_fact ::
  "canonical_fact \<Rightarrow> first_observation_classification \<Rightarrow> position_scope option \<Rightarrow> seen_fact res" where
  "mk_seen_fact f classification scope =
     (let position_scope =
        (case scope of None \<Rightarrow> position_scope_of (fact_scope f) | Some s \<Rightarrow> s)
      in require (\<not> (classification \<noteq> CLASS_RECONCILIATION_REQUIRED \<and>
                    position_scope \<noteq> position_scope_of (fact_scope f))) ValueError
         (require (\<not> (classification = CORROBORATED_ZERO_ECONOMIC \<and>
                     (case f of BrokerFill _ \<Rightarrow> False | _ \<Rightarrow> True))) ValueError
         (Ok \<lparr>sf_fact = f, sf_classification = classification,
              sf_position_scope = position_scope\<rparr>)))"

definition commit_seen_fact :: "seen_fact \<Rightarrow> bytes" where
  "commit_seen_fact obs =
     commit_parts (text_bytes ''execution-core/seen-fact/v2'')
       [encode_execution_fact (sf_fact obs),
        encode_text (classification_value (sf_classification obs)),
        encode_position_scope (sf_position_scope obs)]"

record seen_fact_index =
  si_by_key :: "seen_fact pmap"
  si_order :: "execution_fact_key pseq"
  si_observed_roots :: "root_fill_key pmap"
  si_overfill_scopes :: "position_scope pmap"
  si_prefix_commitments :: "bytes pmap"
  si_tail_position_scope :: "position_scope option"
  si_tail_position_scope_start :: nat
  si_account_scope :: "account_scope option"
  si_binding :: "snapshot_binding option"

definition si_empty :: "position_scope option \<Rightarrow> seen_fact_index" where
  "si_empty scope =
     \<lparr>si_by_key = pm_empty, si_order = seq_empty, si_observed_roots = pm_empty,
      si_overfill_scopes = pm_empty, si_prefix_commitments = pm_empty,
      si_tail_position_scope = None, si_tail_position_scope_start = 0,
      si_account_scope = map_option account_scope_from_position scope, si_binding = None\<rparr>"

definition si_count :: "seen_fact_index \<Rightarrow> nat" where
  "si_count idx = sq_length (si_order idx)"

definition si_commitment :: "seen_fact_index \<Rightarrow> bytes" where
  "si_commitment idx =
     commit_parts (text_bytes ''execution-core/seen-fact-index/v5'')
       [encode_account_scope (si_account_scope idx), pm_commitment (si_by_key idx),
        seq_commitment (si_order idx), pm_commitment (si_observed_roots idx),
        pm_commitment (si_overfill_scopes idx), pm_commitment (si_prefix_commitments idx),
        (case si_tail_position_scope idx of
           Some s \<Rightarrow> encode_position_scope s
         | None \<Rightarrow> commit_parts (text_bytes ''execution-core/tail-position-scope/none/v1'') []),
        encode_int (int (si_tail_position_scope_start idx))]"

definition has_overfill_observation :: "seen_fact_index \<Rightarrow> position_scope \<Rightarrow> bool" where
  "has_overfill_observation idx scope \<longleftrightarrow>
     pm_find (si_overfill_scopes idx) (encode_position_scope scope) \<noteq> None"

definition belongs_to :: "seen_fact_index \<Rightarrow> position_scope \<Rightarrow> bool" where
  "belongs_to idx scope \<longleftrightarrow> si_account_scope idx = Some (account_scope_from_position scope)"

definition has_prefix :: "seen_fact_index \<Rightarrow> int \<Rightarrow> bytes \<Rightarrow> bool res" where
  "has_prefix idx count commitment =
     require (\<not> count < 0) ValueError
     (require (length commitment = 32) ValueError
     (Ok (if count > int (si_count idx) then False
          else if count = int (si_count idx) then si_commitment idx = commitment
          else pm_find (si_prefix_commitments idx) (to_bytes 8 (nat count)) = Some commitment)))"

definition suffix_belongs_to :: "seen_fact_index \<Rightarrow> int \<Rightarrow> position_scope \<Rightarrow> bool res" where
  "suffix_belongs_to idx count scope =
     require (\<not> count < 0) ValueError
     (Ok (if count > int (si_count idx) then False
          else if count = int (si_count idx) then True
          else si_tail_position_scope idx = Some scope \<and>
               int (si_tail_position_scope_start idx) \<le> count))"

definition si_for_position_scope :: "seen_fact_index \<Rightarrow> position_scope \<Rightarrow> seen_fact_index res" where
  "si_for_position_scope idx scope =
     (let account_scope = account_scope_from_position scope
      in require (\<not> (si_account_scope idx \<noteq> None \<and> si_account_scope idx \<noteq> Some account_scope))
           ValueError
           (if si_account_scope idx = Some account_scope then Ok idx
            else Ok (idx\<lparr>si_account_scope := Some account_scope, si_binding := None\<rparr>)))"

definition si_get :: "seen_fact_index \<Rightarrow> execution_fact_key \<Rightarrow> seen_fact option" where
  "si_get idx key = pm_find (si_by_key idx) (encode_execution_fact_key key)"

definition si_entries :: "seen_fact_index \<Rightarrow> seen_fact list res" where
  "si_entries idx =
     map_res (\<lambda>i. bind_res (seq_get (si_order idx) (int i)) (\<lambda>key.
        case si_get idx key of None \<Rightarrow> Raise RuntimeError | Some obs \<Rightarrow> Ok obs))
      [0..<si_count idx]"

definition fact_witness :: "seen_fact_index \<Rightarrow> execution_fact_key \<Rightarrow> map_witness res" where
  "fact_witness idx key = pm_witness_for (si_by_key idx) (encode_execution_fact_key key)"

definition observation_at :: "seen_fact_index \<Rightarrow> int \<Rightarrow> seen_fact res" where
  "observation_at idx index =
     require (\<not> (index < 0 \<or> index \<ge> int (si_count idx))) IndexError
     (bind_res (seq_get (si_order idx) index) (\<lambda>key.
        case si_get idx key of None \<Rightarrow> Raise RuntimeError | Some obs \<Rightarrow> Ok obs))"

definition contains_root :: "seen_fact_index \<Rightarrow> root_fill_key \<Rightarrow> bool" where
  "contains_root idx root_key \<longleftrightarrow>
     pm_find (si_observed_roots idx) (encode_root_fill_key root_key) \<noteq> None"

definition root_claim_witness :: "seen_fact_index \<Rightarrow> root_fill_key \<Rightarrow> map_witness res" where
  "root_claim_witness idx root_key =
     pm_witness_for (si_observed_roots idx) (encode_root_fill_key root_key)"

text \<open>
  The three conditional insertions of \<^verbatim>\<open>add\<close>:
  \<^verbatim>\<open>if m.get(key) is None: m = m.insert_new(key, value, commitment)\<close>.
\<close>

definition pm_claim :: "'v pmap \<Rightarrow> bytes \<Rightarrow> 'v \<Rightarrow> bytes \<Rightarrow> 'v pmap res" where
  "pm_claim m key v c = (if pm_find m key = None then pm_insert_new m key v c else Ok m)"

definition is_overfill_class :: "first_observation_classification \<Rightarrow> bool" where
  "is_overfill_class c \<longleftrightarrow> c = APPLIED_OVERFILL_QUARANTINE \<or> c = APPLIED_PENDING_OVERFILL"

definition commit_overfill_scope :: "position_scope \<Rightarrow> bytes" where
  "commit_overfill_scope s =
     commit_parts (text_bytes ''execution-core/overfill-position-scope/v1'')
       [encode_position_scope s]"

definition commit_fact_key :: "execution_fact_key \<Rightarrow> bytes" where
  "commit_fact_key k =
     commit_parts (text_bytes ''execution-core/execution-fact-key-commitment/v1'')
       [encode_execution_fact_key k]"

definition si_add :: "seen_fact_index \<Rightarrow> seen_fact \<Rightarrow> seen_fact_index res" where
  "si_add idx obs =
     require (si_get idx (fact_key (sf_fact obs)) = None) ValueError
     (let observation_account_scope = account_scope_from_position (sf_position_scope obs)
      in require (\<not> (si_account_scope idx \<noteq> None \<and>
                     si_account_scope idx \<noteq> Some observation_account_scope)) ValueError
     (bind_res (si_for_position_scope idx (sf_position_scope obs)) (\<lambda>current.
      let root_key = fact_root_key (sf_fact obs);
          scope = sf_position_scope obs
      in bind_res (pm_claim (si_observed_roots current) (encode_root_fill_key root_key) root_key
                     (commit_root_fill_key root_key)) (\<lambda>observed_roots.
         bind_res (if is_overfill_class (sf_classification obs)
                   then pm_claim (si_overfill_scopes current) (encode_position_scope scope) scope
                          (commit_overfill_scope scope)
                   else Ok (si_overfill_scopes current)) (\<lambda>overfill_scopes.
         require (si_count current < 2 ^ 64) OverflowError
         (let prefix_key = to_bytes 8 (si_count current)
          in bind_res (pm_claim (si_prefix_commitments current) prefix_key (si_commitment current)
                     (commit_parts (text_bytes ''execution-core/seen-fact-prefix/v1'')
                        [prefix_key, si_commitment current])) (\<lambda>prefix_commitments.
         bind_res (pm_insert_new (si_by_key current) (encode_execution_fact_key (fact_key (sf_fact obs)))
                     obs (commit_seen_fact obs)) (\<lambda>by_key.
         bind_res (seq_append (si_order current) (fact_key (sf_fact obs))
                     (commit_fact_key (fact_key (sf_fact obs)))) (\<lambda>order.
           Ok \<lparr>si_by_key = by_key, si_order = order, si_observed_roots = observed_roots,
               si_overfill_scopes = overfill_scopes, si_prefix_commitments = prefix_commitments,
               si_tail_position_scope = Some scope,
               si_tail_position_scope_start =
                 (if si_tail_position_scope current = Some scope
                  then si_tail_position_scope_start current else si_count current),
               si_account_scope =
                 (case si_account_scope current of
                    Some a \<Rightarrow> Some a | None \<Rightarrow> Some observation_account_scope),
               si_binding = None\<rparr>)))))))))"

definition si_with_binding :: "seen_fact_index \<Rightarrow> snapshot_binding \<Rightarrow> seen_fact_index" where
  "si_with_binding idx binding = idx\<lparr>si_binding := Some binding\<rparr>"

definition si_new :: "seen_fact list \<Rightarrow> position_scope option \<Rightarrow> seen_fact_index res" where
  "si_new entries scope = fold_res (\<lambda>obs idx. si_add idx obs) entries (si_empty scope)"

subsection \<open>The registry as a list of observations\<close>

definition seen_valid :: "seen_fact \<Rightarrow> bool" where
  "seen_valid obs \<longleftrightarrow>
     (sf_classification obs \<noteq> CLASS_RECONCILIATION_REQUIRED \<longrightarrow>
        sf_position_scope obs = position_scope_of (fact_scope (sf_fact obs))) \<and>
     (sf_classification obs = CORROBORATED_ZERO_ECONOMIC \<longrightarrow> (\<exists>f. sf_fact obs = BrokerFill f))"

lemma mk_seen_fact_valid:
  "mk_seen_fact f c (Some scope) =
     (if seen_valid \<lparr>sf_fact = f, sf_classification = c, sf_position_scope = scope\<rparr>
      then Ok \<lparr>sf_fact = f, sf_classification = c, sf_position_scope = scope\<rparr>
      else Raise ValueError)"
  "mk_seen_fact f c None = mk_seen_fact f c (Some (position_scope_of (fact_scope f)))"
  by (auto simp: mk_seen_fact_def seen_valid_def require_def Let_def split: canonical_fact.splits)

definition obs_key :: "seen_fact \<Rightarrow> execution_fact_key" where
  "obs_key obs = fact_key (sf_fact obs)"

definition obs_root :: "seen_fact \<Rightarrow> root_fill_key" where
  "obs_root obs = fact_root_key (sf_fact obs)"

definition obs_index :: "seen_fact list \<Rightarrow> bytes \<Rightarrow> seen_fact option" where
  "obs_index os = map_of (map (\<lambda>o'. (encode_execution_fact_key (obs_key o'), o')) os)"

definition root_claims :: "seen_fact list \<Rightarrow> bytes \<Rightarrow> root_fill_key option" where
  "root_claims os = map_of (map (\<lambda>o'. (encode_root_fill_key (obs_root o'), obs_root o')) os)"

definition overfill_claims :: "seen_fact list \<Rightarrow> bytes \<Rightarrow> position_scope option" where
  "overfill_claims os =
     map_of (map (\<lambda>o'. (encode_position_scope (sf_position_scope o'), sf_position_scope o'))
       (filter (\<lambda>o'. is_overfill_class (sf_classification o')) os))"

definition obs_fits :: "seen_fact \<Rightarrow> bool" where
  "obs_fits obs \<longleftrightarrow> fact_fits (sf_fact obs) \<and> scope_fits (sf_position_scope obs)"

definition obs_ok :: "seen_fact list \<Rightarrow> bool" where
  "obs_ok os \<longleftrightarrow>
     distinct (map obs_key os) \<and>
     (\<forall>o' \<in> set os. seen_valid o' \<and> fact_valid (sf_fact o') \<and> obs_fits o')"

text \<open>The tail: the last observations that share one scope, and where they start.\<close>

definition tail_ok :: "seen_fact list \<Rightarrow> position_scope option \<Rightarrow> nat \<Rightarrow> bool" where
  "tail_ok os scope start \<longleftrightarrow>
     (if os = [] then scope = None \<and> start = 0
      else start < length os \<and>
           (\<forall>i. start \<le> i \<and> i < length os \<longrightarrow> Some (sf_position_scope (os ! i)) = scope) \<and>
           (start > 0 \<longrightarrow> Some (sf_position_scope (os ! (start - 1))) \<noteq> scope))"

definition si_ok :: "seen_fact_index \<Rightarrow> seen_fact list \<Rightarrow> bool" where
  "si_ok idx os \<longleftrightarrow>
     obs_ok os \<and>
     pmap_ok (committed_by commit_seen_fact) (si_by_key idx) \<and>
     pm_map (si_by_key idx) = obs_index os \<and>
     seq_ok commit_fact_key (si_order idx) \<and>
     seq_list (si_order idx) = map obs_key os \<and>
     pmap_ok (committed_by commit_root_fill_key) (si_observed_roots idx) \<and>
     pm_map (si_observed_roots idx) = root_claims os \<and>
     pmap_ok (committed_by commit_overfill_scope) (si_overfill_scopes idx) \<and>
     pm_map (si_overfill_scopes idx) = overfill_claims os \<and>
     pmap_ok (\<lambda>_ c. length c = 32) (si_prefix_commitments idx) \<and>
     dom (pm_map (si_prefix_commitments idx)) = to_bytes 8 ` {..<length os} \<and>
     tail_ok os (si_tail_position_scope idx) (si_tail_position_scope_start idx) \<and>
     (\<forall>o' \<in> set os. si_account_scope idx = Some (account_scope_from_position (sf_position_scope o')))"

lemma si_okD:
  assumes "si_ok idx os"
  shows "obs_ok os"
    and "pmap_ok (committed_by commit_seen_fact) (si_by_key idx)"
    and "pm_map (si_by_key idx) = obs_index os"
    and "seq_ok commit_fact_key (si_order idx)"
    and "seq_list (si_order idx) = map obs_key os"
    and "pmap_ok (committed_by commit_root_fill_key) (si_observed_roots idx)"
    and "pm_map (si_observed_roots idx) = root_claims os"
    and "pmap_ok (committed_by commit_overfill_scope) (si_overfill_scopes idx)"
    and "pm_map (si_overfill_scopes idx) = overfill_claims os"
    and "pmap_ok (\<lambda>_ c. length c = 32) (si_prefix_commitments idx)"
    and "dom (pm_map (si_prefix_commitments idx)) = to_bytes 8 ` {..<length os}"
    and "tail_ok os (si_tail_position_scope idx) (si_tail_position_scope_start idx)"
    and "o' \<in> set os \<Longrightarrow> si_account_scope idx = Some (account_scope_from_position (sf_position_scope o'))"
  using assms unfolding si_ok_def by blast+

lemma obs_okD:
  assumes "obs_ok os"
  shows "distinct (map obs_key os)"
    and "o' \<in> set os \<Longrightarrow> seen_valid o'"
    and "o' \<in> set os \<Longrightarrow> fact_valid (sf_fact o')"
    and "o' \<in> set os \<Longrightarrow> fact_key_fits (obs_key o')"
    and "o' \<in> set os \<Longrightarrow> root_key_fits (obs_root o')"
    and "o' \<in> set os \<Longrightarrow> scope_fits (sf_position_scope o')"
  using assms unfolding obs_ok_def
  by (auto simp: obs_fits_def fact_fits_def obs_key_def obs_root_def fact_fits_root_key)

lemma si_count_ok: "si_ok idx os \<Longrightarrow> si_count idx = length os"
  by (metis length_map length_seq_list si_count_def si_ok_def)

lemma si_empty_ok: "si_ok (si_empty scope) []"
  by (simp add: si_ok_def si_empty_def obs_ok_def obs_index_def root_claims_def overfill_claims_def
      tail_ok_def radix_seq.ok_empty radix_seq.list_empty)

text \<open>What the keyed questions answer.\<close>

lemma si_get_ok:
  assumes "si_ok idx os" "fact_key_fits k"
  shows "si_get idx k = find (\<lambda>o'. obs_key o' = k) os"
proof -
  have "\<forall>o' \<in> set os. fact_key_fits (obs_key o')" using obs_okD(4) [OF si_okD(1) [OF assms(1)]] by blast
  then have "obs_index os (encode_execution_fact_key k) = find (\<lambda>o'. obs_key o' = k) os"
    unfolding obs_index_def
    by (induction os) (auto dest: encode_execution_fact_key_inj [OF _ assms(2)])
  then show ?thesis
    by (simp add: si_get_def pm_find_map [OF si_okD(2) [OF assms(1)]] si_okD(3) [OF assms(1)])
qed

lemma contains_root_ok:
  assumes "si_ok idx os" "root_key_fits k"
  shows "contains_root idx k \<longleftrightarrow> k \<in> obs_root ` set os"
proof -
  have "\<forall>o' \<in> set os. root_key_fits (obs_root o')" using obs_okD(5) [OF si_okD(1) [OF assms(1)]] by blast
  then have "root_claims os (encode_root_fill_key k) \<noteq> None \<longleftrightarrow> k \<in> obs_root ` set os"
    unfolding root_claims_def
    by (induction os) (auto dest: encode_root_fill_key_inj [OF _ assms(2)])
  then show ?thesis
    by (simp add: contains_root_def pm_find_map [OF si_okD(6) [OF assms(1)]] si_okD(7) [OF assms(1)])
qed

lemma has_overfill_observation_ok:
  assumes "si_ok idx os" "scope_fits s"
  shows "has_overfill_observation idx s \<longleftrightarrow>
    (\<exists>o' \<in> set os. is_overfill_class (sf_classification o') \<and> sf_position_scope o' = s)"
proof -
  have "\<forall>o' \<in> set os. scope_fits (sf_position_scope o')"
    using obs_okD(6) [OF si_okD(1) [OF assms(1)]] by blast
  then have "overfill_claims os (encode_position_scope s) \<noteq> None \<longleftrightarrow>
    (\<exists>o' \<in> set os. is_overfill_class (sf_classification o') \<and> sf_position_scope o' = s)"
    unfolding overfill_claims_def
    by (induction os) (auto dest: encode_position_scope_inj [OF _ assms(2)])
  then show ?thesis
    by (simp add: has_overfill_observation_def pm_find_map [OF si_okD(8) [OF assms(1)]]
        si_okD(9) [OF assms(1)])
qed


lemma find_key_nth:
  "distinct (map obs_key os) \<Longrightarrow> i < length os \<Longrightarrow>
   find (\<lambda>o'. obs_key o' = obs_key (os ! i)) os = Some (os ! i)"
proof (induction os arbitrary: i)
  case Nil
  then show ?case by simp
next
  case (Cons h hs)
  then show ?case by (cases i) (auto dest: nth_mem)
qed

lemma observation_at_ok:
  assumes ok: "si_ok idx os"
  shows "observation_at idx i =
    (if 0 \<le> i \<and> i < int (length os) then Ok (os ! nat i) else Raise IndexError)"
proof (cases "0 \<le> i \<and> i < int (length os)")
  case True
  then have n: "nat i < length os" by auto
  have "si_get idx (obs_key (os ! nat i)) = Some (os ! nat i)"
    using n obs_okD(1,4) [OF si_okD(1) [OF ok]] by (simp add: si_get_ok [OF ok] find_key_nth)
  with True n show ?thesis
    using seq_get_list [OF si_okD(4) [OF ok], of i]
    by (simp add: observation_at_def si_count_ok [OF ok] si_okD(5) [OF ok])
qed (auto simp: observation_at_def si_count_ok [OF ok] require_def)

lemma si_entries_ok: "si_ok idx os \<Longrightarrow> si_entries idx = Ok os"
proof -
  assume ok: "si_ok idx os"
  have "bind_res (seq_get (si_order idx) (int i)) (\<lambda>key.
        case si_get idx key of None \<Rightarrow> Raise RuntimeError | Some obs \<Rightarrow> Ok obs) = Ok (os ! i)"
    if "i < length os" for i
    using observation_at_ok [OF ok, of "int i"] that
    by (simp add: observation_at_def si_count_ok [OF ok])
  then have "si_entries idx = Ok (map (\<lambda>i. os ! i) [0..<length os])"
    unfolding si_entries_def si_count_ok [OF ok] by (intro map_res_all_Ok) simp
  then show ?thesis by (simp add: map_nth)
qed

subsection \<open>Adding an observation\<close>

lemma map_of_snoc:
  "map_of (xs @ [(k, v)]) = (if map_of xs k = None then (map_of xs)(k \<mapsto> v) else map_of xs)"
  by (auto simp: fun_eq_iff map_add_def split: option.splits)

lemma pm_claim_ok:
  assumes "pmap_ok P m" "key \<noteq> []" "P v c"
  shows "\<exists>m'. pm_claim m key v c = Ok m' \<and> pmap_ok P m' \<and>
    pm_map m' = (if pm_map m key = None then (pm_map m)(key \<mapsto> v) else pm_map m)"
  using radix_store.insert_new_ok [OF assms(1,2) _ assms(3)] assms
  by (auto simp: pm_claim_def pm_find_map [OF assms(1,2)])

lemma root_claims_snoc:
  "root_claims (os @ [obs]) =
     (if root_claims os (encode_root_fill_key (obs_root obs)) = None
      then (root_claims os)(encode_root_fill_key (obs_root obs) \<mapsto> obs_root obs) else root_claims os)"
  by (simp add: root_claims_def map_of_snoc del: map_of_append)

lemma overfill_claims_snoc:
  "overfill_claims (os @ [obs]) =
     (if is_overfill_class (sf_classification obs) \<and>
         overfill_claims os (encode_position_scope (sf_position_scope obs)) = None
      then (overfill_claims os)(encode_position_scope (sf_position_scope obs) \<mapsto> sf_position_scope obs)
      else overfill_claims os)"
  by (simp add: overfill_claims_def map_of_snoc del: map_of_append)

lemma tail_ok_snoc:
  assumes "tail_ok os scope start"
  shows "tail_ok (os @ [obs]) (Some (sf_position_scope obs))
    (if scope = Some (sf_position_scope obs) then start else length os)"
proof (cases "os = []")
  case True
  with assms show ?thesis by (simp add: tail_ok_def)
next
  case False
  with assms have t: "start < length os"
    "\<And>i. start \<le> i \<Longrightarrow> i < length os \<Longrightarrow> Some (sf_position_scope (os ! i)) = scope"
    "start > 0 \<Longrightarrow> Some (sf_position_scope (os ! (start - 1))) \<noteq> scope"
    by (simp_all add: tail_ok_def)
  show ?thesis
  proof (cases "scope = Some (sf_position_scope obs)")
    case True
    have "Some (sf_position_scope ((os @ [obs]) ! i)) = scope" if "start \<le> i" "i < length (os @ [obs])" for i
      using t(2) [of i] that True by (cases "i < length os") (simp_all add: nth_append)
    with True t(1,3) show ?thesis by (simp add: tail_ok_def nth_append less_imp_diff_less)
  next
    case False
    have "Some (sf_position_scope (os ! (length os - 1))) = scope"
      using t(1) by (intro t(2)) simp_all
    with False t(1) show ?thesis
      by (auto simp: tail_ok_def nth_append)
  qed
qed

lemma si_add_ok:
  assumes ok: "si_ok idx os" and new: "si_get idx (obs_key obs) = None"
    and valid: "seen_valid obs" "fact_valid (sf_fact obs)" "obs_fits obs"
    and account: "si_account_scope idx = Some (account_scope_from_position (sf_position_scope obs))"
    and room: "length os < 2 ^ 64"
  obtains idx' where "si_add idx obs = Ok idx'" "si_ok idx' (os @ [obs])"
    "si_account_scope idx' = si_account_scope idx" "si_binding idx' = None"
    "pm_map (si_prefix_commitments idx') =
       (pm_map (si_prefix_commitments idx))(to_bytes 8 (length os) \<mapsto> si_commitment idx)"
proof -
  let ?k = "encode_execution_fact_key (obs_key obs)" and ?n = "length os"
  have fk: "fact_key_fits (obs_key obs)"
    using valid(3) by (simp add: obs_fits_def fact_fits_def obs_key_def)
  have nin: "obs_key obs \<notin> obs_key ` set os"
    using new by (auto simp: si_get_ok [OF ok fk] find_None_iff)
  have absent: "obs_index os ?k = None"
    using new by (simp add: si_get_def pm_find_map [OF si_okD(2) [OF ok]] si_okD(3) [OF ok])
  obtain roots where roots: "pm_claim (si_observed_roots idx) (encode_root_fill_key (obs_root obs))
        (obs_root obs) (commit_root_fill_key (obs_root obs)) = Ok roots"
      "pmap_ok (committed_by commit_root_fill_key) roots" "pm_map roots = root_claims (os @ [obs])"
    using pm_claim_ok [OF si_okD(6) [OF ok], of "encode_root_fill_key (obs_root obs)"
        "commit_root_fill_key (obs_root obs)" "obs_root obs"]
    by (auto simp: si_okD(7) [OF ok] root_claims_snoc)
  obtain over where over: "(if is_overfill_class (sf_classification obs)
        then pm_claim (si_overfill_scopes idx) (encode_position_scope (sf_position_scope obs))
               (sf_position_scope obs) (commit_overfill_scope (sf_position_scope obs))
        else Ok (si_overfill_scopes idx)) = Ok over"
      "pmap_ok (committed_by commit_overfill_scope) over" "pm_map over = overfill_claims (os @ [obs])"
    using pm_claim_ok [OF si_okD(8) [OF ok], of "encode_position_scope (sf_position_scope obs)"
        "commit_overfill_scope (sf_position_scope obs)" "sf_position_scope obs"] si_okD(8,9) [OF ok]
    by (cases "is_overfill_class (sf_classification obs)") (auto simp: overfill_claims_snoc)
  have fresh: "pm_map (si_prefix_commitments idx) (to_bytes 8 ?n) = None"
  proof -
    have "to_bytes 8 ?n \<notin> to_bytes 8 ` {..<?n}"
      using room by (auto dest: index_key_inj [rotated 2])
    then show ?thesis using si_okD(11) [OF ok] by (metis domIff)
  qed
  obtain pre where pre: "pm_claim (si_prefix_commitments idx) (to_bytes 8 ?n) (si_commitment idx)
        (commit_parts (text_bytes ''execution-core/seen-fact-prefix/v1'')
           [to_bytes 8 ?n, si_commitment idx]) = Ok pre"
      "pmap_ok (\<lambda>_ c. length c = 32) pre"
      "pm_map pre = (pm_map (si_prefix_commitments idx))(to_bytes 8 ?n \<mapsto> si_commitment idx)"
    using pm_claim_ok [OF si_okD(10) [OF ok], of "to_bytes 8 ?n"
        "commit_parts (text_bytes ''execution-core/seen-fact-prefix/v1'') [to_bytes 8 ?n, si_commitment idx]"
        "si_commitment idx"] fresh by auto
  obtain bk where bk: "pm_insert_new (si_by_key idx) ?k obs (commit_seen_fact obs) = Ok bk"
      "pmap_ok (committed_by commit_seen_fact) bk" "pm_map bk = (obs_index os)(?k \<mapsto> obs)"
    using radix_store.insert_new_ok [OF si_okD(2) [OF ok], of ?k "commit_seen_fact obs" obs] absent
    by (auto simp: si_okD(3) [OF ok])
  obtain ord where ord: "seq_append (si_order idx) (obs_key obs) (commit_fact_key (obs_key obs)) = Ok ord"
      "seq_ok commit_fact_key ord" "seq_list ord = map obs_key os @ [obs_key obs]"
    using seq_append_list [OF si_okD(4) [OF ok] _ refl] room si_count_ok [OF ok] si_okD(5) [OF ok]
    by (metis si_count_def)
  define idx' where "idx' = \<lparr>si_by_key = bk, si_order = ord, si_observed_roots = roots,
      si_overfill_scopes = over, si_prefix_commitments = pre,
      si_tail_position_scope = Some (sf_position_scope obs),
      si_tail_position_scope_start = (if si_tail_position_scope idx = Some (sf_position_scope obs)
        then si_tail_position_scope_start idx else ?n),
      si_account_scope = si_account_scope idx, si_binding = None\<rparr>"
  have "si_add idx obs = Ok idx'"
    using new account roots(1) over(1) pre(1) bk(1) ord(1) room
    by (simp add: si_add_def si_for_position_scope_def si_count_ok [OF ok] Let_def idx'_def
        obs_key_def obs_root_def cong: if_cong)
  moreover have "obs_ok (os @ [obs])"
    using si_okD(1) [OF ok] valid nin by (auto simp: obs_ok_def)
  then have "si_ok idx' (os @ [obs])"
    using roots over pre bk ord si_okD(11,13) [OF ok] tail_ok_snoc [OF si_okD(12) [OF ok], of obs]
      account absent
    by (auto simp: si_ok_def idx'_def obs_index_def map_of_snoc lessThan_Suc simp del: map_of_append)
  ultimately show thesis using that pre(3) by (simp add: idx'_def)
qed

text \<open>A registry that has no account yet takes the account of its first observation.\<close>

lemma si_for_position_scope_ok:
  "si_ok idx os \<Longrightarrow> si_account_scope idx = None \<or> belongs_to idx s \<Longrightarrow>
   \<exists>idx'. si_for_position_scope idx s = Ok idx' \<and> si_ok idx' os \<and> belongs_to idx' s"
  by (auto simp: si_for_position_scope_def belongs_to_def si_ok_def)

subsection \<open>Prefixes and suffixes\<close>

text \<open>Adding an observation changes no answer about a prefix of the registry before it.\<close>

lemma length_si_commitment [simp, len_simps]: "length (si_commitment idx) = 32"
  by (simp add: si_commitment_def)

lemma has_prefix_add:
  assumes ok: "si_ok idx os" and add: "si_add idx obs = Ok idx'"
    and valid: "seen_valid obs" "fact_valid (sf_fact obs)" "obs_fits obs"
    and account: "si_account_scope idx = Some (account_scope_from_position (sf_position_scope obs))"
    and n: "n \<le> int (length os)"
  shows "has_prefix idx' n c = has_prefix idx n c"
proof -
  have new: "si_get idx (obs_key obs) = None"
    using add by (auto simp: si_add_def obs_key_def require_eq_Inr)
  have room: "length os < 2 ^ 64"
    using add by (clarsimp simp: si_add_def si_for_position_scope_def account Let_def bind_res_eq_Inr
        require_eq_Inr si_count_ok [OF ok])
  obtain ok': "si_ok idx' (os @ [obs])" and pre: "pm_map (si_prefix_commitments idx') =
       (pm_map (si_prefix_commitments idx))(to_bytes 8 (length os) \<mapsto> si_commitment idx)"
    using si_add_ok [OF ok new valid account room] add by (metis Inr_inject)
  have find: "pm_find (si_prefix_commitments idx') (to_bytes 8 (nat n)) =
     (if to_bytes 8 (nat n) = to_bytes 8 (length os) then Some (si_commitment idx)
      else pm_find (si_prefix_commitments idx) (to_bytes 8 (nat n)))"
    by (simp add: pm_find_map [OF si_okD(10) [OF ok']] pm_find_map [OF si_okD(10) [OF ok]] pre)
  show ?thesis
  proof (cases "n < 0")
    case True
    then show ?thesis by (simp add: has_prefix_def)
  next
    case False
    have iff: "to_bytes 8 (nat n) = to_bytes 8 (length os) \<longleftrightarrow> n = int (length os)"
    proof
      assume "to_bytes 8 (nat n) = to_bytes 8 (length os)"
      moreover have "nat n < 2 ^ 64" using n room by linarith
      ultimately have "nat n = length os" using room index_key_inj by blast
      with False show "n = int (length os)" by simp
    qed simp
    from find [unfolded iff] False n show ?thesis
      by (cases "n = int (length os)") (simp_all add: has_prefix_def si_count_ok [OF ok] si_count_ok [OF ok'])
  qed
qed

text \<open>The constant-work suffix question is the one about the listed observations.\<close>

lemma tail_ok_suffix:
  assumes "tail_ok os scope start" "n < length os"
  shows "scope = Some s \<and> start \<le> n \<longleftrightarrow> (\<forall>i. n \<le> i \<and> i < length os \<longrightarrow> sf_position_scope (os ! i) = s)"
proof
  assume "scope = Some s \<and> start \<le> n"
  with assms show "\<forall>i. n \<le> i \<and> i < length os \<longrightarrow> sf_position_scope (os ! i) = s"
    by (fastforce simp: tail_ok_def split: if_splits)
next
  assume all: "\<forall>i. n \<le> i \<and> i < length os \<longrightarrow> sf_position_scope (os ! i) = s"
  have ne: "os \<noteq> []" using assms(2) by auto
  then have t: "start < length os" "\<And>i. start \<le> i \<Longrightarrow> i < length os \<Longrightarrow> Some (sf_position_scope (os ! i)) = scope"
    "start > 0 \<Longrightarrow> Some (sf_position_scope (os ! (start - 1))) \<noteq> scope"
    using assms(1) by (auto simp: tail_ok_def)
  have "Some (sf_position_scope (os ! (length os - 1))) = scope"
    using t(1) by (intro t(2)) auto
  moreover have "sf_position_scope (os ! (length os - 1)) = s"
    using assms(2) spec [OF all, of "length os - 1"] by force
  ultimately have scope: "scope = Some s" by simp
  moreover have "start \<le> n"
  proof (rule ccontr)
    assume "\<not> start \<le> n"
    then have "sf_position_scope (os ! (start - 1)) = s" and "start > 0"
      using t(1) spec [OF all, of "start - 1"] by force+
    then show False using t(3) scope by simp
  qed
  ultimately show "scope = Some s \<and> start \<le> n" by simp
qed

lemma drop_nths: "drop n xs = map ((!) xs) [n..<length xs]"
  by (metis add_0 drop_map drop_upt map_nth)

lemma suffix_belongs_to_ok:
  assumes "si_ok idx os" "n \<le> length os"
  shows "suffix_belongs_to idx (int n) s = Ok (\<forall>o' \<in> set (drop n os). sf_position_scope o' = s)"
proof (cases "n = length os")
  case True
  then show ?thesis by (simp add: suffix_belongs_to_def si_count_ok [OF assms(1)])
next
  case False
  then have n: "n < length os" using assms(2) by simp
  have "(\<forall>o' \<in> set (drop n os). sf_position_scope o' = s) \<longleftrightarrow>
    (\<forall>i. n \<le> i \<and> i < length os \<longrightarrow> sf_position_scope (os ! i) = s)"
    unfolding drop_nths by auto
  with n tail_ok_suffix [OF si_okD(12) [OF assms(1)] n] show ?thesis
    by (simp add: suffix_belongs_to_def si_count_ok [OF assms(1)])
qed

end
