(* ===== verification/Fold.thy ===== *)
theory Fold
  imports Seen_Facts
begin

text \<open>
  The values and the arithmetic of \<^verbatim>\<open>app/execution_core/position.py\<close>: the integrity
  flags, the exact long-only fold of one effective root, the price-metadata rule, the proof input of
  the tail root and the ordered slow fold over all heads. Shown here: integrity flags are a lattice
  under \<^verbatim>\<open>|\<close> and \<^verbatim>\<open>&\<close>, the fold never fails on valid heads, a
  non-positive position carries no basis, and the average price stays between the prices folded.
\<close>

subsection \<open>Enumerations and flags\<close>

datatype basis_authority = AVAILABLE | BASIS_RECONCILIATION_PENDING

fun basis_authority_value :: "basis_authority \<Rightarrow> string" where
  "basis_authority_value AVAILABLE = ''AVAILABLE''"
| "basis_authority_value BASIS_RECONCILIATION_PENDING = ''BASIS_RECONCILIATION_PENDING''"

text \<open>
  \<^verbatim>\<open>PositionIntegrity\<close>, a flag of three bits: \<^verbatim>\<open>EXECUTION_FACT_CONFLICT\<close>
  (1), \<^verbatim>\<open>EXECUTION_RECONCILIATION_REQUIRED\<close> (2) and
  \<^verbatim>\<open>OVERFILL_QUARANTINE\<close> (4). The bitwise \<^verbatim>\<open>|\<close> and
  \<^verbatim>\<open>&\<close> of the source are \<open>sup\<close> and \<open>inf\<close>, and
  \<open>x \<le> y\<close> says that \<open>y\<close> has every bit of \<open>x\<close>.
\<close>

datatype position_integrity =
  PositionIntegrity (has_conflict: bool) (has_reconciliation: bool) (has_overfill: bool)

definition CONSISTENT :: position_integrity where
  "CONSISTENT = PositionIntegrity False False False"

definition EXECUTION_FACT_CONFLICT :: position_integrity where
  "EXECUTION_FACT_CONFLICT = PositionIntegrity True False False"

definition EXECUTION_RECONCILIATION_REQUIRED :: position_integrity where
  "EXECUTION_RECONCILIATION_REQUIRED = PositionIntegrity False True False"

definition OVERFILL_QUARANTINE :: position_integrity where
  "OVERFILL_QUARANTINE = PositionIntegrity False False True"

definition integrity_value :: "position_integrity \<Rightarrow> nat" where
  "integrity_value i =
     of_bool (has_conflict i) + 2 * of_bool (has_reconciliation i) + 4 * of_bool (has_overfill i)"

definition integrity_of_bits :: "nat \<Rightarrow> position_integrity res" where
  "integrity_of_bits n =
     require (n < 8) ValueError (Ok (PositionIntegrity (bit n 0) (bit n 1) (bit n 2)))"

instantiation position_integrity :: bounded_lattice
begin

definition "x \<le> y \<longleftrightarrow>
  (has_conflict x \<longrightarrow> has_conflict y) \<and> (has_reconciliation x \<longrightarrow> has_reconciliation y) \<and>
  (has_overfill x \<longrightarrow> has_overfill y)"

definition "x < y \<longleftrightarrow> x \<le> y \<and> \<not> y \<le> (x :: position_integrity)"

definition "sup x y = PositionIntegrity (has_conflict x \<or> has_conflict y)
  (has_reconciliation x \<or> has_reconciliation y) (has_overfill x \<or> has_overfill y)"

definition "inf x y = PositionIntegrity (has_conflict x \<and> has_conflict y)
  (has_reconciliation x \<and> has_reconciliation y) (has_overfill x \<and> has_overfill y)"

definition "bot = PositionIntegrity False False False"

definition "top = PositionIntegrity True True True"

instance
  by standard
    (auto simp: less_eq_position_integrity_def less_position_integrity_def
      sup_position_integrity_def inf_position_integrity_def bot_position_integrity_def
      top_position_integrity_def intro: position_integrity.expand)

end

lemma integrity_bits_inverse [simp]: "integrity_of_bits (integrity_value i) = Ok i"
  by (cases i; simp add: integrity_of_bits_def integrity_value_def bit_nat_def)

lemma integrity_value_inj: "integrity_value i = integrity_value j \<Longrightarrow> i = j"
  by (metis integrity_bits_inverse sum.inject(2))

lemma integrity_or_bits: "integrity_value (sup i j) = integrity_value i OR integrity_value j"
  and integrity_and_bits: "integrity_value (inf i j) = integrity_value i AND integrity_value j"
  by (cases i; cases j; simp add: integrity_value_def sup_position_integrity_def
      inf_position_integrity_def; code_simp?)+

lemma floor_check: "inf x y = x \<longleftrightarrow> x \<le> (y :: position_integrity)"
  by (simp add: le_iff_inf)

lemma overfill_le_iff: "OVERFILL_QUARANTINE \<le> i \<longleftrightarrow> has_overfill i"
  and conflict_le_iff: "EXECUTION_FACT_CONFLICT \<le> i \<longleftrightarrow> has_conflict i"
  and reconciliation_le_iff: "EXECUTION_RECONCILIATION_REQUIRED \<le> i \<longleftrightarrow> has_reconciliation i"
  by (simp_all add: less_eq_position_integrity_def OVERFILL_QUARANTINE_def
      EXECUTION_FACT_CONFLICT_def EXECUTION_RECONCILIATION_REQUIRED_def)

subsection \<open>The fold of one effective root\<close>

definition fold_one ::
  "int \<Rightarrow> rat \<Rightarrow> execution_side \<Rightarrow> int \<Rightarrow> reported_price option \<Rightarrow> (int \<times> rat) res" where
  "fold_one raw_quantity cost_basis side absolute_quantity price =
     (if side = BUY
      then let next_quantity = raw_quantity + absolute_quantity
           in if raw_quantity \<ge> 0
              then if absolute_quantity \<noteq> 0
                   then (case price of
                           None \<Rightarrow> Raise ValueError
                         | Some p \<Rightarrow>
                             Ok (next_quantity, cost_basis + of_int absolute_quantity * exact_value p))
                   else Ok (next_quantity, cost_basis)
              else if next_quantity > 0
                   then (case price of
                           None \<Rightarrow> Raise ValueError
                         | Some p \<Rightarrow> Ok (next_quantity, of_int next_quantity * exact_value p))
                   else Ok (next_quantity, 0)
      else let next_quantity = raw_quantity - absolute_quantity
           in if raw_quantity > 0 \<and> next_quantity > 0
              then Ok (next_quantity, cost_basis * (of_int next_quantity / of_int raw_quantity))
              else Ok (next_quantity, 0))"

definition metadata_accepts :: "reported_price option \<Rightarrow> reported_price option \<Rightarrow> bool" where
  "metadata_accepts reference reported =
     (case reported of
        None \<Rightarrow> True
      | Some p \<Rightarrow>
          if \<not> is_aligned p then False
          else (case reference of None \<Rightarrow> True | Some r \<Rightarrow> is_compatible_with r p))"

definition next_metadata ::
  "reported_price option \<Rightarrow> reported_price option \<Rightarrow> int \<Rightarrow> reported_price option" where
  "next_metadata reference reported absolute_quantity =
     (case reference of Some r \<Rightarrow> Some r | None \<Rightarrow> reported)"

definition signed_change :: "execution_side \<Rightarrow> int \<Rightarrow> int" where
  "signed_change side q = (if side = BUY then q else - q)"

text \<open>Economics the fold accepts: no quantity, or a positive one with a positive price.\<close>

definition economics_ok :: "int \<Rightarrow> reported_price option \<Rightarrow> bool" where
  "economics_ok q price \<longleftrightarrow> q \<ge> 0 \<and> (q > 0 \<longrightarrow> price \<noteq> None) \<and> (\<forall>p \<in> set_option price. exact_value p > 0)"

lemma head_valid_economics: "head_valid h \<Longrightarrow> economics_ok (quantity_value (rh_quantity h)) (rh_price h)"
  by (auto simp: head_valid_def economics_ok_def split: if_splits)

lemma fold_one_total:
  assumes "economics_ok q price"
  obtains c' where "fold_one r c side q price = Ok (r + signed_change side q, c')"
proof -
  have "\<exists>c'. fold_one r c side q price = Ok (r + signed_change side q, c')"
    using assms by (cases price) (auto simp: fold_one_def economics_ok_def signed_change_def Let_def)
  then show thesis using that by blast
qed

lemma fold_one_quantity:
  "fold_one r c side q price = Ok (r', c') \<Longrightarrow> r' = r + signed_change side q"
  by (auto simp: fold_one_def signed_change_def Let_def split: if_splits option.splits)

text \<open>The basis a long position may carry.\<close>

definition basis_ok :: "int \<Rightarrow> rat \<Rightarrow> bool" where
  "basis_ok r c \<longleftrightarrow> c \<ge> 0 \<and> (r \<le> 0 \<longrightarrow> c = 0)"

lemma fold_one_basis_ok:
  assumes "fold_one r c side q price = Ok (r', c')" "basis_ok r c" "economics_ok q price"
  shows "basis_ok r' c'"
  using assms
  by (auto simp: fold_one_def basis_ok_def economics_ok_def Let_def split: if_splits option.splits)

text \<open>A sale leaves the average price of the remaining long position unchanged.\<close>

lemma fold_one_sell_average:
  assumes "fold_one r c SELL q price = Ok (r', c')" "r > 0" "r' > 0"
  shows "c' / of_int r' = c / of_int r"
  using assms by (auto simp: fold_one_def Let_def field_simps split: if_splits)

text \<open>Bounds on every price folded bound the basis per share.\<close>

definition basis_between :: "rat \<Rightarrow> rat \<Rightarrow> int \<Rightarrow> rat \<Rightarrow> bool" where
  "basis_between lo hi r c \<longleftrightarrow> lo * of_int (max r 0) \<le> c \<and> c \<le> hi * of_int (max r 0)"

lemma fold_one_between:
  assumes f: "fold_one r c side q price = Ok (r', c')" and b: "basis_between lo hi r c"
    and q: "economics_ok q price" and p: "\<forall>p \<in> set_option price. lo \<le> exact_value p \<and> exact_value p \<le> hi"
  shows "basis_between lo hi r' c'"
proof (cases "side = BUY")
  case True
  show ?thesis
  proof (cases "r \<ge> 0")
    case nonneg: True
    show ?thesis
    proof (cases "q = 0")
      case True
      with f b nonneg \<open>side = BUY\<close> show ?thesis by (auto simp: fold_one_def)
    next
      case False
      with f nonneg \<open>side = BUY\<close> q obtain x where x: "price = Some x" "r' = r + q"
          "c' = c + of_int q * exact_value x" "q > 0"
        by (auto simp: fold_one_def economics_ok_def split: option.splits)
      have "lo * of_int q \<le> of_int q * exact_value x" "of_int q * exact_value x \<le> hi * of_int q"
        using p x by (simp_all add: mult.commute [of "of_int q"] mult_right_mono)
      moreover have "max r' 0 = r + q" "max r 0 = r" using nonneg x by simp_all
      moreover have "of_int (r + q) = (of_int r + of_int q :: rat)" by simp
      ultimately show ?thesis
        using b unfolding basis_between_def x(3) by (simp only: distrib_left) linarith
    qed
  next
    case neg: False
    show ?thesis
    proof (cases "r + q > 0")
      case pos: True
      with f neg True obtain x where x: "price = Some x" "r' = r + q"
          "c' = of_int (r + q) * exact_value x"
        by (auto simp: fold_one_def Let_def split: option.splits)
      have "lo * of_int (r + q) \<le> of_int (r + q) * exact_value x"
        "of_int (r + q) * exact_value x \<le> hi * of_int (r + q)"
        using p x pos by (simp_all add: mult.commute [of "of_int r + of_int q"] mult_right_mono)
      with x pos show ?thesis by (simp add: basis_between_def)
    next
      case False
      with f neg True show ?thesis by (auto simp: fold_one_def basis_between_def Let_def)
    qed
  qed
next
  case False
  show ?thesis
  proof (cases "r > 0 \<and> r - q > 0")
    case True
    with f False have eq: "r' = r - q" "c' = c * (of_int (r - q) / of_int r)"
      by (auto simp: fold_one_def Let_def)
    have pos: "0 \<le> (of_int (r - q) :: rat) / of_int r" using True by simp
    have "lo * of_int r * (of_int (r - q) / of_int r) \<le> c'" "c' \<le> hi * of_int r * (of_int (r - q) / of_int r)"
      unfolding eq(2) using b True by (intro mult_right_mono [OF _ pos]; simp add: basis_between_def)+
    with True eq show ?thesis by (simp add: basis_between_def)
  next
    case f': False
    from f False f' q show ?thesis
      by (auto simp: fold_one_def basis_between_def economics_ok_def Let_def)
  qed
qed


subsection \<open>The proof input of the tail root\<close>

record fold_input =
  fi_raw_quantity :: int
  fi_cost_basis :: exact_basis
  fi_price_metadata :: "reported_price option"
  fi_position_scope :: "position_scope option"
  fi_tail_root_key :: "root_fill_key option"
  fi_prefix_count :: int
  fi_prefix_heads_commitment :: bytes

definition fi_is_bound :: "fold_input \<Rightarrow> bool" where
  "fi_is_bound fi \<longleftrightarrow>
     fi_position_scope fi \<noteq> None \<and> fi_tail_root_key fi \<noteq> None \<and> fi_prefix_count fi \<ge> 0 \<and>
     fi_prefix_heads_commitment fi \<noteq> []"

definition mk_fold_input :: "fold_input \<Rightarrow> fold_input res" where
  "mk_fold_input fi =
     require (\<not> (fi_raw_quantity fi \<le> 0 \<and> basis_value (fi_cost_basis fi) \<noteq> 0)) ValueError
     (let proof_parts = [fi_position_scope fi \<noteq> None, fi_tail_root_key fi \<noteq> None,
                         fi_prefix_count fi \<ge> 0, fi_prefix_heads_commitment fi \<noteq> []]
      in require (\<not> (list_ex id proof_parts \<and> \<not> list_all id proof_parts)) ValueError (Ok fi))"

definition fi_commitment :: "fold_input \<Rightarrow> bytes" where
  "fi_commitment fi =
     commit_parts (text_bytes ''execution-core/tail-fold-input/v1'')
       [encode_int (fi_raw_quantity fi), encode_fraction (basis_value (fi_cost_basis fi)),
        encode_reported_price (fi_price_metadata fi),
        (case fi_position_scope fi of Some s \<Rightarrow> encode_position_scope s | None \<Rightarrow> []),
        (case fi_tail_root_key fi of Some k \<Rightarrow> encode_root_fill_key k | None \<Rightarrow> []),
        encode_int (fi_prefix_count fi), fi_prefix_heads_commitment fi]"

lemma length_fi_commitment [simp, len_simps]: "length (fi_commitment fi) = 32"
  by (simp add: fi_commitment_def)

subsection \<open>The ordered slow fold\<close>

text \<open>
  One step and the whole of the ordered fold over effective heads, with the price metadata it
  carries; nothing when a price is not in the metadata of the ones before it. This is the reference
  the fast transitions are compared with.
\<close>

definition heads_step ::
  "root_head \<Rightarrow> int \<times> rat \<times> reported_price option \<Rightarrow> (int \<times> rat \<times> reported_price option) option" where
  "heads_step h st =
     (case st of (r, c, m) \<Rightarrow>
        if metadata_accepts m (rh_price h)
        then (case fold_one r c (es_side (rh_scope h)) (quantity_value (rh_quantity h)) (rh_price h) of
                Inl _ \<Rightarrow> None
              | Inr (r', c') \<Rightarrow>
                  Some (r', c', next_metadata m (rh_price h) (quantity_value (rh_quantity h))))
        else None)"

definition heads_fold :: "root_head list \<Rightarrow> (int \<times> rat \<times> reported_price option) option" where
  "heads_fold hs = foldl (\<lambda>st h. Option.bind st (heads_step h)) (Some (0, 0, None)) hs"

lemma heads_fold_Nil [simp]: "heads_fold [] = Some (0, 0, None)"
  by (simp add: heads_fold_def)

lemma heads_fold_snoc: "heads_fold (hs @ [h]) = Option.bind (heads_fold hs) (heads_step h)"
  by (simp add: heads_fold_def)

text \<open>\<^verbatim>\<open>_fold_ordered_heads\<close>: the loop over the materialized entries.\<close>

fun fold_ordered_loop ::
  "root_head list \<Rightarrow> int \<Rightarrow> rat \<Rightarrow> reported_price option \<Rightarrow> (int \<times> exact_basis) option res" where
  "fold_ordered_loop [] raw_quantity cost_basis reference_metadata =
     bind_res (mk_exact_basis cost_basis) (\<lambda>basis. Ok (Some (raw_quantity, basis)))"
| "fold_ordered_loop (h # hs) raw_quantity cost_basis reference_metadata =
     (if rh_authority h \<noteq> BROKER_AUTHORITATIVE then Ok None
      else if \<not> metadata_accepts reference_metadata (rh_price h) then Ok None
      else bind_res (fold_one raw_quantity cost_basis (es_side (rh_scope h))
                       (quantity_value (rh_quantity h)) (rh_price h)) (\<lambda>(r, c).
           fold_ordered_loop hs r c
             (next_metadata reference_metadata (rh_price h) (quantity_value (rh_quantity h)))))"

definition fold_ordered_heads :: "root_head_index \<Rightarrow> (int \<times> exact_basis) option res" where
  "fold_ordered_heads idx = bind_res (ri_entries idx) (\<lambda>hs. fold_ordered_loop hs 0 0 None)"

lemma signed_quantity_change:
  "signed_quantity_of h = signed_change (es_side (rh_scope h)) (quantity_value (rh_quantity h))"
  by (simp add: signed_quantity_of_def signed_change_def)

lemma heads_step_SomeD:
  assumes "heads_step h (r, c, m) = Some (r', c', m')"
  shows "r' = r + signed_quantity_of h"
    and "fold_one r c (es_side (rh_scope h)) (quantity_value (rh_quantity h)) (rh_price h) = Ok (r', c')"
    and "metadata_accepts m (rh_price h)"
    and "m' = next_metadata m (rh_price h) (quantity_value (rh_quantity h))"
  using assms
  by (auto simp: heads_step_def signed_quantity_change dest!: fold_one_quantity
      split: if_splits sum.splits)

lemma heads_fold_quantity:
  "heads_fold hs = Some (r, c, m) \<Longrightarrow> r = sum_list (map signed_quantity_of hs)"
proof (induction hs arbitrary: r c m rule: rev_induct)
  case Nil
  then show ?case by simp
next
  case (snoc h hs)
  then show ?case by (auto simp: heads_fold_snoc bind_eq_Some_conv dest: heads_step_SomeD(1))
qed

lemma heads_fold_basis_ok:
  "heads_fold hs = Some (r, c, m) \<Longrightarrow> \<forall>h \<in> set hs. head_valid h \<Longrightarrow> basis_ok r c"
proof (induction hs arbitrary: r c m rule: rev_induct)
  case Nil
  then show ?case by (simp add: basis_ok_def)
next
  case (snoc h hs)
  then show ?case
    by (auto simp: heads_fold_snoc bind_eq_Some_conv
        intro: fold_one_basis_ok [OF heads_step_SomeD(2) _ head_valid_economics])
qed

text \<open>The basis per share lies between the least and the greatest effective price.\<close>

lemma heads_fold_between:
  assumes "heads_fold hs = Some (r, c, m)" "\<forall>h \<in> set hs. head_valid h"
    and "\<forall>h \<in> set hs. \<forall>p \<in> set_option (rh_price h). lo \<le> exact_value p \<and> exact_value p \<le> hi"
  shows "basis_between lo hi r c"
  using assms
proof (induction hs arbitrary: r c m rule: rev_induct)
  case Nil
  then show ?case by (simp add: basis_between_def)
next
  case (snoc h hs)
  then show ?case
    by (auto simp: heads_fold_snoc bind_eq_Some_conv
        intro: fold_one_between [OF heads_step_SomeD(2) _ head_valid_economics])
qed

text \<open>The loop of the source computes the reference fold when every root is the broker's.\<close>

lemma fold_ordered_loop_fold:
  assumes "\<forall>h \<in> set hs. head_valid h \<and> rh_authority h = BROKER_AUTHORITATIVE" "basis_ok r c"
  shows "fold_ordered_loop hs r c m =
    Ok (map_option (\<lambda>(r, c, m). (r, ExactBasis c))
         (foldl (\<lambda>st h. Option.bind st (heads_step h)) (Some (r, c, m)) hs))"
  using assms
proof (induction hs arbitrary: r c m)
  case Nil
  then show ?case by (simp add: mk_exact_basis_def basis_ok_def)
next
  case (Cons h hs)
  have none: "foldl (\<lambda>st h. Option.bind st (heads_step h)) None hs = None" for hs
    by (induction hs) auto
  obtain c' where f: "fold_one r c (es_side (rh_scope h)) (quantity_value (rh_quantity h)) (rh_price h) =
      Ok (r + signed_change (es_side (rh_scope h)) (quantity_value (rh_quantity h)), c')"
    using Cons.prems head_valid_economics by (meson fold_one_total list.set_intros(1))
  then have "heads_step h (r, c, m) = (if metadata_accepts m (rh_price h)
      then Some (r + signed_change (es_side (rh_scope h)) (quantity_value (rh_quantity h)), c',
                 next_metadata m (rh_price h) (quantity_value (rh_quantity h))) else None)"
    by (simp add: heads_step_def)
  moreover have "basis_ok (r + signed_change (es_side (rh_scope h)) (quantity_value (rh_quantity h))) c'"
    using fold_one_basis_ok [OF f Cons.prems(2)] Cons.prems(1) head_valid_economics by simp
  ultimately show ?case using Cons f by (simp add: none)
qed

lemma fold_ordered_heads_fold:
  assumes "ri_ok idx hs" "\<forall>h \<in> set hs. rh_authority h = BROKER_AUTHORITATIVE"
  shows "fold_ordered_heads idx = Ok (map_option (\<lambda>(r, c, m). (r, ExactBasis c)) (heads_fold hs))"
  using assms heads_okD(3) [OF ri_okD(1) [OF assms(1)]]
  by (simp add: fold_ordered_heads_def ri_entries_ok fold_ordered_loop_fold heads_fold_def basis_ok_def)

end
