(* ===== verification/Position.thy ===== *)
theory Position
  imports Fold
begin

text \<open>
  \<^verbatim>\<open>PositionState\<close>, \<^verbatim>\<open>ExecutionSnapshot\<close> and the binding of
  snapshots of \<^verbatim>\<open>app/execution_core/position.py\<close>: the state of one position, the
  coherence of the four components of a snapshot, and \<^verbatim>\<open>_bind_components\<close>, through
  which every snapshot is made, with the operations that only bind (latching, cursors, registry
  projection).

  Object identity. Bindings are compared with \<^verbatim>\<open>is\<close>; a binding carries the number of
  its object, and an operation that allocates one takes the number of the fresh object. The
  sequences are also compared with \<^verbatim>\<open>is\<close>: in the model by equality. The components
  of one binding share their sequences, so the two agree on every snapshot that was bound; in
  \<^verbatim>\<open>_bind_components\<close> the branch taken for equal but distinct sequences gives the same
  result.
\<close>

subsection \<open>The position state\<close>

record position_state =
  po_scope :: position_scope
  po_raw_quantity :: int
  po_basis_authority :: basis_authority
  po_cost_basis :: "exact_basis option"
  po_root_fill_sequence :: "root_fill_key pseq"
  po_effective_head_ids :: "source_event_id pseq"
  po_basis_price_metadata :: "reported_price option"
  po_tail_fold_input :: "fold_input option"
  po_integrity_floor :: position_integrity
  po_binding :: "snapshot_binding option"

definition mk_position_state :: "position_state \<Rightarrow> position_state res" where
  "mk_position_state p =
     require (sq_length (po_root_fill_sequence p) = sq_length (po_effective_head_ids p)) ValueError
     (if po_basis_authority p = AVAILABLE
      then (case po_cost_basis p of
              None \<Rightarrow> Raise ValueError
            | Some b \<Rightarrow>
                require (\<not> (po_raw_quantity p \<le> 0 \<and> basis_value b \<noteq> 0)) ValueError (Ok p))
      else require (\<not> (po_cost_basis p \<noteq> None \<or> po_basis_price_metadata p \<noteq> None \<or>
                       po_tail_fold_input p \<noteq> None)) ValueError (Ok p))"

definition po_from_materialized ::
  "position_scope \<Rightarrow> int \<Rightarrow> basis_authority \<Rightarrow> exact_basis option \<Rightarrow> root_fill_key list \<Rightarrow>
   source_event_id list \<Rightarrow> reported_price option \<Rightarrow> fold_input option \<Rightarrow> position_integrity \<Rightarrow>
   position_state res" where
  "po_from_materialized scope raw_quantity basis_authority cost_basis roots heads metadata tail_input integrity_floor =
     require (card (set roots) = length roots) ValueError
     (bind_res (seq_from_values roots commit_root_fill_key) (\<lambda>root_sequence.
      bind_res (seq_from_values heads commit_source_event_id) (\<lambda>head_sequence.
        mk_position_state
          \<lparr>po_scope = scope, po_raw_quantity = raw_quantity, po_basis_authority = basis_authority,
           po_cost_basis = cost_basis, po_root_fill_sequence = root_sequence,
           po_effective_head_ids = head_sequence, po_basis_price_metadata = metadata,
           po_tail_fold_input = tail_input, po_integrity_floor = integrity_floor, po_binding = None\<rparr>)))"

definition po_flat :: "position_scope \<Rightarrow> position_state" where
  "po_flat scope =
     \<lparr>po_scope = scope, po_raw_quantity = 0, po_basis_authority = AVAILABLE,
      po_cost_basis = Some (ExactBasis 0), po_root_fill_sequence = seq_empty,
      po_effective_head_ids = seq_empty, po_basis_price_metadata = None,
      po_tail_fold_input = None, po_integrity_floor = CONSISTENT, po_binding = None\<rparr>"

definition po_root_count :: "position_state \<Rightarrow> nat" where
  "po_root_count p = sq_length (po_root_fill_sequence p)"

definition po_commitment :: "position_state \<Rightarrow> bytes" where
  "po_commitment p =
     (let tail_commitment =
        (case po_tail_fold_input p of
           None \<Rightarrow> commit_parts (text_bytes ''execution-core/position-tail/absent/v1'') []
         | Some fi \<Rightarrow>
             commit_parts (text_bytes ''execution-core/position-tail/present/v1'')
               [fi_commitment fi])
      in commit_parts (text_bytes ''execution-core/position-state/v2'')
           [encode_position_scope (po_scope p), encode_int (po_raw_quantity p),
            text_bytes (basis_authority_value (po_basis_authority p)),
            (case po_cost_basis p of Some b \<Rightarrow> encode_fraction (basis_value b) | None \<Rightarrow> []),
            seq_commitment (po_root_fill_sequence p), seq_commitment (po_effective_head_ids p),
            encode_reported_price (po_basis_price_metadata p), tail_commitment,
            encode_int (int (integrity_value (po_integrity_floor p)))])"

definition average_price :: "position_state \<Rightarrow> rat option" where
  "average_price p =
     (if po_basis_authority p \<noteq> AVAILABLE \<or> po_cost_basis p = None \<or> po_raw_quantity p \<le> 0
      then None
      else Some (basis_value (the (po_cost_basis p)) / of_int (po_raw_quantity p)))"

definition authorized_residual_sell :: "position_state \<Rightarrow> quantity res" where
  "authorized_residual_sell p = mk_quantity (max (po_raw_quantity p) 0)"

definition po_with_binding :: "position_state \<Rightarrow> snapshot_binding \<Rightarrow> position_state res" where
  "po_with_binding p binding = mk_position_state (p\<lparr>po_binding := Some binding\<rparr>)"

subsection \<open>Coherence\<close>

definition kernel_snapshot_commitment ::
  "position_state \<Rightarrow> root_head_index \<Rightarrow> seen_fact_index \<Rightarrow> nat \<Rightarrow> bool \<Rightarrow> int \<Rightarrow> bytes \<Rightarrow> bytes" where
  "kernel_snapshot_commitment p roots seen bits account count head =
     commit_parts (text_bytes ''execution-core/kernel-snapshot/v2'')
       [encode_position_scope (po_scope p), po_commitment p, ri_commitment roots,
        si_commitment seen, encode_int (int bits), encode_int (of_bool account),
        encode_int count, head]"

definition snapshot_parts_share_binding ::
  "position_state \<Rightarrow> position_integrity \<Rightarrow> root_head_index \<Rightarrow> seen_fact_index \<Rightarrow> bool \<Rightarrow> bool" where
  "snapshot_parts_share_binding p integrity roots seen require_integrity =
     (case po_binding p of
        None \<Rightarrow> False
      | Some b \<Rightarrow>
          if ri_binding roots \<noteq> Some b \<or> si_binding seen \<noteq> Some b then False
          else if sb_position_scope b \<noteq> po_scope p \<or>
                  sb_position_commitment b \<noteq> po_commitment p \<or>
                  sb_root_heads_commitment b \<noteq> ri_commitment roots \<or>
                  sb_seen_facts_commitment b \<noteq> si_commitment seen \<or>
                  ri_position_scope roots \<noteq> Some (po_scope p) \<or>
                  \<not> belongs_to seen (po_scope p) \<or>
                  sb_reconciliation_transition_count b < 0 \<or>
                  length (sb_reconciliation_transition_head b) \<noteq> 32 \<or>
                  po_raw_quantity p \<noteq> ri_signed_quantity roots \<or>
                  po_root_count p \<noteq> ri_count roots \<or>
                  po_root_fill_sequence p \<noteq> ri_root_sequence roots \<or>
                  po_effective_head_ids p \<noteq> ri_head_sequence roots \<or>
                  sb_snapshot_commitment b \<noteq>
                    kernel_snapshot_commitment p roots seen (sb_integrity_bits b)
                      (sb_account_reconciliation_required b)
                      (sb_reconciliation_transition_count b)
                      (sb_reconciliation_transition_head b)
               then False
          else \<not> require_integrity \<or> sb_integrity_bits b = integrity_value integrity)"

definition snapshot_is_coherent ::
  "position_state \<Rightarrow> position_integrity \<Rightarrow> root_head_index \<Rightarrow> seen_fact_index \<Rightarrow> bool" where
  "snapshot_is_coherent p integrity roots seen =
     snapshot_parts_share_binding p integrity roots seen True"

record execution_snapshot =
  sn_position :: position_state
  sn_integrity :: position_integrity
  sn_root_heads :: root_head_index
  sn_seen_facts :: seen_fact_index

definition mk_execution_snapshot :: "execution_snapshot \<Rightarrow> execution_snapshot res" where
  "mk_execution_snapshot s =
     require (snapshot_is_coherent (sn_position s) (sn_integrity s) (sn_root_heads s)
                (sn_seen_facts s)) ValueError (Ok s)"

definition sn_binding :: "execution_snapshot \<Rightarrow> snapshot_binding res" where
  "sn_binding s =
     (case po_binding (sn_position s) of None \<Rightarrow> Raise RuntimeError | Some b \<Rightarrow> Ok b)"

definition sn_account_reconciliation_required :: "execution_snapshot \<Rightarrow> bool res" where
  "sn_account_reconciliation_required s =
     bind_res (sn_binding s) (\<lambda>b. Ok (sb_account_reconciliation_required b))"

record execution_reconciliation_cursor =
  rc_transition_count :: int
  rc_transition_head :: bytes
  rc_account_reconciliation_required :: bool
  rc_snapshot_commitment :: bytes

definition mk_reconciliation_cursor ::
  "execution_reconciliation_cursor \<Rightarrow> execution_reconciliation_cursor res" where
  "mk_reconciliation_cursor c =
     require (\<not> rc_transition_count c < 0) ValueError
     (require (length (rc_transition_head c) = 32 \<and> length (rc_snapshot_commitment c) = 32)
        ValueError (Ok c))"

definition sn_reconciliation_cursor :: "execution_snapshot \<Rightarrow> execution_reconciliation_cursor res" where
  "sn_reconciliation_cursor s =
     bind_res (sn_binding s) (\<lambda>b.
       mk_reconciliation_cursor
         \<lparr>rc_transition_count = sb_reconciliation_transition_count b,
          rc_transition_head = sb_reconciliation_transition_head b,
          rc_account_reconciliation_required = sb_account_reconciliation_required b,
          rc_snapshot_commitment = sb_snapshot_commitment b\<rparr>)"

subsection \<open>Binding the components\<close>

definition RECONCILIATION_GENESIS_HEAD :: bytes where
  "RECONCILIATION_GENESIS_HEAD =
     commit_parts (text_bytes ''execution-core/account-reconciliation-genesis/v1'') []"

definition component_bindings ::
  "position_state \<Rightarrow> root_head_index \<Rightarrow> seen_fact_index \<Rightarrow> snapshot_binding list" where
  "component_bindings p roots seen =
     List.map_filter id [po_binding p, ri_binding roots, si_binding seen]"

definition inherited_account_reconciliation_required ::
  "position_state \<Rightarrow> root_head_index \<Rightarrow> seen_fact_index \<Rightarrow> bool" where
  "inherited_account_reconciliation_required p roots seen =
     list_ex sb_account_reconciliation_required (component_bindings p roots seen)"

definition inherited_reconciliation_cursors ::
  "position_state \<Rightarrow> root_head_index \<Rightarrow> seen_fact_index \<Rightarrow> (int \<times> bytes) list" where
  "inherited_reconciliation_cursors p roots seen =
     remdups (map (\<lambda>b. (sb_reconciliation_transition_count b, sb_reconciliation_transition_head b))
       (component_bindings p roots seen))"

text \<open>The cursor a binding takes: the one supplied, the one inherited, or the genesis.\<close>

definition select_cursor ::
  "(int \<times> bytes) list \<Rightarrow> int option \<Rightarrow> bytes option \<Rightarrow> (int \<times> bytes) res" where
  "select_cursor inherited count head =
     (case (count, head) of
        (Some n, Some h) \<Rightarrow> Ok (n, h)
      | (None, None) \<Rightarrow>
          require (\<not> length inherited > 1) ValueError
          (case inherited of [] \<Rightarrow> Ok (0, RECONCILIATION_GENESIS_HEAD) | c # _ \<Rightarrow> Ok c)
      | _ \<Rightarrow> Raise ValueError)"

definition cursor_continues :: "(int \<times> bytes) list \<Rightarrow> int \<Rightarrow> bytes \<Rightarrow> bool" where
  "cursor_continues inherited count head =
     list_all (\<lambda>(n, h). \<not> (count < n \<or> (count = n \<and> head \<noteq> h))) inherited"

text \<open>The reconciliation cursor of the new binding, with the checks against the inherited ones.\<close>

definition bind_cursor ::
  "(int \<times> bytes) list \<Rightarrow> int option \<Rightarrow> bytes option \<Rightarrow> (int \<times> bytes) res" where
  "bind_cursor inherited count head =
     bind_res (select_cursor inherited count head) (\<lambda>(transition_count, transition_head).
     require (\<not> transition_count < 0) ValueError
     (require (length transition_head = 32) ValueError
     (require (cursor_continues inherited transition_count transition_head) ValueError
        (Ok (transition_count, transition_head)))))"

text \<open>The position over the sequences of the root index.\<close>

definition align_sequences :: "position_state \<Rightarrow> root_head_index \<Rightarrow> position_state res" where
  "align_sequences position root_heads =
     (if po_root_fill_sequence position \<noteq> ri_root_sequence root_heads \<or>
         po_effective_head_ids position \<noteq> ri_head_sequence root_heads
      then require (\<not> (seq_commitment (po_root_fill_sequence position) \<noteq>
                         ri_root_order_commitment root_heads \<or>
                       seq_commitment (po_effective_head_ids position) \<noteq>
                         ri_head_ids_commitment root_heads)) ValueError
           (mk_position_state
              (position\<lparr>po_root_fill_sequence := ri_root_sequence root_heads,
                        po_effective_head_ids := ri_head_sequence root_heads,
                        po_binding := None\<rparr>))
      else Ok position)"

text \<open>The new binding object and the snapshot whose three components carry it.\<close>

definition seal_snapshot ::
  "nat \<Rightarrow> position_state \<Rightarrow> position_integrity \<Rightarrow> root_head_index \<Rightarrow> seen_fact_index \<Rightarrow>
   bool \<Rightarrow> int \<times> bytes \<Rightarrow> execution_snapshot res" where
  "seal_snapshot obj position integrity root_heads seen account cursor =
     bind_res (mk_snapshot_binding
                 \<lparr>sb_object = obj, sb_position_scope = po_scope position,
                  sb_position_commitment = po_commitment position,
                  sb_root_heads_commitment = ri_commitment root_heads,
                  sb_seen_facts_commitment = si_commitment seen,
                  sb_integrity_bits = integrity_value integrity,
                  sb_account_reconciliation_required = account,
                  sb_reconciliation_transition_count = fst cursor,
                  sb_reconciliation_transition_head = snd cursor,
                  sb_snapshot_commitment =
                    kernel_snapshot_commitment position root_heads seen (integrity_value integrity)
                      account (fst cursor) (snd cursor)\<rparr>) (\<lambda>binding.
      bind_res (po_with_binding position binding) (\<lambda>bound_position.
        mk_execution_snapshot
          \<lparr>sn_position = bound_position, sn_integrity = integrity,
           sn_root_heads = ri_with_binding root_heads binding,
           sn_seen_facts = si_with_binding seen binding\<rparr>))"

definition bind_components ::
  "nat \<Rightarrow> position_state \<Rightarrow> position_integrity \<Rightarrow> root_head_index \<Rightarrow> seen_fact_index \<Rightarrow>
   bool option \<Rightarrow> int option \<Rightarrow> bytes option \<Rightarrow> execution_snapshot res" where
  "bind_components obj position integrity root_heads seen_facts account_required count head =
     (let account = (inherited_account_reconciliation_required position root_heads seen_facts \<or>
                     account_required = Some True)
      in bind_res (bind_cursor (inherited_reconciliation_cursors position root_heads seen_facts)
                     count head) (\<lambda>cursor.
     bind_res (si_for_position_scope seen_facts (po_scope position)) (\<lambda>seen.
      require (inf (po_integrity_floor position) integrity = po_integrity_floor position) ValueError
     (require (ri_position_scope root_heads = Some (po_scope position)) ValueError
     (bind_res (align_sequences position root_heads) (\<lambda>aligned.
      require (\<not> (po_raw_quantity aligned \<noteq> ri_signed_quantity root_heads \<or>
                  po_root_count aligned \<noteq> ri_count root_heads)) ValueError
     (bind_res (mk_position_state
                 (aligned\<lparr>po_integrity_floor := sup (po_integrity_floor aligned) integrity,
                          po_binding := None\<rparr>)) (\<lambda>floored.
      seal_snapshot obj floored integrity root_heads seen account cursor))))))))"

definition sn_flat :: "nat \<Rightarrow> position_scope \<Rightarrow> execution_snapshot res" where
  "sn_flat obj scope =
     bind_components obj (po_flat scope) CONSISTENT (ri_empty (Some scope)) (si_empty (Some scope))
       None None None"

subsection \<open>Operations that only bind\<close>

definition project_execution_registry ::
  "nat \<Rightarrow> execution_snapshot \<Rightarrow> execution_snapshot \<Rightarrow> int \<Rightarrow> bytes \<Rightarrow> execution_snapshot res" where
  "project_execution_registry obj target source transition_count transition_head =
     (let target_scope = po_scope (sn_position target); source_scope = po_scope (sn_position source)
      in require (\<not> (ps_broker target_scope \<noteq> ps_broker source_scope \<or>
                     ps_environment target_scope \<noteq> ps_environment source_scope \<or>
                     ps_account target_scope \<noteq> ps_account source_scope)) ValueError
     (bind_res (has_prefix (sn_seen_facts source) (int (si_count (sn_seen_facts target)))
                  (si_commitment (sn_seen_facts target))) (\<lambda>extends.
      require extends ValueError
     (bind_res (sn_account_reconciliation_required target) (\<lambda>target_required.
      bind_res (if target_required then Ok True else sn_account_reconciliation_required source)
        (\<lambda>required.
      bind_components obj (sn_position target) (sn_integrity target) (sn_root_heads target)
        (sn_seen_facts source) (Some required) (Some transition_count) (Some transition_head)))))))"

definition latch_execution_integrity ::
  "nat \<Rightarrow> execution_snapshot \<Rightarrow> position_integrity \<Rightarrow> execution_snapshot res" where
  "latch_execution_integrity obj execution evidence =
     bind_components obj (sn_position execution) (sup (sn_integrity execution) evidence)
       (sn_root_heads execution) (sn_seen_facts execution) None None None"

definition latch_account_execution_reconciliation ::
  "nat \<Rightarrow> execution_snapshot \<Rightarrow> execution_snapshot res" where
  "latch_account_execution_reconciliation obj execution =
     bind_res (sn_account_reconciliation_required execution) (\<lambda>required.
       if required then Ok execution
       else bind_components obj (sn_position execution) (sn_integrity execution)
              (sn_root_heads execution) (sn_seen_facts execution) (Some True) None None)"

definition bind_execution_reconciliation_cursor ::
  "nat \<Rightarrow> execution_snapshot \<Rightarrow> int \<Rightarrow> bytes \<Rightarrow> bool \<Rightarrow> execution_snapshot res" where
  "bind_execution_reconciliation_cursor obj execution transition_count transition_head required =
     bind_components obj (sn_position execution) (sn_integrity execution)
       (sn_root_heads execution) (sn_seen_facts execution) (Some required)
       (Some transition_count) (Some transition_head)"


subsection \<open>Properties of binding\<close>

definition position_valid :: "position_state \<Rightarrow> bool" where
  "position_valid p \<longleftrightarrow>
     sq_length (po_root_fill_sequence p) = sq_length (po_effective_head_ids p) \<and>
     (if po_basis_authority p = AVAILABLE
      then \<exists>b. po_cost_basis p = Some b \<and> (po_raw_quantity p \<le> 0 \<longrightarrow> basis_value b = 0)
      else po_cost_basis p = None \<and> po_basis_price_metadata p = None \<and> po_tail_fold_input p = None)"

lemma mk_position_state_valid:
  "mk_position_state p = (if position_valid p then Ok p else Raise ValueError)"
  by (auto simp: mk_position_state_def position_valid_def require_def split: option.splits)

lemma position_valid_update [simp]:
  "position_valid (p\<lparr>po_binding := b\<rparr>) = position_valid p"
  "position_valid (p\<lparr>po_integrity_floor := i\<rparr>) = position_valid p"
  by (simp_all add: position_valid_def)

lemma length_commitments [simp, len_simps]:
  "length (po_commitment p) = 32"
  "length (ri_commitment roots) = 32"
  "length (seq_commitment s) = 32"
  "length (pm_commitment m) = 32"
  "length (kernel_snapshot_commitment p roots seen bits account count head) = 32"
  "length RECONCILIATION_GENESIS_HEAD = 32"
  by (simp_all add: po_commitment_def ri_commitment_def seq_commitment_def pm_commitment_def
      kernel_snapshot_commitment_def RECONCILIATION_GENESIS_HEAD_def Let_def)

lemma commitments_unbound [simp]:
  "po_commitment (p\<lparr>po_binding := b\<rparr>) = po_commitment p"
  "ri_commitment (ri_with_binding roots bd) = ri_commitment roots"
  "si_commitment (si_with_binding seen bd) = si_commitment seen"
  "kernel_snapshot_commitment (p\<lparr>po_binding := b\<rparr>) roots seen = kernel_snapshot_commitment p roots seen"
  "kernel_snapshot_commitment p (ri_with_binding roots bd) seen = kernel_snapshot_commitment p roots seen"
  "kernel_snapshot_commitment p roots (si_with_binding seen bd) = kernel_snapshot_commitment p roots seen"
  by (simp_all add: po_commitment_def ri_commitment_def si_commitment_def ri_with_binding_def
      si_with_binding_def kernel_snapshot_commitment_def fun_eq_iff)

lemma with_binding_sel [simp]:
  "ri_position_scope (ri_with_binding roots b) = ri_position_scope roots"
  "ri_signed_quantity (ri_with_binding roots b) = ri_signed_quantity roots"
  "ri_count (ri_with_binding roots b) = ri_count roots"
  "ri_root_sequence (ri_with_binding roots b) = ri_root_sequence roots"
  "ri_head_sequence (ri_with_binding roots b) = ri_head_sequence roots"
  "ri_binding (ri_with_binding roots b) = Some b"
  "ri_get (ri_with_binding roots b) = ri_get roots"
  "si_binding (si_with_binding seen b) = Some b"
  "si_account_scope (si_with_binding seen b) = si_account_scope seen"
  "belongs_to (si_with_binding seen b) = belongs_to seen"
  "si_get (si_with_binding seen b) = si_get seen"
  "contains_root (si_with_binding seen b) = contains_root seen"
  "si_count (si_with_binding seen b) = si_count seen"
  by (simp_all add: ri_with_binding_def si_with_binding_def ri_count_def ri_get_def belongs_to_def
      si_get_def contains_root_def si_count_def fun_eq_iff)

lemma with_binding_ok [simp]:
  "ri_ok (ri_with_binding roots b) hs = ri_ok roots hs"
  "si_ok (si_with_binding seen b) os = si_ok seen os"
  by (simp_all add: ri_ok_def si_ok_def ri_with_binding_def si_with_binding_def)

text \<open>What a successful binding gives, from whatever components.\<close>

definition bound_to :: "execution_snapshot \<Rightarrow> snapshot_binding \<Rightarrow> bool" where
  "bound_to s b \<longleftrightarrow>
     po_binding (sn_position s) = Some b \<and>
     snapshot_is_coherent (sn_position s) (sn_integrity s) (sn_root_heads s) (sn_seen_facts s)"

text \<open>The binding that sealing makes.\<close>

definition sealed_binding ::
  "nat \<Rightarrow> position_state \<Rightarrow> position_integrity \<Rightarrow> root_head_index \<Rightarrow> seen_fact_index \<Rightarrow>
   bool \<Rightarrow> int \<times> bytes \<Rightarrow> snapshot_binding" where
  "sealed_binding obj p i roots seen account cursor =
     \<lparr>sb_object = obj, sb_position_scope = po_scope p, sb_position_commitment = po_commitment p,
      sb_root_heads_commitment = ri_commitment roots, sb_seen_facts_commitment = si_commitment seen,
      sb_integrity_bits = integrity_value i, sb_account_reconciliation_required = account,
      sb_reconciliation_transition_count = fst cursor, sb_reconciliation_transition_head = snd cursor,
      sb_snapshot_commitment = kernel_snapshot_commitment p roots seen (integrity_value i) account
        (fst cursor) (snd cursor)\<rparr>"

definition sealed_snapshot ::
  "nat \<Rightarrow> position_state \<Rightarrow> position_integrity \<Rightarrow> root_head_index \<Rightarrow> seen_fact_index \<Rightarrow>
   bool \<Rightarrow> int \<times> bytes \<Rightarrow> execution_snapshot" where
  "sealed_snapshot obj p i roots seen account cursor =
     (let b = sealed_binding obj p i roots seen account cursor
      in \<lparr>sn_position = p\<lparr>po_binding := Some b\<rparr>, sn_integrity = i,
          sn_root_heads = ri_with_binding roots b, sn_seen_facts = si_with_binding seen b\<rparr>)"

lemma sealed_sel [simp]:
  "sn_integrity (sealed_snapshot obj p i roots seen account cursor) = i"
  "sn_position (sealed_snapshot obj p i roots seen account cursor) =
     p\<lparr>po_binding := Some (sealed_binding obj p i roots seen account cursor)\<rparr>"
  "sn_root_heads (sealed_snapshot obj p i roots seen account cursor) =
     ri_with_binding roots (sealed_binding obj p i roots seen account cursor)"
  "sn_seen_facts (sealed_snapshot obj p i roots seen account cursor) =
     si_with_binding seen (sealed_binding obj p i roots seen account cursor)"
  "sb_account_reconciliation_required (sealed_binding obj p i roots seen account cursor) = account"
  "sb_reconciliation_transition_count (sealed_binding obj p i roots seen account cursor) = fst cursor"
  "sb_reconciliation_transition_head (sealed_binding obj p i roots seen account cursor) = snd cursor"
  "sb_object (sealed_binding obj p i roots seen account cursor) = obj"
  "sb_integrity_bits (sealed_binding obj p i roots seen account cursor) = integrity_value i"
  by (simp_all add: sealed_snapshot_def sealed_binding_def Let_def)

lemma seal_snapshot_inv:
  assumes "seal_snapshot obj p i roots seen account cursor = Ok s"
  shows "s = sealed_snapshot obj p i roots seen account cursor"
    and "snapshot_is_coherent (sn_position s) (sn_integrity s) (sn_root_heads s) (sn_seen_facts s)"
  using assms
  by (auto simp: seal_snapshot_def mk_snapshot_binding_def po_with_binding_def bind_res_eq_Inr
      require_eq_Inr mk_position_state_valid mk_execution_snapshot_def sealed_snapshot_def
      sealed_binding_def split: if_splits)

text \<open>The components a binding accepts.\<close>

definition bindable :: "position_state \<Rightarrow> root_head_index \<Rightarrow> seen_fact_index \<Rightarrow> bool" where
  "bindable p roots seen \<longleftrightarrow>
     position_valid p \<and> ri_position_scope roots = Some (po_scope p) \<and>
     belongs_to seen (po_scope p) \<and> ri_signed_quantity roots = po_raw_quantity p \<and>
     po_root_fill_sequence p = ri_root_sequence roots \<and>
     po_effective_head_ids p = ri_head_sequence roots"

lemma seal_snapshot_ok:
  assumes "bindable p roots seen" "fst cursor \<ge> 0" "length (snd cursor) = 32"
  shows "seal_snapshot obj p i roots seen account cursor =
    Ok (sealed_snapshot obj p i roots seen account cursor)"
proof -
  let ?b = "sealed_binding obj p i roots seen account cursor"
  have "mk_snapshot_binding ?b = Ok ?b"
    using assms(2,3) by (simp add: mk_snapshot_binding_def sealed_binding_def)
  moreover have "snapshot_is_coherent (p\<lparr>po_binding := Some ?b\<rparr>) i (ri_with_binding roots ?b)
      (si_with_binding seen ?b)"
    using assms
    by (simp add: snapshot_is_coherent_def snapshot_parts_share_binding_def bindable_def
        sealed_binding_def po_root_count_def ri_count_def)
  ultimately show ?thesis
    using assms(1)
    by (simp add: seal_snapshot_def po_with_binding_def mk_position_state_valid bindable_def
        mk_execution_snapshot_def sealed_snapshot_def Let_def flip: sealed_binding_def)
qed

text \<open>Binding components that fit succeeds and gives the sealed snapshot.\<close>

lemma bind_components_ok:
  assumes parts: "bindable p roots seen" and integrity: "po_integrity_floor p \<le> i"
    and cursor: "bind_cursor (inherited_reconciliation_cursors p roots seen) count head = Ok cursor"
  shows "bind_components obj p i roots seen account count head =
    Ok (sealed_snapshot obj (p\<lparr>po_integrity_floor := i, po_binding := None\<rparr>) i roots seen
          (inherited_account_reconciliation_required p roots seen \<or> account = Some True) cursor)"
proof -
  have "fst cursor \<ge> 0" "length (snd cursor) = 32"
    using cursor by (auto simp: bind_cursor_def bind_res_eq_Inr require_eq_Inr)
  moreover have "bindable (p\<lparr>po_integrity_floor := i, po_binding := None\<rparr>) roots seen"
    using parts by (simp add: bindable_def)
  ultimately show ?thesis
    using parts integrity cursor
    by (simp add: bind_components_def bindable_def align_sequences_def si_for_position_scope_def
        belongs_to_def floor_check sup_absorb2 mk_position_state_valid po_root_count_def
        ri_count_def seal_snapshot_ok)
qed

text \<open>
  Whatever is bound, a successful binding keeps the floor, keeps the account restriction, and moves
  the reconciliation cursor neither back nor sideways.
\<close>

lemma bind_components_inv:
  assumes "bind_components obj p i roots seen account count head = Ok s"
  obtains p' seen' cursor where
    "s = sealed_snapshot obj (p'\<lparr>po_integrity_floor := i, po_binding := None\<rparr>) i roots seen'
       (inherited_account_reconciliation_required p roots seen \<or> account = Some True) cursor"
    "snapshot_is_coherent (sn_position s) (sn_integrity s) (sn_root_heads s) (sn_seen_facts s)"
    "bind_cursor (inherited_reconciliation_cursors p roots seen) count head = Ok cursor"
    "si_for_position_scope seen (po_scope p) = Ok seen'"
    "p' = p \<or> p' = p\<lparr>po_root_fill_sequence := ri_root_sequence roots,
      po_effective_head_ids := ri_head_sequence roots, po_binding := None\<rparr>"
    "po_integrity_floor p \<le> i" "ri_position_scope roots = Some (po_scope p)"
    "ri_signed_quantity roots = po_raw_quantity p" "position_valid p'"
proof -
  let ?a = "inherited_account_reconciliation_required p roots seen \<or> account = Some True"
  from assms obtain cursor seen' p' where
    c: "bind_cursor (inherited_reconciliation_cursors p roots seen) count head = Ok cursor"
    and seen: "si_for_position_scope seen (po_scope p) = Ok seen'"
    and i: "po_integrity_floor p \<le> i" and scope: "ri_position_scope roots = Some (po_scope p)"
    and p': "align_sequences p roots = Ok p'"
    and raw: "po_raw_quantity p' = ri_signed_quantity roots" and v: "position_valid p'"
    and s: "seal_snapshot obj (p'\<lparr>po_integrity_floor := sup (po_integrity_floor p') i,
       po_binding := None\<rparr>) i roots seen' ?a cursor = Ok s"
    by (auto simp: bind_components_def Let_def bind_res_eq_Inr require_eq_Inr floor_check
        mk_position_state_valid split: if_splits)
  have p'': "p' = p \<or> p' = p\<lparr>po_root_fill_sequence := ri_root_sequence roots,
      po_effective_head_ids := ri_head_sequence roots, po_binding := None\<rparr>"
    using p' by (auto simp: align_sequences_def require_eq_Inr mk_position_state_valid split: if_splits)
  then have "sup (po_integrity_floor p') i = i" "po_raw_quantity p' = po_raw_quantity p"
    using i by (auto simp: sup_absorb2)
  with seal_snapshot_inv [OF s] c seen i scope raw v p'' show thesis
    by (intro that [of p' seen' cursor]) auto
qed


subsection \<open>Bound snapshots\<close>

text \<open>What every snapshot that was bound satisfies.\<close>

definition snapshot_ok :: "execution_snapshot \<Rightarrow> bool" where
  "snapshot_ok s \<longleftrightarrow>
     snapshot_is_coherent (sn_position s) (sn_integrity s) (sn_root_heads s) (sn_seen_facts s) \<and>
     position_valid (sn_position s) \<and> po_integrity_floor (sn_position s) = sn_integrity s"

definition binding_of :: "execution_snapshot \<Rightarrow> snapshot_binding" where
  "binding_of s = the (po_binding (sn_position s))"

definition cursor_of :: "execution_snapshot \<Rightarrow> int \<times> bytes" where
  "cursor_of s = (sb_reconciliation_transition_count (binding_of s),
                  sb_reconciliation_transition_head (binding_of s))"

definition account_latched :: "execution_snapshot \<Rightarrow> bool" where
  "account_latched s = sb_account_reconciliation_required (binding_of s)"

lemma coherentD:
  assumes "snapshot_is_coherent p i roots seen"
  obtains b where "po_binding p = Some b" "ri_binding roots = Some b" "si_binding seen = Some b"
    "ri_position_scope roots = Some (po_scope p)" "belongs_to seen (po_scope p)"
    "ri_signed_quantity roots = po_raw_quantity p" "po_root_fill_sequence p = ri_root_sequence roots"
    "po_effective_head_ids p = ri_head_sequence roots" "sb_reconciliation_transition_count b \<ge> 0"
    "length (sb_reconciliation_transition_head b) = 32" "sb_integrity_bits b = integrity_value i"
  using assms
  by (auto simp: snapshot_is_coherent_def snapshot_parts_share_binding_def not_less
      split: option.splits if_splits)

lemma coherent_bindable:
  "snapshot_is_coherent p i roots seen \<Longrightarrow> position_valid p \<Longrightarrow> bindable p roots seen"
  by (elim coherentD) (simp add: bindable_def)

lemma snapshot_okD:
  assumes "snapshot_ok s"
  shows "snapshot_is_coherent (sn_position s) (sn_integrity s) (sn_root_heads s) (sn_seen_facts s)"
    and "position_valid (sn_position s)"
    and "po_integrity_floor (sn_position s) = sn_integrity s"
    and "bindable (sn_position s) (sn_root_heads s) (sn_seen_facts s)"
    and "po_binding (sn_position s) = Some (binding_of s)"
    and "ri_binding (sn_root_heads s) = Some (binding_of s)"
    and "si_binding (sn_seen_facts s) = Some (binding_of s)"
    and "fst (cursor_of s) \<ge> 0" "length (snd (cursor_of s)) = 32"
    and "sb_integrity_bits (binding_of s) = integrity_value (sn_integrity s)"
  using assms
  by (auto simp: snapshot_ok_def binding_of_def cursor_of_def bindable_def elim!: coherentD)

text \<open>A successful binding gives such a snapshot, from whatever components.\<close>

lemma bind_components_snapshot_ok:
  "bind_components obj p i roots seen account count head = Ok s \<Longrightarrow> snapshot_ok s"
  by (elim bind_components_inv) (auto simp: snapshot_ok_def)

lemma component_bindings_simps [simp]:
  "component_bindings p roots seen =
     (case po_binding p of Some b \<Rightarrow> [b] | None \<Rightarrow> []) @
     (case ri_binding roots of Some b \<Rightarrow> [b] | None \<Rightarrow> []) @
     (case si_binding seen of Some b \<Rightarrow> [b] | None \<Rightarrow> [])"
  by (simp add: component_bindings_def List.map_filter_simps split: option.splits)

lemma inherited_bound:
  assumes "po_binding p = Some b" "ri_binding roots = Some b" "si_binding seen = Some b \<or> si_binding seen = None"
  shows "inherited_reconciliation_cursors p roots seen =
      [(sb_reconciliation_transition_count b, sb_reconciliation_transition_head b)]"
    and "inherited_account_reconciliation_required p roots seen = sb_account_reconciliation_required b"
  using assms
  by (auto simp: inherited_reconciliation_cursors_def inherited_account_reconciliation_required_def)

lemma inherited_unbound:
  assumes "po_binding p = None" "ri_binding roots = None" "si_binding seen = None"
  shows "inherited_reconciliation_cursors p roots seen = []"
    and "inherited_account_reconciliation_required p roots seen = False"
  using assms
  by (auto simp: inherited_reconciliation_cursors_def inherited_account_reconciliation_required_def)

lemma bind_cursor_simps:
  "n \<ge> 0 \<Longrightarrow> length h = 32 \<Longrightarrow> bind_cursor [(n, h)] None None = Ok (n, h)"
  "n \<ge> 0 \<Longrightarrow> length h = 32 \<Longrightarrow> bind_cursor [] (Some n) (Some h) = Ok (n, h)"
  "bind_cursor [] None None = Ok (0, RECONCILIATION_GENESIS_HEAD)"
  "n' \<ge> 0 \<Longrightarrow> length h' = 32 \<Longrightarrow> bind_cursor [(n, h)] (Some n') (Some h') =
     (if n < n' \<or> (n, h) = (n', h') then Ok (n', h') else Raise ValueError)"
  by (auto simp: bind_cursor_def select_cursor_def cursor_continues_def require_def)

lemma cursor_account_sealed [simp]:
  "cursor_of (sealed_snapshot obj p i roots seen account cursor) = cursor"
  "account_latched (sealed_snapshot obj p i roots seen account cursor) = account"
  by (simp_all add: cursor_of_def account_latched_def binding_of_def)

text \<open>The cursor of a snapshot: it may stay, or move to a greater count.\<close>

definition cursor_le :: "int \<times> bytes \<Rightarrow> int \<times> bytes \<Rightarrow> bool" where
  "cursor_le c d \<longleftrightarrow> c = d \<or> fst c < fst d"

lemma cursor_le_trans: "cursor_le a b \<Longrightarrow> cursor_le b c \<Longrightarrow> cursor_le a c"
  by (auto simp: cursor_le_def)

lemma bind_cursor_le: "bind_cursor [c] count head = Ok d \<Longrightarrow> cursor_le c d"
  by (cases c; cases d)
    (auto simp: bind_cursor_def bind_res_eq_Inr require_eq_Inr cursor_continues_def cursor_le_def)

text \<open>What rebinding the components of a snapshot keeps, with any registry that is not bound elsewhere.\<close>

lemma rebind_inv:
  assumes s: "snapshot_ok s" and seen: "si_binding seen = Some (binding_of s) \<or> si_binding seen = None"
    and bind: "bind_components obj (sn_position s) i (sn_root_heads s) seen account count head = Ok s'"
  shows "snapshot_ok s'" "sn_integrity s \<le> i" "sn_integrity s' = i" "cursor_le (cursor_of s) (cursor_of s')"
    "account_latched s' = (account_latched s \<or> account = Some True)"
    "sn_root_heads s' = ri_with_binding (sn_root_heads s) (binding_of s')"
    "sn_position s' = (sn_position s)\<lparr>po_integrity_floor := i, po_binding := Some (binding_of s')\<rparr>"
proof -
  note ok = snapshot_okD [OF s]
  have cs: "inherited_reconciliation_cursors (sn_position s) (sn_root_heads s) seen = [cursor_of s]"
    and a: "inherited_account_reconciliation_required (sn_position s) (sn_root_heads s) seen = account_latched s"
    using inherited_bound [OF ok(5,6)] seen by (simp_all add: cursor_of_def account_latched_def)
  have seqs: "po_root_fill_sequence (sn_position s) = ri_root_sequence (sn_root_heads s)"
    "po_effective_head_ids (sn_position s) = ri_head_sequence (sn_root_heads s)"
    using ok(4) by (simp_all add: bindable_def)
  show "snapshot_ok s'" by (rule bind_components_snapshot_ok [OF bind])
  from bind obtain p' seen' cursor where
    s': "s' = sealed_snapshot obj (p'\<lparr>po_integrity_floor := i, po_binding := None\<rparr>) i (sn_root_heads s) seen'
       (account_latched s \<or> account = Some True) cursor"
    and c: "bind_cursor [cursor_of s] count head = Ok cursor"
    and p': "p' = sn_position s \<or> p' = (sn_position s)\<lparr>po_binding := None\<rparr>"
    and i: "po_integrity_floor (sn_position s) \<le> i"
    by (elim bind_components_inv) (auto simp: cs a seqs [symmetric])
  then show "sn_integrity s \<le> i" "sn_integrity s' = i" "account_latched s' = (account_latched s \<or> account = Some True)"
    "cursor_le (cursor_of s) (cursor_of s')"
    using ok(3) by (simp_all add: bind_cursor_le)
  show "sn_root_heads s' = ri_with_binding (sn_root_heads s) (binding_of s')"
    by (simp add: s' binding_of_def)
  show "sn_position s' = (sn_position s)\<lparr>po_integrity_floor := i, po_binding := Some (binding_of s')\<rparr>"
    using p' by (auto simp: s' binding_of_def)
qed

lemma rebind_ok:
  assumes s: "snapshot_ok s" and seen: "si_binding seen = Some (binding_of s) \<or> si_binding seen = None"
    and belongs: "belongs_to seen (po_scope (sn_position s))" and i: "sn_integrity s \<le> i"
    and c: "bind_cursor [cursor_of s] count head = Ok cursor"
  shows "bind_components obj (sn_position s) i (sn_root_heads s) seen account count head =
    Ok (sealed_snapshot obj ((sn_position s)\<lparr>po_integrity_floor := i, po_binding := None\<rparr>) i
          (sn_root_heads s) seen (account_latched s \<or> account = Some True) cursor)"
proof -
  note ok = snapshot_okD [OF s]
  have "bindable (sn_position s) (sn_root_heads s) seen"
    using ok(4) belongs by (simp add: bindable_def)
  moreover have "inherited_reconciliation_cursors (sn_position s) (sn_root_heads s) seen = [cursor_of s]"
    "inherited_account_reconciliation_required (sn_position s) (sn_root_heads s) seen = account_latched s"
    using inherited_bound [OF ok(5,6)] seen by (simp_all add: cursor_of_def account_latched_def)
  ultimately show ?thesis
    using c i ok(3) by (simp add: bind_components_ok)
qed

lemma sn_flat_ok:
  "sn_flat obj scope = Ok (sealed_snapshot obj (po_flat scope) CONSISTENT (ri_empty (Some scope))
     (si_empty (Some scope)) False (0, RECONCILIATION_GENESIS_HEAD))"
proof -
  have "bindable (po_flat scope) (ri_empty (Some scope)) (si_empty (Some scope))"
    by (simp add: bindable_def position_valid_def po_flat_def ri_empty_def si_empty_def belongs_to_def
        seq_empty_def)
  moreover have "(po_flat scope)\<lparr>po_integrity_floor := CONSISTENT, po_binding := None\<rparr> = po_flat scope"
    by (simp add: po_flat_def)
  moreover have "inherited_reconciliation_cursors (po_flat scope) (ri_empty (Some scope)) (si_empty (Some scope)) = []"
    "inherited_account_reconciliation_required (po_flat scope) (ri_empty (Some scope)) (si_empty (Some scope)) = False"
    by (rule inherited_unbound; simp add: po_flat_def ri_empty_def si_empty_def)+
  moreover have "po_integrity_floor (po_flat scope) = CONSISTENT" by (simp add: po_flat_def)
  ultimately show ?thesis
    by (simp add: sn_flat_def bind_components_ok bind_cursor_simps)
qed

end
