(* ===== verification/Transition.thy ===== *)
theory Transition
  imports Position
begin

text \<open>
  The fact transitions of \<^verbatim>\<open>app/execution_core/position.py\<close>: the application of root
  fills, corrections and busts to the four components of a snapshot, the transitions that leave the
  economics unchanged, and the canonical dispatch. Each takes the number of the fresh binding object.
\<close>

datatype transition_disposition = APPLIED | EXACT_REPLAY | FACT_CONFLICT | RECONCILIATION_REQUIRED

record execution_transition =
  tr_position :: position_state
  tr_integrity :: position_integrity
  tr_root_heads :: root_head_index
  tr_seen_facts :: seen_fact_index
  tr_quantity_delta :: int
  tr_basis_delta :: "rat option"
  tr_disposition :: transition_disposition
  tr_original_classification :: first_observation_classification

definition transition_of ::
  "execution_snapshot \<Rightarrow> int \<Rightarrow> rat option \<Rightarrow> transition_disposition \<Rightarrow>
   first_observation_classification \<Rightarrow> execution_transition" where
  "transition_of s quantity_delta basis_delta disposition classification =
     \<lparr>tr_position = sn_position s, tr_integrity = sn_integrity s, tr_root_heads = sn_root_heads s,
      tr_seen_facts = sn_seen_facts s, tr_quantity_delta = quantity_delta,
      tr_basis_delta = basis_delta, tr_disposition = disposition,
      tr_original_classification = classification\<rparr>"

definition observation_matches_head :: "seen_fact \<Rightarrow> root_head \<Rightarrow> bool" where
  "observation_matches_head obs h =
     (let f = sf_fact obs
      in if fact_root_key f \<noteq> rh_root_key h \<or> fact_scope f \<noteq> rh_scope h \<or>
            fk_source_event_id (fact_key f) \<noteq> rh_current_source_event_id h \<or>
            fact_kind_of f \<noteq> rh_kind h
         then False
         else (case f of
                 BrokerFill b \<Rightarrow> bf_quantity b = rh_quantity h \<and> Some (bf_price b) = rh_price h
               | HumanAttestedFill b \<Rightarrow>
                   hf_quantity b = rh_quantity h \<and> Some (hf_price b) = rh_price h
               | BrokerTradeCorrect c \<Rightarrow>
                   cf_revised_quantity c = rh_quantity h \<and> Some (cf_revised_price c) = rh_price h
               | BrokerTradeBust x \<Rightarrow>
                   quantity_value (rh_quantity h) = 0 \<and> xf_reported_price x = rh_price h))"

definition classification_of :: "bool \<Rightarrow> int \<Rightarrow> first_observation_classification" where
  "classification_of pending raw_quantity =
     (if pending \<and> raw_quantity < 0 then APPLIED_PENDING_OVERFILL
      else if pending then APPLIED_BASIS_PENDING
      else if raw_quantity < 0 then APPLIED_OVERFILL_QUARANTINE
      else APPLIED_AVAILABLE)"

subsection \<open>Transitions that leave the economics unchanged\<close>

definition unchanged_transition ::
  "nat \<Rightarrow> position_state \<Rightarrow> position_integrity \<Rightarrow> root_head_index \<Rightarrow> seen_fact_index \<Rightarrow>
   transition_disposition \<Rightarrow> first_observation_classification \<Rightarrow> execution_transition res" where
  "unchanged_transition obj position integrity root_heads seen_facts disposition classification =
     bind_res
       (if \<not> snapshot_is_coherent position integrity root_heads seen_facts \<and>
           snapshot_parts_share_binding position integrity root_heads seen_facts False
        then bind_res (bind_components obj position integrity root_heads seen_facts None None None)
               (\<lambda>rebound. Ok (sn_position rebound, sn_root_heads rebound, sn_seen_facts rebound))
        else Ok (position, root_heads, seen_facts)) (\<lambda>(position, root_heads, seen_facts).
       Ok \<lparr>tr_position = position, tr_integrity = integrity, tr_root_heads = root_heads,
           tr_seen_facts = seen_facts, tr_quantity_delta = 0, tr_basis_delta = Some 0,
           tr_disposition = disposition, tr_original_classification = classification\<rparr>)"

definition reconciliation_transition ::
  "nat \<Rightarrow> position_state \<Rightarrow> position_integrity \<Rightarrow> root_head_index \<Rightarrow> seen_fact_index \<Rightarrow>
   canonical_fact \<Rightarrow> execution_transition res" where
  "reconciliation_transition obj position integrity root_heads seen_facts f =
     bind_res (mk_seen_fact f CLASS_RECONCILIATION_REQUIRED (Some (po_scope position))) (\<lambda>obs.
     bind_res (si_add seen_facts obs) (\<lambda>next_seen.
     bind_res (bind_components obj position (sup integrity EXECUTION_RECONCILIATION_REQUIRED)
                 root_heads next_seen None None None) (\<lambda>snapshot.
       Ok (transition_of snapshot 0 (Some 0) RECONCILIATION_REQUIRED CLASS_RECONCILIATION_REQUIRED))))"

definition trusted_bindings ::
  "position_state \<Rightarrow> root_head_index \<Rightarrow> seen_fact_index \<Rightarrow> bool \<Rightarrow> bool \<Rightarrow> snapshot_binding list" where
  "trusted_bindings position root_heads seen_facts root_matches registry_matches =
     filter (\<lambda>b. sb_position_scope b = po_scope position)
       ((case po_binding position of Some b \<Rightarrow> [b] | None \<Rightarrow> []) @
        (if root_matches then (case ri_binding root_heads of Some b \<Rightarrow> [b] | None \<Rightarrow> []) else []) @
        (if registry_matches then (case si_binding seen_facts of Some b \<Rightarrow> [b] | None \<Rightarrow> []) else []))"

definition incoherent_snapshot_transition ::
  "position_state \<Rightarrow> position_integrity \<Rightarrow> root_head_index \<Rightarrow> seen_fact_index \<Rightarrow>
   canonical_fact \<Rightarrow> execution_transition res" where
  "incoherent_snapshot_transition position integrity root_heads seen_facts f =
     (let observation = si_get seen_facts (fact_key f);
          classification = (case observation of
             Some obs \<Rightarrow> sf_classification obs | None \<Rightarrow> CLASS_RECONCILIATION_REQUIRED);
          registry_matches = (si_account_scope seen_facts = None \<or>
             belongs_to seen_facts (po_scope position));
          root_matches = (ri_position_scope root_heads = Some (po_scope position))
      in bind_res
           (if observation = None \<and> registry_matches
            then bind_res (mk_seen_fact f CLASS_RECONCILIATION_REQUIRED (Some (po_scope position)))
                   (si_add seen_facts)
            else Ok seen_facts) (\<lambda>next_seen.
         bind_res
           (fold_res (\<lambda>b acc. bind_res (integrity_of_bits (sb_integrity_bits b)) (\<lambda>i. Ok (sup acc i)))
              (trusted_bindings position root_heads seen_facts root_matches registry_matches)
              (sup integrity (po_integrity_floor position))) (\<lambda>trusted.
         let overfill = (po_raw_quantity position < 0 \<or>
               (root_matches \<and> ri_signed_quantity root_heads < 0) \<or>
               has_overfill_observation seen_facts (po_scope position));
             conflict = (\<exists>obs \<in> set_option observation. sf_fact obs \<noteq> f);
             trusted = (if overfill then sup trusted OVERFILL_QUARANTINE else trusted);
             trusted = (if conflict then sup trusted EXECUTION_FACT_CONFLICT else trusted);
             next_integrity = sup trusted EXECUTION_RECONCILIATION_REQUIRED
         in bind_res (mk_position_state
              (position\<lparr>po_integrity_floor := sup (po_integrity_floor position) next_integrity,
                        po_binding := None\<rparr>)) (\<lambda>next_position.
            Ok \<lparr>tr_position = next_position, tr_integrity = next_integrity,
                tr_root_heads = root_heads, tr_seen_facts = next_seen, tr_quantity_delta = 0,
                tr_basis_delta = Some 0, tr_disposition = RECONCILIATION_REQUIRED,
                tr_original_classification = classification\<rparr>))))"

subsection \<open>Applying economics\<close>

definition basis_delta :: "exact_basis option \<Rightarrow> exact_basis option \<Rightarrow> rat option" where
  "basis_delta old_basis new_basis =
     (case (old_basis, new_basis) of
        (Some old, Some new) \<Rightarrow> Some (basis_value new - basis_value old)
      | _ \<Rightarrow> None)"

text \<open>
  The end of both applications: the next position over the next roots, the first observation, and
  the snapshot bound with the account state of the prior binding.
\<close>

definition finish_applied ::
  "nat \<Rightarrow> position_state \<Rightarrow> position_integrity \<Rightarrow> seen_fact_index \<Rightarrow> canonical_fact \<Rightarrow>
   snapshot_binding \<Rightarrow> root_head_index \<Rightarrow> int \<Rightarrow> int \<Rightarrow>
   (exact_basis \<times> reported_price option \<times> fold_input) option \<Rightarrow> execution_transition res" where
  "finish_applied obj position integrity seen_facts f prior_binding next_roots quantity_delta
     next_raw_quantity folded =
     bind_res (mk_position_state
       \<lparr>po_scope = po_scope position, po_raw_quantity = next_raw_quantity,
        po_basis_authority =
          (if folded = None then BASIS_RECONCILIATION_PENDING else AVAILABLE),
        po_cost_basis = map_option fst folded,
        po_root_fill_sequence = ri_root_sequence next_roots,
        po_effective_head_ids = ri_head_sequence next_roots,
        po_basis_price_metadata = Option.bind folded (fst \<circ> snd),
        po_tail_fold_input = map_option (snd \<circ> snd) folded,
        po_integrity_floor = CONSISTENT, po_binding = None\<rparr>) (\<lambda>next_position.
     let classification = classification_of (folded = None) next_raw_quantity;
         next_integrity =
           (if next_raw_quantity < 0 then sup integrity OVERFILL_QUARANTINE else integrity)
     in bind_res (mk_seen_fact f classification (Some (po_scope position))) (\<lambda>obs.
        bind_res (si_add seen_facts obs) (\<lambda>next_seen.
        bind_res (bind_components obj next_position next_integrity next_roots next_seen
                    (Some (sb_account_reconciliation_required prior_binding))
                    (Some (sb_reconciliation_transition_count prior_binding))
                    (Some (sb_reconciliation_transition_head prior_binding))) (\<lambda>snapshot.
          Ok (transition_of snapshot quantity_delta
                (basis_delta (po_cost_basis position) (map_option fst folded)) APPLIED
                classification)))))"

definition prefix_heads_commitment_of :: "position_state \<Rightarrow> bytes" where
  "prefix_heads_commitment_of position =
     commit_parts (text_bytes ''execution-core/tail-prefix-heads/v1'')
       [seq_commitment (po_root_fill_sequence position), seq_commitment (po_effective_head_ids position)]"

text \<open>The basis, metadata and tail proof after a root fill, when the basis can be updated.\<close>

definition root_fill_basis ::
  "position_state \<Rightarrow> canonical_fact \<Rightarrow> quantity \<Rightarrow> reported_price \<Rightarrow> int \<Rightarrow>
   (exact_basis \<times> reported_price option \<times> fold_input) option res" where
  "root_fill_basis position f quantity price next_raw_quantity =
     (case po_cost_basis position of
        Some cost_basis \<Rightarrow>
          if po_basis_authority position = AVAILABLE \<and>
             metadata_accepts (po_basis_price_metadata position) (Some price)
          then bind_res (fold_one (po_raw_quantity position) (basis_value cost_basis)
                           (es_side (fact_scope f)) (quantity_value quantity) (Some price))
                 (\<lambda>(folded_quantity, folded_basis).
                 if folded_quantity = next_raw_quantity
                 then bind_res (mk_exact_basis folded_basis) (\<lambda>basis.
                      bind_res (mk_fold_input
                        \<lparr>fi_raw_quantity = po_raw_quantity position, fi_cost_basis = cost_basis,
                         fi_price_metadata = po_basis_price_metadata position,
                         fi_position_scope = Some (po_scope position),
                         fi_tail_root_key = Some (fact_root_key f),
                         fi_prefix_count = int (po_root_count position),
                         fi_prefix_heads_commitment = prefix_heads_commitment_of position\<rparr>)
                        (\<lambda>tail. Ok (Some (basis,
                           next_metadata (po_basis_price_metadata position) (Some price)
                             (quantity_value quantity), tail))))
                 else Ok None)
          else Ok None
      | None \<Rightarrow> Ok None)"

definition apply_root_fill ::
  "nat \<Rightarrow> position_state \<Rightarrow> position_integrity \<Rightarrow> root_head_index \<Rightarrow> seen_fact_index \<Rightarrow>
   canonical_fact \<Rightarrow> quantity \<Rightarrow> reported_price \<Rightarrow> execution_transition res" where
  "apply_root_fill obj position integrity root_heads seen_facts f quantity price =
     (case po_binding position of
        None \<Rightarrow> Raise RuntimeError
      | Some prior_binding \<Rightarrow>
          if position_scope_of (fact_scope f) \<noteq> po_scope position \<or>
             ri_get root_heads (fact_root_key f) \<noteq> None \<or>
             contains_root seen_facts (fact_root_key f)
          then reconciliation_transition obj position integrity root_heads seen_facts f
          else
            let quantity_delta = (if es_side (fact_scope f) = BUY then quantity_value quantity
                                  else - quantity_value quantity);
                next_raw_quantity = po_raw_quantity position + quantity_delta
            in bind_res (root_fill_basis position f quantity price next_raw_quantity) (\<lambda>folded.
               bind_res (mk_root_head
                 \<lparr>rh_root_key = fact_root_key f, rh_original_sequence = po_root_count position,
                  rh_scope = fact_scope f, rh_authority = fact_authority f,
                  rh_current_source_event_id = fk_source_event_id (fact_key f),
                  rh_kind = fact_kind_of f, rh_quantity = quantity, rh_price = Some price,
                  rh_prefix_heads_commitment =
                    (if folded = None then [] else prefix_heads_commitment_of position),
                  rh_prefix_proof_commitment =
                    (case folded of None \<Rightarrow> [] | Some (_, _, tail) \<Rightarrow> fi_commitment tail)\<rparr>)
                 (\<lambda>next_head.
               bind_res (ri_append root_heads next_head) (\<lambda>next_roots.
                 finish_applied obj position integrity seen_facts f prior_binding next_roots
                   quantity_delta next_raw_quantity folded))))"

subsection \<open>Revisions\<close>

definition predecessor_key_of :: "canonical_fact \<Rightarrow> source_event_id \<Rightarrow> execution_fact_key" where
  "predecessor_key_of f predecessor =
     \<lparr>fk_broker = fk_broker (fact_key f), fk_environment = fk_environment (fact_key f),
      fk_account = fk_account (fact_key f), fk_source_event_id = predecessor\<rparr>"

definition current_predecessor_is_proven ::
  "seen_fact_index \<Rightarrow> root_head \<Rightarrow> canonical_fact \<Rightarrow> source_event_id \<Rightarrow> bool" where
  "current_predecessor_is_proven seen_facts h f predecessor =
     (case si_get seen_facts (predecessor_key_of f predecessor) of
        None \<Rightarrow> False
      | Some obs \<Rightarrow> sf_classification obs \<noteq> CLASS_RECONCILIATION_REQUIRED \<and>
                    observation_matches_head obs h)"

definition tail_proof_is_valid :: "position_state \<Rightarrow> root_head \<Rightarrow> bool res" where
  "tail_proof_is_valid position h =
     (case po_tail_fold_input position of
        None \<Rightarrow> Ok False
      | Some fi \<Rightarrow>
          if \<not> fi_is_bound fi then Ok False
          else if po_root_count position = 0 then Ok False
          else if fi_position_scope fi = Some (po_scope position) \<and>
                  fi_tail_root_key fi = Some (rh_root_key h) \<and>
                  fi_prefix_count fi = int (rh_original_sequence h) \<and>
                  fi_prefix_heads_commitment fi = rh_prefix_heads_commitment h \<and>
                  fi_commitment fi = rh_prefix_proof_commitment h \<and>
                  fi_raw_quantity fi = po_raw_quantity position - signed_quantity_of h
          then bind_res (seq_get (po_root_fill_sequence position) (int (po_root_count position) - 1))
                 (\<lambda>tail_key. if tail_key \<noteq> rh_root_key h then Ok False
                  else bind_res (seq_get (po_effective_head_ids position)
                                   (int (po_root_count position) - 1))
                         (\<lambda>tail_event. Ok (tail_event = rh_current_source_event_id h)))
          else Ok False)"

text \<open>The basis, metadata and tail proof after a revision, when it revises a proven tail.\<close>

definition revision_basis ::
  "position_state \<Rightarrow> root_head \<Rightarrow> quantity \<Rightarrow> reported_price option \<Rightarrow> int \<Rightarrow>
   (exact_basis \<times> reported_price option \<times> fold_input) option res" where
  "revision_basis position h revised_quantity revised_price next_raw_quantity =
     (if int (rh_original_sequence h) = int (po_root_count position) - 1 \<and>
         po_basis_authority position = AVAILABLE \<and> po_cost_basis position \<noteq> None
      then bind_res (tail_proof_is_valid position h) (\<lambda>valid.
        case po_tail_fold_input position of
          Some fi \<Rightarrow>
            if valid \<and> metadata_accepts (fi_price_metadata fi) revised_price
            then bind_res (fold_one (fi_raw_quantity fi) (basis_value (fi_cost_basis fi))
                             (es_side (rh_scope h)) (quantity_value revised_quantity) revised_price)
                   (\<lambda>(folded_quantity, folded_basis).
                   if folded_quantity = next_raw_quantity
                   then bind_res (mk_exact_basis folded_basis) (\<lambda>basis. Ok (Some (basis,
                          next_metadata (fi_price_metadata fi) revised_price
                            (quantity_value revised_quantity), fi)))
                   else Ok None)
            else Ok None
        | None \<Rightarrow> Ok None)
      else Ok None)"

text \<open>A revision that leaves the basis pending withdraws the proof of the tail root.\<close>

definition withdraw_tail_proof ::
  "position_state \<Rightarrow> root_head_index \<Rightarrow> root_head_index res" where
  "withdraw_tail_proof position next_roots =
     (if po_root_count position \<noteq> 0
      then bind_res (seq_get (po_root_fill_sequence position) (int (po_root_count position) - 1))
             (\<lambda>tail_root_key.
             case ri_get next_roots tail_root_key of
               None \<Rightarrow> Raise RuntimeError
             | Some tail_head \<Rightarrow>
                 if rh_prefix_heads_commitment tail_head \<noteq> [] \<or>
                    rh_prefix_proof_commitment tail_head \<noteq> []
                 then bind_res (mk_root_head (tail_head\<lparr>rh_prefix_heads_commitment := [],
                                                        rh_prefix_proof_commitment := []\<rparr>))
                        (ri_replace next_roots)
                 else Ok next_roots)
      else Ok next_roots)"

definition apply_revision ::
  "nat \<Rightarrow> position_state \<Rightarrow> position_integrity \<Rightarrow> root_head_index \<Rightarrow> seen_fact_index \<Rightarrow>
   canonical_fact \<Rightarrow> source_event_id \<Rightarrow> quantity \<Rightarrow> reported_price option \<Rightarrow>
   execution_transition res" where
  "apply_revision obj position integrity root_heads seen_facts f predecessor revised_quantity
     revised_price =
     (case po_binding position of
        None \<Rightarrow> Raise RuntimeError
      | Some prior_binding \<Rightarrow>
          (case ri_get root_heads (fact_root_key f) of
             None \<Rightarrow> reconciliation_transition obj position integrity root_heads seen_facts f
           | Some h \<Rightarrow>
               if position_scope_of (fact_scope f) \<noteq> po_scope position \<or>
                  rh_authority h \<noteq> BROKER_AUTHORITATIVE \<or> rh_scope h \<noteq> fact_scope f \<or>
                  rh_current_source_event_id h \<noteq> predecessor \<or>
                  \<not> current_predecessor_is_proven seen_facts h f predecessor
               then reconciliation_transition obj position integrity root_heads seen_facts f
               else
                 let change = quantity_value revised_quantity - quantity_value (rh_quantity h);
                     signed = (if es_side (rh_scope h) = SELL then - change else change);
                     next_raw_quantity = po_raw_quantity position + signed
                 in bind_res (revision_basis position h revised_quantity revised_price
                                next_raw_quantity) (\<lambda>folded.
                    bind_res (mk_root_head (h\<lparr>rh_current_source_event_id :=
                                                fk_source_event_id (fact_key f),
                                              rh_kind := fact_kind_of f,
                                              rh_quantity := revised_quantity,
                                              rh_price := revised_price\<rparr>)) (\<lambda>next_head.
                    bind_res (ri_replace root_heads next_head) (\<lambda>replaced.
                    bind_res (if folded = None then withdraw_tail_proof position replaced
                              else Ok replaced) (\<lambda>next_roots.
                      finish_applied obj position integrity seen_facts f prior_binding next_roots
                        signed next_raw_quantity folded))))))"

text \<open>
  The dispatch of the source over the type of the fact: \<^verbatim>\<open>_revision_economics\<close> is the
  pair passed for a correction and for a bust.
\<close>

definition apply_first_observation ::
  "nat \<Rightarrow> position_state \<Rightarrow> position_integrity \<Rightarrow> root_head_index \<Rightarrow> seen_fact_index \<Rightarrow>
   canonical_fact \<Rightarrow> execution_transition res" where
  "apply_first_observation obj position integrity root_heads seen_facts f =
     (case f of
        BrokerFill b \<Rightarrow>
          apply_root_fill obj position integrity root_heads seen_facts f (bf_quantity b) (bf_price b)
      | HumanAttestedFill b \<Rightarrow>
          apply_root_fill obj position integrity root_heads seen_facts f (hf_quantity b) (hf_price b)
      | BrokerTradeCorrect c \<Rightarrow>
          apply_revision obj position integrity root_heads seen_facts f
            (cf_predecessor_source_event_id c) (cf_revised_quantity c) (Some (cf_revised_price c))
      | BrokerTradeBust x \<Rightarrow>
          apply_revision obj position integrity root_heads seen_facts f
            (xf_predecessor_source_event_id x) (Quantity 0) (xf_reported_price x))"

definition apply_canonical_execution_fact ::
  "nat \<Rightarrow> position_state \<Rightarrow> position_integrity \<Rightarrow> root_head_index \<Rightarrow> seen_fact_index \<Rightarrow>
   canonical_fact \<Rightarrow> (transition_disposition \<times> first_observation_classification) option \<Rightarrow>
   execution_transition res" where
  "apply_canonical_execution_fact obj position integrity root_heads seen_facts f m2_classification =
     (if \<not> snapshot_is_coherent position integrity root_heads seen_facts
      then incoherent_snapshot_transition position integrity root_heads seen_facts f
      else case m2_classification of
        Some (disposition, original_classification) \<Rightarrow>
          (case si_get seen_facts (fact_key f) of
             Some first_observation \<Rightarrow>
               let next_integrity =
                     (if sf_position_scope first_observation \<noteq> po_scope position
                      then sup integrity EXECUTION_RECONCILIATION_REQUIRED else integrity);
                   next_integrity =
                     (if disposition = FACT_CONFLICT
                      then sup next_integrity EXECUTION_FACT_CONFLICT else next_integrity)
               in require (disposition \<noteq> APPLIED) RuntimeError
                    (unchanged_transition obj position next_integrity root_heads seen_facts
                       disposition original_classification)
           | None \<Rightarrow>
               if disposition = RECONCILIATION_REQUIRED
               then reconciliation_transition obj position integrity root_heads seen_facts f
               else require (disposition = APPLIED) RuntimeError
                 (bind_res (apply_first_observation obj position integrity root_heads seen_facts f)
                    (\<lambda>transition.
                    require (\<not> (tr_disposition transition \<noteq> disposition \<or>
                                tr_original_classification transition \<noteq> original_classification))
                      RuntimeError (Ok transition))))
      | None \<Rightarrow>
          (case si_get seen_facts (fact_key f) of
             Some first_observation \<Rightarrow>
               if sf_position_scope first_observation \<noteq> po_scope position
               then let next_integrity = sup integrity EXECUTION_RECONCILIATION_REQUIRED
                    in if sf_fact first_observation \<noteq> f
                       then unchanged_transition obj position
                              (sup next_integrity EXECUTION_FACT_CONFLICT) root_heads seen_facts
                              FACT_CONFLICT (sf_classification first_observation)
                       else unchanged_transition obj position next_integrity root_heads seen_facts
                              RECONCILIATION_REQUIRED (sf_classification first_observation)
               else if sf_fact first_observation = f
               then unchanged_transition obj position integrity root_heads seen_facts EXACT_REPLAY
                      (sf_classification first_observation)
               else unchanged_transition obj position (sup integrity EXECUTION_FACT_CONFLICT)
                      root_heads seen_facts FACT_CONFLICT (sf_classification first_observation)
           | None \<Rightarrow> apply_first_observation obj position integrity root_heads seen_facts f))"

definition apply_human_attested_fill_fact ::
  "nat \<Rightarrow> position_state \<Rightarrow> position_integrity \<Rightarrow> root_head_index \<Rightarrow> seen_fact_index \<Rightarrow>
   human_attested_fill_fact \<Rightarrow> execution_transition res" where
  "apply_human_attested_fill_fact obj position integrity root_heads seen_facts f =
     apply_canonical_execution_fact obj position integrity root_heads seen_facts
       (HumanAttestedFill f) None"

definition record_execution_reconciliation ::
  "nat \<Rightarrow> position_state \<Rightarrow> position_integrity \<Rightarrow> root_head_index \<Rightarrow> seen_fact_index \<Rightarrow>
   broker_fill_fact \<Rightarrow> execution_transition res" where
  "record_execution_reconciliation obj position integrity root_heads seen_facts b =
     (let f = BrokerFill b
      in if \<not> snapshot_is_coherent position integrity root_heads seen_facts
         then incoherent_snapshot_transition position integrity root_heads seen_facts f
         else case si_get seen_facts (fact_key f) of
           None \<Rightarrow> reconciliation_transition obj position integrity root_heads seen_facts f
         | Some first_observation \<Rightarrow>
             if sf_fact first_observation \<noteq> f
             then unchanged_transition obj position
                    (sup (sup integrity EXECUTION_FACT_CONFLICT) EXECUTION_RECONCILIATION_REQUIRED)
                    root_heads seen_facts FACT_CONFLICT (sf_classification first_observation)
             else unchanged_transition obj position
                    (sup integrity EXECUTION_RECONCILIATION_REQUIRED)
                    root_heads seen_facts RECONCILIATION_REQUIRED
                    (sf_classification first_observation))"

definition record_broker_corroboration ::
  "nat \<Rightarrow> position_state \<Rightarrow> position_integrity \<Rightarrow> root_head_index \<Rightarrow> seen_fact_index \<Rightarrow>
   broker_fill_fact \<Rightarrow> execution_transition res" where
  "record_broker_corroboration obj position integrity root_heads seen_facts b =
     (let f = BrokerFill b
      in if \<not> snapshot_is_coherent position integrity root_heads seen_facts
         then incoherent_snapshot_transition position integrity root_heads seen_facts f
         else case si_get seen_facts (fact_key f) of
           Some first_observation \<Rightarrow>
             if sf_fact first_observation = f
             then unchanged_transition obj position integrity root_heads seen_facts EXACT_REPLAY
                    (sf_classification first_observation)
             else unchanged_transition obj position (sup integrity EXECUTION_FACT_CONFLICT)
                    root_heads seen_facts FACT_CONFLICT (sf_classification first_observation)
         | None \<Rightarrow>
             if contains_root seen_facts (fact_root_key f)
             then record_execution_reconciliation obj position integrity root_heads seen_facts b
             else bind_res (mk_seen_fact f CORROBORATED_ZERO_ECONOMIC (Some (po_scope position)))
                    (\<lambda>obs.
                  bind_res (si_add seen_facts obs) (\<lambda>next_seen.
                  bind_res (bind_components obj position integrity root_heads next_seen
                              None None None) (\<lambda>snapshot.
                    Ok (transition_of snapshot 0 (Some 0) APPLIED CORROBORATED_ZERO_ECONOMIC)))))"

end
