(* ===== verification/Kernel_Invariant.thy ===== *)
theory Kernel_Invariant
  imports Transition
begin

text \<open>
  The invariant of a bound snapshot over the list of its effective heads and the list of its first
  observations, and the building blocks that keep it: rebinding with more integrity, recording an
  observation, and finishing an application.
\<close>

subsection \<open>Parts of the invariant\<close>

text \<open>The tail proof: the reference fold over all roots but the last, bound to the last root.\<close>

definition tail_input_ok :: "position_scope \<Rightarrow> root_head list \<Rightarrow> fold_input \<Rightarrow> bool" where
  "tail_input_ok scope hs fi \<longleftrightarrow>
     hs \<noteq> [] \<and> fi_is_bound fi \<and>
     heads_fold (butlast hs) =
       Some (fi_raw_quantity fi, basis_value (fi_cost_basis fi), fi_price_metadata fi) \<and>
     fi_position_scope fi = Some scope \<and>
     fi_tail_root_key fi = Some (rh_root_key (last hs)) \<and>
     fi_prefix_count fi = int (length hs - 1) \<and>
     fi_prefix_heads_commitment fi = rh_prefix_heads_commitment (last hs) \<and>
     fi_commitment fi = rh_prefix_proof_commitment (last hs)"

text \<open>
  An available basis is the one the ordered slow fold gives, and a position with roots carries the
  proof of its tail.
\<close>

definition basis_state_ok :: "position_state \<Rightarrow> root_head list \<Rightarrow> bool" where
  "basis_state_ok p hs \<longleftrightarrow>
     (po_basis_authority p = AVAILABLE \<longrightarrow>
        heads_fold hs = Some (po_raw_quantity p, basis_value (the (po_cost_basis p)),
                              po_basis_price_metadata p) \<and>
        (case po_tail_fold_input p of
           None \<Rightarrow> hs = []
         | Some fi \<Rightarrow> tail_input_ok (po_scope p) hs fi))"

lemma basis_state_ok_update [simp]:
  "basis_state_ok (p\<lparr>po_integrity_floor := i\<rparr>) hs = basis_state_ok p hs"
  "basis_state_ok (p\<lparr>po_binding := b\<rparr>) hs = basis_state_ok p hs"
  by (simp_all add: basis_state_ok_def split: option.splits)

text \<open>Every head has the observation it was last set by.\<close>

definition heads_observed :: "root_head list \<Rightarrow> seen_fact list \<Rightarrow> bool" where
  "heads_observed hs os \<longleftrightarrow>
     (\<forall>h \<in> set hs. \<exists>obs \<in> set os.
        observation_matches_head obs h \<and> sf_classification obs \<noteq> CLASS_RECONCILIATION_REQUIRED)"

lemma observation_matches_headD:
  assumes "observation_matches_head obs h"
  shows "obs_root obs = rh_root_key h" "fact_scope (sf_fact obs) = rh_scope h"
    "fk_source_event_id (fact_key (sf_fact obs)) = rh_current_source_event_id h"
  using assms by (auto simp: observation_matches_head_def Let_def obs_root_def split: if_splits)

definition overfill_seen :: "position_scope \<Rightarrow> seen_fact list \<Rightarrow> bool" where
  "overfill_seen scope os \<longleftrightarrow>
     (\<exists>obs \<in> set os. is_overfill_class (sf_classification obs) \<and> sf_position_scope obs = scope)"

definition overfill_latched :: "position_state \<Rightarrow> position_integrity \<Rightarrow> seen_fact list \<Rightarrow> bool" where
  "overfill_latched p i os \<longleftrightarrow>
     (po_raw_quantity p < 0 \<or> overfill_seen (po_scope p) os \<longrightarrow> has_overfill i)"

definition kernel_ok :: "execution_snapshot \<Rightarrow> root_head list \<Rightarrow> seen_fact list \<Rightarrow> bool" where
  "kernel_ok s hs os \<longleftrightarrow>
     snapshot_ok s \<and> ri_ok (sn_root_heads s) hs \<and> si_ok (sn_seen_facts s) os \<and>
     scope_fits (po_scope (sn_position s)) \<and> basis_state_ok (sn_position s) hs \<and>
     heads_observed hs os \<and> overfill_latched (sn_position s) (sn_integrity s) os"

lemma kernel_okD:
  assumes "kernel_ok s hs os"
  shows "snapshot_ok s" "ri_ok (sn_root_heads s) hs" "si_ok (sn_seen_facts s) os"
    "scope_fits (po_scope (sn_position s))" "basis_state_ok (sn_position s) hs"
    "heads_observed hs os" "overfill_latched (sn_position s) (sn_integrity s) os"
  using assms by (simp_all add: kernel_ok_def)

lemma kernel_ok_parts:
  assumes "kernel_ok s hs os"
  shows "belongs_to (sn_seen_facts s) (po_scope (sn_position s))"
    "si_account_scope (sn_seen_facts s) = Some (account_scope_from_position (po_scope (sn_position s)))"
    "ri_position_scope (sn_root_heads s) = Some (po_scope (sn_position s))"
    "po_raw_quantity (sn_position s) = sum_list (map signed_quantity_of hs)"
    "po_root_count (sn_position s) = length hs"
    "po_root_fill_sequence (sn_position s) = ri_root_sequence (sn_root_heads s)"
    "po_effective_head_ids (sn_position s) = ri_head_sequence (sn_root_heads s)"
  using snapshot_okD(4) [OF kernel_okD(1) [OF assms]] ri_okD(10) [OF kernel_okD(2) [OF assms]]
    ri_count_ok [OF kernel_okD(2) [OF assms]]
  by (auto simp: bindable_def belongs_to_def po_root_count_def ri_count_def)

lemma flat_kernel_ok:
  assumes "scope_fits scope" "sn_flat obj scope = Ok s"
  shows "kernel_ok s [] []"
proof -
  have s: "s = sealed_snapshot obj (po_flat scope) CONSISTENT (ri_empty (Some scope))
     (si_empty (Some scope)) False (0, RECONCILIATION_GENESIS_HEAD)"
    using assms(2) by (simp add: sn_flat_ok)
  have "snapshot_ok s"
    using assms(2) unfolding sn_flat_def by (rule bind_components_snapshot_ok)
  with assms(1) show ?thesis
    by (simp add: kernel_ok_def s ri_empty_ok si_empty_ok basis_state_ok_def po_flat_def
        heads_observed_def overfill_latched_def overfill_seen_def)
qed

subsection \<open>Rebinding\<close>

text \<open>The same books under a new binding, with more integrity.\<close>

definition rebound :: "execution_snapshot \<Rightarrow> execution_snapshot \<Rightarrow> position_integrity \<Rightarrow> bool" where
  "rebound s s' i \<longleftrightarrow>
     snapshot_ok s' \<and> sn_integrity s' = i \<and>
     sn_position s' = (sn_position s)\<lparr>po_integrity_floor := i, po_binding := Some (binding_of s')\<rparr> \<and>
     sn_root_heads s' = ri_with_binding (sn_root_heads s) (binding_of s') \<and>
     sn_seen_facts s' = si_with_binding (sn_seen_facts s) (binding_of s') \<and>
     cursor_of s' = cursor_of s \<and> account_latched s' = account_latched s"

lemma rebound_kernel_ok:
  assumes "kernel_ok s hs os" "rebound s s' i" "sn_integrity s \<le> i"
  shows "kernel_ok s' hs os"
proof -
  have "has_overfill (sn_integrity s) \<Longrightarrow> has_overfill i"
    using assms(3) by (simp add: less_eq_position_integrity_def)
  with assms(1,2) show ?thesis
    by (auto simp: kernel_ok_def rebound_def overfill_latched_def)
qed

lemma coherent_integrity:
  assumes "snapshot_ok s"
  shows "snapshot_is_coherent (sn_position s) i (sn_root_heads s) (sn_seen_facts s) \<longleftrightarrow> i = sn_integrity s"
    and "snapshot_parts_share_binding (sn_position s) i (sn_root_heads s) (sn_seen_facts s) False"
proof -
  let ?parts = "\<lambda>i. snapshot_parts_share_binding (sn_position s) i (sn_root_heads s) (sn_seen_facts s)"
  have c: "?parts (sn_integrity s) True"
    using snapshot_okD(1) [OF assms] by (simp add: snapshot_is_coherent_def)
  then show "?parts i False"
    by (auto simp: snapshot_parts_share_binding_def split: option.splits if_splits)
  have "?parts i True \<longleftrightarrow> integrity_value i = integrity_value (sn_integrity s)"
    using c by (auto simp: snapshot_parts_share_binding_def split: option.splits if_splits)
  then show "snapshot_is_coherent (sn_position s) i (sn_root_heads s) (sn_seen_facts s) \<longleftrightarrow> i = sn_integrity s"
    using integrity_value_inj by (auto simp: snapshot_is_coherent_def)
qed

lemma unchanged_transition_ok:
  assumes s: "snapshot_ok s" and i: "sn_integrity s \<le> i"
  obtains s' where "unchanged_transition obj (sn_position s) i (sn_root_heads s) (sn_seen_facts s) d c =
      Ok (transition_of s' 0 (Some 0) d c)"
    "rebound s s' i" "i = sn_integrity s \<Longrightarrow> s' = s"
proof (cases "i = sn_integrity s")
  case True
  have "ri_with_binding (sn_root_heads s) (binding_of s) = sn_root_heads s"
    "si_with_binding (sn_seen_facts s) (binding_of s) = sn_seen_facts s"
    "(sn_position s)\<lparr>po_integrity_floor := sn_integrity s, po_binding := Some (binding_of s)\<rparr> = sn_position s"
    using snapshot_okD(3,5,6,7) [OF s] by (simp_all add: ri_with_binding_def si_with_binding_def)
  then have "rebound s s i" using s True by (simp add: rebound_def)
  moreover have "unchanged_transition obj (sn_position s) i (sn_root_heads s) (sn_seen_facts s) d c =
      Ok (transition_of s 0 (Some 0) d c)"
    using True snapshot_okD(1) [OF s] by (simp add: unchanged_transition_def transition_of_def)
  ultimately show thesis using that by blast
next
  case False
  have belongs: "belongs_to (sn_seen_facts s) (po_scope (sn_position s))"
    using snapshot_okD(4) [OF s] by (simp add: bindable_def)
  have cur: "bind_cursor [cursor_of s] None None = Ok (cursor_of s)"
    using snapshot_okD(8,9) [OF s] bind_cursor_simps(1) by (metis prod.collapse)
  have seen: "si_binding (sn_seen_facts s) = Some (binding_of s) \<or> si_binding (sn_seen_facts s) = None"
    using snapshot_okD(7) [OF s] by simp
  define s' where "s' = sealed_snapshot obj ((sn_position s)\<lparr>po_integrity_floor := i, po_binding := None\<rparr>) i
          (sn_root_heads s) (sn_seen_facts s) (account_latched s) (cursor_of s)"
  have bind: "bind_components obj (sn_position s) i (sn_root_heads s) (sn_seen_facts s) None None None = Ok s'"
    using rebind_ok [OF s seen belongs i cur, of obj None] by (simp add: s'_def)
  then have ok': "snapshot_ok s'" by (rule bind_components_snapshot_ok)
  then have "rebound s s' i" by (simp add: rebound_def s'_def binding_of_def)
  moreover have "unchanged_transition obj (sn_position s) i (sn_root_heads s) (sn_seen_facts s) d c =
      Ok (transition_of s' 0 (Some 0) d c)"
    using bind False coherent_integrity [OF s, of i]
    by (simp add: unchanged_transition_def transition_of_def s'_def)
  ultimately show thesis using that False by blast
qed

subsection \<open>Recording an observation\<close>

definition fact_admissible :: "canonical_fact \<Rightarrow> bool" where
  "fact_admissible f \<longleftrightarrow> fact_valid f \<and> fact_fits f"

definition has_room :: "seen_fact list \<Rightarrow> bool" where
  "has_room os \<longleftrightarrow> length os < 2 ^ 64"

text \<open>Distinct roots were set by distinct observations.\<close>

lemma heads_le_observations:
  assumes "kernel_ok s hs os"
  shows "length hs \<le> length os"
proof -
  have "rh_root_key ` set hs \<subseteq> obs_root ` set os"
  proof
    fix k assume "k \<in> rh_root_key ` set hs"
    then obtain h where h: "h \<in> set hs" "k = rh_root_key h" by blast
    then obtain obs where "obs \<in> set os" "observation_matches_head obs h"
      using kernel_okD(6) [OF assms] by (auto simp: heads_observed_def)
    then show "k \<in> obs_root ` set os"
      using h(2) observation_matches_headD(1) by (metis imageI)
  qed
  then have "card (rh_root_key ` set hs) \<le> card (obs_root ` set os)"
    by (intro card_mono) auto
  also have "\<dots> \<le> length os"
    by (metis card_image_le card_length finite_set le_trans)
  finally show ?thesis
    using heads_okD(2) [OF ri_okD(1) [OF kernel_okD(2) [OF assms]]]
    by (metis distinct_card length_map list.set_map)
qed

lemma record_observation:
  assumes k: "kernel_ok s hs os" and f: "fact_admissible (sf_fact obs)" and v: "seen_valid obs"
    and scope: "sf_position_scope obs = po_scope (sn_position s)"
    and new: "si_get (sn_seen_facts s) (obs_key obs) = None" and room: "has_room os"
  obtains seen' where "si_add (sn_seen_facts s) obs = Ok seen'" "si_ok seen' (os @ [obs])"
    "belongs_to seen' (po_scope (sn_position s))" "si_binding seen' = None"
proof -
  have "length os < 2 ^ 64" using room by (simp add: has_room_def)
  moreover have "obs_fits obs"
    using f kernel_okD(4) [OF k] scope by (simp add: obs_fits_def fact_admissible_def)
  ultimately obtain seen' where "si_add (sn_seen_facts s) obs = Ok seen'" "si_ok seen' (os @ [obs])"
      "si_account_scope seen' = si_account_scope (sn_seen_facts s)" "si_binding seen' = None"
    using si_add_ok [OF kernel_okD(3) [OF k] new v] f kernel_ok_parts(2) [OF k] scope
    by (metis fact_admissible_def)
  then show thesis using that kernel_ok_parts(2) [OF k] by (simp add: belongs_to_def)
qed

lemma heads_observed_snoc: "heads_observed hs os \<Longrightarrow> heads_observed hs (os @ [obs])"
  by (auto simp: heads_observed_def)

text \<open>An observation without economics, bound with at least the integrity there was.\<close>

lemma record_kernel_ok:
  assumes k: "kernel_ok s hs os" and f: "fact_admissible (sf_fact obs)" and v: "seen_valid obs"
    and scope: "sf_position_scope obs = po_scope (sn_position s)"
    and new: "si_get (sn_seen_facts s) (obs_key obs) = None" and room: "has_room os"
    and cls: "\<not> is_overfill_class (sf_classification obs)" and i: "sn_integrity s \<le> i"
  obtains seen' s' where "si_add (sn_seen_facts s) obs = Ok seen'"
    "bind_components obj (sn_position s) i (sn_root_heads s) seen' None None None = Ok s'"
    "kernel_ok s' hs (os @ [obs])" "sn_integrity s' = i"
    "sn_position s' = (sn_position s)\<lparr>po_integrity_floor := i, po_binding := Some (binding_of s')\<rparr>"
    "cursor_of s' = cursor_of s" "account_latched s' = account_latched s"
proof -
  note ok = kernel_okD [OF k]
  obtain seen' where seen: "si_add (sn_seen_facts s) obs = Ok seen'" "si_ok seen' (os @ [obs])"
    "belongs_to seen' (po_scope (sn_position s))" "si_binding seen' = None"
    using record_observation [OF k f v scope new room] by blast
  define s' where "s' = sealed_snapshot obj ((sn_position s)\<lparr>po_integrity_floor := i, po_binding := None\<rparr>) i
          (sn_root_heads s) seen' (account_latched s) (cursor_of s)"
  have cur: "bind_cursor [cursor_of s] None None = Ok (cursor_of s)"
    using snapshot_okD(8,9) [OF ok(1)] bind_cursor_simps(1) by (metis prod.collapse)
  have bind: "bind_components obj (sn_position s) i (sn_root_heads s) seen' None None None = Ok s'"
    using rebind_ok [OF ok(1) _ seen(3) i cur, of obj None] seen(4) by (simp add: s'_def)
  then have ok': "snapshot_ok s'" by (rule bind_components_snapshot_ok)
  have "has_overfill (sn_integrity s) \<Longrightarrow> has_overfill i"
    using i by (simp add: less_eq_position_integrity_def)
  then have "kernel_ok s' hs (os @ [obs])"
    using ok ok' seen(2) cls
    by (auto simp: kernel_ok_def s'_def overfill_latched_def overfill_seen_def
        heads_observed_snoc)
  then show thesis
    using that [OF seen(1) bind] by (simp add: s'_def binding_of_def)
qed

end
