(* ===== verification/Apply_Correct.thy ===== *)
theory Apply_Correct
  imports Kernel_Invariant
begin

text \<open>
  Applying economics keeps the invariant: the end of an application, root fills, and corrections and
  busts, each with the heads it leaves.
\<close>

subsection \<open>Finishing an application\<close>

definition folded_ok ::
  "position_scope \<Rightarrow> root_head list \<Rightarrow> (exact_basis \<times> reported_price option \<times> fold_input) option \<Rightarrow> bool" where
  "folded_ok scope hs folded \<longleftrightarrow>
     (\<forall>(b, m, fi) \<in> set_option folded.
        heads_fold hs = Some (sum_list (map signed_quantity_of hs), basis_value b, m) \<and>
        tail_input_ok scope hs fi)"

definition applied_observation :: "canonical_fact \<Rightarrow> position_scope \<Rightarrow> bool \<Rightarrow> int \<Rightarrow> seen_fact" where
  "applied_observation f scope pending raw_quantity =
     \<lparr>sf_fact = f, sf_classification = classification_of pending raw_quantity,
      sf_position_scope = scope\<rparr>"

lemma classification_of_simps [simp]:
  "classification_of pending q \<noteq> CLASS_RECONCILIATION_REQUIRED"
  "classification_of pending q \<noteq> CORROBORATED_ZERO_ECONOMIC"
  "is_overfill_class (classification_of pending q) \<longleftrightarrow> q < 0"
  by (auto simp: classification_of_def is_overfill_class_def)

lemma finish_applied_ok:
  fixes s hs os folded f
  defines "pos \<equiv> sn_position s" and "q \<equiv> sum_list (map signed_quantity_of hs)"
    and "obs \<equiv> applied_observation f (po_scope (sn_position s)) (folded = None) (sum_list (map signed_quantity_of hs))"
  assumes k: "kernel_ok s hs0 os" and f: "fact_admissible f"
    and new: "si_get (sn_seen_facts s) (fact_key f) = None" and room: "has_room os"
    and scope: "position_scope_of (fact_scope f) = po_scope pos"
    and roots: "ri_ok roots hs" "ri_position_scope roots = Some (po_scope pos)" "ri_binding roots = None"
    and folded: "folded_ok (po_scope pos) hs folded"
    and observed: "heads_observed hs (os @ [obs])"
  obtains s' where
    "finish_applied obj pos (sn_integrity s) (sn_seen_facts s) f (binding_of s) roots d q folded =
       Ok (transition_of s' d (basis_delta (po_cost_basis pos) (map_option fst folded)) APPLIED
             (sf_classification obs))"
    "kernel_ok s' hs (os @ [obs])"
    "sn_integrity s' = (if q < 0 then sup (sn_integrity s) OVERFILL_QUARANTINE else sn_integrity s)"
    "po_scope (sn_position s') = po_scope pos"
    "po_basis_authority (sn_position s') = (if folded = None then BASIS_RECONCILIATION_PENDING else AVAILABLE)"
    "po_cost_basis (sn_position s') = map_option fst folded"
    "cursor_of s' = cursor_of s" "account_latched s' = account_latched s"
proof -
  note ok = kernel_okD [OF k]
  define i' where "i' = (if q < 0 then sup (sn_integrity s) OVERFILL_QUARANTINE else sn_integrity s)"
  define p' where "p' = \<lparr>po_scope = po_scope pos, po_raw_quantity = q,
        po_basis_authority = (if folded = None then BASIS_RECONCILIATION_PENDING else AVAILABLE),
        po_cost_basis = map_option fst folded, po_root_fill_sequence = ri_root_sequence roots,
        po_effective_head_ids = ri_head_sequence roots,
        po_basis_price_metadata = Option.bind folded (fst \<circ> snd),
        po_tail_fold_input = map_option (snd \<circ> snd) folded,
        po_integrity_floor = CONSISTENT, po_binding = None\<rparr>"
  have len: "sq_length (ri_root_sequence roots) = sq_length (ri_head_sequence roots)"
    using ri_okD(5,7) [OF roots(1)] by (metis length_map length_seq_list)
  have valid: "position_valid p'"
    using folded len heads_fold_basis_ok [of hs q] heads_okD(3) [OF ri_okD(1) [OF roots(1)]]
    by (auto simp: position_valid_def p'_def folded_ok_def basis_ok_def q_def split: option.splits)
  have obs: "sf_fact obs = f" "sf_position_scope obs = po_scope pos" "seen_valid obs" "obs_key obs = fact_key f"
    "mk_seen_fact f (classification_of (folded = None) q) (Some (po_scope pos)) = Ok obs"
    using scope by (simp_all add: obs_def applied_observation_def seen_valid_def obs_key_def
        mk_seen_fact_valid(1) q_def pos_def)
  have s: "fact_admissible (sf_fact obs)" "sf_position_scope obs = po_scope (sn_position s)"
    "si_get (sn_seen_facts s) (obs_key obs) = None"
    using f new obs by (simp_all add: pos_def)
  obtain seen' where seen: "si_add (sn_seen_facts s) obs = Ok seen'" "si_ok seen' (os @ [obs])"
    "belongs_to seen' (po_scope (sn_position s))" "si_binding seen' = None"
    using record_observation [OF k s(1) obs(3) s(2,3) room] by blast
  have bindable: "bindable p' roots seen'"
    using valid roots ri_okD(10) [OF roots(1)] seen(3)
    by (simp add: bindable_def p'_def q_def pos_def)
  define s' where "s' = sealed_snapshot obj (p'\<lparr>po_integrity_floor := i', po_binding := None\<rparr>) i' roots seen'
    (account_latched s) (cursor_of s)"
  have cur: "bind_cursor [] (Some (sb_reconciliation_transition_count (binding_of s)))
      (Some (sb_reconciliation_transition_head (binding_of s))) = Ok (cursor_of s)"
    using snapshot_okD(8,9) [OF ok(1)] by (simp add: cursor_of_def bind_cursor_simps)
  have unb: "po_binding p' = None" by (simp add: p'_def)
  have "po_integrity_floor p' \<le> i'"
    by (simp add: p'_def CONSISTENT_def less_eq_position_integrity_def)
  then have bind: "bind_components obj p' i' roots seen' (Some (sb_account_reconciliation_required (binding_of s)))
      (Some (sb_reconciliation_transition_count (binding_of s)))
      (Some (sb_reconciliation_transition_head (binding_of s))) = Ok s'"
    using bind_components_ok [OF bindable, of i'] cur
    by (simp add: inherited_unbound [OF unb roots(3) seen(4)] s'_def account_latched_def)
  then have ok': "snapshot_ok s'" by (rule bind_components_snapshot_ok)
  have "basis_state_ok p' hs"
    using folded by (auto simp: basis_state_ok_def p'_def folded_ok_def q_def split: option.splits)
  moreover have "overfill_latched p' i' (os @ [obs])"
    using ok(7) by (auto simp: overfill_latched_def p'_def overfill_seen_def obs_def pos_def q_def
        applied_observation_def sup_position_integrity_def OVERFILL_QUARANTINE_def i'_def)
  moreover have sel: "po_scope p' = po_scope (sn_position s)" by (simp add: p'_def pos_def)
  ultimately have "kernel_ok s' hs (os @ [obs])"
    using ok' ok(4) roots(1) seen(2) observed
    by (simp add: kernel_ok_def s'_def overfill_latched_def)
  moreover have "finish_applied obj pos (sn_integrity s) (sn_seen_facts s) f (binding_of s) roots d q folded =
       Ok (transition_of s' d (basis_delta (po_cost_basis pos) (map_option fst folded)) APPLIED
             (sf_classification obs))"
    using valid obs(5) seen(1) bind
    unfolding finish_applied_def p'_def [symmetric] i'_def [symmetric] Let_def
    by (simp add: mk_position_state_valid) (simp add: obs_def applied_observation_def q_def)
  moreover have "po_scope (sn_position s') = po_scope pos" "sn_integrity s' = i'"
    "po_basis_authority (sn_position s') = (if folded = None then BASIS_RECONCILIATION_PENDING else AVAILABLE)"
    "po_cost_basis (sn_position s') = map_option fst folded"
    by (simp_all add: s'_def p'_def)
  ultimately show thesis
    using that i'_def by (simp add: s'_def)
qed


subsection \<open>Root fills\<close>

definition root_tail_input :: "position_state \<Rightarrow> canonical_fact \<Rightarrow> fold_input" where
  "root_tail_input p f =
     \<lparr>fi_raw_quantity = po_raw_quantity p, fi_cost_basis = the (po_cost_basis p),
      fi_price_metadata = po_basis_price_metadata p, fi_position_scope = Some (po_scope p),
      fi_tail_root_key = Some (fact_root_key f), fi_prefix_count = int (po_root_count p),
      fi_prefix_heads_commitment = prefix_heads_commitment_of p\<rparr>"

text \<open>The head a root fill appends, with its proof when the basis stays available.\<close>

definition root_fill_head ::
  "position_state \<Rightarrow> canonical_fact \<Rightarrow> quantity \<Rightarrow> reported_price \<Rightarrow> bool \<Rightarrow> root_head" where
  "root_fill_head p f quantity price available =
     \<lparr>rh_root_key = fact_root_key f, rh_original_sequence = po_root_count p,
      rh_scope = fact_scope f, rh_authority = fact_authority f,
      rh_current_source_event_id = fk_source_event_id (fact_key f), rh_kind = fact_kind_of f,
      rh_quantity = quantity, rh_price = Some price,
      rh_prefix_heads_commitment = (if available then prefix_heads_commitment_of p else []),
      rh_prefix_proof_commitment = (if available then fi_commitment (root_tail_input p f) else [])\<rparr>"

text \<open>A root fill of the fact with this quantity and price.\<close>

fun root_fill_of :: "canonical_fact \<Rightarrow> (quantity \<times> reported_price) option" where
  "root_fill_of (BrokerFill b) = Some (bf_quantity b, bf_price b)"
| "root_fill_of (HumanAttestedFill b) = Some (hf_quantity b, hf_price b)"
| "root_fill_of _ = None"

lemma root_fill_of_valid:
  assumes "root_fill_of f = Some (quantity, price)" "fact_valid f"
  shows "quantity_value quantity > 0" "exact_value price > 0" "fact_kind_of f = FILL"
  using assms by (cases f; simp)+

lemma length_prefix_heads_commitment [simp]: "length (prefix_heads_commitment_of p) = 32"
  by (simp add: prefix_heads_commitment_of_def)

lemma prefix_heads_commitment_nonempty [simp]: "prefix_heads_commitment_of p \<noteq> []"
  using length_prefix_heads_commitment [of p] by fastforce

lemma heads_step_economic:
  "rh_scope h = rh_scope h' \<Longrightarrow> rh_quantity h = rh_quantity h' \<Longrightarrow> rh_price h = rh_price h' \<Longrightarrow>
   heads_step h = heads_step h'"
  unfolding heads_step_def by presburger

lemma root_fill_basis_ok:
  assumes k: "kernel_ok s hs os" and f: "root_fill_of f = Some (quantity, price)" "fact_valid f"
    and h: "rh_scope h = fact_scope f" "rh_quantity h = quantity" "rh_price h = Some price"
  shows "root_fill_basis (sn_position s) f quantity price
      (po_raw_quantity (sn_position s) + signed_change (es_side (fact_scope f)) (quantity_value quantity)) =
    Ok (if po_basis_authority (sn_position s) = AVAILABLE
        then map_option (\<lambda>(r, c, m). (ExactBasis c, m, root_tail_input (sn_position s) f)) (heads_fold (hs @ [h]))
        else None)"
proof (cases "po_basis_authority (sn_position s) = AVAILABLE")
  case False
  then show ?thesis
    using snapshot_okD(2) [OF kernel_okD(1) [OF k]] by (simp add: root_fill_basis_def position_valid_def)
next
  case True
  let ?p = "sn_position s" and ?side = "es_side (fact_scope f)" and ?q = "quantity_value quantity"
  let ?next = "po_raw_quantity ?p + signed_change ?side ?q"
  have econ: "economics_ok ?q (Some price)" using root_fill_of_valid [OF f] by (simp add: economics_ok_def)
  obtain cb where cb: "po_cost_basis ?p = Some cb" "po_raw_quantity ?p \<le> 0 \<Longrightarrow> basis_value cb = 0"
    using snapshot_okD(2) [OF kernel_okD(1) [OF k]] True by (auto simp: position_valid_def)
  have fold: "heads_fold hs = Some (po_raw_quantity ?p, basis_value cb, po_basis_price_metadata ?p)"
    using kernel_okD(5) [OF k] True cb(1) by (simp add: basis_state_ok_def)
  obtain c' where c': "fold_one (po_raw_quantity ?p) (basis_value cb) ?side ?q (Some price) = Ok (?next, c')"
    using fold_one_total [OF econ] by blast
  have "basis_ok (po_raw_quantity ?p) (basis_value cb)"
    using heads_fold_basis_ok [OF fold] heads_okD(3) [OF ri_okD(1) [OF kernel_okD(2) [OF k]]] by blast
  then have "0 \<le> c'" using fold_one_basis_ok [OF c' _ econ] by (simp add: basis_ok_def)
  moreover have "heads_fold (hs @ [h]) = (if metadata_accepts (po_basis_price_metadata ?p) (Some price)
      then Some (?next, c', next_metadata (po_basis_price_metadata ?p) (Some price) ?q) else None)"
    using fold c' h by (simp add: heads_fold_snoc heads_step_def)
  moreover have "mk_fold_input (root_tail_input ?p f) = Ok (root_tail_input ?p f)"
    using cb by (simp add: mk_fold_input_def root_tail_input_def)
  ultimately show ?thesis
    using True cb(1) c' by (simp add: root_fill_basis_def mk_exact_basis_def flip: root_tail_input_def)
      (simp add: root_tail_input_def)
qed

text \<open>What the head carries of its fact.\<close>

lemma root_fill_head_matches:
  assumes "root_fill_of f = Some (quantity, price)" "fact_valid f"
  shows "sf_fact obs = f \<Longrightarrow> observation_matches_head obs (root_fill_head p f quantity price available)"
    and "head_valid (root_fill_head p f quantity price available)"
  using assms root_fill_of_valid [OF assms(1,2)] fact_valid_same_venue [OF assms(2)]
  by (cases f; auto simp: observation_matches_head_def root_fill_head_def head_valid_def same_venue_def)+

lemma root_fill_tail_ok:
  assumes k: "kernel_ok s hs os" and avail: "po_basis_authority (sn_position s) = AVAILABLE"
    and h: "h = root_fill_head (sn_position s) f quantity price True"
  shows "tail_input_ok (po_scope (sn_position s)) (hs @ [h]) (root_tail_input (sn_position s) f)"
  using kernel_okD(5) [OF k] avail kernel_ok_parts(5) [OF k]
  by (simp add: tail_input_ok_def h root_tail_input_def root_fill_head_def fi_is_bound_def basis_state_ok_def)

lemma apply_root_fill_ok:
  fixes s hs os f quantity price
  defines "p \<equiv> sn_position s"
  defines "available \<equiv> po_basis_authority p = AVAILABLE \<and>
    heads_fold (hs @ [root_fill_head p f quantity price True]) \<noteq> None"
  defines "h \<equiv> root_fill_head p f quantity price available"
  defines "obs \<equiv> applied_observation f (po_scope p) (\<not> available) (po_raw_quantity p + signed_quantity_of h)"
  assumes k: "kernel_ok s hs os" and f: "fact_admissible f" "root_fill_of f = Some (quantity, price)"
    and new: "si_get (sn_seen_facts s) (fact_key f) = None" and room: "has_room os"
    and scope: "position_scope_of (fact_scope f) = po_scope p"
    and root: "fact_root_key f \<notin> obs_root ` set os"
  obtains s' where
    "apply_root_fill obj p (sn_integrity s) (sn_root_heads s) (sn_seen_facts s) f quantity price =
       Ok (transition_of s' (signed_quantity_of h)
             (basis_delta (po_cost_basis p) (po_cost_basis (sn_position s'))) APPLIED (sf_classification obs))"
    "kernel_ok s' (hs @ [h]) (os @ [obs])"
    "sn_integrity s' = (if po_raw_quantity p + signed_quantity_of h < 0
       then sup (sn_integrity s) OVERFILL_QUARANTINE else sn_integrity s)"
    "po_scope (sn_position s') = po_scope p"
    "po_basis_authority (sn_position s') = (if available then AVAILABLE else BASIS_RECONCILIATION_PENDING)"
    "cursor_of s' = cursor_of s" "account_latched s' = account_latched s"
proof -
  note ok = kernel_okD [OF k]
  have valid: "fact_valid f" and fits: "root_key_fits (fact_root_key f)"
    using f(1) fact_fits_root_key by (simp_all add: fact_admissible_def)
  have sel: "rh_scope h = fact_scope f" "rh_quantity h = quantity" "rh_price h = Some price"
    "rh_root_key h = fact_root_key f" "rh_original_sequence h = length hs"
    using kernel_ok_parts(5) [OF k] by (simp_all add: h_def root_fill_head_def p_def)
  have signed: "signed_quantity_of h = signed_change (es_side (fact_scope f)) (quantity_value quantity)"
    by (simp add: signed_quantity_change sel)
  have claimed: "\<not> contains_root (sn_seen_facts s) (fact_root_key f)"
    using contains_root_ok [OF ok(3) fits] root by simp
  have absent: "ri_get (sn_root_heads s) (fact_root_key f) = None"
  proof (rule ccontr)
    assume "\<not> ?thesis"
    then obtain g where g: "g \<in> set hs" "rh_root_key g = fact_root_key f"
      using find_None_iff [of "\<lambda>g. rh_root_key g = fact_root_key f" hs]
      by (auto simp: ri_get_ok [OF ok(2) fits])
    then obtain o' where "o' \<in> set os" "obs_root o' = fact_root_key f"
      using ok(6) observation_matches_headD(1) unfolding heads_observed_def by metis
    then show False using root by (metis imageI)
  qed
  define folded where "folded = (if po_basis_authority p = AVAILABLE
      then map_option (\<lambda>(r, c, m). (ExactBasis c, m, root_tail_input p f)) (heads_fold (hs @ [h])) else None)"
  have step: "heads_fold (hs @ [h]) = heads_fold (hs @ [root_fill_head p f quantity price True])"
    unfolding heads_fold_snoc h_def
    by (rule arg_cong [where f = "Option.bind (heads_fold hs)"])
      (rule heads_step_economic, simp_all add: root_fill_head_def)
  have avail: "folded = None \<longleftrightarrow> \<not> available"
    by (cases "heads_fold (hs @ [h])") (auto simp: folded_def available_def simp flip: step)
  have basis: "root_fill_basis p f quantity price (po_raw_quantity p + signed_quantity_of h) = Ok folded"
    using root_fill_basis_ok [OF k f(2) valid sel(1,2,3)] by (simp add: signed folded_def p_def)
  have q: "sum_list (map signed_quantity_of (hs @ [h])) = po_raw_quantity p + signed_quantity_of h"
    using kernel_ok_parts(4) [OF k] by (simp add: p_def)
  have fok: "folded_ok (po_scope p) (hs @ [h]) folded"
  proof (cases available)
    case True
    then have "h = root_fill_head p f quantity price True" by (simp add: h_def)
    then have "tail_input_ok (po_scope p) (hs @ [h]) (root_tail_input p f)"
      using root_fill_tail_ok [OF k] True by (simp add: available_def p_def)
    then show ?thesis
      using heads_fold_quantity [of "hs @ [h]"] by (auto simp: folded_ok_def folded_def)
  qed (use avail in \<open>simp add: folded_ok_def\<close>)
  have hv: "head_valid h" using root_fill_head_matches(2) [OF f(2) valid] by (simp add: h_def)
  have room': "length hs < 2 ^ 64"
    using heads_le_observations [OF k] room by (simp add: has_room_def)
  obtain roots where roots: "ri_append (sn_root_heads s) h = Ok roots" "ri_ok roots (hs @ [h])"
      "ri_position_scope roots = Some (po_scope p)" "ri_binding roots = None"
    using ri_append_ok [OF ok(2) hv _ _ sel(5) room'] absent fits sel(1,4) kernel_ok_parts(3) [OF k] scope
    by (metis p_def)
  have obs': "obs = applied_observation f (po_scope (sn_position s)) (folded = None)
      (sum_list (map signed_quantity_of (hs @ [h])))"
    by (simp only: obs_def avail q p_def)
  have obs'': "applied_observation f (po_scope p) (folded = None) (po_raw_quantity p + signed_quantity_of h) = obs"
    by (simp only: obs_def avail)
  have observed: "heads_observed (hs @ [h]) (os @ [obs])"
    using heads_observed_snoc [OF ok(6)] root_fill_head_matches(1) [OF f(2) valid, of obs p available]
    by (auto simp: heads_observed_def h_def obs_def applied_observation_def)
  obtain s' where s': "finish_applied obj p (sn_integrity s) (sn_seen_facts s) f (binding_of s) roots
        (signed_quantity_of h) (po_raw_quantity p + signed_quantity_of h) folded =
       Ok (transition_of s' (signed_quantity_of h) (basis_delta (po_cost_basis p) (map_option fst folded)) APPLIED
             (sf_classification obs))"
    "kernel_ok s' (hs @ [h]) (os @ [obs])"
    "sn_integrity s' = (if po_raw_quantity p + signed_quantity_of h < 0
       then sup (sn_integrity s) OVERFILL_QUARANTINE else sn_integrity s)"
    "po_scope (sn_position s') = po_scope p"
    "po_basis_authority (sn_position s') = (if folded = None then BASIS_RECONCILIATION_PENDING else AVAILABLE)"
    "po_cost_basis (sn_position s') = map_option fst folded"
    "cursor_of s' = cursor_of s" "account_latched s' = account_latched s"
    using finish_applied_ok [OF k f(1) new room scope [unfolded p_def] roots(2,3,4) [unfolded p_def]
        fok [unfolded p_def] observed [unfolded obs'], of obj "signed_quantity_of h"]
    unfolding q p_def [symmetric] obs'' by blast
  have "\<lparr>rh_root_key = fact_root_key f, rh_original_sequence = po_root_count p,
      rh_scope = fact_scope f, rh_authority = fact_authority f,
      rh_current_source_event_id = fk_source_event_id (fact_key f),
      rh_kind = fact_kind_of f, rh_quantity = quantity, rh_price = Some price,
      rh_prefix_heads_commitment = (if folded = None then [] else prefix_heads_commitment_of p),
      rh_prefix_proof_commitment = (case folded of None \<Rightarrow> [] | Some (_, _, fi) \<Rightarrow> fi_commitment fi)\<rparr> = h"
    using avail by (cases folded) (auto simp: h_def root_fill_head_def folded_def split: if_splits)
  then have "apply_root_fill obj p (sn_integrity s) (sn_root_heads s) (sn_seen_facts s) f quantity price =
       Ok (transition_of s' (signed_quantity_of h)
             (basis_delta (po_cost_basis p) (po_cost_basis (sn_position s'))) APPLIED (sf_classification obs))"
    using snapshot_okD(5) [OF ok(1)] scope absent claimed basis roots(1) hv s'(1,6)
    by (simp add: apply_root_fill_def mk_root_head_valid signed signed_change_def flip: p_def)
  moreover have "po_basis_authority (sn_position s') = (if available then AVAILABLE else BASIS_RECONCILIATION_PENDING)"
    using s'(5) avail by simp
  ultimately show thesis using s'(2,3,4,7,8) that by blast
qed


subsection \<open>Corrections and busts\<close>

fun revision_of ::
  "canonical_fact \<Rightarrow> (source_event_id \<times> quantity \<times> reported_price option) option" where
  "revision_of (BrokerTradeCorrect c) =
     Some (cf_predecessor_source_event_id c, cf_revised_quantity c, Some (cf_revised_price c))"
| "revision_of (BrokerTradeBust x) =
     Some (xf_predecessor_source_event_id x, Quantity 0, xf_reported_price x)"
| "revision_of _ = None"

definition revised_head ::
  "canonical_fact \<Rightarrow> quantity \<Rightarrow> reported_price option \<Rightarrow> root_head \<Rightarrow> root_head" where
  "revised_head f quantity price h =
     h\<lparr>rh_current_source_event_id := fk_source_event_id (fact_key f), rh_kind := fact_kind_of f,
       rh_quantity := quantity, rh_price := price\<rparr>"

definition unproven :: "root_head \<Rightarrow> root_head" where
  "unproven h = h\<lparr>rh_prefix_heads_commitment := [], rh_prefix_proof_commitment := []\<rparr>"

lemma revised_head_sel [simp]:
  "rh_root_key (revised_head f q p h) = rh_root_key h"
  "rh_original_sequence (revised_head f q p h) = rh_original_sequence h"
  "rh_scope (revised_head f q p h) = rh_scope h"
  "rh_authority (revised_head f q p h) = rh_authority h"
  "rh_quantity (revised_head f q p h) = q"
  "rh_price (revised_head f q p h) = p"
  "rh_prefix_heads_commitment (revised_head f q p h) = rh_prefix_heads_commitment h"
  "rh_prefix_proof_commitment (revised_head f q p h) = rh_prefix_proof_commitment h"
  by (simp_all add: revised_head_def)

lemma unproven_sel [simp]:
  "rh_root_key (unproven h) = rh_root_key h" "rh_original_sequence (unproven h) = rh_original_sequence h"
  "rh_scope (unproven h) = rh_scope h" "rh_authority (unproven h) = rh_authority h"
  "rh_quantity (unproven h) = rh_quantity h" "rh_price (unproven h) = rh_price h"
  "rh_kind (unproven h) = rh_kind h"
  "rh_current_source_event_id (unproven h) = rh_current_source_event_id h"
  "signed_quantity_of (unproven h) = signed_quantity_of h"
  "observation_matches_head obs (unproven h) = observation_matches_head obs h"
  "head_valid (unproven h) = head_valid h"
  by (simp_all add: unproven_def signed_quantity_of_def observation_matches_head_def head_valid_def Let_def
      split: canonical_fact.splits)

lemma revision_of_valid:
  assumes "revision_of f = Some (pred, quantity, price)" "fact_valid f"
  shows "economics_ok (quantity_value quantity) price"
    and "rh_scope h = fact_scope f \<Longrightarrow> rh_root_key h = fact_root_key f \<Longrightarrow>
      head_valid (revised_head f quantity price h)"
    and "rh_scope h = fact_scope f \<Longrightarrow> rh_root_key h = fact_root_key f \<Longrightarrow> sf_fact obs = f \<Longrightarrow>
      observation_matches_head obs (revised_head f quantity price h)"
  using assms fact_valid_same_venue [OF assms(2)]
  by (cases f; auto simp: economics_ok_def head_valid_def revised_head_def observation_matches_head_def
      same_venue_def)+

text \<open>The signed change of the position when a head is revised.\<close>

lemma revised_change:
  "signed_quantity_of (revised_head f q p h) - signed_quantity_of h =
   (let change = quantity_value q - quantity_value (rh_quantity h)
    in if es_side (rh_scope h) = SELL then - change else change)"
  by (cases "es_side (rh_scope h)") (simp_all add: signed_quantity_of_def)

lemma tail_proof_ok:
  assumes k: "kernel_ok s hs os" and avail: "po_basis_authority (sn_position s) = AVAILABLE"
    and ne: "hs \<noteq> []"
  obtains fi where "po_tail_fold_input (sn_position s) = Some fi"
    "tail_input_ok (po_scope (sn_position s)) hs fi"
    "tail_proof_is_valid (sn_position s) (last hs) = Ok True"
proof -
  let ?p = "sn_position s" and ?n = "length hs - 1"
  from kernel_okD(5) [OF k] avail ne obtain fi where fi: "po_tail_fold_input ?p = Some fi"
      "tail_input_ok (po_scope ?p) hs fi"
    by (auto simp: basis_state_ok_def split: option.splits)
  note ri = kernel_okD(2) [OF k]
  have n: "?n < length hs" and lst: "last hs = hs ! ?n" using ne by (simp_all add: last_conv_nth)
  have seqs: "seq_get (po_root_fill_sequence ?p) (int (po_root_count ?p) - 1) = Ok (rh_root_key (last hs))"
    "seq_get (po_effective_head_ids ?p) (int (po_root_count ?p) - 1) = Ok (rh_current_source_event_id (last hs))"
    using n seq_get_list [OF ri_okD(4) [OF ri], of "int (length hs) - 1"]
      seq_get_list [OF ri_okD(6) [OF ri], of "int (length hs) - 1"] ri_okD(5,7) [OF ri]
    by (auto simp: kernel_ok_parts(5,6,7) [OF k] lst nat_diff_distrib')
  have "fi_raw_quantity fi = sum_list (map signed_quantity_of (butlast hs))"
    using fi(2) heads_fold_quantity by (auto simp: tail_input_ok_def)
  moreover have "sum_list (map signed_quantity_of hs) =
      sum_list (map signed_quantity_of (butlast hs)) + signed_quantity_of (last hs)"
    using arg_cong [OF append_butlast_last_id [OF ne], of "\<lambda>xs. sum_list (map signed_quantity_of xs)"]
    by simp
  moreover have "rh_original_sequence (last hs) = ?n"
    using heads_okD(1) [OF ri_okD(1) [OF ri] n] by (simp add: lst)
  ultimately have "tail_proof_is_valid ?p (last hs) = Ok True"
    using fi seqs ne kernel_ok_parts(4,5) [OF k]
    by (simp add: tail_proof_is_valid_def tail_input_ok_def)
  with fi show thesis using that by blast
qed

lemma list_update_last: "hs \<noteq> [] \<Longrightarrow> hs[length hs - 1 := h] = butlast hs @ [h]"
  by (induction hs) (auto simp: nth_Cons' split: nat.splits)

lemma revision_basis_ok:
  assumes k: "kernel_ok s hs os" and i: "i < length hs"
    and f: "economics_ok (quantity_value quantity) price"
  shows "revision_basis (sn_position s) (hs ! i) quantity price
      (po_raw_quantity (sn_position s) +
       (signed_quantity_of (revised_head f quantity price (hs ! i)) - signed_quantity_of (hs ! i))) =
    Ok (if po_basis_authority (sn_position s) = AVAILABLE \<and> Suc i = length hs
        then map_option (\<lambda>(r, c, m). (ExactBasis c, m, the (po_tail_fold_input (sn_position s))))
               (heads_fold (hs[i := revised_head f quantity price (hs ! i)]))
        else None)"
proof (cases "po_basis_authority (sn_position s) = AVAILABLE \<and> Suc i = length hs")
  case False
  have "rh_original_sequence (hs ! i) = i" "po_root_count (sn_position s) = length hs"
    using heads_okD(1) [OF ri_okD(1) [OF kernel_okD(2) [OF k]] i] kernel_ok_parts(5) [OF k] by simp_all
  with False show ?thesis by (auto simp: revision_basis_def)
next
  case True
  let ?p = "sn_position s" and ?h = "hs ! i" and ?h' = "revised_head f quantity price (hs ! i)"
  have ne: "hs \<noteq> []" and lst: "?h = last hs" "hs[i := ?h'] = butlast hs @ [?h']"
  proof -
    have i': "i = length hs - 1" using True by linarith
    show "hs \<noteq> []" using i by auto
    then show "?h = last hs" "hs[i := ?h'] = butlast hs @ [?h']"
      unfolding i' by (simp_all add: last_conv_nth list_update_last del: One_nat_def)
  qed
  obtain fi where fi: "po_tail_fold_input ?p = Some fi" "tail_input_ok (po_scope ?p) hs fi"
      "tail_proof_is_valid ?p ?h = Ok True"
    using tail_proof_ok [OF k _ ne] True by (auto simp: lst)
  have fold: "heads_fold (butlast hs) =
      Some (fi_raw_quantity fi, basis_value (fi_cost_basis fi), fi_price_metadata fi)"
    using fi(2) by (simp add: tail_input_ok_def)
  have seq: "rh_original_sequence ?h = i" "po_root_count ?p = length hs"
    using heads_okD(1) [OF ri_okD(1) [OF kernel_okD(2) [OF k]] i] kernel_ok_parts(5) [OF k] by simp_all
  have cb: "po_cost_basis ?p \<noteq> None"
    using snapshot_okD(2) [OF kernel_okD(1) [OF k]] True by (auto simp: position_valid_def)
  let ?side = "es_side (rh_scope ?h)" and ?q = "quantity_value quantity"
  obtain c' where c': "fold_one (fi_raw_quantity fi) (basis_value (fi_cost_basis fi)) ?side ?q price =
      Ok (fi_raw_quantity fi + signed_change ?side ?q, c')"
    using fold_one_total [OF f] by blast
  have "basis_ok (fi_raw_quantity fi) (basis_value (fi_cost_basis fi))"
    using heads_fold_basis_ok [OF fold] heads_okD(3) [OF ri_okD(1) [OF kernel_okD(2) [OF k]]]
    by (meson in_set_butlastD)
  then have nonneg: "0 \<le> c'" using fold_one_basis_ok [OF c' _ f] by (simp add: basis_ok_def)
  have "fi_raw_quantity fi = po_raw_quantity ?p - signed_quantity_of ?h"
    using fi(1,3) by (auto simp: tail_proof_is_valid_def split: if_splits)
  then have raw: "fi_raw_quantity fi + signed_change ?side ?q =
      po_raw_quantity ?p + (signed_quantity_of ?h' - signed_quantity_of ?h)"
    by (simp add: signed_quantity_change)
  have "heads_fold (hs[i := ?h']) = (if metadata_accepts (fi_price_metadata fi) price
      then Some (fi_raw_quantity fi + signed_change ?side ?q, c', next_metadata (fi_price_metadata fi) price ?q)
      else None)"
    using fold c' by (simp add: lst(2) heads_fold_snoc heads_step_def)
  then show ?thesis
    using True seq cb fi c' nonneg raw
    by (simp add: revision_basis_def mk_exact_basis_def)
qed


text \<open>The observation that set a broker head is always found for a revision that names it.\<close>

lemma current_predecessor_proven:
  assumes k: "kernel_ok s hs os" and f: "fact_valid f" and h: "h \<in> set hs" "rh_scope h = fact_scope f"
  shows "current_predecessor_is_proven (sn_seen_facts s) h f (rh_current_source_event_id h)"
proof -
  note so = si_okD(1) [OF kernel_okD(3) [OF k]]
  from kernel_okD(6) [OF k] h(1) obtain obs where obs: "obs \<in> set os" "observation_matches_head obs h"
      "sf_classification obs \<noteq> CLASS_RECONCILIATION_REQUIRED"
    by (auto simp: heads_observed_def)
  have "same_venue (obs_key obs) (fact_scope f)" "same_venue (fact_key f) (fact_scope f)"
    using fact_valid_same_venue [OF obs_okD(3) [OF so obs(1)]] observation_matches_headD(2) [OF obs(2)] h(2)
      fact_valid_same_venue [OF f] by (simp_all add: obs_key_def)
  then have key: "obs_key obs = predecessor_key_of f (rh_current_source_event_id h)"
    using observation_matches_headD(3) [OF obs(2)]
    by (auto simp: predecessor_key_of_def same_venue_def obs_key_def intro!: execution_fact_key.equality)
  obtain j where "j < length os" "os ! j = obs" using obs(1) by (auto simp: in_set_conv_nth)
  then have "si_get (sn_seen_facts s) (obs_key obs) = Some obs"
    using find_key_nth [OF obs_okD(1) [OF so]] si_get_ok [OF kernel_okD(3) [OF k] obs_okD(4) [OF so obs(1)]]
    by auto
  with obs(2,3) show ?thesis by (simp add: current_predecessor_is_proven_def key)
qed

lemma withdraw_tail_proof_ok:
  assumes k: "kernel_ok s hs os" and ne: "hs \<noteq> []" and roots: "ri_ok roots hs1" "ri_binding roots = None"
      "ri_position_scope roots = scope"
    and keys: "map rh_root_key hs1 = map rh_root_key hs"
  obtains roots' where "withdraw_tail_proof (sn_position s) roots = Ok roots'"
    "ri_ok roots' (hs1[length hs - 1 := unproven (hs1 ! (length hs - 1))])"
    "ri_binding roots' = None" "ri_position_scope roots' = scope"
proof -
  let ?n = "length hs - 1" and ?p = "sn_position s"
  note ri = kernel_okD(2) [OF k]
  have len: "length hs1 = length hs" using keys map_eq_imp_length_eq by blast
  have n: "?n < length hs" "?n < length hs1" using ne len by simp_all
  have key: "rh_root_key (hs ! ?n) = rh_root_key (hs1 ! ?n)"
    using arg_cong [OF keys, of "\<lambda>ks. ks ! ?n"] n by simp
  have "seq_get (po_root_fill_sequence ?p) (int (po_root_count ?p) - 1) = Ok (rh_root_key (hs1 ! ?n))"
    using n(1) key seq_get_list [OF ri_okD(4) [OF ri], of "int (length hs) - 1"] ri_okD(5) [OF ri]
    by (auto simp: kernel_ok_parts(5,6) [OF k] nat_diff_distrib')
  moreover have "ri_get roots (rh_root_key (hs1 ! ?n)) = Some (hs1 ! ?n)"
    by (rule ri_get_nth [OF roots(1) n(2)])
  moreover have hv: "head_valid (hs1 ! ?n)" "rh_original_sequence (hs1 ! ?n) = ?n"
    using heads_okD(3) [OF ri_okD(1) [OF roots(1)] nth_mem [OF n(2)]]
      heads_okD(1) [OF ri_okD(1) [OF roots(1)] n(2)] by simp_all
  ultimately have w: "withdraw_tail_proof ?p roots =
      (if rh_prefix_heads_commitment (hs1 ! ?n) \<noteq> [] \<or> rh_prefix_proof_commitment (hs1 ! ?n) \<noteq> []
       then ri_replace roots (unproven (hs1 ! ?n)) else Ok roots)"
    using ne kernel_ok_parts(5) [OF k]
    by (simp add: withdraw_tail_proof_def mk_root_head_valid flip: unproven_def)
  show thesis
  proof (cases "rh_prefix_heads_commitment (hs1 ! ?n) \<noteq> [] \<or> rh_prefix_proof_commitment (hs1 ! ?n) \<noteq> []")
    case True
    obtain roots' where "ri_replace roots (unproven (hs1 ! ?n)) = Ok roots'"
        "ri_ok roots' (hs1[?n := unproven (hs1 ! ?n)])"
        "ri_position_scope roots' = ri_position_scope roots" "ri_binding roots' = None"
      using ri_replace_ok [OF roots(1) n(2), of "unproven (hs1 ! ?n)"] hv by auto
    with True w roots(3) show thesis using that by auto
  next
    case False
    then have "unproven (hs1 ! ?n) = hs1 ! ?n" by (simp add: unproven_def)
    with False w roots show thesis using that by simp
  qed
qed


text \<open>The heads a revision of root \<open>i\<close> leaves: a pending basis loses the proof of its tail.\<close>

definition revised_heads :: "root_head list \<Rightarrow> nat \<Rightarrow> root_head \<Rightarrow> bool \<Rightarrow> root_head list" where
  "revised_heads hs i h' available =
     (if available then hs[i := h']
      else (hs[i := h'])[length hs - 1 := unproven ((hs[i := h']) ! (length hs - 1))])"

lemma map_signed_revised:
  assumes "i < length hs"
  shows "sum_list (map signed_quantity_of (revised_heads hs i h' available)) =
    sum_list (map signed_quantity_of hs) - signed_quantity_of (hs ! i) + signed_quantity_of h'"
proof -
  have "length hs - 1 < length (hs[i := h'])" using assms by simp
  then show ?thesis
    using sum_list_signed_update [of "length hs - 1" "hs[i := h']" "unproven ((hs[i := h']) ! (length hs - 1))"]
      sum_list_signed_update [OF assms, of h']
    by (simp add: revised_heads_def)
qed

lemma revised_heads_observed:
  assumes "heads_observed hs os" "observation_matches_head obs h'"
    "sf_classification obs \<noteq> CLASS_RECONCILIATION_REQUIRED" "i < length hs"
  shows "heads_observed (revised_heads hs i h' available) (os @ [obs])"
proof -
  let ?Q = "\<lambda>h. \<exists>o' \<in> set (os @ [obs]). observation_matches_head o' h \<and>
    sf_classification o' \<noteq> CLASS_RECONCILIATION_REQUIRED"
  have upd: "\<forall>h \<in> set (hs[i := h']). ?Q h"
    using assms set_update_subset_insert [of hs i h'] by (fastforce simp: heads_observed_def)
  moreover have "?Q (unproven ((hs[i := h']) ! (length hs - 1)))"
    using upd nth_mem [of "length hs - 1" "hs[i := h']"] assms(4) by simp
  ultimately have "\<forall>h \<in> set ((hs[i := h'])[length hs - 1 := unproven ((hs[i := h']) ! (length hs - 1))]). ?Q h"
    using set_update_subset_insert by (metis insertE subsetD)
  with upd show ?thesis by (simp add: revised_heads_def heads_observed_def)
qed

lemma apply_revision_ok:
  fixes s hs os f i quantity price
  defines "p \<equiv> sn_position s" and "h' \<equiv> revised_head f quantity price (hs ! i)"
  defines "available \<equiv> po_basis_authority p = AVAILABLE \<and> Suc i = length hs \<and> heads_fold (hs[i := h']) \<noteq> None"
  defines "change \<equiv> signed_quantity_of h' - signed_quantity_of (hs ! i)"
  defines "obs \<equiv> applied_observation f (po_scope p) (\<not> available) (po_raw_quantity p + change)"
  assumes k: "kernel_ok s hs os" and f: "fact_admissible f" "revision_of f = Some (pred, quantity, price)"
    and new: "si_get (sn_seen_facts s) (fact_key f) = None" and room: "has_room os"
    and i: "i < length hs" "rh_root_key (hs ! i) = fact_root_key f" "rh_scope (hs ! i) = fact_scope f"
      "rh_authority (hs ! i) = BROKER_AUTHORITATIVE" "rh_current_source_event_id (hs ! i) = pred"
  obtains s' where
    "apply_revision obj p (sn_integrity s) (sn_root_heads s) (sn_seen_facts s) f pred quantity price =
       Ok (transition_of s' change
             (basis_delta (po_cost_basis p) (po_cost_basis (sn_position s'))) APPLIED (sf_classification obs))"
    "kernel_ok s' (revised_heads hs i h' available) (os @ [obs])"
    "sn_integrity s' = (if po_raw_quantity p + change < 0
       then sup (sn_integrity s) OVERFILL_QUARANTINE else sn_integrity s)"
    "po_scope (sn_position s') = po_scope p"
    "po_basis_authority (sn_position s') = (if available then AVAILABLE else BASIS_RECONCILIATION_PENDING)"
    "cursor_of s' = cursor_of s" "account_latched s' = account_latched s"
proof -
  note ok = kernel_okD [OF k]
  let ?hs = "revised_heads hs i h' available"
  have valid: "fact_valid f" and fits: "root_key_fits (fact_root_key f)"
    using f(1) fact_fits_root_key by (simp_all add: fact_admissible_def)
  note rv = revision_of_valid [OF f(2) valid]
  have get: "ri_get (sn_root_heads s) (fact_root_key f) = Some (hs ! i)"
    using ri_get_nth [OF ok(2) i(1)] i(2) by simp
  have scope: "position_scope_of (fact_scope f) = po_scope p"
    using ri_okD(11) [OF ok(2) nth_mem [OF i(1)]] i(3) kernel_ok_parts(3) [OF k] by (simp add: p_def)
  have proven: "current_predecessor_is_proven (sn_seen_facts s) (hs ! i) f pred"
    using current_predecessor_proven [OF k valid nth_mem [OF i(1)] i(3)] i(5) by simp
  have hv: "head_valid h'" using rv(2) i(2,3) by (simp add: h'_def)
  have seq: "rh_original_sequence (hs ! i) = i" using heads_okD(1) [OF ri_okD(1) [OF ok(2)] i(1)] .
  obtain roots1 where r1: "ri_replace (sn_root_heads s) h' = Ok roots1" "ri_ok roots1 (hs[i := h'])"
      "ri_position_scope roots1 = Some (po_scope p)" "ri_binding roots1 = None"
    using ri_replace_ok [OF ok(2) i(1) hv] seq kernel_ok_parts(3) [OF k]
    by (auto simp: h'_def p_def)
  define folded where "folded = (if po_basis_authority p = AVAILABLE \<and> Suc i = length hs
        then map_option (\<lambda>(r, c, m). (ExactBasis c, m, the (po_tail_fold_input p))) (heads_fold (hs[i := h']))
        else None)"
  have avail: "folded = None \<longleftrightarrow> \<not> available"
    by (cases "heads_fold (hs[i := h'])") (auto simp: folded_def available_def)
  have basis: "revision_basis p (hs ! i) quantity price (po_raw_quantity p + change) = Ok folded"
    using revision_basis_ok [OF k i(1) rv(1), of f] by (simp add: folded_def change_def h'_def p_def)
  have ne: "hs \<noteq> []" using i(1) by auto
  have keys: "map rh_root_key (hs[i := h']) = map rh_root_key hs"
    using i(1) by (simp add: map_update h'_def list_update_same_conv)
  obtain roots where roots: "(if folded = None then withdraw_tail_proof p roots1 else Ok roots1) = Ok roots"
      "ri_ok roots ?hs" "ri_position_scope roots = Some (po_scope p)" "ri_binding roots = None"
  proof (cases available)
    case True
    with that [of roots1] r1 avail show thesis by (simp add: revised_heads_def)
  next
    case False
    obtain roots where "withdraw_tail_proof p roots1 = Ok roots"
        "ri_ok roots ((hs[i := h'])[length hs - 1 := unproven ((hs[i := h']) ! (length hs - 1))])"
        "ri_binding roots = None" "ri_position_scope roots = Some (po_scope p)"
      using withdraw_tail_proof_ok [OF k ne r1(2,4,3) keys] unfolding p_def by blast
    with that [of roots] False avail show thesis by (simp add: revised_heads_def)
  qed
  have q: "sum_list (map signed_quantity_of ?hs) = po_raw_quantity p + change"
    using map_signed_revised [OF i(1)] kernel_ok_parts(4) [OF k] by (simp add: change_def p_def)
  have fok: "folded_ok (po_scope p) ?hs folded"
  proof (cases available)
    case True
    then obtain fi where fi: "po_tail_fold_input p = Some fi" "tail_input_ok (po_scope p) hs fi"
      using tail_proof_ok [OF k _ ne] by (auto simp: available_def p_def)
    have "hs[i := h'] = butlast hs @ [h']"
      using True ne list_update_last [OF ne, of h'] by (metis available_def diff_Suc_1)
    moreover have "hs ! i = last hs"
      using True ne by (metis available_def diff_Suc_1 last_conv_nth)
    ultimately have "tail_input_ok (po_scope p) (hs[i := h']) fi"
      using fi(2) by (simp add: tail_input_ok_def h'_def)
    then show ?thesis
      using True fi(1) heads_fold_quantity [of "hs[i := h']"]
      by (auto simp: folded_ok_def folded_def revised_heads_def)
  qed (use avail in \<open>simp add: folded_ok_def\<close>)
  have obs'': "applied_observation f (po_scope p) (folded = None) (po_raw_quantity p + change) = obs"
    by (simp only: obs_def avail)
  have "observation_matches_head obs h'"
    using rv(3) [of "hs ! i" obs] i(2,3) by (simp add: h'_def obs_def applied_observation_def)
  then have observed: "heads_observed ?hs (os @ [obs])"
    using revised_heads_observed [OF ok(6) _ _ i(1)] by (simp add: obs_def applied_observation_def)
  obtain s' where s': "finish_applied obj p (sn_integrity s) (sn_seen_facts s) f (binding_of s) roots
        change (po_raw_quantity p + change) folded =
       Ok (transition_of s' change (basis_delta (po_cost_basis p) (map_option fst folded)) APPLIED
             (sf_classification obs))"
    "kernel_ok s' ?hs (os @ [obs])"
    "sn_integrity s' = (if po_raw_quantity p + change < 0
       then sup (sn_integrity s) OVERFILL_QUARANTINE else sn_integrity s)"
    "po_scope (sn_position s') = po_scope p"
    "po_basis_authority (sn_position s') = (if folded = None then BASIS_RECONCILIATION_PENDING else AVAILABLE)"
    "po_cost_basis (sn_position s') = map_option fst folded"
    "cursor_of s' = cursor_of s" "account_latched s' = account_latched s"
    using finish_applied_ok [OF k f(1) new room scope [unfolded p_def] roots(2,3,4) [unfolded p_def]
        fok [unfolded p_def] observed [folded obs'', folded q, unfolded p_def], of obj change]
    unfolding q p_def [symmetric] obs'' by blast
  have "apply_revision obj p (sn_integrity s) (sn_root_heads s) (sn_seen_facts s) f pred quantity price =
       Ok (transition_of s' change
             (basis_delta (po_cost_basis p) (po_cost_basis (sn_position s'))) APPLIED (sf_classification obs))"
  proof -
    let ?old = "quantity_value (rh_quantity (hs ! i))" and ?new = "quantity_value quantity"
    have "change = (if es_side (fact_scope f) = SELL then - (?new - ?old) else ?new - ?old)"
      unfolding change_def h'_def revised_change by (simp add: i(3))
    then have ch: "es_side (fact_scope f) = SELL \<Longrightarrow> ?old - ?new = change"
      "es_side (fact_scope f) = SELL \<Longrightarrow> po_raw_quantity p - (?new - ?old) = po_raw_quantity p + change"
      "es_side (fact_scope f) \<noteq> SELL \<Longrightarrow> ?new - ?old = change" by simp_all
    have "(hs ! i)\<lparr>rh_current_source_event_id := fk_source_event_id (fact_key f),
        rh_kind := fact_kind_of f, rh_quantity := quantity, rh_price := price\<rparr> = h'"
      by (simp add: h'_def revised_head_def)
    moreover have "po_binding p = Some (binding_of s)"
      using snapshot_okD(5) [OF ok(1)] by (simp add: p_def)
    ultimately show ?thesis
      using get scope proven i(3,4,5) basis r1(1) roots(1) hv s'(1,6)
      by (cases "es_side (fact_scope f) = SELL")
        (simp_all add: apply_revision_def mk_root_head_valid Let_def ch)
  qed
  moreover have "po_basis_authority (sn_position s') = (if available then AVAILABLE else BASIS_RECONCILIATION_PENDING)"
    using s'(5) avail by simp
  ultimately show thesis using s'(2,3,4,7,8) that by blast
qed

end
