(* ===== verification/Ledger.thy ===== *)
theory Ledger
  imports Apply_Correct
begin

text \<open>
  The abstract specification of the execution kernel: a ledger of effective heads and first
  observations, as plain lists, with no maps, commitments, proofs or bindings, and one step per
  execution fact. Shown here: the canonical transition implements that step on every snapshot that
  satisfies the invariant, and always returns.
\<close>

record ledger =
  lg_scope :: position_scope
  lg_heads :: "root_head list"
  lg_observations :: "seen_fact list"
  lg_integrity :: position_integrity
  lg_available :: bool

definition ledger_flat :: "position_scope \<Rightarrow> ledger" where
  "ledger_flat scope =
     \<lparr>lg_scope = scope, lg_heads = [], lg_observations = [], lg_integrity = CONSISTENT,
      lg_available = True\<rparr>"

definition ledger_quantity :: "ledger \<Rightarrow> int" where
  "ledger_quantity L = sum_list (map signed_quantity_of (lg_heads L))"

type_synonym ledger_outcome =
  "ledger \<times> transition_disposition \<times> first_observation_classification"

text \<open>An observation is replayed, or conflicts with the first one under its key.\<close>

definition ledger_replay :: "canonical_fact \<Rightarrow> seen_fact \<Rightarrow> ledger \<Rightarrow> ledger_outcome" where
  "ledger_replay f first L =
     (let elsewhere = (sf_position_scope first \<noteq> lg_scope L); conflict = (sf_fact first \<noteq> f);
          i = (if elsewhere then sup (lg_integrity L) EXECUTION_RECONCILIATION_REQUIRED
               else lg_integrity L);
          i' = (if conflict then sup i EXECUTION_FACT_CONFLICT else i)
      in (L\<lparr>lg_integrity := i'\<rparr>,
          if conflict then FACT_CONFLICT
          else if elsewhere then RECONCILIATION_REQUIRED else EXACT_REPLAY,
          sf_classification first))"

definition ledger_reconcile :: "canonical_fact \<Rightarrow> ledger \<Rightarrow> ledger_outcome" where
  "ledger_reconcile f L =
     (L\<lparr>lg_observations := lg_observations L @
          [\<lparr>sf_fact = f, sf_classification = CLASS_RECONCILIATION_REQUIRED,
            sf_position_scope = lg_scope L\<rparr>],
        lg_integrity := sup (lg_integrity L) EXECUTION_RECONCILIATION_REQUIRED\<rparr>,
      RECONCILIATION_REQUIRED, CLASS_RECONCILIATION_REQUIRED)"

text \<open>
  New effective heads: the basis stays available when it was, when the change is at the end of the
  order, and when the ordered fold over the new heads goes through.
\<close>

definition ledger_apply ::
  "canonical_fact \<Rightarrow> root_head list \<Rightarrow> bool \<Rightarrow> ledger \<Rightarrow> ledger_outcome" where
  "ledger_apply f hs at_tail L =
     (let available = (lg_available L \<and> at_tail \<and> heads_fold hs \<noteq> None);
          q = sum_list (map signed_quantity_of hs);
          classification = classification_of (\<not> available) q
      in (L\<lparr>lg_heads := hs, lg_available := available,
           lg_observations := lg_observations L @
             [\<lparr>sf_fact = f, sf_classification = classification, sf_position_scope = lg_scope L\<rparr>],
           lg_integrity :=
             (if q < 0 then sup (lg_integrity L) OVERFILL_QUARANTINE else lg_integrity L)\<rparr>,
          APPLIED, classification))"

definition fill_head :: "canonical_fact \<Rightarrow> quantity \<Rightarrow> reported_price \<Rightarrow> nat \<Rightarrow> root_head" where
  "fill_head f quantity price n =
     \<lparr>rh_root_key = fact_root_key f, rh_original_sequence = n, rh_scope = fact_scope f,
      rh_authority = fact_authority f,
      rh_current_source_event_id = fk_source_event_id (fact_key f), rh_kind = fact_kind_of f,
      rh_quantity = quantity, rh_price = Some price,
      rh_prefix_heads_commitment = [], rh_prefix_proof_commitment = []\<rparr>"

definition ledger_fill :: "canonical_fact \<Rightarrow> quantity \<Rightarrow> reported_price \<Rightarrow> ledger \<Rightarrow> ledger_outcome" where
  "ledger_fill f quantity price L =
     (if position_scope_of (fact_scope f) = lg_scope L \<and>
         fact_root_key f \<notin> obs_root ` set (lg_observations L)
      then ledger_apply f (lg_heads L @ [fill_head f quantity price (length (lg_heads L))]) True L
      else ledger_reconcile f L)"

definition ledger_revise ::
  "canonical_fact \<Rightarrow> source_event_id \<Rightarrow> quantity \<Rightarrow> reported_price option \<Rightarrow> ledger \<Rightarrow> ledger_outcome" where
  "ledger_revise f pred quantity price L =
     (case find (\<lambda>h. rh_root_key h = fact_root_key f) (lg_heads L) of
        None \<Rightarrow> ledger_reconcile f L
      | Some h \<Rightarrow>
          if rh_scope h = fact_scope f \<and> rh_authority h = BROKER_AUTHORITATIVE \<and>
             rh_current_source_event_id h = pred
          then ledger_apply f
                 ((lg_heads L)[rh_original_sequence h := revised_head f quantity price h])
                 (Suc (rh_original_sequence h) = length (lg_heads L)) L
          else ledger_reconcile f L)"

definition ledger_step :: "canonical_fact \<Rightarrow> ledger \<Rightarrow> ledger_outcome" where
  "ledger_step f L =
     (case find (\<lambda>obs. obs_key obs = fact_key f) (lg_observations L) of
        Some first \<Rightarrow> ledger_replay f first L
      | None \<Rightarrow>
          (case (root_fill_of f, revision_of f) of
             (Some (quantity, price), _) \<Rightarrow> ledger_fill f quantity price L
           | (None, Some (pred, quantity, price)) \<Rightarrow> ledger_revise f pred quantity price L
           | (None, None) \<Rightarrow> ledger_reconcile f L))"

subsection \<open>The simulation relation\<close>

definition implements :: "execution_snapshot \<Rightarrow> ledger \<Rightarrow> bool" where
  "implements s L \<longleftrightarrow>
     (\<exists>hs. kernel_ok s hs (lg_observations L) \<and> map unproven hs = lg_heads L) \<and>
     sn_integrity s = lg_integrity L \<and>
     (po_basis_authority (sn_position s) = AVAILABLE) = lg_available L \<and>
     po_scope (sn_position s) = lg_scope L"

lemma implementsE:
  assumes "implements s L"
  obtains hs where "kernel_ok s hs (lg_observations L)" "lg_heads L = map unproven hs"
    "lg_integrity L = sn_integrity s" "lg_available L = (po_basis_authority (sn_position s) = AVAILABLE)"
    "lg_scope L = po_scope (sn_position s)"
  using assms by (auto simp: implements_def)

lemma heads_fold_unproven: "heads_fold (map unproven hs) = heads_fold hs"
proof (induction hs rule: rev_induct)
  case (snoc h hs)
  then show ?case
    using heads_step_economic [of "unproven h" h] by (simp add: heads_fold_snoc)
qed simp

lemma signed_unproven: "map signed_quantity_of (map unproven hs) = map signed_quantity_of hs"
  by simp

lemma implements_quantity:
  assumes "implements s L"
  shows "po_raw_quantity (sn_position s) = ledger_quantity L"
  using assms by (auto simp: ledger_quantity_def kernel_ok_parts(4) comp_def elim!: implementsE)

lemma flat_implements:
  assumes "scope_fits scope" "sn_flat obj scope = Ok s"
  shows "implements s (ledger_flat scope)"
  using flat_kernel_ok [OF assms] assms(2)
  by (auto simp: implements_def ledger_flat_def sn_flat_ok po_flat_def)

lemma implements_get:
  assumes "implements s L" "fact_key_fits key"
  shows "si_get (sn_seen_facts s) key = find (\<lambda>obs. obs_key obs = key) (lg_observations L)"
  using assms by (auto simp: si_get_ok kernel_okD(3) elim!: implementsE)

lemma map_unproven_revised:
  assumes "i < length hs"
  shows "map unproven (revised_heads hs i h' available) = (map unproven hs)[i := unproven h']"
proof -
  have "unproven (unproven h) = unproven h" for h by (simp add: unproven_def)
  then show ?thesis
    using assms by (auto simp: revised_heads_def map_update nth_list_update intro!: nth_equalityI)
qed

lemma unproven_revised_head: "unproven (revised_head f q p h) = revised_head f q p (unproven h)"
  by (simp add: unproven_def revised_head_def)

lemma unproven_root_fill_head:
  "unproven (root_fill_head p f q price a) = fill_head f q price (po_root_count p)"
  by (simp add: unproven_def root_fill_head_def fill_head_def)

lemma heads_fold_fill_head:
  "heads_fold (map unproven hs @ [fill_head f q price n]) = heads_fold (hs @ [root_fill_head p f q price a])"
proof -
  have "heads_step (fill_head f q price n) = heads_step (root_fill_head p f q price a)"
    by (rule heads_step_economic) (simp_all add: fill_head_def root_fill_head_def)
  then show ?thesis by (simp add: heads_fold_snoc heads_fold_unproven)
qed

subsection \<open>The canonical transition implements the step\<close>

text \<open>What is claimed of a transition that takes \<open>s\<close> and \<open>L\<close> one step.\<close>

definition simulates ::
  "execution_snapshot \<Rightarrow> ledger \<Rightarrow> execution_transition res \<Rightarrow> ledger_outcome \<Rightarrow> bool" where
  "simulates s L r out \<longleftrightarrow>
     (\<exists>s' L' d b disp c. out = (L', disp, c) \<and> r = Ok (transition_of s' d b disp c) \<and>
        implements s' L' \<and> d = ledger_quantity L' - ledger_quantity L \<and>
        cursor_of s' = cursor_of s \<and> account_latched s' = account_latched s)"

lemma unchanged_simulates:
  assumes imp: "implements s L" and i: "sn_integrity s \<le> i"
  shows "simulates s L (unchanged_transition obj (sn_position s) i (sn_root_heads s) (sn_seen_facts s) d c)
    (L\<lparr>lg_integrity := i\<rparr>, d, c)"
proof -
  obtain hs where hs: "kernel_ok s hs (lg_observations L)" "lg_heads L = map unproven hs"
    "lg_available L = (po_basis_authority (sn_position s) = AVAILABLE)" "lg_scope L = po_scope (sn_position s)"
    using imp by (elim implementsE)
  obtain s' where s': "unchanged_transition obj (sn_position s) i (sn_root_heads s) (sn_seen_facts s) d c =
      Ok (transition_of s' 0 (Some 0) d c)" "rebound s s' i"
    using unchanged_transition_ok [OF kernel_okD(1) [OF hs(1)] i] by blast
  have "implements s' (L\<lparr>lg_integrity := i\<rparr>)"
    using rebound_kernel_ok [OF hs(1) s'(2) i] s'(2) hs by (auto simp: implements_def rebound_def)
  with s' show ?thesis by (auto simp: simulates_def ledger_quantity_def rebound_def)
qed

lemma reconciliation_simulates:
  assumes imp: "implements s L" and f: "fact_admissible f"
    and new: "si_get (sn_seen_facts s) (fact_key f) = None" and room: "has_room (lg_observations L)"
  shows "simulates s L (reconciliation_transition obj (sn_position s) (sn_integrity s) (sn_root_heads s)
      (sn_seen_facts s) f) (ledger_reconcile f L)"
proof -
  obtain hs where hs: "kernel_ok s hs (lg_observations L)" "lg_heads L = map unproven hs"
    "lg_integrity L = sn_integrity s"
    "lg_available L = (po_basis_authority (sn_position s) = AVAILABLE)" "lg_scope L = po_scope (sn_position s)"
    using imp by (elim implementsE)
  define obs where "obs = \<lparr>sf_fact = f, sf_classification = CLASS_RECONCILIATION_REQUIRED,
    sf_position_scope = po_scope (sn_position s)\<rparr>"
  have v: "seen_valid obs" "\<not> is_overfill_class (sf_classification obs)"
    by (simp_all add: obs_def seen_valid_def is_overfill_class_def)
  have sel: "fact_admissible (sf_fact obs)" "sf_position_scope obs = po_scope (sn_position s)"
    "si_get (sn_seen_facts s) (obs_key obs) = None"
    using f new by (simp_all add: obs_def obs_key_def)
  obtain seen' s' where s': "si_add (sn_seen_facts s) obs = Ok seen'"
    "bind_components obj (sn_position s) (sup (sn_integrity s) EXECUTION_RECONCILIATION_REQUIRED)
       (sn_root_heads s) seen' None None None = Ok s'"
    "kernel_ok s' hs (lg_observations L @ [obs])"
    "sn_integrity s' = sup (sn_integrity s) EXECUTION_RECONCILIATION_REQUIRED"
    "sn_position s' = (sn_position s)\<lparr>po_integrity_floor := sup (sn_integrity s) EXECUTION_RECONCILIATION_REQUIRED,
       po_binding := Some (binding_of s')\<rparr>"
    "cursor_of s' = cursor_of s" "account_latched s' = account_latched s"
    using record_kernel_ok [OF hs(1) sel(1) v(1) sel(2,3) room v(2) sup_ge1] by metis
  have "mk_seen_fact f CLASS_RECONCILIATION_REQUIRED (Some (po_scope (sn_position s))) = Ok obs"
    using v(1) by (simp add: mk_seen_fact_valid(1) obs_def)
  then have "reconciliation_transition obj (sn_position s) (sn_integrity s) (sn_root_heads s)
      (sn_seen_facts s) f = Ok (transition_of s' 0 (Some 0) RECONCILIATION_REQUIRED CLASS_RECONCILIATION_REQUIRED)"
    using s'(1,2) by (simp add: reconciliation_transition_def)
  moreover have "implements s' (fst (ledger_reconcile f L))"
    using s'(3,4,5) hs by (auto simp: implements_def ledger_reconcile_def obs_def)
  ultimately show ?thesis
    using s'(6,7) by (auto simp: simulates_def ledger_reconcile_def ledger_quantity_def)
qed


lemma applied_implements:
  assumes k: "kernel_ok s' hs' (lg_observations L @ [obs])"
    and obs: "obs = applied_observation f (lg_scope L) (\<not> available) q"
    and q: "q = sum_list (map signed_quantity_of hs')"
    and heads: "map unproven hs' = hs" and avail: "available = (lg_available L \<and> at_tail \<and> heads_fold hs \<noteq> None)"
    and i: "sn_integrity s' = (if q < 0 then sup (lg_integrity L) OVERFILL_QUARANTINE else lg_integrity L)"
    and p: "po_scope (sn_position s') = lg_scope L"
      "po_basis_authority (sn_position s') = (if available then AVAILABLE else BASIS_RECONCILIATION_PENDING)"
  shows "implements s' (fst (ledger_apply f hs at_tail L))"
    and "snd (ledger_apply f hs at_tail L) = (APPLIED, sf_classification obs)"
    and "ledger_quantity (fst (ledger_apply f hs at_tail L)) = q"
proof -
  have q': "sum_list (map signed_quantity_of hs) = q"
    unfolding q heads [symmetric] by (simp add: comp_def)
  have out: "ledger_apply f hs at_tail L =
    (L\<lparr>lg_heads := hs, lg_available := available, lg_observations := lg_observations L @ [obs],
       lg_integrity := (if q < 0 then sup (lg_integrity L) OVERFILL_QUARANTINE else lg_integrity L)\<rparr>,
     APPLIED, sf_classification obs)"
    by (simp add: ledger_apply_def Let_def q' obs applied_observation_def avail)
  show "implements s' (fst (ledger_apply f hs at_tail L))"
    using k heads i p by (auto simp: out implements_def)
  show "snd (ledger_apply f hs at_tail L) = (APPLIED, sf_classification obs)"
    "ledger_quantity (fst (ledger_apply f hs at_tail L)) = q"
    by (simp_all add: out ledger_quantity_def q')
qed

lemma root_fill_simulates:
  assumes imp: "implements s L" and f: "fact_admissible f" "root_fill_of f = Some (quantity, price)"
    and new: "si_get (sn_seen_facts s) (fact_key f) = None" and room: "has_room (lg_observations L)"
  shows "simulates s L (apply_root_fill obj (sn_position s) (sn_integrity s) (sn_root_heads s)
      (sn_seen_facts s) f quantity price) (ledger_fill f quantity price L)"
proof -
  obtain hs where hs: "kernel_ok s hs (lg_observations L)" "lg_heads L = map unproven hs"
    "lg_integrity L = sn_integrity s"
    "lg_available L = (po_basis_authority (sn_position s) = AVAILABLE)" "lg_scope L = po_scope (sn_position s)"
    using imp by (elim implementsE)
  note ok = kernel_okD [OF hs(1)]
  have fits: "root_key_fits (fact_root_key f)" using f(1) fact_fits_root_key by (simp add: fact_admissible_def)
  have claims: "contains_root (sn_seen_facts s) (fact_root_key f) \<longleftrightarrow>
      fact_root_key f \<in> obs_root ` set (lg_observations L)"
    by (rule contains_root_ok [OF ok(3) fits])
  show ?thesis
  proof (cases "position_scope_of (fact_scope f) = lg_scope L \<and>
      fact_root_key f \<notin> obs_root ` set (lg_observations L)")
    case False
    then have "apply_root_fill obj (sn_position s) (sn_integrity s) (sn_root_heads s) (sn_seen_facts s) f
        quantity price = reconciliation_transition obj (sn_position s) (sn_integrity s) (sn_root_heads s)
      (sn_seen_facts s) f"
      using snapshot_okD(5) [OF ok(1)] claims hs(5) by (auto simp: apply_root_fill_def)
    with False reconciliation_simulates [OF imp f(1) new room] show ?thesis
      by (auto simp: ledger_fill_def)
  next
    case True
    let ?p = "sn_position s" and ?n = "length (lg_heads L)"
    let ?hs = "lg_heads L @ [fill_head f quantity price ?n]"
    define available where "available \<longleftrightarrow> po_basis_authority ?p = AVAILABLE \<and>
      heads_fold (hs @ [root_fill_head ?p f quantity price True]) \<noteq> None"
    define h where "h = root_fill_head ?p f quantity price available"
    define q where "q = po_raw_quantity ?p + signed_quantity_of h"
    define obs where "obs = applied_observation f (po_scope ?p) (\<not> available) q"
    obtain s' where s': "apply_root_fill obj ?p (sn_integrity s) (sn_root_heads s) (sn_seen_facts s) f quantity price =
       Ok (transition_of s' (signed_quantity_of h)
             (basis_delta (po_cost_basis ?p) (po_cost_basis (sn_position s'))) APPLIED (sf_classification obs))"
      "kernel_ok s' (hs @ [h]) (lg_observations L @ [obs])"
      "sn_integrity s' = (if q < 0 then sup (sn_integrity s) OVERFILL_QUARANTINE else sn_integrity s)"
      "po_scope (sn_position s') = po_scope ?p"
      "po_basis_authority (sn_position s') = (if available then AVAILABLE else BASIS_RECONCILIATION_PENDING)"
      "cursor_of s' = cursor_of s" "account_latched s' = account_latched s"
      using apply_root_fill_ok [OF hs(1) f new room True [unfolded hs(5), THEN conjunct1]
          True [THEN conjunct2]]
      unfolding available_def h_def q_def obs_def by blast
    have sum: "q = sum_list (map signed_quantity_of (hs @ [h]))"
      using kernel_ok_parts(4) [OF hs(1)] by (simp add: q_def)
    have heads: "map unproven (hs @ [h]) = ?hs"
      using kernel_ok_parts(5) [OF hs(1)] by (simp add: h_def unproven_root_fill_head hs(2))
    have avail: "available = (lg_available L \<and> True \<and> heads_fold ?hs \<noteq> None)"
      using heads_fold_fill_head [of hs f quantity price ?n ?p True]
      by (simp only: available_def hs(2,4) length_map simp_thms)
    have obs': "obs = applied_observation f (lg_scope L) (\<not> available) q"
      by (simp only: obs_def hs(5))
    note app = applied_implements [OF s'(2) obs' sum heads avail s'(3) [folded hs(3)] s'(4) [folded hs(5)] s'(5)]
    have "signed_quantity_of h = ledger_quantity (fst (ledger_apply f ?hs True L)) - ledger_quantity L"
      using app(3) implements_quantity [OF imp] by (simp add: q_def)
    then have "simulates s L (apply_root_fill obj ?p (sn_integrity s) (sn_root_heads s) (sn_seen_facts s) f
        quantity price) (ledger_apply f ?hs True L)"
      unfolding simulates_def s'(1) using app(1,2) s'(6,7) by (metis prod.collapse prod.inject)
    with True show ?thesis by (simp add: ledger_fill_def)
  qed
qed

lemma revision_simulates:
  assumes imp: "implements s L" and f: "fact_admissible f" "revision_of f = Some (pred, quantity, price)"
    and new: "si_get (sn_seen_facts s) (fact_key f) = None" and room: "has_room (lg_observations L)"
  shows "simulates s L (apply_revision obj (sn_position s) (sn_integrity s) (sn_root_heads s)
      (sn_seen_facts s) f pred quantity price) (ledger_revise f pred quantity price L)"
proof -
  obtain hs where hs: "kernel_ok s hs (lg_observations L)" "lg_heads L = map unproven hs"
    "lg_integrity L = sn_integrity s"
    "lg_available L = (po_basis_authority (sn_position s) = AVAILABLE)" "lg_scope L = po_scope (sn_position s)"
    using imp by (elim implementsE)
  note ok = kernel_okD [OF hs(1)]
  have fits: "root_key_fits (fact_root_key f)" using f(1) fact_fits_root_key by (simp add: fact_admissible_def)
  have find: "find (\<lambda>h. rh_root_key h = fact_root_key f) (lg_heads L) =
      map_option unproven (ri_get (sn_root_heads s) (fact_root_key f))"
    unfolding ri_get_ok [OF ok(2) fits] hs(2) by (induction hs) auto
  show ?thesis
  proof (cases "\<exists>h. ri_get (sn_root_heads s) (fact_root_key f) = Some h \<and> rh_scope h = fact_scope f \<and>
      rh_authority h = BROKER_AUTHORITATIVE \<and> rh_current_source_event_id h = pred")
    case False
    then have "apply_revision obj (sn_position s) (sn_integrity s) (sn_root_heads s) (sn_seen_facts s) f pred
        quantity price = reconciliation_transition obj (sn_position s) (sn_integrity s) (sn_root_heads s)
      (sn_seen_facts s) f"
      using snapshot_okD(5) [OF ok(1)] by (auto simp: apply_revision_def split: option.splits)
    with False find reconciliation_simulates [OF imp f(1) new room] show ?thesis
      by (auto simp: ledger_revise_def split: option.splits)
  next
    case True
    then obtain g where g: "ri_get (sn_root_heads s) (fact_root_key f) = Some g" "rh_scope g = fact_scope f"
      "rh_authority g = BROKER_AUTHORITATIVE" "rh_current_source_event_id g = pred" by blast
    let ?p = "sn_position s"
    define i where "i = rh_original_sequence g"
    have i: "i < length hs" "hs ! i = g" "rh_root_key (hs ! i) = fact_root_key f"
      using ri_get_Some_nth [OF ok(2) fits g(1)] by (simp_all add: i_def)
    let ?hs = "(lg_heads L)[i := revised_head f quantity price (unproven g)]"
    define h' where "h' = revised_head f quantity price (hs ! i)"
    define available where "available \<longleftrightarrow> po_basis_authority ?p = AVAILABLE \<and> Suc i = length hs \<and>
      heads_fold (hs[i := h']) \<noteq> None"
    define change where "change = signed_quantity_of h' - signed_quantity_of (hs ! i)"
    define q where "q = po_raw_quantity ?p + change"
    define obs where "obs = applied_observation f (po_scope ?p) (\<not> available) q"
    obtain s' where s': "apply_revision obj ?p (sn_integrity s) (sn_root_heads s) (sn_seen_facts s) f pred quantity price =
       Ok (transition_of s' change
             (basis_delta (po_cost_basis ?p) (po_cost_basis (sn_position s'))) APPLIED (sf_classification obs))"
      "kernel_ok s' (revised_heads hs i h' available) (lg_observations L @ [obs])"
      "sn_integrity s' = (if q < 0 then sup (sn_integrity s) OVERFILL_QUARANTINE else sn_integrity s)"
      "po_scope (sn_position s') = po_scope ?p"
      "po_basis_authority (sn_position s') = (if available then AVAILABLE else BASIS_RECONCILIATION_PENDING)"
      "cursor_of s' = cursor_of s" "account_latched s' = account_latched s"
      using apply_revision_ok [OF hs(1) f new room i(1,3) g(2,3,4) [folded i(2)]]
      unfolding available_def h'_def change_def q_def obs_def by blast
    have sum: "q = sum_list (map signed_quantity_of (revised_heads hs i h' available))"
      using kernel_ok_parts(4) [OF hs(1)] map_signed_revised [OF i(1), of h' available]
      by (simp add: q_def change_def)
    have heads: "map unproven (revised_heads hs i h' available) = ?hs"
      by (simp add: map_unproven_revised [OF i(1)] hs(2) h'_def unproven_revised_head i(2))
    have "heads_fold ?hs = heads_fold (hs[i := h'])"
      using heads_fold_unproven [of "hs[i := h']"]
      by (simp add: map_update h'_def unproven_revised_head i(2) hs(2))
    then have avail: "available = (lg_available L \<and> Suc i = length (lg_heads L) \<and> heads_fold ?hs \<noteq> None)"
      by (simp add: available_def hs(2,4))
    have obs': "obs = applied_observation f (lg_scope L) (\<not> available) q"
      by (simp only: obs_def hs(5))
    note app = applied_implements [OF s'(2) obs' sum heads avail s'(3) [folded hs(3)] s'(4) [folded hs(5)] s'(5)]
    have "change = ledger_quantity (fst (ledger_apply f ?hs (Suc i = length (lg_heads L)) L)) - ledger_quantity L"
      using app(3) implements_quantity [OF imp] by (simp add: q_def)
    then have "simulates s L (apply_revision obj ?p (sn_integrity s) (sn_root_heads s) (sn_seen_facts s) f pred
        quantity price) (ledger_apply f ?hs (Suc i = length (lg_heads L)) L)"
      unfolding simulates_def s'(1) using app(1,2) s'(6,7) by (metis prod.collapse prod.inject)
    with g find show ?thesis by (simp add: ledger_revise_def i_def)
  qed
qed

text \<open>The whole dispatch.\<close>

lemma canonical_simulates:
  assumes imp: "implements s L" and f: "fact_admissible f" and room: "has_room (lg_observations L)"
  shows "simulates s L (apply_canonical_execution_fact obj (sn_position s) (sn_integrity s) (sn_root_heads s)
      (sn_seen_facts s) f None) (ledger_step f L)"
proof -
  have coh: "snapshot_is_coherent (sn_position s) (sn_integrity s) (sn_root_heads s) (sn_seen_facts s)"
    using imp by (auto elim!: implementsE intro: snapshot_okD(1) kernel_okD(1))
  have L: "lg_integrity L = sn_integrity s" "lg_scope L = po_scope (sn_position s)"
    using imp by (auto elim!: implementsE)
  have get: "si_get (sn_seen_facts s) (fact_key f) = find (\<lambda>obs. obs_key obs = fact_key f) (lg_observations L)"
    using implements_get [OF imp] f by (simp add: fact_admissible_def fact_fits_def)
  show ?thesis
  proof (cases "si_get (sn_seen_facts s) (fact_key f)")
    case (Some first)
    then show ?thesis
      using get coh L
      by (auto simp: ledger_step_def ledger_replay_def apply_canonical_execution_fact_def Let_def
          intro!: unchanged_simulates [OF imp] le_supI1)
  next
    case None
    then have step: "ledger_step f L = (case (root_fill_of f, revision_of f) of
             (Some (quantity, price), _) \<Rightarrow> ledger_fill f quantity price L
           | (None, Some (pred, quantity, price)) \<Rightarrow> ledger_revise f pred quantity price L
           | (None, None) \<Rightarrow> ledger_reconcile f L)"
      using get by (simp add: ledger_step_def)
    show ?thesis
      using root_fill_simulates [OF imp f _ None room] revision_simulates [OF imp f _ None room] None coh step
      by (cases f) (simp_all add: apply_canonical_execution_fact_def apply_first_observation_def)
  qed
qed

end
