(* ===== verification/M2.thy ===== *)
theory M2
  imports Ledger
begin

text \<open>
  The bounded execution layer of \<^verbatim>\<open>app/execution_core/position.py\<close>: the state of a
  snapshot without its history-shaped indexes, the direct proof of one keyed slice of them, their
  authentication, the classification of a broker fact from the two alone, and the public
  \<^verbatim>\<open>apply_broker_execution_fact\<close> that runs it before the canonical transition. Shown
  here: on every snapshot that satisfies the invariant the layer accepts its own proof and agrees
  with the canonical transition, so that it neither raises nor changes the outcome.
\<close>

subsection \<open>The bounded state\<close>

record m2_fields =
  ms_scope :: position_scope
  ms_raw_quantity :: int
  ms_basis_authority :: basis_authority
  ms_cost_basis :: "exact_basis option"
  ms_basis_price_metadata :: "reported_price option"
  ms_tail_fold_input :: "fold_input option"
  ms_integrity_floor :: position_integrity
  ms_integrity :: position_integrity
  ms_account_reconciliation_required :: bool
  ms_reconciliation_transition_count :: int
  ms_reconciliation_transition_head :: bytes
  ms_root_count :: int
  ms_root_order_commitment :: bytes
  ms_head_ids_commitment :: bytes
  ms_root_heads_commitment :: bytes
  ms_seen_facts_commitment :: bytes
  ms_root_head_map_commitment :: bytes
  ms_seen_fact_map_commitment :: bytes
  ms_root_claim_map_commitment :: bytes

record m2_state = m2_fields +
  ms_commitment :: bytes

definition m2_execution_state_commitment :: "'a m2_fields_scheme \<Rightarrow> bytes" where
  "m2_execution_state_commitment x =
     commit_parts (text_bytes ''execution-core/m2-execution-state/v1'')
       [encode_position_scope (ms_scope x), encode_int (ms_raw_quantity x),
        text_bytes (basis_authority_value (ms_basis_authority x)),
        (case ms_cost_basis x of Some b \<Rightarrow> encode_fraction (basis_value b) | None \<Rightarrow> []),
        encode_reported_price (ms_basis_price_metadata x),
        (case ms_tail_fold_input x of
           Some fi \<Rightarrow> commit_parts (text_bytes ''execution-core/m2-execution-tail/present/v1'')
                        [fi_commitment fi]
         | None \<Rightarrow> commit_parts (text_bytes ''execution-core/m2-execution-tail/absent/v1'') []),
        encode_int (int (integrity_value (ms_integrity_floor x))),
        encode_int (int (integrity_value (ms_integrity x))),
        encode_int (of_bool (ms_account_reconciliation_required x)),
        encode_int (ms_reconciliation_transition_count x), ms_reconciliation_transition_head x,
        encode_int (ms_root_count x), ms_root_order_commitment x, ms_head_ids_commitment x,
        ms_root_heads_commitment x, ms_seen_facts_commitment x, ms_root_head_map_commitment x,
        ms_seen_fact_map_commitment x, ms_root_claim_map_commitment x]"

definition new_m2_execution_state :: "m2_fields \<Rightarrow> m2_state res" where
  "new_m2_execution_state x =
     require (inf (ms_integrity_floor x) (ms_integrity x) = ms_integrity_floor x) ValueError
     (require (\<not> ms_reconciliation_transition_count x < 0) ValueError
     (require (length (ms_reconciliation_transition_head x) = 32) ValueError
     (require (\<not> ms_root_count x < 0) ValueError
     (require (list_all (\<lambda>c. length c = 32)
                [ms_root_order_commitment x, ms_head_ids_commitment x, ms_root_heads_commitment x,
                 ms_seen_facts_commitment x, ms_root_head_map_commitment x,
                 ms_seen_fact_map_commitment x, ms_root_claim_map_commitment x]) ValueError
     (require (if ms_basis_authority x = AVAILABLE
               then (case ms_cost_basis x of
                       None \<Rightarrow> False
                     | Some b \<Rightarrow> \<not> (ms_raw_quantity x \<le> 0 \<and> basis_value b \<noteq> 0))
               else \<not> (ms_cost_basis x \<noteq> None \<or> ms_basis_price_metadata x \<noteq> None \<or>
                       ms_tail_fold_input x \<noteq> None)) ValueError
       (Ok (m2_fields.extend x (m2_state.fields (m2_execution_state_commitment x)))))))))"

definition m2_execution_state_is_authentic :: "m2_state \<Rightarrow> bool" where
  "m2_execution_state_is_authentic state =
     (let expected = m2_execution_state_commitment state
      in case new_m2_execution_state (m2_fields.truncate state) of
           Inl _ \<Rightarrow> False
         | Inr rebuilt \<Rightarrow> ms_commitment state = expected \<and> expected = ms_commitment rebuilt)"

definition m2_fields_of_snapshot :: "execution_snapshot \<Rightarrow> snapshot_binding \<Rightarrow> m2_fields" where
  "m2_fields_of_snapshot s b =
     \<lparr>ms_scope = po_scope (sn_position s), ms_raw_quantity = po_raw_quantity (sn_position s),
      ms_basis_authority = po_basis_authority (sn_position s),
      ms_cost_basis = po_cost_basis (sn_position s),
      ms_basis_price_metadata = po_basis_price_metadata (sn_position s),
      ms_tail_fold_input = po_tail_fold_input (sn_position s),
      ms_integrity_floor = po_integrity_floor (sn_position s), ms_integrity = sn_integrity s,
      ms_account_reconciliation_required = sb_account_reconciliation_required b,
      ms_reconciliation_transition_count = sb_reconciliation_transition_count b,
      ms_reconciliation_transition_head = sb_reconciliation_transition_head b,
      ms_root_count = int (ri_count (sn_root_heads s)),
      ms_root_order_commitment = ri_root_order_commitment (sn_root_heads s),
      ms_head_ids_commitment = ri_head_ids_commitment (sn_root_heads s),
      ms_root_heads_commitment = ri_commitment (sn_root_heads s),
      ms_seen_facts_commitment = si_commitment (sn_seen_facts s),
      ms_root_head_map_commitment = pm_commitment (ri_by_root (sn_root_heads s)),
      ms_seen_fact_map_commitment = pm_commitment (si_by_key (sn_seen_facts s)),
      ms_root_claim_map_commitment = pm_commitment (si_observed_roots (sn_seen_facts s))\<rparr>"

definition m2_execution_state_from_snapshot :: "execution_snapshot \<Rightarrow> m2_state res" where
  "m2_execution_state_from_snapshot s =
     require (snapshot_is_coherent (sn_position s) (sn_integrity s) (sn_root_heads s)
                (sn_seen_facts s)) ValueError
     (case po_binding (sn_position s) of
        None \<Rightarrow> Raise ValueError
      | Some b \<Rightarrow> new_m2_execution_state (m2_fields_of_snapshot s b))"

text \<open>A checkpoint decodes into the nineteen fields, which the constructor checks.\<close>

definition m2_execution_state_from_checkpoint_fields :: "m2_fields \<Rightarrow> m2_state res" where
  "m2_execution_state_from_checkpoint_fields x = new_m2_execution_state x"

definition m2_restore_compact_execution_snapshot ::
  "nat \<Rightarrow> m2_state \<Rightarrow> root_head_index \<Rightarrow> seen_fact_index \<Rightarrow> execution_snapshot res" where
  "m2_restore_compact_execution_snapshot obj state root_heads current_facts =
     require (m2_execution_state_is_authentic state) ValueError
     (require (\<not> (ri_position_scope root_heads \<noteq> Some (ms_scope state) \<or>
                  int (ri_count root_heads) \<noteq> ms_root_count state \<or>
                  ri_signed_quantity root_heads \<noteq> ms_raw_quantity state)) ValueError
     (bind_res
        (case ms_tail_fold_input state of
           None \<Rightarrow> Ok True
         | Some tail \<Rightarrow>
             if \<not> fi_is_bound tail \<or> fi_position_scope tail \<noteq> Some (ms_scope state) \<or>
                fi_prefix_count tail \<noteq> ms_root_count state - 1 \<or> ms_root_count state < 1
             then Ok False
             else bind_res (seq_get (ri_root_sequence root_heads) (ms_root_count state - 1))
                    (\<lambda>k. Ok (Some k = fi_tail_root_key tail))) (\<lambda>tail_ok.
      require tail_ok ValueError
     (bind_res (seq_to_tuple (ri_root_sequence root_heads)) (\<lambda>roots.
      bind_res (seq_to_tuple (ri_head_sequence root_heads)) (\<lambda>heads.
      bind_res (po_from_materialized (ms_scope state) (ms_raw_quantity state)
                  (ms_basis_authority state) (ms_cost_basis state) roots heads
                  (ms_basis_price_metadata state) (ms_tail_fold_input state)
                  (ms_integrity_floor state)) (\<lambda>position.
        bind_components obj position (ms_integrity state) root_heads current_facts
          (Some (ms_account_reconciliation_required state))
          (Some (ms_reconciliation_transition_count state))
          (Some (ms_reconciliation_transition_head state)))))))))"

subsection \<open>The direct proof\<close>

record m2_proof_slice =
  mp_state_commitment :: bytes
  mp_root_heads_commitment :: bytes
  mp_seen_facts_commitment :: bytes
  mp_root_head_map_commitment :: bytes
  mp_seen_fact_map_commitment :: bytes
  mp_root_claim_map_commitment :: bytes
  mp_fact :: canonical_fact
  mp_prior_observation :: "seen_fact option"
  mp_root_head :: "root_head option"
  mp_predecessor_observation :: "seen_fact option"
  mp_root_claimed :: bool
  mp_prior_observation_witness :: map_witness
  mp_root_head_witness :: map_witness
  mp_predecessor_observation_witness :: "map_witness option"
  mp_root_claim_witness :: map_witness

record m2_proof = m2_proof_slice +
  mp_commitment :: bytes

definition m2_execution_observation_proof_commitment :: "'a m2_proof_slice_scheme \<Rightarrow> bytes res" where
  "m2_execution_observation_proof_commitment x =
     bind_res (witness_commitment (mp_prior_observation_witness x)) (\<lambda>prior.
     bind_res (witness_commitment (mp_root_head_witness x)) (\<lambda>root.
     bind_res (case mp_predecessor_observation_witness x of
                 Some w \<Rightarrow> witness_commitment w
               | None \<Rightarrow> Ok (commit_parts
                   (text_bytes ''execution-core/m2-predecessor-witness/absent/v1'') []))
       (\<lambda>predecessor.
     bind_res (witness_commitment (mp_root_claim_witness x)) (\<lambda>claim.
       Ok (commit_parts (text_bytes ''execution-core/m2-execution-observation-proof/v1'')
         [mp_state_commitment x, mp_root_heads_commitment x, mp_seen_facts_commitment x,
          mp_root_head_map_commitment x, mp_seen_fact_map_commitment x,
          mp_root_claim_map_commitment x, encode_execution_fact (mp_fact x),
          (case mp_prior_observation x of
             Some obs \<Rightarrow> commit_seen_fact obs
           | None \<Rightarrow> commit_parts (text_bytes ''execution-core/m2-observation/absent/v1'') []),
          (case mp_root_head x of
             Some h \<Rightarrow> commit_root_head h
           | None \<Rightarrow> commit_parts (text_bytes ''execution-core/m2-root-head/absent/v1'') []),
          (case mp_predecessor_observation x of
             Some obs \<Rightarrow> commit_seen_fact obs
           | None \<Rightarrow> commit_parts (text_bytes ''execution-core/m2-predecessor/absent/v1'') []),
          (if mp_root_claimed x then [1] else [0]), prior, root, predecessor, claim])))))"

fun is_broker_fact :: "canonical_fact \<Rightarrow> bool" where
  "is_broker_fact (HumanAttestedFill f) = False"
| "is_broker_fact _ = True"

definition m2_proof_from_snapshot ::
  "m2_state \<Rightarrow> execution_snapshot \<Rightarrow> canonical_fact \<Rightarrow> m2_proof res" where
  "m2_proof_from_snapshot state s f =
     require (m2_execution_state_is_authentic state) ValueError
     (require (is_broker_fact f) TypeError
     (bind_res (m2_execution_state_from_snapshot s) (\<lambda>projected.
      require (projected = state) ValueError
     (let seen = sn_seen_facts s; roots = sn_root_heads s
      in bind_res (fact_witness seen (fact_key f)) (\<lambda>prior_witness.
         bind_res (ri_current_head_witness roots (fact_root_key f)) (\<lambda>head_witness.
         bind_res (case revision_of f of
                     None \<Rightarrow> Ok (None, None)
                   | Some (pred, _, _) \<Rightarrow>
                       bind_res (fact_witness seen (predecessor_key_of f pred)) (\<lambda>w.
                         Ok (si_get seen (predecessor_key_of f pred), Some w)))
           (\<lambda>(predecessor, predecessor_witness).
         bind_res (root_claim_witness seen (fact_root_key f)) (\<lambda>claim_witness.
         let slice = \<lparr>mp_state_commitment = ms_commitment state,
               mp_root_heads_commitment = ms_root_heads_commitment state,
               mp_seen_facts_commitment = ms_seen_facts_commitment state,
               mp_root_head_map_commitment = ms_root_head_map_commitment state,
               mp_seen_fact_map_commitment = ms_seen_fact_map_commitment state,
               mp_root_claim_map_commitment = ms_root_claim_map_commitment state,
               mp_fact = f, mp_prior_observation = si_get seen (fact_key f),
               mp_root_head = ri_get roots (fact_root_key f),
               mp_predecessor_observation = predecessor,
               mp_root_claimed = contains_root seen (fact_root_key f),
               mp_prior_observation_witness = prior_witness,
               mp_root_head_witness = head_witness,
               mp_predecessor_observation_witness = predecessor_witness,
               mp_root_claim_witness = claim_witness\<rparr>
         in bind_res (m2_execution_observation_proof_commitment slice) (\<lambda>c.
              Ok (m2_proof_slice.extend slice (m2_proof.fields c)))))))))))"

definition m2_proof_is_authentic :: "m2_proof \<Rightarrow> bool" where
  "m2_proof_is_authentic p =
     (if list_ex (\<lambda>c. length c \<noteq> 32)
           [mp_state_commitment p, mp_root_heads_commitment p, mp_seen_facts_commitment p,
            mp_root_head_map_commitment p, mp_seen_fact_map_commitment p,
            mp_root_claim_map_commitment p, mp_commitment p]
      then False
      else if \<not> is_broker_fact (mp_fact p) then False
      else case m2_execution_observation_proof_commitment p of
             Inl _ \<Rightarrow> False
           | Inr expected \<Rightarrow> mp_commitment p = expected)"

text \<open>
  The state is passed as it is or rebuilt from its nineteen fields; the proof is then checked
  against it.
\<close>

definition m2_execution_state_from_direct_proof ::
  "m2_state + m2_fields \<Rightarrow> m2_proof \<Rightarrow> m2_state res" where
  "m2_execution_state_from_direct_proof state_or_fields p =
     bind_res (case state_or_fields of
                 Inl state \<Rightarrow> Ok state
               | Inr x \<Rightarrow> new_m2_execution_state x) (\<lambda>state.
     require (m2_execution_state_is_authentic state) ValueError
     (require (m2_proof_is_authentic p) ValueError
     (require (mp_state_commitment p = ms_commitment state) ValueError
     (require (\<not> (mp_root_heads_commitment p \<noteq> ms_root_heads_commitment state \<or>
                  mp_seen_facts_commitment p \<noteq> ms_seen_facts_commitment state \<or>
                  mp_root_head_map_commitment p \<noteq> ms_root_head_map_commitment state \<or>
                  mp_seen_fact_map_commitment p \<noteq> ms_seen_fact_map_commitment state \<or>
                  mp_root_claim_map_commitment p \<noteq> ms_root_claim_map_commitment state)) ValueError
     (let f = mp_fact p in
     (require (\<forall>obs \<in> set_option (mp_prior_observation p). fact_key (sf_fact obs) = fact_key f)
        ValueError
     (require (witness_matches (mp_prior_observation_witness p) (ms_seen_fact_map_commitment state)
                 (encode_execution_fact_key (fact_key f))
                 (map_option commit_seen_fact (mp_prior_observation p))) ValueError
     (require (\<forall>h \<in> set_option (mp_root_head p). rh_root_key h = fact_root_key f \<and>
                 position_scope_of (rh_scope h) = ms_scope state) ValueError
     (require (witness_matches (mp_root_head_witness p) (ms_root_head_map_commitment state)
                 (encode_root_fill_key (fact_root_key f))
                 (map_option commit_root_head (mp_root_head p))) ValueError
     (require (\<forall>obs \<in> set_option (mp_predecessor_observation p).
                 case revision_of f of
                   None \<Rightarrow> False
                 | Some (pred, _, _) \<Rightarrow> fk_source_event_id (fact_key (sf_fact obs)) = pred) ValueError
     (require (case revision_of f of
                 Some (pred, _, _) \<Rightarrow>
                   (case mp_predecessor_observation_witness p of
                      None \<Rightarrow> False
                    | Some w \<Rightarrow>
                        witness_matches w (ms_seen_fact_map_commitment state)
                          (encode_execution_fact_key (predecessor_key_of f pred))
                          (map_option commit_seen_fact (mp_predecessor_observation p)))
               | None \<Rightarrow> mp_predecessor_observation_witness p = None) ValueError
     (require (witness_matches (mp_root_claim_witness p) (ms_root_claim_map_commitment state)
                 (encode_root_fill_key (fact_root_key f))
                 (if mp_root_claimed p then Some (commit_root_fill_key (fact_root_key f)) else None))
        ValueError
       (Ok state)))))))))))))"

subsection \<open>Classification from the bounded state\<close>

definition m2_tail_proof_is_valid :: "m2_state \<Rightarrow> root_head \<Rightarrow> bool" where
  "m2_tail_proof_is_valid state h =
     (case ms_tail_fold_input state of
        None \<Rightarrow> False
      | Some fi \<Rightarrow>
          fi_is_bound fi \<and> ms_root_count state > 0 \<and>
          int (rh_original_sequence h) = ms_root_count state - 1 \<and>
          fi_position_scope fi = Some (ms_scope state) \<and>
          fi_tail_root_key fi = Some (rh_root_key h) \<and>
          fi_prefix_count fi = int (rh_original_sequence h) \<and>
          fi_prefix_heads_commitment fi = rh_prefix_heads_commitment h \<and>
          fi_commitment fi = rh_prefix_proof_commitment h \<and>
          fi_raw_quantity fi = ms_raw_quantity state - signed_quantity_of h)"

definition m2_fill_pending ::
  "m2_state \<Rightarrow> canonical_fact \<Rightarrow> quantity \<Rightarrow> reported_price \<Rightarrow> int \<Rightarrow> bool res" where
  "m2_fill_pending state f quantity price next_raw_quantity =
     (case ms_cost_basis state of
        Some cost_basis \<Rightarrow>
          if ms_basis_authority state = AVAILABLE \<and>
             metadata_accepts (ms_basis_price_metadata state) (Some price)
          then bind_res (fold_one (ms_raw_quantity state) (basis_value cost_basis)
                           (es_side (fact_scope f)) (quantity_value quantity) (Some price))
                 (\<lambda>(folded_quantity, _). Ok (folded_quantity \<noteq> next_raw_quantity))
          else Ok True
      | None \<Rightarrow> Ok True)"

definition m2_revision_pending ::
  "m2_state \<Rightarrow> root_head \<Rightarrow> quantity \<Rightarrow> reported_price option \<Rightarrow> int \<Rightarrow> bool res" where
  "m2_revision_pending state h revised_quantity revised_price next_raw_quantity =
     (case ms_tail_fold_input state of
        Some fi \<Rightarrow>
          if ms_basis_authority state = AVAILABLE \<and> ms_cost_basis state \<noteq> None \<and>
             m2_tail_proof_is_valid state h \<and>
             metadata_accepts (fi_price_metadata fi) revised_price
          then bind_res (fold_one (fi_raw_quantity fi) (basis_value (fi_cost_basis fi))
                           (es_side (rh_scope h)) (quantity_value revised_quantity) revised_price)
                 (\<lambda>(folded_quantity, _). Ok (folded_quantity \<noteq> next_raw_quantity))
          else Ok True
      | None \<Rightarrow> Ok True)"

definition m2_apply_broker_execution_fact ::
  "m2_state \<Rightarrow> m2_proof \<Rightarrow> (transition_disposition \<times> first_observation_classification) res" where
  "m2_apply_broker_execution_fact state p =
     bind_res (m2_execution_state_from_direct_proof (Inl state) p) (\<lambda>state.
     let f = mp_fact p
     in case mp_prior_observation p of
          Some prior \<Rightarrow>
            if sf_position_scope prior \<noteq> ms_scope state
            then if sf_fact prior \<noteq> f then Ok (FACT_CONFLICT, sf_classification prior)
                 else Ok (RECONCILIATION_REQUIRED, sf_classification prior)
            else if sf_fact prior = f then Ok (EXACT_REPLAY, sf_classification prior)
            else Ok (FACT_CONFLICT, sf_classification prior)
        | None \<Rightarrow>
            (case (root_fill_of f, revision_of f) of
               (Some (quantity, price), _) \<Rightarrow>
                 if position_scope_of (fact_scope f) \<noteq> ms_scope state \<or> mp_root_head p \<noteq> None \<or>
                    mp_root_claimed p
                 then Ok (RECONCILIATION_REQUIRED, CLASS_RECONCILIATION_REQUIRED)
                 else
                   let next_raw_quantity = ms_raw_quantity state +
                     (if es_side (fact_scope f) = BUY then quantity_value quantity
                      else - quantity_value quantity)
                   in bind_res (m2_fill_pending state f quantity price next_raw_quantity) (\<lambda>pending.
                        Ok (APPLIED, classification_of pending next_raw_quantity))
             | (None, Some (pred, revised_quantity, revised_price)) \<Rightarrow>
                 (case (mp_root_head p, mp_predecessor_observation p) of
                    (Some h, Some predecessor) \<Rightarrow>
                      if position_scope_of (fact_scope f) \<noteq> ms_scope state \<or>
                         rh_authority h \<noteq> BROKER_AUTHORITATIVE \<or> rh_scope h \<noteq> fact_scope f \<or>
                         rh_current_source_event_id h \<noteq> pred \<or>
                         sf_classification predecessor = CLASS_RECONCILIATION_REQUIRED \<or>
                         \<not> observation_matches_head predecessor h
                      then Ok (RECONCILIATION_REQUIRED, CLASS_RECONCILIATION_REQUIRED)
                      else
                        let change = quantity_value revised_quantity - quantity_value (rh_quantity h);
                            signed = (if es_side (rh_scope h) = SELL then - change else change);
                            next_raw_quantity = ms_raw_quantity state + signed
                        in bind_res (m2_revision_pending state h revised_quantity revised_price
                                       next_raw_quantity) (\<lambda>pending.
                             Ok (APPLIED, classification_of pending next_raw_quantity))
                  | _ \<Rightarrow> Ok (RECONCILIATION_REQUIRED, CLASS_RECONCILIATION_REQUIRED))
             | (None, None) \<Rightarrow> Raise TypeError))"

definition apply_broker_execution_fact ::
  "nat \<Rightarrow> position_state \<Rightarrow> position_integrity \<Rightarrow> root_head_index \<Rightarrow> seen_fact_index \<Rightarrow>
   canonical_fact \<Rightarrow> execution_transition res" where
  "apply_broker_execution_fact obj position integrity root_heads seen_facts f =
     require (is_broker_fact f) TypeError
     (if \<not> snapshot_is_coherent position integrity root_heads seen_facts
      then incoherent_snapshot_transition position integrity root_heads seen_facts f
      else
        bind_res (mk_execution_snapshot \<lparr>sn_position = position, sn_integrity = integrity,
                    sn_root_heads = root_heads, sn_seen_facts = seen_facts\<rparr>) (\<lambda>snapshot.
        bind_res (m2_execution_state_from_snapshot snapshot) (\<lambda>state.
        bind_res (m2_proof_from_snapshot state snapshot f) (\<lambda>p.
        bind_res (m2_apply_broker_execution_fact state p) (\<lambda>m2_classification.
          apply_canonical_execution_fact obj position integrity root_heads seen_facts f
            (Some m2_classification))))))"


subsection \<open>The layer accepts its own proof\<close>

definition m2_fields_valid :: "m2_fields \<Rightarrow> bool" where
  "m2_fields_valid x \<longleftrightarrow>
     ms_integrity_floor x \<le> ms_integrity x \<and> ms_reconciliation_transition_count x \<ge> 0 \<and>
     length (ms_reconciliation_transition_head x) = 32 \<and> ms_root_count x \<ge> 0 \<and>
     (\<forall>c \<in> {ms_root_order_commitment x, ms_head_ids_commitment x, ms_root_heads_commitment x,
            ms_seen_facts_commitment x, ms_root_head_map_commitment x,
            ms_seen_fact_map_commitment x, ms_root_claim_map_commitment x}. length c = 32) \<and>
     (if ms_basis_authority x = AVAILABLE
      then \<exists>b. ms_cost_basis x = Some b \<and> (ms_raw_quantity x \<le> 0 \<longrightarrow> basis_value b = 0)
      else ms_cost_basis x = None \<and> ms_basis_price_metadata x = None \<and> ms_tail_fold_input x = None)"

lemma new_m2_execution_state_valid:
  "new_m2_execution_state x =
     (if m2_fields_valid x
      then Ok (m2_fields.extend x (m2_state.fields (m2_execution_state_commitment x)))
      else Raise ValueError)"
  by (auto simp: new_m2_execution_state_def m2_fields_valid_def require_def floor_check
      split: option.splits)

lemma new_m2_execution_state_sel:
  assumes "new_m2_execution_state x = Ok st"
  shows "m2_fields.truncate st = x" "ms_commitment st = m2_execution_state_commitment x"
    "m2_execution_state_commitment st = m2_execution_state_commitment x"
  using assms
  by (auto simp: new_m2_execution_state_def require_eq_Inr m2_fields.defs m2_state.defs
      m2_execution_state_commitment_def)

lemma new_m2_execution_state_authentic:
  "new_m2_execution_state x = Ok st \<Longrightarrow> m2_execution_state_is_authentic st"
  by (simp add: m2_execution_state_is_authentic_def new_m2_execution_state_sel)

lemma m2_truncate_sel:
  assumes "m2_fields.truncate st = x"
  shows "ms_scope st = ms_scope x" "ms_raw_quantity st = ms_raw_quantity x"
    "ms_basis_authority st = ms_basis_authority x" "ms_cost_basis st = ms_cost_basis x"
    "ms_basis_price_metadata st = ms_basis_price_metadata x" "ms_tail_fold_input st = ms_tail_fold_input x"
    "ms_root_count st = ms_root_count x" "ms_root_heads_commitment st = ms_root_heads_commitment x"
    "ms_seen_facts_commitment st = ms_seen_facts_commitment x"
    "ms_root_head_map_commitment st = ms_root_head_map_commitment x"
    "ms_seen_fact_map_commitment st = ms_seen_fact_map_commitment x"
    "ms_root_claim_map_commitment st = ms_root_claim_map_commitment x"
  using assms by (auto simp: m2_fields.defs)

lemma m2_state_from_snapshot_ok:
  assumes "snapshot_ok s"
  obtains st where "m2_execution_state_from_snapshot s = Ok st" "m2_execution_state_is_authentic st"
    "m2_fields.truncate st = m2_fields_of_snapshot s (binding_of s)" "length (ms_commitment st) = 32"
proof -
  let ?x = "m2_fields_of_snapshot s (binding_of s)"
  note ok = snapshot_okD [OF assms]
  have "m2_fields_valid ?x"
    using ok(2,3,8,9)
    by (simp add: m2_fields_valid_def m2_fields_of_snapshot_def position_valid_def
        ri_root_order_commitment_def ri_head_ids_commitment_def cursor_of_def)
  then obtain st where st: "new_m2_execution_state ?x = Ok st" by (simp add: new_m2_execution_state_valid)
  then have "m2_execution_state_from_snapshot s = Ok st"
    using ok(1,5) by (simp add: m2_execution_state_from_snapshot_def)
  moreover have "length (ms_commitment st) = 32"
    by (simp add: new_m2_execution_state_sel [OF st] m2_execution_state_commitment_def)
  ultimately show thesis
    using that new_m2_execution_state_authentic [OF st] new_m2_execution_state_sel(1) [OF st] by blast
qed

lemma witness_matches_commitment: "witness_matches w mc key e \<Longrightarrow> \<exists>c. witness_commitment w = Ok c"
  by (auto simp: witness_matches_def witness_commitment_def split: if_splits sum.splits)

lemma length_record_commitments [simp, len_simps]:
  "length (commit_seen_fact obs) = 32" "length (commit_root_head h) = 32"
  by (simp_all add: commit_seen_fact_def commit_root_head_def)

lemma fact_witness_ok:
  assumes "si_ok seen os"
  obtains w where "fact_witness seen key = Ok w"
    "witness_matches w (pm_commitment (si_by_key seen)) (encode_execution_fact_key key)
       (map_option commit_seen_fact (si_get seen key))"
  using witness_complete [OF si_okD(2) [OF assms], of "encode_execution_fact_key key"] pm_find_map [OF si_okD(2) [OF assms]]
  by (auto simp: fact_witness_def si_get_def)

lemma current_head_witness_ok:
  assumes "ri_ok roots hs"
  obtains w where "ri_current_head_witness roots key = Ok w"
    "witness_matches w (pm_commitment (ri_by_root roots)) (encode_root_fill_key key)
       (map_option commit_root_head (ri_get roots key))"
  using witness_complete [OF ri_okD(2) [OF assms], of "encode_root_fill_key key"] pm_find_map [OF ri_okD(2) [OF assms]]
  by (auto simp: ri_current_head_witness_def ri_get_def)

lemma root_claims_key:
  assumes "\<forall>o' \<in> set os. root_key_fits (obs_root o')" "root_key_fits key"
  shows "root_claims os (encode_root_fill_key key) = (if key \<in> obs_root ` set os then Some key else None)"
  unfolding root_claims_def using assms(1)
proof (induction os)
  case (Cons a os)
  then have "encode_root_fill_key (obs_root a) = encode_root_fill_key key \<longleftrightarrow> obs_root a = key"
    using encode_root_fill_key_inj [OF _ _ assms(2), of "obs_root a"] by auto
  with Cons show ?case by auto
qed simp

lemma root_claim_witness_ok:
  assumes ok: "si_ok seen os" and key: "root_key_fits key"
  obtains w where "root_claim_witness seen key = Ok w"
    "witness_matches w (pm_commitment (si_observed_roots seen)) (encode_root_fill_key key)
       (if contains_root seen key then Some (commit_root_fill_key key) else None)"
proof -
  have fits: "\<forall>o' \<in> set os. root_key_fits (obs_root o')"
    using obs_okD(5) [OF si_okD(1) [OF ok]] by blast
  obtain w where "root_claim_witness seen key = Ok w"
    "witness_matches w (pm_commitment (si_observed_roots seen)) (encode_root_fill_key key)
       (map_option commit_root_fill_key (pm_map (si_observed_roots seen) (encode_root_fill_key key)))"
    using witness_complete [OF si_okD(6) [OF ok], of "encode_root_fill_key key"]
    by (auto simp: root_claim_witness_def)
  then show thesis
    using that contains_root_ok [OF ok key] root_claims_key [OF fits key] by (simp add: si_okD(7) [OF ok] split: if_splits)
qed


lemma predecessor_key_fits:
  "fact_fits f \<Longrightarrow> revision_of f = Some (pred, q, p) \<Longrightarrow> fact_key_fits (predecessor_key_of f pred)"
  by (cases f) (auto simp: fact_fits_def fact_key_fits_def predecessor_key_of_def)

lemma si_get_key:
  "si_ok seen os \<Longrightarrow> fact_key_fits key \<Longrightarrow> si_get seen key = Some obs \<Longrightarrow> fact_key (sf_fact obs) = key"
  by (auto simp: si_get_ok find_Some_iff obs_key_def)

text \<open>The predecessor slice: absent for a fill, looked up and witnessed for a revision.\<close>

lemma predecessor_slice_ok:
  assumes k: "si_ok seen os" and f: "fact_fits f"
  obtains o' w where
    "(case revision_of f of
        None \<Rightarrow> Ok (None, None)
      | Some (pred, _, _) \<Rightarrow> bind_res (fact_witness seen (predecessor_key_of f pred)) (\<lambda>w.
            Ok (si_get seen (predecessor_key_of f pred), Some w))) = Ok (o', w)"
    "o' = (case revision_of f of None \<Rightarrow> None
           | Some (pred, _, _) \<Rightarrow> si_get seen (predecessor_key_of f pred))"
    "\<forall>obs \<in> set_option o'. case revision_of f of None \<Rightarrow> False
       | Some (pred, _, _) \<Rightarrow> fk_source_event_id (fact_key (sf_fact obs)) = pred"
    "case revision_of f of
       Some (pred, _, _) \<Rightarrow> (case w of None \<Rightarrow> False
         | Some w \<Rightarrow> witness_matches w (pm_commitment (si_by_key seen))
             (encode_execution_fact_key (predecessor_key_of f pred)) (map_option commit_seen_fact o'))
     | None \<Rightarrow> w = None"
    "\<exists>c. (case w of Some w \<Rightarrow> witness_commitment w
          | None \<Rightarrow> Ok (commit_parts (text_bytes ''execution-core/m2-predecessor-witness/absent/v1'') [])) = Ok c"
proof (cases "revision_of f")
  case None
  with that show thesis by simp
next
  case (Some r)
  obtain pred q p where r: "r = (pred, q, p)" by (cases r)
  obtain w where w: "fact_witness seen (predecessor_key_of f pred) = Ok w"
    "witness_matches w (pm_commitment (si_by_key seen)) (encode_execution_fact_key (predecessor_key_of f pred))
       (map_option commit_seen_fact (si_get seen (predecessor_key_of f pred)))"
    using fact_witness_ok [OF k] by blast
  have "fk_source_event_id (fact_key (sf_fact obs)) = pred"
    if "si_get seen (predecessor_key_of f pred) = Some obs" for obs
    using si_get_key [OF k predecessor_key_fits [OF f] that] Some r by (simp add: predecessor_key_of_def)
  then show thesis
    using w witness_matches_commitment [OF w(2)]
    by (intro that [of "si_get seen (predecessor_key_of f pred)" "Some w"]) (simp_all add: Some r)
qed

lemma m2_proof_ok:
  assumes k: "kernel_ok s hs os" and f: "fact_admissible f" "is_broker_fact f"
    and st: "m2_execution_state_from_snapshot s = Ok st" "m2_execution_state_is_authentic st"
      "m2_fields.truncate st = m2_fields_of_snapshot s (binding_of s)" "length (ms_commitment st) = 32"
  obtains p where "m2_proof_from_snapshot st s f = Ok p"
    "m2_execution_state_from_direct_proof (Inl st) p = Ok st" "mp_fact p = f"
    "mp_prior_observation p = si_get (sn_seen_facts s) (fact_key f)"
    "mp_root_head p = ri_get (sn_root_heads s) (fact_root_key f)"
    "mp_root_claimed p = contains_root (sn_seen_facts s) (fact_root_key f)"
    "mp_predecessor_observation p = (case revision_of f of None \<Rightarrow> None
       | Some (pred, _, _) \<Rightarrow> si_get (sn_seen_facts s) (predecessor_key_of f pred))"
proof -
  let ?seen = "sn_seen_facts s" and ?roots = "sn_root_heads s"
  note ok = kernel_okD [OF k]
  have fits: "fact_fits f" "root_key_fits (fact_root_key f)" "fact_key_fits (fact_key f)"
    using f(1) fact_fits_root_key by (auto simp: fact_admissible_def fact_fits_def)
  obtain w1 where w1: "fact_witness ?seen (fact_key f) = Ok w1"
    "witness_matches w1 (pm_commitment (si_by_key ?seen)) (encode_execution_fact_key (fact_key f))
       (map_option commit_seen_fact (si_get ?seen (fact_key f)))"
    using fact_witness_ok [OF ok(3)] by blast
  obtain w2 where w2: "ri_current_head_witness ?roots (fact_root_key f) = Ok w2"
    "witness_matches w2 (pm_commitment (ri_by_root ?roots)) (encode_root_fill_key (fact_root_key f))
       (map_option commit_root_head (ri_get ?roots (fact_root_key f)))"
    using current_head_witness_ok [OF ok(2)] by blast
  obtain w4 where w4: "root_claim_witness ?seen (fact_root_key f) = Ok w4"
    "witness_matches w4 (pm_commitment (si_observed_roots ?seen)) (encode_root_fill_key (fact_root_key f))
       (if contains_root ?seen (fact_root_key f) then Some (commit_root_fill_key (fact_root_key f)) else None)"
    using root_claim_witness_ok [OF ok(3) fits(2)] by blast
  obtain o3 w3 where w3: "(case revision_of f of
        None \<Rightarrow> Ok (None, None)
      | Some (pred, _, _) \<Rightarrow> bind_res (fact_witness ?seen (predecessor_key_of f pred)) (\<lambda>w.
            Ok (si_get ?seen (predecessor_key_of f pred), Some w))) = Ok (o3, w3)"
    "o3 = (case revision_of f of None \<Rightarrow> None
           | Some (pred, _, _) \<Rightarrow> si_get ?seen (predecessor_key_of f pred))"
    "\<forall>obs \<in> set_option o3. case revision_of f of None \<Rightarrow> False
       | Some (pred, _, _) \<Rightarrow> fk_source_event_id (fact_key (sf_fact obs)) = pred"
    "case revision_of f of
       Some (pred, _, _) \<Rightarrow> (case w3 of None \<Rightarrow> False
         | Some w \<Rightarrow> witness_matches w (pm_commitment (si_by_key ?seen))
             (encode_execution_fact_key (predecessor_key_of f pred)) (map_option commit_seen_fact o3))
     | None \<Rightarrow> w3 = None"
    "\<exists>c. (case w3 of Some w \<Rightarrow> witness_commitment w
          | None \<Rightarrow> Ok (commit_parts (text_bytes ''execution-core/m2-predecessor-witness/absent/v1'') [])) = Ok c"
    by (rule predecessor_slice_ok [OF ok(3) fits(1)])
  note sel = m2_truncate_sel [OF st(3)]
  define slice where "slice = \<lparr>mp_state_commitment = ms_commitment st,
     mp_root_heads_commitment = ms_root_heads_commitment st,
     mp_seen_facts_commitment = ms_seen_facts_commitment st,
     mp_root_head_map_commitment = ms_root_head_map_commitment st,
     mp_seen_fact_map_commitment = ms_seen_fact_map_commitment st,
     mp_root_claim_map_commitment = ms_root_claim_map_commitment st,
     mp_fact = f, mp_prior_observation = si_get ?seen (fact_key f),
     mp_root_head = ri_get ?roots (fact_root_key f), mp_predecessor_observation = o3,
     mp_root_claimed = contains_root ?seen (fact_root_key f), mp_prior_observation_witness = w1,
     mp_root_head_witness = w2, mp_predecessor_observation_witness = w3, mp_root_claim_witness = w4\<rparr>"
  obtain c where c: "m2_execution_observation_proof_commitment slice = Ok c" "length c = 32"
    using witness_matches_commitment [OF w1(2)] witness_matches_commitment [OF w2(2)]
      witness_matches_commitment [OF w4(2)] w3(5)
    by (auto simp: m2_execution_observation_proof_commitment_def slice_def)
  define p where "p = m2_proof_slice.extend slice (m2_proof.fields c)"
  have psel: "mp_state_commitment p = mp_state_commitment slice"
    "mp_root_heads_commitment p = mp_root_heads_commitment slice"
    "mp_seen_facts_commitment p = mp_seen_facts_commitment slice"
    "mp_root_head_map_commitment p = mp_root_head_map_commitment slice"
    "mp_seen_fact_map_commitment p = mp_seen_fact_map_commitment slice"
    "mp_root_claim_map_commitment p = mp_root_claim_map_commitment slice"
    "mp_fact p = mp_fact slice" "mp_prior_observation p = mp_prior_observation slice"
    "mp_root_head p = mp_root_head slice" "mp_predecessor_observation p = mp_predecessor_observation slice"
    "mp_root_claimed p = mp_root_claimed slice" "mp_prior_observation_witness p = mp_prior_observation_witness slice"
    "mp_root_head_witness p = mp_root_head_witness slice"
    "mp_predecessor_observation_witness p = mp_predecessor_observation_witness slice"
    "mp_root_claim_witness p = mp_root_claim_witness slice" "mp_commitment p = c"
    by (simp_all add: p_def m2_proof_slice.defs m2_proof.defs)
  have pc: "m2_execution_observation_proof_commitment p = Ok c"
    using c(1) by (simp add: m2_execution_observation_proof_commitment_def psel)
  have auth: "m2_proof_is_authentic p"
    using pc f(2) st(4) c(2)
    by (simp add: m2_proof_is_authentic_def psel slice_def sel m2_fields_of_snapshot_def)
  have mint: "m2_proof_from_snapshot st s f = Ok p"
    using st(1,2) f(2) w1(1) w2(1) w3(1) w4(1) c(1)
    by (simp add: m2_proof_from_snapshot_def Let_def p_def flip: slice_def)
  have prior: "fact_key (sf_fact obs) = fact_key f" if "si_get ?seen (fact_key f) = Some obs" for obs
    using si_get_key [OF ok(3) fits(3) that] .
  have root: "rh_root_key h = fact_root_key f \<and> position_scope_of (rh_scope h) = po_scope (sn_position s)"
    if "ri_get ?roots (fact_root_key f) = Some h" for h
    using ri_get_Some_nth [OF ok(2) fits(2) that] ri_okD(11) [OF ok(2)] kernel_ok_parts(3) [OF k]
    by (metis nth_mem option.inject)
  have "m2_execution_state_from_direct_proof (Inl st) p = Ok st"
    using st(2) auth prior root w1(2) w2(2) w3(3,4) w4(2)
    by (simp add: m2_execution_state_from_direct_proof_def psel slice_def sel m2_fields_of_snapshot_def Let_def
        cong: option.case_cong)
  with mint show thesis
    using that [of p] w3(2) by (simp add: psel slice_def)
qed

end
