(* ===== verification/M2_Correct.thy ===== *)
theory M2_Correct
  imports M2
begin

text \<open>
  The bounded layer against the canonical transition: what it classifies from its state and proof is
  what the canonical transition does, so that the public application of a broker fact is the
  canonical transition on every snapshot that satisfies the invariant.
\<close>

subsection \<open>The layer agrees with the canonical transition\<close>

lemma m2_fill_pending_ok:
  assumes st: "m2_fields.truncate st = m2_fields_of_snapshot s b"
    and "root_fill_basis (sn_position s) f quantity price next = Ok folded"
  shows "m2_fill_pending st f quantity price next = Ok (folded = None)"
  using assms(2)
  by (auto simp: m2_fill_pending_def root_fill_basis_def m2_truncate_sel [OF st] m2_fields_of_snapshot_def
      bind_res_eq_Inr split: option.splits if_splits)

lemma finish_applied_outcome:
  "finish_applied obj p i seen f b roots d next folded = Ok tr \<Longrightarrow>
   tr_disposition tr = APPLIED \<and> tr_original_classification tr = classification_of (folded = None) next"
  by (auto simp: finish_applied_def Let_def bind_res_eq_Inr transition_of_def)

lemma apply_root_fill_outcome:
  assumes "apply_root_fill obj p i roots seen f quantity price = Ok tr"
    and "\<not> (position_scope_of (fact_scope f) \<noteq> po_scope p \<or> ri_get roots (fact_root_key f) \<noteq> None \<or>
             contains_root seen (fact_root_key f))"
  obtains folded where "root_fill_basis p f quantity price (po_raw_quantity p +
      (if es_side (fact_scope f) = BUY then quantity_value quantity else - quantity_value quantity)) = Ok folded"
    "tr_disposition tr = APPLIED" "tr_original_classification tr = classification_of (folded = None)
      (po_raw_quantity p +
        (if es_side (fact_scope f) = BUY then quantity_value quantity else - quantity_value quantity))"
  using assms finish_applied_outcome
  by (auto simp: apply_root_fill_def Let_def bind_res_eq_Inr split: option.splits)

lemma apply_revision_outcome:
  assumes "apply_revision obj p i roots seen f pred quantity price = Ok tr"
    and "ri_get roots (fact_root_key f) = Some h"
    and "\<not> (position_scope_of (fact_scope f) \<noteq> po_scope p \<or> rh_authority h \<noteq> BROKER_AUTHORITATIVE \<or>
             rh_scope h \<noteq> fact_scope f \<or> rh_current_source_event_id h \<noteq> pred \<or>
             \<not> current_predecessor_is_proven seen h f pred)"
    and "next = po_raw_quantity p + (let change = quantity_value quantity - quantity_value (rh_quantity h)
       in if es_side (rh_scope h) = SELL then - change else change)"
  obtains folded where "revision_basis p h quantity price next = Ok folded"
    "tr_disposition tr = APPLIED" "tr_original_classification tr = classification_of (folded = None) next"
  using assms finish_applied_outcome
  by (auto simp: apply_revision_def Let_def bind_res_eq_Inr split: option.splits)

text \<open>The bounded tail check sees what the full one sees.\<close>

lemma m2_tail_proof_ok:
  assumes k: "kernel_ok s hs os" and st: "m2_fields.truncate st = m2_fields_of_snapshot s b"
    and i: "i < length hs"
  shows "Suc i = length hs \<Longrightarrow>
      tail_proof_is_valid (sn_position s) (hs ! i) = Ok (m2_tail_proof_is_valid st (hs ! i))"
    and "Suc i \<noteq> length hs \<Longrightarrow> \<not> m2_tail_proof_is_valid st (hs ! i)"
proof -
  note ri = kernel_okD(2) [OF k] and sel = m2_truncate_sel [OF st]
  have seq: "rh_original_sequence (hs ! i) = i" using heads_okD(1) [OF ri_okD(1) [OF ri] i] .
  have cnt: "ri_count (sn_root_heads s) = length hs" by (rule ri_count_ok [OF ri])
  have ne: "hs \<noteq> []" using i by auto
  show "Suc i \<noteq> length hs \<Longrightarrow> \<not> m2_tail_proof_is_valid st (hs ! i)"
    using ne by (auto simp: m2_tail_proof_is_valid_def seq sel m2_fields_of_snapshot_def cnt split: option.splits)
  assume tail: "Suc i = length hs"
  then have n: "int (po_root_count (sn_position s)) - 1 = int i"
    using kernel_ok_parts(5) [OF k] by simp
  have "seq_get (po_root_fill_sequence (sn_position s)) (int (po_root_count (sn_position s)) - 1) =
      Ok (rh_root_key (hs ! i))"
    "seq_get (po_effective_head_ids (sn_position s)) (int (po_root_count (sn_position s)) - 1) =
      Ok (rh_current_source_event_id (hs ! i))"
    unfolding n using i seq_get_list [OF ri_okD(4) [OF ri], of "int i"] seq_get_list [OF ri_okD(6) [OF ri], of "int i"]
      ri_okD(5,7) [OF ri]
    by (auto simp: kernel_ok_parts(6,7) [OF k])
  then show "tail_proof_is_valid (sn_position s) (hs ! i) = Ok (m2_tail_proof_is_valid st (hs ! i))"
    using tail ne kernel_ok_parts(5) [OF k]
    by (auto simp: tail_proof_is_valid_def m2_tail_proof_is_valid_def seq sel m2_fields_of_snapshot_def cnt
        split: option.splits)
qed

lemma m2_revision_pending_ok:
  assumes k: "kernel_ok s hs os" and st: "m2_fields.truncate st = m2_fields_of_snapshot s b"
    and i: "i < length hs" and r: "revision_basis (sn_position s) (hs ! i) quantity price next = Ok folded"
  shows "m2_revision_pending st (hs ! i) quantity price next = Ok (folded = None)"
proof -
  have seq: "rh_original_sequence (hs ! i) = i" "po_root_count (sn_position s) = length hs"
    using heads_okD(1) [OF ri_okD(1) [OF kernel_okD(2) [OF k]] i] kernel_ok_parts(5) [OF k] by simp_all
  show ?thesis
  proof (cases "Suc i = length hs")
    case True
    with r m2_tail_proof_ok(1) [OF k st i True] seq show ?thesis
      by (auto simp: m2_revision_pending_def revision_basis_def m2_truncate_sel [OF st] m2_fields_of_snapshot_def
          bind_res_eq_Inr split: option.splits if_splits)
  next
    case False
    with r m2_tail_proof_ok(2) [OF k st i False] seq show ?thesis
      by (auto simp: m2_revision_pending_def revision_basis_def split: option.splits if_splits)
  qed
qed


text \<open>The classification computed from the bounded state, in the terms of the snapshot.\<close>

lemma m2_classification_first:
  assumes "m2_execution_state_from_direct_proof (Inl st) p = Ok st" "mp_prior_observation p = Some first"
    "ms_scope st = scope" "mp_fact p = f"
  shows "m2_apply_broker_execution_fact st p = Ok
    (if sf_fact first \<noteq> f then FACT_CONFLICT
     else if sf_position_scope first \<noteq> scope then RECONCILIATION_REQUIRED else EXACT_REPLAY,
     sf_classification first)"
  using assms by (simp add: m2_apply_broker_execution_fact_def)

lemma m2_classification_fill:
  assumes k: "kernel_ok s hs os" and st: "m2_fields.truncate st = m2_fields_of_snapshot s b"
    and p: "m2_execution_state_from_direct_proof (Inl st) p = Ok st" "mp_fact p = f" "mp_prior_observation p = None"
      "mp_root_head p = ri_get (sn_root_heads s) (fact_root_key f)"
      "mp_root_claimed p = contains_root (sn_seen_facts s) (fact_root_key f)"
    and f: "root_fill_of f = Some (quantity, price)"
    and tr: "apply_root_fill obj (sn_position s) (sn_integrity s) (sn_root_heads s) (sn_seen_facts s) f quantity price = Ok tr"
    and bound: "po_binding (sn_position s) \<noteq> None"
  shows "m2_apply_broker_execution_fact st p = Ok (RECONCILIATION_REQUIRED, CLASS_RECONCILIATION_REQUIRED) \<and>
      apply_root_fill obj (sn_position s) (sn_integrity s) (sn_root_heads s) (sn_seen_facts s) f quantity price =
      reconciliation_transition obj (sn_position s) (sn_integrity s) (sn_root_heads s) (sn_seen_facts s) f \<or>
    m2_apply_broker_execution_fact st p = Ok (APPLIED, tr_original_classification tr) \<and> tr_disposition tr = APPLIED"
proof (cases "position_scope_of (fact_scope f) \<noteq> po_scope (sn_position s) \<or>
    ri_get (sn_root_heads s) (fact_root_key f) \<noteq> None \<or> contains_root (sn_seen_facts s) (fact_root_key f)")
  case True
  with p f bound show ?thesis
    by (auto simp: m2_apply_broker_execution_fact_def apply_root_fill_def m2_truncate_sel [OF st]
        m2_fields_of_snapshot_def)
next
  case False
  obtain folded where "root_fill_basis (sn_position s) f quantity price (po_raw_quantity (sn_position s) +
      (if es_side (fact_scope f) = BUY then quantity_value quantity else - quantity_value quantity)) = Ok folded"
    "tr_disposition tr = APPLIED" "tr_original_classification tr = classification_of (folded = None)
      (po_raw_quantity (sn_position s) +
        (if es_side (fact_scope f) = BUY then quantity_value quantity else - quantity_value quantity))"
    using apply_root_fill_outcome [OF tr False] by blast
  with False p f m2_fill_pending_ok [OF st] show ?thesis
    by (simp add: m2_apply_broker_execution_fact_def m2_truncate_sel [OF st] m2_fields_of_snapshot_def Let_def)
qed

lemma m2_classification_revision:
  assumes k: "kernel_ok s hs os" and st: "m2_fields.truncate st = m2_fields_of_snapshot s b"
    and p: "m2_execution_state_from_direct_proof (Inl st) p = Ok st" "mp_fact p = f" "mp_prior_observation p = None"
      "mp_root_head p = ri_get (sn_root_heads s) (fact_root_key f)"
      "mp_predecessor_observation p = si_get (sn_seen_facts s) (predecessor_key_of f pred)"
    and f: "revision_of f = Some (pred, quantity, price)" "root_key_fits (fact_root_key f)"
    and tr: "apply_revision obj (sn_position s) (sn_integrity s) (sn_root_heads s) (sn_seen_facts s) f pred quantity price = Ok tr"
    and bound: "po_binding (sn_position s) \<noteq> None"
  shows "m2_apply_broker_execution_fact st p = Ok (RECONCILIATION_REQUIRED, CLASS_RECONCILIATION_REQUIRED) \<and>
      apply_revision obj (sn_position s) (sn_integrity s) (sn_root_heads s) (sn_seen_facts s) f pred quantity price =
      reconciliation_transition obj (sn_position s) (sn_integrity s) (sn_root_heads s) (sn_seen_facts s) f \<or>
    m2_apply_broker_execution_fact st p = Ok (APPLIED, tr_original_classification tr) \<and> tr_disposition tr = APPLIED"
proof -
  have nofill: "root_fill_of f = None" using f(1) by (cases f) auto
  note sel = m2_truncate_sel [OF st]
  let ?bad = "\<lambda>h. position_scope_of (fact_scope f) \<noteq> po_scope (sn_position s) \<or>
     rh_authority h \<noteq> BROKER_AUTHORITATIVE \<or> rh_scope h \<noteq> fact_scope f \<or>
     rh_current_source_event_id h \<noteq> pred \<or> \<not> current_predecessor_is_proven (sn_seen_facts s) h f pred"
  show ?thesis
  proof (cases "ri_get (sn_root_heads s) (fact_root_key f)")
    case None
    with p f(1) nofill bound show ?thesis
      by (auto simp: m2_apply_broker_execution_fact_def apply_revision_def)
  next
    case (Some h)
    show ?thesis
    proof (cases "?bad h")
      case True
      then have "apply_revision obj (sn_position s) (sn_integrity s) (sn_root_heads s) (sn_seen_facts s) f pred
          quantity price =
        reconciliation_transition obj (sn_position s) (sn_integrity s) (sn_root_heads s) (sn_seen_facts s) f"
        using Some bound by (auto simp: apply_revision_def)
      moreover have "m2_apply_broker_execution_fact st p = Ok (RECONCILIATION_REQUIRED, CLASS_RECONCILIATION_REQUIRED)"
        using True Some p f(1) nofill
        by (auto simp: m2_apply_broker_execution_fact_def sel m2_fields_of_snapshot_def
            current_predecessor_is_proven_def split: option.splits)
      ultimately show ?thesis by simp
    next
      case False
      define i where "i = rh_original_sequence h"
      have i: "i < length hs" "hs ! i = h"
        using ri_get_Some_nth [OF kernel_okD(2) [OF k] f(2) Some] by (simp_all add: i_def)
      define nxt where "nxt = po_raw_quantity (sn_position s) +
        (let change = quantity_value quantity - quantity_value (rh_quantity h)
         in if es_side (rh_scope h) = SELL then - change else change)"
      obtain folded where fo: "revision_basis (sn_position s) h quantity price nxt = Ok folded"
        "tr_disposition tr = APPLIED" "tr_original_classification tr = classification_of (folded = None) nxt"
        using apply_revision_outcome [OF tr Some False nxt_def] by blast
      have pending: "m2_revision_pending st h quantity price nxt = Ok (folded = None)"
        using m2_revision_pending_ok [OF k st i(1), of quantity price nxt folded] fo(1) by (simp add: i(2))
      obtain o' where o': "si_get (sn_seen_facts s) (predecessor_key_of f pred) = Some o'"
        "sf_classification o' \<noteq> CLASS_RECONCILIATION_REQUIRED" "observation_matches_head o' h"
        using False by (auto simp: current_predecessor_is_proven_def split: option.splits)
      have "m2_apply_broker_execution_fact st p = bind_res (m2_revision_pending st h quantity price nxt)
          (\<lambda>pending. Ok (APPLIED, classification_of pending nxt))"
        using False Some p f(1) nofill o'
        by (simp add: m2_apply_broker_execution_fact_def sel m2_fields_of_snapshot_def nxt_def Let_def)
      with fo pending show ?thesis by simp
    qed
  qed
qed

lemma m2_transparent:
  assumes imp: "implements s L" and f: "fact_admissible f" "is_broker_fact f" and room: "has_room (lg_observations L)"
  shows "apply_broker_execution_fact obj (sn_position s) (sn_integrity s) (sn_root_heads s) (sn_seen_facts s) f =
    apply_canonical_execution_fact obj (sn_position s) (sn_integrity s) (sn_root_heads s) (sn_seen_facts s) f None"
proof -
  obtain hs where k: "kernel_ok s hs (lg_observations L)" using imp by (elim implementsE)
  note ok = kernel_okD [OF k]
  obtain st where st: "m2_execution_state_from_snapshot s = Ok st" "m2_execution_state_is_authentic st"
    "m2_fields.truncate st = m2_fields_of_snapshot s (binding_of s)" "length (ms_commitment st) = 32"
    using m2_state_from_snapshot_ok [OF ok(1)] by blast
  obtain p where p: "m2_proof_from_snapshot st s f = Ok p"
    "m2_execution_state_from_direct_proof (Inl st) p = Ok st" "mp_fact p = f"
    "mp_prior_observation p = si_get (sn_seen_facts s) (fact_key f)"
    "mp_root_head p = ri_get (sn_root_heads s) (fact_root_key f)"
    "mp_root_claimed p = contains_root (sn_seen_facts s) (fact_root_key f)"
    "mp_predecessor_observation p = (case revision_of f of None \<Rightarrow> None
       | Some (pred, _, _) \<Rightarrow> si_get (sn_seen_facts s) (predecessor_key_of f pred))"
    using m2_proof_ok [OF k f st] by blast
  have coh: "snapshot_is_coherent (sn_position s) (sn_integrity s) (sn_root_heads s) (sn_seen_facts s)"
    by (rule snapshot_okD(1) [OF ok(1)])
  have eta: "\<lparr>sn_position = sn_position s, sn_integrity = sn_integrity s, sn_root_heads = sn_root_heads s,
      sn_seen_facts = sn_seen_facts s\<rparr> = s" by simp
  have lhs: "apply_broker_execution_fact obj (sn_position s) (sn_integrity s) (sn_root_heads s) (sn_seen_facts s) f =
      bind_res (m2_apply_broker_execution_fact st p) (\<lambda>m2.
        apply_canonical_execution_fact obj (sn_position s) (sn_integrity s) (sn_root_heads s) (sn_seen_facts s) f (Some m2))"
    using f(2) coh st(1) p(1) by (simp add: apply_broker_execution_fact_def mk_execution_snapshot_def eta)
  let ?can = "apply_canonical_execution_fact obj (sn_position s) (sn_integrity s) (sn_root_heads s) (sn_seen_facts s) f"
  obtain tr where tr: "?can None = Ok tr"
    using canonical_simulates [OF imp f(1) room, of obj] by (auto simp: simulates_def)
  have scope: "ms_scope st = po_scope (sn_position s)"
    by (simp add: m2_truncate_sel [OF st(3)] m2_fields_of_snapshot_def)
  show ?thesis
  proof (cases "si_get (sn_seen_facts s) (fact_key f)")
    case (Some first)
    with p(4) have "mp_prior_observation p = Some first" by simp
    from m2_classification_first [OF p(2) this scope p(3)] Some coh show ?thesis
      by (auto simp: lhs apply_canonical_execution_fact_def Let_def)
  next
    case None
    then have first: "apply_first_observation obj (sn_position s) (sn_integrity s) (sn_root_heads s) (sn_seen_facts s) f = Ok tr"
      using tr coh by (simp add: apply_canonical_execution_fact_def)
    have prior: "mp_prior_observation p = None" using None p(4) by simp
    have bound: "po_binding (sn_position s) \<noteq> None" using snapshot_okD(5) [OF ok(1)] by simp
    have fits: "root_key_fits (fact_root_key f)" using f(1) fact_fits_root_key by (simp add: fact_admissible_def)
    have "m2_apply_broker_execution_fact st p = Ok (RECONCILIATION_REQUIRED, CLASS_RECONCILIATION_REQUIRED) \<and>
        Ok tr = reconciliation_transition obj (sn_position s) (sn_integrity s) (sn_root_heads s) (sn_seen_facts s) f \<or>
      m2_apply_broker_execution_fact st p = Ok (APPLIED, tr_original_classification tr) \<and> tr_disposition tr = APPLIED"
    proof (cases "root_fill_of f")
      case (Some r)
      obtain q pr where r: "r = (q, pr)" by (cases r)
      have "apply_root_fill obj (sn_position s) (sn_integrity s) (sn_root_heads s) (sn_seen_facts s) f q pr = Ok tr"
        using first Some r f(2) by (cases f) (auto simp: apply_first_observation_def)
      from m2_classification_fill [OF k st(3) p(2,3) prior p(5,6) Some [unfolded r] this bound] this
      show ?thesis by simp
    next
      case nofill: None
      then obtain pred q pr where r: "revision_of f = Some (pred, q, pr)" by (cases f) auto
      have tr': "apply_revision obj (sn_position s) (sn_integrity s) (sn_root_heads s) (sn_seen_facts s) f pred q pr = Ok tr"
        using first r by (cases f) (auto simp: apply_first_observation_def)
      have "mp_predecessor_observation p = si_get (sn_seen_facts s) (predecessor_key_of f pred)"
        using p(7) r by simp
      from m2_classification_revision [OF k st(3) p(2,3) prior p(5) this r fits tr' bound] tr'
      show ?thesis by simp
    qed
    then show ?thesis
      using None coh first tr by (auto simp: lhs apply_canonical_execution_fact_def)
  qed
qed

end
