(* ===== verification/Machine.thy ===== *)
theory Machine
  imports M2_Correct
begin

text \<open>
  The execution kernel as a machine: one event per operation that changes a snapshot without an
  external cursor, the snapshot each leaves, and the ledger events they implement. Shown here: every
  run of admissible events from a snapshot that implements a ledger goes through, as long as the
  registry has room, and ends in a snapshot that implements the ledger after the same events.
\<close>

subsection \<open>Evidence without economics\<close>

text \<open>\<^verbatim>\<open>_record_execution_reconciliation\<close> and
  \<^verbatim>\<open>_record_broker_corroboration\<close> on the ledger.\<close>

definition ledger_record_reconciliation :: "canonical_fact \<Rightarrow> ledger \<Rightarrow> ledger_outcome" where
  "ledger_record_reconciliation f L =
     (case find (\<lambda>obs. obs_key obs = fact_key f) (lg_observations L) of
        None \<Rightarrow> ledger_reconcile f L
      | Some first \<Rightarrow>
          let i = (if sf_fact first \<noteq> f then sup (lg_integrity L) EXECUTION_FACT_CONFLICT
                   else lg_integrity L)
          in (L\<lparr>lg_integrity := sup i EXECUTION_RECONCILIATION_REQUIRED\<rparr>,
              if sf_fact first \<noteq> f then FACT_CONFLICT else RECONCILIATION_REQUIRED,
              sf_classification first))"

definition ledger_corroborate :: "canonical_fact \<Rightarrow> ledger \<Rightarrow> ledger_outcome" where
  "ledger_corroborate f L =
     (case find (\<lambda>obs. obs_key obs = fact_key f) (lg_observations L) of
        Some first \<Rightarrow>
          if sf_fact first = f then (L, EXACT_REPLAY, sf_classification first)
          else (L\<lparr>lg_integrity := sup (lg_integrity L) EXECUTION_FACT_CONFLICT\<rparr>, FACT_CONFLICT,
                sf_classification first)
      | None \<Rightarrow>
          if fact_root_key f \<in> obs_root ` set (lg_observations L) then ledger_reconcile f L
          else (L\<lparr>lg_observations := lg_observations L @
                    [\<lparr>sf_fact = f, sf_classification = CORROBORATED_ZERO_ECONOMIC,
                      sf_position_scope = lg_scope L\<rparr>]\<rparr>,
                APPLIED, CORROBORATED_ZERO_ECONOMIC))"

lemma implements_coherent:
  "implements s L \<Longrightarrow> snapshot_is_coherent (sn_position s) (sn_integrity s) (sn_root_heads s) (sn_seen_facts s)"
  by (auto elim!: implementsE intro: snapshot_okD(1) kernel_okD(1))

lemma record_reconciliation_simulates:
  assumes imp: "implements s L" and f: "fact_admissible (BrokerFill b)" and room: "has_room (lg_observations L)"
  shows "simulates s L (record_execution_reconciliation obj (sn_position s) (sn_integrity s) (sn_root_heads s)
      (sn_seen_facts s) b) (ledger_record_reconciliation (BrokerFill b) L)"
proof -
  have get: "si_get (sn_seen_facts s) (fact_key (BrokerFill b)) =
      find (\<lambda>obs. obs_key obs = fact_key (BrokerFill b)) (lg_observations L)"
    using implements_get [OF imp] f by (simp add: fact_admissible_def fact_fits_def)
  have L: "lg_integrity L = sn_integrity s" using imp by (auto elim!: implementsE)
  show ?thesis
  proof (cases "si_get (sn_seen_facts s) (fact_key (BrokerFill b))")
    case None
    with get have "find (\<lambda>obs. obs_key obs = fact_key (BrokerFill b)) (lg_observations L) = None" by simp
    with None reconciliation_simulates [OF imp f None room] implements_coherent [OF imp] show ?thesis
      by (simp add: record_execution_reconciliation_def ledger_record_reconciliation_def)
  next
    case (Some first)
    with get have "find (\<lambda>obs. obs_key obs = fact_key (BrokerFill b)) (lg_observations L) = Some first" by simp
    with Some show ?thesis
      using implements_coherent [OF imp] L
      by (auto simp: record_execution_reconciliation_def ledger_record_reconciliation_def Let_def
          intro!: unchanged_simulates [OF imp] le_supI1)
  qed
qed

lemma ledger_reconciliation_new:
  "find (\<lambda>obs. obs_key obs = fact_key f) (lg_observations L) = None \<Longrightarrow>
   ledger_record_reconciliation f L = ledger_reconcile f L"
  by (simp add: ledger_record_reconciliation_def)

lemma corroboration_simulates:
  assumes imp: "implements s L" and f: "fact_admissible (BrokerFill b)" and room: "has_room (lg_observations L)"
    and scope: "position_scope_of (bf_scope b) = lg_scope L"
  shows "simulates s L (record_broker_corroboration obj (sn_position s) (sn_integrity s) (sn_root_heads s)
      (sn_seen_facts s) b) (ledger_corroborate (BrokerFill b) L)"
proof -
  let ?f = "BrokerFill b"
  obtain hs where hs: "kernel_ok s hs (lg_observations L)" "lg_heads L = map unproven hs"
    "lg_integrity L = sn_integrity s"
    "lg_available L = (po_basis_authority (sn_position s) = AVAILABLE)" "lg_scope L = po_scope (sn_position s)"
    using imp by (elim implementsE)
  have get: "si_get (sn_seen_facts s) (fact_key ?f) =
      find (\<lambda>obs. obs_key obs = fact_key ?f) (lg_observations L)"
    using implements_get [OF imp] f by (simp add: fact_admissible_def fact_fits_def)
  have fits: "root_key_fits (fact_root_key ?f)" using f fact_fits_root_key by (simp add: fact_admissible_def)
  have claims: "contains_root (sn_seen_facts s) (fact_root_key ?f) \<longleftrightarrow>
      fact_root_key ?f \<in> obs_root ` set (lg_observations L)"
    by (rule contains_root_ok [OF kernel_okD(3) [OF hs(1)] fits])
  have coh: "snapshot_is_coherent (sn_position s) (sn_integrity s) (sn_root_heads s) (sn_seen_facts s)"
    by (rule implements_coherent [OF imp])
  show ?thesis
  proof (cases "si_get (sn_seen_facts s) (fact_key ?f)")
    case (Some first)
    with get have fnd: "find (\<lambda>obs. obs_key obs = fact_key ?f) (lg_observations L) = Some first" by simp
    have same: "simulates s L (unchanged_transition obj (sn_position s) (sn_integrity s) (sn_root_heads s)
        (sn_seen_facts s) d c) (L, d, c)" for d c
      using unchanged_simulates [OF imp order_refl, of obj d c] by (simp add: hs(3) [symmetric])
    then show ?thesis
      using Some fnd coh hs(3)
        unchanged_simulates [OF imp, of "sup (sn_integrity s) EXECUTION_FACT_CONFLICT"]
      by (auto simp: record_broker_corroboration_def ledger_corroborate_def)
  next
    case new: None
    with get have fnd: "find (\<lambda>obs. obs_key obs = fact_key ?f) (lg_observations L) = None" by simp
    show ?thesis
    proof (cases "fact_root_key ?f \<in> obs_root ` set (lg_observations L)")
      case True
      with new fnd coh claims record_reconciliation_simulates [OF imp f room, of obj] show ?thesis
        by (simp add: record_broker_corroboration_def ledger_corroborate_def ledger_reconciliation_new)
    next
      case False
      define obs where "obs = \<lparr>sf_fact = ?f, sf_classification = CORROBORATED_ZERO_ECONOMIC,
        sf_position_scope = po_scope (sn_position s)\<rparr>"
      have v: "seen_valid obs" "\<not> is_overfill_class (sf_classification obs)"
        using scope hs(5) by (simp_all add: obs_def seen_valid_def is_overfill_class_def)
      have sel: "fact_admissible (sf_fact obs)" "sf_position_scope obs = po_scope (sn_position s)"
        "si_get (sn_seen_facts s) (obs_key obs) = None"
        using f new by (simp_all add: obs_def obs_key_def)
      obtain seen' s' where s': "si_add (sn_seen_facts s) obs = Ok seen'"
        "bind_components obj (sn_position s) (sn_integrity s) (sn_root_heads s) seen' None None None = Ok s'"
        "kernel_ok s' hs (lg_observations L @ [obs])" "sn_integrity s' = sn_integrity s"
        "sn_position s' = (sn_position s)\<lparr>po_integrity_floor := sn_integrity s, po_binding := Some (binding_of s')\<rparr>"
        "cursor_of s' = cursor_of s" "account_latched s' = account_latched s"
        using record_kernel_ok [OF hs(1) sel(1) v(1) sel(2,3) room v(2) order_refl] by metis
      have "mk_seen_fact ?f CORROBORATED_ZERO_ECONOMIC (Some (po_scope (sn_position s))) = Ok obs"
        using v(1) by (simp add: mk_seen_fact_valid(1) obs_def)
      then have "record_broker_corroboration obj (sn_position s) (sn_integrity s) (sn_root_heads s)
          (sn_seen_facts s) b = Ok (transition_of s' 0 (Some 0) APPLIED CORROBORATED_ZERO_ECONOMIC)"
        using s'(1,2) coh new False claims by (simp add: record_broker_corroboration_def)
      moreover have "implements s' (fst (ledger_corroborate ?f L))"
        using s'(3,4,5) hs False fnd by (auto simp: implements_def ledger_corroborate_def obs_def)
      ultimately show ?thesis
        using s'(6,7) False fnd by (auto simp: simulates_def ledger_corroborate_def ledger_quantity_def)
    qed
  qed
qed

subsection \<open>Latches\<close>

lemma latch_integrity_ok:
  assumes imp: "implements s L"
  obtains s' where "latch_execution_integrity obj s evidence = Ok s'"
    "implements s' (L\<lparr>lg_integrity := sup (lg_integrity L) evidence\<rparr>)"
    "cursor_of s' = cursor_of s" "account_latched s' = account_latched s"
    "si_count (sn_seen_facts s') = si_count (sn_seen_facts s)"
proof -
  obtain hs where hs: "kernel_ok s hs (lg_observations L)" "lg_heads L = map unproven hs"
    "lg_integrity L = sn_integrity s"
    "lg_available L = (po_basis_authority (sn_position s) = AVAILABLE)" "lg_scope L = po_scope (sn_position s)"
    using imp by (elim implementsE)
  note ok = kernel_okD(1) [OF hs(1)]
  let ?i = "sup (sn_integrity s) evidence"
  define s' where "s' = sealed_snapshot obj ((sn_position s)\<lparr>po_integrity_floor := ?i, po_binding := None\<rparr>) ?i
    (sn_root_heads s) (sn_seen_facts s) (account_latched s) (cursor_of s)"
  have cur: "bind_cursor [cursor_of s] None None = Ok (cursor_of s)"
    using snapshot_okD(8,9) [OF ok] bind_cursor_simps(1) by (metis prod.collapse)
  have latch: "latch_execution_integrity obj s evidence = Ok s'"
    using rebind_ok [OF ok _ kernel_ok_parts(1) [OF hs(1)] sup_ge1 cur, where obj = obj and account = None] snapshot_okD(7) [OF ok]
    by (simp add: latch_execution_integrity_def s'_def)
  then have "snapshot_ok s'"
    unfolding latch_execution_integrity_def by (rule bind_components_snapshot_ok)
  then have "rebound s s' ?i" by (simp add: rebound_def s'_def binding_of_def)
  then have "kernel_ok s' hs (lg_observations L)" using rebound_kernel_ok [OF hs(1)] by simp
  then have "implements s' (L\<lparr>lg_integrity := sup (lg_integrity L) evidence\<rparr>)"
    using hs by (auto simp: implements_def s'_def)
  with that latch show thesis by (simp add: s'_def)
qed

lemma latch_account_ok:
  assumes imp: "implements s L"
  obtains s' where "latch_account_execution_reconciliation obj s = Ok s'" "implements s' L"
    "cursor_of s' = cursor_of s" "account_latched s'"
    "si_count (sn_seen_facts s') = si_count (sn_seen_facts s)"
proof -
  obtain hs where hs: "kernel_ok s hs (lg_observations L)" "lg_heads L = map unproven hs"
    "lg_integrity L = sn_integrity s"
    "lg_available L = (po_basis_authority (sn_position s) = AVAILABLE)" "lg_scope L = po_scope (sn_position s)"
    using imp by (elim implementsE)
  note ok = kernel_okD(1) [OF hs(1)]
  have req: "sn_account_reconciliation_required s = Ok (account_latched s)"
    using snapshot_okD(5) [OF ok] by (simp add: sn_account_reconciliation_required_def sn_binding_def account_latched_def)
  show thesis
  proof (cases "account_latched s")
    case True
    with that [of s] req imp show thesis by (simp add: latch_account_execution_reconciliation_def)
  next
    case False
    let ?i = "sn_integrity s"
    define s' where "s' = sealed_snapshot obj ((sn_position s)\<lparr>po_integrity_floor := ?i, po_binding := None\<rparr>) ?i
      (sn_root_heads s) (sn_seen_facts s) True (cursor_of s)"
    have cur: "bind_cursor [cursor_of s] None None = Ok (cursor_of s)"
      using snapshot_okD(8,9) [OF ok] bind_cursor_simps(1) by (metis prod.collapse)
    have bind: "bind_components obj (sn_position s) ?i (sn_root_heads s) (sn_seen_facts s) (Some True) None None = Ok s'"
      using rebind_ok [OF ok _ kernel_ok_parts(1) [OF hs(1)] order_refl cur, where obj = obj and account = "Some True"] snapshot_okD(7) [OF ok]
      by (simp add: s'_def)
    then have "snapshot_ok s'" by (rule bind_components_snapshot_ok)
    then have "kernel_ok s' hs (lg_observations L)"
      using kernel_okD [OF hs(1)] by (simp add: kernel_ok_def s'_def overfill_latched_def)
    then have "implements s' L" using hs by (auto simp: implements_def s'_def)
    with that [of s'] bind False req show thesis
      by (simp add: latch_account_execution_reconciliation_def s'_def)
  qed
qed


subsection \<open>The machine\<close>

datatype kernel_event =
    ApplyBroker canonical_fact
  | ApplyAttested human_attested_fill_fact
  | RecordReconciliation broker_fill_fact
  | RecordCorroboration broker_fill_fact
  | LatchIntegrity position_integrity
  | LatchAccount

text \<open>The snapshot a transition leaves, as its callers rebuild it.\<close>

definition snapshot_after :: "execution_transition res \<Rightarrow> execution_snapshot res" where
  "snapshot_after r = bind_res r (\<lambda>tr.
     mk_execution_snapshot
       \<lparr>sn_position = tr_position tr, sn_integrity = tr_integrity tr,
        sn_root_heads = tr_root_heads tr, sn_seen_facts = tr_seen_facts tr\<rparr>)"

definition kernel_step :: "kernel_event \<Rightarrow> execution_snapshot \<Rightarrow> execution_snapshot res" where
  "kernel_step e s =
     (let obj = Suc (sb_object (binding_of s)); p = sn_position s; i = sn_integrity s;
          roots = sn_root_heads s; seen = sn_seen_facts s
      in case e of
           ApplyBroker f \<Rightarrow> snapshot_after (apply_broker_execution_fact obj p i roots seen f)
         | ApplyAttested h \<Rightarrow> snapshot_after (apply_human_attested_fill_fact obj p i roots seen h)
         | RecordReconciliation b \<Rightarrow>
             snapshot_after (record_execution_reconciliation obj p i roots seen b)
         | RecordCorroboration b \<Rightarrow>
             snapshot_after (record_broker_corroboration obj p i roots seen b)
         | LatchIntegrity evidence \<Rightarrow> latch_execution_integrity obj s evidence
         | LatchAccount \<Rightarrow> latch_account_execution_reconciliation obj s)"

definition ledger_event :: "kernel_event \<Rightarrow> ledger \<Rightarrow> ledger" where
  "ledger_event e L =
     (case e of
        ApplyBroker f \<Rightarrow> fst (ledger_step f L)
      | ApplyAttested h \<Rightarrow> fst (ledger_step (HumanAttestedFill h) L)
      | RecordReconciliation b \<Rightarrow> fst (ledger_record_reconciliation (BrokerFill b) L)
      | RecordCorroboration b \<Rightarrow> fst (ledger_corroborate (BrokerFill b) L)
      | LatchIntegrity evidence \<Rightarrow> L\<lparr>lg_integrity := sup (lg_integrity L) evidence\<rparr>
      | LatchAccount \<Rightarrow> L)"

definition event_admissible :: "position_scope \<Rightarrow> kernel_event \<Rightarrow> bool" where
  "event_admissible scope e =
     (case e of
        ApplyBroker f \<Rightarrow> fact_admissible f \<and> is_broker_fact f
      | ApplyAttested h \<Rightarrow> fact_admissible (HumanAttestedFill h)
      | RecordReconciliation b \<Rightarrow> fact_admissible (BrokerFill b)
      | RecordCorroboration b \<Rightarrow>
          fact_admissible (BrokerFill b) \<and> position_scope_of (bf_scope b) = scope
      | _ \<Rightarrow> True)"

definition registry_room :: "execution_snapshot \<Rightarrow> nat" where
  "registry_room s = 2 ^ 64 - si_count (sn_seen_facts s)"

definition related_in :: "position_scope \<Rightarrow> execution_snapshot \<Rightarrow> ledger \<Rightarrow> bool" where
  "related_in scope s L \<longleftrightarrow> implements s L \<and> lg_scope L = scope"

lemma implements_count: "implements s L \<Longrightarrow> si_count (sn_seen_facts s) = length (lg_observations L)"
  by (auto simp: si_count_ok kernel_okD(3) elim!: implementsE)

lemma room_pos: "implements s L \<Longrightarrow> 0 < registry_room s \<longleftrightarrow> has_room (lg_observations L)"
  by (simp add: registry_room_def has_room_def implements_count)

lemma simulates_snapshot_after:
  assumes "simulates s L r out"
  obtains s' where "snapshot_after r = Ok s'" "implements s' (fst out)"
    "cursor_of s' = cursor_of s" "account_latched s' = account_latched s"
proof -
  from assms obtain s' L' d b disp c where s': "out = (L', disp, c)" "r = Ok (transition_of s' d b disp c)"
      "implements s' L'" "cursor_of s' = cursor_of s" "account_latched s' = account_latched s"
    by (auto simp: simulates_def)
  have "snapshot_after r = Ok s'"
    using implements_coherent [OF s'(3)]
    by (simp add: snapshot_after_def s'(2) transition_of_def mk_execution_snapshot_def)
  with that s' show thesis by simp
qed

lemmas ledger_ops = ledger_step_def ledger_replay_def ledger_fill_def ledger_revise_def ledger_apply_def
  ledger_reconcile_def ledger_record_reconciliation_def ledger_corroborate_def Let_def

lemma ledger_event_frame:
  "lg_scope (ledger_event e L) = lg_scope L"
  "length (lg_observations (ledger_event e L)) \<le> Suc (length (lg_observations L))"
  by (auto simp: ledger_event_def ledger_ops split: kernel_event.splits option.splits)

lemma kernel_step_related:
  assumes rel: "related_in scope s L" and e: "event_admissible scope e" and room: "0 < registry_room s"
  shows "\<exists>s'. kernel_step e s = Ok s' \<and> related_in scope s' (ledger_event e L) \<and>
    registry_room s \<le> Suc (registry_room s') \<and> cursor_of s' = cursor_of s \<and>
    account_latched s' = (account_latched s \<or> e = LatchAccount)"
proof -
  have imp: "implements s L" and scope: "lg_scope L = scope" using rel by (simp_all add: related_in_def)
  have room': "has_room (lg_observations L)" using room room_pos [OF imp] by simp
  let ?obj = "Suc (sb_object (binding_of s))"
  have "\<exists>s'. kernel_step e s = Ok s' \<and> implements s' (ledger_event e L) \<and> cursor_of s' = cursor_of s \<and>
    account_latched s' = (account_latched s \<or> e = LatchAccount)"
  proof (cases e)
    case (ApplyBroker f)
    with e have f: "fact_admissible f" "is_broker_fact f" by (simp_all add: event_admissible_def)
    obtain s' where "snapshot_after (apply_broker_execution_fact ?obj (sn_position s) (sn_integrity s)
        (sn_root_heads s) (sn_seen_facts s) f) = Ok s'" "implements s' (fst (ledger_step f L))"
        "cursor_of s' = cursor_of s" "account_latched s' = account_latched s"
      unfolding m2_transparent [OF imp f room']
      using simulates_snapshot_after [OF canonical_simulates [OF imp f(1) room']] by metis
    then show ?thesis by (simp add: kernel_step_def ledger_event_def ApplyBroker)
  next
    case (ApplyAttested h)
    with e have f: "fact_admissible (HumanAttestedFill h)" by (simp add: event_admissible_def)
    show ?thesis
      using simulates_snapshot_after [OF canonical_simulates [OF imp f room', of ?obj]]
      by (simp add: kernel_step_def ledger_event_def ApplyAttested apply_human_attested_fill_fact_def) metis
  next
    case (RecordReconciliation b)
    with e have f: "fact_admissible (BrokerFill b)" by (simp add: event_admissible_def)
    show ?thesis
      using simulates_snapshot_after [OF record_reconciliation_simulates [OF imp f room', of ?obj]]
      by (simp add: kernel_step_def ledger_event_def RecordReconciliation) metis
  next
    case (RecordCorroboration b)
    with e scope have f: "fact_admissible (BrokerFill b)" "position_scope_of (bf_scope b) = lg_scope L"
      by (simp_all add: event_admissible_def)
    show ?thesis
      using simulates_snapshot_after [OF corroboration_simulates [OF imp f(1) room' f(2), of ?obj]]
      by (simp add: kernel_step_def ledger_event_def RecordCorroboration) metis
  next
    case (LatchIntegrity evidence)
    then show ?thesis
      using latch_integrity_ok [OF imp, of ?obj evidence] by (simp add: kernel_step_def ledger_event_def) metis
  next
    case LatchAccount
    then show ?thesis
      using latch_account_ok [OF imp, of ?obj] by (simp add: kernel_step_def ledger_event_def) metis
  qed
  then obtain s' where s': "kernel_step e s = Ok s'" "implements s' (ledger_event e L)" "cursor_of s' = cursor_of s"
    "account_latched s' = (account_latched s \<or> e = LatchAccount)" by blast
  moreover have "registry_room s \<le> Suc (registry_room s')"
    using ledger_event_frame(2) [of e L] by (simp add: registry_room_def implements_count [OF imp] implements_count [OF s'(2)])
  ultimately show ?thesis using scope ledger_event_frame(1) [of e L] by (auto simp: related_in_def)
qed

interpretation kernel_machine: simulating_machine kernel_step "\<lambda>s. \<exists>L. related_in scope s L"
    "event_admissible scope" registry_room "related_in scope" ledger_event for scope
proof
  fix s e s' L
  show "\<exists>L. related_in scope s L \<Longrightarrow> event_admissible scope e \<Longrightarrow> 0 < registry_room s \<Longrightarrow>
    \<exists>s'. kernel_step e s = Inr s' \<and> (\<exists>L. related_in scope s' L) \<and> registry_room s \<le> Suc (registry_room s')"
    using kernel_step_related by blast
  show "related_in scope s L \<Longrightarrow> \<exists>L. related_in scope s L" by blast
  show "related_in scope s L \<Longrightarrow> event_admissible scope e \<Longrightarrow> 0 < registry_room s \<Longrightarrow>
    kernel_step e s = Inr s' \<Longrightarrow> related_in scope s' (ledger_event e L)"
    using kernel_step_related by (metis sum.inject(2))
qed

end
