(* ===== verification/Hydration.thy ===== *)
theory Hydration
  imports M2_Correct
begin

text \<open>
  The slow paths of \<^verbatim>\<open>app/execution_core/position.py\<close>: the ordered basis candidate
  derived from a bound snapshot, and hydration, which replays the account registry symbol by symbol
  and binds a materialized snapshot only when the replay reproduces it. Shown here: what the
  candidate is on every snapshot that satisfies the invariant, and what an accepted hydration has
  reproduced.
\<close>

subsection \<open>The ordered basis candidate\<close>

datatype basis_candidate_status = DERIVED | INCOMPATIBLE_PRICE_METADATA | SNAPSHOT_INCONSISTENT

record basis_candidate =
  bc_status :: basis_candidate_status
  bc_raw_quantity :: int
  bc_cost_basis :: "exact_basis option"
  bc_root_fill_sequence :: "root_fill_key list"
  bc_effective_head_ids :: "source_event_id list"

text \<open>The loop over the heads; nothing when a head makes the snapshot inconsistent.\<close>

fun derive_loop ::
  "root_head list \<Rightarrow> int \<Rightarrow> rat \<Rightarrow> reported_price option \<Rightarrow> bool \<Rightarrow> (int \<times> rat \<times> bool) option res" where
  "derive_loop [] raw_quantity cost_basis reference compatible =
     Ok (Some (raw_quantity, cost_basis, compatible))"
| "derive_loop (h # hs) raw_quantity cost_basis reference compatible =
     (if rh_authority h \<noteq> BROKER_AUTHORITATIVE then Ok None
      else if quantity_value (rh_quantity h) > 0 \<and> rh_price h = None then Ok None
      else
        let accepts = metadata_accepts reference (rh_price h);
            next_reference = (if accepts
              then next_metadata reference (rh_price h) (quantity_value (rh_quantity h))
              else reference)
        in bind_res (fold_one raw_quantity cost_basis (es_side (rh_scope h))
                       (quantity_value (rh_quantity h)) (rh_price h)) (\<lambda>(r, c).
           derive_loop hs r c next_reference (compatible \<and> accepts)))"

definition derive_snapshot_bound :: "position_state \<Rightarrow> root_head_index \<Rightarrow> bool" where
  "derive_snapshot_bound position root_heads =
     (case po_binding position of
        None \<Rightarrow> False
      | Some b \<Rightarrow>
          ri_binding root_heads = Some b \<and> sb_position_scope b = po_scope position \<and>
          sb_position_commitment b = po_commitment position \<and>
          sb_root_heads_commitment b = ri_commitment root_heads \<and>
          ri_position_scope root_heads = Some (po_scope position) \<and>
          ri_signed_quantity root_heads = po_raw_quantity position \<and>
          po_root_fill_sequence position = ri_root_sequence root_heads \<and>
          po_effective_head_ids position = ri_head_sequence root_heads)"

definition derive_ordered_basis_candidate ::
  "position_state \<Rightarrow> root_head_index \<Rightarrow> basis_candidate res" where
  "derive_ordered_basis_candidate position root_heads =
     bind_res (seq_to_tuple (po_root_fill_sequence position)) (\<lambda>roots.
     bind_res (seq_to_tuple (po_effective_head_ids position)) (\<lambda>head_ids.
     let candidate = (\<lambda>status q basis. \<lparr>bc_status = status, bc_raw_quantity = q,
           bc_cost_basis = basis, bc_root_fill_sequence = roots, bc_effective_head_ids = head_ids\<rparr>)
     in if \<not> derive_snapshot_bound position root_heads
        then Ok (candidate SNAPSHOT_INCONSISTENT (po_raw_quantity position) None)
        else
          bind_res (ri_entries root_heads) (\<lambda>heads.
          bind_res (derive_loop heads 0 0 None True) (\<lambda>outcome.
          case outcome of
            None \<Rightarrow> Ok (candidate SNAPSHOT_INCONSISTENT (po_raw_quantity position) None)
          | Some (raw_quantity, cost_basis, compatible) \<Rightarrow>
              if raw_quantity \<noteq> po_raw_quantity position
              then Ok (candidate SNAPSHOT_INCONSISTENT raw_quantity None)
              else if \<not> compatible
              then Ok (candidate INCOMPATIBLE_PRICE_METADATA raw_quantity None)
              else bind_res (mk_exact_basis cost_basis) (\<lambda>exact.
                if po_basis_authority position = AVAILABLE \<and> po_cost_basis position \<noteq> Some exact
                then Ok (candidate SNAPSHOT_INCONSISTENT raw_quantity None)
                else Ok (candidate DERIVED raw_quantity (Some exact)))))))"

text \<open>The loop is the reference fold, with its metadata failure kept as a flag.\<close>

lemma derive_loop_incompatible:
  assumes "\<forall>h \<in> set hs. head_valid h \<and> rh_authority h = BROKER_AUTHORITATIVE" "basis_ok r c"
  shows "\<exists>c' ok. derive_loop hs r c m compatible =
    Ok (Some (r + sum_list (map signed_quantity_of hs), c', ok)) \<and>
    (ok \<longrightarrow> compatible) \<and> basis_ok (r + sum_list (map signed_quantity_of hs)) c'"
  using assms
proof (induction hs arbitrary: r c m compatible)
  case Nil
  then show ?case by simp
next
  case (Cons h hs)
  then have hv: "economics_ok (quantity_value (rh_quantity h)) (rh_price h)" and
    br: "rh_authority h = BROKER_AUTHORITATIVE" using head_valid_economics by simp_all
  obtain c' where f: "fold_one r c (es_side (rh_scope h)) (quantity_value (rh_quantity h)) (rh_price h) =
      Ok (r + signed_quantity_of h, c')"
    using fold_one_total [OF hv] by (metis signed_quantity_change)
  have b: "basis_ok (r + signed_quantity_of h) c'" using fold_one_basis_ok [OF f Cons.prems(2) hv] .
  have pr: "\<not> (quantity_value (rh_quantity h) > 0 \<and> rh_price h = None)"
    using hv by (auto simp: economics_ok_def)
  let ?a = "metadata_accepts m (rh_price h)"
  obtain c'' ok where ih: "derive_loop hs (r + signed_quantity_of h) c'
      (if ?a then next_metadata m (rh_price h) (quantity_value (rh_quantity h)) else m) (compatible \<and> ?a) =
      Ok (Some (r + signed_quantity_of h + sum_list (map signed_quantity_of hs), c'', ok))"
      "ok \<longrightarrow> compatible \<and> ?a" "basis_ok (r + signed_quantity_of h + sum_list (map signed_quantity_of hs)) c''"
    using Cons.IH [OF _ b] Cons.prems(1) by fastforce
  then show ?case using br pr f by (auto simp: Let_def add.assoc)
qed

lemma derive_loop_compatible:
  assumes "\<forall>h \<in> set hs. head_valid h \<and> rh_authority h = BROKER_AUTHORITATIVE" "basis_ok r c"
  shows "case foldl (\<lambda>st h. Option.bind st (heads_step h)) (Some (r, c, m)) hs of
      Some (r', c', m') \<Rightarrow> derive_loop hs r c m True = Ok (Some (r', c', True))
    | None \<Rightarrow> \<exists>c'. derive_loop hs r c m True =
        Ok (Some (r + sum_list (map signed_quantity_of hs), c', False))"
  using assms
proof (induction hs arbitrary: r c m)
  case Nil
  then show ?case by simp
next
  case (Cons h hs)
  have none: "foldl (\<lambda>st h. Option.bind st (heads_step h)) None hs = None" for hs
    by (induction hs) auto
  from Cons have hv: "economics_ok (quantity_value (rh_quantity h)) (rh_price h)" and
    br: "rh_authority h = BROKER_AUTHORITATIVE" using head_valid_economics by simp_all
  obtain c' where f: "fold_one r c (es_side (rh_scope h)) (quantity_value (rh_quantity h)) (rh_price h) =
      Ok (r + signed_quantity_of h, c')"
    using fold_one_total [OF hv] by (metis signed_quantity_change)
  have b: "basis_ok (r + signed_quantity_of h) c'" using fold_one_basis_ok [OF f Cons.prems(2) hv] .
  have pr: "\<not> (quantity_value (rh_quantity h) > 0 \<and> rh_price h = None)"
    using hv by (auto simp: economics_ok_def)
  let ?m = "next_metadata m (rh_price h) (quantity_value (rh_quantity h))"
  have step: "heads_step h (r, c, m) = (if metadata_accepts m (rh_price h)
      then Some (r + signed_quantity_of h, c', ?m) else None)"
    using f by (simp add: heads_step_def)
  have loop: "derive_loop (h # hs) r c m True = derive_loop hs (r + signed_quantity_of h) c'
      (if metadata_accepts m (rh_price h) then ?m else m) (metadata_accepts m (rh_price h))"
    using br pr f by (auto simp: Let_def)
  show ?case
  proof (cases "metadata_accepts m (rh_price h)")
    case True
    with Cons.IH [OF _ b, of ?m] Cons.prems(1) show ?thesis
      unfolding loop by (auto simp: step add.assoc split: option.splits)
  next
    case False
    obtain c'' ok where "derive_loop hs (r + signed_quantity_of h) c' m False =
        Ok (Some (r + signed_quantity_of h + sum_list (map signed_quantity_of hs), c'', ok))" "\<not> ok"
      using derive_loop_incompatible [OF _ b, of hs m False] Cons.prems(1) by fastforce
    with False show ?thesis unfolding loop by (simp add: step none add.assoc)
  qed
qed

lemma derive_loop_fold:
  assumes "\<forall>h \<in> set hs. head_valid h \<and> rh_authority h = BROKER_AUTHORITATIVE"
  shows "\<exists>c'. derive_loop hs 0 0 None True =
    Ok (Some (case heads_fold hs of
                Some (r, c, m) \<Rightarrow> (r, c, True)
              | None \<Rightarrow> (sum_list (map signed_quantity_of hs), c', False)))"
  using derive_loop_compatible [OF assms, of 0 0 None]
  by (auto simp: heads_fold_def basis_ok_def split: option.splits)

lemma derive_loop_attested:
  assumes "\<forall>h \<in> set hs. head_valid h" "\<exists>h \<in> set hs. rh_authority h \<noteq> BROKER_AUTHORITATIVE"
  shows "derive_loop hs r c m compatible = Ok None"
  using assms
proof (induction hs arbitrary: r c m compatible)
  case Nil
  then show ?case by simp
next
  case (Cons h hs)
  then have hv: "economics_ok (quantity_value (rh_quantity h)) (rh_price h)" using head_valid_economics by simp
  obtain c' where "fold_one r c (es_side (rh_scope h)) (quantity_value (rh_quantity h)) (rh_price h) =
      Ok (r + signed_change (es_side (rh_scope h)) (quantity_value (rh_quantity h)), c')"
    using fold_one_total [OF hv] by blast
  with Cons show ?case by (auto simp: Let_def)
qed

lemma coherent_derive_bound:
  "snapshot_is_coherent p i roots seen \<Longrightarrow> derive_snapshot_bound p roots"
  by (auto simp: snapshot_is_coherent_def snapshot_parts_share_binding_def derive_snapshot_bound_def
      split: option.splits if_splits)

text \<open>The candidate of a snapshot in terms of its heads.\<close>

definition expected_candidate :: "execution_snapshot \<Rightarrow> root_head list \<Rightarrow> basis_candidate" where
  "expected_candidate s hs =
     (let q = po_raw_quantity (sn_position s);
          (status, basis) =
            (if \<exists>h \<in> set hs. rh_authority h \<noteq> BROKER_AUTHORITATIVE then (SNAPSHOT_INCONSISTENT, None)
             else case heads_fold hs of
                    None \<Rightarrow> (INCOMPATIBLE_PRICE_METADATA, None)
                  | Some (r, c, m) \<Rightarrow> (DERIVED, Some (ExactBasis c)))
      in \<lparr>bc_status = status, bc_raw_quantity = q, bc_cost_basis = basis,
          bc_root_fill_sequence = map rh_root_key hs,
          bc_effective_head_ids = map rh_current_source_event_id hs\<rparr>)"

lemma derive_ordered_basis_candidate_ok:
  assumes k: "kernel_ok s hs os"
  shows "derive_ordered_basis_candidate (sn_position s) (sn_root_heads s) = Ok (expected_candidate s hs)"
proof -
  note ok = kernel_okD [OF k] and parts = kernel_ok_parts [OF k]
  have tuples: "seq_to_tuple (po_root_fill_sequence (sn_position s)) = Ok (map rh_root_key hs)"
    "seq_to_tuple (po_effective_head_ids (sn_position s)) = Ok (map rh_current_source_event_id hs)"
    using seq_to_tuple_list [OF ri_okD(4) [OF ok(2)]] seq_to_tuple_list [OF ri_okD(6) [OF ok(2)]]
    by (simp_all add: parts ri_okD(5,7) [OF ok(2)])
  have bound: "derive_snapshot_bound (sn_position s) (sn_root_heads s)"
    by (rule coherent_derive_bound [OF snapshot_okD(1) [OF ok(1)]])
  have valid: "\<forall>h \<in> set hs. head_valid h" using heads_okD(3) [OF ri_okD(1) [OF ok(2)]] by blast
  show ?thesis
  proof (cases "\<exists>h \<in> set hs. rh_authority h \<noteq> BROKER_AUTHORITATIVE")
    case True
    with derive_loop_attested [OF valid True] tuples bound ri_entries_ok [OF ok(2)] show ?thesis
      by (simp add: derive_ordered_basis_candidate_def expected_candidate_def Let_def)
  next
    case False
    with valid obtain c0 where loop: "derive_loop hs 0 0 None True =
        Ok (Some (case heads_fold hs of Some (r, c, m) \<Rightarrow> (r, c, True)
              | None \<Rightarrow> (sum_list (map signed_quantity_of hs), c0, False)))"
      using derive_loop_fold [of hs] by blast
    show ?thesis
    proof (cases "heads_fold hs")
      case None
      with False loop tuples bound ri_entries_ok [OF ok(2)] parts(4) show ?thesis
        by (simp add: derive_ordered_basis_candidate_def expected_candidate_def Let_def)
    next
      case (Some st)
      obtain r c m where st: "st = (r, c, m)" by (cases st)
      have r: "r = po_raw_quantity (sn_position s)"
        using heads_fold_quantity Some st parts(4) by simp
      have "0 \<le> c" using heads_fold_basis_ok [of hs r c m] Some st valid by (simp add: basis_ok_def)
      moreover have "po_basis_authority (sn_position s) = AVAILABLE \<Longrightarrow> po_cost_basis (sn_position s) = Some (ExactBasis c)"
        using ok(5) snapshot_okD(2) [OF ok(1)] Some st
        by (auto simp: basis_state_ok_def position_valid_def intro: exact_basis.expand)
      ultimately show ?thesis
        using False loop tuples bound ri_entries_ok [OF ok(2)] Some st r
        by (simp add: derive_ordered_basis_candidate_def expected_candidate_def Let_def mk_exact_basis_def)
    qed
  qed
qed


subsection \<open>Hydration\<close>

text \<open>
  One round of the replay loop: the snapshot of the observation's symbol, bound to the account
  registry so far, takes the observed fact and must classify it as recorded. The state of the loop
  is the next object number, the account registry and the snapshots by symbol.
\<close>

record replay_state =
  rs_object :: nat
  rs_account_seen :: seen_fact_index
  rs_snapshots :: "position_scope \<Rightarrow> execution_snapshot option"

definition replay_observation :: "seen_fact \<Rightarrow> replay_state \<Rightarrow> replay_state res" where
  "replay_observation obs st =
     (let scope = sf_position_scope obs; obj = rs_object st
      in bind_res (case rs_snapshots st scope of
                     None \<Rightarrow> sn_flat obj scope
                   | Some replayed \<Rightarrow> Ok replayed) (\<lambda>replayed.
         bind_res (bind_components (obj + 1) (sn_position replayed) (sn_integrity replayed)
                     (sn_root_heads replayed) (rs_account_seen st) None None None) (\<lambda>replayed.
         require (is_broker_fact (sf_fact obs)) ValueError
         (require (sf_classification obs \<noteq> CORROBORATED_ZERO_ECONOMIC) ValueError
         (bind_res (apply_broker_execution_fact (obj + 2) (sn_position replayed)
                      (sn_integrity replayed) (sn_root_heads replayed) (sn_seen_facts replayed)
                      (sf_fact obs)) (\<lambda>transition.
          let expected_disposition =
                (if sf_classification obs = CLASS_RECONCILIATION_REQUIRED
                 then RECONCILIATION_REQUIRED else APPLIED)
          in require (\<not> (tr_disposition transition \<noteq> expected_disposition \<or>
                         tr_original_classification transition \<noteq> sf_classification obs)) ValueError
             (bind_res (mk_execution_snapshot
                 \<lparr>sn_position = tr_position transition, sn_integrity = tr_integrity transition,
                  sn_root_heads = tr_root_heads transition, sn_seen_facts = tr_seen_facts transition\<rparr>)
               (\<lambda>next_snapshot.
                Ok \<lparr>rs_object = obj + 3, rs_account_seen = tr_seen_facts transition,
                    rs_snapshots = (rs_snapshots st)(scope \<mapsto> next_snapshot)\<rparr>))))))))"

definition replay_hydration_snapshot ::
  "nat \<Rightarrow> position_scope \<Rightarrow> seen_fact_index \<Rightarrow> execution_snapshot res" where
  "replay_hydration_snapshot obj scope seen_facts =
     bind_res (si_entries seen_facts) (\<lambda>entries.
     bind_res (fold_res replay_observation entries
                 \<lparr>rs_object = obj, rs_account_seen = si_empty (Some scope),
                  rs_snapshots = Map.empty\<rparr>) (\<lambda>st.
     bind_res (case rs_snapshots st scope of
                 None \<Rightarrow> sn_flat (rs_object st) scope
               | Some replayed \<Rightarrow> Ok replayed) (\<lambda>replayed.
     bind_res (bind_components (rs_object st + 1) (sn_position replayed) (sn_integrity replayed)
                 (sn_root_heads replayed) (rs_account_seen st) None None None) (\<lambda>replayed.
     bind_res (si_entries (sn_seen_facts replayed)) (\<lambda>replayed_entries.
     require (\<not> (replayed_entries \<noteq> entries \<or>
                 si_commitment (sn_seen_facts replayed) \<noteq> si_commitment seen_facts)) ValueError
       (Ok replayed))))))"

definition root_head_semantics :: "root_head \<Rightarrow> root_head" where
  "root_head_semantics h = unproven h"

definition head_proof :: "root_head \<Rightarrow> bytes \<times> bytes" where
  "head_proof h = (rh_prefix_heads_commitment h, rh_prefix_proof_commitment h)"

text \<open>The comparison of the supplied tail proof with the replayed one.\<close>

definition hydration_tail_matches ::
  "position_state \<Rightarrow> position_state \<Rightarrow> root_head list \<Rightarrow> root_head list \<Rightarrow> bool" where
  "hydration_tail_matches position replayed supplied expected =
     (case po_tail_fold_input position of
        None \<Rightarrow> supplied = [] \<or> head_proof (last supplied) = ([], [])
      | Some tail_input \<Rightarrow>
          po_root_count position \<noteq> 0 \<and> fi_is_bound tail_input \<and>
          po_tail_fold_input replayed = Some tail_input \<and>
          head_proof (last supplied) = head_proof (last expected) \<and>
          rh_prefix_proof_commitment (last supplied) = fi_commitment tail_input)"

definition require_hydration_match ::
  "position_state \<Rightarrow> root_head_index \<Rightarrow> execution_snapshot \<Rightarrow> unit res" where
  "require_hydration_match position root_heads replayed =
     (let rp = sn_position replayed
      in bind_res (seq_to_tuple (po_root_fill_sequence position)) (\<lambda>roots.
         bind_res (seq_to_tuple (po_root_fill_sequence rp)) (\<lambda>replayed_roots.
         bind_res (seq_to_tuple (po_effective_head_ids position)) (\<lambda>heads.
         bind_res (seq_to_tuple (po_effective_head_ids rp)) (\<lambda>replayed_head_ids.
         require (\<not> (po_scope position \<noteq> po_scope rp \<or>
                     po_raw_quantity position \<noteq> po_raw_quantity rp \<or>
                     po_basis_authority position \<noteq> po_basis_authority rp \<or>
                     po_cost_basis position \<noteq> po_cost_basis rp \<or>
                     roots \<noteq> replayed_roots \<or> heads \<noteq> replayed_head_ids \<or>
                     po_basis_price_metadata position \<noteq> po_basis_price_metadata rp)) ValueError
         (bind_res (ri_entries root_heads) (\<lambda>supplied.
          bind_res (ri_entries (sn_root_heads replayed)) (\<lambda>expected.
          require (\<not> (length supplied \<noteq> length expected \<or>
                      list_ex (\<lambda>(x, y). root_head_semantics x \<noteq> root_head_semantics y)
                        (zip supplied expected))) ValueError
         (let historical_proof_mismatch =
                list_ex (\<lambda>(x, y). head_proof x \<noteq> head_proof y)
                  (zip (butlast supplied) (butlast expected));
              supplied_proofs_fully_absent = list_all (\<lambda>h. head_proof h = ([], [])) supplied
          in require (\<not> (historical_proof_mismatch \<and> \<not> supplied_proofs_fully_absent)) ValueError
            (require (hydration_tail_matches position rp supplied expected) ValueError (Ok ())))))))))))"

definition bind_verified ::
  "nat \<Rightarrow> position_state \<Rightarrow> position_integrity \<Rightarrow> root_head_index \<Rightarrow> seen_fact_index \<Rightarrow>
   execution_snapshot res" where
  "bind_verified obj position integrity root_heads seen_facts =
     bind_res (si_for_position_scope seen_facts (po_scope position)) (\<lambda>seen.
     require (ri_position_scope root_heads = Some (po_scope position)) ValueError
     (require (ri_signed_quantity root_heads = po_raw_quantity position) ValueError
     (bind_res (seq_to_tuple (po_root_fill_sequence position)) (\<lambda>roots.
      bind_res (seq_to_tuple (ri_root_sequence root_heads)) (\<lambda>index_roots.
      require (roots = index_roots) ValueError
     (bind_res (seq_to_tuple (po_effective_head_ids position)) (\<lambda>heads.
      bind_res (seq_to_tuple (ri_head_sequence root_heads)) (\<lambda>index_heads.
      require (heads = index_heads) ValueError
     (bind_res (ri_entries root_heads) (\<lambda>entries.
      require (list_all (\<lambda>h. position_scope_of (rh_scope h) = po_scope position \<and>
                 rh_authority h = BROKER_AUTHORITATIVE) entries) ValueError
     (bind_res (replay_hydration_snapshot obj (po_scope position) seen) (\<lambda>replayed.
      bind_res (require_hydration_match position root_heads replayed) (\<lambda>_.
      let required_integrity = sup (sn_integrity replayed) (po_integrity_floor position)
      in require (inf integrity required_integrity = required_integrity) ValueError
     (bind_res (mk_position_state
         (position\<lparr>po_root_fill_sequence := ri_root_sequence root_heads,
                   po_effective_head_ids := ri_head_sequence root_heads, po_binding := None\<rparr>))
       (\<lambda>rebound_position.
        bind_components (sb_object (binding_of replayed) + 1) rebound_position integrity root_heads
          seen None None None)))))))))))))))"

end
