(* ===== verification/Reachable.thy ===== *)
theory Reachable
  imports Machine Hydration
begin

text \<open>
  The snapshots the kernel can reach for one position: from the flat snapshot, by the events of the
  kernel and by binding a reconciliation cursor of the account. Shown here, by rule induction: every
  reachable snapshot implements a ledger of its scope, and what holds of it and of every step from it
  follows from the ledger.
\<close>

inductive reachable :: "position_scope \<Rightarrow> execution_snapshot \<Rightarrow> bool" for scope where
  start: "scope_fits scope \<Longrightarrow> sn_flat obj scope = Ok s \<Longrightarrow> reachable scope s"
| event: "reachable scope s \<Longrightarrow> event_admissible scope e \<Longrightarrow> 0 < registry_room s \<Longrightarrow>
    kernel_step e s = Ok s' \<Longrightarrow> reachable scope s'"
| cursor: "reachable scope s \<Longrightarrow>
    bind_execution_reconciliation_cursor obj s count head required = Ok s' \<Longrightarrow> reachable scope s'"

inductive_cases reachableE: "reachable scope s"

subsection \<open>Binding a cursor\<close>

lemma bind_cursor_rebound:
  assumes "implements s L" "bind_execution_reconciliation_cursor obj s count head required = Ok s'"
  shows "implements s' L" "cursor_of s' = (count, head)"
    "account_latched s' = (account_latched s \<or> required)" "cursor_le (cursor_of s) (count, head)"
proof -
  obtain hs where hs: "kernel_ok s hs (lg_observations L)" "lg_heads L = map unproven hs"
    "lg_integrity L = sn_integrity s"
    "lg_available L = (po_basis_authority (sn_position s) = AVAILABLE)" "lg_scope L = po_scope (sn_position s)"
    using assms(1) by (elim implementsE)
  note ok = kernel_okD [OF hs(1)]
  note b = assms(2) [unfolded bind_execution_reconciliation_cursor_def]
  have seen: "si_binding (sn_seen_facts s) = Some (binding_of s) \<or> si_binding (sn_seen_facts s) = None"
    using snapshot_okD(7) [OF ok(1)] by simp
  note inv = rebind_inv [OF ok(1) seen b]
  obtain cursor where c: "bind_cursor [cursor_of s] (Some count) (Some head) = Ok cursor"
    using b inherited_bound [OF snapshot_okD(5,6) [OF ok(1)] seen]
    by (elim bind_components_inv) (auto simp: cursor_of_def)
  then have cursor: "cursor = (count, head)"
    by (auto simp: bind_cursor_def select_cursor_def bind_res_eq_Inr require_eq_Inr)
  have s': "s' = sealed_snapshot obj ((sn_position s)\<lparr>po_integrity_floor := sn_integrity s, po_binding := None\<rparr>)
      (sn_integrity s) (sn_root_heads s) (sn_seen_facts s) (account_latched s \<or> required) (count, head)"
    using b rebind_ok [OF ok(1) seen kernel_ok_parts(1) [OF hs(1)] order_refl c, of obj "Some required"] cursor
    by simp
  have "kernel_ok s' hs (lg_observations L)"
    using ok inv(1) by (auto simp: kernel_ok_def s' overfill_latched_def)
  then show "implements s' L" using hs by (auto simp: implements_def s')
  show "cursor_of s' = (count, head)" "account_latched s' = (account_latched s \<or> required)"
    by (simp_all add: s')
  then show "cursor_le (cursor_of s) (count, head)" using inv(4) by simp
qed

lemma bind_cursor_succeeds:
  assumes "implements s L" "0 \<le> count" "length head = 32" "cursor_le (cursor_of s) (count, head)"
  shows "\<exists>s'. bind_execution_reconciliation_cursor obj s count head required = Ok s'"
proof -
  obtain hs where hs: "kernel_ok s hs (lg_observations L)" using assms(1) by (elim implementsE)
  note ok = kernel_okD [OF hs]
  have seen: "si_binding (sn_seen_facts s) = Some (binding_of s) \<or> si_binding (sn_seen_facts s) = None"
    using snapshot_okD(7) [OF ok(1)] by simp
  have "bind_cursor [cursor_of s] (Some count) (Some head) = Ok (count, head)"
    using assms(2-4) bind_cursor_simps(4) [OF assms(2,3), of "fst (cursor_of s)" "snd (cursor_of s)"]
    by (auto simp: cursor_le_def prod_eq_iff)
  then show ?thesis
    using rebind_ok [OF ok(1) seen kernel_ok_parts(1) [OF hs] order_refl, of "Some count" "Some head" _ obj "Some required"]
    by (auto simp: bind_execution_reconciliation_cursor_def)
qed

subsection \<open>Reachable snapshots implement ledgers\<close>

lemma reachable_related: "reachable scope s \<Longrightarrow> \<exists>L. related_in scope s L"
proof (induction rule: reachable.induct)
  case (start obj s)
  then show ?case
    using flat_implements [of scope obj s] by (auto simp: related_in_def ledger_flat_def)
next
  case (event s e s')
  then obtain L where "related_in scope s L" by blast
  with event.hyps kernel_step_related [of scope s L e] show ?case by auto
next
  case (cursor s obj count head required s')
  then obtain L where "related_in scope s L" by blast
  with cursor.hyps bind_cursor_rebound(1) [of s L] show ?case unfolding related_in_def by blast
qed

lemma reachable_implements:
  assumes "reachable scope s"
  obtains L where "implements s L" "lg_scope L = scope" "po_scope (sn_position s) = scope"
  using reachable_related [OF assms] by (auto simp: related_in_def implements_def)

lemma reachable_kernel_ok:
  assumes "reachable scope s"
  obtains hs os where "kernel_ok s hs os" "po_scope (sn_position s) = scope"
  using reachable_implements [OF assms] by (metis implementsE)

lemma flat_room:
  "sn_flat obj scope = Ok s \<Longrightarrow> registry_room s = 2 ^ 64"
  by (auto simp: sn_flat_ok registry_room_def si_empty_def si_count_def seq_empty_def si_with_binding_def)

lemma reachable_run:
  assumes "reachable scope s" "list_all (event_admissible scope) es" "length es \<le> registry_room s"
    "fold_res kernel_step es s = Ok s'"
  shows "reachable scope s'"
  using assms
proof (induction es arbitrary: s)
  case Nil
  then show ?case by simp
next
  case (Cons e es)
  then obtain s1 where s1: "kernel_step e s = Ok s1" "fold_res kernel_step es s1 = Ok s'"
    by (auto simp: bind_res_eq_Inr)
  obtain L where L: "related_in scope s L" using reachable_related [OF Cons.prems(1)] by blast
  have "registry_room s \<le> Suc (registry_room s1)"
    using kernel_step_related [OF L] Cons.prems(2,3) s1(1) by fastforce
  moreover have "reachable scope s1"
    using reachable.event [OF Cons.prems(1) _ _ s1(1)] Cons.prems(2,3) by simp
  ultimately show ?case using Cons s1 by simp
qed

end
