(* ===== verification/Examples.thy ===== *)
theory Examples
  imports Reachable
begin

text \<open>
  One position and a few of its executions, as concrete inputs: a purchase of ten shares, a sale, a
  sale of more than the position holds, a correction and a bust of the purchase, and a second report
  under the purchase's identity with other economics.
\<close>

definition ex_scope :: position_scope where
  "ex_scope = \<lparr>ps_broker = BrokerId ''alpaca'', ps_environment = EnvironmentId ''paper'',
     ps_account = AccountId ''acct'', ps_symbol_id = SymbolId ''SPY''\<rparr>"

definition ex_other_scope :: position_scope where
  "ex_other_scope = ex_scope\<lparr>ps_symbol_id := SymbolId ''QQQ''\<rparr>"

definition ex_price :: "int \<Rightarrow> reported_price" where
  "ex_price units = \<lparr>price_units_of = PriceUnits units, price_scale_of = PriceScale (1 / 100),
     price_tick = \<lparr>tick_units = PriceUnits 1, tick_scale = PriceScale (1 / 100)\<rparr>\<rparr>"

definition ex_key :: "string \<Rightarrow> execution_fact_key" where
  "ex_key event = \<lparr>fk_broker = BrokerId ''alpaca'', fk_environment = EnvironmentId ''paper'',
     fk_account = AccountId ''acct'', fk_source_event_id = SourceEventId event\<rparr>"

definition ex_order :: "execution_side \<Rightarrow> execution_scope" where
  "ex_order side = \<lparr>es_broker = BrokerId ''alpaca'', es_environment = EnvironmentId ''paper'',
     es_account = AccountId ''acct'', es_order_id = OrderId ''order'', es_symbol_id = SymbolId ''SPY'',
     es_side = side\<rparr>"

definition ex_fill :: "execution_side \<Rightarrow> int \<Rightarrow> string \<Rightarrow> string \<Rightarrow> broker_fill_fact" where
  "ex_fill side n event rid = \<lparr>bf_key = ex_key event, bf_scope = ex_order side,
     bf_root_fill_id = RootFillId rid, bf_quantity = Quantity n, bf_price = ex_price 5000\<rparr>"

definition ex_buy :: canonical_fact where
  "ex_buy = BrokerFill (ex_fill BUY 10 ''e1'' ''r1'')"

definition ex_conflict :: canonical_fact where
  "ex_conflict = BrokerFill (ex_fill BUY 11 ''e1'' ''r1'')"

definition ex_sell :: canonical_fact where
  "ex_sell = BrokerFill (ex_fill SELL 4 ''e2'' ''r2'')"

definition ex_oversell :: canonical_fact where
  "ex_oversell = BrokerFill (ex_fill SELL 15 ''e2'' ''r2'')"

definition ex_again :: canonical_fact where
  "ex_again = BrokerFill (ex_fill BUY 3 ''e3'' ''r1'')"

definition ex_correct :: canonical_fact where
  "ex_correct = BrokerTradeCorrect
     \<lparr>cf_key = ex_key ''e4'', cf_scope = ex_order BUY, cf_root_fill_id = RootFillId ''r1'',
      cf_predecessor_source_event_id = SourceEventId ''e1'', cf_revised_quantity = Quantity 8,
      cf_revised_price = ex_price 4950\<rparr>"

definition ex_bust :: canonical_fact where
  "ex_bust = BrokerTradeBust
     \<lparr>xf_key = ex_key ''e5'', xf_scope = ex_order BUY, xf_root_fill_id = RootFillId ''r1'',
      xf_predecessor_source_event_id = SourceEventId ''e1'', xf_reported_price = None\<rparr>"

lemmas ex_defs = ex_scope_def ex_price_def ex_key_def ex_order_def ex_fill_def ex_buy_def ex_conflict_def
  ex_sell_def ex_oversell_def ex_again_def ex_correct_def ex_bust_def

lemma ex_scope_fits: "scope_fits ex_scope"
  by (simp add: scope_fits_def ex_scope_def text_fits_def)

lemma ex_fill_admissible:
  assumes "0 < n" "length event \<le> 8" "length rid \<le> 8"
  shows "fact_admissible (BrokerFill (ex_fill side n event rid))"
  using assms
  by (simp add: ex_defs fact_admissible_def fact_fits_def fact_key_fits_def text_fits_def same_venue_def
      exact_value_def)

lemma ex_admissible:
  "fact_admissible ex_buy" "fact_admissible ex_conflict" "fact_admissible ex_sell"
  "fact_admissible ex_oversell" "fact_admissible ex_again" "fact_admissible ex_correct" "fact_admissible ex_bust"
  by (simp_all add: ex_buy_def ex_conflict_def ex_sell_def ex_oversell_def ex_again_def ex_fill_admissible)
    (simp_all add: ex_defs fact_admissible_def fact_fits_def fact_key_fits_def text_fits_def same_venue_def
      exact_value_def)

lemma ex_broker:
  "is_broker_fact ex_buy" "is_broker_fact ex_conflict" "is_broker_fact ex_sell" "is_broker_fact ex_oversell"
  "is_broker_fact ex_again" "is_broker_fact ex_correct" "is_broker_fact ex_bust"
  by (simp_all add: ex_defs)

lemmas ex_facts = ex_admissible ex_broker

lemma ex_events_admissible:
  "event_admissible ex_scope (ApplyBroker ex_buy)" "event_admissible ex_scope (ApplyBroker ex_sell)"
  "event_admissible ex_scope (ApplyBroker ex_oversell)" "event_admissible ex_scope (ApplyBroker ex_correct)"
  "event_admissible ex_scope (ApplyBroker ex_conflict)" "event_admissible ex_scope LatchAccount"
  "event_admissible ex_scope (LatchIntegrity i)"
  by (simp_all add: event_admissible_def ex_facts)

definition ex_ledger :: "kernel_event list \<Rightarrow> ledger" where
  "ex_ledger es = fold ledger_event es (ledger_flat ex_scope)"

text \<open>Every admissible run from the flat position is one the kernel makes.\<close>

lemma ex_run:
  assumes "list_all (event_admissible ex_scope) es" "length es \<le> 2 ^ 64"
  shows "\<exists>s. reachable ex_scope s \<and> implements s (ex_ledger es) \<and>
    registry_room s \<ge> 2 ^ 64 - length es"
proof -
  obtain s0 where s0: "sn_flat 0 ex_scope = Ok s0" by (simp add: sn_flat_ok)
  have rel: "related_in ex_scope s0 (ledger_flat ex_scope)"
    using flat_implements [OF ex_scope_fits s0] by (simp add: related_in_def ledger_flat_def)
  have len: "length es \<le> registry_room s0" using assms(2) flat_room [OF s0] by simp
  obtain s where s: "fold_res kernel_step es s0 = Ok s" "related_in ex_scope s (ex_ledger es)"
    using kernel_machine.run_related [OF rel assms(1) len] by (auto simp: ex_ledger_def)
  have "registry_room s0 \<le> length es + registry_room s"
    using kernel_machine.run_ok [OF exI, OF rel assms(1) len] s(1) by auto
  moreover have "reachable ex_scope s"
    using reachable_run [OF reachable.start [OF ex_scope_fits s0] assms(1) len s(1)] .
  ultimately show ?thesis using s(2) flat_room [OF s0] by (auto simp: related_in_def)
qed

subsection \<open>The ledgers of the example runs\<close>

lemmas ex_eval = ex_ledger_def ledger_event_def ledger_ops fill_head_def ledger_flat_def position_scope_of_def
  fact_root_key_def obs_key_def obs_root_def signed_quantity_of_def ex_defs heads_fold_def heads_step_def
  metadata_accepts_def next_metadata_def fold_one_def exact_value_def is_aligned_def is_compatible_with_def
  classification_of_def revised_head_def sup_position_integrity_def OVERFILL_QUARANTINE_def CONSISTENT_def
  EXECUTION_FACT_CONFLICT_def EXECUTION_RECONCILIATION_REQUIRED_def

lemma ex_bought:
  "ledger_quantity (ex_ledger [ApplyBroker ex_buy]) = 10"
  "lg_available (ex_ledger [ApplyBroker ex_buy])"
  "map sf_fact (lg_observations (ex_ledger [ApplyBroker ex_buy])) = [ex_buy]"
  "lg_integrity (ex_ledger [ApplyBroker ex_buy]) = CONSISTENT"
  by (simp_all add: ledger_quantity_def ex_eval)

lemma ex_oversold:
  "ledger_quantity (ex_ledger [ApplyBroker ex_buy, ApplyBroker ex_oversell]) = -5"
  "lg_integrity (ex_ledger [ApplyBroker ex_buy, ApplyBroker ex_oversell]) = OVERFILL_QUARANTINE"
  by (simp_all add: ledger_quantity_def ex_eval)

end
