(* ===== verification/Store_Properties.thy ===== *)
theory Store_Properties
  imports Examples
begin

text \<open>
  The properties of the single components below the kernel: the account registry, the persistent map
  with its witnesses, the persistent sequence, the canonical keys, the fact
  constructors and the compact execution state.
\<close>

section \<open>The registry and the persistent stores\<close>

text \<open>
  The registry is append-only with stable history: adding a first observation changes no answer
  about a prefix of the registry before it, whatever count up to the old length and whatever
  commitment is asked for, and the old registry itself is one of the recorded prefixes.
\<close>

theorem registry_prefixes_are_stable:
  assumes "si_ok idx os" "si_add idx obs = Ok idx'"
    "seen_valid obs" "fact_valid (sf_fact obs)" "obs_fits obs"
    "si_account_scope idx = Some (account_scope_from_position (sf_position_scope obs))"
  shows "(\<forall>n c. n \<le> int (length os) \<longrightarrow> has_prefix idx' n c = has_prefix idx n c) \<and>
    has_prefix idx' (int (si_count idx)) (si_commitment idx) = Ok True"
  using has_prefix_add [OF assms] si_count_ok [OF assms(1)] by (simp add: has_prefix_def [of idx] require_def)

lemma ex_observation:
  "\<exists>idx'. si_add (si_empty (Some ex_scope))
     \<lparr>sf_fact = ex_buy, sf_classification = APPLIED_AVAILABLE, sf_position_scope = ex_scope\<rparr> = Ok idx' \<and>
   seen_valid \<lparr>sf_fact = ex_buy, sf_classification = APPLIED_AVAILABLE, sf_position_scope = ex_scope\<rparr> \<and>
   obs_fits \<lparr>sf_fact = ex_buy, sf_classification = APPLIED_AVAILABLE, sf_position_scope = ex_scope\<rparr> \<and>
   si_ok idx' [\<lparr>sf_fact = ex_buy, sf_classification = APPLIED_AVAILABLE, sf_position_scope = ex_scope\<rparr>]"
proof -
  let ?o = "\<lparr>sf_fact = ex_buy, sf_classification = APPLIED_AVAILABLE, sf_position_scope = ex_scope\<rparr>"
  have v: "seen_valid ?o" by (simp add: seen_valid_def ex_defs position_scope_of_def)
  have f: "fact_valid (sf_fact ?o)" "obs_fits ?o"
    using ex_facts(1) ex_scope_fits by (simp_all add: fact_admissible_def obs_fits_def)
  have "si_get (si_empty (Some ex_scope)) (obs_key ?o) = None"
    using si_get_ok [OF si_empty_ok [of "Some ex_scope"], of "obs_key ?o"] f(2) by (simp add: obs_fits_def fact_fits_def obs_key_def)
  then show ?thesis
    using si_add_ok [OF si_empty_ok [of "Some ex_scope"], of ?o] v f by (simp add: si_empty_def) metis
qed

theorem registry_prefixes_are_stable_witness:
  "\<exists>idx'. has_prefix idx' 0 (si_commitment (si_empty (Some ex_scope))) = Ok True"
proof -
  let ?o = "\<lparr>sf_fact = ex_buy, sf_classification = APPLIED_AVAILABLE, sf_position_scope = ex_scope\<rparr>"
  obtain idx' where idx': "si_add (si_empty (Some ex_scope)) ?o = Ok idx'" "seen_valid ?o" "obs_fits ?o"
    using ex_observation by blast
  have "has_prefix idx' (int (si_count (si_empty (Some ex_scope)))) (si_commitment (si_empty (Some ex_scope))) = Ok True"
    by (rule registry_prefixes_are_stable [THEN conjunct2, OF si_empty_ok idx'(1,2) _ idx'(3)])
      (use ex_facts(1) in \<open>simp_all add: fact_admissible_def si_empty_def\<close>)
  then show ?thesis by (auto simp: si_count_ok [OF si_empty_ok])
qed

text \<open>
  The constant-work suffix question is exact: for every count up to the length of the registry,
  \<^verbatim>\<open>suffix_belongs_to\<close> answers whether every observation from that count on was made by
  the position asked about.
\<close>

theorem suffix_question_is_exact:
  assumes "si_ok idx os" "n \<le> length os"
  shows "suffix_belongs_to idx (int n) scope = Ok (\<forall>obs \<in> set (drop n os). sf_position_scope obs = scope)"
  by (rule suffix_belongs_to_ok [OF assms])

theorem suffix_question_is_exact_witness:
  "\<exists>idx. suffix_belongs_to idx 0 ex_scope = Ok True \<and> suffix_belongs_to idx 0 ex_other_scope = Ok False \<and>
    suffix_belongs_to idx 1 ex_other_scope = Ok True"
proof -
  let ?o = "\<lparr>sf_fact = ex_buy, sf_classification = APPLIED_AVAILABLE, sf_position_scope = ex_scope\<rparr>"
  obtain idx where "si_ok idx [?o]" using ex_observation by blast
  moreover have "ex_scope \<noteq> ex_other_scope" by (simp add: ex_other_scope_def ex_scope_def)
  ultimately show ?thesis
    using suffix_question_is_exact [of idx "[?o]" 0] suffix_question_is_exact [of idx "[?o]" 1]
    by (intro exI [of _ idx]) simp
qed

text \<open>
  The persistent radix map is a finite map: on every well-formed map, looking up a nonempty key
  gives its entry; inserting a new key and replacing a present one succeed, keep the map well-formed
  (sorted children and every commitment the one of its parts) and change that entry only; inserting
  a present key is a \<^verbatim>\<open>ValueError\<close> and replacing an absent one a
  \<^verbatim>\<open>KeyError\<close>.
\<close>

theorem radix_map_is_finite_map:
  assumes "pmap_ok f m" "key \<noteq> []" "f v c"
  shows "pm_find m key = pm_map m key \<and>
    (if pm_map m key = None
     then (\<exists>m'. pm_insert_new m key v c = Ok m' \<and> pmap_ok f m' \<and> pm_map m' = (pm_map m)(key \<mapsto> v)) \<and>
       pm_replace_existing m key v c = Raise KeyError
     else (\<exists>m'. pm_replace_existing m key v c = Ok m' \<and> pmap_ok f m' \<and> pm_map m' = (pm_map m)(key \<mapsto> v)) \<and>
       pm_insert_new m key v c = Raise ValueError)"
  using radix_store.find_contents [OF assms(1,2)] radix_store.insert_new_ok [OF assms(1,2) _ assms(3)]
    radix_store.insert_new_present [OF assms(1,2)] radix_store.replace_existing_ok [OF assms(1,2) _ assms(3)]
    radix_store.replace_existing_absent [OF assms(1,2)]
  by presburger

theorem radix_map_is_finite_map_witness:
  "\<exists>m :: nat pmap. pm_insert_new pm_empty [1] 5 (replicate 32 0) = Ok m \<and> pm_map m [1] = Some 5 \<and>
    pm_insert_new m [1] 6 (replicate 32 0) = Raise ValueError"
proof -
  obtain m :: "nat pmap" where m: "pm_insert_new pm_empty [1] 5 (replicate 32 0) = Ok m"
      "pmap_ok (\<lambda>_ c. length c = 32) m" "pm_map m = (pm_map pm_empty)([1] \<mapsto> 5)"
    using radix_map_is_finite_map [of "\<lambda>_ c. length c = 32" "pm_empty :: nat pmap" "[1]" 5 "replicate 32 0"] by auto
  with radix_map_is_finite_map [OF m(2), where key = "[1]" and v = 6 and c = "replicate 32 0"] show ?thesis by auto
qed

text \<open>
  Every membership question about a well-formed radix map has a witness that checks: building
  the witness for a nonempty key succeeds, and the check accepts it against the map's commitment with
  the commitment of the value under the key, or with absence when there is none.
\<close>

theorem map_witness_is_complete:
  assumes "pmap_ok (committed_by g) m" "key \<noteq> []" "\<And>v. length (g v) = 32"
  shows "\<exists>w. pm_witness_for m key = Ok w \<and> witness_matches w (pm_commitment m) key (map_option g (pm_map m key))"
  by (rule witness_complete [OF assms])

theorem map_witness_is_complete_witness:
  "\<exists>w. pm_witness_for (pm_empty :: nat pmap) [1] = Ok w \<and>
    witness_matches w (pm_commitment (pm_empty :: nat pmap)) [1] None"
  using map_witness_is_complete [of "\<lambda>_. replicate 32 0" "pm_empty :: nat pmap" "[1]"] by simp

text \<open>
  No accepted witness lies, as far as the hash is collision-free on what it hashes: a witness
  that the check accepts against the commitment of a well-formed map, none of whose digests collides
  with a different preimage in the map, claims exactly what the map holds under the key, presence
  and absence alike.
\<close>

theorem map_witness_is_sound:
  assumes "pmap_ok (committed_by g) m" "witness_matches w (pm_commitment m) key expected" "binding_on w m key"
  shows "expected = map_option g (pm_map m key)"
  by (rule witness_sound [OF assms])

theorem map_witness_is_sound_witness:
  "\<exists>w. witness_matches w (pm_commitment (pm_empty :: nat pmap)) [1] None \<and>
    (None :: bytes option) = map_option (\<lambda>_. replicate 32 0) (pm_map (pm_empty :: nat pmap) [1])"
proof -
  have ok: "pmap_ok (committed_by (\<lambda>_ :: nat. replicate 32 0)) pm_empty" by simp
  obtain w where w: "pm_witness_for (pm_empty :: nat pmap) [1] = Ok w"
    "witness_matches w (pm_commitment (pm_empty :: nat pmap)) [1] None"
    using witness_complete [OF ok, of "[1]"] by auto
  have "binding_on w (pm_empty :: nat pmap) [1]"
    by (rule witness_for_bound [OF _ w(1), of "committed_by (\<lambda>_. replicate 32 0)"]) (use ok in \<open>simp_all add: pmap_ok_def\<close>)
  with map_witness_is_sound [OF ok w(2)] w(2) show ?thesis by blast
qed

text \<open>
  The persistent sequence is a list of at most \<open>2 ^ 64\<close> values: on every well-formed
  sequence, reading an index gives the element or is an \<^verbatim>\<open>IndexError\<close> outside the bounds
  (negative indexes included), appending adds at the end or, when the sequence is full, is an
  \<^verbatim>\<open>OverflowError\<close>, updating an index replaces that element only or is an
  \<^verbatim>\<open>IndexError\<close>, and materializing it gives the whole list.
\<close>

theorem sequence_is_bounded_list:
  assumes "seq_ok g s"
  shows "seq_get s i = (if 0 \<le> i \<and> i < int (length (seq_list s)) then Ok (seq_list s ! nat i) else Raise IndexError) \<and>
    (if length (seq_list s) < 2 ^ 64
     then \<exists>s'. seq_append s v (g v) = Ok s' \<and> seq_ok g s' \<and> seq_list s' = seq_list s @ [v]
     else seq_append s v (g v) = Raise OverflowError) \<and>
    (if 0 \<le> i \<and> i < int (length (seq_list s))
     then \<exists>s'. seq_set s i v (g v) = Ok s' \<and> seq_ok g s' \<and> seq_list s' = (seq_list s)[nat i := v]
     else seq_set s i v (g v) = Raise IndexError) \<and>
    seq_to_tuple s = Ok (seq_list s)"
  using radix_seq.get_list [OF assms, of i] radix_seq.append_ok [OF assms _ refl, of v]
    radix_seq.append_full [OF assms, of v "g v"] radix_seq.update_ok [OF assms _ _ refl, of i v]
    radix_seq.update_outside [OF assms, of i v "g v"] seq_to_tuple_list [OF assms]
  by auto

theorem sequence_is_bounded_list_witness:
  "\<exists>s :: nat pseq. seq_append seq_empty 5 (replicate 32 0) = Ok s \<and> seq_to_tuple s = Ok [5] \<and>
    seq_get s 0 = Ok 5 \<and> seq_get s (-1) = Raise IndexError"
proof -
  let ?g = "\<lambda>_ :: nat. replicate 32 0"
  have e: "seq_ok ?g seq_empty" "seq_list (seq_empty :: nat pseq) = []"
    by (rule radix_seq.ok_empty, rule radix_seq.list_empty)
  obtain s where s: "seq_append seq_empty 5 (replicate 32 0) = Ok s" "seq_ok ?g s" "seq_list s = [5 :: nat]"
    using sequence_is_bounded_list [OF e(1), of 0 5] e(2) by auto
  from sequence_is_bounded_list [OF s(2), of 0] sequence_is_bounded_list [OF s(2), of "-1"] s
  show ?thesis by (intro exI [of _ s]) simp
qed

section \<open>Identities, encodings and constructors\<close>

text \<open>
  Distinct execution identities are filed under distinct keys: the canonical encodings of fact
  keys, root keys and position scopes are injective as long as each text fits its eight-byte length
  frame, so the maps keyed by them never confuse two facts, roots or positions.
\<close>

theorem canonical_keys_are_injective:
  assumes "fact_key_fits k" "fact_key_fits l" "root_key_fits r" "root_key_fits q" "scope_fits x" "scope_fits y"
  shows "(encode_execution_fact_key k = encode_execution_fact_key l \<longleftrightarrow> k = l) \<and>
    (encode_root_fill_key r = encode_root_fill_key q \<longleftrightarrow> r = q) \<and>
    (encode_position_scope x = encode_position_scope y \<longleftrightarrow> x = y)"
  using encode_execution_fact_key_inj [OF _ assms(1,2)] encode_root_fill_key_inj [OF _ assms(3,4)]
    encode_position_scope_inj [OF _ assms(5,6)] by blast

theorem canonical_keys_are_injective_witness:
  "encode_execution_fact_key (ex_key ''e1'') \<noteq> encode_execution_fact_key (ex_key ''e2'') \<and>
   encode_root_fill_key (fact_root_key ex_buy) \<noteq> encode_root_fill_key (fact_root_key ex_sell) \<and>
   encode_position_scope ex_scope \<noteq> encode_position_scope ex_other_scope"
proof -
  have fits: "fact_key_fits (ex_key ''e1'')" "fact_key_fits (ex_key ''e2'')" "root_key_fits (fact_root_key ex_buy)"
    "root_key_fits (fact_root_key ex_sell)" "scope_fits ex_scope" "scope_fits ex_other_scope"
    by (simp_all add: ex_defs ex_other_scope_def fact_root_key_def fact_key_fits_def root_key_fits_def scope_fits_def text_fits_def)
  show ?thesis
    using canonical_keys_are_injective [OF fits] by (simp add: ex_defs ex_other_scope_def fact_root_key_def)
qed

text \<open>
  The constructors of the four execution facts accept exactly the valid ones and raise
  \<^verbatim>\<open>ValueError\<close> on all others: the key and the scope name the same broker, environment
  and account, fills and corrections have a positive quantity and a positive price, a revision does
  not name itself as its predecessor, a bust reports a positive price or none, and the reason of an
  operator-attested fill is not blank.
\<close>

theorem fact_constructors_accept_exactly_valid:
  "mk_broker_fill_fact b = (if fact_valid (BrokerFill b) then Ok (BrokerFill b) else Raise ValueError) \<and>
   mk_human_attested_fill_fact h =
     (if fact_valid (HumanAttestedFill h) then Ok (HumanAttestedFill h) else Raise ValueError) \<and>
   mk_broker_trade_correct_fact t =
     (if fact_valid (BrokerTradeCorrect t) then Ok (BrokerTradeCorrect t) else Raise ValueError) \<and>
   mk_broker_trade_bust_fact x =
     (if fact_valid (BrokerTradeBust x) then Ok (BrokerTradeBust x) else Raise ValueError)"
  by (simp add: mk_fact_valid)

lemma m2_extend_truncate:
  "m2_fields.extend (m2_fields.truncate st) (m2_state.fields c) = st\<lparr>ms_commitment := c\<rparr>"
  by (cases st) (simp add: m2_fields.defs m2_state.defs)

lemma m2_commitment_truncate:
  "m2_execution_state_commitment (m2_fields.truncate st) = m2_execution_state_commitment (st :: m2_state)"
  by (simp add: m2_execution_state_commitment_def m2_fields.defs)

lemma m2_commitment_update: "st\<lparr>ms_commitment := c\<rparr> = st \<longleftrightarrow> ms_commitment st = (c :: bytes)"
  by (cases st) auto

text \<open>
  A compact execution state survives its checkpoint: rebuilding it from its nineteen
  checkpointed fields gives the very same state, commitment included, exactly when the state is
  authentic; and the state taken from a reachable snapshot always is.
\<close>

theorem compact_state_checkpoint_roundtrip:
  assumes "reachable scope s"
  shows "(m2_execution_state_from_checkpoint_fields (m2_fields.truncate st) = Ok st \<longleftrightarrow>
      m2_execution_state_is_authentic st) \<and>
    (\<exists>st. m2_execution_state_from_snapshot s = Ok st \<and>
      m2_execution_state_from_checkpoint_fields (m2_fields.truncate st) = Ok st)"
proof -
  have *: "m2_execution_state_from_checkpoint_fields (m2_fields.truncate st) = Ok st \<longleftrightarrow>
      m2_execution_state_is_authentic st" for st
    by (auto simp: m2_execution_state_from_checkpoint_fields_def m2_execution_state_is_authentic_def Let_def
        new_m2_execution_state_valid m2_extend_truncate m2_commitment_truncate m2_commitment_update)
  obtain hs os where k: "kernel_ok s hs os" using reachable_kernel_ok [OF assms] .
  obtain st' where "m2_execution_state_from_snapshot s = Ok st'" "m2_execution_state_is_authentic st'"
    using m2_state_from_snapshot_ok [OF kernel_okD(1) [OF k]] by metis
  with * show ?thesis by blast
qed

theorem compact_state_checkpoint_roundtrip_witness:
  "\<exists>s st. reachable ex_scope s \<and> m2_execution_state_from_snapshot s = Ok st \<and>
    m2_execution_state_from_checkpoint_fields (m2_fields.truncate st) = Ok st"
proof -
  obtain s where "reachable ex_scope s" using ex_run [of "[ApplyBroker ex_buy]"] by (auto simp: ex_events_admissible)
  with compact_state_checkpoint_roundtrip [of ex_scope s] show ?thesis by blast
qed

end
