(* ===== verification/Texts.thy ===== *)
theory Texts
  imports Prelude
begin

text \<open>
  Decimal texts of integers, as Python's \<^verbatim>\<open>str(n)\<close> and
  \<^verbatim>\<open>f"{n}"\<close> write them and \<^verbatim>\<open>int(s)\<close> reads them back, and the
  reading of colon-separated keys. The event keys of the stores and the durable codec rest on them.
\<close>

subsection \<open>Digits\<close>

definition digit_char :: "nat \<Rightarrow> char" where
  "digit_char d = char_of (48 + d)"

definition is_digit :: "char \<Rightarrow> bool" where
  "is_digit c \<longleftrightarrow> 48 \<le> (of_char c :: nat) \<and> (of_char c :: nat) \<le> 57"

definition digit_value :: "char \<Rightarrow> nat" where
  "digit_value c = of_char c - 48"

lemma of_char_digit_char: "d < 10 \<Longrightarrow> (of_char (digit_char d) :: nat) = 48 + d"
  by (simp add: digit_char_def)

lemma digit_char_simps [simp]:
  "d < 10 \<Longrightarrow> is_digit (digit_char d)"
  "d < 10 \<Longrightarrow> digit_value (digit_char d) = d"
  by (simp_all add: is_digit_def digit_value_def of_char_digit_char)

lemma digit_char_value: "is_digit c \<Longrightarrow> digit_char (digit_value c) = c"
  by (simp add: is_digit_def digit_value_def digit_char_def)

lemma digit_value_less: "is_digit c \<Longrightarrow> digit_value c < 10"
  unfolding is_digit_def digit_value_def by linarith

lemma digit_char_0: "digit_char 0 = CHR ''0''"
  using digit_char_value [of "CHR ''0''"] by (simp add: is_digit_def digit_value_def)

lemma not_digit [simp]: "\<not> is_digit CHR '':''" "\<not> is_digit CHR ''-''" "\<not> is_digit CHR ''.''"
  by (simp_all add: is_digit_def)

subsection \<open>Naturals\<close>

fun show_nat :: "nat \<Rightarrow> string" where
  "show_nat n = (if n < 10 then [digit_char n] else show_nat (n div 10) @ [digit_char (n mod 10)])"

declare show_nat.simps [simp del]

definition digits_value :: "string \<Rightarrow> nat" where
  "digits_value s = foldl (\<lambda>n c. 10 * n + digit_value c) 0 s"

lemma show_nat_nonempty [simp]: "show_nat n \<noteq> []"
  by (subst show_nat.simps) simp

lemma digits_value_snoc: "digits_value (s @ [c]) = 10 * digits_value s + digit_value c"
  by (simp add: digits_value_def)

lemma digits_value_show_nat [simp]: "digits_value (show_nat n) = n"
proof (induction n rule: show_nat.induct)
  case (1 n)
  show ?case
  proof (cases "n < 10")
    case True
    then show ?thesis by (subst show_nat.simps) (simp add: digits_value_def)
  next
    case False
    with 1 have "digits_value (show_nat (n div 10)) = n div 10" by simp
    with False show ?thesis by (subst show_nat.simps) (simp add: digits_value_snoc)
  qed
qed

lemma show_nat_inj: "show_nat m = show_nat n \<Longrightarrow> m = n"
  by (metis digits_value_show_nat)

lemma show_nat_digits: "list_all is_digit (show_nat n)"
proof (induction n rule: show_nat.induct)
  case (1 n)
  then show ?case by (subst show_nat.simps) auto
qed

text \<open>A text is the decimal of a natural when it is nonempty, of digits, and has no leading zero.\<close>

definition decimal_text :: "string \<Rightarrow> bool" where
  "decimal_text s \<longleftrightarrow> s \<noteq> [] \<and> list_all is_digit s \<and> (hd s = CHR ''0'' \<longrightarrow> s = ''0'')"

lemma show_nat_hd: "hd (show_nat n) = CHR ''0'' \<longleftrightarrow> n = 0"
proof (induction n rule: show_nat.induct)
  case (1 n)
  show ?case
  proof (cases "n < 10")
    case True
    have "digit_char n = digit_char 0 \<longleftrightarrow> n = 0"
      using digit_char_simps(2) [OF True] digit_char_simps(2) [of 0] by force
    with True show ?thesis by (subst show_nat.simps) (simp add: digit_char_0)
  next
    case False
    with 1 show ?thesis by (subst show_nat.simps) (simp add: div_eq_0_iff)
  qed
qed

lemma decimal_text_show_nat: "decimal_text (show_nat n)"
proof -
  have "hd (show_nat n) = CHR ''0'' \<Longrightarrow> show_nat n = ''0''"
    by (simp add: show_nat_hd) (subst show_nat.simps, simp add: digit_char_0)
  then show ?thesis by (simp add: decimal_text_def show_nat_digits)
qed

lemma digits_value_pos:
  "list_all is_digit s \<Longrightarrow> s \<noteq> [] \<Longrightarrow> hd s \<noteq> CHR ''0'' \<Longrightarrow> 0 < digits_value s"
proof (induction s rule: rev_induct)
  case (snoc c s)
  show ?case
  proof (cases "s = []")
    case True
    with snoc.prems digit_char_value [of c] show ?thesis
      by (auto simp: digits_value_def digit_char_0 intro!: gr0I)
  next
    case False
    with snoc show ?thesis by (simp add: digits_value_snoc)
  qed
qed simp

text \<open>A decimal text is the one that its number is written as.\<close>

lemma show_nat_digits_value: "decimal_text s \<Longrightarrow> show_nat (digits_value s) = s"
proof (induction s rule: rev_induct)
  case Nil
  then show ?case by (simp add: decimal_text_def)
next
  case (snoc c s)
  have c: "is_digit c" using snoc.prems by (simp add: decimal_text_def)
  note d = digit_char_value [OF c] digit_value_less [OF c]
  show ?case
  proof (cases "s = []")
    case True
    with d show ?thesis by (subst show_nat.simps) (simp add: digits_value_def)
  next
    case False
    with snoc.prems have s: "decimal_text s" "hd s \<noteq> CHR ''0''"
      by (auto simp: decimal_text_def)
    then have "0 < digits_value s" using digits_value_pos by (auto simp: decimal_text_def)
    with d snoc.IH [OF s(1)] show ?thesis by (subst show_nat.simps) (simp add: digits_value_snoc)
  qed
qed

subsection \<open>Integers\<close>

definition show_int :: "int \<Rightarrow> string" where
  "show_int i = (if i < 0 then CHR ''-'' # show_nat (nat (- i)) else show_nat (nat i))"

lemma show_nat_not_minus: "show_nat n \<noteq> CHR ''-'' # s"
  using show_nat_digits [of n] by auto

lemma show_int_inj: "show_int i = show_int j \<Longrightarrow> i = j"
  using show_nat_not_minus show_nat_not_minus [THEN not_sym]
  by (auto simp: show_int_def dest!: show_nat_inj split: if_splits)

lemma show_nat_no_colon [simp]: "CHR '':'' \<notin> set (show_nat n)"
  using show_nat_digits [of n] not_digit(1) unfolding list_all_iff by blast

lemma show_int_no_colon [simp]: "CHR '':'' \<notin> set (show_int i)"
  by (simp add: show_int_def)

subsection \<open>Colon-separated keys\<close>

lemma colon_prefix_inj:
  assumes "a @ CHR '':'' # x = b @ CHR '':'' # y" "CHR '':'' \<notin> set a" "CHR '':'' \<notin> set b"
  shows "a = b \<and> x = y"
  using assms
proof (induction a arbitrary: b)
  case Nil
  then show ?case by (cases b) auto
next
  case (Cons c a)
  then show ?case by (cases b) auto
qed

lemma colon_suffix_inj:
  assumes "x @ CHR '':'' # a = y @ CHR '':'' # b" "CHR '':'' \<notin> set a" "CHR '':'' \<notin> set b"
  shows "a = b \<and> x = y"
proof -
  have "rev a @ CHR '':'' # rev x = rev b @ CHR '':'' # rev y"
    using assms(1) by (metis append_Cons append_Nil append_assoc rev.simps(2) rev_append)
  from colon_prefix_inj [OF this] assms(2,3) show ?thesis by simp
qed

end
