(* ===== verification/Lifecycle.thy ===== *)
theory Lifecycle
  imports Texts
begin

text \<open>
  The status machines of \<^verbatim>\<open>app/transitions.py\<close> over the enumerations of
  \<^verbatim>\<open>app/models.py\<close>: candidates, sell intents, execution envelopes and orders. The
  tables are functions to the set of allowed targets. The contract \<open>transition_table\<close> says what the
  planners and the event logs rely on of a table: a rank that never falls, and rises on every edge
  into a status that can be entered only once.
\<close>

subsection \<open>The enumerations\<close>

datatype candidate_status =
    Candidate_PENDING | Candidate_APPROVED | Candidate_REJECTED | Candidate_EXPIRED | Candidate_ORDERED

datatype sell_intent_status =
    Sell_PENDING | Sell_APPROVED | Sell_REJECTED | Sell_EXPIRED | Sell_ORDERED

datatype envelope_status =
    Envelope_PENDING | Envelope_APPROVED | Envelope_ACTIVE | Envelope_FROZEN | Envelope_COMPLETED
  | Envelope_EXPIRED | Envelope_EXHAUSTED | Envelope_BREACHED | Envelope_SUPERSEDED | Envelope_CANCELLED

datatype order_status =
    Order_CREATED | Order_SUBMITTING | Order_SUBMITTED | Order_PARTIALLY_FILLED | Order_CANCEL_PENDING
  | Order_FILLED | Order_CANCELED | Order_REJECTED | Order_TIMEOUT_QUARANTINE

fun order_status_value :: "order_status \<Rightarrow> string" where
  "order_status_value Order_CREATED = ''created''"
| "order_status_value Order_SUBMITTING = ''submitting''"
| "order_status_value Order_SUBMITTED = ''submitted''"
| "order_status_value Order_PARTIALLY_FILLED = ''partially_filled''"
| "order_status_value Order_CANCEL_PENDING = ''cancel_pending''"
| "order_status_value Order_FILLED = ''filled''"
| "order_status_value Order_CANCELED = ''canceled''"
| "order_status_value Order_REJECTED = ''rejected''"
| "order_status_value Order_TIMEOUT_QUARANTINE = ''timeout_quarantine''"

fun envelope_status_value :: "envelope_status \<Rightarrow> string" where
  "envelope_status_value Envelope_PENDING = ''pending''"
| "envelope_status_value Envelope_APPROVED = ''approved''"
| "envelope_status_value Envelope_ACTIVE = ''active''"
| "envelope_status_value Envelope_FROZEN = ''frozen''"
| "envelope_status_value Envelope_COMPLETED = ''completed''"
| "envelope_status_value Envelope_EXPIRED = ''expired''"
| "envelope_status_value Envelope_EXHAUSTED = ''exhausted''"
| "envelope_status_value Envelope_BREACHED = ''breached''"
| "envelope_status_value Envelope_SUPERSEDED = ''superseded''"
| "envelope_status_value Envelope_CANCELLED = ''cancelled''"

lemma order_status_value_inj [simp]: "order_status_value s = order_status_value t \<longleftrightarrow> s = t"
  by (cases s; cases t) simp_all

lemma envelope_status_value_inj [simp]: "envelope_status_value s = envelope_status_value t \<longleftrightarrow> s = t"
  by (cases s; cases t) simp_all

lemma order_status_value_no_colon [simp]: "CHR '':'' \<notin> set (order_status_value s)"
  by (cases s) simp_all

lemma envelope_status_value_no_colon [simp]: "CHR '':'' \<notin> set (envelope_status_value s)"
  by (cases s) simp_all

subsection \<open>The tables\<close>

fun CANDIDATE_TRANSITIONS :: "candidate_status \<Rightarrow> candidate_status set" where
  "CANDIDATE_TRANSITIONS Candidate_PENDING = {Candidate_APPROVED, Candidate_REJECTED, Candidate_EXPIRED}"
| "CANDIDATE_TRANSITIONS Candidate_APPROVED = {Candidate_ORDERED}"
| "CANDIDATE_TRANSITIONS Candidate_REJECTED = {}"
| "CANDIDATE_TRANSITIONS Candidate_EXPIRED = {}"
| "CANDIDATE_TRANSITIONS Candidate_ORDERED = {}"

fun SELL_INTENT_TRANSITIONS :: "sell_intent_status \<Rightarrow> sell_intent_status set" where
  "SELL_INTENT_TRANSITIONS Sell_PENDING = {Sell_APPROVED, Sell_REJECTED, Sell_EXPIRED}"
| "SELL_INTENT_TRANSITIONS Sell_APPROVED = {Sell_ORDERED, Sell_EXPIRED}"
| "SELL_INTENT_TRANSITIONS Sell_REJECTED = {}"
| "SELL_INTENT_TRANSITIONS Sell_EXPIRED = {}"
| "SELL_INTENT_TRANSITIONS Sell_ORDERED = {}"

fun ENVELOPE_TRANSITIONS :: "envelope_status \<Rightarrow> envelope_status set" where
  "ENVELOPE_TRANSITIONS Envelope_PENDING = {Envelope_APPROVED, Envelope_CANCELLED, Envelope_EXPIRED}"
| "ENVELOPE_TRANSITIONS Envelope_APPROVED = {Envelope_ACTIVE, Envelope_CANCELLED, Envelope_EXPIRED}"
| "ENVELOPE_TRANSITIONS Envelope_ACTIVE =
     {Envelope_COMPLETED, Envelope_EXPIRED, Envelope_EXHAUSTED, Envelope_BREACHED, Envelope_SUPERSEDED,
      Envelope_FROZEN}"
| "ENVELOPE_TRANSITIONS Envelope_FROZEN = {Envelope_ACTIVE, Envelope_CANCELLED, Envelope_BREACHED}"
| "ENVELOPE_TRANSITIONS Envelope_COMPLETED = {}"
| "ENVELOPE_TRANSITIONS Envelope_EXPIRED = {}"
| "ENVELOPE_TRANSITIONS Envelope_EXHAUSTED = {}"
| "ENVELOPE_TRANSITIONS Envelope_BREACHED = {}"
| "ENVELOPE_TRANSITIONS Envelope_SUPERSEDED = {}"
| "ENVELOPE_TRANSITIONS Envelope_CANCELLED = {}"

fun ORDER_TRANSITIONS :: "order_status \<Rightarrow> order_status set" where
  "ORDER_TRANSITIONS Order_CREATED = {Order_CANCELED, Order_REJECTED}"
| "ORDER_TRANSITIONS Order_SUBMITTING =
     {Order_SUBMITTED, Order_CREATED, Order_CANCELED, Order_REJECTED, Order_TIMEOUT_QUARANTINE}"
| "ORDER_TRANSITIONS Order_TIMEOUT_QUARANTINE = {Order_SUBMITTED, Order_REJECTED, Order_CANCELED}"
| "ORDER_TRANSITIONS Order_SUBMITTED =
     {Order_PARTIALLY_FILLED, Order_FILLED, Order_CANCEL_PENDING, Order_CANCELED, Order_REJECTED}"
| "ORDER_TRANSITIONS Order_PARTIALLY_FILLED =
     {Order_PARTIALLY_FILLED, Order_FILLED, Order_CANCEL_PENDING, Order_CANCELED}"
| "ORDER_TRANSITIONS Order_CANCEL_PENDING =
     {Order_CANCEL_PENDING, Order_FILLED, Order_CANCELED, Order_REJECTED}"
| "ORDER_TRANSITIONS Order_FILLED = {}"
| "ORDER_TRANSITIONS Order_CANCELED = {}"
| "ORDER_TRANSITIONS Order_REJECTED = {}"

text \<open>
  The claim writes \<^verbatim>\<open>SUBMITTING\<close> without consulting the table; the machine of an order has
  that edge besides the table's.
\<close>

definition order_edges :: "order_status \<Rightarrow> order_status set" where
  "order_edges s = ORDER_TRANSITIONS s \<union> (if s = Order_CREATED then {Order_SUBMITTING} else {})"

subsection \<open>The contract of a table\<close>

locale transition_table =
  fixes targets :: "'s \<Rightarrow> 's set"
    and rank :: "'s \<Rightarrow> nat"
    and repeats :: "'s \<Rightarrow> bool"
  assumes rank_mono: "t \<in> targets s \<Longrightarrow> rank s \<le> rank t"
    and rank_rises: "t \<in> targets s \<Longrightarrow> t \<noteq> s \<Longrightarrow> \<not> repeats t \<Longrightarrow> rank s < rank t"
begin

abbreviation moves :: "'s \<Rightarrow> 's \<Rightarrow> bool" where
  "moves \<equiv> (\<lambda>s t. t \<in> targets s)\<^sup>*\<^sup>*"

lemma moves_rank: "moves s t \<Longrightarrow> rank s \<le> rank t"
  by (induction rule: rtranclp_induct) (auto dest: rank_mono)

lemma terminal_absorbs: "moves s t \<Longrightarrow> targets s = {} \<Longrightarrow> t = s"
  by (induction rule: rtranclp_induct) auto

text \<open>A status that does not repeat is never entered again from another status it led to.\<close>

lemma no_reentry: "moves t s \<Longrightarrow> t \<in> targets s \<Longrightarrow> \<not> repeats t \<Longrightarrow> s = t"
  using moves_rank [of t s] rank_rises [of t s] by fastforce

end

fun candidate_rank :: "candidate_status \<Rightarrow> nat" where
  "candidate_rank Candidate_PENDING = 0"
| "candidate_rank Candidate_APPROVED = 1"
| "candidate_rank _ = 2"

fun sell_rank :: "sell_intent_status \<Rightarrow> nat" where
  "sell_rank Sell_PENDING = 0"
| "sell_rank Sell_APPROVED = 1"
| "sell_rank _ = 2"

fun envelope_rank :: "envelope_status \<Rightarrow> nat" where
  "envelope_rank Envelope_PENDING = 0"
| "envelope_rank Envelope_APPROVED = 1"
| "envelope_rank Envelope_ACTIVE = 2"
| "envelope_rank Envelope_FROZEN = 2"
| "envelope_rank _ = 3"

fun order_rank :: "order_status \<Rightarrow> nat" where
  "order_rank Order_CREATED = 0"
| "order_rank Order_SUBMITTING = 0"
| "order_rank Order_TIMEOUT_QUARANTINE = 1"
| "order_rank Order_SUBMITTED = 2"
| "order_rank Order_PARTIALLY_FILLED = 3"
| "order_rank Order_CANCEL_PENDING = 4"
| "order_rank _ = 5"

definition order_repeats :: "order_status \<Rightarrow> bool" where
  "order_repeats s \<longleftrightarrow> s = Order_CREATED \<or> s = Order_SUBMITTING"

definition envelope_repeats :: "envelope_status \<Rightarrow> bool" where
  "envelope_repeats s \<longleftrightarrow> s = Envelope_ACTIVE \<or> s = Envelope_FROZEN"

interpretation candidate_table: transition_table CANDIDATE_TRANSITIONS candidate_rank "\<lambda>_. False"
proof
  fix s t assume "t \<in> CANDIDATE_TRANSITIONS s"
  then show "candidate_rank s \<le> candidate_rank t" "t \<noteq> s \<Longrightarrow> candidate_rank s < candidate_rank t"
    by (cases s; auto)+
qed

interpretation sell_table: transition_table SELL_INTENT_TRANSITIONS sell_rank "\<lambda>_. False"
proof
  fix s t assume "t \<in> SELL_INTENT_TRANSITIONS s"
  then show "sell_rank s \<le> sell_rank t" "t \<noteq> s \<Longrightarrow> sell_rank s < sell_rank t"
    by (cases s; auto)+
qed

interpretation envelope_table: transition_table ENVELOPE_TRANSITIONS envelope_rank envelope_repeats
proof
  fix s t assume "t \<in> ENVELOPE_TRANSITIONS s"
  then show "envelope_rank s \<le> envelope_rank t"
    "t \<noteq> s \<Longrightarrow> \<not> envelope_repeats t \<Longrightarrow> envelope_rank s < envelope_rank t"
    by (cases s; auto simp: envelope_repeats_def)+
qed

interpretation order_table: transition_table order_edges order_rank order_repeats
proof
  fix s t assume "t \<in> order_edges s"
  then show "order_rank s \<le> order_rank t"
    "t \<noteq> s \<Longrightarrow> \<not> order_repeats t \<Longrightarrow> order_rank s < order_rank t"
    by (cases s; auto simp: order_repeats_def order_edges_def)+
qed

lemma order_terminal_iff: "ORDER_TRANSITIONS s = {} \<longleftrightarrow> order_rank s = 5"
  by (cases s) simp_all

lemma envelope_terminal_iff: "ENVELOPE_TRANSITIONS s = {} \<longleftrightarrow> envelope_rank s = 3"
  by (cases s) simp_all

end
