(* ===== verification/Event_Log.thy ===== *)
theory Event_Log
  imports Lifecycle Identity
begin

text \<open>
  The append-only execution-event log of the stores: \<^verbatim>\<open>ExecutionEvent\<close> of
  \<^verbatim>\<open>app/models.py\<close> and \<^verbatim>\<open>_append_execution_event_unlocked\<close> of
  \<^verbatim>\<open>app/store/memory.py\<close>, with the dedupe rule and the sequence numbers, and the
  contract \<open>read_model\<close> between a table and the log it is a read model of.

  Left out of the record are the fields that no modelled function reads: the random id of the event,
  its ingest time and schema version, and the two unused spawn handles; so an append cannot fail on a
  repeated id. A payload is a JSON object, a map from texts to values, which the normalisation of the
  payload on append leaves as it is. A float is its 64-bit pattern; the log stores and compares it. An instant is a number of microseconds; where the source reads the clock, the instant is an
  argument.
\<close>

type_synonym instant = int

subsection \<open>Floats as bit patterns\<close>

type_synonym float64 = "64 word"

definition float_finite :: "float64 \<Rightarrow> bool" where
  "float_finite b \<longleftrightarrow> uint b mod 2 ^ 63 < 2047 * 2 ^ 52"

text \<open>The order of the finite floats is that of their sign-and-magnitude numbers.\<close>

definition float_key :: "float64 \<Rightarrow> int" where
  "float_key b = (if uint b < 2 ^ 63 then uint b else 2 ^ 63 - uint b)"

subsection \<open>Event values\<close>

datatype pyval = PNone | PBool bool | PInt int | PFloat float64 | PStr string | PList "pyval list" |
  PDict "(string \<times> pyval) list"

type_synonym payload = "string \<rightharpoonup> pyval"

datatype order_side = Side_BUY | Side_SELL

datatype event_source =
    Source_ENGINE | Source_BROKER_STREAM | Source_BROKER_REST | Source_RECONCILIATION | Source_OPERATOR

datatype event_authority =
    Authority_BROKER_AUTHORITATIVE | Authority_LOCAL | Authority_SYNTHETIC | Authority_HUMAN_ATTESTED

datatype execution_event_type =
    Event_FILL | Event_SUBMIT_PENDING | Event_VENUE_ORDER_SCOPE | Event_SUBMIT_RELEASED |
  Event_SUBMITTED | Event_ACCEPTED | Event_PARTIALLY_FILLED | Event_CANCEL_PENDING | Event_FILLED |
  Event_CANCELED | Event_REJECTED | Event_EXPIRED | Event_REPLACED | Event_TIMEOUT_QUARANTINE |
  Event_UNKNOWN_RECONCILE_REQUIRED | Event_TRADING_STATE_CHANGED | Event_QUARANTINED |
  Event_EMERGENCY_REDUCE_OVERRIDE | Event_EMERGENCY_REDUCE_OVERRIDE_RESOLVED | Event_SIGNAL_RECEIVED |
  Event_SIGNAL_QUARANTINED | Event_SIGNAL_EXPIRED | Event_SIGNAL_DUPLICATE_CONFLICT |
  Event_SIGNAL_REJECTED | Event_SIGNAL_APPROVED | Event_PRODUCER_QUARANTINED | Event_PRODUCER_RELEASED
  | Event_ENVELOPE_CREATED | Event_ENVELOPE_APPROVED | Event_ENVELOPE_ACTIVATED |
  Event_ENVELOPE_ACTION | Event_ENVELOPE_FILL_ATTRIBUTED |
  Event_ENVELOPE_ATTRIBUTION_REPAIR_CHECKPOINT | Event_SUBMIT_ACCEPTANCE_REPAIR_CHECKPOINT |
  Event_ENVELOPE_COMPLETED | Event_ENVELOPE_BREACHED | Event_ENVELOPE_EXHAUSTED |
  Event_ENVELOPE_EXPIRED | Event_ENVELOPE_FROZEN | Event_ENVELOPE_RESUMED | Event_ENVELOPE_SUPERSEDED
  | Event_ENVELOPE_CANCELLED | Event_ENVELOPE_PLAN_DIVERGENCE |
  Event_SUBMIT_RECOVERY_OPERATOR_RECONCILED

fun execution_event_type_value :: "execution_event_type \<Rightarrow> string" where
  "execution_event_type_value Event_FILL = ''fill''"
| "execution_event_type_value Event_SUBMIT_PENDING = ''submit_pending''"
| "execution_event_type_value Event_VENUE_ORDER_SCOPE = ''venue_order_scope''"
| "execution_event_type_value Event_SUBMIT_RELEASED = ''submit_released''"
| "execution_event_type_value Event_SUBMITTED = ''submitted''"
| "execution_event_type_value Event_ACCEPTED = ''accepted''"
| "execution_event_type_value Event_PARTIALLY_FILLED = ''partially_filled''"
| "execution_event_type_value Event_CANCEL_PENDING = ''cancel_pending''"
| "execution_event_type_value Event_FILLED = ''filled''"
| "execution_event_type_value Event_CANCELED = ''canceled''"
| "execution_event_type_value Event_REJECTED = ''rejected''"
| "execution_event_type_value Event_EXPIRED = ''expired''"
| "execution_event_type_value Event_REPLACED = ''replaced''"
| "execution_event_type_value Event_TIMEOUT_QUARANTINE = ''timeout_quarantine''"
| "execution_event_type_value Event_UNKNOWN_RECONCILE_REQUIRED = ''unknown_reconcile_required''"
| "execution_event_type_value Event_TRADING_STATE_CHANGED = ''trading_state_changed''"
| "execution_event_type_value Event_QUARANTINED = ''quarantined''"
| "execution_event_type_value Event_EMERGENCY_REDUCE_OVERRIDE = ''emergency_reduce_override''"
| "execution_event_type_value Event_EMERGENCY_REDUCE_OVERRIDE_RESOLVED = ''emergency_reduce_override_resolved''"
| "execution_event_type_value Event_SIGNAL_RECEIVED = ''signal_received''"
| "execution_event_type_value Event_SIGNAL_QUARANTINED = ''signal_quarantined''"
| "execution_event_type_value Event_SIGNAL_EXPIRED = ''signal_expired''"
| "execution_event_type_value Event_SIGNAL_DUPLICATE_CONFLICT = ''signal_duplicate_conflict''"
| "execution_event_type_value Event_SIGNAL_REJECTED = ''signal_rejected''"
| "execution_event_type_value Event_SIGNAL_APPROVED = ''signal_approved''"
| "execution_event_type_value Event_PRODUCER_QUARANTINED = ''producer_quarantined''"
| "execution_event_type_value Event_PRODUCER_RELEASED = ''producer_released''"
| "execution_event_type_value Event_ENVELOPE_CREATED = ''envelope_created''"
| "execution_event_type_value Event_ENVELOPE_APPROVED = ''envelope_approved''"
| "execution_event_type_value Event_ENVELOPE_ACTIVATED = ''envelope_activated''"
| "execution_event_type_value Event_ENVELOPE_ACTION = ''envelope_action''"
| "execution_event_type_value Event_ENVELOPE_FILL_ATTRIBUTED = ''envelope_fill_attributed''"
| "execution_event_type_value Event_ENVELOPE_ATTRIBUTION_REPAIR_CHECKPOINT = ''envelope_attribution_repair_checkpoint''"
| "execution_event_type_value Event_SUBMIT_ACCEPTANCE_REPAIR_CHECKPOINT = ''submit_acceptance_repair_checkpoint''"
| "execution_event_type_value Event_ENVELOPE_COMPLETED = ''envelope_completed''"
| "execution_event_type_value Event_ENVELOPE_BREACHED = ''envelope_breached''"
| "execution_event_type_value Event_ENVELOPE_EXHAUSTED = ''envelope_exhausted''"
| "execution_event_type_value Event_ENVELOPE_EXPIRED = ''envelope_expired''"
| "execution_event_type_value Event_ENVELOPE_FROZEN = ''envelope_frozen''"
| "execution_event_type_value Event_ENVELOPE_RESUMED = ''envelope_resumed''"
| "execution_event_type_value Event_ENVELOPE_SUPERSEDED = ''envelope_superseded''"
| "execution_event_type_value Event_ENVELOPE_CANCELLED = ''envelope_cancelled''"
| "execution_event_type_value Event_ENVELOPE_PLAN_DIVERGENCE = ''envelope_plan_divergence''"
| "execution_event_type_value Event_SUBMIT_RECOVERY_OPERATOR_RECONCILED = ''submit_recovery_operator_reconciled''"

record execution_event =
  ev_sequence :: nat
  ev_event_type :: execution_event_type
  ev_source :: event_source
  ev_authority :: event_authority
  ev_dedupe_key :: "string option"
  ev_ts_event :: "instant option"
  ev_symbol :: "string option"
  ev_side :: "order_side option"
  ev_quantity :: "int option"
  ev_price :: "float64 option"
  ev_order_id :: "string option"
  ev_envelope_id :: "string option"
  ev_session_id :: "string option"
  ev_correlation_id :: "string option"
  ev_payload :: payload

text \<open>An event with the three required fields and the defaults of the others.\<close>

definition draft_event :: "execution_event_type \<Rightarrow> event_source \<Rightarrow> event_authority \<Rightarrow> execution_event" where
  "draft_event event_type source authority =
     \<lparr>ev_sequence = 0, ev_event_type = event_type, ev_source = source, ev_authority = authority,
      ev_dedupe_key = None, ev_ts_event = None, ev_symbol = None, ev_side = None, ev_quantity = None,
      ev_price = None, ev_order_id = None, ev_envelope_id = None, ev_session_id = None,
      ev_correlation_id = None, ev_payload = Map.empty\<rparr>"

text \<open>The audit row a planner hands to its store.\<close>

record event_spec =
  sp_event_type :: string
  sp_message :: string
  sp_symbol :: "string option"
  sp_candidate_id :: "string option"
  sp_order_id :: "string option"
  sp_fill_id :: "string option"
  sp_payload :: payload
  sp_session_id :: "string option"
  sp_correlation_id :: "string option"

definition draft_spec :: "string \<Rightarrow> event_spec" where
  "draft_spec event_type =
     \<lparr>sp_event_type = event_type, sp_message = [], sp_symbol = None, sp_candidate_id = None,
      sp_order_id = None, sp_fill_id = None, sp_payload = Map.empty, sp_session_id = None, sp_correlation_id = None\<rparr>"

text \<open>The errors the planners put into a rejecting plan, and those of the projections.\<close>

datatype store_error =
    OrderTransitionError | InvalidOrderError | EnvelopeTransitionError | InvalidFillError
  | ProjectionError | AssertionError | StoreValueError | StoreKeyError | UnknownEntityError
  | CandidateTransitionError | OrderIntentBlockedError | RiskLimitBlockedError
  | SessionClosedError | SessionAlreadyClosedError | SellIntentTransitionError | StoreExn py_exn

subsection \<open>Appending\<close>

type_synonym event_log = "execution_event list"

definition has_key :: "event_log \<Rightarrow> string \<Rightarrow> bool" where
  "has_key events k \<longleftrightarrow> (\<exists>e \<in> set events. ev_dedupe_key e = Some k)"

definition stamped :: "event_log \<Rightarrow> execution_event \<Rightarrow> execution_event" where
  "stamped events e = e\<lparr>ev_sequence := (if events = [] then 0 else ev_sequence (last events)) + 1\<rparr>"

definition append_execution_event :: "event_log \<Rightarrow> execution_event \<Rightarrow> execution_event \<times> event_log" where
  "append_execution_event events e =
     (case find (\<lambda>x. ev_dedupe_key e \<noteq> None \<and> ev_dedupe_key x = ev_dedupe_key e) events of
        Some existing \<Rightarrow> (existing, events)
      | None \<Rightarrow> (stamped events e, events @ [stamped events e]))"

definition append_all :: "event_log \<Rightarrow> execution_event list \<Rightarrow> event_log" where
  "append_all events es = fold (\<lambda>e events. snd (append_execution_event events e)) es events"

lemma draft_event_simps [simp]:
  "ev_event_type (draft_event t s a) = t" "ev_source (draft_event t s a) = s"
  "ev_authority (draft_event t s a) = a" "ev_dedupe_key (draft_event t s a) = None"
  "ev_symbol (draft_event t s a) = None" "ev_side (draft_event t s a) = None"
  "ev_quantity (draft_event t s a) = None" "ev_order_id (draft_event t s a) = None"
  "ev_envelope_id (draft_event t s a) = None" "ev_session_id (draft_event t s a) = None"
  "ev_correlation_id (draft_event t s a) = None" "ev_payload (draft_event t s a) = Map.empty"
  by (simp_all add: draft_event_def)

lemma stamped_simps [simp]:
  "ev_event_type (stamped events e) = ev_event_type e" "ev_source (stamped events e) = ev_source e"
  "ev_authority (stamped events e) = ev_authority e" "ev_dedupe_key (stamped events e) = ev_dedupe_key e"
  "ev_symbol (stamped events e) = ev_symbol e" "ev_side (stamped events e) = ev_side e"
  "ev_quantity (stamped events e) = ev_quantity e" "ev_order_id (stamped events e) = ev_order_id e"
  "ev_envelope_id (stamped events e) = ev_envelope_id e" "ev_session_id (stamped events e) = ev_session_id e"
  "ev_correlation_id (stamped events e) = ev_correlation_id e" "ev_payload (stamped events e) = ev_payload e"
  "ev_price (stamped events e) = ev_price e" "ev_ts_event (stamped events e) = ev_ts_event e"
  by (simp_all add: stamped_def)

text \<open>An event whose key is new, or that has none, is added at the end; any other changes nothing.\<close>

lemma append_new:
  "ev_dedupe_key e = None \<or> \<not> has_key events (the (ev_dedupe_key e)) \<Longrightarrow>
   append_execution_event events e = (stamped events e, events @ [stamped events e])"
  by (auto simp: append_execution_event_def has_key_def find_None_iff split: option.splits)

lemma append_known:
  "ev_dedupe_key e = Some k \<Longrightarrow> has_key events k \<Longrightarrow> snd (append_execution_event events e) = events"
  by (auto simp: append_execution_event_def has_key_def find_None_iff split: option.splits)

lemma append_cases:
  obtains (new) "append_execution_event events e = (stamped events e, events @ [stamped events e])"
      "ev_dedupe_key e = None \<or> \<not> has_key events (the (ev_dedupe_key e))"
  | (known) k where "ev_dedupe_key e = Some k" "has_key events k" "snd (append_execution_event events e) = events"
  using append_new append_known by (metis option.exhaust_sel)

definition well_sequenced :: "event_log \<Rightarrow> bool" where
  "well_sequenced events \<longleftrightarrow> map ev_sequence events = [1..<Suc (length events)] \<and>
     distinct (List.map_filter ev_dedupe_key events)"

lemma well_sequenced_last: "well_sequenced events \<Longrightarrow> events \<noteq> [] \<Longrightarrow> ev_sequence (last events) = length events"
  by (cases events rule: rev_cases) (auto simp: well_sequenced_def)

lemma map_filter_keys: "k \<in> set (List.map_filter ev_dedupe_key events) \<longleftrightarrow> has_key events k"
  by (auto simp: has_key_def List.map_filter_def intro!: rev_image_eqI)

lemma well_sequenced_append:
  assumes "well_sequenced events"
  shows "well_sequenced (snd (append_execution_event events e))"
proof (cases rule: append_cases [of events e])
  case new
  have "ev_sequence (stamped events e) = Suc (length events)"
    using well_sequenced_last [OF assms] by (simp add: stamped_def)
  moreover have "distinct (List.map_filter ev_dedupe_key (events @ [stamped events e]))"
    using assms new(2) map_filter_keys
    by (cases "ev_dedupe_key e") (auto simp: well_sequenced_def List.map_filter_def)
  ultimately show ?thesis
    using assms by (simp add: well_sequenced_def new(1))
next
  case known
  with assms show ?thesis by simp
qed

subsection \<open>Tables that are read models of the log\<close>

text \<open>
  A store keeps tables beside the log and promises that a row is what the projection of the log says.
  The contract names the writes, an invariant that every write keeps, and that the invariant gives the
  promise; every run then keeps it.
\<close>

locale read_model =
  fixes start :: "'s \<Rightarrow> bool"
    and writes :: "'s \<Rightarrow> 's \<Rightarrow> bool"
    and inv :: "'s \<Rightarrow> bool"
    and column :: "'s \<Rightarrow> 'k \<Rightarrow> 'v option"
    and projection :: "'s \<Rightarrow> 'k \<Rightarrow> 'v"
  assumes start_inv: "start s \<Longrightarrow> inv s"
    and writes_inv: "inv s \<Longrightarrow> writes s s' \<Longrightarrow> inv s'"
    and inv_agrees: "inv s \<Longrightarrow> column s k = Some v \<Longrightarrow> projection s k = v"
begin

lemma run_inv: "writes\<^sup>*\<^sup>* s s' \<Longrightarrow> start s \<Longrightarrow> inv s'"
  by (induction rule: rtranclp_induct) (auto intro: start_inv writes_inv)

lemma run_agrees: "writes\<^sup>*\<^sup>* s s' \<Longrightarrow> start s \<Longrightarrow> column s' k = Some v \<Longrightarrow> projection s' k = v"
  using run_inv inv_agrees by blast

end

end
