(* ===== verification/Orders.thy ===== *)
theory Orders
  imports Event_Log
begin

text \<open>
  The order planners of \<^verbatim>\<open>app/store/core.py\<close>, which both stores call under their lock:
  the generic transition, the submission claim with the control predicates of
  \<^verbatim>\<open>app/policy.py\<close>, the execution event a routine write emits, and the transitions whose
  durable truth is an execution event (timeout quarantine, its resolution, the reconciliation of an
  absent order). Arguments have their annotated types; the clock reading is the argument \<open>now\<close>.
\<close>

subsection \<open>Rows\<close>

datatype order_type = Type_LIMIT | Type_MARKET | Type_TRAILING_STOP

record order_row =
  or_id :: string
  or_candidate_id :: "string option"
  or_sell_intent_id :: "string option"
  or_symbol :: string
  or_side :: order_side
  or_order_type :: order_type
  or_quantity :: int
  or_limit_price :: "float64 option"
  or_status :: order_status
  or_filled_quantity :: int
  or_replaces_order_id :: "string option"
  or_broker_order_id :: "string option"
  or_session_id :: "string option"
  or_created_at :: instant
  or_updated_at :: instant
  or_submitted_at :: "instant option"
  or_filled_at :: "instant option"
  or_canceled_at :: "instant option"
  or_rejected_at :: "instant option"

text \<open>The origin check of the model's validator: exactly one of candidate and sell intent.\<close>

definition exactly_one_origin :: "order_row \<Rightarrow> order_row res" where
  "exactly_one_origin ord =
     require ((or_candidate_id ord \<noteq> None) \<noteq> (or_sell_intent_id ord \<noteq> None)) ValueError (Ok ord)"

datatype sell_reason = MANUAL_FLATTEN | PROTECTION_FLOOR

datatype session_status = Session_ACTIVE | Session_CLOSED

datatype trading_state = State_ACTIVE | State_REDUCING | State_HALTED

fun trading_state_value :: "trading_state \<Rightarrow> string" where
  "trading_state_value State_ACTIVE = ''active''"
| "trading_state_value State_REDUCING = ''reducing''"
| "trading_state_value State_HALTED = ''halted''"

definition trading_state_of :: "bool \<Rightarrow> bool \<Rightarrow> trading_state" where
  "trading_state_of kill_switch buys_paused =
     (if kill_switch then State_HALTED else if buys_paused then State_REDUCING else State_ACTIVE)"

record session_record =
  se_id :: string
  se_session_date :: string
  se_status :: session_status
  se_kill_switch :: bool
  se_buys_paused :: bool
  se_trading_state :: trading_state
  se_opened_at :: instant
  se_closed_at :: "instant option"
  se_created_at :: instant
  se_updated_at :: instant

subsection \<open>Control predicates\<close>

definition order_intent_block_reason :: "session_record option \<Rightarrow> string option" where
  "order_intent_block_reason session =
     (case session of
        None \<Rightarrow> None
      | Some s \<Rightarrow> (case se_trading_state s of
          State_HALTED \<Rightarrow> Some ''kill_switch''
        | State_REDUCING \<Rightarrow> Some ''buys_paused''
        | State_ACTIVE \<Rightarrow> None))"

definition session_submission_block_reason :: "session_record option \<Rightarrow> string option" where
  "session_submission_block_reason session =
     (case session of
        None \<Rightarrow> Some ''unknown_session''
      | Some s \<Rightarrow> if se_status s = Session_CLOSED then Some ''session_closed''
                  else order_intent_block_reason session)"

definition kill_switch_block_reason :: "session_record option \<Rightarrow> string option" where
  "kill_switch_block_reason session =
     (case session of
        None \<Rightarrow> None
      | Some s \<Rightarrow> if se_trading_state s = State_HALTED then Some ''kill_switch'' else None)"

definition whole_count_reason :: "int \<Rightarrow> string option" where
  "whole_count_reason v = (if v < 0 then Some ''negative'' else None)"

definition filled_quantity_reason :: "order_row \<Rightarrow> int \<Rightarrow> string option" where
  "filled_quantity_reason ord new_filled_quantity =
     (case whole_count_reason new_filled_quantity of
        Some base \<Rightarrow> Some (base @ ''_filled_quantity'')
      | None \<Rightarrow>
          if new_filled_quantity > or_quantity ord then Some ''filled_quantity_exceeds_order_quantity''
          else if new_filled_quantity < or_filled_quantity ord then Some ''filled_quantity_decreased''
          else None)"

definition concrete_id :: "string option \<Rightarrow> bool" where
  "concrete_id i = (case i of Some s \<Rightarrow> \<not> is_blank s | None \<Rightarrow> False)"

subsection \<open>The generic transition\<close>

datatype order_plan =
    Order_Reject store_error
  | Order_Noop
  | Order_Apply (planned_order: order_row) (planned_event: event_spec)

definition COMMAND_ACTOR_SYSTEM :: string where
  "COMMAND_ACTOR_SYSTEM = ''system''"

text \<open>The timestamp table: a status stamps its column unless the column is set.\<close>

fun order_timestamp :: "order_status \<Rightarrow> instant \<Rightarrow> order_row \<Rightarrow> order_row" where
  "order_timestamp Order_SUBMITTED now ord =
     (if or_submitted_at ord = None then ord\<lparr>or_submitted_at := Some now\<rparr> else ord)"
| "order_timestamp Order_FILLED now ord =
     (if or_filled_at ord = None then ord\<lparr>or_filled_at := Some now\<rparr> else ord)"
| "order_timestamp Order_CANCELED now ord =
     (if or_canceled_at ord = None then ord\<lparr>or_canceled_at := Some now\<rparr> else ord)"
| "order_timestamp Order_REJECTED now ord =
     (if or_rejected_at ord = None then ord\<lparr>or_rejected_at := Some now\<rparr> else ord)"
| "order_timestamp _ now ord = ord"

definition transition_spec :: "order_row \<Rightarrow> order_status \<Rightarrow> order_status \<Rightarrow> string \<Rightarrow> event_spec" where
  "transition_spec updated current new_status actor =
     (draft_spec ''order_transition'')
       \<lparr>sp_message := ''order '' @ order_status_value current @ '' -> '' @ order_status_value new_status,
        sp_symbol := Some (or_symbol updated), sp_candidate_id := or_candidate_id updated,
        sp_order_id := Some (or_id updated),
        sp_payload := [''from'' \<mapsto> PStr (order_status_value current),
                       ''to'' \<mapsto> PStr (order_status_value new_status), ''actor'' \<mapsto> PStr actor],
        sp_session_id := or_session_id updated\<rparr>"

definition progress_spec :: "order_row \<Rightarrow> order_status \<Rightarrow> int \<Rightarrow> string option \<Rightarrow> event_spec" where
  "progress_spec updated current previous_filled changed_broker_id =
     (draft_spec ''order_fill_progress'')
       \<lparr>sp_message := ''order '' @ or_symbol updated @ '' fill progress '' @ show_int previous_filled @
                      '' -> '' @ show_int (or_filled_quantity updated),
        sp_symbol := Some (or_symbol updated), sp_candidate_id := or_candidate_id updated,
        sp_order_id := Some (or_id updated),
        sp_payload := [''status'' \<mapsto> PStr (order_status_value current),
                       ''previous_filled_quantity'' \<mapsto> PInt previous_filled,
                       ''filled_quantity'' \<mapsto> PInt (or_filled_quantity updated)] ++
                      (case changed_broker_id of Some b \<Rightarrow> [''broker_order_id'' \<mapsto> PStr b]
                       | None \<Rightarrow> Map.empty),
        sp_session_id := or_session_id updated\<rparr>"

definition plan_transition_order ::
  "order_row \<Rightarrow> order_status \<Rightarrow> int option \<Rightarrow> string option \<Rightarrow> string \<Rightarrow> instant \<Rightarrow> order_plan" where
  "plan_transition_order ord new_status filled_quantity broker_order_id actor now =
     (let current = or_status ord;
          status_changed = (new_status \<noteq> current);
          effective_broker_id =
            (if broker_order_id \<noteq> None then broker_order_id else or_broker_order_id ord);
          qty_changed = (filled_quantity \<noteq> None \<and> filled_quantity \<noteq> Some (or_filled_quantity ord));
          broker_changed = (broker_order_id \<noteq> None \<and> broker_order_id \<noteq> or_broker_order_id ord)
      in if status_changed \<and> new_status \<notin> ORDER_TRANSITIONS current
         then Order_Reject OrderTransitionError
         else if status_changed \<and> new_status = Order_SUBMITTED \<and> \<not> concrete_id effective_broker_id
         then Order_Reject OrderTransitionError
         else if concrete_id (or_broker_order_id ord) \<and> broker_order_id \<noteq> None \<and>
                 broker_order_id \<noteq> or_broker_order_id ord
         then Order_Reject InvalidOrderError
         else if (\<exists>q \<in> set_option filled_quantity. filled_quantity_reason ord q \<noteq> None)
         then Order_Reject InvalidOrderError
         else if \<not> status_changed \<and> \<not> qty_changed \<and> \<not> broker_changed
         then Order_Noop
         else
           let previous_filled = or_filled_quantity ord;
               updated = (if qty_changed then ord\<lparr>or_filled_quantity := the filled_quantity\<rparr> else ord);
               updated = (if broker_changed then updated\<lparr>or_broker_order_id := broker_order_id\<rparr>
                          else updated);
               updated = (if status_changed
                          then order_timestamp new_status now (updated\<lparr>or_status := new_status\<rparr>)
                          else updated);
               updated = updated\<lparr>or_updated_at := now\<rparr>
           in Order_Apply updated
                (if status_changed then transition_spec updated current new_status actor
                 else progress_spec updated current previous_filled
                        (if broker_changed then broker_order_id else None)))"

subsection \<open>The submission claim\<close>

definition buy_claim_hold_reason ::
  "session_record option \<Rightarrow> session_record option \<Rightarrow> string option" where
  "buy_claim_hold_reason own_session current_session =
     (case session_submission_block_reason own_session of
        Some hold \<Rightarrow> Some hold
      | None \<Rightarrow> map_option (\<lambda>b. ''current_'' @ b) (order_intent_block_reason current_session))"

definition claim_hold_reason ::
  "order_row \<Rightarrow> session_record option \<Rightarrow> session_record option \<Rightarrow> sell_reason option \<Rightarrow> bool \<Rightarrow>
   string option" where
  "claim_hold_reason ord own_session current_session reason quarantined =
     (let is_protective_sell = (or_side ord = Side_SELL \<and> or_sell_intent_id ord \<noteq> None \<and>
            or_candidate_id ord = None \<and> reason \<noteq> None)
      in if is_protective_sell \<and> reason = Some MANUAL_FLATTEN then None
         else if is_protective_sell \<and> reason = Some PROTECTION_FLOOR
         then (if kill_switch_block_reason own_session \<noteq> None then Some ''kill_switch''
               else if kill_switch_block_reason current_session \<noteq> None then Some ''current_kill_switch''
               else None)
         else if quarantined then Some ''symbol_quarantined''
         else buy_claim_hold_reason own_session current_session)"

datatype claim_plan =
    CLAIM_SKIPPED
  | CLAIM_BLOCKED string
  | CLAIM_CLAIMED order_row event_spec

definition plan_claim_order_for_submission ::
  "order_row option \<Rightarrow> session_record option \<Rightarrow> session_record option \<Rightarrow> sell_reason option \<Rightarrow> bool \<Rightarrow>
   bool \<Rightarrow> instant \<Rightarrow> claim_plan" where
  "plan_claim_order_for_submission maybe_order own_session current_session reason quarantined
     own_venue_uncertain now =
     (case maybe_order of
        None \<Rightarrow> CLAIM_SKIPPED
      | Some ord \<Rightarrow>
          if or_status ord \<noteq> Order_CREATED then CLAIM_SKIPPED
          else if concrete_id (or_broker_order_id ord)
          then CLAIM_BLOCKED ''order already has a concrete broker identity''
          else if own_venue_uncertain
          then CLAIM_BLOCKED ''order already has accepted-submit venue uncertainty''
          else (case claim_hold_reason ord own_session current_session reason quarantined of
            Some hold \<Rightarrow> CLAIM_BLOCKED hold
          | None \<Rightarrow>
              CLAIM_CLAIMED (ord\<lparr>or_status := Order_SUBMITTING, or_updated_at := now\<rparr>)
                ((draft_spec ''order_submission_claimed'')
                   \<lparr>sp_message := ''submission claimed for '' @ or_symbol ord,
                    sp_symbol := Some (or_symbol ord), sp_candidate_id := or_candidate_id ord,
                    sp_order_id := Some (or_id ord),
                    sp_payload := [''from'' \<mapsto> PStr ''created'', ''to'' \<mapsto> PStr ''submitting''],
                    sp_session_id := or_session_id ord\<rparr>)))"

end
