(* ===== verification/Envelopes.thy ===== *)
theory Envelopes
  imports Orders
begin

text \<open>
  Execution envelopes: the row and its construction checks (\<^verbatim>\<open>app/models.py\<close>), and the
  planners of \<^verbatim>\<open>app/store/core.py\<close> for one status transition, for a fill and for the
  amendment by supersession, with the events they emit.
\<close>

subsection \<open>The row\<close>

datatype session_type = PRE_MARKET | REGULAR | AFTER_HOURS

fun session_type_value :: "session_type \<Rightarrow> string" where
  "session_type_value PRE_MARKET = ''pre_market''"
| "session_type_value REGULAR = ''regular''"
| "session_type_value AFTER_HOURS = ''after_hours''"

datatype expiry_disposition = CANCEL_AND_RETURN | REST_AT_FLOOR

fun expiry_disposition_value :: "expiry_disposition \<Rightarrow> string" where
  "expiry_disposition_value CANCEL_AND_RETURN = ''cancel_and_return''"
| "expiry_disposition_value REST_AT_FLOOR = ''rest_at_floor''"

datatype stale_data_disposition = LEAVE_RESTING | STALE_CANCEL

fun stale_data_disposition_value :: "stale_data_disposition \<Rightarrow> string" where
  "stale_data_disposition_value LEAVE_RESTING = ''leave_resting''"
| "stale_data_disposition_value STALE_CANCEL = ''cancel''"

text \<open>The deadline: its instant, whether it has a time zone, and its text.\<close>

record deadline =
  dl_at :: instant
  dl_aware :: bool
  dl_isoformat :: string

record execution_envelope =
  en_id :: string
  en_sell_intent_id :: string
  en_symbol :: string
  en_side :: order_side
  en_reduce_only :: bool
  en_qty_ceiling :: int
  en_remaining_quantity :: "int option"
  en_floor_price :: float64
  en_trail_distance_min :: float64
  en_trail_distance_max :: float64
  en_participation_rate_cap :: float64
  en_aggressiveness :: "string list"
  en_cooldown_floor_ms :: int
  en_cancel_replace_budget :: int
  en_max_outstanding_children :: int
  en_expires_at :: deadline
  en_allowed_session_phases :: "session_type list"
  en_expiry_disposition :: expiry_disposition
  en_stale_data_disposition :: stale_data_disposition
  en_status :: envelope_status
  en_supersedes_id :: "string option"
  en_superseded_by_id :: "string option"
  en_session_id :: "string option"
  en_updated_at :: instant
  en_timestamps :: "envelope_status \<rightharpoonup> instant"

text \<open>
  The nine transition columns are one map from the status whose transition stamps the column; the
  timestamp table gives every status but \<^verbatim>\<open>PENDING\<close> a column.
\<close>

definition FLOAT_ONE :: float64 where
  "FLOAT_ONE = 0x3FF0000000000000"

definition hard_rails :: "execution_envelope \<Rightarrow> execution_envelope res" where
  "hard_rails env =
     require (en_sell_intent_id env \<noteq> []) ValueError
     (require (\<not> is_blank (en_symbol env)) ValueError
     (require (en_side env = Side_SELL) ValueError
     (require (en_reduce_only env) ValueError
     (require (\<not> en_qty_ceiling env \<le> 0) ValueError
     (let env = (case en_remaining_quantity env of
                   None \<Rightarrow> env\<lparr>en_remaining_quantity := Some (en_qty_ceiling env)\<rparr> | Some _ \<Rightarrow> env);
          remaining = the (en_remaining_quantity env)
      in require (0 \<le> remaining \<and> remaining \<le> en_qty_ceiling env) ValueError
     (require (float_finite (en_floor_price env) \<and> 0 < float_key (en_floor_price env)) ValueError
     (require (float_finite (en_trail_distance_min env) \<and> float_finite (en_trail_distance_max env) \<and>
               0 < float_key (en_trail_distance_min env) \<and>
               float_key (en_trail_distance_min env) \<le> float_key (en_trail_distance_max env)) ValueError
     (require (float_finite (en_participation_rate_cap env) \<and>
               0 < float_key (en_participation_rate_cap env) \<and>
               float_key (en_participation_rate_cap env) \<le> float_key FLOAT_ONE) ValueError
     (require (en_aggressiveness env \<noteq> [] \<and> list_all (\<lambda>a. \<not> is_blank a) (en_aggressiveness env)) ValueError
     (require (0 < en_cooldown_floor_ms env) ValueError
     (require (0 < en_cancel_replace_budget env) ValueError
     (require (1 \<le> en_max_outstanding_children env) ValueError
     (require (en_allowed_session_phases env \<noteq> []) ValueError
     (require (dl_aware (en_expires_at env)) ValueError
     (require (en_supersedes_id env \<noteq> Some (en_id env)) ValueError
     (require (en_superseded_by_id env \<noteq> Some (en_id env)) ValueError
       (Ok env)))))))))))))))))"

subsection \<open>Lifecycle events\<close>

definition envelope_event ::
  "execution_envelope \<Rightarrow> execution_event_type \<Rightarrow> string option \<Rightarrow> payload \<Rightarrow> instant option \<Rightarrow> execution_event" where
  "envelope_event env event_type dedupe_key payload ts_event =
     (draft_event event_type Source_ENGINE Authority_LOCAL)
       \<lparr>ev_dedupe_key := dedupe_key, ev_ts_event := ts_event, ev_symbol := Some (en_symbol env),
        ev_side := Some Side_SELL, ev_envelope_id := Some (en_id env),
        ev_session_id := en_session_id env, ev_correlation_id := Some (en_sell_intent_id env),
        ev_payload := payload\<rparr>"

definition opt_text :: "string option \<Rightarrow> pyval" where
  "opt_text t = (case t of Some s \<Rightarrow> PStr s | None \<Rightarrow> PNone)"

definition opt_int :: "int option \<Rightarrow> pyval" where
  "opt_int t = (case t of Some i \<Rightarrow> PInt i | None \<Rightarrow> PNone)"

definition envelope_created_payload :: "execution_envelope \<Rightarrow> string \<Rightarrow> payload" where
  "envelope_created_payload env actor =
     [''actor'' \<mapsto> PStr actor, ''sell_intent_id'' \<mapsto> PStr (en_sell_intent_id env),
      ''qty_ceiling'' \<mapsto> PInt (en_qty_ceiling env), ''floor_price'' \<mapsto> PFloat (en_floor_price env),
      ''trail_distance_min'' \<mapsto> PFloat (en_trail_distance_min env),
      ''trail_distance_max'' \<mapsto> PFloat (en_trail_distance_max env),
      ''participation_rate_cap'' \<mapsto> PFloat (en_participation_rate_cap env),
      ''aggressiveness'' \<mapsto> PList (map PStr (en_aggressiveness env)),
      ''cooldown_floor_ms'' \<mapsto> PInt (en_cooldown_floor_ms env),
      ''cancel_replace_budget'' \<mapsto> PInt (en_cancel_replace_budget env),
      ''max_outstanding_children'' \<mapsto> PInt (en_max_outstanding_children env),
      ''expires_at'' \<mapsto> PStr (dl_isoformat (en_expires_at env)),
      ''allowed_session_phases'' \<mapsto> PList (map (PStr \<circ> session_type_value) (en_allowed_session_phases env)),
      ''expiry_disposition'' \<mapsto> PStr (expiry_disposition_value (en_expiry_disposition env)),
      ''stale_data_disposition'' \<mapsto> PStr (stale_data_disposition_value (en_stale_data_disposition env)),
      ''supersedes_id'' \<mapsto> opt_text (en_supersedes_id env)]"

definition envelope_created_event :: "execution_envelope \<Rightarrow> string \<Rightarrow> execution_event" where
  "envelope_created_event env actor =
     envelope_event env Event_ENVELOPE_CREATED (Some (''envelope:'' @ en_id env @ '':created''))
       (envelope_created_payload env actor) None"

definition envelope_draft_reason :: "execution_envelope \<Rightarrow> string option" where
  "envelope_draft_reason env =
     (if en_status env \<noteq> Envelope_PENDING
      then Some (''a new envelope must be PENDING, got '' @ envelope_status_value (en_status env))
      else if en_remaining_quantity env \<noteq> Some (en_qty_ceiling env)
      then Some ''a new envelope's remaining_quantity must equal qty_ceiling''
      else if en_superseded_by_id env \<noteq> None
      then Some ''a new envelope cannot already be superseded''
      else if en_supersedes_id env \<noteq> None
      then Some ''a new envelope cannot pre-declare supersession (use supersede)''
      else None)"

fun ENVELOPE_EVENT_FOR_STATUS :: "envelope_status \<Rightarrow> execution_event_type option" where
  "ENVELOPE_EVENT_FOR_STATUS Envelope_APPROVED = Some Event_ENVELOPE_APPROVED"
| "ENVELOPE_EVENT_FOR_STATUS Envelope_FROZEN = Some Event_ENVELOPE_FROZEN"
| "ENVELOPE_EVENT_FOR_STATUS Envelope_COMPLETED = Some Event_ENVELOPE_COMPLETED"
| "ENVELOPE_EVENT_FOR_STATUS Envelope_EXPIRED = Some Event_ENVELOPE_EXPIRED"
| "ENVELOPE_EVENT_FOR_STATUS Envelope_EXHAUSTED = Some Event_ENVELOPE_EXHAUSTED"
| "ENVELOPE_EVENT_FOR_STATUS Envelope_BREACHED = Some Event_ENVELOPE_BREACHED"
| "ENVELOPE_EVENT_FOR_STATUS Envelope_SUPERSEDED = Some Event_ENVELOPE_SUPERSEDED"
| "ENVELOPE_EVENT_FOR_STATUS Envelope_CANCELLED = Some Event_ENVELOPE_CANCELLED"
| "ENVELOPE_EVENT_FOR_STATUS _ = None"

definition ENVELOPE_ONCE_ONLY :: "envelope_status set" where
  "ENVELOPE_ONCE_ONLY = {Envelope_APPROVED, Envelope_COMPLETED, Envelope_EXPIRED, Envelope_EXHAUSTED,
     Envelope_BREACHED, Envelope_SUPERSEDED, Envelope_CANCELLED}"

subsection \<open>One transition\<close>

datatype envelope_plan =
    Envelope_Reject store_error
  | Envelope_Noop
  | Envelope_Apply execution_envelope execution_event event_spec

text \<open>
  The event type and the dedupe key of a transition. \<^verbatim>\<open>_ENVELOPE_EVENT_FOR_STATUS\<close> has no
  entry for \<^verbatim>\<open>PENDING\<close>; the lookup would raise, and no table edge leads there.
\<close>

definition transition_event_identity ::
  "execution_envelope \<Rightarrow> envelope_status \<Rightarrow> execution_event_type option \<times> string option" where
  "transition_event_identity env new_status =
     (if new_status = Envelope_ACTIVE
      then (Some (if en_status env = Envelope_FROZEN then Event_ENVELOPE_RESUMED
                  else Event_ENVELOPE_ACTIVATED),
            if en_status env = Envelope_APPROVED
            then Some (''envelope:'' @ en_id env @ '':activated'') else None)
      else (ENVELOPE_EVENT_FOR_STATUS new_status,
            if new_status \<in> ENVELOPE_ONCE_ONLY
            then Some (''envelope:'' @ en_id env @ '':'' @ envelope_status_value new_status) else None))"

definition transition_payload ::
  "execution_envelope \<Rightarrow> envelope_status \<Rightarrow> string \<Rightarrow> string option \<Rightarrow> string option \<Rightarrow> payload" where
  "transition_payload env new_status actor reason superseded_by_id =
     [''from'' \<mapsto> PStr (envelope_status_value (en_status env)),
      ''to'' \<mapsto> PStr (envelope_status_value new_status), ''actor'' \<mapsto> PStr actor] ++
     (case reason of Some r \<Rightarrow> [''reason'' \<mapsto> PStr r] | None \<Rightarrow> Map.empty) ++
     (if new_status = Envelope_EXPIRED
      then [''expiry_disposition'' \<mapsto> PStr (expiry_disposition_value (en_expiry_disposition env))]
      else Map.empty) ++
     (case superseded_by_id of
        Some s \<Rightarrow> if new_status = Envelope_SUPERSEDED then [''superseded_by_id'' \<mapsto> PStr s] else Map.empty
      | None \<Rightarrow> Map.empty)"

definition plan_envelope_transition ::
  "execution_envelope \<Rightarrow> envelope_status \<Rightarrow> string \<Rightarrow> string option \<Rightarrow> string option \<Rightarrow> instant \<Rightarrow> bool \<Rightarrow>
   bool \<Rightarrow> envelope_plan" where
  "plan_envelope_transition env new_status actor reason superseded_by_id now atomic_supersede
     fill_completion =
     (let current = en_status env
      in if new_status = current then Envelope_Noop
         else if new_status = Envelope_COMPLETED \<and> \<not> fill_completion
         then Envelope_Reject EnvelopeTransitionError
         else if new_status = Envelope_SUPERSEDED \<and> \<not> atomic_supersede
         then Envelope_Reject EnvelopeTransitionError
         else if new_status \<notin> ENVELOPE_TRANSITIONS current
         then Envelope_Reject EnvelopeTransitionError
         else
           let updated = env\<lparr>en_status := new_status, en_updated_at := now\<rparr>;
               updated = (if new_status \<noteq> Envelope_PENDING
                          then updated\<lparr>en_timestamps := (en_timestamps updated)(new_status \<mapsto> now)\<rparr>
                          else updated);
               updated = (if new_status = Envelope_SUPERSEDED \<and> superseded_by_id \<noteq> None
                          then updated\<lparr>en_superseded_by_id := superseded_by_id\<rparr> else updated);
               payload = transition_payload env new_status actor reason superseded_by_id
           in case transition_event_identity env new_status of
                (None, _) \<Rightarrow> Envelope_Reject StoreKeyError
              | (Some event_type, dedupe_key) \<Rightarrow>
                  Envelope_Apply updated (envelope_event updated event_type dedupe_key payload (Some now))
                    ((draft_spec ''envelope_transition'')
                       \<lparr>sp_message := ''envelope '' @ en_symbol env @ '' '' @ envelope_status_value current @
                          '' -> '' @ envelope_status_value new_status @
                          (case reason of Some r \<Rightarrow> if r \<noteq> [] then '' ('' @ r @ '')'' else [] | None \<Rightarrow> []),
                        sp_symbol := Some (en_symbol env), sp_payload := payload,
                        sp_session_id := en_session_id env,
                        sp_correlation_id := Some (en_sell_intent_id env)\<rparr>))"

subsection \<open>Fills\<close>

definition fill_value_reason :: "int \<Rightarrow> float64 \<Rightarrow> string option" where
  "fill_value_reason quantity price =
     (case whole_count_reason quantity of
        Some bad \<Rightarrow> Some (if bad = ''negative'' then ''non_positive_quantity'' else bad @ ''_quantity'')
      | None \<Rightarrow>
          if quantity \<le> 0 then Some ''non_positive_quantity''
          else if \<not> float_finite price then Some ''non_finite_price''
          else if float_key price \<le> 0 then Some ''non_positive_price''
          else None)"

definition overfill_quarantine_dedupe_key :: "string \<Rightarrow> string" where
  "overfill_quarantine_dedupe_key fill_dedupe_key = ''overfill-quarantine:'' @ fill_dedupe_key"

definition order_side_value :: "order_side \<Rightarrow> string" where
  "order_side_value s = (case s of Side_BUY \<Rightarrow> ''buy'' | Side_SELL \<Rightarrow> ''sell'')"

definition overfill_quarantine_event ::
  "execution_event \<Rightarrow> int option \<Rightarrow> int \<Rightarrow> int option \<Rightarrow> bool \<Rightarrow> bool \<Rightarrow> bool \<Rightarrow> int option \<Rightarrow>
   execution_event res" where
  "overfill_quarantine_event fill_event order_quantity prior_filled_quantity current_quantity
     order_overfill position_overfill envelope_overfill remaining_before =
     (case (ev_dedupe_key fill_event, ev_symbol fill_event, ev_side fill_event, ev_quantity fill_event,
            ev_price fill_event) of
        (Some key, Some symbol, Some side, Some quantity, Some price) \<Rightarrow>
          Ok ((draft_event Event_QUARANTINED (ev_source fill_event) (ev_authority fill_event))
            \<lparr>ev_dedupe_key := Some (overfill_quarantine_dedupe_key key),
             ev_ts_event := ev_ts_event fill_event, ev_symbol := Some symbol, ev_side := Some side,
             ev_quantity := Some quantity, ev_price := Some price, ev_order_id := ev_order_id fill_event,
             ev_envelope_id := ev_envelope_id fill_event, ev_session_id := ev_session_id fill_event,
             ev_correlation_id := ev_correlation_id fill_event,
             ev_payload :=
               [''side'' \<mapsto> PStr (order_side_value side), ''quantity'' \<mapsto> PInt quantity, ''price'' \<mapsto> PFloat price,
                ''order_quantity'' \<mapsto> opt_int order_quantity,
                ''prior_filled_quantity'' \<mapsto> PInt prior_filled_quantity,
                ''cumulative_filled_quantity'' \<mapsto> PInt (prior_filled_quantity + quantity),
                ''current_quantity'' \<mapsto> opt_int current_quantity,
                ''attempted_sell'' \<mapsto> (if side = Side_SELL then PInt quantity else PNone),
                ''order_overfill'' \<mapsto> PBool order_overfill,
                ''position_overfill'' \<mapsto> PBool position_overfill,
                ''envelope_overfill'' \<mapsto> PBool envelope_overfill,
                ''remaining_before'' \<mapsto> opt_int remaining_before, ''quarantined'' \<mapsto> PBool True,
                ''manual_review_required'' \<mapsto> PBool True, ''fill_dedupe_key'' \<mapsto> PStr key]\<rparr>)
      | _ \<Rightarrow> Raise ValueError)"

definition QUOTE :: char where
  "QUOTE = char_of (39 :: nat)"

text \<open>The first payload field of the list in which the two events differ.\<close>

definition overfill_quarantine_conflict_reason ::
  "execution_event option \<Rightarrow> execution_event \<Rightarrow> string option" where
  "overfill_quarantine_conflict_reason existing proposed =
     (case existing of
        None \<Rightarrow> None
      | Some x \<Rightarrow>
          if \<not> (ev_event_type x = Event_QUARANTINED \<and> ev_source x = ev_source proposed \<and>
             ev_authority x = ev_authority proposed \<and> ev_dedupe_key x = ev_dedupe_key proposed \<and>
             ev_order_id x = ev_order_id proposed \<and> ev_symbol x = ev_symbol proposed \<and>
             ev_side x = ev_side proposed \<and> ev_quantity x = ev_quantity proposed \<and>
             ev_price x = ev_price proposed \<and> ev_session_id x = ev_session_id proposed)
          then Some ''quarantine identity belongs to different event material''
          else map_option (\<lambda>k. ''quarantine payload field '' @ QUOTE # k @ QUOTE # '' conflicts'')
            (find (\<lambda>k. ev_payload x k \<noteq> ev_payload proposed k)
               [''fill_dedupe_key'', ''side'', ''quantity'', ''price'', ''quarantined'',
                ''manual_review_required'']))"

record envelope_fill =
  fl_quantity :: int
  fl_dedupe_key :: string
  fl_price :: float64
  fl_order_id :: "string option"
  fl_session_id :: "string option"
  fl_ts_event :: "instant option"
  fl_source :: event_source
  fl_authority :: event_authority
  fl_canonical_event_exists :: bool
  fl_order_quantity :: "int option"
  fl_prior_order_filled_quantity :: int
  fl_existing_quarantine_event :: "execution_event option"
  fl_execution_payload :: payload

datatype envelope_fill_plan =
    Fill_Reject store_error
  | Fill_Apply execution_envelope execution_event "execution_event option" "envelope_plan option"

definition fill_overfill :: "execution_envelope \<Rightarrow> envelope_fill \<Rightarrow> bool" where
  "fill_overfill env f = (fl_quantity f > (case en_remaining_quantity env of Some r \<Rightarrow> r | None \<Rightarrow> 0))"

definition fill_order_overfill :: "envelope_fill \<Rightarrow> bool" where
  "fill_order_overfill f =
     (case fl_order_quantity f of
        Some q \<Rightarrow> fl_prior_order_filled_quantity f + fl_quantity f > q | None \<Rightarrow> False)"

definition envelope_fill_event :: "execution_envelope \<Rightarrow> envelope_fill \<Rightarrow> instant \<Rightarrow> execution_event" where
  "envelope_fill_event env f now =
     (let remaining = (case en_remaining_quantity env of Some r \<Rightarrow> r | None \<Rightarrow> 0)
      in (draft_event Event_FILL (fl_source f) (fl_authority f))
        \<lparr>ev_dedupe_key := Some (fl_dedupe_key f),
         ev_ts_event := (if fl_ts_event f \<noteq> None then fl_ts_event f else Some now),
         ev_symbol := Some (en_symbol env), ev_side := Some Side_SELL,
         ev_quantity := Some (fl_quantity f), ev_price := Some (fl_price f),
         ev_order_id := fl_order_id f, ev_envelope_id := Some (en_id env),
         ev_session_id := en_session_id env, ev_correlation_id := Some (en_sell_intent_id env),
         ev_payload := fl_execution_payload f ++
           [''remaining_before'' \<mapsto> PInt remaining,
            ''remaining_after'' \<mapsto> PInt (max 0 (remaining - fl_quantity f))] ++
           (if fill_overfill env f
            then [''overfill'' \<mapsto> PBool True, ''overfill_quantity'' \<mapsto> PInt (fl_quantity f - remaining)]
            else Map.empty) ++
           (if ENVELOPE_TRANSITIONS (en_status env) = {} then [''late_fill'' \<mapsto> PBool True]
            else Map.empty)\<rparr>)"

text \<open>The transition a fill brings with it, planned on the row after the decrement.\<close>

definition fill_transition ::
  "execution_envelope \<Rightarrow> execution_envelope \<Rightarrow> envelope_fill \<Rightarrow> instant \<Rightarrow> envelope_plan option" where
  "fill_transition env updated f now =
     (let remaining = (case en_remaining_quantity env of Some r \<Rightarrow> r | None \<Rightarrow> 0)
      in if en_status env \<in> {Envelope_ACTIVE, Envelope_FROZEN}
         then if fill_overfill env f
              then Some (plan_envelope_transition updated Envelope_BREACHED ''engine''
                (Some (''broker-authoritative overfill: fill of '' @ show_int (fl_quantity f) @
                       '' exceeded remaining '' @ show_int remaining @ '' (hard qty ceiling '' @
                       show_int (en_qty_ceiling env) @ '')'')) None now False False)
              else if en_remaining_quantity updated = Some 0 \<and> en_status env = Envelope_ACTIVE
              then Some (plan_envelope_transition updated Envelope_COMPLETED ''engine''
                     (Some ''quantity ceiling fully filled'') None now False True)
              else None
         else None)"

definition plan_envelope_fill ::
  "execution_envelope \<Rightarrow> envelope_fill \<Rightarrow> instant \<Rightarrow> envelope_fill_plan" where
  "plan_envelope_fill env f now =
     (if whole_count_reason (fl_quantity f) \<noteq> None \<or> fl_quantity f \<le> 0 then Fill_Reject InvalidFillError
      else if fill_value_reason (fl_quantity f) (fl_price f) \<noteq> None then Fill_Reject InvalidFillError
      else if fl_session_id f \<noteq> None \<and> fl_session_id f \<noteq> en_session_id env
      then Fill_Reject InvalidFillError
      else if en_status env \<in> {Envelope_PENDING, Envelope_APPROVED} then Fill_Reject InvalidFillError
      else
        let remaining = (case en_remaining_quantity env of Some r \<Rightarrow> r | None \<Rightarrow> 0);
            overfill = fill_overfill env f;
            order_overfill = fill_order_overfill f;
            updated = env\<lparr>en_remaining_quantity := Some (max 0 (remaining - fl_quantity f)),
                          en_updated_at := now\<rparr>;
            fill_event = envelope_fill_event env f now
        in if (overfill \<or> order_overfill) \<and> fl_authority f \<noteq> Authority_BROKER_AUTHORITATIVE \<and>
              \<not> fl_canonical_event_exists f
           then Fill_Reject InvalidFillError
           else if fl_authority f = Authority_BROKER_AUTHORITATIVE \<and> (overfill \<or> order_overfill)
           then (case overfill_quarantine_event fill_event (fl_order_quantity f)
                        (fl_prior_order_filled_quantity f) None order_overfill False overfill
                        (Some remaining) of
                   Inl _ \<Rightarrow> Fill_Reject StoreValueError
                 | Inr q \<Rightarrow>
                     if overfill_quarantine_conflict_reason (fl_existing_quarantine_event f) q \<noteq> None
                     then Fill_Reject InvalidFillError
                     else Fill_Apply updated fill_event (Some q) (fill_transition env updated f now))
           else Fill_Apply updated fill_event None (fill_transition env updated f now))"

subsection \<open>Supersession\<close>

datatype supersede_plan =
    Supersede_Reject store_error
  | Supersede_Apply execution_envelope execution_envelope "execution_event list" event_spec

definition working_live :: "order_row option \<Rightarrow> bool" where
  "working_live working_order =
     (case working_order of
        Some ord \<Rightarrow> or_status ord \<notin> {Order_CREATED, Order_FILLED, Order_CANCELED, Order_REJECTED}
      | None \<Rightarrow> False)"

definition supersede_spec ::
  "execution_envelope \<Rightarrow> execution_envelope \<Rightarrow> string \<Rightarrow> string option \<Rightarrow> event_spec" where
  "supersede_spec old linked actor reason =
     (let told = (case reason of Some r \<Rightarrow> r \<noteq> [] | None \<Rightarrow> False)
      in (draft_spec ''envelope_superseded'')
        \<lparr>sp_message := ''envelope for '' @ en_symbol old @ '' superseded: '' @ en_id old @ '' -> '' @
           en_id linked @ (if told then '' ('' @ the reason @ '')'' else []),
         sp_symbol := Some (en_symbol old),
         sp_payload := [''old_envelope_id'' \<mapsto> PStr (en_id old), ''new_envelope_id'' \<mapsto> PStr (en_id linked),
                        ''actor'' \<mapsto> PStr actor] ++
           (if told then [''reason'' \<mapsto> PStr (the reason)] else Map.empty),
         sp_session_id := en_session_id old, sp_correlation_id := Some (en_sell_intent_id old)\<rparr>)"

definition plan_supersede_envelope ::
  "execution_envelope \<Rightarrow> execution_envelope \<Rightarrow> string \<Rightarrow> string option \<Rightarrow> instant \<Rightarrow> order_row option \<Rightarrow>
   supersede_plan" where
  "plan_supersede_envelope old successor actor reason now working_order =
     (if en_status old \<noteq> Envelope_ACTIVE then Supersede_Reject EnvelopeTransitionError
      else if envelope_draft_reason successor \<noteq> None then Supersede_Reject InvalidOrderError
      else if en_id successor = en_id old then Supersede_Reject InvalidOrderError
      else if en_sell_intent_id successor \<noteq> en_sell_intent_id old then Supersede_Reject InvalidOrderError
      else if en_symbol successor \<noteq> en_symbol old then Supersede_Reject InvalidOrderError
      else if working_live working_order then Supersede_Reject EnvelopeTransitionError
      else if en_qty_ceiling successor > (case en_remaining_quantity old of Some r \<Rightarrow> r | None \<Rightarrow> 0)
      then Supersede_Reject EnvelopeTransitionError
      else
        let linked = successor\<lparr>en_supersedes_id := Some (en_id old)\<rparr>
        in case plan_envelope_transition linked Envelope_APPROVED actor reason None now False False of
             Envelope_Apply approved approved_event _ \<Rightarrow>
               (case plan_envelope_transition old Envelope_SUPERSEDED actor reason (Some (en_id linked))
                       now True False of
                  Envelope_Apply superseded superseded_event _ \<Rightarrow>
                    (case plan_envelope_transition approved Envelope_ACTIVE actor None None now False False of
                       Envelope_Apply activated activated_event _ \<Rightarrow>
                         Supersede_Apply superseded activated
                           [envelope_created_event linked actor, approved_event, superseded_event,
                            activated_event]
                           (supersede_spec old linked actor reason)
                     | _ \<Rightarrow> Supersede_Reject AssertionError)
                | _ \<Rightarrow> Supersede_Reject AssertionError)
           | _ \<Rightarrow> Supersede_Reject AssertionError)"

end
