(* ===== verification/Floats.thy ===== *)
theory Floats
  imports Event_Log
begin

text \<open>
  Arithmetic on binary64 floats as Python has it: a float is its bit pattern, a finite one is an
  integer number of units of \<open>2 ^ -1074\<close>, and an operation is the exact rational result rounded to
  the nearest float, ties to even. Integers convert with the same rounding and raise
  \<^verbatim>\<open>OverflowError\<close> when the result is not finite.
\<close>

subsection \<open>Patterns\<close>

definition float_negative :: "float64 \<Rightarrow> bool" where
  "float_negative b \<longleftrightarrow> 2 ^ 63 \<le> uint b"

definition float_magnitude :: "float64 \<Rightarrow> int" where
  "float_magnitude b = uint b mod 2 ^ 63"

definition FLOAT_INF_BITS :: int where
  "FLOAT_INF_BITS = 2047 * 2 ^ 52"

definition float_nan :: "float64 \<Rightarrow> bool" where
  "float_nan b \<longleftrightarrow> FLOAT_INF_BITS < float_magnitude b"

definition float_infinite :: "float64 \<Rightarrow> bool" where
  "float_infinite b \<longleftrightarrow> float_magnitude b = FLOAT_INF_BITS"

definition float_zero :: "float64 \<Rightarrow> bool" where
  "float_zero b \<longleftrightarrow> float_magnitude b = 0"

definition float_make :: "bool \<Rightarrow> int \<Rightarrow> float64" where
  "float_make negative bits = word_of_int ((if negative then 2 ^ 63 else 0) + bits)"

definition FLOAT_NAN :: float64 where
  "FLOAT_NAN = float_make False (FLOAT_INF_BITS + 2 ^ 51)"

definition FLOAT_ZERO :: float64 where
  "FLOAT_ZERO = float_make False 0"

text \<open>The number of units of a magnitude pattern, subnormal or normal.\<close>

definition magnitude_units :: "int \<Rightarrow> int" where
  "magnitude_units bits =
     (if bits div 2 ^ 52 = 0 then bits mod 2 ^ 52
      else (2 ^ 52 + bits mod 2 ^ 52) * 2 ^ nat (bits div 2 ^ 52 - 1))"

definition float_units :: "float64 \<Rightarrow> int" where
  "float_units b =
     (if float_negative b then - magnitude_units (float_magnitude b)
      else magnitude_units (float_magnitude b))"

subsection \<open>Rounding\<close>

fun bit_len :: "nat \<Rightarrow> nat" where
  "bit_len n = (if n = 0 then 0 else Suc (bit_len (n div 2)))"

declare bit_len.simps [simp del]

definition round_half_even :: "int \<Rightarrow> int \<Rightarrow> int" where
  "round_half_even p q =
     (let d = p div q; r = p mod q
      in if 2 * r > q \<or> 2 * r = q \<and> odd d then d + 1 else d)"

text \<open>The magnitude pattern nearest to \<open>p / q\<close> units; the infinity pattern when that is too large.\<close>

definition round_shift :: "int \<Rightarrow> int \<Rightarrow> nat" where
  "round_shift p q = bit_len (nat (p div q)) - 53"

definition round_bits :: "int \<Rightarrow> int \<Rightarrow> int" where
  "round_bits p q =
     (let k = round_shift p q
      in min FLOAT_INF_BITS (int k * 2 ^ 52 + round_half_even p (q * 2 ^ k)))"

definition float_round :: "bool \<Rightarrow> int \<Rightarrow> int \<Rightarrow> float64" where
  "float_round negative p q = float_make negative (round_bits p q)"

subsection \<open>Operations\<close>

definition FLOAT_SCALE :: int where
  "FLOAT_SCALE = 2 ^ 1074"

definition float_mul :: "float64 \<Rightarrow> float64 \<Rightarrow> float64" where
  "float_mul a b =
     (let negative = (float_negative a \<noteq> float_negative b)
      in if float_nan a \<or> float_nan b then FLOAT_NAN
         else if float_infinite a \<or> float_infinite b
         then (if float_zero a \<or> float_zero b then FLOAT_NAN else float_make negative FLOAT_INF_BITS)
         else float_round negative \<bar>float_units a * float_units b\<bar> FLOAT_SCALE)"

definition float_add :: "float64 \<Rightarrow> float64 \<Rightarrow> float64" where
  "float_add a b =
     (if float_nan a \<or> float_nan b then FLOAT_NAN
      else if float_infinite a
      then (if float_infinite b \<and> float_negative a \<noteq> float_negative b then FLOAT_NAN else a)
      else if float_infinite b then b
      else let s = float_units a + float_units b
           in if s = 0 then float_make (float_negative a \<and> float_negative b) 0
              else float_round (s < 0) \<bar>s\<bar> 1)"

definition float_div :: "float64 \<Rightarrow> float64 \<Rightarrow> float64 res" where
  "float_div a b =
     (let negative = (float_negative a \<noteq> float_negative b)
      in if float_zero b then Raise ZeroDivisionError
         else if float_nan a \<or> float_nan b then Ok FLOAT_NAN
         else if float_infinite a
         then (if float_infinite b then Ok FLOAT_NAN else Ok (float_make negative FLOAT_INF_BITS))
         else if float_infinite b then Ok (float_make negative 0)
         else Ok (float_round negative (\<bar>float_units a\<bar> * FLOAT_SCALE) \<bar>float_units b\<bar>))"

definition finite_result :: "float64 \<Rightarrow> float64 res" where
  "finite_result b = require (float_magnitude b < FLOAT_INF_BITS) OverflowError (Ok b)"

text \<open>\<^verbatim>\<open>float(n)\<close>, also where an integer meets a float in an operation.\<close>

definition int_to_float :: "int \<Rightarrow> float64 res" where
  "int_to_float n = finite_result (float_round (n < 0) (\<bar>n\<bar> * FLOAT_SCALE) 1)"

text \<open>\<^verbatim>\<open>m / n\<close> on integers: the exact quotient, rounded once.\<close>

definition int_truediv :: "int \<Rightarrow> int \<Rightarrow> float64 res" where
  "int_truediv m n =
     require (n \<noteq> 0) ZeroDivisionError
       (finite_result (float_round ((m < 0) \<noteq> (n < 0)) (\<bar>m\<bar> * FLOAT_SCALE) \<bar>n\<bar>))"

definition float_le :: "float64 \<Rightarrow> float64 \<Rightarrow> bool" where
  "float_le a b \<longleftrightarrow> \<not> float_nan a \<and> \<not> float_nan b \<and> float_key a \<le> float_key b"

definition float_less :: "float64 \<Rightarrow> float64 \<Rightarrow> bool" where
  "float_less a b \<longleftrightarrow> \<not> float_nan a \<and> \<not> float_nan b \<and> float_key a < float_key b"

subsection \<open>What rounding gives\<close>

lemma float_make_parts:
  assumes "0 \<le> bits" "bits < 2 ^ 63"
  shows "float_negative (float_make s bits) = s" "float_magnitude (float_make s bits) = bits"
proof -
  have u: "uint (float_make s bits) = (if s then 2 ^ 63 else 0) + bits"
    unfolding float_make_def uint_word_of_int using assms by (simp add: mod_pos_pos_trivial)
  show "float_negative (float_make s bits) = s" using assms by (simp add: float_negative_def u)
  show "float_magnitude (float_make s bits) = bits" using assms by (simp add: float_magnitude_def u mod_pos_pos_trivial)
qed

lemma bit_len_0 [simp]: "bit_len 0 = 0"
  by (simp add: bit_len.simps)

lemma bit_len_upper: "n < 2 ^ bit_len n"
proof (induction n rule: bit_len.induct)
  case (1 n)
  show ?case
  proof (cases "n = 0")
    case False
    with 1 have "n div 2 < 2 ^ bit_len (n div 2)" by blast
    then have "n < 2 * 2 ^ bit_len (n div 2)" by linarith
    with False show ?thesis by (subst bit_len.simps) simp
  qed simp
qed

lemma bit_len_le: "n < 2 ^ b \<Longrightarrow> bit_len n \<le> b"
proof (induction n arbitrary: b rule: bit_len.induct)
  case (1 n)
  show ?case
  proof (cases "n = 0")
    case False
    with 1(2) obtain c where b: "b = Suc c" by (cases b) auto
    with 1(2) have "n div 2 < 2 ^ c" by auto
    with 1(1) False b show ?thesis by (subst bit_len.simps) auto
  qed simp
qed

lemma bit_len_lower: "c < bit_len n \<Longrightarrow> 2 ^ c \<le> n"
  using bit_len_le [of n c] by linarith

lemma quotient_less: "p div q < b" if "0 < q" "p < b * q" for p q b :: int
proof (rule ccontr)
  assume "\<not> p div q < b"
  then have "b * q \<le> p div q * q" using that(1) by (intro mult_right_mono) simp_all
  moreover have "p div q * q \<le> p" using div_mult_mod_eq [of p q] pos_mod_sign [OF that(1), of p] by linarith
  ultimately show False using that(2) by linarith
qed

lemma quotient_parts: "(a * m + f) div m = a" "(a * m + f) mod m = f" if "0 \<le> f" "f < m" for a m f :: int
  using that by (simp_all add: div_pos_pos_trivial mod_pos_pos_trivial)

lemma round_half_even_error:
  assumes "0 < q"
  shows "2 * \<bar>round_half_even p q * q - p\<bar> \<le> q"
proof -
  define d r where "d = p div q" and "r = p mod q"
  have p: "p = d * q + r" and r: "0 \<le> r" "r < q" using assms by (simp_all add: d_def r_def)
  have "round_half_even p q \<in> {d, d + 1} \<and> (round_half_even p q = d \<longrightarrow> 2 * r \<le> q) \<and>
      (round_half_even p q = d + 1 \<longrightarrow> q \<le> 2 * r)"
    by (auto simp: round_half_even_def Let_def d_def r_def)
  then show ?thesis using r by (auto simp: p algebra_simps)
qed

lemma round_half_even_exact: "0 < q \<Longrightarrow> round_half_even (n * q) q = n"
  by (simp add: round_half_even_def)

lemma round_half_even_bounds:
  assumes "0 < q" "0 \<le> p" "a * q \<le> p" "p < b * q"
  shows "a \<le> round_half_even p q \<and> round_half_even p q \<le> b"
proof -
  have "a \<le> p div q" using zdiv_mono1 [OF assms(3,1)] assms(1) by simp
  moreover have "p div q < b" by (rule quotient_less [OF assms(1,4)])
  ultimately show ?thesis by (auto simp: round_half_even_def Let_def)
qed

lemma magnitude_units_scaled:
  assumes "0 \<le> n" "n \<le> 2 ^ 53" "k = 0 \<or> 2 ^ 52 \<le> n"
  shows "magnitude_units (int k * 2 ^ 52 + n) = n * 2 ^ k"
proof -
  consider "n < 2 ^ 52" | "2 ^ 52 \<le> n" "n < 2 ^ 53" | "n = 2 ^ 53" using assms(2) by linarith
  then show ?thesis
  proof cases
    case 1
    with assms show ?thesis by (simp add: magnitude_units_def)
  next
    case 2
    define f where "f = n - 2 ^ 52"
    have f: "0 \<le> f" "f < 2 ^ 52" "int k * 2 ^ 52 + n = (int k + 1) * 2 ^ 52 + f" using 2 by (simp_all add: f_def)
    have "(int k * 2 ^ 52 + n) div 2 ^ 52 = int k + 1" "(int k * 2 ^ 52 + n) mod 2 ^ 52 = f"
      unfolding f(3) using quotient_parts [OF f(1,2)] by blast+
    then show ?thesis by (simp add: magnitude_units_def f_def)
  next
    case 3
    then have e: "int k * 2 ^ 52 + n = (int k + 2) * 2 ^ 52" by simp
    have "(int k * 2 ^ 52 + n) div 2 ^ 52 = int k + 2" "(int k * 2 ^ 52 + n) mod 2 ^ 52 = 0" unfolding e by simp_all
    then show ?thesis using 3 by (simp add: magnitude_units_def nat_add_distrib)
  qed
qed

text \<open>The rounded significand fits, and is normal unless the value is subnormal.\<close>

lemma round_significand:
  assumes "0 \<le> p" "0 < q" "k = round_shift p q"
  shows "0 \<le> round_half_even p (q * 2 ^ k) \<and> round_half_even p (q * 2 ^ k) \<le> 2 ^ 53 \<and>
    (k = 0 \<or> 2 ^ 52 \<le> round_half_even p (q * 2 ^ k))"
proof -
  define u where "u = nat (p div q)"
  have u: "int u = p div q" using assms(1,2) by (simp add: u_def pos_imp_zdiv_nonneg_iff)
  have "p = int u * q + p mod q" "0 \<le> p mod q" "p mod q < q" using assms(2) by (simp_all add: u)
  then have pu: "int u * q \<le> p" "p < (int u + 1) * q" by (simp_all add: distrib_right)
  have k: "k = bit_len u - 53" using assms(3) by (simp add: round_shift_def u_def)
  then have "(2 :: nat) ^ bit_len u \<le> 2 ^ (53 + k)" by (intro power_increasing) simp_all
  with bit_len_upper [of u] have up: "u < 2 ^ (53 + k)" by (rule less_le_trans)
  then have "int u + 1 \<le> 2 ^ (53 + k)" by (metis of_nat_less_iff of_nat_numeral of_nat_power zless_imp_add1_zle)
  then have "(int u + 1) * q \<le> 2 ^ (53 + k) * q" using assms(2) by (intro mult_right_mono) simp_all
  with pu(2) have upper: "p < 2 ^ 53 * (q * 2 ^ k)" by (simp add: power_add algebra_simps)
  have q: "0 < q * 2 ^ k" using assms(2) by simp
  have "2 ^ 52 \<le> round_half_even p (q * 2 ^ k)" if "k \<noteq> 0"
  proof -
    have "52 + k < bit_len u" using that assms(3) by (simp add: round_shift_def u_def)
    then have "2 ^ (52 + k) \<le> u" by (rule bit_len_lower)
    then have "2 ^ (52 + k) \<le> int u" by (metis of_nat_le_iff of_nat_numeral of_nat_power)
    then have "2 ^ (52 + k) * q \<le> int u * q" using assms(2) by (intro mult_right_mono) simp_all
    with pu(1) have "2 ^ 52 * (q * 2 ^ k) \<le> p" by (simp add: power_add algebra_simps)
    then show ?thesis using round_half_even_bounds [OF q assms(1) _ upper] by blast
  qed
  moreover have "0 \<le> round_half_even p (q * 2 ^ k) \<and> round_half_even p (q * 2 ^ k) \<le> 2 ^ 53"
    using round_half_even_bounds [OF q assms(1), of 0 "2 ^ 53"] upper assms(1) by simp
  ultimately show ?thesis by blast
qed

text \<open>A result below the infinity is within half a unit in the last place of the exact quotient.\<close>

lemma round_bits_nearest:
  assumes "0 \<le> p" "0 < q" "round_bits p q < FLOAT_INF_BITS"
  shows "2 * \<bar>magnitude_units (round_bits p q) * q - p\<bar> \<le> q * 2 ^ round_shift p q"
proof -
  define k where "k = round_shift p q"
  note n = round_significand [OF assms(1,2) k_def]
  have "round_bits p q = int k * 2 ^ 52 + round_half_even p (q * 2 ^ k)"
    using assms(3) by (simp add: round_bits_def Let_def k_def [symmetric] min_def split: if_splits)
  then have "magnitude_units (round_bits p q) * q = round_half_even p (q * 2 ^ k) * (q * 2 ^ k)"
    using magnitude_units_scaled [of "round_half_even p (q * 2 ^ k)" k] n by simp
  then show ?thesis using round_half_even_error [of "q * 2 ^ k" p] assms(2) by (simp only: k_def) simp
qed

lemma round_bits_nonneg: "0 \<le> p \<Longrightarrow> 0 < q \<Longrightarrow> 0 \<le> round_bits p q"
  using round_significand [of p q "round_shift p q"] by (simp add: round_bits_def Let_def FLOAT_INF_BITS_def)

lemma round_bits_le: "round_bits p q \<le> FLOAT_INF_BITS"
  by (simp add: round_bits_def Let_def)

lemma round_bits_finite:
  assumes "0 \<le> p" "0 < q" "p < 2 ^ b * q" "b \<le> 2097"
  shows "round_bits p q < FLOAT_INF_BITS"
proof -
  have "p div q < 2 ^ b" by (rule quotient_less [OF assms(2,3)])
  then have "nat (p div q) < 2 ^ b" by (simp add: nat_less_iff pos_imp_zdiv_nonneg_iff assms(1,2))
  from bit_len_le [OF this] assms(4) have "int (round_shift p q) \<le> 2044" by (simp add: round_shift_def)
  moreover have "round_half_even p (q * 2 ^ round_shift p q) \<le> 2 ^ 53"
    using round_significand [OF assms(1,2) refl] by blast
  ultimately have "int (round_shift p q) * 2 ^ 52 + round_half_even p (q * 2 ^ round_shift p q) < FLOAT_INF_BITS"
    by (simp add: FLOAT_INF_BITS_def)
  then show ?thesis by (simp add: round_bits_def Let_def)
qed

lemma float_round_parts:
  assumes "0 \<le> p" "0 < q"
  shows "float_negative (float_round s p q) = s" "float_magnitude (float_round s p q) = round_bits p q"
proof -
  have "round_bits p q < 2 ^ 63" using round_bits_le [of p q] by (simp add: FLOAT_INF_BITS_def)
  note float_make_parts [OF round_bits_nonneg [OF assms] this]
  then show "float_negative (float_round s p q) = s" "float_magnitude (float_round s p q) = round_bits p q"
    by (simp_all add: float_round_def)
qed

text \<open>Conversions that cannot overflow.\<close>

lemma int_to_float_Ok:
  assumes "\<bar>n\<bar> < 2 ^ 1023"
  shows "\<exists>x. int_to_float n = Ok x \<and> float_finite x"
proof -
  have "\<bar>n\<bar> * FLOAT_SCALE < 2 ^ 1023 * 2 ^ 1074"
    using assms unfolding FLOAT_SCALE_def by (intro mult_strict_right_mono) (rule assms, rule zero_less_power, simp)
  then have "\<bar>n\<bar> * FLOAT_SCALE < 2 ^ (1023 + 1074) * 1" unfolding power_add by (simp only: mult_1_right)
  from round_bits_finite [OF _ _ this] have b: "round_bits (\<bar>n\<bar> * FLOAT_SCALE) 1 < FLOAT_INF_BITS"
    by (simp add: FLOAT_SCALE_def)
  have m: "float_magnitude (float_round (n < 0) (\<bar>n\<bar> * FLOAT_SCALE) 1) = round_bits (\<bar>n\<bar> * FLOAT_SCALE) 1"
    by (rule float_round_parts) (simp_all add: FLOAT_SCALE_def)
  with b show ?thesis
    by (simp add: int_to_float_def finite_result_def float_finite_def float_magnitude_def FLOAT_INF_BITS_def)
qed

lemma int_truediv_Ok:
  assumes "0 \<le> m" "m < n"
  shows "\<exists>x. int_truediv m n = Ok x \<and> float_finite x"
proof -
  have "\<bar>m\<bar> * FLOAT_SCALE < 2 ^ 1074 * \<bar>n\<bar>"
    using assms unfolding FLOAT_SCALE_def by (subst mult.commute, intro mult_strict_left_mono) simp_all
  from round_bits_finite [OF _ _ this] assms have b: "round_bits (\<bar>m\<bar> * FLOAT_SCALE) \<bar>n\<bar> < FLOAT_INF_BITS"
    by (simp add: FLOAT_SCALE_def)
  have "float_magnitude (float_round s (\<bar>m\<bar> * FLOAT_SCALE) \<bar>n\<bar>) = round_bits (\<bar>m\<bar> * FLOAT_SCALE) \<bar>n\<bar>" for s
    using assms by (intro float_round_parts) (simp_all add: FLOAT_SCALE_def)
  with b assms show ?thesis
    by (simp add: int_truediv_def finite_result_def float_finite_def float_magnitude_def FLOAT_INF_BITS_def)
qed

lemma round_bits_exact:
  assumes "0 \<le> p" "0 < q" "q * 2 ^ round_shift p q dvd p" "round_bits p q < FLOAT_INF_BITS"
  shows "magnitude_units (round_bits p q) * q = p"
proof -
  define k where "k = round_shift p q"
  obtain n where p: "p = n * (q * 2 ^ k)" using assms(3) by (metis dvd_def k_def mult.commute)
  have n: "round_half_even p (q * 2 ^ k) = n" unfolding p by (rule round_half_even_exact) (simp add: assms(2))
  have "round_bits p q = int k * 2 ^ 52 + n"
    using assms(4) by (simp add: round_bits_def Let_def k_def [symmetric] n min_def split: if_splits)
  moreover have "magnitude_units (int k * 2 ^ 52 + n) = n * 2 ^ k"
    using round_significand [OF assms(1,2) k_def] by (intro magnitude_units_scaled) (simp_all add: n)
  ultimately show ?thesis by (simp add: p)
qed

text \<open>Integers below \<open>2 ^ 53\<close> convert exactly.\<close>

lemma int_to_float_exact:
  assumes "\<bar>n\<bar> < 2 ^ 53"
  shows "\<exists>x. int_to_float n = Ok x \<and> float_units x = n * FLOAT_SCALE"
proof -
  define p where "p = \<bar>n\<bar> * FLOAT_SCALE"
  have "nat p < 2 ^ (53 + 1074)"
    using assms by (simp only: p_def FLOAT_SCALE_def power_add nat_less_iff) simp
  then have "round_shift p 1 \<le> 1074" using bit_len_le [of "nat p" "53 + 1074"] by (simp add: round_shift_def)
  then have "1 * 2 ^ round_shift p 1 dvd p"
    unfolding p_def FLOAT_SCALE_def mult_1 by (intro dvd_mult le_imp_power_dvd)
  moreover have fin: "round_bits p 1 < FLOAT_INF_BITS"
  proof -
    have "p < 2 ^ (53 + 1074) * 1" using assms by (simp only: p_def FLOAT_SCALE_def power_add) simp
    then show ?thesis by (rule round_bits_finite [rotated 2]) (simp_all add: p_def FLOAT_SCALE_def)
  qed
  moreover have p0: "0 \<le> p" by (simp add: p_def FLOAT_SCALE_def)
  ultimately have units: "magnitude_units (round_bits p 1) = p" using round_bits_exact [of p 1] by simp
  note parts = float_round_parts [OF p0, of 1 "n < 0"]
  have "int_to_float n = Ok (float_round (n < 0) p 1)"
    using fin parts by (simp add: int_to_float_def finite_result_def p_def [symmetric])
  moreover have "float_units (float_round (n < 0) p 1) = n * FLOAT_SCALE"
  proof -
    have "float_units (float_round (n < 0) p 1) = (if n < 0 then - p else p)"
      by (simp only: float_units_def parts units zero_less_one simp_thms)
    then show ?thesis by (simp add: p_def)
  qed
  ultimately show ?thesis by blast
qed

end
