(* ===== verification/Fill_Append.thy ===== *)
theory Fill_Append
  imports Envelopes Floats
begin

text \<open>
  Fills and the derived position: the average-cost fold of \<^verbatim>\<open>app/position.py\<close>, the
  planner of \<^verbatim>\<open>append_fill\<close> in \<^verbatim>\<open>app/store/core.py\<close>, the position and
  quarantine projections of \<^verbatim>\<open>app/events/projectors.py\<close>, and the write of
  \<^verbatim>\<open>app/store/memory.py\<close>.

  The symbol of a request is normalised. The ingest time of an event, which the event record leaves
  out, is the argument \<open>ts_init\<close>; the text of a float in a message is the argument
  \<open>price_text\<close>; the fresh id of a row and the clock reading are arguments.
\<close>

subsection \<open>Rows\<close>

record fill_row =
  fr_id :: string
  fr_order_id :: string
  fr_symbol :: string
  fr_side :: order_side
  fr_quantity :: int
  fr_price :: float64
  fr_source_fill_id :: "string option"
  fr_session_id :: "string option"
  fr_filled_at :: instant
  fr_created_at :: instant

record position_row =
  ps_symbol :: string
  ps_quantity :: int
  ps_cost_basis :: float64
  ps_average_price :: "float64 option"
  ps_updated_at :: "instant option"

definition flat_position :: "string \<Rightarrow> position_row" where
  "flat_position symbol =
     \<lparr>ps_symbol = symbol, ps_quantity = 0, ps_cost_basis = FLOAT_ZERO, ps_average_price = None,
      ps_updated_at = None\<rparr>"

subsection \<open>The fold\<close>

text \<open>\<^verbatim>\<open>n * price\<close> and \<^verbatim>\<open>basis / n\<close> with an integer \<open>n\<close>.\<close>

definition int_times_float :: "int \<Rightarrow> float64 \<Rightarrow> float64 res" where
  "int_times_float n x = bind_res (int_to_float n) (\<lambda>f. Ok (float_mul f x))"

definition float_over_int :: "float64 \<Rightarrow> int \<Rightarrow> float64 res" where
  "float_over_int x n = bind_res (int_to_float n) (float_div x)"

definition buy_basis :: "position_row \<Rightarrow> fill_row \<Rightarrow> int \<Rightarrow> float64 res" where
  "buy_basis position fill new_quantity =
     (if ps_quantity position \<ge> 0
      then bind_res (int_times_float (fr_quantity fill) (fr_price fill)) (\<lambda>cost.
             Ok (float_add (ps_cost_basis position) cost))
      else if new_quantity > 0 then int_times_float new_quantity (fr_price fill)
      else Ok FLOAT_ZERO)"

definition sell_basis :: "position_row \<Rightarrow> fill_row \<Rightarrow> int \<Rightarrow> float64 res" where
  "sell_basis position fill new_quantity =
     (if new_quantity > 0 \<and> ps_quantity position > 0
      then bind_res (int_truediv new_quantity (ps_quantity position)) (\<lambda>share.
             Ok (float_mul (ps_cost_basis position) share))
      else Ok FLOAT_ZERO)"

definition fill_sign :: "order_side \<Rightarrow> int" where
  "fill_sign side = (case side of Side_BUY \<Rightarrow> 1 | Side_SELL \<Rightarrow> - 1)"

text \<open>\<^verbatim>\<open>NegativePositionError\<close> is a \<^verbatim>\<open>ValueError\<close>.\<close>

definition apply_fill :: "position_row \<Rightarrow> fill_row \<Rightarrow> bool \<Rightarrow> position_row res" where
  "apply_fill position fill allow_short =
     (let new_quantity = ps_quantity position + fill_sign (fr_side fill) * fr_quantity fill
      in require (fr_side fill = Side_BUY \<or> \<not> (new_quantity < 0 \<and> \<not> allow_short)) ValueError
         (bind_res (if fr_side fill = Side_BUY then buy_basis position fill new_quantity
                    else sell_basis position fill new_quantity) (\<lambda>cost_basis.
          bind_res (if new_quantity > 0 then bind_res (float_over_int cost_basis new_quantity) (\<lambda>a. Ok (Some a))
                    else Ok None) (\<lambda>average_price.
          Ok \<lparr>ps_symbol = ps_symbol position, ps_quantity = new_quantity, ps_cost_basis = cost_basis,
              ps_average_price = average_price, ps_updated_at = Some (fr_filled_at fill)\<rparr>))))"

definition fold_fills :: "string \<Rightarrow> fill_row list \<Rightarrow> position_row res" where
  "fold_fills symbol fills = fold_res (\<lambda>fill position. apply_fill position fill False) fills (flat_position symbol)"

definition would_go_negative :: "int \<Rightarrow> order_side \<Rightarrow> int \<Rightarrow> bool" where
  "would_go_negative current_quantity side quantity \<longleftrightarrow> side = Side_SELL \<and> quantity > current_quantity"

subsection \<open>Projections\<close>

text \<open>The id of the transient row is fresh in the source; nothing reads it.\<close>

definition fill_from_event :: "(execution_event \<Rightarrow> instant) \<Rightarrow> execution_event \<Rightarrow> fill_row res" where
  "fill_from_event ts_init e =
     (case (ev_symbol e, ev_side e, ev_quantity e, ev_price e) of
        (Some symbol, Some side, Some quantity, Some price) \<Rightarrow>
          require (fill_value_reason quantity price = None) ValueError
          (Ok \<lparr>fr_id = [], fr_order_id = (case ev_order_id e of Some i \<Rightarrow> i | None \<Rightarrow> []),
               fr_symbol = symbol, fr_side = side, fr_quantity = quantity, fr_price = price,
               fr_source_fill_id = ev_dedupe_key e, fr_session_id = ev_session_id e,
               fr_filled_at = (case ev_ts_event e of Some t \<Rightarrow> t | None \<Rightarrow> ts_init e),
               fr_created_at = ts_init e\<rparr>)
      | _ \<Rightarrow> Raise ValueError)"

definition fill_of_symbol :: "string \<Rightarrow> execution_event \<Rightarrow> bool" where
  "fill_of_symbol symbol e \<longleftrightarrow> ev_event_type e = Event_FILL \<and> ev_symbol e = Some symbol"

definition position_step ::
  "(execution_event \<Rightarrow> instant) \<Rightarrow> string \<Rightarrow> execution_event \<Rightarrow> position_row \<Rightarrow> position_row res" where
  "position_step ts_init symbol e position =
     (if fill_of_symbol symbol e
      then bind_res (fill_from_event ts_init e) (\<lambda>fill. apply_fill position fill True)
      else Ok position)"

definition project_symbol_position ::
  "(execution_event \<Rightarrow> instant) \<Rightarrow> event_log \<Rightarrow> string \<Rightarrow> position_row res" where
  "project_symbol_position ts_init events symbol =
     fold_res (position_step ts_init symbol) events (flat_position symbol)"

fun goes_short ::
  "(execution_event \<Rightarrow> instant) \<Rightarrow> string \<Rightarrow> event_log \<Rightarrow> position_row \<Rightarrow> bool res" where
  "goes_short ts_init symbol [] position = Ok False"
| "goes_short ts_init symbol (e # es) position =
     (if fill_of_symbol symbol e
      then bind_res (position_step ts_init symbol e position) (\<lambda>position.
             if ps_quantity position < 0 then Ok True else goes_short ts_init symbol es position)
      else goes_short ts_init symbol es position)"

definition event_symbols :: "execution_event_type \<Rightarrow> event_log \<Rightarrow> string list" where
  "event_symbols t events = List.map_filter ev_symbol (filter (\<lambda>e. ev_event_type e = t) events)"

definition quarantined_symbols :: "(execution_event \<Rightarrow> instant) \<Rightarrow> event_log \<Rightarrow> string set res" where
  "quarantined_symbols ts_init events =
     (let symbols = remdups (event_symbols Event_FILL events)
      in bind_res (map_res (\<lambda>symbol. goes_short ts_init symbol events (flat_position symbol)) symbols) (\<lambda>short.
           Ok (set (event_symbols Event_QUARANTINED events) \<union> set (map fst (filter snd (zip symbols short))))))"

subsection \<open>The planner\<close>

definition fill_dedupe_key :: "string \<Rightarrow> string option \<Rightarrow> string \<Rightarrow> string" where
  "fill_dedupe_key order_id source_fill_id fill_id =
     (case source_fill_id of
        Some s \<Rightarrow> ''fill:'' @ order_id @ '':'' @ s
      | None \<Rightarrow> ''fill:'' @ order_id @ '':@'' @ fill_id)"

definition execution_event_for_fill ::
  "fill_row \<Rightarrow> event_source \<Rightarrow> event_authority \<Rightarrow> payload \<Rightarrow> execution_event" where
  "execution_event_for_fill fill source authority payload =
     (draft_event Event_FILL source authority)
       \<lparr>ev_dedupe_key := Some (fill_dedupe_key (fr_order_id fill) (fr_source_fill_id fill) (fr_id fill)),
        ev_ts_event := Some (fr_filled_at fill), ev_symbol := Some (fr_symbol fill),
        ev_side := Some (fr_side fill), ev_quantity := Some (fr_quantity fill),
        ev_price := Some (fr_price fill), ev_order_id := Some (fr_order_id fill),
        ev_session_id := fr_session_id fill, ev_payload := payload\<rparr>"

record fill_request =
  fq_order_id :: string
  fq_symbol :: string
  fq_side :: order_side
  fq_quantity :: int
  fq_price :: float64
  fq_source_fill_id :: "string option"
  fq_filled_at :: "instant option"
  fq_session_id :: "string option"
  fq_source :: event_source
  fq_authority :: event_authority
  fq_execution_payload :: payload

text \<open>
  Prices are compared as bit patterns: that of an accepted request is finite and positive, and such a
  float has one pattern.
\<close>

definition fill_economic_material :: "fill_row \<Rightarrow> string \<times> string \<times> order_side \<times> int \<times> float64" where
  "fill_economic_material f = (fr_order_id f, fr_symbol f, fr_side f, fr_quantity f, fr_price f)"

definition request_material :: "fill_request \<Rightarrow> string \<times> string \<times> order_side \<times> int \<times> float64" where
  "request_material r = (fq_order_id r, fq_symbol r, fq_side r, fq_quantity r, fq_price r)"

definition event_matches_request :: "execution_event \<Rightarrow> fill_request \<Rightarrow> bool" where
  "event_matches_request e r \<longleftrightarrow>
     ev_event_type e = Event_FILL \<and> ev_order_id e = Some (fq_order_id r) \<and>
     ev_symbol e = Some (fq_symbol r) \<and> ev_side e = Some (fq_side r) \<and>
     ev_quantity e = Some (fq_quantity r) \<and> ev_price e = Some (fq_price r)"

definition row_conflict :: "fill_row \<Rightarrow> pyval" where
  "row_conflict f = PDict [(''representation'', PStr ''fill_row''), (''symbol'', PStr (fr_symbol f)),
     (''side'', PStr (order_side_value (fr_side f))), (''quantity'', PInt (fr_quantity f)),
     (''price'', PFloat (fr_price f))]"

definition event_conflict :: "execution_event \<Rightarrow> pyval" where
  "event_conflict e = PDict [(''representation'', PStr ''execution_event''),
     (''event_type'', PStr (execution_event_type_value (ev_event_type e))),
     (''symbol'', opt_text (ev_symbol e)),
     (''side'', opt_text (map_option order_side_value (ev_side e))),
     (''quantity'', opt_int (ev_quantity e)),
     (''price'', case ev_price e of Some p \<Rightarrow> PFloat p | None \<Rightarrow> PNone)]"

definition fill_conflict_payload ::
  "fill_row option \<Rightarrow> execution_event option \<Rightarrow> fill_request \<Rightarrow> payload option" where
  "fill_conflict_payload existing_fill existing_event r =
     (let conflicts =
        (case existing_fill of
           Some f \<Rightarrow> if fill_economic_material f \<noteq> request_material r then [row_conflict f] else []
         | None \<Rightarrow> []) @
        (case existing_event of
           Some e \<Rightarrow> if \<not> event_matches_request e r then [event_conflict e] else []
         | None \<Rightarrow> [])
      in if conflicts = [] then None
         else Some [''reason'' \<mapsto> PStr ''source_fill_id_economic_conflict'',
           ''source_fill_id'' \<mapsto> opt_text (fq_source_fill_id r), ''manual_review_required'' \<mapsto> PBool True,
           ''observed'' \<mapsto> PDict [(''symbol'', PStr (fq_symbol r)),
              (''side'', PStr (order_side_value (fq_side r))), (''quantity'', PInt (fq_quantity r)),
              (''price'', PFloat (fq_price r))],
           ''conflicts'' \<mapsto> PList conflicts])"

definition fill_order_match_reason ::
  "order_row \<Rightarrow> string \<Rightarrow> order_side \<Rightarrow> int \<Rightarrow> int \<Rightarrow> bool \<Rightarrow> string option" where
  "fill_order_match_reason ord symbol side quantity prior_filled_quantity allow_cumulative_overfill =
     (if or_symbol ord \<noteq> symbol then Some ''symbol_mismatch''
      else if or_side ord \<noteq> side then Some ''side_mismatch''
      else if \<not> allow_cumulative_overfill \<and> prior_filled_quantity + quantity > or_quantity ord
      then Some ''cumulative_exceeds_order_quantity''
      else None)"

datatype fill_plan =
    FILL_REJECT event_spec store_error
  | FILL_DUPLICATE event_spec
  | FILL_CONFLICT event_spec
  | FILL_APPEND event_spec fill_row execution_event "execution_event option"

text \<open>The audit row of a fill decision, with the fields all branches share.\<close>

definition fill_spec :: "string \<Rightarrow> string \<Rightarrow> fill_request \<Rightarrow> order_row option \<Rightarrow> payload \<Rightarrow> event_spec" where
  "fill_spec event_type message r maybe_order payload =
     (draft_spec event_type)
       \<lparr>sp_message := message, sp_symbol := Some (fq_symbol r),
        sp_candidate_id := Option.bind maybe_order or_candidate_id,
        sp_order_id := Some (fq_order_id r), sp_payload := payload, sp_session_id := fq_session_id r\<rparr>"

definition option_text :: "string option \<Rightarrow> string" where
  "option_text s = (case s of Some t \<Rightarrow> t | None \<Rightarrow> ''None'')"

definition request_fill :: "fill_request \<Rightarrow> string \<Rightarrow> instant \<Rightarrow> fill_row" where
  "request_fill r fill_id now =
     \<lparr>fr_id = fill_id, fr_order_id = fq_order_id r, fr_symbol = fq_symbol r, fr_side = fq_side r,
      fr_quantity = fq_quantity r, fr_price = fq_price r, fr_source_fill_id = fq_source_fill_id r,
      fr_session_id = fq_session_id r,
      fr_filled_at = (case fq_filled_at r of Some t \<Rightarrow> t | None \<Rightarrow> now), fr_created_at = now\<rparr>"

text \<open>The append itself, steps 5 and 6 of the planner.\<close>

definition plan_fill_append ::
  "fill_request \<Rightarrow> order_row \<Rightarrow> int \<Rightarrow> int \<Rightarrow> execution_event option \<Rightarrow> (float64 \<Rightarrow> string) \<Rightarrow> string \<Rightarrow>
   instant \<Rightarrow> fill_plan res" where
  "plan_fill_append r ord prior_filled current_quantity existing_quarantine_event price_text fill_id now =
     (let order_overfill = (prior_filled + fq_quantity r > or_quantity ord);
          position_overfill = would_go_negative current_quantity (fq_side r) (fq_quantity r);
          fill = request_fill r fill_id now;
          fill_event = execution_event_for_fill fill (fq_source r) (fq_authority r) (fq_execution_payload r)
      in if order_overfill \<or> position_overfill
         then bind_res (overfill_quarantine_event fill_event (Some (or_quantity ord)) prior_filled
                (Some current_quantity) order_overfill position_overfill False None) (\<lambda>quarantine_event.
           case overfill_quarantine_conflict_reason existing_quarantine_event quarantine_event of
             Some reason \<Rightarrow> Ok (FILL_REJECT
               (fill_spec ''fill_quarantine_identity_conflict''
                  (''fill for '' @ fq_symbol r @ '' rejected: '' @ reason) r (Some ord)
                  [''reason'' \<mapsto> PStr reason,
                   ''quarantine_dedupe_key'' \<mapsto> opt_text (ev_dedupe_key quarantine_event),
                   ''fill_dedupe_key'' \<mapsto> opt_text (ev_dedupe_key fill_event),
                   ''manual_review_required'' \<mapsto> PBool True])
               InvalidFillError)
           | None \<Rightarrow> Ok (FILL_APPEND
               ((fill_spec ''fill_overfill_quarantined''
                  (''broker overfill for '' @ fq_symbol r @ '': cumulative order fill '' @
                   show_int (prior_filled + fq_quantity r) @ ''/'' @ show_int (or_quantity ord) @
                   '', position before fill '' @ show_int current_quantity @
                   ''; recorded and quarantined (ADR-001)'') r (Some ord) (ev_payload quarantine_event))
                \<lparr>sp_fill_id := Some fill_id\<rparr>)
               fill fill_event (Some quarantine_event)))
         else Ok (FILL_APPEND
           ((fill_spec ''fill_appended''
              (''fill '' @ show_int (fq_quantity r) @ '' '' @ fq_symbol r @ '' @ '' @ price_text (fq_price r))
              r (Some ord)
              [''side'' \<mapsto> PStr (order_side_value (fq_side r)), ''quantity'' \<mapsto> PInt (fq_quantity r),
               ''price'' \<mapsto> PFloat (fq_price r)])
            \<lparr>sp_fill_id := Some fill_id\<rparr>)
           fill fill_event None))"

definition plan_append_fill ::
  "fill_request \<Rightarrow> order_row option \<Rightarrow> int \<Rightarrow> int \<Rightarrow> bool \<Rightarrow> fill_row option \<Rightarrow> execution_event option \<Rightarrow>
   execution_event option \<Rightarrow> (float64 \<Rightarrow> string) \<Rightarrow> string \<Rightarrow> instant \<Rightarrow> fill_plan res" where
  "plan_append_fill r maybe_order prior_filled current_quantity is_duplicate existing_fill
     existing_execution_event existing_quarantine_event price_text fill_id now =
     (case fill_value_reason (fq_quantity r) (fq_price r) of
        Some reason \<Rightarrow> Ok (FILL_REJECT
          (fill_spec ''fill_rejected_invalid'' (''fill for '' @ fq_symbol r @ '' rejected: '' @ reason) r
             maybe_order
             [''reason'' \<mapsto> PStr reason, ''quantity'' \<mapsto> PInt (fq_quantity r), ''price'' \<mapsto> PFloat (fq_price r)])
          InvalidFillError)
      | None \<Rightarrow> (case maybe_order of
        None \<Rightarrow> Ok (FILL_REJECT
          (fill_spec ''fill_rejected_invalid'' (''fill rejected: unknown order '' @ fq_order_id r) r None
             [''reason'' \<mapsto> PStr ''unknown_order''])
          UnknownEntityError)
      | Some ord \<Rightarrow> (case fill_conflict_payload existing_fill existing_execution_event r of
        Some conflict_payload \<Rightarrow> Ok (FILL_CONFLICT
          (fill_spec ''fill_duplicate_conflict''
             (''fill '' @ option_text (fq_source_fill_id r) @ '' for '' @ fq_symbol r @
              '' conflicts with durable economics; dropped for manual review'') r (Some ord) conflict_payload))
      | None \<Rightarrow>
        if existing_fill \<noteq> None \<or> is_duplicate
        then Ok (FILL_DUPLICATE
          (fill_spec ''fill_duplicate_ignored''
             (''duplicate fill '' @ option_text (fq_source_fill_id r) @ '' for '' @ fq_symbol r @ '' ignored'')
             r (Some ord) [''source_fill_id'' \<mapsto> opt_text (fq_source_fill_id r)]))
        else (let broker_authoritative = (fq_authority r = Authority_BROKER_AUTHORITATIVE)
              in case fill_order_match_reason ord (fq_symbol r) (fq_side r) (fq_quantity r) prior_filled
                        broker_authoritative of
          Some match_reason \<Rightarrow> Ok (FILL_REJECT
            (fill_spec ''fill_rejected_invalid''
               (''fill for '' @ fq_symbol r @ '' rejected: '' @ match_reason) r (Some ord)
               [''reason'' \<mapsto> PStr match_reason, ''order_symbol'' \<mapsto> PStr (or_symbol ord),
                ''order_side'' \<mapsto> PStr (order_side_value (or_side ord)),
                ''order_quantity'' \<mapsto> PInt (or_quantity ord), ''prior_filled_quantity'' \<mapsto> PInt prior_filled,
                ''quantity'' \<mapsto> PInt (fq_quantity r)])
            InvalidFillError)
        | None \<Rightarrow>
            if would_go_negative current_quantity (fq_side r) (fq_quantity r) \<and> \<not> broker_authoritative
            then Ok (FILL_REJECT
              (fill_spec ''fill_rejected_negative_position''
                 (''non-broker fill for '' @ fq_symbol r @ '' rejected: sell of '' @ show_int (fq_quantity r) @
                  '' exceeds current quantity '' @ show_int current_quantity) r (Some ord)
                 [''reason'' \<mapsto> PStr ''negative_position'', ''side'' \<mapsto> PStr (order_side_value (fq_side r)),
                  ''quantity'' \<mapsto> PInt (fq_quantity r), ''current_quantity'' \<mapsto> PInt current_quantity])
              InvalidFillError)
            else plan_fill_append r ord prior_filled current_quantity existing_quarantine_event price_text
                   fill_id now))))"

subsection \<open>The write\<close>

record fill_book =
  fb_orders :: "string \<rightharpoonup> order_row"
  fb_fills :: "fill_row list"
  fb_events :: event_log

datatype append_status = Appended fill_row | Duplicate | Conflict

definition event_with_key :: "event_log \<Rightarrow> string option \<Rightarrow> execution_event option" where
  "event_with_key events key = (if key = None then None else find (\<lambda>e. ev_dedupe_key e = key) events)"

definition append_fill ::
  "(execution_event \<Rightarrow> instant) \<Rightarrow> (float64 \<Rightarrow> string) \<Rightarrow> fill_request \<Rightarrow> string \<Rightarrow> instant \<Rightarrow> fill_book \<Rightarrow>
   store_error + append_status \<times> fill_book" where
  "append_fill ts_init price_text r fill_id now b =
     (let prior_filled = sum_list (map fr_quantity (filter (\<lambda>f. fr_order_id f = fq_order_id r) (fb_fills b)));
          existing_fill = (if fq_source_fill_id r = None then None
             else find (\<lambda>f. fr_order_id f = fq_order_id r \<and> fr_source_fill_id f = fq_source_fill_id r) (fb_fills b));
          self_key = map_option (\<lambda>s. ''fill:'' @ fq_order_id r @ '':'' @ s) (fq_source_fill_id r);
          others = filter (\<lambda>e. self_key = None \<or> ev_dedupe_key e \<noteq> self_key) (fb_events b)
      in case project_symbol_position ts_init others (fq_symbol r) of
           Inl e \<Rightarrow> Inl (StoreExn e)
         | Inr overfill_position \<Rightarrow>
             (case plan_append_fill r (fb_orders b (fq_order_id r)) prior_filled (ps_quantity overfill_position)
                     (existing_fill \<noteq> None) existing_fill (event_with_key (fb_events b) self_key)
                     (event_with_key (fb_events b) (map_option overfill_quarantine_dedupe_key self_key))
                     price_text fill_id now of
                Inl e \<Rightarrow> Inl (StoreExn e)
              | Inr (FILL_REJECT _ e) \<Rightarrow> Inl e
              | Inr (FILL_DUPLICATE _) \<Rightarrow> Inr (Duplicate, b)
              | Inr (FILL_CONFLICT _) \<Rightarrow> Inr (Conflict, b)
              | Inr (FILL_APPEND _ fill fill_event quarantine_event) \<Rightarrow>
                  Inr (Appended fill,
                    b\<lparr>fb_fills := fb_fills b @ [fill],
                      fb_events := append_all (fb_events b) (fill_event # (case quarantine_event of Some q \<Rightarrow> [q] | None \<Rightarrow> []))\<rparr>)))"

end
