(* ===== verification/Fill_Quantity.thy ===== *)
theory Fill_Quantity
  imports Fill_Append
begin

text \<open>
  The quantity of a position: that the fold over well-formed fill events returns and adds up their
  signed quantities, whatever its float arithmetic does to the cost basis, as long as the volume stays
  in the range in which an integer converts to a float.
\<close>

subsection \<open>Net quantities\<close>

definition event_quantity :: "execution_event \<Rightarrow> int" where
  "event_quantity e = (case ev_quantity e of Some q \<Rightarrow> q | None \<Rightarrow> 0)"

definition event_signed :: "execution_event \<Rightarrow> int" where
  "event_signed e = (case ev_side e of Some side \<Rightarrow> fill_sign side * event_quantity e | None \<Rightarrow> 0)"

definition net_quantity :: "event_log \<Rightarrow> string \<Rightarrow> int" where
  "net_quantity events symbol = sum_list (map event_signed (filter (fill_of_symbol symbol) events))"

definition gross_quantity :: "event_log \<Rightarrow> string \<Rightarrow> int" where
  "gross_quantity events symbol = sum_list (map event_quantity (filter (fill_of_symbol symbol) events))"

definition well_formed_fill :: "execution_event \<Rightarrow> bool" where
  "well_formed_fill e \<longleftrightarrow>
     (case (ev_symbol e, ev_side e, ev_quantity e, ev_price e) of
        (Some symbol, Some side, Some quantity, Some price) \<Rightarrow> fill_value_reason quantity price = None
      | _ \<Rightarrow> False)"

definition fills_well_formed :: "event_log \<Rightarrow> bool" where
  "fills_well_formed events \<longleftrightarrow> (\<forall>e \<in> set events. ev_event_type e = Event_FILL \<longrightarrow> well_formed_fill e)"

text \<open>The volume of no symbol reaches the range in which an integer has no float.\<close>

definition volume_bounded :: "event_log \<Rightarrow> bool" where
  "volume_bounded events \<longleftrightarrow> (\<forall>symbol. gross_quantity events symbol < 2 ^ 1023)"

lemma net_quantity_simps [simp]:
  "net_quantity [] s = 0"
  "net_quantity (e # es) s = (if fill_of_symbol s e then event_signed e else 0) + net_quantity es s"
  "net_quantity (es @ fs) s = net_quantity es s + net_quantity fs s"
  by (simp_all add: net_quantity_def)

lemma gross_quantity_simps [simp]:
  "gross_quantity [] s = 0"
  "gross_quantity (e # es) s = (if fill_of_symbol s e then event_quantity e else 0) + gross_quantity es s"
  "gross_quantity (es @ fs) s = gross_quantity es s + gross_quantity fs s"
  by (simp_all add: gross_quantity_def)

lemma fills_well_formed_simps [simp]:
  "fills_well_formed []"
  "fills_well_formed (e # es) \<longleftrightarrow> (ev_event_type e = Event_FILL \<longrightarrow> well_formed_fill e) \<and> fills_well_formed es"
  "fills_well_formed (es @ fs) \<longleftrightarrow> fills_well_formed es \<and> fills_well_formed fs"
  by (auto simp: fills_well_formed_def)

lemma fill_value_reason_pos: "fill_value_reason q p = None \<Longrightarrow> 0 < q"
  by (auto simp: fill_value_reason_def whole_count_reason_def split: if_splits)

lemma well_formed_fillE:
  assumes "well_formed_fill e"
  obtains symbol side quantity price where "ev_symbol e = Some symbol" "ev_side e = Some side"
    "ev_quantity e = Some quantity" "ev_price e = Some price" "fill_value_reason quantity price = None" "0 < quantity"
  using assms by (auto simp: well_formed_fill_def fill_value_reason_pos split: option.splits)

lemma event_quantity_pos: "well_formed_fill e \<Longrightarrow> 0 < event_quantity e"
  by (auto simp: event_quantity_def elim: well_formed_fillE)

lemma event_signed_bound: "0 \<le> event_quantity e \<Longrightarrow> \<bar>event_signed e\<bar> \<le> event_quantity e"
  by (simp add: event_signed_def fill_sign_def split: option.splits order_side.splits)

lemma gross_quantity_nonneg: "fills_well_formed events \<Longrightarrow> 0 \<le> gross_quantity events s"
proof (induction events)
  case (Cons e events)
  then show ?case using event_quantity_pos [of e] by (auto simp: fill_of_symbol_def less_imp_le)
qed simp

lemma gross_quantity_filter:
  "fills_well_formed events \<Longrightarrow> gross_quantity (filter P events) s \<le> gross_quantity events s"
proof (induction events)
  case (Cons e events)
  then show ?case using event_quantity_pos [of e] by (auto simp: fill_of_symbol_def)
qed simp

lemma fills_well_formed_filter: "fills_well_formed events \<Longrightarrow> fills_well_formed (filter P events)"
  by (auto simp: fills_well_formed_def)

subsection \<open>The fold is total and keeps the net quantity\<close>

lemma apply_fill_quantity:
  "apply_fill p f short = Ok p' \<Longrightarrow> ps_quantity p' = ps_quantity p + fill_sign (fr_side f) * fr_quantity f"
  by (auto simp: apply_fill_def Let_def res_simps)

lemma int_times_float_Ok: "\<bar>n\<bar> < 2 ^ 1023 \<Longrightarrow> \<exists>x. int_times_float n p = Ok x"
  using int_to_float_Ok [of n] by (auto simp: int_times_float_def)

lemma int_to_float_nonzero:
  assumes "int_to_float n = Ok x" "0 < n"
  shows "\<not> float_zero x"
proof
  assume z: "float_zero x"
  define p where "p = \<bar>n\<bar> * FLOAT_SCALE"
  have p: "2 ^ 1074 \<le> p" using assms(2) by (simp add: p_def FLOAT_SCALE_def)
  have p0: "0 \<le> p" by (rule order.trans [OF _ p]) simp
  have x: "x = float_round (n < 0) p 1" "round_bits p 1 < FLOAT_INF_BITS"
    using assms(1) float_round_parts [OF p0, of 1 "n < 0"]
    by (auto simp: int_to_float_def finite_result_def res_simps p_def)
  have "round_bits p 1 = 0" using z x(1) float_round_parts [OF p0, of 1 "n < 0"] by (simp add: float_zero_def)
  with round_bits_nearest [OF p0 _ x(2)] have "2 * p \<le> 2 ^ round_shift p 1"
    using p0 by (simp add: magnitude_units_def)
  moreover have "2 ^ round_shift p 1 \<le> p"
  proof (cases "bit_len (nat p)")
    case (Suc c)
    have "(2 :: nat) ^ round_shift p 1 \<le> 2 ^ c" using Suc by (intro power_increasing) (simp_all add: round_shift_def)
    with bit_len_lower [of c "nat p"] Suc have "2 ^ round_shift p 1 \<le> nat p" by linarith
    then show ?thesis using p0 by (simp add: le_nat_iff)
  qed (use p in \<open>simp add: round_shift_def\<close>)
  ultimately show False using p by simp
qed

lemma float_over_int_Ok: "0 < n \<Longrightarrow> n < 2 ^ 1023 \<Longrightarrow> \<exists>x. float_over_int c n = Ok x"
  using int_to_float_Ok [of n] int_to_float_nonzero [of n]
  by (auto simp: float_over_int_def float_div_def Let_def)

lemma apply_fill_total:
  assumes "0 < fr_quantity f" "\<bar>ps_quantity p\<bar> + fr_quantity f < 2 ^ 1023"
  shows "\<exists>p'. apply_fill p f True = Ok p'"
proof -
  let ?n = "ps_quantity p + fill_sign (fr_side f) * fr_quantity f"
  have n: "\<bar>?n\<bar> < 2 ^ 1023" using assms by (cases "fr_side f") (simp_all add: fill_sign_def)
  have buy: "\<exists>c. buy_basis p f ?n = Ok c"
    using int_times_float_Ok [of "fr_quantity f" "fr_price f"] int_times_float_Ok [OF n, of "fr_price f"] assms
    by (auto simp: buy_basis_def)
  have sell: "\<exists>c. sell_basis p f ?n = Ok c" if "fr_side f = Side_SELL"
    using int_truediv_Ok [of ?n "ps_quantity p"] that assms(1) by (auto simp: sell_basis_def fill_sign_def)
  obtain c where c: "(if fr_side f = Side_BUY then buy_basis p f ?n else sell_basis p f ?n) = Ok c"
    using buy sell by (cases "fr_side f") auto
  moreover have "\<exists>a. (if 0 < ?n then bind_res (float_over_int c ?n) (\<lambda>a. Ok (Some a)) else Ok None) = Ok a"
    using float_over_int_Ok [of ?n c] n by auto
  ultimately show ?thesis by (auto simp: apply_fill_def Let_def)
qed

lemma fill_from_event_Ok:
  assumes "well_formed_fill e"
  shows "\<exists>f. fill_from_event ts e = Ok f \<and> fill_sign (fr_side f) * fr_quantity f = event_signed e \<and>
    fr_quantity f = event_quantity e"
  using assms by (auto simp: fill_from_event_def event_signed_def event_quantity_def elim!: well_formed_fillE)

lemma position_step_Ok:
  assumes "ev_event_type e = Event_FILL \<longrightarrow> well_formed_fill e"
    "\<bar>ps_quantity p\<bar> + (if fill_of_symbol s e then event_quantity e else 0) < 2 ^ 1023"
  shows "\<exists>p'. position_step ts s e p = Ok p' \<and>
    ps_quantity p' = ps_quantity p + (if fill_of_symbol s e then event_signed e else 0)"
proof (cases "fill_of_symbol s e")
  case True
  then have e: "well_formed_fill e" using assms(1) by (simp add: fill_of_symbol_def)
  from fill_from_event_Ok [OF e, of ts] obtain f where
    f: "fill_from_event ts e = Ok f" "fill_sign (fr_side f) * fr_quantity f = event_signed e" "fr_quantity f = event_quantity e"
    by blast
  from apply_fill_total [of f p] event_quantity_pos [OF e] assms(2) True f obtain p' where "apply_fill p f True = Ok p'"
    by auto
  with f apply_fill_quantity [OF this] True show ?thesis by (auto simp: position_step_def)
qed (simp add: position_step_def)

lemma project_from_Ok:
  assumes "fills_well_formed events" "\<bar>ps_quantity p\<bar> + gross_quantity events s < 2 ^ 1023"
  shows "\<exists>p'. fold_res (position_step ts s) events p = Ok p' \<and> ps_quantity p' = ps_quantity p + net_quantity events s"
  using assms
proof (induction events arbitrary: p)
  case (Cons e events)
  let ?q = "if fill_of_symbol s e then event_quantity e else 0"
  have q0: "0 \<le> ?q" using Cons.prems(1) event_quantity_pos [of e] by (auto simp: fill_of_symbol_def less_imp_le)
  have g0: "0 \<le> gross_quantity events s" using Cons.prems(1) gross_quantity_nonneg by simp
  have "\<bar>ps_quantity p\<bar> + ?q < 2 ^ 1023" using Cons.prems(2) g0 by simp
  from position_step_Ok [OF _ this, of ts] Cons.prems(1) obtain p1 where
    p1: "position_step ts s e p = Ok p1" "ps_quantity p1 = ps_quantity p + (if fill_of_symbol s e then event_signed e else 0)"
    by auto
  have "\<bar>ps_quantity p1\<bar> + gross_quantity events s < 2 ^ 1023"
    using Cons.prems(2) event_signed_bound [of e] q0 p1(2) by (auto split: if_splits)
  from Cons.IH [OF _ this] Cons.prems(1) p1 show ?case by auto
qed simp

lemma project_Ok:
  assumes "fills_well_formed events" "gross_quantity events s < 2 ^ 1023"
  shows "\<exists>p. project_symbol_position ts events s = Ok p \<and> ps_quantity p = net_quantity events s"
  using project_from_Ok [OF assms(1), of "flat_position s" s ts] assms(2)
  by (simp add: project_symbol_position_def flat_position_def)

end
