(* ===== verification/Order_Events.thy ===== *)
theory Order_Events
  imports Orders
begin

text \<open>
  The execution events of an order: which event a routine write emits and under which dedupe key,
  the evented transitions and the backfill event (\<^verbatim>\<open>app/store/core.py\<close>), and the
  projections that read them back (\<^verbatim>\<open>app/events/projectors.py\<close>,
  \<^verbatim>\<open>_project_order_unlocked\<close> of \<^verbatim>\<open>app/store/memory.py\<close>).
\<close>

subsection \<open>Routine events\<close>

definition routine_event_provenance :: "order_row \<Rightarrow> order_status \<Rightarrow> event_source \<times> event_authority" where
  "routine_event_provenance ord new_status =
     (if new_status \<in> {Order_SUBMITTING, Order_CREATED, Order_CANCEL_PENDING}
      then (Source_ENGINE, Authority_LOCAL)
      else if new_status = Order_CANCELED \<and> or_broker_order_id ord = None
      then (Source_ENGINE, Authority_LOCAL)
      else (Source_BROKER_REST, Authority_BROKER_AUTHORITATIVE))"

fun EXECUTION_EVENT_FOR_ROUTINE_STATUS :: "order_status \<Rightarrow> execution_event_type option" where
  "EXECUTION_EVENT_FOR_ROUTINE_STATUS Order_SUBMITTED = Some Event_SUBMITTED"
| "EXECUTION_EVENT_FOR_ROUTINE_STATUS Order_PARTIALLY_FILLED = Some Event_PARTIALLY_FILLED"
| "EXECUTION_EVENT_FOR_ROUTINE_STATUS Order_FILLED = Some Event_FILLED"
| "EXECUTION_EVENT_FOR_ROUTINE_STATUS Order_CANCELED = Some Event_CANCELED"
| "EXECUTION_EVENT_FOR_ROUTINE_STATUS Order_REJECTED = Some Event_REJECTED"
| "EXECUTION_EVENT_FOR_ROUTINE_STATUS _ = None"

definition SHARED_FORMAT_KEY_STATUSES :: "order_status set" where
  "SHARED_FORMAT_KEY_STATUSES = {Order_SUBMITTED, Order_CANCELED, Order_REJECTED}"

definition order_event ::
  "order_row \<Rightarrow> execution_event_type \<Rightarrow> event_source \<Rightarrow> event_authority \<Rightarrow> string \<Rightarrow> execution_event" where
  "order_event ord event_type source authority dedupe_key =
     (draft_event event_type source authority)
       \<lparr>ev_dedupe_key := Some dedupe_key, ev_symbol := Some (or_symbol ord),
        ev_side := Some (or_side ord), ev_order_id := Some (or_id ord),
        ev_session_id := or_session_id ord\<rparr>"

definition show_count :: "int option \<Rightarrow> string" where
  "show_count q = (case q of Some i \<Rightarrow> show_int i | None \<Rightarrow> ''None'')"

definition execution_event_for_routine_transition ::
  "order_row \<Rightarrow> order_status \<Rightarrow> int option \<Rightarrow> nat option \<Rightarrow> store_error + execution_event option" where
  "execution_event_for_routine_transition ord new_status filled_quantity occurrence =
     (let (source, authority) = routine_event_provenance ord new_status;
          n = (case occurrence of Some n \<Rightarrow> n | None \<Rightarrow> 0)
      in if new_status = Order_TIMEOUT_QUARANTINE then Inl AssertionError
         else if new_status = Order_SUBMITTING
         then Inr (Some (order_event ord Event_SUBMIT_PENDING source authority
                (''submit_pending:'' @ or_id ord @ '':'' @ show_nat n)))
         else if new_status = Order_CREATED \<and> or_status ord = Order_SUBMITTING
         then Inr (Some (order_event ord Event_SUBMIT_RELEASED source authority
                (''release:'' @ or_id ord @ '':'' @ show_nat n)))
         else if new_status = Order_CANCEL_PENDING
         then (if or_status ord = Order_CANCEL_PENDING then Inr None
               else Inr (Some (order_event ord Event_CANCEL_PENDING source authority
                      (''cancel_pending:'' @ or_id ord))))
         else if new_status = Order_PARTIALLY_FILLED \<and> or_status ord = Order_PARTIALLY_FILLED
         then Inr (Some (order_event ord Event_PARTIALLY_FILLED source authority
                (''order_fill_progress:'' @ or_id ord @ '':'' @ show_count filled_quantity)))
         else (case EXECUTION_EVENT_FOR_ROUTINE_STATUS new_status of
             None \<Rightarrow> Inr None
           | Some exec_type \<Rightarrow>
               if new_status \<in> SHARED_FORMAT_KEY_STATUSES \<and> or_status ord = Order_TIMEOUT_QUARANTINE
               then Inl AssertionError
               else Inr (Some (order_event ord exec_type source authority
                      (order_status_value new_status @ '':'' @ or_id ord)))))"

fun STATUS_TO_BACKFILL_EVENT :: "order_status \<Rightarrow> execution_event_type option" where
  "STATUS_TO_BACKFILL_EVENT Order_SUBMITTING = Some Event_SUBMIT_PENDING"
| "STATUS_TO_BACKFILL_EVENT Order_SUBMITTED = Some Event_SUBMITTED"
| "STATUS_TO_BACKFILL_EVENT Order_PARTIALLY_FILLED = Some Event_PARTIALLY_FILLED"
| "STATUS_TO_BACKFILL_EVENT Order_CANCEL_PENDING = Some Event_CANCEL_PENDING"
| "STATUS_TO_BACKFILL_EVENT Order_FILLED = Some Event_FILLED"
| "STATUS_TO_BACKFILL_EVENT Order_CANCELED = Some Event_CANCELED"
| "STATUS_TO_BACKFILL_EVENT Order_REJECTED = Some Event_REJECTED"
| "STATUS_TO_BACKFILL_EVENT Order_TIMEOUT_QUARANTINE = Some Event_TIMEOUT_QUARANTINE"
| "STATUS_TO_BACKFILL_EVENT Order_CREATED = None"

definition order_status_backfill_event :: "order_row \<Rightarrow> execution_event option" where
  "order_status_backfill_event ord =
     map_option (\<lambda>event_type. order_event ord event_type Source_RECONCILIATION Authority_SYNTHETIC
       (''backfill_status:'' @ or_id ord)) (STATUS_TO_BACKFILL_EVENT (or_status ord))"

subsection \<open>Evented transitions\<close>

datatype evented_plan =
    Evented_Reject store_error
  | Evented_Noop
  | Evented_Apply order_row event_spec execution_event

definition evented_spec ::
  "order_row \<Rightarrow> order_status \<Rightarrow> string \<Rightarrow> string option \<Rightarrow> string option \<Rightarrow> event_spec" where
  "evented_spec ord new_status audit_event_type broker_order_id reason =
     (draft_spec audit_event_type)
       \<lparr>sp_message := ''order '' @ or_symbol ord @ '' '' @ order_status_value (or_status ord) @ '' -> '' @
          order_status_value new_status @
          (case reason of Some r \<Rightarrow> if r \<noteq> [] then '' ('' @ r @ '')'' else [] | None \<Rightarrow> []),
        sp_symbol := Some (or_symbol ord), sp_candidate_id := or_candidate_id ord,
        sp_order_id := Some (or_id ord),
        sp_payload := [''from'' \<mapsto> PStr (order_status_value (or_status ord)),
                       ''to'' \<mapsto> PStr (order_status_value new_status)] ++
          (case reason of Some r \<Rightarrow> [''reason'' \<mapsto> PStr r] | None \<Rightarrow> Map.empty) ++
          (case broker_order_id of Some b \<Rightarrow> [''broker_order_id'' \<mapsto> PStr b] | None \<Rightarrow> Map.empty),
        sp_session_id := or_session_id ord\<rparr>"

definition plan_transition_order_evented ::
  "order_row \<Rightarrow> order_status \<Rightarrow> execution_event_type \<Rightarrow> string \<Rightarrow> string \<Rightarrow> event_source \<Rightarrow>
   event_authority \<Rightarrow> string option \<Rightarrow> string option \<Rightarrow> instant option \<Rightarrow> instant \<Rightarrow> evented_plan" where
  "plan_transition_order_evented ord new_status execution_event_type audit_event_type dedupe_key source
     authority broker_order_id reason ts_event now =
     (case plan_transition_order ord new_status None broker_order_id COMMAND_ACTOR_SYSTEM now of
        Order_Reject e \<Rightarrow> Evented_Reject e
      | Order_Noop \<Rightarrow> Evented_Noop
      | Order_Apply updated _ \<Rightarrow>
          Evented_Apply updated (evented_spec ord new_status audit_event_type broker_order_id reason)
            ((order_event ord execution_event_type source authority dedupe_key)
               \<lparr>ev_ts_event := ts_event\<rparr>))"

definition plan_quarantine_timed_out_order :: "order_row \<Rightarrow> string option \<Rightarrow> instant \<Rightarrow> evented_plan" where
  "plan_quarantine_timed_out_order ord reason now =
     plan_transition_order_evented ord Order_TIMEOUT_QUARANTINE Event_TIMEOUT_QUARANTINE
       ''order_timeout_quarantined'' (''timeout_quarantine:'' @ or_id ord) Source_ENGINE Authority_LOCAL
       None reason None now"

fun EXECUTION_EVENT_FOR_RESOLVED_STATUS :: "order_status \<Rightarrow> execution_event_type option" where
  "EXECUTION_EVENT_FOR_RESOLVED_STATUS Order_SUBMITTED = Some Event_SUBMITTED"
| "EXECUTION_EVENT_FOR_RESOLVED_STATUS Order_REJECTED = Some Event_REJECTED"
| "EXECUTION_EVENT_FOR_RESOLVED_STATUS Order_CANCELED = Some Event_CANCELED"
| "EXECUTION_EVENT_FOR_RESOLVED_STATUS _ = None"

definition plan_resolve_timeout_quarantine ::
  "order_row \<Rightarrow> order_status \<Rightarrow> string option \<Rightarrow> string option \<Rightarrow> instant \<Rightarrow>
   store_error + evented_plan" where
  "plan_resolve_timeout_quarantine ord new_status broker_order_id reason now =
     (case EXECUTION_EVENT_FOR_RESOLVED_STATUS new_status of
        None \<Rightarrow> Inl StoreValueError
      | Some exec_type \<Rightarrow> Inr (plan_transition_order_evented ord new_status exec_type
          ''order_timeout_quarantine_resolved'' (order_status_value new_status @ '':'' @ or_id ord)
          Source_BROKER_REST Authority_BROKER_AUTHORITATIVE broker_order_id reason None now))"

fun RECONCILE_RESOLVE_EXEC :: "order_status \<Rightarrow> execution_event_type option" where
  "RECONCILE_RESOLVE_EXEC Order_REJECTED = Some Event_REJECTED"
| "RECONCILE_RESOLVE_EXEC Order_CANCELED = Some Event_CANCELED"
| "RECONCILE_RESOLVE_EXEC _ = None"

definition plan_reconcile_resolve_order ::
  "order_row \<Rightarrow> order_status \<Rightarrow> string option \<Rightarrow> instant \<Rightarrow> store_error + evented_plan" where
  "plan_reconcile_resolve_order ord new_status reason now =
     (case RECONCILE_RESOLVE_EXEC new_status of
        None \<Rightarrow> Inl StoreValueError
      | Some exec_type \<Rightarrow> Inr (plan_transition_order_evented ord new_status exec_type
          ''order_reconcile_resolved''
          (''reconcile_resolve:'' @ or_id ord @ '':'' @ order_status_value new_status)
          Source_BROKER_REST Authority_BROKER_AUTHORITATIVE None reason None now))"

subsection \<open>Projections\<close>

fun LIFECYCLE_EVENT_TO_STATUS :: "execution_event_type \<Rightarrow> order_status option" where
  "LIFECYCLE_EVENT_TO_STATUS Event_SUBMIT_PENDING = Some Order_SUBMITTING"
| "LIFECYCLE_EVENT_TO_STATUS Event_SUBMIT_RELEASED = Some Order_CREATED"
| "LIFECYCLE_EVENT_TO_STATUS Event_SUBMITTED = Some Order_SUBMITTED"
| "LIFECYCLE_EVENT_TO_STATUS Event_PARTIALLY_FILLED = Some Order_PARTIALLY_FILLED"
| "LIFECYCLE_EVENT_TO_STATUS Event_CANCEL_PENDING = Some Order_CANCEL_PENDING"
| "LIFECYCLE_EVENT_TO_STATUS Event_FILLED = Some Order_FILLED"
| "LIFECYCLE_EVENT_TO_STATUS Event_CANCELED = Some Order_CANCELED"
| "LIFECYCLE_EVENT_TO_STATUS Event_REJECTED = Some Order_REJECTED"
| "LIFECYCLE_EVENT_TO_STATUS Event_TIMEOUT_QUARANTINE = Some Order_TIMEOUT_QUARANTINE"
| "LIFECYCLE_EVENT_TO_STATUS _ = None"

definition ORDER_STATUS_EVENT_TYPES :: "execution_event_type set" where
  "ORDER_STATUS_EVENT_TYPES = {t. LIFECYCLE_EVENT_TO_STATUS t \<noteq> None}"

record order_status_projection =
  op_order_id :: string
  op_status :: order_status
  op_filled_quantity :: int

definition project_order_step ::
  "string \<Rightarrow> execution_event \<Rightarrow> order_status \<times> int \<Rightarrow> order_status \<times> int" where
  "project_order_step order_id e = (\<lambda>(status, filled).
     if ev_order_id e \<noteq> Some order_id then (status, filled)
     else if ev_event_type e = Event_FILL
     then (status, filled + (case ev_quantity e of Some q \<Rightarrow> q | None \<Rightarrow> 0))
     else (case LIFECYCLE_EVENT_TO_STATUS (ev_event_type e) of
             Some mapped \<Rightarrow> (mapped, filled) | None \<Rightarrow> (status, filled)))"

definition project_order_status :: "event_log \<Rightarrow> string \<Rightarrow> int option \<Rightarrow> order_status_projection" where
  "project_order_status events order_id quantity =
     (let (status, filled) = fold (project_order_step order_id) events (Order_CREATED, 0)
      in \<lparr>op_order_id = order_id, op_status = status,
          op_filled_quantity = (case quantity of Some q \<Rightarrow> min filled q | None \<Rightarrow> filled)\<rparr>)"

definition project_order :: "event_log \<Rightarrow> order_row \<Rightarrow> order_row" where
  "project_order events ord =
     (let proj = project_order_status events (or_id ord) (Some (or_quantity ord))
      in ord\<lparr>or_status := op_status proj,
             or_filled_quantity := max (or_filled_quantity ord) (op_filled_quantity proj)\<rparr>)"

definition timeout_lifecycle_event :: "execution_event_type \<Rightarrow> bool" where
  "timeout_lifecycle_event t \<longleftrightarrow>
     t \<in> {Event_TIMEOUT_QUARANTINE, Event_SUBMITTED, Event_REJECTED, Event_CANCELED, Event_FILLED}"

definition timeout_latest :: "event_log \<Rightarrow> (string \<rightharpoonup> execution_event_type)" where
  "timeout_latest events =
     fold (\<lambda>e latest. case ev_order_id e of
             Some order_id \<Rightarrow> if timeout_lifecycle_event (ev_event_type e)
                              then latest(order_id \<mapsto> ev_event_type e) else latest
           | None \<Rightarrow> latest) events Map.empty"

definition timeout_quarantined_order_ids :: "event_log \<Rightarrow> string set" where
  "timeout_quarantined_order_ids events =
     {order_id. timeout_latest events order_id = Some Event_TIMEOUT_QUARANTINE}"

end
