(* ===== verification/Order_Log.thy ===== *)
theory Order_Log
  imports Order_Events
begin

text \<open>
  The writes of the stores to the order table and the event log. Every write of a status goes through
  one of the planners and appends the planner's event under the dedupe rule; the guards the stores add
  around the planners (envelope delegation, broker identity, risk limits) only refuse. The status
  column is then the projection of the log on every run, although an event whose key is already there
  is dropped: the keys of an order are injective, and a status whose key is in the log is one the order
  cannot enter again.
\<close>

subsection \<open>The event of a generic transition\<close>

definition occurrences :: "event_log \<Rightarrow> string \<Rightarrow> execution_event_type \<Rightarrow> nat" where
  "occurrences events order_id event_type =
     length (filter (\<lambda>e. ev_order_id e = Some order_id \<and> ev_event_type e = event_type) events)"

definition transition_execution_event ::
  "event_log \<Rightarrow> order_row \<Rightarrow> order_row \<Rightarrow> event_spec \<Rightarrow> store_error + execution_event option" where
  "transition_execution_event events ord planned spec =
     (if sp_event_type spec = ''order_transition''
      then execution_event_for_routine_transition ord (or_status planned)
             (Some (or_filled_quantity planned))
             (if or_status planned = Order_CREATED
              then Some (occurrences events (or_id ord) Event_SUBMIT_RELEASED) else None)
      else if sp_event_type spec = ''order_fill_progress'' \<and> or_status ord = Order_PARTIALLY_FILLED \<and>
              or_status planned = Order_PARTIALLY_FILLED \<and>
              or_filled_quantity planned \<noteq> or_filled_quantity ord
      then execution_event_for_routine_transition ord (or_status planned)
             (Some (or_filled_quantity planned)) None
      else Inr None)"

definition record_event :: "event_log \<Rightarrow> execution_event option \<Rightarrow> event_log" where
  "record_event events ev =
     (case ev of Some e \<Rightarrow> snd (append_execution_event events e) | None \<Rightarrow> events)"

subsection \<open>Dedupe keys\<close>

datatype order_key =
    StatusKey order_status | ClaimKey nat | ReleaseKey nat | ProgressKey "int option" | ResolveKey order_status

fun render_key :: "order_key \<Rightarrow> string \<Rightarrow> string" where
  "render_key (StatusKey s) i = order_status_value s @ '':'' @ i"
| "render_key (ClaimKey n) i = ''submit_pending:'' @ i @ '':'' @ show_nat n"
| "render_key (ReleaseKey n) i = ''release:'' @ i @ '':'' @ show_nat n"
| "render_key (ProgressKey q) i = ''order_fill_progress:'' @ i @ '':'' @ show_count q"
| "render_key (ResolveKey s) i = ''reconcile_resolve:'' @ i @ '':'' @ order_status_value s"

fun key_head :: "order_key \<Rightarrow> string" where
  "key_head (StatusKey s) = order_status_value s"
| "key_head (ClaimKey n) = ''submit_pending''"
| "key_head (ReleaseKey n) = ''release''"
| "key_head (ProgressKey q) = ''order_fill_progress''"
| "key_head (ResolveKey s) = ''reconcile_resolve''"

fun key_rest :: "order_key \<Rightarrow> string \<Rightarrow> string" where
  "key_rest (StatusKey s) i = i"
| "key_rest (ClaimKey n) i = i @ '':'' @ show_nat n"
| "key_rest (ReleaseKey n) i = i @ '':'' @ show_nat n"
| "key_rest (ProgressKey q) i = i @ '':'' @ show_count q"
| "key_rest (ResolveKey s) i = i @ '':'' @ order_status_value s"

lemma render_key_split: "render_key k i = key_head k @ CHR '':'' # key_rest k i"
  by (cases k) simp_all

lemma key_head_no_colon [simp]: "CHR '':'' \<notin> set (key_head k)"
  by (cases k) simp_all

lemma show_int_not_None: "show_int i \<noteq> ''None''"
  using show_nat_digits [of "nat i"] by (auto simp: show_int_def is_digit_def)

lemma show_count_inj: "show_count p = show_count q \<Longrightarrow> p = q"
  by (auto simp: show_count_def show_int_not_None show_int_not_None [THEN not_sym]
    dest: show_int_inj split: option.splits)

lemma show_count_no_colon [simp]: "CHR '':'' \<notin> set (show_count q)"
  by (simp add: show_count_def split: option.splits)

lemma key_heads:
  assumes "key_head k = key_head l"
  shows "(case (k, l) of (StatusKey s, StatusKey t) \<Rightarrow> s = t | (ClaimKey _, ClaimKey _) \<Rightarrow> True
    | (ReleaseKey _, ReleaseKey _) \<Rightarrow> True | (ProgressKey _, ProgressKey _) \<Rightarrow> True
    | (ResolveKey _, ResolveKey _) \<Rightarrow> True | _ \<Rightarrow> False)"
proof -
  have "order_status_value s \<notin> {''submit_pending'', ''release'', ''order_fill_progress'', ''reconcile_resolve''}" for s
    by (cases s) simp_all
  with assms show ?thesis by (cases k; cases l) (auto dest: sym)
qed

lemma render_key_inj:
  assumes "render_key k i = render_key l j"
  shows "k = l \<and> i = j"
proof -
  have "key_head k = key_head l \<and> key_rest k i = key_rest l j"
    by (rule colon_prefix_inj) (use assms in \<open>simp_all add: render_key_split\<close>)
  then show ?thesis
    using key_heads [of k l]
    by (cases k; cases l) (auto dest!: colon_suffix_inj show_nat_inj show_count_inj)
qed

definition reserved_key :: "string \<Rightarrow> bool" where
  "reserved_key key \<longleftrightarrow> (\<exists>k i. key = render_key k i)"

subsection \<open>The writes\<close>

type_synonym order_book = "(string \<rightharpoonup> order_row) \<times> event_log"

inductive order_write :: "order_book \<Rightarrow> order_book \<Rightarrow> bool" where
  create: "orders (or_id ord) = None \<Longrightarrow> or_status ord = Order_CREATED \<Longrightarrow>
    order_write (orders, events) (orders(or_id ord \<mapsto> ord), events)"
| claim: "orders i = Some raw \<Longrightarrow> ord = project_order events raw \<Longrightarrow>
    plan_claim_order_for_submission (Some ord) own current reason quarantined uncertain now =
      CLAIM_CLAIMED planned spec \<Longrightarrow>
    execution_event_for_routine_transition ord Order_SUBMITTING None
      (Some (occurrences events i Event_SUBMIT_PENDING)) = Inr ev \<Longrightarrow>
    order_write (orders, events) (orders(i \<mapsto> planned), record_event events ev)"
| transition: "orders i = Some raw \<Longrightarrow> ord = project_order events raw \<Longrightarrow>
    plan_transition_order ord new_status filled broker actor now = Order_Apply planned spec \<Longrightarrow>
    transition_execution_event events ord planned spec = Inr ev \<Longrightarrow>
    order_write (orders, events) (orders(i \<mapsto> planned), record_event events ev)"
| quarantine: "orders i = Some raw \<Longrightarrow>
    plan_quarantine_timed_out_order (project_order events raw) why now = Evented_Apply planned spec e \<Longrightarrow>
    order_write (orders, events) (orders(i \<mapsto> planned), record_event events (Some e))"
| resolve: "orders i = Some raw \<Longrightarrow>
    plan_resolve_timeout_quarantine (project_order events raw) new_status broker why now =
      Inr (Evented_Apply planned spec e) \<Longrightarrow>
    order_write (orders, events) (orders(i \<mapsto> planned), record_event events (Some e))"
| reconcile: "orders i = Some raw \<Longrightarrow>
    plan_reconcile_resolve_order (project_order events raw) new_status why now =
      Inr (Evented_Apply planned spec e) \<Longrightarrow>
    order_write (orders, events) (orders(i \<mapsto> planned), record_event events (Some e))"
| other: "ev_event_type e \<notin> ORDER_STATUS_EVENT_TYPES \<Longrightarrow>
    (\<And>key. ev_dedupe_key e = Some key \<Longrightarrow> \<not> reserved_key key) \<Longrightarrow>
    order_write (orders, events) (orders, record_event events (Some e))"

inductive_cases order_write_cases: "order_write s s'"

abbreviation order_book_start :: "order_book \<Rightarrow> bool" where
  "order_book_start s \<equiv> s = (Map.empty, [])"

subsection \<open>The invariant\<close>

definition last_status :: "event_log \<Rightarrow> string \<Rightarrow> order_status" where
  "last_status events i = fst (fold (project_order_step i) events (Order_CREATED, 0))"

fun key_seen :: "event_log \<Rightarrow> order_row \<Rightarrow> order_key \<Rightarrow> bool" where
  "key_seen events ord (StatusKey s) \<longleftrightarrow> order_rank s \<le> order_rank (or_status ord)"
| "key_seen events ord (ClaimKey n) \<longleftrightarrow> n < occurrences events (or_id ord) Event_SUBMIT_PENDING"
| "key_seen events ord (ReleaseKey n) \<longleftrightarrow> n < occurrences events (or_id ord) Event_SUBMIT_RELEASED"
| "key_seen events ord (ProgressKey q) \<longleftrightarrow> True"
| "key_seen events ord (ResolveKey s) \<longleftrightarrow> order_rank s \<le> order_rank (or_status ord)"

definition event_ok :: "order_book \<Rightarrow> execution_event \<Rightarrow> bool" where
  "event_ok s e \<longleftrightarrow>
     (if ev_event_type e \<in> ORDER_STATUS_EVENT_TYPES
      then \<exists>i k ord. ev_order_id e = Some i \<and> fst s i = Some ord \<and>
             ev_dedupe_key e = Some (render_key k i) \<and> key_seen (snd s) ord k \<and>
             order_rank (the (LIFECYCLE_EVENT_TO_STATUS (ev_event_type e))) \<le> order_rank (or_status ord)
      else \<forall>key. ev_dedupe_key e = Some key \<longrightarrow> \<not> reserved_key key)"

definition order_book_ok :: "order_book \<Rightarrow> bool" where
  "order_book_ok s \<longleftrightarrow>
     (\<forall>i ord. fst s i = Some ord \<longrightarrow> or_id ord = i \<and> last_status (snd s) i = or_status ord) \<and>
     (\<forall>e \<in> set (snd s). event_ok s e) \<and>
     (\<forall>i. timeout_latest (snd s) i = Some Event_TIMEOUT_QUARANTINE \<longleftrightarrow>
          last_status (snd s) i = Order_TIMEOUT_QUARANTINE)"

lemma project_order_status_last: "op_status (project_order_status events i q) = last_status events i"
  by (simp add: project_order_status_def last_status_def case_prod_beta Let_def)

lemma project_order_simps [simp]:
  "or_id (project_order events ord) = or_id ord"
  "or_status (project_order events ord) = last_status events (or_id ord)"
  by (simp_all add: project_order_def Let_def project_order_status_last)

lemma fst_project_order_step:
  "fst (project_order_step i e s) =
     (if ev_order_id e = Some i then
        (case LIFECYCLE_EVENT_TO_STATUS (ev_event_type e) of Some t \<Rightarrow> t | None \<Rightarrow> fst s)
      else fst s)"
  by (cases s) (simp add: project_order_step_def split: option.splits)

lemma last_status_snoc:
  "last_status (events @ [e]) i =
     (if ev_order_id e = Some i then
        (case LIFECYCLE_EVENT_TO_STATUS (ev_event_type e) of Some t \<Rightarrow> t | None \<Rightarrow> last_status events i)
      else last_status events i)"
  by (simp add: last_status_def fst_project_order_step split: option.splits)

lemma last_status_Nil [simp]: "last_status [] i = Order_CREATED"
  by (simp add: last_status_def)

lemma timeout_latest_snoc:
  "timeout_latest (events @ [e]) =
     (case ev_order_id e of
        Some i \<Rightarrow> if timeout_lifecycle_event (ev_event_type e)
                 then (timeout_latest events)(i \<mapsto> ev_event_type e) else timeout_latest events
      | None \<Rightarrow> timeout_latest events)"
  by (simp add: timeout_latest_def split: option.splits)

lemma timeout_latest_Nil [simp]: "timeout_latest [] i = None"
  by (simp add: timeout_latest_def)

text \<open>Which lifecycle events the quarantine projection reads, by the status they lead to.\<close>

lemma timeout_lifecycle_status:
  assumes "LIFECYCLE_EVENT_TO_STATUS t = Some s"
  shows "timeout_lifecycle_event t \<longleftrightarrow>
      s \<in> {Order_TIMEOUT_QUARANTINE, Order_SUBMITTED, Order_REJECTED, Order_CANCELED, Order_FILLED}"
    and "t = Event_TIMEOUT_QUARANTINE \<longleftrightarrow> s = Order_TIMEOUT_QUARANTINE"
  using assms by (cases t; auto simp: timeout_lifecycle_event_def)+

lemma timeout_lifecycle_types: "timeout_lifecycle_event t \<Longrightarrow> t \<in> ORDER_STATUS_EVENT_TYPES"
  by (auto simp: timeout_lifecycle_event_def ORDER_STATUS_EVENT_TYPES_def)

lemma occurrences_snoc [simp]:
  "occurrences (events @ [e]) i t =
     occurrences events i t + (if ev_order_id e = Some i \<and> ev_event_type e = t then 1 else 0)"
  by (simp add: occurrences_def)

lemma key_seen_mono:
  assumes "key_seen events ord k" "or_id ord' = or_id ord" "order_rank (or_status ord) \<le> order_rank (or_status ord')"
    "events' = events \<or> events' = events @ [e]"
  shows "key_seen events' ord' k"
  using assms by (cases k) auto

text \<open>A key of an order that is in the log has been seen.\<close>

lemma known_key_seen:
  assumes "order_book_ok (orders, events)" "orders i = Some ord" "has_key events (render_key k i)"
  shows "key_seen events ord k"
proof -
  obtain e where e: "e \<in> set events" "ev_dedupe_key e = Some (render_key k i)"
    using assms(3) by (auto simp: has_key_def)
  have ok: "event_ok (orders, events) e" using assms(1) e(1) by (simp add: order_book_ok_def)
  have "reserved_key (render_key k i)" by (auto simp: reserved_key_def)
  with ok e(2) obtain j l ord' where "orders j = Some ord'" "render_key k i = render_key l j"
      "key_seen events ord' l"
    by (auto simp: event_ok_def split: if_splits)
  with render_key_inj [of k i l j] assms(2) show ?thesis by simp
qed

subsection \<open>Every write keeps the invariant\<close>

lemma order_book_okD:
  assumes "order_book_ok (orders, events)" "orders i = Some ord"
  shows "or_id ord = i" and "last_status events i = or_status ord"
    and "timeout_latest events i = Some Event_TIMEOUT_QUARANTINE \<longleftrightarrow> or_status ord = Order_TIMEOUT_QUARANTINE"
  using assms by (auto simp: order_book_ok_def)

lemma event_ok_mono:
  assumes ok: "event_ok (orders, events) e" and raw: "orders i = Some raw"
    and ord': "or_id ord' = or_id raw" "order_rank (or_status raw) \<le> order_rank (or_status ord')"
    and events': "events' = events \<or> events' = events @ [e']"
  shows "event_ok (orders(i \<mapsto> ord'), events') e"
proof (cases "ev_event_type e \<in> ORDER_STATUS_EVENT_TYPES")
  case False
  with ok show ?thesis by (simp add: event_ok_def)
next
  case True
  with ok obtain j k ord where j: "ev_order_id e = Some j" "orders j = Some ord"
      "ev_dedupe_key e = Some (render_key k j)" "key_seen events ord k"
      "order_rank (the (LIFECYCLE_EVENT_TO_STATUS (ev_event_type e))) \<le> order_rank (or_status ord)"
    by (auto simp: event_ok_def)
  have "key_seen events' (if j = i then ord' else ord) k"
    by (rule key_seen_mono [OF j(4) _ _ events']) (use raw ord' j(2) in auto)
  with True j raw ord'(2) show ?thesis by (auto simp: event_ok_def)
qed

text \<open>A row with the status it had, and no event.\<close>

lemma write_row:
  assumes ok: "order_book_ok (orders, events)" and raw: "orders i = Some raw"
    and ord': "or_id ord' = i" "or_status ord' = or_status raw"
  shows "order_book_ok (orders(i \<mapsto> ord'), events)"
proof -
  note r = order_book_okD [OF ok raw]
  have "event_ok (orders(i \<mapsto> ord'), events) e" if "e \<in> set events" for e
    by (rule event_ok_mono [where orders = orders and raw = raw and events = events])
      (use ok raw that ord' r in \<open>auto simp: order_book_ok_def\<close>)
  with ok raw ord' show ?thesis by (auto simp: order_book_ok_def)
qed

text \<open>A row together with the event of its status, under a key not seen or for the status it had.\<close>

lemma write_event:
  assumes ok: "order_book_ok (orders, events)" and raw: "orders i = Some raw"
    and ord': "or_id ord' = i" "or_status ord' = or_status raw \<or> or_status ord' \<in> order_edges (or_status raw)"
    and e: "ev_order_id e = Some i" "LIFECYCLE_EVENT_TO_STATUS (ev_event_type e) = Some (or_status ord')"
      "ev_dedupe_key e = Some (render_key k i)"
    and fresh: "key_seen events raw k \<Longrightarrow> or_status ord' = or_status raw"
    and seen: "key_seen (events @ [e]) ord' k"
  shows "order_book_ok (orders(i \<mapsto> ord'), record_event events (Some e))"
proof (cases rule: append_cases [of events e])
  case new
  note r = order_book_okD [OF ok raw]
  let ?events = "events @ [stamped events e]"
  have rank: "order_rank (or_status raw) \<le> order_rank (or_status ord')"
    using ord'(2) order_table.rank_mono by auto
  have "or_status raw = Order_TIMEOUT_QUARANTINE \<Longrightarrow> timeout_lifecycle_event (ev_event_type e)"
    using ord'(2) timeout_lifecycle_status(1) [OF e(2)] by (auto simp: order_edges_def)
  then have "timeout_latest ?events j = Some Event_TIMEOUT_QUARANTINE \<longleftrightarrow>
      last_status ?events j = Order_TIMEOUT_QUARANTINE" for j
    using ok e r(3) timeout_lifecycle_status [OF e(2)]
    by (auto simp: order_book_ok_def last_status_snoc timeout_latest_snoc)
  moreover
  have "event_ok (orders(i \<mapsto> ord'), ?events) x" if "x \<in> set events" for x
    by (rule event_ok_mono [where orders = orders and raw = raw and events = events])
      (use ok raw that ord' rank r in \<open>auto simp: order_book_ok_def\<close>)
  moreover have "key_seen ?events ord' k" using seen by (cases k) simp_all
  then have "event_ok (orders(i \<mapsto> ord'), ?events) (stamped events e)"
    using e by (auto simp: event_ok_def ORDER_STATUS_EVENT_TYPES_def)
  ultimately show ?thesis
    using ok ord' e by (auto simp: order_book_ok_def record_event_def new(1) last_status_snoc [where i = i]
      last_status_snoc)
next
  case (known key)
  then have "or_status ord' = or_status raw" using fresh known_key_seen [OF ok raw] e(3) by simp
  with write_row [OF ok raw ord'(1)] known show ?thesis by (simp add: record_event_def)
qed

lemma write_other:
  assumes ok: "order_book_ok (orders, events)" and e: "ev_event_type e \<notin> ORDER_STATUS_EVENT_TYPES"
    "\<And>key. ev_dedupe_key e = Some key \<Longrightarrow> \<not> reserved_key key"
  shows "order_book_ok (orders, record_event events (Some e))"
proof (cases rule: append_cases [of events e])
  case new
  let ?e = "stamped events e"
  have "event_ok (orders, events @ [?e]) x" if x: "x \<in> set events" for x
  proof -
    have "event_ok (orders, events) x" using ok x by (simp add: order_book_ok_def)
    moreover have "key_seen (events @ [?e]) ord k" if "key_seen events ord k" for ord k
      by (rule key_seen_mono [OF that, where e = ?e]) auto
    ultimately show ?thesis by (fastforce simp: event_ok_def split: if_splits)
  qed
  moreover have "event_ok (orders, events @ [?e]) ?e" using e by (simp add: event_ok_def)
  moreover have "LIFECYCLE_EVENT_TO_STATUS (ev_event_type e) = None"
    using e(1) by (simp add: ORDER_STATUS_EVENT_TYPES_def)
  moreover have "timeout_latest (events @ [?e]) = timeout_latest events"
    using e(1) timeout_lifecycle_types by (auto simp: timeout_latest_snoc split: option.splits)
  ultimately show ?thesis
    using ok by (auto simp: order_book_ok_def record_event_def new(1) last_status_snoc)
next
  case (known key)
  with ok show ?thesis by (simp add: record_event_def)
qed

lemma write_create:
  assumes ok: "order_book_ok (orders, events)" and absent: "orders (or_id ord) = None" "or_status ord = Order_CREATED"
  shows "order_book_ok (orders(or_id ord \<mapsto> ord), events)"
proof -
  let ?orders = "orders(or_id ord \<mapsto> ord)"
  have no: "LIFECYCLE_EVENT_TO_STATUS (ev_event_type e) = None"
    if "e \<in> set events" "ev_order_id e = Some (or_id ord)" for e
    using ok that absent(1) by (auto simp: order_book_ok_def event_ok_def ORDER_STATUS_EVENT_TYPES_def split: if_splits)
  have "last_status events (or_id ord) = Order_CREATED"
    using no by (induction events rule: rev_induct) (auto simp: last_status_snoc)
  moreover have "event_ok (?orders, events) e" if "e \<in> set events" for e
  proof -
    have "event_ok (orders, events) e" using ok that by (simp add: order_book_ok_def)
    with absent(1) show ?thesis by (fastforce simp: event_ok_def split: if_splits)
  qed
  ultimately show ?thesis using ok absent by (auto simp: order_book_ok_def)
qed

lemma order_timestamp_simps [simp]:
  "or_id (order_timestamp s now ord) = or_id ord" "or_status (order_timestamp s now ord) = or_status ord"
  "or_filled_quantity (order_timestamp s now ord) = or_filled_quantity ord"
  "or_quantity (order_timestamp s now ord) = or_quantity ord"
  "or_broker_order_id (order_timestamp s now ord) = or_broker_order_id ord"
  by (cases s; simp)+

lemma plan_transition_order_Apply:
  assumes "plan_transition_order ord s filled broker actor now = Order_Apply planned spec"
  shows "or_id planned = or_id ord" "or_status planned = s"
    "s \<noteq> or_status ord \<Longrightarrow> s \<in> ORDER_TRANSITIONS (or_status ord)"
    "sp_event_type spec = (if s \<noteq> or_status ord then ''order_transition'' else ''order_fill_progress'')"
proof -
  note spec = transition_spec_def progress_spec_def draft_spec_def
  show "or_id planned = or_id ord"
    using assms by (auto simp: plan_transition_order_def Let_def split: if_splits)
  show "or_status planned = s"
    using assms by (auto simp: plan_transition_order_def Let_def split: if_splits)
  show "s \<noteq> or_status ord \<Longrightarrow> s \<in> ORDER_TRANSITIONS (or_status ord)"
    using assms by (auto simp: plan_transition_order_def Let_def split: if_splits)
  show "sp_event_type spec = (if s \<noteq> or_status ord then ''order_transition'' else ''order_fill_progress'')"
    using assms by (auto simp: plan_transition_order_def Let_def spec split: if_splits)
qed

lemma order_event_simps [simp]:
  "ev_event_type (order_event ord t s a k) = t" "ev_order_id (order_event ord t s a k) = Some (or_id ord)"
  "ev_dedupe_key (order_event ord t s a k) = Some k" "ev_quantity (order_event ord t s a k) = None"
  by (simp_all add: order_event_def)

definition routine_key :: "order_status \<Rightarrow> nat \<Rightarrow> order_key" where
  "routine_key s n = (if s = Order_SUBMITTING then ClaimKey n else if s = Order_CREATED then ReleaseKey n
     else StatusKey s)"

text \<open>A status change has an event of that status under its key, unless the routine refuses.\<close>

lemma routine_event:
  assumes "execution_event_for_routine_transition ord s filled occurrence = Inr ev"
    "s \<in> order_edges (or_status ord)" "s \<noteq> or_status ord"
  shows "\<exists>e. ev = Some e \<and> ev_order_id e = Some (or_id ord) \<and>
    LIFECYCLE_EVENT_TO_STATUS (ev_event_type e) = Some s \<and>
    ev_dedupe_key e = Some (render_key (routine_key s (case occurrence of Some n \<Rightarrow> n | None \<Rightarrow> 0)) (or_id ord))"
proof -
  have "s = Order_CREATED \<Longrightarrow> or_status ord = Order_SUBMITTING"
    using assms(2,3) by (cases "or_status ord") (auto simp: order_edges_def)
  with assms show ?thesis
  by (cases s)
     (auto simp: execution_event_for_routine_transition_def Let_def routine_key_def order_edges_def
       case_prod_beta split: if_splits)
qed

text \<open>The key of a status change is new, and seen once its event is in the log.\<close>

lemma routine_key_fresh:
  assumes "s \<in> order_edges (or_status raw)" "s \<noteq> or_status raw"
    "n = occurrences events (or_id raw) (if s = Order_SUBMITTING then Event_SUBMIT_PENDING else Event_SUBMIT_RELEASED)
      \<or> \<not> order_repeats s"
  shows "\<not> key_seen events raw (routine_key s n)"
  using assms order_table.rank_rises [OF assms(1,2)]
  by (auto simp: routine_key_def order_repeats_def)

lemma routine_key_seen:
  assumes "or_status ord' = s" "or_id ord' = i" "ev_order_id e = Some i" "LIFECYCLE_EVENT_TO_STATUS (ev_event_type e) = Some s"
    "n = occurrences events i (if s = Order_SUBMITTING then Event_SUBMIT_PENDING else Event_SUBMIT_RELEASED)
      \<or> \<not> order_repeats s"
  shows "key_seen (events @ [e]) ord' (routine_key s n)"
proof -
  have "ev_event_type e = Event_SUBMIT_PENDING" if "s = Order_SUBMITTING"
    using assms(4) that by (cases "ev_event_type e") auto
  moreover have "ev_event_type e = Event_SUBMIT_RELEASED" if "s = Order_CREATED"
    using assms(4) that by (cases "ev_event_type e") auto
  ultimately show ?thesis using assms by (auto simp: routine_key_def order_repeats_def)
qed

lemma write_status_change:
  assumes ok: "order_book_ok (orders, events)" and raw: "orders i = Some raw"
    and planned: "or_id planned = i" "or_status planned = s"
    and edge: "s \<in> order_edges (or_status raw)" "s \<noteq> or_status raw"
    and e: "ev_order_id e = Some i" "LIFECYCLE_EVENT_TO_STATUS (ev_event_type e) = Some s"
      "ev_dedupe_key e = Some (render_key (routine_key s n) i)"
    and n: "n = occurrences events i (if s = Order_SUBMITTING then Event_SUBMIT_PENDING else Event_SUBMIT_RELEASED)
      \<or> \<not> order_repeats s"
  shows "order_book_ok (orders(i \<mapsto> planned), record_event events (Some e))"
proof (rule write_event [OF ok raw, where k = "routine_key s n"])
  show "or_status planned = or_status raw \<or> or_status planned \<in> order_edges (or_status raw)"
    using edge(1) planned(2) by simp
  show "or_status planned = or_status raw" if "key_seen events raw (routine_key s n)"
    using routine_key_fresh [OF edge, of n events] n that order_book_okD(1) [OF ok raw] by auto
  show "key_seen (events @ [e]) planned (routine_key s n)"
    by (rule routine_key_seen) (use planned e n in auto)
qed (use planned e in auto)

lemma projected_status:
  assumes "order_book_ok (orders, events)" "orders i = Some raw"
  shows "or_id (project_order events raw) = i" "or_status (project_order events raw) = or_status raw"
  using order_book_okD [OF assms] by simp_all

lemma write_transition:
  assumes ok: "order_book_ok (orders, events)" and raw: "orders i = Some raw"
    and plan: "plan_transition_order (project_order events raw) s filled broker actor now = Order_Apply planned spec"
    and ev: "transition_execution_event events (project_order events raw) planned spec = Inr ev"
  shows "order_book_ok (orders(i \<mapsto> planned), record_event events ev)"
proof -
  note p = plan_transition_order_Apply [OF plan] and st = projected_status [OF ok raw]
  show ?thesis
  proof (cases "s = or_status raw")
    case True
    show ?thesis
    proof (cases ev)
      case None
      with write_row [OF ok raw] p(1,2) st True show ?thesis by (simp add: record_event_def)
    next
      case (Some e)
      with True ev p(2,4) st have s: "s = Order_PARTIALLY_FILLED"
        and e: "ev_order_id e = Some i" "ev_event_type e = Event_PARTIALLY_FILLED"
          "ev_dedupe_key e = Some (render_key (ProgressKey (Some (or_filled_quantity planned))) i)"
        by (auto simp: transition_execution_event_def execution_event_for_routine_transition_def
          Let_def case_prod_beta split: if_splits)
      show ?thesis unfolding Some
        by (rule write_event [OF ok raw _ _ e(1) _ e(3)]) (use p(1,2) st True s e in auto)
    qed
  next
    case False
    then have edge: "s \<in> order_edges (or_status raw)" using p(3) st by (simp add: order_edges_def)
    have "s \<noteq> Order_SUBMITTING" using p(3) st False by (cases "or_status raw") auto
    with False ev p(2,4) st have "execution_event_for_routine_transition (project_order events raw) s
        (Some (or_filled_quantity planned))
        (if s = Order_CREATED then Some (occurrences events i Event_SUBMIT_RELEASED) else None) = Inr ev"
      by (auto simp: transition_execution_event_def split: if_splits)
    from routine_event [OF this] edge False st \<open>s \<noteq> Order_SUBMITTING\<close> obtain e where e: "ev = Some e"
        "ev_order_id e = Some i" "LIFECYCLE_EVENT_TO_STATUS (ev_event_type e) = Some s"
        "ev_dedupe_key e = Some (render_key (routine_key s
          (if s = Order_CREATED then occurrences events i Event_SUBMIT_RELEASED else 0)) i)"
      by (auto split: if_splits)
    show ?thesis unfolding e(1)
      by (rule write_status_change [OF ok raw _ _ edge False e(2,3,4)])
        (use p(1,2) st \<open>s \<noteq> Order_SUBMITTING\<close> in \<open>auto simp: order_repeats_def\<close>)
  qed
qed

lemma write_claim:
  assumes ok: "order_book_ok (orders, events)" and raw: "orders i = Some raw"
    and plan: "plan_claim_order_for_submission (Some (project_order events raw)) own current reason quarantined
      uncertain now = CLAIM_CLAIMED planned spec"
    and ev: "execution_event_for_routine_transition (project_order events raw) Order_SUBMITTING None
      (Some (occurrences events i Event_SUBMIT_PENDING)) = Inr ev"
  shows "order_book_ok (orders(i \<mapsto> planned), record_event events ev)"
proof -
  note st = projected_status [OF ok raw]
  have p: "or_status raw = Order_CREATED" "or_id planned = i" "or_status planned = Order_SUBMITTING"
    using plan st by (auto simp: plan_claim_order_for_submission_def split: if_splits option.splits)
  have edge: "Order_SUBMITTING \<in> order_edges (or_status raw)" "Order_SUBMITTING \<noteq> or_status raw"
    by (simp_all add: p(1) order_edges_def)
  from routine_event [OF ev] edge st obtain e where e: "ev = Some e"
      "ev_order_id e = Some i" "LIFECYCLE_EVENT_TO_STATUS (ev_event_type e) = Some Order_SUBMITTING"
      "ev_dedupe_key e = Some (render_key (routine_key Order_SUBMITTING
        (occurrences events i Event_SUBMIT_PENDING)) i)"
    by auto
  show ?thesis unfolding e(1)
    by (rule write_status_change [OF ok raw p(2,3) edge e(2,3,4)]) simp
qed

text \<open>The evented transitions: a status change under a key of the status or of the resolution.\<close>

lemma write_evented:
  assumes ok: "order_book_ok (orders, events)" and raw: "orders i = Some raw"
    and plan: "plan_transition_order_evented (project_order events raw) s t audit (render_key k i) source authority
      broker reason ts now = Evented_Apply planned spec e"
    and k: "k = StatusKey s \<or> k = ResolveKey s" "LIFECYCLE_EVENT_TO_STATUS t = Some s" "\<not> order_repeats s"
  shows "order_book_ok (orders(i \<mapsto> planned), record_event events (Some e))"
proof -
  note st = projected_status [OF ok raw]
  obtain spec' where base: "plan_transition_order (project_order events raw) s None broker COMMAND_ACTOR_SYSTEM now =
      Order_Apply planned spec'"
    and e: "e = (order_event (project_order events raw) t source authority (render_key k i))\<lparr>ev_ts_event := ts\<rparr>"
    using plan by (auto simp: plan_transition_order_evented_def split: order_plan.splits)
  note p = plan_transition_order_Apply [OF base]
  have rank: "order_rank (or_status raw) \<le> order_rank s \<and> (s \<noteq> or_status raw \<longrightarrow> order_rank (or_status raw) < order_rank s)"
    using p(3) st order_table.rank_rises [of s "or_status raw"] k(3)
    by (cases "s = or_status raw") (auto simp: order_edges_def less_imp_le)
  show ?thesis
  proof (rule write_event [OF ok raw, where k = k])
    show "or_status planned = or_status raw" if "key_seen events raw k" using that rank k(1) p(2) by auto
    show "key_seen (events @ [e]) planned k" using k(1) p(2) by auto
    show "or_status planned = or_status raw \<or> or_status planned \<in> order_edges (or_status raw)"
      using p(2,3) st by (auto simp: order_edges_def)
  qed (use p st e k(2) in auto)
qed

theorem order_write_keeps_ok: "order_write s s' \<Longrightarrow> order_book_ok s \<Longrightarrow> order_book_ok s'"
proof (induction rule: order_write.induct)
  case (quarantine orders i raw events why now planned spec e)
  have "order_book_ok (orders, events)" "or_id raw = i" using quarantine order_book_okD by auto
  with quarantine write_evented [of orders events i raw Order_TIMEOUT_QUARANTINE _ _ "StatusKey Order_TIMEOUT_QUARANTINE"]
  show ?case by (auto simp: plan_quarantine_timed_out_order_def order_repeats_def)
next
  case (resolve orders i raw events new_status broker why now planned spec e)
  have "order_book_ok (orders, events)" "or_id raw = i" using resolve order_book_okD by auto
  with resolve write_evented [of orders events i raw new_status _ _ "StatusKey new_status"]
  show ?case by (cases new_status) (auto simp: plan_resolve_timeout_quarantine_def order_repeats_def)
next
  case (reconcile orders i raw events new_status why now planned spec e)
  have "order_book_ok (orders, events)" "or_id raw = i" using reconcile order_book_okD by auto
  with reconcile write_evented [of orders events i raw new_status _ _ "ResolveKey new_status"]
  show ?case by (cases new_status) (auto simp: plan_reconcile_resolve_order_def order_repeats_def)
qed (auto intro: write_create write_claim write_transition write_other)

lemma order_book_start_ok: "order_book_ok (Map.empty, [])"
  by (simp add: order_book_ok_def)

text \<open>An order with a broker-side event in its log is past the claim.\<close>

lemma status_event_rank:
  assumes "order_book_ok (orders, events)" "orders i = Some ord" "e \<in> set events" "ev_order_id e = Some i"
    "LIFECYCLE_EVENT_TO_STATUS (ev_event_type e) = Some s"
  shows "order_rank s \<le> order_rank (or_status ord)"
  using assms by (auto simp: order_book_ok_def event_ok_def ORDER_STATUS_EVENT_TYPES_def split: if_splits)

interpretation order_read_model: read_model order_book_start order_write order_book_ok
  "\<lambda>s i. map_option or_status (fst s i)" "\<lambda>s i. op_status (project_order_status (snd s) i None)"
proof
  fix s i v assume "order_book_ok s" "map_option or_status (fst s i) = Some v"
  then show "op_status (project_order_status (snd s) i None) = v"
    by (auto simp: project_order_status_last order_book_ok_def)
qed (auto intro: order_write_keeps_ok order_book_start_ok)

end
