(* ===== verification/Fill_Log.thy ===== *)
theory Fill_Log
  imports Fill_Quantity Order_Log
begin

text \<open>
  The writes of fills as a step relation. Besides \<^verbatim>\<open>append_fill\<close> a fill event is written
  by the boundary that records an envelope fill first, under the key that the later append of the
  same fill will use; an append whose event is already there adds only the row. The position of a
  symbol then counts every fill once: the rows, and the events whose row is still to come.
\<close>

subsection \<open>Keys of rows\<close>

definition key_suffix :: "string option \<Rightarrow> string \<Rightarrow> string" where
  "key_suffix source fill_id = (case source of Some s \<Rightarrow> s | None \<Rightarrow> CHR ''@'' # fill_id)"

definition row_key :: "fill_row \<Rightarrow> string" where
  "row_key f = fill_dedupe_key (fr_order_id f) (fr_source_fill_id f) (fr_id f)"

text \<open>
  Order ids hold no colon (they are hexadecimal), and no venue id of a fill starts with the character
  that marks a row id in a key.
\<close>

definition plain_id :: "string \<Rightarrow> bool" where
  "plain_id i \<longleftrightarrow> CHR '':'' \<notin> set i"

definition plain_source :: "string \<Rightarrow> bool" where
  "plain_source s \<longleftrightarrow> (\<forall>c t. s = c # t \<longrightarrow> c \<noteq> CHR ''@'')"

definition fill_key :: "string \<Rightarrow> string \<Rightarrow> string" where
  "fill_key i x = ''fill:'' @ i @ CHR '':'' # x"

lemma fill_dedupe_key_eq: "fill_dedupe_key i source fill_id = fill_key i (key_suffix source fill_id)"
  by (simp add: fill_dedupe_key_def key_suffix_def fill_key_def split: option.splits)

lemma row_key_eq: "row_key f = fill_key (fr_order_id f) (key_suffix (fr_source_fill_id f) (fr_id f))"
  by (simp add: row_key_def fill_dedupe_key_eq)

lemma fill_key_inj: "fill_key i x = fill_key j y \<Longrightarrow> plain_id i \<Longrightarrow> plain_id j \<Longrightarrow> i = j \<and> x = y"
  by (auto simp: fill_key_def plain_id_def dest!: colon_prefix_inj)

lemma key_suffix_inj:
  "key_suffix s i = key_suffix t j \<Longrightarrow> \<forall>x \<in> set_option s. plain_source x \<Longrightarrow> \<forall>x \<in> set_option t. plain_source x \<Longrightarrow>
   s = t \<and> (s = None \<longrightarrow> i = j)"
  by (auto simp: key_suffix_def plain_source_def split: option.splits)

lemma key_suffix_plain: "plain_source (key_suffix s i) \<longleftrightarrow> s \<noteq> None \<and> (\<forall>x \<in> set_option s. plain_source x)"
  by (auto simp: key_suffix_def plain_source_def split: option.splits)

definition is_fill_key :: "string \<Rightarrow> bool" where
  "is_fill_key k \<longleftrightarrow> (\<exists>t. k = ''fill:'' @ t)"

lemma is_fill_key_simps [simp]:
  "is_fill_key (fill_key i x)" "\<not> is_fill_key (overfill_quarantine_dedupe_key k)"
  by (simp_all add: is_fill_key_def fill_key_def overfill_quarantine_dedupe_key_def)

subsection \<open>The writes\<close>

text \<open>
  A fill event of another writer has a key of the fill family under a venue id, so it is never that of
  a row without one.
\<close>

definition bridge_event :: "execution_event \<Rightarrow> bool" where
  "bridge_event e \<longleftrightarrow> ev_event_type e = Event_FILL \<and> well_formed_fill e \<and>
     (\<exists>i s. ev_dedupe_key e = Some (fill_key i s) \<and> plain_id i \<and> plain_source s)"

definition other_event :: "execution_event \<Rightarrow> bool" where
  "other_event e \<longleftrightarrow> ev_event_type e \<noteq> Event_FILL \<and> (\<forall>k. ev_dedupe_key e = Some k \<longrightarrow> \<not> is_fill_key k)"

definition plain_orders :: "(string \<rightharpoonup> order_row) \<Rightarrow> bool" where
  "plain_orders orders \<longleftrightarrow> (\<forall>i \<in> dom orders. plain_id i)"

inductive fill_write :: "fill_book \<Rightarrow> fill_book \<Rightarrow> bool" where
  append: "append_fill ts_init price_text r fill_id now b = Inr (status, b') \<Longrightarrow>
    \<forall>s \<in> set_option (fq_source_fill_id r). plain_source s \<Longrightarrow> \<forall>f \<in> set (fb_fills b). fr_id f \<noteq> fill_id \<Longrightarrow>
    fill_write b b'"
| bridge: "bridge_event e \<Longrightarrow> fill_write b (b\<lparr>fb_events := snd (append_execution_event (fb_events b) e)\<rparr>)"
| orders: "plain_orders orders \<Longrightarrow> fill_write b (b\<lparr>fb_orders := orders\<rparr>)"
| other: "other_event e \<Longrightarrow> fill_write b (b\<lparr>fb_events := snd (append_execution_event (fb_events b) e)\<rparr>)"

subsection \<open>What an append does\<close>

definition order_filled :: "fill_row list \<Rightarrow> string \<Rightarrow> int" where
  "order_filled fills i = sum_list (map fr_quantity (filter (\<lambda>f. fr_order_id f = i) fills))"

definition same_fill :: "fill_request \<Rightarrow> fill_row \<Rightarrow> bool" where
  "same_fill r f \<longleftrightarrow> fq_source_fill_id r \<noteq> None \<and> fr_order_id f = fq_order_id r \<and>
     fr_source_fill_id f = fq_source_fill_id r"

definition request_key :: "fill_request \<Rightarrow> string option" where
  "request_key r = map_option (fill_key (fq_order_id r)) (fq_source_fill_id r)"

text \<open>The position the overfill check compares with: that of the events other than the fill's own.\<close>

definition position_before :: "(execution_event \<Rightarrow> instant) \<Rightarrow> event_log \<Rightarrow> fill_request \<Rightarrow> position_row res" where
  "position_before ts_init events r =
     project_symbol_position ts_init
       (filter (\<lambda>e. request_key r = None \<or> ev_dedupe_key e \<noteq> request_key r) events) (fq_symbol r)"

definition overfills :: "fill_book \<Rightarrow> fill_request \<Rightarrow> order_row \<Rightarrow> position_row \<Rightarrow> bool" where
  "overfills b r ord p \<longleftrightarrow>
     order_filled (fb_fills b) (fq_order_id r) + fq_quantity r > or_quantity ord \<or>
     would_go_negative (ps_quantity p) (fq_side r) (fq_quantity r)"

lemma append_fill_eq:
  "append_fill ts price_text r fill_id now b =
     (case position_before ts (fb_events b) r of
        Inl e \<Rightarrow> Inl (StoreExn e)
      | Inr p \<Rightarrow>
          (case plan_append_fill r (fb_orders b (fq_order_id r)) (order_filled (fb_fills b) (fq_order_id r))
                  (ps_quantity p) (find (same_fill r) (fb_fills b) \<noteq> None) (find (same_fill r) (fb_fills b))
                  (event_with_key (fb_events b) (request_key r))
                  (event_with_key (fb_events b) (map_option overfill_quarantine_dedupe_key (request_key r)))
                  price_text fill_id now of
             Inl e \<Rightarrow> Inl (StoreExn e)
           | Inr (FILL_REJECT _ e) \<Rightarrow> Inl e
           | Inr (FILL_DUPLICATE _) \<Rightarrow> Inr (Duplicate, b)
           | Inr (FILL_CONFLICT _) \<Rightarrow> Inr (Conflict, b)
           | Inr (FILL_APPEND _ fill fill_event quarantine_event) \<Rightarrow>
               Inr (Appended fill,
                 b\<lparr>fb_fills := fb_fills b @ [fill],
                   fb_events := append_all (fb_events b)
                     (fill_event # (case quarantine_event of Some q \<Rightarrow> [q] | None \<Rightarrow> []))\<rparr>)))"
proof -
  have key: "map_option (\<lambda>s. ''fill:'' @ fq_order_id r @ '':'' @ s) (fq_source_fill_id r) = request_key r"
    by (cases "fq_source_fill_id r") (simp_all add: request_key_def fill_key_def)
  have row: "(if fq_source_fill_id r = None then None
      else find (\<lambda>f. fr_order_id f = fq_order_id r \<and> fr_source_fill_id f = fq_source_fill_id r) (fb_fills b)) =
      find (same_fill r) (fb_fills b)"
  proof (cases "fq_source_fill_id r")
    case None
    then have "find (same_fill r) (fb_fills b) = None" by (simp add: find_None_iff same_fill_def)
    with None show ?thesis by simp
  next
    case (Some s)
    then have "(\<lambda>f. fr_order_id f = fq_order_id r \<and> fr_source_fill_id f = fq_source_fill_id r) = same_fill r"
      by (simp add: same_fill_def fun_eq_iff)
    with Some show ?thesis by simp
  qed
  show ?thesis
    unfolding append_fill_def key row Let_def position_before_def order_filled_def by simp
qed

lemma overfill_quarantine_event_Ok:
  "overfill_quarantine_event (execution_event_for_fill f s a pl) oq pf cq x y z w = Ok q \<Longrightarrow>
   ev_event_type q = Event_QUARANTINED \<and> ev_symbol q = Some (fr_symbol f) \<and>
   ev_dedupe_key q = Some (overfill_quarantine_dedupe_key (row_key f))"
  by (auto simp: overfill_quarantine_event_def execution_event_for_fill_def row_key_def)

lemma conflict_payload_None:
  "fill_conflict_payload x y r = None \<longleftrightarrow> (\<forall>f. x = Some f \<longrightarrow> fill_economic_material f = request_material r) \<and>
     (\<forall>e. y = Some e \<longrightarrow> event_matches_request e r)"
  by (auto simp: fill_conflict_payload_def Let_def split: option.splits)

lemma plan_append_fill_APPEND:
  assumes "plan_append_fill r mo pf cq dup x y z pt i now = Ok (FILL_APPEND spec f e q)"
  obtains ord where "mo = Some ord" "fill_value_reason (fq_quantity r) (fq_price r) = None" "x = None" "\<not> dup"
    "\<And>e. y = Some e \<Longrightarrow> event_matches_request e r" "f = request_fill r i now"
    "e = execution_event_for_fill f (fq_source r) (fq_authority r) (fq_execution_payload r)"
    "q = None \<longleftrightarrow> \<not> (pf + fq_quantity r > or_quantity ord \<or> would_go_negative cq (fq_side r) (fq_quantity r))"
    "\<And>q'. q = Some q' \<Longrightarrow> ev_event_type q' = Event_QUARANTINED \<and> ev_symbol q' = Some (fr_symbol f) \<and>
       ev_dedupe_key q' = Some (overfill_quarantine_dedupe_key (row_key f)) \<and>
       overfill_quarantine_conflict_reason z q' = None"
proof -
  from assms obtain ord where ord: "mo = Some ord" "fill_value_reason (fq_quantity r) (fq_price r) = None"
      "fill_conflict_payload x y r = None" "x = None" "\<not> dup"
      "plan_fill_append r ord pf cq z pt i now = Ok (FILL_APPEND spec f e q)"
    by (auto simp: plan_append_fill_def Let_def split: option.splits if_splits)
  show ?thesis
  proof (rule that [OF ord(1,2,4,5)])
    show "event_matches_request e r" if "y = Some e" for e using ord(3) that by (simp add: conflict_payload_None)
  qed (use ord(6) in \<open>auto simp: plan_fill_append_def Let_def res_simps dest!: overfill_quarantine_event_Ok
    split: if_splits option.splits\<close>)
qed

subsection \<open>The invariant\<close>

definition event_of_row :: "fill_row \<Rightarrow> execution_event \<Rightarrow> bool" where
  "event_of_row f e \<longleftrightarrow> ev_event_type e = Event_FILL \<and> ev_dedupe_key e = Some (row_key f) \<and>
     ev_order_id e = Some (fr_order_id f) \<and> ev_symbol e = Some (fr_symbol f) \<and> ev_side e = Some (fr_side f) \<and>
     ev_quantity e = Some (fr_quantity f) \<and> ev_price e = Some (fr_price f)"

definition rows_total :: "fill_row list \<Rightarrow> string \<Rightarrow> int" where
  "rows_total fills symbol =
     sum_list (map (\<lambda>f. fill_sign (fr_side f) * fr_quantity f) (filter (\<lambda>f. fr_symbol f = symbol) fills))"

text \<open>The fill events that no row has claimed yet.\<close>

definition claimed :: "fill_row list \<Rightarrow> execution_event \<Rightarrow> bool" where
  "claimed fills e \<longleftrightarrow> ev_dedupe_key e \<in> Some ` row_key ` set fills"

definition unclaimed :: "fill_row list \<Rightarrow> event_log \<Rightarrow> event_log" where
  "unclaimed fills events = filter (\<lambda>e. \<not> claimed fills e) events"

definition distinct_keys :: "event_log \<Rightarrow> bool" where
  "distinct_keys events \<longleftrightarrow> distinct (List.map_filter ev_dedupe_key events)"

definition key_known :: "fill_row list \<Rightarrow> execution_event \<Rightarrow> bool" where
  "key_known fills e \<longleftrightarrow>
     (\<forall>k. ev_dedupe_key e = Some k \<longrightarrow> is_fill_key k \<longrightarrow>
        (\<exists>i x. k = fill_key i x \<and> plain_id i \<and> (plain_source x \<or> k \<in> row_key ` set fills)))"

definition row_ok :: "event_log \<Rightarrow> fill_row \<Rightarrow> bool" where
  "row_ok events f \<longleftrightarrow> plain_id (fr_order_id f) \<and> (\<forall>s \<in> set_option (fr_source_fill_id f). plain_source s) \<and>
     0 < fr_quantity f \<and> (\<exists>e \<in> set events. event_of_row f e)"

definition fill_book_ok :: "fill_book \<Rightarrow> bool" where
  "fill_book_ok b \<longleftrightarrow> plain_orders (fb_orders b) \<and> fills_well_formed (fb_events b) \<and> distinct_keys (fb_events b) \<and>
     distinct (map row_key (fb_fills b)) \<and> (\<forall>f \<in> set (fb_fills b). row_ok (fb_events b) f) \<and>
     (\<forall>e \<in> set (fb_events b). key_known (fb_fills b) e) \<and>
     (\<forall>s. net_quantity (fb_events b) s =
        rows_total (fb_fills b) s + net_quantity (unclaimed (fb_fills b) (fb_events b)) s)"

lemma fill_book_ok_start: "fill_book_ok \<lparr>fb_orders = Map.empty, fb_fills = [], fb_events = []\<rparr>"
  by (simp add: fill_book_ok_def plain_orders_def distinct_keys_def unclaimed_def rows_total_def List.map_filter_def)

lemma distinct_keys_snoc:
  "distinct_keys (events @ [e]) \<longleftrightarrow> distinct_keys events \<and> (\<forall>k. ev_dedupe_key e = Some k \<longrightarrow> \<not> has_key events k)"
  using map_filter_keys by (cases "ev_dedupe_key e") (auto simp: distinct_keys_def List.map_filter_def)

lemma distinct_keys_eq:
  assumes "distinct_keys events" "x \<in> set events" "y \<in> set events" "ev_dedupe_key x = Some k" "ev_dedupe_key y = Some k"
  shows "x = y"
  using assms
proof (induction events rule: rev_induct)
  case (snoc e events)
  then show ?case by (auto simp: distinct_keys_snoc has_key_def)
qed simp

lemma net_quantity_split_off:
  assumes "distinct_keys events" "e \<in> set events" "ev_dedupe_key e = Some k" "P e"
  shows "net_quantity (filter P events) s =
    net_quantity (filter (\<lambda>x. P x \<and> ev_dedupe_key x \<noteq> Some k) events) s + net_quantity [e] s"
  using assms(1,2)
proof (induction events rule: rev_induct)
  case (snoc x events)
  show ?case
  proof (cases "e \<in> set events")
    case True
    then have "ev_dedupe_key x \<noteq> Some k" using snoc.prems(1) assms(3) by (auto simp: distinct_keys_snoc has_key_def)
    with True snoc show ?thesis by (simp add: distinct_keys_snoc)
  next
    case False
    then have "x = e" using snoc.prems(2) by simp
    then have "\<forall>y \<in> set events. ev_dedupe_key y \<noteq> Some k"
      using snoc.prems(1) assms(3) by (auto simp: distinct_keys_snoc has_key_def)
    then have "filter (\<lambda>x. P x \<and> ev_dedupe_key x \<noteq> Some k) events = filter P events" by (auto intro: filter_cong)
    with \<open>x = e\<close> show ?thesis using assms(3,4) by simp
  qed
qed simp

lemma row_ok_mono: "row_ok events f \<Longrightarrow> set events \<subseteq> set events' \<Longrightarrow> row_ok events' f"
  by (auto simp: row_ok_def)

subsection \<open>Appending events of other writers\<close>

lemma unclaimed_fresh:
  assumes "\<forall>f \<in> set fills. row_ok events f" "ev_dedupe_key e = None \<or> \<not> has_key events (the (ev_dedupe_key e))"
  shows "\<not> claimed fills e"
proof
  assume "claimed fills e"
  then obtain f where f: "f \<in> set fills" "ev_dedupe_key e = Some (row_key f)" by (auto simp: claimed_def)
  with assms(1) obtain x where "x \<in> set events" "event_of_row f x" by (auto simp: row_ok_def)
  with f assms(2) show False by (auto simp: event_of_row_def has_key_def)
qed

lemma fill_book_ok_append:
  assumes "fill_book_ok b" "ev_event_type e = Event_FILL \<longrightarrow> well_formed_fill e" "key_known (fb_fills b) e"
  shows "fill_book_ok (b\<lparr>fb_events := snd (append_execution_event (fb_events b) e)\<rparr>)"
proof (cases rule: append_cases [of "fb_events b" e])
  case new
  let ?e = "stamped (fb_events b) e"
  have "\<not> claimed (fb_fills b) ?e"
    using unclaimed_fresh [of "fb_fills b" "fb_events b" ?e] assms(1) new(2) by (simp add: fill_book_ok_def)
  moreover have "distinct_keys (fb_events b @ [?e])"
    using assms(1) new(2) by (auto simp: fill_book_ok_def distinct_keys_snoc)
  moreover have "well_formed_fill ?e \<longleftrightarrow> well_formed_fill e" "key_known (fb_fills b) ?e \<longleftrightarrow> key_known (fb_fills b) e"
    by (simp_all add: well_formed_fill_def key_known_def)
  ultimately show ?thesis
    using assms by (auto simp: fill_book_ok_def new(1) unclaimed_def intro: row_ok_mono)
next
  case known
  with assms(1) show ?thesis by simp
qed

lemma bridge_event_known: "bridge_event e \<Longrightarrow> key_known fills e"
  unfolding bridge_event_def key_known_def by (metis option.inject)

lemma other_event_known: "other_event e \<Longrightarrow> key_known fills e"
  by (auto simp: other_event_def key_known_def)

subsection \<open>Appending a fill\<close>

lemma row_key_new:
  assumes "\<forall>g \<in> set fills. row_ok events g" "\<forall>g \<in> set fills. fr_id g \<noteq> fr_id f" "find (same_fill r) fills = None"
    "f = request_fill r i now" "plain_id (fq_order_id r)" "\<forall>s \<in> set_option (fq_source_fill_id r). plain_source s"
  shows "row_key f \<notin> row_key ` set fills"
proof
  assume "row_key f \<in> row_key ` set fills"
  then obtain g where g: "g \<in> set fills" "row_key g = row_key f" by auto
  have ids: "fr_order_id f = fq_order_id r" "fr_source_fill_id f = fq_source_fill_id r" by (simp_all add: assms(4) request_fill_def)
  have ok: "row_ok events g" using assms(1) g(1) by blast
  have eq: "fr_order_id g = fr_order_id f" "key_suffix (fr_source_fill_id g) (fr_id g) = key_suffix (fr_source_fill_id f) (fr_id f)"
    using fill_key_inj [OF g(2) [unfolded row_key_eq]] ok assms(5) by (simp_all add: row_ok_def ids)
  have "\<forall>s \<in> set_option (fr_source_fill_id g). plain_source s" "\<forall>s \<in> set_option (fr_source_fill_id f). plain_source s"
    using ok assms(6) ids(2) by (simp_all only: row_ok_def) blast
  then have "fr_source_fill_id g = fr_source_fill_id f \<and> (fr_source_fill_id g = None \<longrightarrow> fr_id g = fr_id f)"
    by (rule key_suffix_inj [OF eq(2)])
  with eq(1) ids have "fq_source_fill_id r = None \<and> fr_id g = fr_id f \<or> same_fill r g"
    by (auto simp: same_fill_def)
  with assms(2,3) g(1) show False by (auto simp: find_None_iff)
qed

lemma event_with_key_Some: "event_with_key events (Some k) = None \<longleftrightarrow> \<not> has_key events k"
  by (auto simp: event_with_key_def find_None_iff has_key_def)

lemma event_with_key_found:
  "event_with_key events (Some k) = Some e \<Longrightarrow> e \<in> set events \<and> ev_dedupe_key e = Some k"
  by (auto simp: event_with_key_def find_Some_iff)

text \<open>The key of the new row is new in the log, or its event was recorded first with the same economics.\<close>

lemma row_event_known:
  assumes "fill_book_ok b" "f = request_fill r i now" "row_key f \<notin> row_key ` set (fb_fills b)"
    "plain_id (fq_order_id r)" "has_key (fb_events b) (row_key f)"
    "\<And>e. event_with_key (fb_events b) (request_key r) = Some e \<Longrightarrow> event_matches_request e r"
  shows "\<exists>e \<in> set (fb_events b). event_of_row f e"
proof -
  have ids: "fr_order_id f = fq_order_id r" "fr_source_fill_id f = fq_source_fill_id r" "fr_id f = i"
    by (simp_all add: assms(2) request_fill_def)
  obtain e where e: "e \<in> set (fb_events b)" "ev_dedupe_key e = Some (row_key f)"
    using assms(5) by (auto simp: has_key_def)
  have "key_known (fb_fills b) e" using assms(1) e(1) by (simp add: fill_book_ok_def)
  with e(2) assms(3) obtain j x where jx: "row_key f = fill_key j x" "plain_id j" "plain_source x"
    by (auto simp: key_known_def row_key_eq)
  have "key_suffix (fr_source_fill_id f) (fr_id f) = x"
    using fill_key_inj [OF jx(1) [unfolded row_key_eq]] jx(2) assms(4) by (simp add: ids)
  with jx(3) obtain s where s: "fq_source_fill_id r = Some s" using key_suffix_plain ids by auto
  then have key: "request_key r = Some (row_key f)" by (simp add: request_key_def row_key_eq key_suffix_def ids)
  obtain e' where e': "event_with_key (fb_events b) (request_key r) = Some e'"
    using assms(5) event_with_key_Some key by (metis not_None_eq)
  with event_with_key_found [of "fb_events b" "row_key f" e'] assms(6) [OF e'] show ?thesis
    by (auto simp: key event_of_row_def event_matches_request_def assms(2) request_fill_def)
qed

lemma event_of_row_fill:
  "event_of_row f (execution_event_for_fill f s a pl)"
  by (simp add: event_of_row_def execution_event_for_fill_def row_key_def)

lemma event_of_row_signed:
  "event_of_row f e \<Longrightarrow> net_quantity [e] s = (if fr_symbol f = s then fill_sign (fr_side f) * fr_quantity f else 0)"
  by (simp add: event_of_row_def fill_of_symbol_def event_signed_def event_quantity_def)

lemma event_of_row_well_formed:
  "event_of_row f e \<Longrightarrow> fill_value_reason (fr_quantity f) (fr_price f) = None \<Longrightarrow> well_formed_fill e"
  by (simp add: event_of_row_def well_formed_fill_def)

lemma rows_total_snoc:
  "rows_total (fills @ [f]) s = rows_total fills s + (if fr_symbol f = s then fill_sign (fr_side f) * fr_quantity f else 0)"
  by (simp add: rows_total_def)

lemma claimed_snoc: "claimed (fills @ [f]) e \<longleftrightarrow> claimed fills e \<or> ev_dedupe_key e = Some (row_key f)"
  by (auto simp: claimed_def)

lemma key_known_snoc: "key_known fills e \<Longrightarrow> key_known (fills @ [f]) e"
  unfolding key_known_def by (metis (no_types, lifting) UnI1 image_Un set_append)

lemma fill_book_ok_add_row:
  assumes ok: "fill_book_ok b" and f: "row_key f \<notin> row_key ` set (fb_fills b)" "plain_id (fr_order_id f)"
    "\<forall>s \<in> set_option (fr_source_fill_id f). plain_source s" "fill_value_reason (fr_quantity f) (fr_price f) = None"
    and e: "event_of_row f e"
    and known: "has_key (fb_events b) (row_key f) \<Longrightarrow> \<exists>e \<in> set (fb_events b). event_of_row f e"
  shows "fill_book_ok (b\<lparr>fb_fills := fb_fills b @ [f], fb_events := snd (append_execution_event (fb_events b) e)\<rparr>)"
    (is "fill_book_ok ?b")
proof -
  note defs = ok [unfolded fill_book_ok_def]
  have key: "ev_dedupe_key e = Some (row_key f)" using e by (simp add: event_of_row_def)
  have q: "0 < fr_quantity f" using f(4) fill_value_reason_pos by blast
  show ?thesis
  proof (cases rule: append_cases [of "fb_events b" e])
    case new
    let ?e = "stamped (fb_events b) e"
    have e': "event_of_row f ?e" using e by (simp add: event_of_row_def)
    have fresh: "\<forall>x \<in> set (fb_events b). ev_dedupe_key x \<noteq> Some (row_key f)" using new(2) key by (auto simp: has_key_def)
    have "unclaimed (fb_fills b @ [f]) (fb_events b @ [?e]) = unclaimed (fb_fills b) (fb_events b)"
      using fresh key by (auto simp: unclaimed_def claimed_snoc intro: filter_cong)
    moreover have "key_known (fb_fills b @ [f]) ?e"
      using key f(2) by (auto simp: key_known_def row_key_eq)
    moreover have "row_ok (fb_events b @ [?e]) f" using e' f q by (auto simp: row_ok_def)
    moreover have "\<forall>g \<in> set (fb_fills b). row_ok (fb_events b @ [?e]) g"
      using defs row_ok_mono [of "fb_events b" _ "fb_events b @ [?e]"] by auto
    ultimately show ?thesis
      using defs f(1) e' event_of_row_well_formed [OF e' f(4)] new(2) key
      by (auto simp: fill_book_ok_def new(1) rows_total_snoc event_of_row_signed distinct_keys_snoc key_known_snoc
        simp del: net_quantity_simps(2))
  next
    case (known k)
    then have "has_key (fb_events b) (row_key f)" using key by simp
    from assms(7) [OF this] obtain x where x: "x \<in> set (fb_events b)" "event_of_row f x" by blast
    then have xkey: "ev_dedupe_key x = Some (row_key f)" by (simp add: event_of_row_def)
    have "\<not> claimed (fb_fills b) x" using f(1) xkey by (auto simp: claimed_def)
    from net_quantity_split_off [of "fb_events b" x "row_key f" "\<lambda>e. \<not> claimed (fb_fills b) e", OF _ x(1) xkey this]
    have "net_quantity (unclaimed (fb_fills b) (fb_events b)) s =
        net_quantity (unclaimed (fb_fills b @ [f]) (fb_events b)) s + net_quantity [x] s" for s
      using defs by (simp add: unclaimed_def claimed_snoc)
    moreover have "row_ok (fb_events b) f" using x f q by (auto simp: row_ok_def)
    ultimately show ?thesis
      using defs f(1) event_of_row_signed [OF x(2)]
      by (auto simp: fill_book_ok_def known(3) rows_total_snoc key_known_snoc simp del: net_quantity_simps(2))
  qed
qed

subsection \<open>Every write keeps the invariant\<close>

lemma append_all_simps [simp]:
  "append_all events [] = events"
  "append_all events (e # es) = append_all (snd (append_execution_event events e)) es"
  by (simp_all add: append_all_def)

lemma append_fill_Appended:
  assumes "append_fill ts price_text r i now b = Inr (Appended f, b')"
  obtains p ord e q where "position_before ts (fb_events b) r = Ok p" "fb_orders b (fq_order_id r) = Some ord"
    "fill_value_reason (fq_quantity r) (fq_price r) = None" "find (same_fill r) (fb_fills b) = None"
    "\<And>x. event_with_key (fb_events b) (request_key r) = Some x \<Longrightarrow> event_matches_request x r"
    "f = request_fill r i now" "event_of_row f e" "q = None \<longleftrightarrow> \<not> overfills b r ord p"
    "\<And>x. q = Some x \<Longrightarrow> other_event x \<and> ev_event_type x = Event_QUARANTINED \<and> ev_symbol x = Some (fq_symbol r) \<and>
       ev_dedupe_key x = Some (overfill_quarantine_dedupe_key (row_key f)) \<and>
       overfill_quarantine_conflict_reason (event_with_key (fb_events b)
         (map_option overfill_quarantine_dedupe_key (request_key r))) x = None"
    "b' = b\<lparr>fb_fills := fb_fills b @ [f], fb_events := append_all (fb_events b)
       (e # (case q of Some x \<Rightarrow> [x] | None \<Rightarrow> []))\<rparr>"
proof -
  from assms obtain p spec e q where p: "position_before ts (fb_events b) r = Ok p" and
    plan: "plan_append_fill r (fb_orders b (fq_order_id r)) (order_filled (fb_fills b) (fq_order_id r))
      (ps_quantity p) (find (same_fill r) (fb_fills b) \<noteq> None) (find (same_fill r) (fb_fills b))
      (event_with_key (fb_events b) (request_key r))
      (event_with_key (fb_events b) (map_option overfill_quarantine_dedupe_key (request_key r)))
      price_text i now = Ok (FILL_APPEND spec f e q)" and
    b': "b' = b\<lparr>fb_fills := fb_fills b @ [f], fb_events := append_all (fb_events b)
       (e # (case q of Some x \<Rightarrow> [x] | None \<Rightarrow> []))\<rparr>"
    by (auto simp: append_fill_eq split: sum.splits fill_plan.splits)
  from plan show ?thesis
  proof (rule plan_append_fill_APPEND)
    fix ord
    assume a: "fb_orders b (fq_order_id r) = Some ord" "fill_value_reason (fq_quantity r) (fq_price r) = None"
      "find (same_fill r) (fb_fills b) = None"
      "\<And>x. event_with_key (fb_events b) (request_key r) = Some x \<Longrightarrow> event_matches_request x r"
      "f = request_fill r i now" "e = execution_event_for_fill f (fq_source r) (fq_authority r) (fq_execution_payload r)"
      "(q = None) = (\<not> (or_quantity ord < order_filled (fb_fills b) (fq_order_id r) + fq_quantity r \<or>
         would_go_negative (ps_quantity p) (fq_side r) (fq_quantity r)))"
      "\<And>x. q = Some x \<Longrightarrow> ev_event_type x = Event_QUARANTINED \<and> ev_symbol x = Some (fr_symbol f) \<and>
         ev_dedupe_key x = Some (overfill_quarantine_dedupe_key (row_key f)) \<and>
         overfill_quarantine_conflict_reason (event_with_key (fb_events b)
           (map_option overfill_quarantine_dedupe_key (request_key r))) x = None"
    show ?thesis
    proof (rule that [OF p a(1-5) _ _ _ b'])
      show "event_of_row f e" by (simp add: a(6) event_of_row_fill)
      show "q = None \<longleftrightarrow> \<not> overfills b r ord p" using a(7) by (simp add: overfills_def)
      show "other_event x \<and> ev_event_type x = Event_QUARANTINED \<and> ev_symbol x = Some (fq_symbol r) \<and>
         ev_dedupe_key x = Some (overfill_quarantine_dedupe_key (row_key f)) \<and>
         overfill_quarantine_conflict_reason (event_with_key (fb_events b)
           (map_option overfill_quarantine_dedupe_key (request_key r))) x = None" if "q = Some x" for x
        using a(8) [OF that] by (simp add: other_event_def a(5) request_fill_def)
    qed
  qed
qed

lemma append_fill_keeps_ok:
  assumes ok: "fill_book_ok b" and append: "append_fill ts price_text r i now b = Inr (status, b')"
    and "\<forall>s \<in> set_option (fq_source_fill_id r). plain_source s" "\<forall>f \<in> set (fb_fills b). fr_id f \<noteq> i"
  shows "fill_book_ok b'"
proof (cases status)
  case (Appended f)
  from append [unfolded Appended] show ?thesis
  proof (rule append_fill_Appended)
    fix p ord e q
    assume a: "fb_orders b (fq_order_id r) = Some ord" "fill_value_reason (fq_quantity r) (fq_price r) = None"
      "find (same_fill r) (fb_fills b) = None"
      "\<And>x. event_with_key (fb_events b) (request_key r) = Some x \<Longrightarrow> event_matches_request x r"
      "f = request_fill r i now" "event_of_row f e"
      "\<And>x. q = Some x \<Longrightarrow> other_event x \<and> ev_event_type x = Event_QUARANTINED \<and> ev_symbol x = Some (fq_symbol r) \<and>
         ev_dedupe_key x = Some (overfill_quarantine_dedupe_key (row_key f)) \<and>
         overfill_quarantine_conflict_reason (event_with_key (fb_events b)
           (map_option overfill_quarantine_dedupe_key (request_key r))) x = None"
      "b' = b\<lparr>fb_fills := fb_fills b @ [f], fb_events := append_all (fb_events b)
         (e # (case q of Some x \<Rightarrow> [x] | None \<Rightarrow> []))\<rparr>"
    have plain: "plain_id (fq_order_id r)" using ok a(1) by (auto simp: fill_book_ok_def plain_orders_def)
    have f: "fr_order_id f = fq_order_id r" "fr_source_fill_id f = fq_source_fill_id r" "fr_id f = i"
      "fr_quantity f = fq_quantity r" "fr_price f = fq_price r" by (simp_all add: a(5) request_fill_def)
    have new: "row_key f \<notin> row_key ` set (fb_fills b)"
      by (rule row_key_new [OF _ _ a(3,5) plain assms(3), of "fb_events b"])
        (use ok assms(4) in \<open>simp_all add: fill_book_ok_def f\<close>)
    let ?b1 = "b\<lparr>fb_fills := fb_fills b @ [f], fb_events := snd (append_execution_event (fb_events b) e)\<rparr>"
    have ok1: "fill_book_ok ?b1"
      by (rule fill_book_ok_add_row [OF ok new _ _ _ a(6) row_event_known [OF ok a(5) new plain _ a(4)]])
        (simp_all add: f plain assms(3) a(2))
    show ?thesis
    proof (cases q)
      case None
      with ok1 show ?thesis by (simp add: a(8))
    next
      case (Some x)
      from a(7) [OF this] have x: "other_event x" "ev_event_type x \<noteq> Event_FILL" by simp_all
      from fill_book_ok_append [OF ok1, of x] other_event_known [OF x(1)] x(2) Some show ?thesis
        by (simp add: a(8))
    qed
  qed
qed (use append ok in \<open>auto simp: append_fill_eq split: sum.splits fill_plan.splits\<close>)

lemma fill_write_keeps_ok: "fill_write b b' \<Longrightarrow> fill_book_ok b \<Longrightarrow> fill_book_ok b'"
proof (induction rule: fill_write.induct)
  case (append ts price_text r i now b status b')
  then show ?case using append_fill_keeps_ok by blast
next
  case (bridge e b)
  then show ?case using fill_book_ok_append bridge_event_known by (auto simp: bridge_event_def)
next
  case (orders orders b)
  then show ?case by (simp add: fill_book_ok_def)
next
  case (other e b)
  then show ?case using fill_book_ok_append other_event_known by (auto simp: other_event_def)
qed

text \<open>The log of a book only grows.\<close>

lemma append_execution_event_grows: "set events \<subseteq> set (snd (append_execution_event events e))"
  by (cases rule: append_cases [of events e]) auto

lemma fill_write_grows: "fill_write b b' \<Longrightarrow> set (fb_events b) \<subseteq> set (fb_events b')"
proof (induction rule: fill_write.induct)
  case (append ts price_text r i now b status b')
  show ?case
  proof (cases status)
    case (Appended f)
    from append(1) [unfolded Appended] show ?thesis
    proof (rule append_fill_Appended)
      fix e q
      assume b': "b' = b\<lparr>fb_fills := fb_fills b @ [f], fb_events := append_all (fb_events b)
        (e # (case q of Some x \<Rightarrow> [x] | None \<Rightarrow> []))\<rparr>"
      show ?thesis
        using append_execution_event_grows [of "fb_events b" e]
          append_execution_event_grows [of "snd (append_execution_event (fb_events b) e)" "the q"]
        by (auto simp: b' split: option.splits)
    qed
  qed (use append(1) in \<open>auto simp: append_fill_eq split: sum.splits fill_plan.splits\<close>)
qed (use append_execution_event_grows in auto)

subsection \<open>The quarantine\<close>

lemma goes_short_Ok:
  assumes "fills_well_formed events" "\<bar>ps_quantity p\<bar> + gross_quantity events s < 2 ^ 1023"
  shows "\<exists>x. goes_short ts s events p = Ok x"
  using assms
proof (induction events arbitrary: p)
  case (Cons e events)
  show ?case
  proof (cases "fill_of_symbol s e")
    case True
    have e: "well_formed_fill e" using True Cons.prems(1) by (simp add: fill_of_symbol_def)
    have g0: "0 \<le> gross_quantity events s" using Cons.prems(1) gross_quantity_nonneg by simp
    have "\<bar>ps_quantity p\<bar> + event_quantity e < 2 ^ 1023" using Cons.prems(2) g0 True by simp
    with position_step_Ok [of e p s ts] True e obtain p1 where
      p1: "position_step ts s e p = Ok p1" "ps_quantity p1 = ps_quantity p + event_signed e"
      by auto
    have "\<bar>ps_quantity p1\<bar> + gross_quantity events s < 2 ^ 1023"
      using Cons.prems(2) event_signed_bound [of e] event_quantity_pos [OF e] p1(2) True by simp
    from Cons.IH [OF _ this] Cons.prems(1) p1 True show ?thesis by auto
  next
    case False
    with Cons show ?thesis by simp
  qed
qed (auto intro: exI [of _ False])

lemma map_res_exists: "\<forall>x \<in> set xs. \<exists>y. f x = Ok y \<Longrightarrow> \<exists>ys. map_res f xs = Ok ys"
  by (induction xs) auto

lemma quarantined_symbols_Ok:
  assumes "fills_well_formed events" "volume_bounded events"
  shows "\<exists>Q. quarantined_symbols ts events = Ok Q \<and> set (event_symbols Event_QUARANTINED events) \<subseteq> Q"
proof -
  have "\<exists>x. goes_short ts s events (flat_position s) = Ok x" for s
    using goes_short_Ok [OF assms(1), of "flat_position s" s ts] assms(2)
    by (simp add: flat_position_def volume_bounded_def)
  then obtain short where
    "map_res (\<lambda>s. goes_short ts s events (flat_position s)) (remdups (event_symbols Event_FILL events)) = Ok short"
    using map_res_exists [of "remdups (event_symbols Event_FILL events)"
      "\<lambda>s. goes_short ts s events (flat_position s)"] by blast
  then show ?thesis by (auto simp: quarantined_symbols_def Let_def)
qed

lemma event_symbols_mem: "e \<in> set events \<Longrightarrow> ev_event_type e = t \<Longrightarrow> ev_symbol e = Some s \<Longrightarrow> s \<in> set (event_symbols t events)"
  by (force simp: event_symbols_def List.map_filter_def)

text \<open>An overfilling append leaves a quarantine event of its symbol in the log.\<close>

lemma overfill_is_recorded:
  assumes "append_fill ts price_text r i now b = Inr (Appended f, b')" "position_before ts (fb_events b) r = Ok p"
    "fb_orders b (fq_order_id r) = Some ord" "overfills b r ord p" "fq_source_fill_id r \<noteq> None"
  shows "\<exists>e \<in> set (fb_events b'). ev_event_type e = Event_QUARANTINED \<and> ev_symbol e = Some (fq_symbol r)"
  using assms(1)
proof (rule append_fill_Appended)
  fix p' ord' e q
  assume a: "position_before ts (fb_events b) r = Ok p'" "fb_orders b (fq_order_id r) = Some ord'"
    "f = request_fill r i now" "q = None \<longleftrightarrow> \<not> overfills b r ord' p'" "event_of_row f e"
    "\<And>x. q = Some x \<Longrightarrow> other_event x \<and> ev_event_type x = Event_QUARANTINED \<and> ev_symbol x = Some (fq_symbol r) \<and>
       ev_dedupe_key x = Some (overfill_quarantine_dedupe_key (row_key f)) \<and>
       overfill_quarantine_conflict_reason (event_with_key (fb_events b)
         (map_option overfill_quarantine_dedupe_key (request_key r))) x = None"
    "b' = b\<lparr>fb_fills := fb_fills b @ [f], fb_events := append_all (fb_events b)
       (e # (case q of Some x \<Rightarrow> [x] | None \<Rightarrow> []))\<rparr>"
  obtain x where q: "q = Some x" using a(1,2,4) assms(2-4) by auto
  note x = a(6) [OF q]
  obtain s where s: "fq_source_fill_id r = Some s" using assms(5) by blast
  have key: "request_key r = Some (row_key f)"
    by (simp add: request_key_def row_key_eq key_suffix_def a(3) request_fill_def s)
  let ?k = "overfill_quarantine_dedupe_key (row_key f)"
  define events' where "events' = snd (append_execution_event (fb_events b) e)"
  have b': "fb_events b' = snd (append_execution_event events' x)"
    by (simp add: a(7) q events'_def)
  have ekey: "ev_dedupe_key e = Some (row_key f)" using a(5) by (simp add: event_of_row_def)
  show ?thesis
  proof (cases rule: append_cases [of events' x])
    case new
    with x show ?thesis by (auto simp: b')
  next
    case (known k)
    then have "has_key events' ?k" using x by simp
    moreover have "has_key events' ?k \<longleftrightarrow> has_key (fb_events b) ?k"
    proof (cases rule: append_cases [of "fb_events b" e])
      case new
      have "row_key f \<noteq> ?k" by (metis is_fill_key_simps row_key_eq)
      with new ekey show ?thesis by (auto simp: events'_def has_key_def)
    qed (simp add: events'_def)
    ultimately obtain y where y: "event_with_key (fb_events b) (Some ?k) = Some y"
      using event_with_key_Some by (metis not_None_eq)
    with x have "ev_event_type y = Event_QUARANTINED" "ev_symbol y = ev_symbol x"
      by (auto simp: key overfill_quarantine_conflict_reason_def split: if_splits)
    moreover have "y \<in> set (fb_events b')"
      using event_with_key_found [OF y] append_execution_event_grows [of "fb_events b" e]
        append_execution_event_grows [of events' x]
      by (auto simp: b' events'_def)
    ultimately show ?thesis using x by auto
  qed
qed

text \<open>An append of a fill that has its row changes nothing, and tells a repetition from a conflict.\<close>

lemma same_fill_unique:
  assumes "fill_book_ok b" "f \<in> set (fb_fills b)" "same_fill r f"
  shows "find (same_fill r) (fb_fills b) = Some f" "request_key r = Some (row_key f)"
proof -
  obtain g where g: "find (same_fill r) (fb_fills b) = Some g"
    using assms(2,3) by (metis find_None_iff not_None_eq)
  then have g': "g \<in> set (fb_fills b)" "same_fill r g" by (auto simp: find_Some_iff)
  obtain s where s: "fq_source_fill_id r = Some s" using assms(3) by (auto simp: same_fill_def)
  have "row_key g = row_key f" using assms(3) g'(2) s by (simp add: row_key_eq key_suffix_def same_fill_def)
  then have "g = f" using assms(1,2) g'(1) by (auto simp: fill_book_ok_def distinct_map dest: inj_onD)
  with g show "find (same_fill r) (fb_fills b) = Some f" by simp
  show "request_key r = Some (row_key f)"
    using assms(3) s by (simp add: request_key_def row_key_eq key_suffix_def same_fill_def)
qed

lemma position_before_Ok:
  assumes "fill_book_ok b" "volume_bounded (fb_events b)"
  shows "\<exists>p. position_before ts (fb_events b) r = Ok p"
proof -
  have wf: "fills_well_formed (fb_events b)" using assms(1) by (simp add: fill_book_ok_def)
  have "gross_quantity (filter P (fb_events b)) s < 2 ^ 1023" for P s
    using gross_quantity_filter [OF wf, of P s] assms(2) by (simp add: volume_bounded_def le_less_trans)
  from project_Ok [OF fills_well_formed_filter [OF wf] this] show ?thesis
    unfolding position_before_def by blast
qed

lemma append_known_row:
  assumes ok: "fill_book_ok b" "volume_bounded (fb_events b)" and f: "f \<in> set (fb_fills b)" "same_fill r f"
    and r: "fill_value_reason (fq_quantity r) (fq_price r) = None" "fb_orders b (fq_order_id r) = Some ord"
  shows "append_fill ts price_text r i now b =
    Inr (if request_material r = fill_economic_material f then Duplicate else Conflict, b)"
proof -
  obtain p where p: "position_before ts (fb_events b) r = Ok p" using position_before_Ok [OF ok] by blast
  note row = same_fill_unique [OF ok(1) f]
  obtain e where e: "e \<in> set (fb_events b)" "event_of_row f e"
    using ok(1) f(1) by (auto simp: fill_book_ok_def row_ok_def)
  then have ekey: "ev_dedupe_key e = Some (row_key f)" by (simp add: event_of_row_def)
  then have "has_key (fb_events b) (row_key f)" using e(1) by (auto simp: has_key_def)
  then obtain e' where e': "event_with_key (fb_events b) (Some (row_key f)) = Some e'"
    using event_with_key_Some by (metis not_None_eq)
  have "e' = e"
    using distinct_keys_eq [of "fb_events b" e' e] event_with_key_found [OF e'] e(1) ekey ok(1)
    by (simp add: fill_book_ok_def)
  then have "event_matches_request e' r \<longleftrightarrow> request_material r = fill_economic_material f"
    using e(2) f(2) by (auto simp: event_matches_request_def event_of_row_def request_material_def
      fill_economic_material_def same_fill_def)
  then have conflict: "fill_conflict_payload (Some f) (Some e') r = None \<longleftrightarrow>
      request_material r = fill_economic_material f"
    by (auto simp: conflict_payload_None)
  show ?thesis
  proof (cases "fill_conflict_payload (Some f) (Some e') r")
    case None
    with conflict r show ?thesis by (simp add: append_fill_eq p row e' plan_append_fill_def)
  next
    case (Some payload)
    with conflict r show ?thesis by (auto simp: append_fill_eq p row e' plan_append_fill_def)
  qed
qed

subsection \<open>The position is a read model of rows and events\<close>

abbreviation fill_book_start :: "fill_book \<Rightarrow> bool" where
  "fill_book_start b \<equiv> b = \<lparr>fb_orders = Map.empty, fb_fills = [], fb_events = []\<rparr>"

interpretation fill_read_model: read_model fill_book_start fill_write fill_book_ok
  "\<lambda>b s. Some (rows_total (fb_fills b) s + net_quantity (unclaimed (fb_fills b) (fb_events b)) s)"
  "\<lambda>b s. net_quantity (fb_events b) s"
proof
  show "fill_book_start b \<Longrightarrow> fill_book_ok b" for b using fill_book_ok_start by simp
  show "fill_book_ok b \<Longrightarrow> fill_write b b' \<Longrightarrow> fill_book_ok b'" for b b' by (rule fill_write_keeps_ok)
qed (simp add: fill_book_ok_def)

end
