(* ===== verification/Session_Control.thy ===== *)
theory Session_Control
  imports Orders
begin

text \<open>
  The session control state: the two drivers of the trading state folded from the event log
  (\<^verbatim>\<open>app/events/projectors.py\<close>), the events of a control and of a reconcile change
  (\<^verbatim>\<open>app/store/core.py\<close>), and the store operations that write a session row together
  with its event (\<^verbatim>\<open>app/store/memory.py\<close>). The trading-state column of a session is a
  read model of the log on every run.
\<close>

subsection \<open>Projections\<close>

fun TRADING_STATE_RANK :: "trading_state \<Rightarrow> nat" where
  "TRADING_STATE_RANK State_ACTIVE = 0"
| "TRADING_STATE_RANK State_REDUCING = 1"
| "TRADING_STATE_RANK State_HALTED = 2"

definition compose_trading_state :: "trading_state list \<Rightarrow> trading_state" where
  "compose_trading_state states =
     (case states of
        [] \<Rightarrow> State_ACTIVE
      | s # ss \<Rightarrow>
          foldl (\<lambda>m t. if TRADING_STATE_RANK t > TRADING_STATE_RANK m then t else m) s ss)"

text \<open>\<^verbatim>\<open>TradingState(value)\<close>: the member with the value.\<close>

definition trading_state_named :: "pyval \<Rightarrow> trading_state res" where
  "trading_state_named v =
     (if v = PStr ''active'' then Ok State_ACTIVE
      else if v = PStr ''reducing'' then Ok State_REDUCING
      else if v = PStr ''halted'' then Ok State_HALTED
      else Raise ValueError)"

definition driver_step :: "string \<Rightarrow> bool \<Rightarrow> execution_event \<Rightarrow> trading_state \<Rightarrow> trading_state res" where
  "driver_step session_id reconcile e state =
     (if ev_event_type e = Event_TRADING_STATE_CHANGED \<and> ev_session_id e = Some session_id \<and>
         (ev_payload e ''driver'' = Some (PStr ''reconcile'')) = reconcile
      then (case ev_payload e ''to'' of Some v \<Rightarrow> trading_state_named v | None \<Rightarrow> Raise KeyError)
      else Ok state)"

definition driver_trading_state :: "event_log \<Rightarrow> string \<Rightarrow> bool \<Rightarrow> trading_state res" where
  "driver_trading_state events session_id reconcile =
     fold_res (driver_step session_id reconcile) events State_ACTIVE"

definition control_trading_state :: "event_log \<Rightarrow> string \<Rightarrow> trading_state res" where
  "control_trading_state events session_id = driver_trading_state events session_id False"

definition reconcile_trading_state :: "event_log \<Rightarrow> string \<Rightarrow> trading_state res" where
  "reconcile_trading_state events session_id = driver_trading_state events session_id True"

definition current_trading_state :: "event_log \<Rightarrow> string \<Rightarrow> trading_state res" where
  "current_trading_state events session_id =
     bind_res (control_trading_state events session_id) (\<lambda>control.
     bind_res (reconcile_trading_state events session_id) (\<lambda>reconcile.
       Ok (compose_trading_state [control, reconcile])))"

definition override_step :: "string \<Rightarrow> execution_event \<Rightarrow> (string \<rightharpoonup> bool) \<Rightarrow> (string \<rightharpoonup> bool)" where
  "override_step session_id e active =
     (case ev_symbol e of
        None \<Rightarrow> active
      | Some symbol \<Rightarrow>
          if ev_session_id e \<noteq> Some session_id then active
          else if ev_event_type e = Event_EMERGENCY_REDUCE_OVERRIDE then active(symbol \<mapsto> True)
          else if ev_event_type e = Event_EMERGENCY_REDUCE_OVERRIDE_RESOLVED then active(symbol \<mapsto> False)
          else active)"

definition active_emergency_reduce_overrides :: "event_log \<Rightarrow> string \<Rightarrow> string set" where
  "active_emergency_reduce_overrides events session_id =
     {symbol. fold (override_step session_id) events Map.empty symbol = Some True}"

subsection \<open>Events\<close>

definition trading_state_change_event ::
  "string \<Rightarrow> trading_state \<Rightarrow> bool \<Rightarrow> bool \<Rightarrow> string \<Rightarrow> instant \<Rightarrow> execution_event option" where
  "trading_state_change_event session_id prior_control kill_switch buys_paused reason now =
     (let new_state = trading_state_of kill_switch buys_paused
      in if new_state = prior_control then None
         else Some ((draft_event Event_TRADING_STATE_CHANGED Source_ENGINE Authority_LOCAL)
           \<lparr>ev_ts_event := Some now, ev_session_id := Some session_id,
            ev_payload := [''driver'' \<mapsto> PStr ''control'',
                           ''from'' \<mapsto> PStr (trading_state_value prior_control),
                           ''to'' \<mapsto> PStr (trading_state_value new_state),
                           ''kill_switch'' \<mapsto> PBool kill_switch, ''buys_paused'' \<mapsto> PBool buys_paused,
                           ''reason'' \<mapsto> PStr reason]\<rparr>))"

definition reconcile_trading_state_event ::
  "string \<Rightarrow> trading_state \<Rightarrow> trading_state \<Rightarrow> string \<Rightarrow> instant \<Rightarrow> execution_event option res" where
  "reconcile_trading_state_event session_id prior_reconcile to reason now =
     require (to \<noteq> State_HALTED) ValueError
     (Ok (if to = prior_reconcile then None
          else Some ((draft_event Event_TRADING_STATE_CHANGED Source_ENGINE Authority_LOCAL)
            \<lparr>ev_ts_event := Some now, ev_session_id := Some session_id,
             ev_payload := [''driver'' \<mapsto> PStr ''reconcile'',
                            ''from'' \<mapsto> PStr (trading_state_value prior_reconcile),
                            ''to'' \<mapsto> PStr (trading_state_value to), ''reason'' \<mapsto> PStr reason]\<rparr>)))"

definition emergency_reduce_override_event ::
  "string \<Rightarrow> string \<Rightarrow> string \<Rightarrow> string \<Rightarrow> bool \<Rightarrow> instant \<Rightarrow> execution_event" where
  "emergency_reduce_override_event session_id symbol actor reason resolved now =
     (draft_event (if resolved then Event_EMERGENCY_REDUCE_OVERRIDE_RESOLVED
                   else Event_EMERGENCY_REDUCE_OVERRIDE) Source_ENGINE Authority_LOCAL)
       \<lparr>ev_ts_event := Some now, ev_session_id := Some session_id, ev_symbol := Some symbol,
        ev_payload := [''actor'' \<mapsto> PStr actor, ''reason'' \<mapsto> PStr reason, ''resolved'' \<mapsto> PBool resolved]\<rparr>"

subsection \<open>The store operations on a session\<close>

text \<open>Both return the session row and the log; the audit row they also write is not modelled.\<close>

definition apply_control_change ::
  "session_record \<Rightarrow> event_log \<Rightarrow> bool \<Rightarrow> bool \<Rightarrow> string \<Rightarrow> instant \<Rightarrow> (session_record \<times> event_log) res" where
  "apply_control_change session events kill_switch buys_paused reason now =
     bind_res (control_trading_state events (se_id session)) (\<lambda>prior_control.
     let exec_event = trading_state_change_event (se_id session) prior_control kill_switch buys_paused
           reason now
     in bind_res (reconcile_trading_state events (se_id session)) (\<lambda>reconcile.
        Ok (session\<lparr>se_kill_switch := kill_switch, se_buys_paused := buys_paused,
                    se_trading_state := compose_trading_state
                      [trading_state_of kill_switch buys_paused, reconcile],
                    se_updated_at := now\<rparr>,
            case exec_event of Some e \<Rightarrow> snd (append_execution_event events e) | None \<Rightarrow> events)))"

definition apply_reconcile_state ::
  "session_record \<Rightarrow> event_log \<Rightarrow> trading_state \<Rightarrow> string \<Rightarrow> instant \<Rightarrow> (session_record \<times> event_log) res" where
  "apply_reconcile_state session events to reason now =
     bind_res (reconcile_trading_state events (se_id session)) (\<lambda>prior_reconcile.
     bind_res (reconcile_trading_state_event (se_id session) prior_reconcile to reason now) (\<lambda>exec_event.
     case exec_event of
       None \<Rightarrow> Ok (session, events)
     | Some e \<Rightarrow>
         bind_res (control_trading_state events (se_id session)) (\<lambda>control.
           Ok (session\<lparr>se_trading_state := compose_trading_state [control, to], se_updated_at := now\<rparr>,
               snd (append_execution_event events e)))))"

definition set_buys_paused ::
  "session_record \<Rightarrow> event_log \<Rightarrow> bool \<Rightarrow> instant \<Rightarrow> (session_record \<times> event_log) res" where
  "set_buys_paused session events paused now =
     apply_control_change session events (se_kill_switch session) paused ''buys_paused'' now"

definition set_reconcile_trading_state ::
  "session_record \<Rightarrow> event_log \<Rightarrow> trading_state \<Rightarrow> string \<Rightarrow> instant \<Rightarrow> (session_record \<times> event_log) res" where
  "set_reconcile_trading_state session events to reason now =
     require (to \<noteq> State_HALTED) ValueError (apply_reconcile_state session events to reason now)"

text \<open>The control part of the kill switch; engaging it also freezes the active envelopes.\<close>

definition set_kill_switch_control ::
  "session_record \<Rightarrow> event_log \<Rightarrow> bool \<Rightarrow> instant \<Rightarrow> (session_record \<times> event_log) res" where
  "set_kill_switch_control session events engaged now =
     apply_control_change session events engaged (se_buys_paused session) ''kill_switch'' now"

subsection \<open>Folding one more event\<close>

lemma driver_snoc:
  "driver_trading_state (events @ [e]) i r =
     bind_res (driver_trading_state events i r) (driver_step i r e)"
  by (simp add: driver_trading_state_def fold_res_append fun_eq_iff bind_res_def split: sum.splits)

lemma trading_state_named_value [simp]: "trading_state_named (PStr (trading_state_value s)) = Ok s"
  by (cases s) (simp_all add: trading_state_named_def)

lemma driver_step_other [simp]:
  "ev_event_type e \<noteq> Event_TRADING_STATE_CHANGED \<or> ev_session_id e \<noteq> Some i \<Longrightarrow> driver_step i r e s = Ok s"
  by (auto simp: driver_step_def)

lemma compose_pair:
  "compose_trading_state [a, b] = (if TRADING_STATE_RANK b > TRADING_STATE_RANK a then b else a)"
  by (simp add: compose_trading_state_def)

subsection \<open>The read model\<close>

type_synonym session_book = "(string \<rightharpoonup> session_record) \<times> event_log"

inductive session_write :: "session_book \<Rightarrow> session_book \<Rightarrow> bool" where
  open_session: "sessions (se_id s) = None \<Longrightarrow> \<not> se_kill_switch s \<Longrightarrow> \<not> se_buys_paused s \<Longrightarrow>
    se_trading_state s = State_ACTIVE \<Longrightarrow> se_status s = Session_ACTIVE \<Longrightarrow>
    session_write (sessions, events) (sessions(se_id s \<mapsto> s), events)"
| kill_switch: "sessions i = Some s \<Longrightarrow> set_kill_switch_control s events engaged now = Ok (s', events') \<Longrightarrow>
    session_write (sessions, events) (sessions(i \<mapsto> s'), events')"
| buys_paused: "sessions i = Some s \<Longrightarrow> set_buys_paused s events paused now = Ok (s', events') \<Longrightarrow>
    session_write (sessions, events) (sessions(i \<mapsto> s'), events')"
| reconcile: "sessions i = Some s \<Longrightarrow> set_reconcile_trading_state s events to why now = Ok (s', events') \<Longrightarrow>
    session_write (sessions, events) (sessions(i \<mapsto> s'), events')"
| other: "ev_event_type e \<noteq> Event_TRADING_STATE_CHANGED \<Longrightarrow>
    session_write (sessions, events) (sessions, snd (append_execution_event events e))"

definition session_ok :: "event_log \<Rightarrow> session_record \<Rightarrow> bool" where
  "session_ok events s \<longleftrightarrow>
     control_trading_state events (se_id s) = Ok (trading_state_of (se_kill_switch s) (se_buys_paused s)) \<and>
     (\<exists>r. reconcile_trading_state events (se_id s) = Ok r \<and> r \<noteq> State_HALTED \<and>
        se_trading_state s =
          compose_trading_state [trading_state_of (se_kill_switch s) (se_buys_paused s), r])"

definition session_book_ok :: "session_book \<Rightarrow> bool" where
  "session_book_ok b \<longleftrightarrow>
     (\<forall>i s. fst b i = Some s \<longrightarrow> se_id s = i \<and> session_ok (snd b) s) \<and>
     (\<forall>e \<in> set (snd b). ev_event_type e = Event_TRADING_STATE_CHANGED \<longrightarrow>
        (\<exists>i. ev_session_id e = Some i \<and> fst b i \<noteq> None))"

lemma session_ok_current:
  "session_ok events s \<Longrightarrow> current_trading_state events (se_id s) = Ok (se_trading_state s)"
  by (auto simp: session_ok_def current_trading_state_def)

lemma driver_foreign:
  assumes "ev_event_type e \<noteq> Event_TRADING_STATE_CHANGED \<or> ev_session_id e \<noteq> Some i"
  shows "driver_trading_state (events @ [e]) i r = driver_trading_state events i r"
  using assms by (simp add: driver_snoc bind_res_def split: sum.splits)

lemma session_ok_foreign:
  "ev_event_type e \<noteq> Event_TRADING_STATE_CHANGED \<or> ev_session_id e \<noteq> Some (se_id s) \<Longrightarrow>
   session_ok events s \<Longrightarrow> session_ok (events @ [e]) s"
  by (simp add: session_ok_def control_trading_state_def reconcile_trading_state_def driver_foreign)

text \<open>One session changes, with at most one event, which is about that session.\<close>

lemma session_book_update:
  assumes ok: "session_book_ok (sessions, events)" and s: "sessions i = Some s"
    and s': "se_id s' = i" "session_ok events' s'"
    and events': "events' = events \<or> (\<exists>e. events' = events @ [e] \<and> ev_session_id e = Some i)"
  shows "session_book_ok (sessions(i \<mapsto> s'), events')"
proof -
  have "session_ok events' t" if "sessions j = Some t" "j \<noteq> i" for j t
    using ok that events' session_ok_foreign [of _ t events] by (auto simp: session_book_ok_def)
  moreover have "\<exists>j. ev_session_id e = Some j \<and> (sessions(i \<mapsto> s')) j \<noteq> None"
    if "e \<in> set events'" "ev_event_type e = Event_TRADING_STATE_CHANGED" for e
  proof -
    have "\<exists>j. ev_session_id e = Some j \<and> (j = i \<or> sessions j \<noteq> None)"
      using ok that events' unfolding session_book_ok_def by auto
    then show ?thesis by auto
  qed
  ultimately show ?thesis using ok s' by (auto simp: session_book_ok_def)
qed

lemma control_change_ok:
  assumes "session_ok events s" "apply_control_change s events kill paused reason now = Ok (s', events')"
  shows "se_id s' = se_id s \<and> session_ok events' s' \<and>
    (events' = events \<or> (\<exists>e. events' = events @ [e] \<and> ev_session_id e = Some (se_id s)))"
proof -
  obtain r where d: "driver_trading_state events (se_id s) False = Ok (trading_state_of (se_kill_switch s) (se_buys_paused s))"
      "driver_trading_state events (se_id s) True = Ok r" "r \<noteq> State_HALTED"
    using assms(1) by (auto simp: session_ok_def control_trading_state_def reconcile_trading_state_def)
  show ?thesis
  proof (cases "trading_state_of kill paused = trading_state_of (se_kill_switch s) (se_buys_paused s)")
    case True
    with assms(2) d show ?thesis
      by (auto simp: apply_control_change_def control_trading_state_def reconcile_trading_state_def
        trading_state_change_event_def session_ok_def)
  next
    case False
    with assms(2) d show ?thesis
      by (auto simp: apply_control_change_def control_trading_state_def reconcile_trading_state_def
        trading_state_change_event_def session_ok_def Let_def append_new driver_snoc driver_step_def)
  qed
qed

lemma reconcile_change_ok:
  assumes "session_ok events s" "apply_reconcile_state s events to reason now = Ok (s', events')"
  shows "se_id s' = se_id s \<and> session_ok events' s' \<and>
    (events' = events \<or> (\<exists>e. events' = events @ [e] \<and> ev_session_id e = Some (se_id s)))"
proof -
  obtain r where d: "driver_trading_state events (se_id s) False = Ok (trading_state_of (se_kill_switch s) (se_buys_paused s))"
      "driver_trading_state events (se_id s) True = Ok r" "r \<noteq> State_HALTED"
      "se_trading_state s = compose_trading_state [trading_state_of (se_kill_switch s) (se_buys_paused s), r]"
    using assms(1) by (auto simp: session_ok_def control_trading_state_def reconcile_trading_state_def)
  show ?thesis
  proof (cases "to = r")
    case True
    with assms d show ?thesis
      by (auto simp: apply_reconcile_state_def reconcile_trading_state_def reconcile_trading_state_event_def
        require_def split: if_splits)
  next
    case False
    with assms(2) d show ?thesis
      by (auto simp: apply_reconcile_state_def control_trading_state_def reconcile_trading_state_def
        reconcile_trading_state_event_def session_ok_def append_new driver_snoc driver_step_def
        require_def split: if_splits)
  qed
qed

lemma session_open_ok:
  assumes ok: "session_book_ok (sessions, events)" and s: "sessions (se_id s) = None"
    "\<not> se_kill_switch s" "\<not> se_buys_paused s" "se_trading_state s = State_ACTIVE"
  shows "session_book_ok (sessions(se_id s \<mapsto> s), events)"
proof -
  have no: "ev_event_type e \<noteq> Event_TRADING_STATE_CHANGED \<or> ev_session_id e \<noteq> Some (se_id s)"
    if "e \<in> set events" for e
    using ok s(1) that by (auto simp: session_book_ok_def)
  have "driver_trading_state events (se_id s) r = Ok State_ACTIVE" for r
    using no by (induction events rule: rev_induct) (auto simp: driver_snoc driver_trading_state_def [of "[]"])
  then have "session_ok events s"
    using s by (simp add: session_ok_def control_trading_state_def reconcile_trading_state_def
      trading_state_of_def compose_pair)
  moreover have "\<exists>i. ev_session_id e = Some i \<and> (sessions(se_id s \<mapsto> s)) i \<noteq> None"
    if "e \<in> set events" "ev_event_type e = Event_TRADING_STATE_CHANGED" for e
    using ok that by (fastforce simp: session_book_ok_def)
  ultimately show ?thesis using ok by (auto simp: session_book_ok_def)
qed

theorem session_write_keeps_ok: "session_write b b' \<Longrightarrow> session_book_ok b \<Longrightarrow> session_book_ok b'"
proof (induction rule: session_write.induct)
  case (kill_switch sessions i s events engaged now s' events')
  then have s: "se_id s = i" "session_ok events s" by (auto simp: session_book_ok_def)
  with session_book_update [OF kill_switch.prems kill_switch.hyps(1)]
    control_change_ok [OF s(2) kill_switch.hyps(2) [unfolded set_kill_switch_control_def]]
  show ?case by blast
next
  case (buys_paused sessions i s events paused now s' events')
  then have s: "se_id s = i" "session_ok events s" by (auto simp: session_book_ok_def)
  with session_book_update [OF buys_paused.prems buys_paused.hyps(1)]
    control_change_ok [OF s(2) buys_paused.hyps(2) [unfolded set_buys_paused_def]]
  show ?case by blast
next
  case (reconcile sessions i s events to why now s' events')
  then have s: "se_id s = i" "session_ok events s" by (auto simp: session_book_ok_def)
  from reconcile.hyps(2) have "apply_reconcile_state s events to why now = Ok (s', events')"
    by (auto simp: set_reconcile_trading_state_def require_def split: if_splits)
  from reconcile_change_ok [OF s(2) this] s session_book_update [OF reconcile.prems reconcile.hyps(1)]
  show ?case by blast
next
  case (other e sessions events)
  show ?case
  proof (cases rule: append_cases [of events e])
    case new
    with other session_ok_foreign [of "stamped events e" _ events] show ?thesis
      by (auto simp: session_book_ok_def)
  next
    case known
    with other show ?thesis by simp
  qed
qed (auto intro: session_open_ok)

abbreviation session_book_start :: "session_book \<Rightarrow> bool" where
  "session_book_start b \<equiv> b = (Map.empty, [])"

interpretation session_read_model: read_model session_book_start session_write session_book_ok
  "\<lambda>b i. map_option (Ok \<circ> se_trading_state) (fst b i)" "\<lambda>b i. current_trading_state (snd b) i"
proof
  fix b i v assume "session_book_ok b" "map_option (Ok \<circ> se_trading_state) (fst b i) = Some v"
  then show "current_trading_state (snd b) i = v"
    using session_ok_current by (auto simp: session_book_ok_def)
next
  show "session_book_start b \<Longrightarrow> session_book_ok b" for b by (simp add: session_book_ok_def)
qed (auto intro: session_write_keeps_ok)

end
