(* ===== verification/Envelope_Log.thy ===== *)
theory Envelope_Log
  imports Envelopes
begin

text \<open>
  The replay of envelopes from the event log (\<^verbatim>\<open>project_envelopes\<close> of
  \<^verbatim>\<open>app/events/projectors.py\<close>) and the writes of the stores to the envelope table. The
  projection of the log is defined on every run and is the table: it never fails, and it agrees with
  every row in identity, bounds, status, remaining quantity and supersession links. Nested payload
  values are immutable in the model, so the freezing of the bound snapshot is the identity.
\<close>

subsection \<open>The projection\<close>

definition ENVELOPE_EVENT_TYPES :: "execution_event_type set" where
  "ENVELOPE_EVENT_TYPES =
     {Event_ENVELOPE_CREATED, Event_ENVELOPE_APPROVED, Event_ENVELOPE_ACTIVATED, Event_ENVELOPE_ACTION,
      Event_ENVELOPE_FILL_ATTRIBUTED, Event_ENVELOPE_ATTRIBUTION_REPAIR_CHECKPOINT,
      Event_ENVELOPE_COMPLETED, Event_ENVELOPE_BREACHED, Event_ENVELOPE_EXHAUSTED,
      Event_ENVELOPE_EXPIRED, Event_ENVELOPE_FROZEN, Event_ENVELOPE_RESUMED, Event_ENVELOPE_SUPERSEDED,
      Event_ENVELOPE_CANCELLED, Event_ENVELOPE_PLAN_DIVERGENCE}"

fun ENVELOPE_STATUS_EVENTS :: "execution_event_type \<Rightarrow> envelope_status option" where
  "ENVELOPE_STATUS_EVENTS Event_ENVELOPE_APPROVED = Some Envelope_APPROVED"
| "ENVELOPE_STATUS_EVENTS Event_ENVELOPE_ACTIVATED = Some Envelope_ACTIVE"
| "ENVELOPE_STATUS_EVENTS Event_ENVELOPE_COMPLETED = Some Envelope_COMPLETED"
| "ENVELOPE_STATUS_EVENTS Event_ENVELOPE_BREACHED = Some Envelope_BREACHED"
| "ENVELOPE_STATUS_EVENTS Event_ENVELOPE_EXHAUSTED = Some Envelope_EXHAUSTED"
| "ENVELOPE_STATUS_EVENTS Event_ENVELOPE_EXPIRED = Some Envelope_EXPIRED"
| "ENVELOPE_STATUS_EVENTS Event_ENVELOPE_FROZEN = Some Envelope_FROZEN"
| "ENVELOPE_STATUS_EVENTS Event_ENVELOPE_RESUMED = Some Envelope_ACTIVE"
| "ENVELOPE_STATUS_EVENTS Event_ENVELOPE_SUPERSEDED = Some Envelope_SUPERSEDED"
| "ENVELOPE_STATUS_EVENTS Event_ENVELOPE_CANCELLED = Some Envelope_CANCELLED"
| "ENVELOPE_STATUS_EVENTS _ = None"

definition ENVELOPE_NO_STATE_EVENTS :: "execution_event_type set" where
  "ENVELOPE_NO_STATE_EVENTS = {Event_ENVELOPE_ACTION, Event_ENVELOPE_PLAN_DIVERGENCE}"

definition ENVELOPE_BOUND_KEYS :: "string list" where
  "ENVELOPE_BOUND_KEYS =
     [''qty_ceiling'', ''floor_price'', ''trail_distance_min'', ''trail_distance_max'',
      ''participation_rate_cap'', ''aggressiveness'', ''cooldown_floor_ms'', ''cancel_replace_budget'',
      ''max_outstanding_children'', ''expires_at'', ''allowed_session_phases'', ''expiry_disposition'',
      ''stale_data_disposition'', ''supersedes_id'']"

record envelope_projection =
  ep_envelope_id :: string
  ep_sell_intent_id :: string
  ep_symbol :: string
  ep_session_id :: "string option"
  ep_status :: envelope_status
  ep_qty_ceiling :: int
  ep_remaining_quantity :: int
  ep_supersedes_id :: "string option"
  ep_superseded_by_id :: "string option"
  ep_bound_snapshot :: "(string \<times> pyval) list"
  ep_folded_event_types :: "execution_event_type list"
  ep_up_to_sequence :: nat

text \<open>
  \<^verbatim>\<open>ProjectionError\<close> is a \<^verbatim>\<open>ValueError\<close>. A payload value that is
  an integer is \<open>PInt\<close>: a Boolean is not \<^verbatim>\<open>type(x) is int\<close>.
\<close>

definition created_envelope_projection :: "execution_event \<Rightarrow> envelope_projection res" where
  "created_envelope_projection e =
     (case (ev_envelope_id e, ev_symbol e, ev_correlation_id e) of
        (Some envelope_id, Some symbol, Some correlation_id) \<Rightarrow>
          require (ev_side e = Some Side_SELL) ValueError
          (require (list_all (\<lambda>k. ev_payload e k \<noteq> None) ENVELOPE_BOUND_KEYS) ValueError
          (require (ev_payload e ''sell_intent_id'' = Some (PStr correlation_id)) ValueError
          (case ev_payload e ''qty_ceiling'' of
             Some (PInt qty_ceiling) \<Rightarrow>
               require (\<not> qty_ceiling \<le> 0) ValueError
               (let finish = (\<lambda>supersedes_id. Ok
                    \<lparr>ep_envelope_id = envelope_id, ep_sell_intent_id = correlation_id,
                     ep_symbol = symbol, ep_session_id = ev_session_id e,
                     ep_status = Envelope_PENDING, ep_qty_ceiling = qty_ceiling,
                     ep_remaining_quantity = qty_ceiling, ep_supersedes_id = supersedes_id,
                     ep_superseded_by_id = None,
                     ep_bound_snapshot = map (\<lambda>k. (k, the (ev_payload e k))) ENVELOPE_BOUND_KEYS,
                     ep_folded_event_types = [ev_event_type e], ep_up_to_sequence = ev_sequence e\<rparr>)
                in case ev_payload e ''supersedes_id'' of
                     Some PNone \<Rightarrow> finish None
                   | Some (PStr s) \<Rightarrow> finish (Some s)
                   | _ \<Rightarrow> Raise ValueError)
           | _ \<Rightarrow> Raise ValueError)))
      | _ \<Rightarrow> Raise ValueError)"

definition valid_envelope_event_identity :: "envelope_projection \<Rightarrow> execution_event \<Rightarrow> bool" where
  "valid_envelope_event_identity p e \<longleftrightarrow>
     ev_envelope_id e = Some (ep_envelope_id p) \<and> ev_symbol e = Some (ep_symbol p) \<and>
     ev_side e = Some Side_SELL \<and> ev_session_id e = ep_session_id p \<and>
     ev_correlation_id e = Some (ep_sell_intent_id p)"

definition touch_envelope_projection ::
  "envelope_projection \<Rightarrow> execution_event \<Rightarrow> envelope_projection" where
  "touch_envelope_projection p e =
     p\<lparr>ep_folded_event_types := ep_folded_event_types p @ [ev_event_type e],
       ep_up_to_sequence := max (ep_up_to_sequence p) (ev_sequence e)\<rparr>"

definition apply_envelope_debit :: "envelope_projection \<Rightarrow> execution_event \<Rightarrow> envelope_projection res" where
  "apply_envelope_debit p e =
     (case (ev_quantity e, ev_payload e ''remaining_before'', ev_payload e ''remaining_after'') of
        (Some quantity, Some (PInt before), Some (PInt after)) \<Rightarrow>
          require (\<not> quantity \<le> 0) ValueError
          (require (before = ep_remaining_quantity p) ValueError
          (require (after = max 0 (before - quantity)) ValueError
             (Ok (p\<lparr>ep_remaining_quantity := after\<rparr>))))
      | _ \<Rightarrow> Raise ValueError)"

definition apply_envelope_status ::
  "envelope_projection \<Rightarrow> envelope_status \<Rightarrow> execution_event \<Rightarrow> envelope_projection res" where
  "apply_envelope_status p expected e =
     require (ev_payload e ''from'' = Some (PStr (envelope_status_value (ep_status p)))) ValueError
     (require (ev_payload e ''to'' = Some (PStr (envelope_status_value expected))) ValueError
     (require (expected \<in> ENVELOPE_TRANSITIONS (ep_status p)) ValueError
     (if ev_event_type e = Event_ENVELOPE_SUPERSEDED
      then (case ev_payload e ''superseded_by_id'' of
              Some (PStr s) \<Rightarrow> require (s \<noteq> []) ValueError
                (Ok (p\<lparr>ep_status := expected, ep_superseded_by_id := Some s\<rparr>))
            | _ \<Rightarrow> Raise ValueError)
      else Ok (p\<lparr>ep_status := expected\<rparr>))))"

type_synonym projections = "string \<rightharpoonup> envelope_projection"

definition project_envelope_event :: "execution_event \<Rightarrow> projections \<Rightarrow> projections res" where
  "project_envelope_event e projected =
     (let t = ev_event_type e;
          is_envelope_fill = (t = Event_FILL \<and> ev_envelope_id e \<noteq> None)
      in if t = Event_ENVELOPE_ATTRIBUTION_REPAIR_CHECKPOINT then Ok projected
         else if t \<notin> ENVELOPE_EVENT_TYPES \<and> \<not> is_envelope_fill then Ok projected
         else if t = Event_ENVELOPE_CREATED
         then require (\<not> (\<exists>i \<in> set_option (ev_envelope_id e). projected i \<noteq> None)) ValueError
              (bind_res (created_envelope_projection e) (\<lambda>created.
                 Ok (projected(ep_envelope_id created \<mapsto> created))))
         else (case Option.bind (ev_envelope_id e) projected of
             None \<Rightarrow> Raise ValueError
           | Some current \<Rightarrow>
               require (valid_envelope_event_identity current e) ValueError
               (bind_res
                  (if t = Event_FILL \<or> t = Event_ENVELOPE_FILL_ATTRIBUTED
                   then apply_envelope_debit current e
                   else (case ENVELOPE_STATUS_EVENTS t of
                       Some expected \<Rightarrow> apply_envelope_status current expected e
                     | None \<Rightarrow> require (t \<in> ENVELOPE_NO_STATE_EVENTS) ValueError (Ok current)))
                  (\<lambda>current. Ok (projected(the (ev_envelope_id e) \<mapsto> touch_envelope_projection current e))))))"

definition project_envelopes :: "event_log \<Rightarrow> projections res" where
  "project_envelopes events = fold_res project_envelope_event events Map.empty"

lemma project_envelopes_snoc:
  "project_envelopes (events @ [e]) = bind_res (project_envelopes events) (project_envelope_event e)"
  by (simp add: project_envelopes_def fold_res_append bind_res_def split: sum.splits)

subsection \<open>The writes\<close>

type_synonym envelope_book = "(string \<rightharpoonup> execution_envelope) \<times> event_log"

definition envelope_key :: "string \<Rightarrow> string \<Rightarrow> string" where
  "envelope_key i suffix = ''envelope:'' @ i @ '':'' @ suffix"

definition envelope_reserved :: "string \<Rightarrow> bool" where
  "envelope_reserved key \<longleftrightarrow> (\<exists>i suffix. key = envelope_key i suffix)"

definition apply_envelope_plan :: "envelope_book \<Rightarrow> envelope_plan \<Rightarrow> envelope_book" where
  "apply_envelope_plan b plan =
     (case plan of
        Envelope_Apply env e _ \<Rightarrow> ((fst b)(en_id env \<mapsto> env), snd (append_execution_event (snd b) e))
      | _ \<Rightarrow> b)"

text \<open>
  Creation of a valid draft; one planned transition; the completion on resume of an envelope that was
  filled while frozen; a new fill with its quarantine event and its chained transition; the
  supersession; and the events of other components.
\<close>

inductive envelope_write :: "envelope_book \<Rightarrow> envelope_book \<Rightarrow> bool" where
  create: "envs (en_id env) = None \<Longrightarrow> en_id env \<noteq> [] \<Longrightarrow> hard_rails env = Ok env \<Longrightarrow>
    envelope_draft_reason env = None \<Longrightarrow>
    envelope_write (envs, events)
      (envs(en_id env \<mapsto> env), snd (append_execution_event events (envelope_created_event env actor)))"
| transition: "envs i = Some env \<Longrightarrow>
    plan_envelope_transition env new_status actor reason None now False False = Envelope_Apply env' e spec \<Longrightarrow>
    envelope_write (envs, events) (apply_envelope_plan (envs, events) (Envelope_Apply env' e spec))"
| complete: "envs i = Some env \<Longrightarrow> en_status env = Envelope_ACTIVE \<Longrightarrow> en_remaining_quantity env = Some 0 \<Longrightarrow>
    plan_envelope_transition env Envelope_COMPLETED actor reason None now False True = Envelope_Apply env' e spec \<Longrightarrow>
    envelope_write (envs, events) (apply_envelope_plan (envs, events) (Envelope_Apply env' e spec))"
| fill: "envs i = Some env \<Longrightarrow> \<not> envelope_reserved (fl_dedupe_key f) \<Longrightarrow> \<not> has_key events (fl_dedupe_key f) \<Longrightarrow>
    plan_envelope_fill env f now = Fill_Apply env' e q chained \<Longrightarrow>
    events' = snd (append_execution_event events e) \<Longrightarrow>
    events'' = (case q of Some x \<Rightarrow> snd (append_execution_event events' x) | None \<Rightarrow> events') \<Longrightarrow>
    envelope_write (envs, events)
      (case chained of Some plan \<Rightarrow> apply_envelope_plan (envs(i \<mapsto> env'), events'') plan
       | None \<Rightarrow> (envs(i \<mapsto> env'), events''))"
| supersede: "envs i = Some old \<Longrightarrow> envs (en_id successor) = None \<Longrightarrow> en_id successor \<noteq> [] \<Longrightarrow>
    hard_rails successor = Ok successor \<Longrightarrow>
    plan_supersede_envelope old successor actor reason now working = Supersede_Apply old' new' es spec \<Longrightarrow>
    envelope_write (envs, events) (envs(en_id old' \<mapsto> old', en_id new' \<mapsto> new'), append_all events es)"
| other: "ev_event_type e \<notin> ENVELOPE_EVENT_TYPES \<Longrightarrow> ev_event_type e \<noteq> Event_FILL \<or> ev_envelope_id e = None \<Longrightarrow>
    (\<And>key. ev_dedupe_key e = Some key \<Longrightarrow> \<not> envelope_reserved key) \<Longrightarrow>
    envelope_write (envs, events) (envs, snd (append_execution_event events e))"

subsection \<open>The invariant\<close>

definition envelope_bounds :: "execution_envelope \<Rightarrow> (string \<times> pyval) list" where
  "envelope_bounds env = map (\<lambda>k. (k, the (envelope_created_payload env [] k))) ENVELOPE_BOUND_KEYS"

definition reflects :: "envelope_projection \<Rightarrow> execution_envelope \<Rightarrow> bool" where
  "reflects p env \<longleftrightarrow>
     ep_envelope_id p = en_id env \<and> ep_sell_intent_id p = en_sell_intent_id env \<and>
     ep_symbol p = en_symbol env \<and> ep_session_id p = en_session_id env \<and> ep_status p = en_status env \<and>
     ep_qty_ceiling p = en_qty_ceiling env \<and> en_remaining_quantity env = Some (ep_remaining_quantity p) \<and>
     ep_supersedes_id p = en_supersedes_id env \<and> ep_superseded_by_id p = en_superseded_by_id env \<and>
     ep_bound_snapshot p = envelope_bounds env"

definition suffix_seen :: "execution_envelope \<Rightarrow> string \<Rightarrow> bool" where
  "suffix_seen env suffix \<longleftrightarrow>
     suffix = ''created'' \<or> suffix = ''activated'' \<and> 2 \<le> envelope_rank (en_status env) \<or>
     (\<exists>s. suffix = envelope_status_value s \<and> envelope_rank s \<le> envelope_rank (en_status env))"

definition key_recorded :: "(string \<rightharpoonup> execution_envelope) \<Rightarrow> string \<Rightarrow> bool" where
  "key_recorded envs key \<longleftrightarrow>
     (\<exists>i suffix env. key = envelope_key i suffix \<and> CHR '':'' \<notin> set suffix \<and> envs i = Some env \<and>
        suffix_seen env suffix)"

definition table_matches :: "projections \<Rightarrow> (string \<rightharpoonup> execution_envelope) \<Rightarrow> bool" where
  "table_matches P envs \<longleftrightarrow> (\<forall>i. rel_option (\<lambda>p env. en_id env = i \<and> reflects p env) (P i) (envs i))"

definition envelope_book_ok :: "envelope_book \<Rightarrow> bool" where
  "envelope_book_ok b \<longleftrightarrow>
     (\<exists>P. project_envelopes (snd b) = Ok P \<and> table_matches P (fst b)) \<and>
     (\<forall>i env. fst b i = Some env \<longrightarrow> 0 < en_qty_ceiling env) \<and>
     (\<forall>e \<in> set (snd b). \<forall>key. ev_dedupe_key e = Some key \<longrightarrow> envelope_reserved key \<longrightarrow>
        key_recorded (fst b) key)"

lemma envelope_key_inj:
  assumes "envelope_key i s = envelope_key j t" "CHR '':'' \<notin> set s" "CHR '':'' \<notin> set t"
  shows "i = j \<and> s = t"
  using assms colon_suffix_inj [of i s j t] by (auto simp: envelope_key_def)

lemma table_matchesD:
  assumes "table_matches P envs" "envs i = Some env"
  obtains p where "P i = Some p" "en_id env = i" "reflects p env"
  using assms by (auto simp: table_matches_def option_rel_Some2 dest!: spec [of _ i])

lemma table_matches_None: "table_matches P envs \<Longrightarrow> envs i = None \<longleftrightarrow> P i = None"
  by (auto simp: table_matches_def dest!: spec [of _ i])

lemma table_matches_upd:
  assumes "table_matches P envs" "en_id env = i" "reflects p env"
  shows "table_matches (P(i \<mapsto> p)) (envs(i \<mapsto> env))"
  using assms by (auto simp: table_matches_def)

lemma suffix_seen_mono:
  "suffix_seen env s \<Longrightarrow> envelope_rank (en_status env) \<le> envelope_rank (en_status env') \<Longrightarrow> suffix_seen env' s"
  by (auto simp: suffix_seen_def intro: order_trans)

lemma key_recorded_mono:
  assumes "key_recorded envs key"
    and up: "\<And>i env. envs i = Some env \<Longrightarrow>
      \<exists>env'. envs' i = Some env' \<and> envelope_rank (en_status env) \<le> envelope_rank (en_status env')"
  shows "key_recorded envs' key"
proof -
  obtain i suffix env where k: "key = envelope_key i suffix" "CHR '':'' \<notin> set suffix" "envs i = Some env"
      "suffix_seen env suffix"
    using assms(1) by (auto simp: key_recorded_def)
  obtain env' where "envs' i = Some env'" "envelope_rank (en_status env) \<le> envelope_rank (en_status env')"
    using up [OF k(3)] by blast
  with k suffix_seen_mono show ?thesis unfolding key_recorded_def by blast
qed

text \<open>A suffix that the row has not seen is under no key of the log.\<close>

lemma unseen_key_fresh:
  assumes ok: "envelope_book_ok (envs, events)" and env: "envs i = Some env"
    and s: "\<not> suffix_seen env s" "CHR '':'' \<notin> set s"
  shows "\<not> has_key events (envelope_key i s)"
proof
  assume "has_key events (envelope_key i s)"
  moreover have "envelope_reserved (envelope_key i s)" by (auto simp: envelope_reserved_def)
  ultimately have "key_recorded envs (envelope_key i s)"
    using ok by (auto simp: envelope_book_ok_def has_key_def)
  then obtain j t env' where "envelope_key i s = envelope_key j t" "CHR '':'' \<notin> set t" "envs j = Some env'"
      "suffix_seen env' t"
    by (auto simp: key_recorded_def)
  with envelope_key_inj [of i s j t] s env show False by auto
qed

text \<open>Appending one event that the projection accepts, with the rows it leads to.\<close>

lemma book_append:
  assumes ok: "envelope_book_ok (envs, events)" "project_envelopes events = Ok P"
    and fresh: "ev_dedupe_key e = None \<or> \<not> has_key events (the (ev_dedupe_key e))"
    and step: "project_envelope_event (stamped events e) P = Ok P'" "table_matches P' envs'"
    and rows: "\<And>i env. envs' i = Some env \<Longrightarrow> 0 < en_qty_ceiling env"
      "\<And>i env. envs i = Some env \<Longrightarrow>
        \<exists>env'. envs' i = Some env' \<and> envelope_rank (en_status env) \<le> envelope_rank (en_status env')"
    and key: "\<And>key. ev_dedupe_key e = Some key \<Longrightarrow> envelope_reserved key \<Longrightarrow> key_recorded envs' key"
  shows "envelope_book_ok (envs', snd (append_execution_event events e))"
  using ok step rows(1) key key_recorded_mono [of envs _ envs', OF _ rows(2)]
  by (auto simp: envelope_book_ok_def append_new [OF fresh] project_envelopes_snoc)

lemma rows_upd:
  assumes "envs i = Some env" "envelope_rank (en_status env) \<le> envelope_rank (en_status env')" "envs j = Some x"
  shows "\<exists>x'. (envs(i \<mapsto> env')) j = Some x' \<and> envelope_rank (en_status x) \<le> envelope_rank (en_status x')"
  using assms by auto

subsection \<open>Transitions\<close>

lemma envelope_event_simps [simp]:
  "ev_event_type (envelope_event env t k pl ts) = t" "ev_dedupe_key (envelope_event env t k pl ts) = k"
  "ev_symbol (envelope_event env t k pl ts) = Some (en_symbol env)"
  "ev_side (envelope_event env t k pl ts) = Some Side_SELL"
  "ev_envelope_id (envelope_event env t k pl ts) = Some (en_id env)"
  "ev_session_id (envelope_event env t k pl ts) = en_session_id env"
  "ev_correlation_id (envelope_event env t k pl ts) = Some (en_sell_intent_id env)"
  "ev_payload (envelope_event env t k pl ts) = pl"
  by (simp_all add: envelope_event_def)

lemma transition_event_identity_status:
  "transition_event_identity env s = (Some t, k) \<Longrightarrow>
   ENVELOPE_STATUS_EVENTS t = Some s \<and> (t = Event_ENVELOPE_SUPERSEDED \<longleftrightarrow> s = Envelope_SUPERSEDED)"
  by (cases s) (auto simp: transition_event_identity_def split: if_splits)

text \<open>What an applied transition did to the row, and the event it carries.\<close>

lemma plan_envelope_transition_Apply:
  assumes "plan_envelope_transition env s actor reason by_id now a c = Envelope_Apply env' e spec"
  shows "env' = env\<lparr>en_status := s, en_updated_at := now, en_timestamps := (en_timestamps env)(s \<mapsto> now),
      en_superseded_by_id := (if s = Envelope_SUPERSEDED \<and> by_id \<noteq> None then by_id else en_superseded_by_id env)\<rparr>"
    "s \<in> ENVELOPE_TRANSITIONS (en_status env)" "s \<noteq> en_status env"
    "\<exists>t. ENVELOPE_STATUS_EVENTS t = Some s \<and> (t = Event_ENVELOPE_SUPERSEDED \<longleftrightarrow> s = Envelope_SUPERSEDED) \<and>
      e = envelope_event env' t (snd (transition_event_identity env s)) (transition_payload env s actor reason by_id) (Some now)"
    "s = Envelope_COMPLETED \<Longrightarrow> c" "s = Envelope_SUPERSEDED \<Longrightarrow> a"
proof -
  have s: "s \<in> ENVELOPE_TRANSITIONS (en_status env)" "s \<noteq> en_status env" "s = Envelope_COMPLETED \<Longrightarrow> c"
      "s = Envelope_SUPERSEDED \<Longrightarrow> a"
    using assms by (auto simp: plan_envelope_transition_def Let_def split: if_splits)
  then show "s \<in> ENVELOPE_TRANSITIONS (en_status env)" "s \<noteq> en_status env" "s = Envelope_COMPLETED \<Longrightarrow> c"
      "s = Envelope_SUPERSEDED \<Longrightarrow> a" by auto
  have p: "s \<noteq> Envelope_PENDING" using s(1) by (cases "en_status env") auto
  have plan: "(case transition_event_identity env s of
      (None, _) \<Rightarrow> Envelope_Reject StoreKeyError
    | (Some t, k) \<Rightarrow> Envelope_Apply
        (env\<lparr>en_status := s, en_updated_at := now, en_timestamps := (en_timestamps env)(s \<mapsto> now),
          en_superseded_by_id := (if s = Envelope_SUPERSEDED \<and> by_id \<noteq> None then by_id else en_superseded_by_id env)\<rparr>)
        (envelope_event (env\<lparr>en_status := s, en_updated_at := now, en_timestamps := (en_timestamps env)(s \<mapsto> now),
          en_superseded_by_id := (if s = Envelope_SUPERSEDED \<and> by_id \<noteq> None then by_id else en_superseded_by_id env)\<rparr>)
          t k (transition_payload env s actor reason by_id) (Some now)) spec) = Envelope_Apply env' e spec"
    using assms s p by (auto simp: plan_envelope_transition_def Let_def split: if_splits option.splits prod.splits)
  show "env' = env\<lparr>en_status := s, en_updated_at := now, en_timestamps := (en_timestamps env)(s \<mapsto> now),
      en_superseded_by_id := (if s = Envelope_SUPERSEDED \<and> by_id \<noteq> None then by_id else en_superseded_by_id env)\<rparr>"
    using plan by (auto split: option.splits prod.splits)
  show "\<exists>t. ENVELOPE_STATUS_EVENTS t = Some s \<and> (t = Event_ENVELOPE_SUPERSEDED \<longleftrightarrow> s = Envelope_SUPERSEDED) \<and>
      e = envelope_event env' t (snd (transition_event_identity env s)) (transition_payload env s actor reason by_id) (Some now)"
    using plan transition_event_identity_status [of env s]
    by (cases "transition_event_identity env s") (auto split: option.splits)
qed

lemma transition_payload_simps [simp]:
  "transition_payload env s actor reason by_id ''from'' = Some (PStr (envelope_status_value (en_status env)))"
  "transition_payload env s actor reason by_id ''to'' = Some (PStr (envelope_status_value s))"
  "transition_payload env Envelope_SUPERSEDED actor reason (Some x) ''superseded_by_id'' = Some (PStr x)"
  by (auto simp: transition_payload_def map_add_def split: option.splits)

lemma status_value_neq [simp]:
  "envelope_status_value s \<noteq> ''created''" "envelope_status_value s \<noteq> ''activated''"
  by (cases s; simp)+

text \<open>The key of a transition is new, and recorded once the row is written.\<close>

lemma transition_identity:
  assumes "s \<in> ENVELOPE_TRANSITIONS (en_status env)" "s \<noteq> en_status env"
    "snd (transition_event_identity env s) = Some key"
  obtains suffix where "key = envelope_key (en_id env) suffix" "CHR '':'' \<notin> set suffix" "\<not> suffix_seen env suffix"
    "\<And>env'. en_status env' = s \<Longrightarrow> suffix_seen env' suffix"
proof (cases "s = Envelope_ACTIVE")
  case True
  with assms have "key = envelope_key (en_id env) ''activated''" "en_status env = Envelope_APPROVED"
    by (auto simp: transition_event_identity_def envelope_key_def split: if_splits)
  with that [of "''activated''"] show thesis
    using status_value_neq(2) [THEN not_sym] by (simp add: suffix_seen_def True)
next
  case False
  with assms have key: "key = envelope_key (en_id env) (envelope_status_value s)" "s \<in> ENVELOPE_ONCE_ONLY"
    by (auto simp: transition_event_identity_def envelope_key_def split: if_splits)
  then have "\<not> envelope_repeats s" by (auto simp: ENVELOPE_ONCE_ONLY_def envelope_repeats_def)
  from envelope_table.rank_rises [OF assms(1,2) this] have "\<not> suffix_seen env (envelope_status_value s)"
    by (auto simp: suffix_seen_def)
  then show thesis by (intro that [OF key(1)]) (auto simp: suffix_seen_def)
qed

lemma envelope_bounds_simps [simp]:
  "envelope_bounds (env\<lparr>en_status := s\<rparr>) = envelope_bounds env"
  "envelope_bounds (env\<lparr>en_updated_at := n\<rparr>) = envelope_bounds env"
  "envelope_bounds (env\<lparr>en_timestamps := m\<rparr>) = envelope_bounds env"
  "envelope_bounds (env\<lparr>en_superseded_by_id := x\<rparr>) = envelope_bounds env"
  "envelope_bounds (env\<lparr>en_remaining_quantity := r\<rparr>) = envelope_bounds env"
  by (simp_all add: envelope_bounds_def envelope_created_payload_def)

lemma write_transition_plan:
  assumes ok: "envelope_book_ok (envs, events)" and env: "envs i = Some env"
    and plan: "plan_envelope_transition env s actor reason by_id now a c = Envelope_Apply env' e spec"
    and by_id: "s = Envelope_SUPERSEDED \<Longrightarrow> \<exists>x. by_id = Some x \<and> x \<noteq> []"
  shows "envelope_book_ok (apply_envelope_plan (envs, events) (Envelope_Apply env' e spec))"
proof -
  note p = plan_envelope_transition_Apply [OF plan]
  obtain P where P: "project_envelopes events = Ok P" "table_matches P envs"
    using ok by (auto simp: envelope_book_ok_def)
  obtain p0 where p0: "P i = Some p0" "en_id env = i" "reflects p0 env" using table_matchesD [OF P(2) env] .
  obtain t where t: "ENVELOPE_STATUS_EVENTS t = Some s" "t = Event_ENVELOPE_SUPERSEDED \<longleftrightarrow> s = Envelope_SUPERSEDED"
      "e = envelope_event env' t (snd (transition_event_identity env s)) (transition_payload env s actor reason by_id) (Some now)"
    using p(4) by blast
  have tt: "t \<in> ENVELOPE_EVENT_TYPES" "t \<noteq> Event_FILL" "t \<noteq> Event_ENVELOPE_CREATED" "t \<noteq> Event_ENVELOPE_FILL_ATTRIBUTED"
      "t \<noteq> Event_ENVELOPE_ATTRIBUTION_REPAIR_CHECKPOINT"
    using t(1) by (cases t; simp add: ENVELOPE_EVENT_TYPES_def)+
  have id': "en_id env' = i" "en_qty_ceiling env' = en_qty_ceiling env" using p0(2) by (simp_all add: p(1))
  let ?p1 = "touch_envelope_projection (p0\<lparr>ep_status := s, ep_superseded_by_id := en_superseded_by_id env'\<rparr>) (stamped events e)"
  have step: "project_envelope_event (stamped events e) P = Ok (P(i \<mapsto> ?p1))"
  proof -
    have "apply_envelope_status p0 s (stamped events e) = Ok (p0\<lparr>ep_status := s, ep_superseded_by_id := en_superseded_by_id env'\<rparr>)"
      using p0(3) p(2) t by_id by (auto simp: apply_envelope_status_def reflects_def p(1))
    moreover have "valid_envelope_event_identity p0 (stamped events e)"
      using p0(3) by (simp add: valid_envelope_event_identity_def reflects_def t(3) p(1))
    ultimately show ?thesis
      using tt t(1) p0(1) id'(1) by (simp add: project_envelope_event_def t(3))
  qed
  have "reflects ?p1 env'" using p0(3) by (simp add: reflects_def touch_envelope_projection_def p(1))
  then have match: "table_matches (P(i \<mapsto> ?p1)) (envs(i \<mapsto> env'))" using table_matches_upd [OF P(2) id'(1)] by simp
  have rank: "envelope_rank (en_status env) \<le> envelope_rank (en_status env')"
    using envelope_table.rank_mono [OF p(2)] by (simp add: p(1))
  have key: "\<not> has_key events key \<and> key_recorded (envs(i \<mapsto> env')) key" if k: "ev_dedupe_key e = Some key" for key
  proof -
    obtain suffix where x: "key = envelope_key i suffix" "CHR '':'' \<notin> set suffix" "\<not> suffix_seen env suffix"
        "\<And>x. en_status x = s \<Longrightarrow> suffix_seen x suffix"
      using transition_identity [OF p(2,3)] k p0(2) by (auto simp: t(3))
    have "suffix_seen env' suffix" by (rule x(4)) (simp add: p(1))
    with x(1,2) have "key_recorded (envs(i \<mapsto> env')) key"
      unfolding key_recorded_def by (intro exI [of _ i] exI [of _ suffix] exI [of _ env']) simp
    with unseen_key_fresh [OF ok env x(3,2)] x(1) show ?thesis by simp
  qed
  have "envelope_book_ok (envs(i \<mapsto> env'), snd (append_execution_event events e))"
  proof (rule book_append [OF ok P(1) _ step match])
    show "ev_dedupe_key e = None \<or> \<not> has_key events (the (ev_dedupe_key e))"
      using key by (cases "ev_dedupe_key e") auto
    show "0 < en_qty_ceiling x" if "(envs(i \<mapsto> env')) j = Some x" for j x
      using ok env that id'(2) by (auto simp: envelope_book_ok_def split: if_splits)
    show "\<exists>x'. (envs(i \<mapsto> env')) j = Some x' \<and> envelope_rank (en_status x) \<le> envelope_rank (en_status x')"
      if "envs j = Some x" for j x by (rule rows_upd [of envs, OF env rank that])
  qed (use key in blast)
  then show ?thesis by (simp add: apply_envelope_plan_def id'(1))
qed

subsection \<open>Creation\<close>

lemma created_payload_simps [simp]:
  "envelope_created_payload env actor ''sell_intent_id'' = Some (PStr (en_sell_intent_id env))"
  "envelope_created_payload env actor ''qty_ceiling'' = Some (PInt (en_qty_ceiling env))"
  "envelope_created_payload env actor ''supersedes_id'' = Some (opt_text (en_supersedes_id env))"
  by (simp_all add: envelope_created_payload_def)

lemma created_payload_bounds:
  "list_all (\<lambda>k. \<exists>v. envelope_created_payload env actor k = Some v) ENVELOPE_BOUND_KEYS"
  "map (\<lambda>k. (k, the (envelope_created_payload env actor k))) ENVELOPE_BOUND_KEYS = envelope_bounds env"
  by (simp_all add: ENVELOPE_BOUND_KEYS_def envelope_bounds_def envelope_created_payload_def)

lemma write_created:
  assumes ok: "envelope_book_ok (envs, events)" and env: "envs (en_id env) = None" "0 < en_qty_ceiling env"
    "en_status env = Envelope_PENDING" "en_remaining_quantity env = Some (en_qty_ceiling env)"
    "en_superseded_by_id env = None"
  shows "envelope_book_ok (envs(en_id env \<mapsto> env), snd (append_execution_event events (envelope_created_event env actor)))"
proof -
  let ?e = "envelope_created_event env actor" and ?i = "en_id env"
  let ?k = "envelope_key ?i ''created''"
  obtain P where P: "project_envelopes events = Ok P" "table_matches P envs"
    using ok by (auto simp: envelope_book_ok_def)
  have k: "ev_dedupe_key ?e = Some ?k" by (simp add: envelope_created_event_def envelope_key_def)
  let ?p = "\<lparr>ep_envelope_id = ?i, ep_sell_intent_id = en_sell_intent_id env, ep_symbol = en_symbol env,
     ep_session_id = en_session_id env, ep_status = Envelope_PENDING, ep_qty_ceiling = en_qty_ceiling env,
     ep_remaining_quantity = en_qty_ceiling env, ep_supersedes_id = en_supersedes_id env,
     ep_superseded_by_id = None, ep_bound_snapshot = envelope_bounds env,
     ep_folded_event_types = [Event_ENVELOPE_CREATED], ep_up_to_sequence = ev_sequence (stamped events ?e)\<rparr>"
  have c: "created_envelope_projection (stamped events ?e) = Ok ?p"
    using env(2) by (simp add: created_envelope_projection_def envelope_created_event_def created_payload_bounds
      Let_def opt_text_def split: option.splits)
  then have step: "project_envelope_event (stamped events ?e) P = Ok (P(?i \<mapsto> ?p))"
    using table_matches_None [OF P(2)] env(1)
    by (simp add: project_envelope_event_def envelope_created_event_def ENVELOPE_EVENT_TYPES_def)
  have "reflects ?p env" using env by (simp add: reflects_def)
  then have match: "table_matches (P(?i \<mapsto> ?p)) (envs(?i \<mapsto> env))" using table_matches_upd [OF P(2)] by simp
  show ?thesis
  proof (rule book_append [OF ok P(1) _ step match])
    have "envelope_reserved ?k" by (auto simp: envelope_reserved_def)
    then have "has_key events ?k \<Longrightarrow> key_recorded envs ?k"
      using ok by (auto simp: envelope_book_ok_def has_key_def)
    moreover have "\<not> key_recorded envs ?k"
      using env(1) envelope_key_inj [of ?i "''created''"] by (auto simp: key_recorded_def)
    ultimately show "ev_dedupe_key ?e = None \<or> \<not> has_key events (the (ev_dedupe_key ?e))" by (auto simp: k)
    have "key_recorded (envs(?i \<mapsto> env)) ?k"
      unfolding key_recorded_def
      by (intro exI [of _ ?i] exI [of _ "''created''"] exI [of _ env]) (simp add: suffix_seen_def)
    with k show "key_recorded (envs(?i \<mapsto> env)) key" if "ev_dedupe_key ?e = Some key" for key
      using that by simp
  qed (use ok env in \<open>auto simp: envelope_book_ok_def split: if_splits\<close>)
qed

subsection \<open>Fills and other events\<close>

lemma write_other_event:
  assumes ok: "envelope_book_ok (envs, events)" and e: "ev_event_type e \<notin> ENVELOPE_EVENT_TYPES"
    "ev_event_type e \<noteq> Event_FILL \<or> ev_envelope_id e = None"
    "\<And>key. ev_dedupe_key e = Some key \<Longrightarrow> \<not> envelope_reserved key"
  shows "envelope_book_ok (envs, snd (append_execution_event events e))"
proof (cases rule: append_cases [of events e])
  case new
  obtain P where P: "project_envelopes events = Ok P" "table_matches P envs"
    using ok by (auto simp: envelope_book_ok_def)
  have "project_envelope_event (stamped events e) P = Ok P"
    using e(1,2) by (auto simp: project_envelope_event_def Let_def)
  from book_append [OF ok P(1) new(2) this P(2)] ok e(3) show ?thesis
    by (auto simp: envelope_book_ok_def)
next
  case known
  with ok show ?thesis by simp
qed

lemma plan_envelope_fill_Apply:
  assumes "plan_envelope_fill env f now = Fill_Apply env' e q chained"
  shows "0 < fl_quantity f" "e = envelope_fill_event env f now"
    "env' = env\<lparr>en_remaining_quantity := Some (max 0 ((case en_remaining_quantity env of Some r \<Rightarrow> r | None \<Rightarrow> 0)
       - fl_quantity f)), en_updated_at := now\<rparr>"
    "chained = fill_transition env env' f now"
    "en_status env \<notin> {Envelope_PENDING, Envelope_APPROVED}"
    "q \<noteq> None \<longleftrightarrow> fl_authority f = Authority_BROKER_AUTHORITATIVE \<and> (fill_overfill env f \<or> fill_order_overfill f)"
    "fill_overfill env f \<or> fill_order_overfill f \<Longrightarrow>
       fl_authority f = Authority_BROKER_AUTHORITATIVE \<or> fl_canonical_event_exists f"
    "\<And>x. q = Some x \<Longrightarrow> ev_event_type x = Event_QUARANTINED \<and>
       ev_dedupe_key x = Some (overfill_quarantine_dedupe_key (fl_dedupe_key f))"
  using assms
  by (auto simp: plan_envelope_fill_def Let_def overfill_quarantine_event_def envelope_fill_event_def
    split: if_splits sum.splits)

lemma fill_payload_simps:
  "ev_payload (envelope_fill_event env f now) ''remaining_before'' =
     Some (PInt (case en_remaining_quantity env of Some r \<Rightarrow> r | None \<Rightarrow> 0))"
  "ev_payload (envelope_fill_event env f now) ''remaining_after'' =
     Some (PInt (max 0 ((case en_remaining_quantity env of Some r \<Rightarrow> r | None \<Rightarrow> 0) - fl_quantity f)))"
  by (simp_all add: envelope_fill_event_def Let_def map_add_def)

lemma write_fill_event:
  assumes ok: "envelope_book_ok (envs, events)" and env: "envs i = Some env"
    and key: "\<not> envelope_reserved (fl_dedupe_key f)" "\<not> has_key events (fl_dedupe_key f)"
    and plan: "plan_envelope_fill env f now = Fill_Apply env' e q chained"
  shows "envelope_book_ok (envs(i \<mapsto> env'), snd (append_execution_event events e))"
proof -
  note p = plan_envelope_fill_Apply [OF plan]
  obtain P where P: "project_envelopes events = Ok P" "table_matches P envs"
    using ok by (auto simp: envelope_book_ok_def)
  obtain p0 where p0: "P i = Some p0" "en_id env = i" "reflects p0 env" using table_matchesD [OF P(2) env] .
  have ee: "ev_event_type e = Event_FILL" "ev_envelope_id e = Some i" "ev_dedupe_key e = Some (fl_dedupe_key f)"
      "ev_quantity e = Some (fl_quantity f)"
    using p0(2) by (simp_all add: p(2) envelope_fill_event_def Let_def)
  have id': "en_id env' = i" "en_status env' = en_status env" using p0(2) by (simp_all add: p(3))
  let ?p1 = "touch_envelope_projection (p0\<lparr>ep_remaining_quantity := the (en_remaining_quantity env')\<rparr>) (stamped events e)"
  have "valid_envelope_event_identity p0 (stamped events e)"
    using p0(3) by (simp add: valid_envelope_event_identity_def reflects_def p(2) envelope_fill_event_def Let_def)
  moreover have "apply_envelope_debit p0 (stamped events e) =
      Ok (p0\<lparr>ep_remaining_quantity := the (en_remaining_quantity env')\<rparr>)"
    using p0(3) p(1) ee(4) fill_payload_simps [of env f now]
    by (simp add: apply_envelope_debit_def reflects_def p(3) flip: p(2))
  ultimately have step: "project_envelope_event (stamped events e) P = Ok (P(i \<mapsto> ?p1))"
    using ee p0(1) by (simp add: project_envelope_event_def ENVELOPE_EVENT_TYPES_def)
  have "reflects ?p1 env'" using p0(3) by (simp add: reflects_def touch_envelope_projection_def p(3))
  then have match: "table_matches (P(i \<mapsto> ?p1)) (envs(i \<mapsto> env'))" using table_matches_upd [OF P(2) id'(1)] by simp
  show ?thesis
  proof (rule book_append [OF ok P(1) _ step match])
    show "0 < en_qty_ceiling x" if "(envs(i \<mapsto> env')) j = Some x" for j x
      using ok env that by (auto simp: envelope_book_ok_def p(3) split: if_splits)
    show "\<exists>x'. (envs(i \<mapsto> env')) j = Some x' \<and> envelope_rank (en_status x) \<le> envelope_rank (en_status x')"
      if "envs j = Some x" for j x by (rule rows_upd [of envs, OF env _ that]) (simp add: id'(2))
  qed (use key ee(3) in auto)
qed

lemma overfill_key_free: "\<not> envelope_reserved (overfill_quarantine_dedupe_key k)"
  by (auto simp: envelope_reserved_def envelope_key_def overfill_quarantine_dedupe_key_def)

lemma plan_envelope_transition_applies:
  assumes "s \<in> ENVELOPE_TRANSITIONS (en_status env)" "s \<noteq> en_status env"
    "s = Envelope_COMPLETED \<Longrightarrow> c" "s = Envelope_SUPERSEDED \<Longrightarrow> a"
  shows "\<exists>env' e spec. plan_envelope_transition env s actor reason by_id now a c = Envelope_Apply env' e spec"
proof -
  have "s \<noteq> Envelope_PENDING" using assms(1) by (cases "en_status env") auto
  then have "fst (transition_event_identity env s) \<noteq> None"
    by (cases s) (simp_all add: transition_event_identity_def)
  then obtain t k where "transition_event_identity env s = (Some t, k)"
    by (cases "transition_event_identity env s") auto
  with assms show ?thesis by (simp add: plan_envelope_transition_def Let_def)
qed

text \<open>The chained transition is an applicable one, so the store's assertion holds.\<close>

lemma fill_transition_applies:
  assumes "fill_transition env env' f now = Some plan" "en_status env' = en_status env"
  shows "\<exists>s env'' e spec actor reason c. plan = Envelope_Apply env'' e spec \<and>
    plan_envelope_transition env' s actor reason None now False c = plan \<and>
    s = (if fill_overfill env f then Envelope_BREACHED else Envelope_COMPLETED)"
proof (cases "fill_overfill env f")
  case True
  with assms obtain reason where "plan = plan_envelope_transition env' Envelope_BREACHED ''engine'' reason None now False False"
      "en_status env' \<in> {Envelope_ACTIVE, Envelope_FROZEN}"
    by (auto simp: fill_transition_def Let_def split: if_splits)
  with True plan_envelope_transition_applies [of Envelope_BREACHED env' False False "''engine''" reason None now]
  show ?thesis by fastforce
next
  case False
  with assms obtain reason where "plan = plan_envelope_transition env' Envelope_COMPLETED ''engine'' reason None now False True"
      "en_status env' = Envelope_ACTIVE"
    by (auto simp: fill_transition_def Let_def split: if_splits)
  with False plan_envelope_transition_applies [of Envelope_COMPLETED env' True False "''engine''" reason None now]
  show ?thesis by fastforce
qed

lemma write_fill:
  assumes ok: "envelope_book_ok (envs, events)" and env: "envs i = Some env"
    and key: "\<not> envelope_reserved (fl_dedupe_key f)" "\<not> has_key events (fl_dedupe_key f)"
    and plan: "plan_envelope_fill env f now = Fill_Apply env' e q chained"
    and events'': "events'' = (case q of Some x \<Rightarrow> snd (append_execution_event (snd (append_execution_event events e)) x)
      | None \<Rightarrow> snd (append_execution_event events e))"
  shows "envelope_book_ok (case chained of Some plan \<Rightarrow> apply_envelope_plan (envs(i \<mapsto> env'), events'') plan
    | None \<Rightarrow> (envs(i \<mapsto> env'), events''))"
proof -
  note p = plan_envelope_fill_Apply [OF plan]
  have ok1: "envelope_book_ok (envs(i \<mapsto> env'), snd (append_execution_event events e))"
    by (rule write_fill_event [OF ok env key plan])
  have ok2: "envelope_book_ok (envs(i \<mapsto> env'), events'')"
  proof (cases q)
    case (Some x)
    with p(8) write_other_event [OF ok1, of x] overfill_key_free show ?thesis
      by (auto simp: events'' ENVELOPE_EVENT_TYPES_def)
  qed (simp add: events'' ok1)
  show ?thesis
  proof (cases chained)
    case (Some pl)
    then obtain s env'' e' spec actor reason c where c: "pl = Envelope_Apply env'' e' spec"
        "plan_envelope_transition env' s actor reason None now False c = pl"
        "s = (if fill_overfill env f then Envelope_BREACHED else Envelope_COMPLETED)"
      using fill_transition_applies [of env env' f now pl] p(3,4) by auto
    have "s \<noteq> Envelope_SUPERSEDED" by (simp add: c(3))
    with write_transition_plan [OF ok2, of i env', OF _ c(2) [unfolded c(1)]] show ?thesis
      by (simp add: Some c(1))
  qed (simp add: ok2)
qed

subsection \<open>Supersession\<close>

lemma draft_reason_None:
  "envelope_draft_reason env = None \<longleftrightarrow> en_status env = Envelope_PENDING \<and>
     en_remaining_quantity env = Some (en_qty_ceiling env) \<and> en_superseded_by_id env = None \<and> en_supersedes_id env = None"
  by (simp add: envelope_draft_reason_def)

lemma plan_supersede_envelope_Apply:
  assumes "plan_supersede_envelope old successor actor reason now working = Supersede_Apply old' new' es spec"
  obtains approved e1 s1 e2 s2 e3 s3 where
    "en_status old = Envelope_ACTIVE" "envelope_draft_reason successor = None" "en_id successor \<noteq> en_id old"
    "en_sell_intent_id successor = en_sell_intent_id old" "en_symbol successor = en_symbol old"
    "\<not> working_live working"
    "en_qty_ceiling successor \<le> (case en_remaining_quantity old of Some r \<Rightarrow> r | None \<Rightarrow> 0)"
    "plan_envelope_transition (successor\<lparr>en_supersedes_id := Some (en_id old)\<rparr>) Envelope_APPROVED actor reason None
       now False False = Envelope_Apply approved e1 s1"
    "plan_envelope_transition old Envelope_SUPERSEDED actor reason (Some (en_id successor)) now True False =
       Envelope_Apply old' e2 s2"
    "plan_envelope_transition approved Envelope_ACTIVE actor None None now False False = Envelope_Apply new' e3 s3"
    "es = [envelope_created_event (successor\<lparr>en_supersedes_id := Some (en_id old)\<rparr>) actor, e1, e2, e3]"
  using assms
  by (auto simp: plan_supersede_envelope_def Let_def split: if_splits envelope_plan.splits)

text \<open>
  A supersession is the creation of the linked successor followed by three transitions; whatever those
  keep, the supersession keeps.
\<close>

lemma supersede_keeps:
  assumes plan: "plan_supersede_envelope old successor actor reason now working = Supersede_Apply old' new' es spec"
    and old: "envs i = Some old" "en_id old = i" and new: "en_id successor \<noteq> []"
    and created: "\<And>linked. linked = successor\<lparr>en_supersedes_id := Some i\<rparr> \<Longrightarrow> envelope_draft_reason successor = None \<Longrightarrow>
      Q (envs(en_id linked \<mapsto> linked), snd (append_execution_event events (envelope_created_event linked actor)))"
    and transition: "\<And>envs events j env s reason by_id a env' e spec. Q (envs, events) \<Longrightarrow> envs j = Some env \<Longrightarrow>
      plan_envelope_transition env s actor reason by_id now a False = Envelope_Apply env' e spec \<Longrightarrow>
      (s = Envelope_SUPERSEDED \<Longrightarrow> \<exists>x. by_id = Some x \<and> x \<noteq> []) \<Longrightarrow>
      Q (apply_envelope_plan (envs, events) (Envelope_Apply env' e spec))"
  shows "Q (envs(en_id old' \<mapsto> old', en_id new' \<mapsto> new'), append_all events es)"
proof -
  let ?n = "en_id successor" and ?linked = "successor\<lparr>en_supersedes_id := Some i\<rparr>"
  let ?e0 = "envelope_created_event ?linked actor"
  obtain approved e1 s1 e2 s2 e3 s3 where p:
    "envelope_draft_reason successor = None" "?n \<noteq> i"
    "plan_envelope_transition ?linked Envelope_APPROVED actor reason None now False False = Envelope_Apply approved e1 s1"
    "plan_envelope_transition old Envelope_SUPERSEDED actor reason (Some ?n) now True False = Envelope_Apply old' e2 s2"
    "plan_envelope_transition approved Envelope_ACTIVE actor None None now False False = Envelope_Apply new' e3 s3"
    "es = [?e0, e1, e2, e3]"
    using plan_supersede_envelope_Apply [OF plan] unfolding old(2) by metis
  note abc = p(3-5) [THEN plan_envelope_transition_Apply(1)]
  have ids: "en_id old' = i" "en_id approved = ?n" "en_id new' = ?n" by (simp_all add: abc old(2))
  from created [OF refl p(1)] have 1: "Q (envs(?n \<mapsto> ?linked), snd (append_execution_event events ?e0))" by simp
  from transition [OF 1 _ p(3), of ?n] ids(2) have 2: "Q (envs(?n \<mapsto> approved),
      snd (append_execution_event (snd (append_execution_event events ?e0)) e1))"
    by (simp add: apply_envelope_plan_def)
  from transition [OF 2 _ p(4), of i] old(1) p(2) ids(1) new have 3: "Q (envs(?n \<mapsto> approved, i \<mapsto> old'),
      snd (append_execution_event (snd (append_execution_event (snd (append_execution_event events ?e0)) e1)) e2))"
    by (simp add: apply_envelope_plan_def)
  from transition [OF 3 _ p(5), of ?n] p(2) ids(1,3) show ?thesis
    by (simp add: apply_envelope_plan_def append_all_def p(6) fun_upd_twist)
qed

lemma hard_rails_qty: "hard_rails env = Ok x \<Longrightarrow> 0 < en_qty_ceiling env"
  by (auto simp: hard_rails_def Let_def require_def split: if_splits)

lemma write_supersede:
  assumes ok: "envelope_book_ok (envs, events)" and old: "envs i = Some old"
    and new: "envs (en_id successor) = None" "en_id successor \<noteq> []" "hard_rails successor = Ok successor"
    and plan: "plan_supersede_envelope old successor actor reason now working = Supersede_Apply old' new' es spec"
  shows "envelope_book_ok (envs(en_id old' \<mapsto> old', en_id new' \<mapsto> new'), append_all events es)"
proof (rule supersede_keeps [where Q = envelope_book_ok and envs = envs and i = i, OF plan old])
  show "en_id old = i" using ok old by (auto simp: envelope_book_ok_def elim: table_matchesD)
  show "envelope_book_ok (envs(en_id x \<mapsto> x), snd (append_execution_event events (envelope_created_event x actor)))"
    if "x = successor\<lparr>en_supersedes_id := Some i\<rparr>" "envelope_draft_reason successor = None" for x
    using write_created [OF ok, of x actor] that new(1) hard_rails_qty [OF new(3)] by (simp add: draft_reason_None)
qed (use new(2) write_transition_plan in blast)+

theorem envelope_write_keeps_ok: "envelope_write b b' \<Longrightarrow> envelope_book_ok b \<Longrightarrow> envelope_book_ok b'"
proof (induction rule: envelope_write.induct)
  case (create envs env events actor)
  then have "0 < en_qty_ceiling env" by (simp add: hard_rails_qty)
  with create write_created [of envs events env actor] show ?case by (simp add: draft_reason_None)
next
  case (transition envs i env s actor reason now env' e spec events)
  with plan_envelope_transition_Apply(6) [OF transition(2)] write_transition_plan [of envs events i env]
  show ?case by blast
next
  case (complete envs i env actor reason now env' e spec events)
  with write_transition_plan [of envs events i env] show ?case by blast
next
  case (fill envs i env f events now env' e q chained events' events'')
  show ?case
    by (rule write_fill [OF fill.prems fill.hyps(1-4)]) (simp add: fill.hyps(5,6) split: option.split)
next
  case (supersede envs i old successor actor reason now working old' new' es spec events)
  with write_supersede show ?case by blast
next
  case (other e envs events)
  with write_other_event [of envs events e] show ?case by blast
qed

abbreviation envelope_book_start :: "envelope_book \<Rightarrow> bool" where
  "envelope_book_start b \<equiv> b = (Map.empty, [])"

lemma envelope_book_start_ok: "envelope_book_ok (Map.empty, [])"
  by (simp add: envelope_book_ok_def project_envelopes_def table_matches_def)

text \<open>What the projection and the row say in common.\<close>

definition envelope_view :: "execution_envelope \<Rightarrow> envelope_status \<times> int option \<times> string option \<times> string option" where
  "envelope_view env = (en_status env, en_remaining_quantity env, en_supersedes_id env, en_superseded_by_id env)"

definition projection_view :: "envelope_projection \<Rightarrow> envelope_status \<times> int option \<times> string option \<times> string option" where
  "projection_view p = (ep_status p, Some (ep_remaining_quantity p), ep_supersedes_id p, ep_superseded_by_id p)"

interpretation envelope_read_model: read_model envelope_book_start envelope_write envelope_book_ok
  "\<lambda>b i. map_option (\<lambda>env. Ok (Some (envelope_view env))) (fst b i)"
  "\<lambda>b i. bind_res (project_envelopes (snd b)) (\<lambda>P. Ok (map_option projection_view (P i)))"
proof
  fix b i v assume ok: "envelope_book_ok b" and v: "map_option (\<lambda>env. Ok (Some (envelope_view env))) (fst b i) = Some v"
  obtain P where P: "project_envelopes (snd b) = Ok P" "table_matches P (fst b)"
    using ok by (auto simp: envelope_book_ok_def)
  obtain env where env: "fst b i = Some env" "v = Ok (Some (envelope_view env))" using v by auto
  obtain p where "P i = Some p" "reflects p env" using table_matchesD [OF P(2) env(1)] by blast
  then show "bind_res (project_envelopes (snd b)) (\<lambda>P. Ok (map_option projection_view (P i))) = v"
    by (simp add: P(1) env(2) reflects_def envelope_view_def projection_view_def)
qed (auto intro: envelope_write_keeps_ok envelope_book_start_ok)

end
