(* ===== verification/Envelope_Quantity.thy ===== *)
theory Envelope_Quantity
  imports Envelope_Log
begin

text \<open>
  The accounts of an envelope over the runs of the store: the remaining quantity is the ceiling less
  the fills in the log, an overfilled envelope is terminal, and a completed one has nothing left.
\<close>

subsection \<open>The quantity of an envelope\<close>

definition envelope_filled :: "event_log \<Rightarrow> string \<Rightarrow> int" where
  "envelope_filled events i =
     sum_list (map (\<lambda>e. if ev_event_type e = Event_FILL \<and> ev_envelope_id e = Some i
       then (case ev_quantity e of Some q \<Rightarrow> q | None \<Rightarrow> 0) else 0) events)"

definition quantity_row_ok :: "event_log \<Rightarrow> execution_envelope \<Rightarrow> bool" where
  "quantity_row_ok events env \<longleftrightarrow>
     en_remaining_quantity env = Some (max 0 (en_qty_ceiling env - envelope_filled events (en_id env))) \<and>
     (envelope_filled events (en_id env) > en_qty_ceiling env \<longrightarrow> ENVELOPE_TRANSITIONS (en_status env) = {}) \<and>
     (en_status env = Envelope_COMPLETED \<longrightarrow> en_remaining_quantity env = Some 0)"

definition quantity_book_ok :: "envelope_book \<Rightarrow> bool" where
  "quantity_book_ok b \<longleftrightarrow>
     (\<forall>i env. fst b i = Some env \<longrightarrow> en_id env = i \<and> 0 < en_qty_ceiling env \<and> quantity_row_ok (snd b) env) \<and>
     (\<forall>e \<in> set (snd b). ev_event_type e = Event_FILL \<longrightarrow> (\<forall>i. ev_envelope_id e = Some i \<longrightarrow> fst b i \<noteq> None))"

lemma envelope_filled_snoc [simp]:
  "envelope_filled (events @ [e]) i = envelope_filled events i +
     (if ev_event_type e = Event_FILL \<and> ev_envelope_id e = Some i
      then (case ev_quantity e of Some q \<Rightarrow> q | None \<Rightarrow> 0) else 0)"
  by (simp add: envelope_filled_def)

lemma append_not_fill:
  assumes "ev_event_type e \<noteq> Event_FILL \<or> ev_envelope_id e = None"
  shows "envelope_filled (snd (append_execution_event events e)) i = envelope_filled events i"
    and "x \<in> set (snd (append_execution_event events e)) \<Longrightarrow> ev_event_type x = Event_FILL \<Longrightarrow>
      ev_envelope_id x = Some i \<Longrightarrow> x \<in> set events"
  using assms by (cases rule: append_cases [of events e]; auto)+

lemma quantity_row_events:
  assumes "\<And>i. envelope_filled events' i = envelope_filled events i"
  shows "quantity_row_ok events' env = quantity_row_ok events env"
  by (simp add: quantity_row_ok_def assms)

text \<open>Events that are no fills keep the accounts; so does writing a row that keeps its own.\<close>

lemma quantity_event:
  assumes "quantity_book_ok (envs, events)" "ev_event_type e \<noteq> Event_FILL \<or> ev_envelope_id e = None"
  shows "quantity_book_ok (envs, snd (append_execution_event events e))"
  using assms(1) append_not_fill [OF assms(2)] quantity_row_events [OF append_not_fill(1) [OF assms(2)]]
  unfolding quantity_book_ok_def by fastforce

lemma quantity_row:
  assumes "quantity_book_ok (envs, events)" "en_id env = i" "0 < en_qty_ceiling env" "quantity_row_ok events env"
  shows "quantity_book_ok (envs(i \<mapsto> env), events)"
  using assms by (auto simp: quantity_book_ok_def)

lemma quantity_bookD:
  assumes "quantity_book_ok (envs, events)" "envs i = Some env"
  shows "en_id env = i" "0 < en_qty_ceiling env" "quantity_row_ok events env"
  using assms by (auto simp: quantity_book_ok_def)

lemma quantity_transition:
  assumes ok: "quantity_book_ok (envs, events)" and env: "envs i = Some env"
    and plan: "plan_envelope_transition env s actor reason by_id now a c = Envelope_Apply env' e spec"
    and zero: "s = Envelope_COMPLETED \<Longrightarrow> en_remaining_quantity env = Some 0"
  shows "quantity_book_ok (apply_envelope_plan (envs, events) (Envelope_Apply env' e spec))"
proof -
  note p = plan_envelope_transition_Apply [OF plan] and r = quantity_bookD [OF ok env]
  have "quantity_row_ok events env'"
    using r(3) p(2) zero by (auto simp: quantity_row_ok_def p(1))
  then have 1: "quantity_book_ok (envs(i \<mapsto> env'), events)"
    by (intro quantity_row [OF ok]) (use r in \<open>simp_all add: p(1)\<close>)
  obtain t where t: "ENVELOPE_STATUS_EVENTS t = Some s" "ev_event_type e = t" using p(4) by auto
  then have "ev_event_type e \<noteq> Event_FILL" by auto
  with quantity_event [OF 1, of e] r(1) show ?thesis by (simp add: apply_envelope_plan_def p(1))
qed

lemma quantity_created:
  assumes ok: "quantity_book_ok (envs, events)" and env: "envs (en_id env) = None" "0 < en_qty_ceiling env"
    "en_status env = Envelope_PENDING" "en_remaining_quantity env = Some (en_qty_ceiling env)"
  shows "quantity_book_ok (envs(en_id env \<mapsto> env), snd (append_execution_event events (envelope_created_event env actor)))"
proof -
  have "\<not> (ev_event_type e = Event_FILL \<and> ev_envelope_id e = Some (en_id env))" if "e \<in> set events" for e
    using ok env(1) that by (auto simp: quantity_book_ok_def)
  then have "envelope_filled events (en_id env) = 0"
    by (induction events rule: rev_induct) (auto simp: envelope_filled_def)
  with env have "quantity_row_ok events env" by (simp add: quantity_row_ok_def)
  from quantity_event [OF quantity_row [OF ok refl env(2) this], of "envelope_created_event env actor"]
  show ?thesis by (simp add: envelope_created_event_def)
qed

text \<open>The row an envelope has after a fill: the accounts with the fill added.\<close>

definition row_after :: "event_log \<Rightarrow> execution_envelope \<Rightarrow> int \<Rightarrow> execution_envelope \<Rightarrow> bool" where
  "row_after events env q x \<longleftrightarrow>
     (let filled = envelope_filled events (en_id env) + q
      in en_id x = en_id env \<and> en_qty_ceiling x = en_qty_ceiling env \<and>
         en_remaining_quantity x = Some (max 0 (en_qty_ceiling env - filled)) \<and>
         (filled > en_qty_ceiling env \<longrightarrow> ENVELOPE_TRANSITIONS (en_status x) = {}) \<and>
         (en_status x = Envelope_COMPLETED \<longrightarrow> en_remaining_quantity x = Some 0))"

lemma quantity_fill_row:
  assumes ok: "quantity_book_ok (envs, events)" and env: "envs i = Some env" and x: "row_after events env q x"
    and e: "ev_event_type e = Event_FILL" "ev_envelope_id e = Some i" "ev_quantity e = Some q"
    and evs: "\<And>j. envelope_filled evs j = envelope_filled (events @ [e]) j"
      "\<And>y j. y \<in> set evs \<Longrightarrow> ev_event_type y = Event_FILL \<Longrightarrow> ev_envelope_id y = Some j \<Longrightarrow> y \<in> set (events @ [e])"
  shows "quantity_book_ok (envs(i \<mapsto> x), evs)"
proof -
  note r = quantity_bookD [OF ok env]
  have "quantity_row_ok evs x" using x e r(1) by (auto simp: quantity_row_ok_def row_after_def Let_def evs(1))
  moreover have "quantity_row_ok evs y" if "envs j = Some y" "j \<noteq> i" for j y
    using quantity_bookD [OF ok that(1)] that(2) e by (auto simp: quantity_row_ok_def evs(1))
  moreover have "(envs(i \<mapsto> x)) j \<noteq> None" if "y \<in> set evs" "ev_event_type y = Event_FILL" "ev_envelope_id y = Some j" for y j
    using evs(2) [OF that] ok that e(2) by (auto simp: quantity_book_ok_def)
  ultimately show ?thesis using ok x r(1,2) by (auto simp: quantity_book_ok_def row_after_def Let_def)
qed

lemma fill_row_after:
  assumes plan: "plan_envelope_fill env f now = Fill_Apply env' e q chained" and row: "quantity_row_ok events env"
  shows "chained = None \<Longrightarrow> row_after events env (fl_quantity f) env'"
    and "chained = Some (Envelope_Apply env'' e' spec) \<Longrightarrow> row_after events env (fl_quantity f) env'' \<and> ev_event_type e' \<noteq> Event_FILL"
proof -
  note p = plan_envelope_fill_Apply [OF plan]
  let ?F = "envelope_filled events (en_id env)" and ?c = "en_qty_ceiling env"
  have rem: "en_remaining_quantity env = Some (max 0 (?c - ?F))" using row by (simp add: quantity_row_ok_def)
  then have new: "en_remaining_quantity env' = Some (max 0 (?c - (?F + fl_quantity f)))"
    using p(1) by (simp add: p(3))
  have over: "fill_overfill env f \<longleftrightarrow> ?F + fl_quantity f > ?c"
    using p(1) by (auto simp: fill_overfill_def rem)
  show "row_after events env (fl_quantity f) env'" if "chained = None"
    using that new over p(1,4,5) row
    by (cases "en_status env")
      (auto simp: row_after_def Let_def p(3) fill_transition_def quantity_row_ok_def split: if_splits)
  show "row_after events env (fl_quantity f) env'' \<and> ev_event_type e' \<noteq> Event_FILL"
    if c: "chained = Some (Envelope_Apply env'' e' spec)"
  proof -
    obtain s actor reason k where
      plan': "plan_envelope_transition env' s actor reason None now False k = Envelope_Apply env'' e' spec"
        and s: "s = (if fill_overfill env f then Envelope_BREACHED else Envelope_COMPLETED)"
      using fill_transition_applies [of env env' f now] c p(3,4) by auto
    note d = plan_envelope_transition_Apply [OF plan']
    obtain t where "ENVELOPE_STATUS_EVENTS t = Some s" "ev_event_type e' = t" using d(4) by auto
    moreover have "\<not> fill_overfill env f \<Longrightarrow> en_remaining_quantity env' = Some 0"
      using c p(4) by (auto simp: fill_transition_def Let_def split: if_splits)
    ultimately show ?thesis using new over s p(3) by (auto simp: row_after_def Let_def d(1))
  qed
qed

lemma quantity_fill:
  assumes ok: "quantity_book_ok (envs, events)" and env: "envs i = Some env"
    and key: "\<not> has_key events (fl_dedupe_key f)"
    and plan: "plan_envelope_fill env f now = Fill_Apply env' e q chained"
    and events'': "events'' = (case q of Some x \<Rightarrow> snd (append_execution_event (snd (append_execution_event events e)) x)
      | None \<Rightarrow> snd (append_execution_event events e))"
  shows "quantity_book_ok (case chained of Some plan \<Rightarrow> apply_envelope_plan (envs(i \<mapsto> env'), events'') plan
    | None \<Rightarrow> (envs(i \<mapsto> env'), events''))"
proof -
  note p = plan_envelope_fill_Apply [OF plan] and r = quantity_bookD [OF ok env]
  let ?e = "stamped events e"
  have ee: "ev_event_type ?e = Event_FILL" "ev_envelope_id ?e = Some i" "ev_quantity ?e = Some (fl_quantity f)"
    using r(1) by (simp_all add: p(2) envelope_fill_event_def Let_def)
  have "ev_dedupe_key e = Some (fl_dedupe_key f)" by (simp add: p(2) envelope_fill_event_def Let_def)
  then have app: "snd (append_execution_event events e) = events @ [?e]" using append_new [of e events] key by simp
  have "events'' = events @ [?e] \<or>
      (\<exists>x. ev_event_type x \<noteq> Event_FILL \<and> events'' = snd (append_execution_event (events @ [?e]) x))"
  proof (cases q)
    case (Some x)
    with p(8) have "ev_event_type x \<noteq> Event_FILL" by simp
    with Some show ?thesis by (auto simp: events'' app)
  qed (simp add: events'' app)
  then have evs: "envelope_filled events'' j = envelope_filled (events @ [?e]) j"
      "y \<in> set events'' \<Longrightarrow> ev_event_type y = Event_FILL \<Longrightarrow> ev_envelope_id y = Some j \<Longrightarrow> y \<in> set (events @ [?e])" for y j
    using append_not_fill [where events = "events @ [?e]"] by blast+
  show ?thesis
  proof (cases chained)
    case None
    with quantity_fill_row [OF ok env fill_row_after(1) [OF plan r(3)] ee] evs show ?thesis by simp
  next
    case (Some pl)
    then obtain env'' e' spec where pl: "pl = Envelope_Apply env'' e' spec"
      using fill_transition_applies [of env env' f now pl] p(3,4) by auto
    note x = fill_row_after(2) [OF plan r(3) Some [unfolded pl]]
    have "en_id env'' = i" using x r(1) by (auto simp: row_after_def Let_def)
    moreover have "quantity_book_ok (envs(i \<mapsto> env''), snd (append_execution_event events'' e'))"
      by (rule quantity_fill_row [OF ok env _ ee]) (use x append_not_fill [where e = e' and events = events''] evs in auto)
    ultimately show ?thesis by (simp add: Some pl apply_envelope_plan_def)
  qed
qed

lemma quantity_supersede:
  assumes ok: "quantity_book_ok (envs, events)" and old: "envs i = Some old"
    and new: "envs (en_id successor) = None" "en_id successor \<noteq> []" "hard_rails successor = Ok successor"
    and plan: "plan_supersede_envelope old successor actor reason now working = Supersede_Apply old' new' es spec"
  shows "quantity_book_ok (envs(en_id old' \<mapsto> old', en_id new' \<mapsto> new'), append_all events es)"
proof (rule supersede_keeps [where Q = quantity_book_ok and envs = envs and i = i, OF plan old quantity_bookD(1) [OF ok old] new(2)])
  show "quantity_book_ok (envs(en_id x \<mapsto> x), snd (append_execution_event events (envelope_created_event x actor)))"
    if "x = successor\<lparr>en_supersedes_id := Some i\<rparr>" "envelope_draft_reason successor = None" for x
    using quantity_created [OF ok, of x actor] that new(1) hard_rails_qty [OF new(3)] by (simp add: draft_reason_None)
  show "quantity_book_ok (apply_envelope_plan (envs, events) (Envelope_Apply env' e spec))"
    if "quantity_book_ok (envs, events)" "envs j = Some env"
      "plan_envelope_transition env s actor reason by_id now a False = Envelope_Apply env' e spec"
    for envs events j env s reason by_id a env' e spec
    using quantity_transition [OF that] plan_envelope_transition_Apply(5) [OF that(3)] by blast
qed

theorem envelope_write_keeps_quantity: "envelope_write b b' \<Longrightarrow> quantity_book_ok b \<Longrightarrow> quantity_book_ok b'"
proof (induction rule: envelope_write.induct)
  case (create envs env events actor)
  then have "0 < en_qty_ceiling env" by (simp add: hard_rails_qty)
  with create quantity_created [of envs events env actor] show ?case by (simp add: draft_reason_None)
next
  case (transition envs i env s actor reason now env' e spec events)
  with plan_envelope_transition_Apply(5) [OF transition(2)] quantity_transition [of envs events i env]
  show ?case by blast
next
  case (complete envs i env actor reason now env' e spec events)
  with quantity_transition [of envs events i env] show ?case by blast
next
  case (fill envs i env f events now env' e q chained events' events'')
  show ?case
    by (rule quantity_fill [OF fill.prems fill.hyps(1,3,4)]) (simp add: fill.hyps(5,6) split: option.split)
next
  case (supersede envs i old successor actor reason now working old' new' es spec events)
  with quantity_supersede show ?case by blast
next
  case (other e envs events)
  with quantity_event [of envs events e] show ?case by blast
qed

end
