(* ===== verification/Trading_Properties.thy ===== *)
theory Trading_Properties
  imports Order_Log Session_Control Envelope_Quantity
begin

text \<open>
  The properties of the event-sourced trading state: orders, session control and execution envelopes.
\<close>

section \<open>Orders\<close>

text \<open>An order and an open session for the witnesses.\<close>

definition ex_order :: order_row where
  "ex_order = \<lparr>or_id = ''o1'', or_candidate_id = Some ''c1'', or_sell_intent_id = None, or_symbol = ''AAPL'',
     or_side = Side_BUY, or_order_type = Type_LIMIT, or_quantity = 10, or_limit_price = Some FLOAT_ONE,
     or_status = Order_CREATED, or_filled_quantity = 0, or_replaces_order_id = None,
     or_broker_order_id = None, or_session_id = Some ''s1'', or_created_at = 0, or_updated_at = 0,
     or_submitted_at = None, or_filled_at = None, or_canceled_at = None, or_rejected_at = None\<rparr>"

definition ex_session :: session_record where
  "ex_session = \<lparr>se_id = ''s1'', se_session_date = ''2026-01-05'', se_status = Session_ACTIVE,
     se_kill_switch = False, se_buys_paused = False, se_trading_state = State_ACTIVE, se_opened_at = 0,
     se_closed_at = None, se_created_at = 0, se_updated_at = 0\<rparr>"

abbreviation order_reachable :: "order_book \<Rightarrow> bool" where
  "order_reachable s \<equiv> order_write\<^sup>*\<^sup>* (Map.empty, []) s"

lemma order_reachable_ok: "order_reachable s \<Longrightarrow> order_book_ok s"
  by (rule order_read_model.run_inv) simp_all

text \<open>The example order, claimed, and then quarantined after an ambiguous submission.\<close>

definition ex_claim_event :: execution_event where
  "ex_claim_event = stamped [] (order_event ex_order Event_SUBMIT_PENDING Source_ENGINE Authority_LOCAL
     ''submit_pending:o1:0'')"

lemma ex_claimed:
  "order_reachable ([''o1'' \<mapsto> ex_order\<lparr>or_status := Order_SUBMITTING, or_updated_at := 5\<rparr>], [ex_claim_event])"
proof -
  let ?b1 = "([''o1'' \<mapsto> ex_order], [])"
  have 1: "order_write (Map.empty, []) ?b1"
    using order_write.create [of Map.empty ex_order "[]"] by (simp add: ex_order_def)
  let ?ev = "Some (order_event ex_order Event_SUBMIT_PENDING Source_ENGINE Authority_LOCAL ''submit_pending:o1:0'')"
  have p: "project_order [] ex_order = ex_order"
    by (simp add: project_order_def project_order_status_def ex_order_def Let_def)
  obtain spec where claim: "plan_claim_order_for_submission (Some ex_order) (Some ex_session) (Some ex_session) None False
      False 5 = CLAIM_CLAIMED (ex_order\<lparr>or_status := Order_SUBMITTING, or_updated_at := 5\<rparr>) spec"
    by (simp add: plan_claim_order_for_submission_def claim_hold_reason_def buy_claim_hold_reason_def
      session_submission_block_reason_def order_intent_block_reason_def ex_order_def ex_session_def concrete_id_def)
  have ev: "execution_event_for_routine_transition ex_order Order_SUBMITTING None
      (Some (occurrences [] ''o1'' Event_SUBMIT_PENDING)) = Inr ?ev"
    by (simp add: execution_event_for_routine_transition_def routine_event_provenance_def occurrences_def
      ex_order_def show_nat.simps [of 0] digit_char_0)
  have 2: "order_write ?b1 ([''o1'' \<mapsto> ex_order\<lparr>or_status := Order_SUBMITTING, or_updated_at := 5\<rparr>], [ex_claim_event])"
    using order_write.claim [of "[''o1'' \<mapsto> ex_order]" "''o1''" ex_order ex_order "[]", OF _ _ claim ev] p
    by (simp add: record_event_def append_new has_key_def ex_claim_event_def)
  show ?thesis by (rule converse_rtranclp_into_rtranclp [of order_write, OF 1 r_into_rtranclp [of order_write, OF 2]])
qed



text \<open>
  C29. No order is submitted twice: once the log holds a lifecycle event of an order that came after
  the claim (submitted, quarantined by an ambiguous submission, filled, cancelled, rejected, \dots),
  every later claim of that order is skipped, for every session, reason and flag. In particular an
  order in timeout quarantine is never claimed again, whatever it is resolved to.
\<close>

theorem venue_order_is_never_claimed_again:
  assumes "order_reachable (orders, events)" "orders i = Some ord" "e \<in> set events" "ev_order_id e = Some i"
    "LIFECYCLE_EVENT_TO_STATUS (ev_event_type e) = Some s" "s \<notin> {Order_CREATED, Order_SUBMITTING}"
  shows "plan_claim_order_for_submission (Some (project_order events ord)) own current reason quarantined
    uncertain now = CLAIM_SKIPPED"
proof -
  note ok = order_reachable_ok [OF assms(1)]
  have "order_rank s \<le> order_rank (or_status ord)" by (rule status_event_rank [OF ok assms(2-5)])
  moreover have "order_rank s \<noteq> 0" using assms(6) by (cases s) simp_all
  ultimately have "or_status ord \<noteq> Order_CREATED" by auto
  with projected_status(2) [OF ok assms(2)] show ?thesis
    by (simp add: plan_claim_order_for_submission_def)
qed

lemma ex_quarantined:
  "\<exists>ord e. order_reachable ([''o1'' \<mapsto> ord], [ex_claim_event, e]) \<and> ev_order_id e = Some ''o1'' \<and>
     ev_event_type e = Event_TIMEOUT_QUARANTINE"
proof -
  let ?o = "ex_order\<lparr>or_status := Order_SUBMITTING, or_updated_at := 5\<rparr>"
  let ?e = "(order_event ?o Event_TIMEOUT_QUARANTINE Source_ENGINE Authority_LOCAL ''timeout_quarantine:o1'')\<lparr>ev_ts_event := None\<rparr>"
  have p: "project_order [ex_claim_event] ?o = ?o"
    by (simp add: project_order_def project_order_status_def project_order_step_def ex_order_def Let_def
      ex_claim_event_def)
  obtain planned spec where plan: "plan_quarantine_timed_out_order ?o None 6 = Evented_Apply planned spec ?e"
    by (simp add: plan_quarantine_timed_out_order_def plan_transition_order_evented_def plan_transition_order_def
      Let_def ex_order_def concrete_id_def)
  have new: "\<not> has_key [ex_claim_event] ''timeout_quarantine:o1''"
    by (simp add: has_key_def ex_claim_event_def)
  have "order_write ([''o1'' \<mapsto> ?o], [ex_claim_event]) ([''o1'' \<mapsto> planned], record_event [ex_claim_event] (Some ?e))"
    using order_write.quarantine [of "[''o1'' \<mapsto> ?o]" "''o1''" ?o "[ex_claim_event]" None 6 planned spec ?e] plan p
    by simp
  moreover have "record_event [ex_claim_event] (Some ?e) = [ex_claim_event, stamped [ex_claim_event] ?e]"
    using new by (simp add: record_event_def append_new)
  ultimately have "order_reachable ([''o1'' \<mapsto> planned], [ex_claim_event, stamped [ex_claim_event] ?e])"
    using rtranclp.rtrancl_into_rtrancl [of order_write, OF ex_claimed] by metis
  then show ?thesis
    by (intro exI [of _ planned] exI [of _ "stamped [ex_claim_event] ?e"] conjI) (simp_all add: ex_order_def)
qed

theorem venue_order_is_never_claimed_again_witness:
  "\<exists>ord e. ev_event_type e = Event_TIMEOUT_QUARANTINE \<and>
    plan_claim_order_for_submission (Some (project_order [ex_claim_event, e] ord)) (Some ex_session)
      (Some ex_session) None False False 7 = CLAIM_SKIPPED"
proof -
  obtain ord e where e: "order_reachable ([''o1'' \<mapsto> ord], [ex_claim_event, e])" "ev_order_id e = Some ''o1''"
    "ev_event_type e = Event_TIMEOUT_QUARANTINE"
    using ex_quarantined by blast
  from venue_order_is_never_claimed_again [OF e(1) _ _ e(2), of ord Order_TIMEOUT_QUARANTINE] e(3) show ?thesis
    by (intro exI [of _ ord] exI [of _ e]) simp
qed

text \<open>The terms of an order, which no transition touches.\<close>

definition order_terms :: "order_row \<Rightarrow> string \<times> (string option \<times> string option) \<times> (string \<times> order_side \<times> order_type) \<times>
    (int \<times> float64 option) \<times> string option \<times> string option \<times> instant" where
  "order_terms ord = (or_id ord, (or_candidate_id ord, or_sell_intent_id ord),
     (or_symbol ord, or_side ord, or_order_type ord), (or_quantity ord, or_limit_price ord),
     or_replaces_order_id ord, or_session_id ord, or_created_at ord)"

text \<open>
  C30. What an applied order transition may do. The new status is the old one or a target of the
  table; an order enters \<^verbatim>\<open>SUBMITTED\<close> only with a nonblank broker identity; a nonblank
  broker identity is never replaced; the filled quantity does not fall and stays within the order
  quantity; and identity, origin, symbol, side, quantity, price and session stay as they are. A plan
  that is a no-operation asked for nothing new.
\<close>

theorem order_transition_is_guarded:
  assumes "plan_transition_order ord s filled broker actor now = plan" "0 \<le> or_filled_quantity ord"
    "or_filled_quantity ord \<le> or_quantity ord"
  shows "(\<forall>planned spec. plan = Order_Apply planned spec \<longrightarrow>
      or_status planned = s \<and> (s = or_status ord \<or> s \<in> ORDER_TRANSITIONS (or_status ord)) \<and>
      (s = Order_SUBMITTED \<longrightarrow> or_status ord \<noteq> Order_SUBMITTED \<longrightarrow> concrete_id (or_broker_order_id planned)) \<and>
      (concrete_id (or_broker_order_id ord) \<longrightarrow> or_broker_order_id planned = or_broker_order_id ord) \<and>
      or_filled_quantity ord \<le> or_filled_quantity planned \<and> or_filled_quantity planned \<le> or_quantity ord \<and>
      order_terms planned = order_terms ord) \<and>
    (plan = Order_Noop \<longrightarrow> s = or_status ord \<and> filled \<in> {None, Some (or_filled_quantity ord)} \<and>
      broker \<in> {None, or_broker_order_id ord})"
proof (intro conjI allI impI)
  fix planned spec assume "plan = Order_Apply planned spec"
  then have plan: "plan_transition_order ord s filled broker actor now = Order_Apply planned spec" using assms(1) by simp
  note p = plan_transition_order_Apply [OF plan]
  show "or_status planned = s" by (rule p(2))
  show "s = or_status ord \<or> s \<in> ORDER_TRANSITIONS (or_status ord)" using p(3) by blast
  show "concrete_id (or_broker_order_id planned)" if "s = Order_SUBMITTED" "or_status ord \<noteq> Order_SUBMITTED"
    using plan that by (auto simp: plan_transition_order_def Let_def split: if_splits)
  show "or_broker_order_id planned = or_broker_order_id ord" if "concrete_id (or_broker_order_id ord)"
    using plan that by (auto simp: plan_transition_order_def Let_def split: if_splits)
  have f: "or_filled_quantity planned = (case filled of Some q \<Rightarrow> q | None \<Rightarrow> or_filled_quantity ord)"
    "\<And>q. filled = Some q \<Longrightarrow> filled_quantity_reason ord q = None"
    using plan by (auto simp: plan_transition_order_def Let_def split: if_splits option.splits)
  show "or_filled_quantity ord \<le> or_filled_quantity planned" "or_filled_quantity planned \<le> or_quantity ord"
    using f assms(2,3) by (auto simp: filled_quantity_reason_def split: option.splits if_splits)
  have "order_terms (order_timestamp s now x) = order_terms x" for x
    by (cases s) (simp_all add: order_terms_def)
  then show "order_terms planned = order_terms ord"
    using plan by (auto simp: plan_transition_order_def Let_def order_terms_def split: if_splits)
next
  assume "plan = Order_Noop"
  then show "s = or_status ord" "filled \<in> {None, Some (or_filled_quantity ord)}" "broker \<in> {None, or_broker_order_id ord}"
    using assms(1) by (auto simp: plan_transition_order_def Let_def split: if_splits)
qed

theorem order_transition_is_guarded_witness:
  "\<exists>planned spec. plan_transition_order (ex_order\<lparr>or_status := Order_SUBMITTING\<rparr>) Order_SUBMITTED None (Some ''b1'')
      ''system'' 6 = Order_Apply planned spec \<and> concrete_id (or_broker_order_id planned)"
proof -
  let ?o = "ex_order\<lparr>or_status := Order_SUBMITTING\<rparr>"
  have "concrete_id (Some ''b1'')" by code_simp
  then obtain planned spec where plan: "plan_transition_order ?o Order_SUBMITTED None (Some ''b1'') ''system'' 6 =
      Order_Apply planned spec"
    by (auto simp: plan_transition_order_def Let_def ex_order_def concrete_id_def [of None])
  with order_transition_is_guarded [OF plan] show ?thesis by (auto simp: ex_order_def)
qed



section \<open>Session control\<close>

abbreviation session_reachable :: "session_book \<Rightarrow> bool" where
  "session_reachable b \<equiv> session_write\<^sup>*\<^sup>* (Map.empty, []) b"

lemma session_reachable_ok: "session_reachable b \<Longrightarrow> session_book_ok b"
  by (rule session_read_model.run_inv) simp_all

text \<open>
  C32. The trading state of a session is a read model of the event log: after every sequence of
  openings, kill-switch and buys-paused commands, reconcile-driven changes and events of other
  components, folding the two drivers from the log and composing them never fails and gives exactly
  the state in the session row; and the control driver alone gives the state of the two control
  flags.
\<close>

theorem trading_state_is_projection:
  assumes "session_reachable (sessions, events)" "sessions i = Some s"
  shows "current_trading_state events i = Ok (se_trading_state s) \<and>
    control_trading_state events i = Ok (trading_state_of (se_kill_switch s) (se_buys_paused s))"
proof -
  have ok: "session_ok events s" and i: "se_id s = i"
    using session_reachable_ok [OF assms(1)] assms(2) by (auto simp: session_book_ok_def)
  have "control_trading_state events (se_id s) = Ok (trading_state_of (se_kill_switch s) (se_buys_paused s))"
    using ok by (simp add: session_ok_def)
  with session_ok_current [OF ok] show ?thesis by (simp add: i)
qed

lemma ex_session_open: "session_write (Map.empty, []) ([''s1'' \<mapsto> ex_session], [])"
  using session_write.open_session [of Map.empty ex_session "[]"] by (simp add: ex_session_def)

lemma ex_halted:
  "\<exists>s events. session_reachable ([''s1'' \<mapsto> s], events) \<and> se_kill_switch s \<and> se_trading_state s = State_HALTED"
proof -
  obtain s events where s: "set_kill_switch_control ex_session [] True 5 = Ok (s, events)" "se_kill_switch s"
      "se_trading_state s = State_HALTED"
    by (simp add: set_kill_switch_control_def apply_control_change_def control_trading_state_def
      reconcile_trading_state_def driver_trading_state_def trading_state_of_def compose_pair)
  have "session_write ([''s1'' \<mapsto> ex_session], []) ([''s1'' \<mapsto> s], events)"
    using session_write.kill_switch [of "[''s1'' \<mapsto> ex_session]" "''s1''", OF _ s(1)] by simp
  with ex_session_open have "session_reachable ([''s1'' \<mapsto> s], events)"
    by (meson r_into_rtranclp rtranclp.rtrancl_into_rtrancl)
  with s show ?thesis by blast
qed

theorem trading_state_is_projection_witness:
  "\<exists>events. current_trading_state events ''s1'' = Ok State_HALTED"
proof -
  obtain s events where "session_reachable ([''s1'' \<mapsto> s], events)" "se_trading_state s = State_HALTED"
    using ex_halted by blast
  with trading_state_is_projection [of "[''s1'' \<mapsto> s]" events "''s1''" s] show ?thesis by auto
qed

text \<open>
  C33. The kill switch alone halts, and nothing undermines it: in every reachable session the state
  is \<^verbatim>\<open>HALTED\<close> exactly when the kill switch is set, so no reconcile signal halts a session
  or releases a halt, and it is never \<^verbatim>\<open>ACTIVE\<close> while buys are paused. The kill-switch
  command always succeeds and sets exactly that; a reconcile request for \<^verbatim>\<open>HALTED\<close> is
  refused, any other succeeds and leaves both flags alone.
\<close>

theorem kill_switch_alone_halts:
  assumes "session_reachable (sessions, events)" "sessions i = Some s"
  shows "(se_trading_state s = State_HALTED \<longleftrightarrow> se_kill_switch s) \<and>
    (se_buys_paused s \<longrightarrow> se_trading_state s \<noteq> State_ACTIVE) \<and>
    (\<exists>s' events'. set_kill_switch_control s events engaged now = Ok (s', events') \<and>
       (se_trading_state s' = State_HALTED \<longleftrightarrow> engaged) \<and> se_buys_paused s' = se_buys_paused s) \<and>
    set_reconcile_trading_state s events State_HALTED why now = Raise ValueError \<and>
    (to \<noteq> State_HALTED \<longrightarrow> (\<exists>s' events'. set_reconcile_trading_state s events to why now = Ok (s', events') \<and>
       se_kill_switch s' = se_kill_switch s \<and> se_buys_paused s' = se_buys_paused s))"
proof -
  have ok: "session_ok events s" using session_reachable_ok [OF assms(1)] assms(2) by (auto simp: session_book_ok_def)
  obtain r where d: "control_trading_state events (se_id s) = Ok (trading_state_of (se_kill_switch s) (se_buys_paused s))"
      "reconcile_trading_state events (se_id s) = Ok r" "r \<noteq> State_HALTED"
      "se_trading_state s = compose_trading_state [trading_state_of (se_kill_switch s) (se_buys_paused s), r]"
    using ok by (auto simp: session_ok_def)
  have halted: "compose_trading_state [trading_state_of k p, r] = State_HALTED \<longleftrightarrow> k"
    "p \<longrightarrow> compose_trading_state [trading_state_of k p, r] \<noteq> State_ACTIVE" for k p
    using d(3) by (cases r; simp add: compose_pair trading_state_of_def)+
  show ?thesis
    using d(1-3) halted
    by (auto simp: d(4) set_kill_switch_control_def apply_control_change_def Let_def
      set_reconcile_trading_state_def apply_reconcile_state_def reconcile_trading_state_event_def require_def)
qed

theorem kill_switch_alone_halts_witness:
  "\<exists>s events. se_kill_switch s \<and> se_trading_state s = State_HALTED \<and>
    set_reconcile_trading_state s events State_HALTED ''parity'' 9 = Raise ValueError"
proof -
  obtain s events where s: "session_reachable ([''s1'' \<mapsto> s], events)" "se_kill_switch s" "se_trading_state s = State_HALTED"
    using ex_halted by blast
  with kill_switch_alone_halts [OF s(1), of "''s1''" s True 9 "''parity''" State_ACTIVE] show ?thesis by auto
qed

section \<open>Envelopes\<close>

abbreviation envelope_reachable :: "envelope_book \<Rightarrow> bool" where
  "envelope_reachable b \<equiv> envelope_write\<^sup>*\<^sup>* (Map.empty, []) b"


lemma envelope_reachable_quantity: "envelope_reachable b \<Longrightarrow> quantity_book_ok b"
  by (induction rule: rtranclp_induct)
     (auto intro: envelope_write_keeps_quantity simp: quantity_book_ok_def [of "(Map.empty, [])"])

definition ex_envelope :: execution_envelope where
  "ex_envelope = \<lparr>en_id = ''e1'', en_sell_intent_id = ''i1'', en_symbol = ''AAPL'', en_side = Side_SELL,
     en_reduce_only = True, en_qty_ceiling = 10, en_remaining_quantity = Some 10, en_floor_price = FLOAT_ONE,
     en_trail_distance_min = FLOAT_ONE, en_trail_distance_max = FLOAT_ONE, en_participation_rate_cap = FLOAT_ONE,
     en_aggressiveness = [''passive''], en_cooldown_floor_ms = 1000, en_cancel_replace_budget = 5,
     en_max_outstanding_children = 1,
     en_expires_at = \<lparr>dl_at = 1767646800000000, dl_aware = True, dl_isoformat = ''2026-01-05T21:00:00+00:00''\<rparr>,
     en_allowed_session_phases = [REGULAR], en_expiry_disposition = CANCEL_AND_RETURN,
     en_stale_data_disposition = LEAVE_RESTING, en_status = Envelope_PENDING, en_supersedes_id = None,
     en_superseded_by_id = None, en_session_id = Some ''s1'', en_updated_at = 0, en_timestamps = Map.empty\<rparr>"

lemma ex_rails: "hard_rails ex_envelope = Ok ex_envelope"
proof -
  have "float_finite FLOAT_ONE" "0 < float_key FLOAT_ONE" by (code_simp, code_simp)
  moreover have "\<not> is_blank ''AAPL''" "\<not> is_blank ''passive''" by (code_simp, code_simp)
  ultimately show ?thesis by (simp add: hard_rails_def ex_envelope_def Let_def)
qed

lemma ex_created:
  "\<exists>events. envelope_reachable ([''e1'' \<mapsto> ex_envelope], events)"
proof -
  have "envelope_write (Map.empty, []) ([''e1'' \<mapsto> ex_envelope],
      snd (append_execution_event [] (envelope_created_event ex_envelope ''operator'')))"
    using envelope_write.create [of Map.empty ex_envelope "[]" "''operator''"] ex_rails
    by (simp add: draft_reason_None ex_envelope_def)
  then show ?thesis by blast
qed



text \<open>
  C35. The quantity of an envelope is conserved: on every run the remaining quantity is the ceiling
  less the sum of its fills in the log, floored at zero; an envelope whose fills exceed the ceiling is
  in a terminal status, so no further action of the mandate is possible; and a completed envelope has
  nothing left.
\<close>

theorem envelope_quantity_is_conserved:
  assumes "envelope_reachable (envs, events)" "envs i = Some env"
  shows "en_remaining_quantity env = Some (max 0 (en_qty_ceiling env - envelope_filled events i)) \<and>
    (envelope_filled events i > en_qty_ceiling env \<longrightarrow> ENVELOPE_TRANSITIONS (en_status env) = {}) \<and>
    (en_status env = Envelope_COMPLETED \<longrightarrow> en_remaining_quantity env = Some 0)"
proof -
  note q = quantity_bookD [OF envelope_reachable_quantity [OF assms(1)] assms(2)]
  then show ?thesis unfolding quantity_row_ok_def by auto
qed

theorem envelope_quantity_is_conserved_witness:
  "\<exists>events. en_remaining_quantity ex_envelope = Some (max 0 (10 - envelope_filled events ''e1''))"
proof -
  obtain events where "envelope_reachable ([''e1'' \<mapsto> ex_envelope], events)" using ex_created by blast
  from envelope_quantity_is_conserved [OF this, of "''e1''" ex_envelope] show ?thesis by (auto simp: ex_envelope_def)
qed

text \<open>
  C36. A supersession transfers a mandate and never widens it: it applies only to an active envelope
  with no order that may be live, for the same intent and symbol; the successor's ceiling, which is
  also its remaining quantity, is at most what the old envelope has left; the old one ends superseded
  and the new one active, linked to each other; and the four events are the creation, the approval,
  the supersession and the activation, in this order.
\<close>

theorem supersession_conserves_the_mandate:
  assumes "plan_supersede_envelope old successor actor reason now working = Supersede_Apply old' new' es spec"
  shows "en_status old = Envelope_ACTIVE \<and> \<not> working_live working \<and>
    en_sell_intent_id new' = en_sell_intent_id old \<and> en_symbol new' = en_symbol old \<and>
    en_remaining_quantity new' = Some (en_qty_ceiling new') \<and> en_qty_ceiling new' = en_qty_ceiling successor \<and>
    en_qty_ceiling new' \<le> (case en_remaining_quantity old of Some r \<Rightarrow> r | None \<Rightarrow> 0) \<and>
    en_status old' = Envelope_SUPERSEDED \<and> en_status new' = Envelope_ACTIVE \<and>
    en_superseded_by_id old' = Some (en_id new') \<and> en_supersedes_id new' = Some (en_id old') \<and>
    en_remaining_quantity old' = en_remaining_quantity old \<and>
    map ev_event_type es = [Event_ENVELOPE_CREATED, Event_ENVELOPE_APPROVED, Event_ENVELOPE_SUPERSEDED,
      Event_ENVELOPE_ACTIVATED]"
  using assms
proof (rule plan_supersede_envelope_Apply, goal_cases)
  case (1 approved e1 s1 e2 s2 e3 s3)
  note abc = 1(8-10) [THEN plan_envelope_transition_Apply(1)]
  have "ev_event_type e1 = Event_ENVELOPE_APPROVED" "ev_event_type e2 = Event_ENVELOPE_SUPERSEDED"
      "ev_event_type e3 = Event_ENVELOPE_ACTIVATED"
    using 1(8-10) by (auto simp: plan_envelope_transition_def Let_def transition_event_identity_def split: if_splits)
  with 1 abc show ?case by (simp add: draft_reason_None envelope_created_event_def)
qed

theorem supersession_conserves_the_mandate_witness:
  "\<exists>old' new' es spec. plan_supersede_envelope (ex_envelope\<lparr>en_status := Envelope_ACTIVE, en_remaining_quantity := Some 6\<rparr>)
      (ex_envelope\<lparr>en_id := ''e2'', en_qty_ceiling := 6, en_remaining_quantity := Some 6\<rparr>) ''operator'' None 9 None =
      Supersede_Apply old' new' es spec \<and> en_qty_ceiling new' \<le> 6"
proof -
  let ?old = "ex_envelope\<lparr>en_status := Envelope_ACTIVE, en_remaining_quantity := Some 6\<rparr>"
    and ?new = "ex_envelope\<lparr>en_id := ''e2'', en_qty_ceiling := 6, en_remaining_quantity := Some 6\<rparr>"
  obtain old' new' es spec where p: "plan_supersede_envelope ?old ?new ''operator'' None 9 None =
      Supersede_Apply old' new' es spec"
    by (simp add: plan_supersede_envelope_def envelope_draft_reason_def working_live_def Let_def
      plan_envelope_transition_def transition_event_identity_def ex_envelope_def)
  from supersession_conserves_the_mandate [OF p] p show ?thesis by auto
qed

end
