(* ===== verification/Fill_Properties.thy ===== *)
theory Fill_Properties
  imports Fill_Log Trading_Properties
begin

text \<open>
  The properties of fills: that each counts once, that a repetition changes nothing, and that an
  overfill is quarantined for good.
\<close>

section \<open>Fills and positions\<close>

abbreviation fill_reachable :: "fill_book \<Rightarrow> bool" where
  "fill_reachable b \<equiv> fill_write\<^sup>*\<^sup>* \<lparr>fb_orders = Map.empty, fb_fills = [], fb_events = []\<rparr> b"

lemma fill_reachable_ok: "fill_reachable b \<Longrightarrow> fill_book_ok b"
  by (rule fill_read_model.run_inv) simp_all

text \<open>
  C37. Every fill counts once. After every sequence of fill appends, fill events that another boundary
  recorded first, order changes and events of other components, no two rows of the fill table are the
  same fill; every row has its event with the same economics; and the position folded from the log
  exists and its quantity is the signed sum of the rows plus that of the events whose row is still to
  come. The fold returns because the volume is bounded: above \<open>2 ^ 1023\<close> an integer has no float.
\<close>

theorem fills_count_exactly_once:
  assumes "fill_reachable b" "gross_quantity (fb_events b) symbol < 2 ^ 1023"
  shows "(\<exists>p. project_symbol_position ts_init (fb_events b) symbol = Ok p \<and>
      ps_quantity p = rows_total (fb_fills b) symbol + net_quantity (unclaimed (fb_fills b) (fb_events b)) symbol) \<and>
    distinct (map row_key (fb_fills b)) \<and>
    (\<forall>f \<in> set (fb_fills b). \<exists>e \<in> set (fb_events b). event_of_row f e)"
proof -
  note ok = fill_reachable_ok [OF assms(1)]
  have "fills_well_formed (fb_events b)" using ok by (simp add: fill_book_ok_def)
  from project_Ok [OF this assms(2)] obtain p where
    "project_symbol_position ts_init (fb_events b) symbol = Ok p" "ps_quantity p = net_quantity (fb_events b) symbol"
    by blast
  with ok show ?thesis by (auto simp: fill_book_ok_def row_ok_def)
qed

text \<open>A run with one order and one fill of four shares.\<close>

definition ex_request :: fill_request where
  "ex_request = \<lparr>fq_order_id = ''o1'', fq_symbol = ''AAPL'', fq_side = Side_BUY, fq_quantity = 4,
     fq_price = FLOAT_ONE, fq_source_fill_id = Some ''x1'', fq_filled_at = None, fq_session_id = Some ''s1'',
     fq_source = Source_BROKER_REST, fq_authority = Authority_BROKER_AUTHORITATIVE,
     fq_execution_payload = Map.empty\<rparr>"

definition ex_fill :: fill_row where
  "ex_fill = request_fill ex_request ''f1'' 9"

lemma ex_price: "fill_value_reason 4 FLOAT_ONE = None" "fill_value_reason 7 FLOAT_ONE = None"
proof -
  have "float_finite FLOAT_ONE" "0 < float_key FLOAT_ONE" by (code_simp, code_simp)
  then show "fill_value_reason 4 FLOAT_ONE = None" "fill_value_reason 7 FLOAT_ONE = None"
    by (simp_all add: fill_value_reason_def whole_count_reason_def)
qed

lemma position_before_Nil: "position_before ts [] r = Ok (flat_position (fq_symbol r))"
  by (simp add: position_before_def project_symbol_position_def)

lemma empty_log_simps:
  "fill_conflict_payload None None r = None" "event_with_key [] k = None" "order_filled [] i = 0"
  "ps_quantity (flat_position s) = 0"
  by (simp_all add: conflict_payload_None event_with_key_def order_filled_def flat_position_def)

lemma append_fill_first:
  assumes "fill_value_reason (fq_quantity r) (fq_price r) = None" "orders (fq_order_id r) = Some ord"
    "or_symbol ord = fq_symbol r" "or_side ord = fq_side r" "fq_authority r = Authority_BROKER_AUTHORITATIVE"
  shows "append_fill ts price_text r i now \<lparr>fb_orders = orders, fb_fills = [], fb_events = []\<rparr> =
    (case plan_fill_append r ord 0 0 None price_text i now of
       Inl e \<Rightarrow> Inl (StoreExn e)
     | Inr (FILL_REJECT _ e) \<Rightarrow> Inl e
     | Inr (FILL_DUPLICATE _) \<Rightarrow> Inr (Duplicate, \<lparr>fb_orders = orders, fb_fills = [], fb_events = []\<rparr>)
     | Inr (FILL_CONFLICT _) \<Rightarrow> Inr (Conflict, \<lparr>fb_orders = orders, fb_fills = [], fb_events = []\<rparr>)
     | Inr (FILL_APPEND _ f e q) \<Rightarrow> Inr (Appended f, \<lparr>fb_orders = orders, fb_fills = [f],
         fb_events = append_all [] (e # (case q of Some x \<Rightarrow> [x] | None \<Rightarrow> []))\<rparr>))"
  by (simp add: append_fill_eq position_before_Nil empty_log_simps plan_append_fill_def assms
    fill_order_match_reason_def Let_def split: sum.splits fill_plan.splits)

lemma ex_request_simps [simp]:
  "fq_order_id ex_request = ''o1''" "fq_symbol ex_request = ''AAPL''" "fq_side ex_request = Side_BUY"
  "fq_quantity ex_request = 4" "fq_price ex_request = FLOAT_ONE" "fq_source_fill_id ex_request = Some ''x1''"
  "fq_authority ex_request = Authority_BROKER_AUTHORITATIVE" "fq_source ex_request = Source_BROKER_REST"
  "fq_execution_payload ex_request = Map.empty"
  by (simp_all add: ex_request_def)

lemma ex_order_simps [simp]:
  "or_symbol ex_order = ''AAPL''" "or_side ex_order = Side_BUY" "or_quantity ex_order = 10"
  by (simp_all add: ex_order_def)

lemma ex_filled:
  obtains b where "fill_reachable b" "fb_fills b = [ex_fill]" "fb_orders b = [''o1'' \<mapsto> ex_order]"
    "fb_events b = [stamped [] (execution_event_for_fill ex_fill Source_BROKER_REST
       Authority_BROKER_AUTHORITATIVE Map.empty)]"
proof -
  let ?b0 = "\<lparr>fb_orders = Map.empty, fb_fills = [], fb_events = []\<rparr>"
  let ?b1 = "\<lparr>fb_orders = [''o1'' \<mapsto> ex_order], fb_fills = [], fb_events = []\<rparr>"
  let ?e = "execution_event_for_fill ex_fill Source_BROKER_REST Authority_BROKER_AUTHORITATIVE Map.empty"
  let ?b2 = "?b1\<lparr>fb_fills := [ex_fill], fb_events := [stamped [] ?e]\<rparr>"
  have 1: "fill_write ?b0 ?b1"
    using fill_write.orders [of "[''o1'' \<mapsto> ex_order]" ?b0] by (simp add: plain_orders_def plain_id_def)
  have a: "append_fill (\<lambda>_. 0) (\<lambda>_. []) ex_request ''f1'' 9 ?b1 = Inr (Appended ex_fill, ?b2)"
    by (subst append_fill_first [where ord = ex_order])
      (simp_all add: ex_price plan_fill_append_def Let_def would_go_negative_def ex_fill_def append_execution_event_def)
  have 2: "fill_write ?b1 ?b2"
    by (rule fill_write.append [OF a]) (simp_all add: ex_request_def plain_source_def)
  have "fill_reachable ?b2"
    by (rule converse_rtranclp_into_rtranclp [of fill_write, OF 1 r_into_rtranclp [of fill_write, OF 2]])
  then show ?thesis by (rule that) simp_all
qed

lemma ex_filled_volume:
  "gross_quantity [stamped [] (execution_event_for_fill ex_fill s a pl)] symbol < 2 ^ 1023"
  by (simp add: execution_event_for_fill_def ex_fill_def request_fill_def ex_request_def event_quantity_def)

theorem fills_count_exactly_once_witness:
  "\<exists>p events. project_symbol_position (\<lambda>_. 0) events ''AAPL'' = Ok p \<and> ps_quantity p = 4"
proof (rule ex_filled)
  fix b assume b: "fill_reachable b" "fb_fills b = [ex_fill]"
    "fb_events b = [stamped [] (execution_event_for_fill ex_fill Source_BROKER_REST Authority_BROKER_AUTHORITATIVE Map.empty)]"
  have "unclaimed (fb_fills b) (fb_events b) = []"
    by (simp add: b(2,3) unclaimed_def claimed_def execution_event_for_fill_def row_key_def)
  moreover have "rows_total (fb_fills b) ''AAPL'' = 4"
    by (simp add: b(2) rows_total_def ex_fill_def request_fill_def ex_request_def fill_sign_def)
  ultimately show ?thesis
    using fills_count_exactly_once [OF b(1), of "''AAPL''" "\<lambda>_. 0"] ex_filled_volume b(3) by auto
qed

text \<open>
  C38. A fill that has its row is never applied again: a request with the same order and venue id
  changes nothing, neither row nor event nor position, and the answer is a duplicate when order,
  symbol, side, quantity and price are those of the row, and a conflict otherwise, whatever time,
  session, source and authority it carries.
\<close>

theorem repeated_fill_changes_nothing:
  assumes "fill_reachable b" "volume_bounded (fb_events b)" "f \<in> set (fb_fills b)"
    "fr_order_id f = fq_order_id r" "fr_source_fill_id f = fq_source_fill_id r" "fq_source_fill_id r \<noteq> None"
    "fill_value_reason (fq_quantity r) (fq_price r) = None" "fb_orders b (fq_order_id r) = Some ord"
  shows "append_fill ts_init price_text r i now b =
    Inr (if (fq_symbol r, fq_side r, fq_quantity r, fq_price r) = (fr_symbol f, fr_side f, fr_quantity f, fr_price f)
         then Duplicate else Conflict, b)"
proof -
  have same: "same_fill r f" using assms(4-6) by (simp add: same_fill_def)
  have "request_material r = fill_economic_material f \<longleftrightarrow>
      (fq_symbol r, fq_side r, fq_quantity r, fq_price r) = (fr_symbol f, fr_side f, fr_quantity f, fr_price f)"
    using assms(4) by (auto simp: request_material_def fill_economic_material_def)
  with append_known_row [OF fill_reachable_ok [OF assms(1)] assms(2,3) same assms(7,8)] show ?thesis by simp
qed

theorem repeated_fill_changes_nothing_witness:
  "\<exists>b. fill_reachable b \<and> fb_fills b \<noteq> [] \<and>
    append_fill (\<lambda>_. 0) (\<lambda>_. []) ex_request ''f2'' 11 b = Inr (Duplicate, b) \<and>
    append_fill (\<lambda>_. 0) (\<lambda>_. []) (ex_request\<lparr>fq_quantity := 7\<rparr>) ''f3'' 12 b = Inr (Conflict, b)"
proof (rule ex_filled)
  fix b assume b: "fill_reachable b" "fb_fills b = [ex_fill]" "fb_orders b = [''o1'' \<mapsto> ex_order]"
    "fb_events b = [stamped [] (execution_event_for_fill ex_fill Source_BROKER_REST Authority_BROKER_AUTHORITATIVE Map.empty)]"
  have v: "volume_bounded (fb_events b)" using ex_filled_volume by (simp add: volume_bounded_def b(4))
  have f: "ex_fill \<in> set (fb_fills b)" by (simp add: b(2))
  note r = repeated_fill_changes_nothing [OF b(1) v f]
  have "append_fill (\<lambda>_. 0) (\<lambda>_. []) ex_request ''f2'' 11 b = Inr (Duplicate, b)"
    by (subst r [where ord = ex_order]) (simp_all add: b ex_fill_def request_fill_def ex_request_def ex_price)
  moreover have "append_fill (\<lambda>_. 0) (\<lambda>_. []) (ex_request\<lparr>fq_quantity := 7\<rparr>) ''f3'' 12 b = Inr (Conflict, b)"
    by (subst r [where ord = ex_order]) (simp_all add: b ex_fill_def request_fill_def ex_request_def ex_price)
  ultimately show ?thesis using b(1,2) by auto
qed

text \<open>
  C39. An overfill is quarantined for good: when a fill of the broker exceeds its order or the
  position, the append records it, and in every later state the symbol is among the quarantined
  symbols of the log, whatever was bought back since; and while it is, no buy order of the symbol gets
  its submission claim.
\<close>

theorem overfill_quarantines_for_good:
  assumes "fill_reachable b" "append_fill ts_init price_text r i now b = Inr (Appended f, b')"
    "position_before ts_init (fb_events b) r = Ok p" "fb_orders b (fq_order_id r) = Some ord" "overfills b r ord p"
    "fq_source_fill_id r = Some s" "plain_source s" "\<forall>g \<in> set (fb_fills b). fr_id g \<noteq> i"
    "fill_write\<^sup>*\<^sup>* b' b''" "volume_bounded (fb_events b'')"
  shows "\<exists>Q. quarantined_symbols ts_init (fb_events b'') = Ok Q \<and> fq_symbol r \<in> Q \<and>
    (or_symbol buy = fq_symbol r \<longrightarrow> or_side buy = Side_BUY \<longrightarrow>
     plan_claim_order_for_submission (Some buy) own current reason (or_symbol buy \<in> Q) uncertain t \<noteq>
       CLAIM_CLAIMED planned spec)"
proof -
  have "fill_write b b'" by (rule fill_write.append [OF assms(2)]) (use assms(6-8) in simp_all)
  with assms(1,9) have "fill_reachable b''" by (meson rtranclp.rtrancl_into_rtrancl rtranclp_trans)
  then have wf: "fills_well_formed (fb_events b'')" using fill_reachable_ok by (simp add: fill_book_ok_def)
  have "set (fb_events b') \<subseteq> set (fb_events b'')"
    using assms(9) by (induction rule: rtranclp_induct) (auto dest: fill_write_grows)
  with overfill_is_recorded [OF assms(2-5)] assms(6) obtain e where
    "e \<in> set (fb_events b'')" "ev_event_type e = Event_QUARANTINED" "ev_symbol e = Some (fq_symbol r)"
    by auto
  then have "fq_symbol r \<in> set (event_symbols Event_QUARANTINED (fb_events b''))" by (rule event_symbols_mem)
  with quarantined_symbols_Ok [OF wf assms(10), of ts_init] obtain Q where
    "quarantined_symbols ts_init (fb_events b'') = Ok Q" "fq_symbol r \<in> Q"
    by blast
  then show ?thesis
    by (auto simp: plan_claim_order_for_submission_def claim_hold_reason_def Let_def split: option.splits if_splits)
qed

theorem overfill_quarantines_for_good_witness:
  "\<exists>f b' Q. append_fill (\<lambda>_. 0) (\<lambda>_. []) (ex_request\<lparr>fq_quantity := 7, fq_source_fill_id := Some ''x2''\<rparr>) ''f2'' 11
      \<lparr>fb_orders = [''o1'' \<mapsto> ex_order\<lparr>or_quantity := 5\<rparr>], fb_fills = [], fb_events = []\<rparr> = Inr (Appended f, b') \<and>
    quarantined_symbols (\<lambda>_. 0) (fb_events b') = Ok Q \<and> ''AAPL'' \<in> Q"
proof -
  let ?ord = "ex_order\<lparr>or_quantity := 5\<rparr>" and ?r = "ex_request\<lparr>fq_quantity := 7, fq_source_fill_id := Some ''x2''\<rparr>"
  let ?b = "\<lparr>fb_orders = [''o1'' \<mapsto> ?ord], fb_fills = [], fb_events = []\<rparr>"
  have reach: "fill_reachable ?b"
    using fill_write.orders [of "[''o1'' \<mapsto> ?ord]" "\<lparr>fb_orders = Map.empty, fb_fills = [], fb_events = []\<rparr>"]
    by (simp add: plain_orders_def plain_id_def r_into_rtranclp)
  have p: "position_before (\<lambda>_. 0) (fb_events ?b) ?r = Ok (flat_position ''AAPL'')"
    by (simp add: position_before_Nil ex_request_def)
  obtain f b' where a: "append_fill (\<lambda>_. 0) (\<lambda>_. []) ?r ''f2'' 11 ?b = Inr (Appended f, b')"
    and v: "volume_bounded (fb_events b')"
    by (subst (asm) append_fill_first [where ord = ?ord])
      (simp_all add: ex_price plan_fill_append_def Let_def would_go_negative_def request_fill_def
        execution_event_for_fill_def overfill_quarantine_event_def overfill_quarantine_conflict_reason_def
        append_execution_event_def volume_bounded_def fill_of_symbol_def event_quantity_def)
  have "overfills ?b ?r ?ord (flat_position ''AAPL'')" by (simp add: overfills_def empty_log_simps ex_request_def)
  from overfill_quarantines_for_good [OF reach a p _ this, of "''x2''" b' ex_order None None None False 0 ex_order "draft_spec []"] v
  show ?thesis using a by (auto simp: ex_request_def plain_source_def)
qed

end
