(* ===== verification/Durable_Codec.thy ===== *)
theory Durable_Codec
  imports Texts Identity Values "HOL-Library.While_Combinator"
begin

text \<open>
  The durable atoms of \<^verbatim>\<open>app/execution_core/durable_codec.py\<close>: the schema of the
  atoms, their validation, the encoder and the decoder, and that the two are inverse in both
  directions, so a value has exactly one atom.

  \<^verbatim>\<open>unicodedata.normalize("NFC", s)\<close> is the argument \<open>nfc\<close>: the tables of the Unicode
  database are data, and no proof needs to know them. A \<^verbatim>\<open>Decimal\<close> is kept by its exact
  triple here, because that is what an atom persists. CPython refuses to convert between integers
  and decimal texts of more than 4300 digits, and its decimals have bounded exponents.
\<close>

subsection \<open>Values\<close>

datatype identity_class =
    Class_BrokerId | Class_EnvironmentId | Class_AccountId | Class_SymbolId | Class_OrderId
   | Class_RootFillId | Class_SourceEventId | Class_ApplicationGenerationId | Class_EffectId
   | Class_RequestOccurrenceId | Class_ClientOrderId | Class_ClaimOccurrenceId | Class_ClosureId
   | Class_VenueInputId | Class_VenueObservationId | Class_ActorId | Class_EvidenceReference
   | Class_MandateId | Class_AcquisitionMandateId | Class_EmergencyRecoveryCompatibilityId
   | Class_MarketDataSourceId | Class_MarketOccurrenceId | Class_MarketStreamGenerationId
   | Class_AcquisitionGenerationId | Class_AuthorityInputId | Class_QueryClaimId
   | Class_SessionId | Class_EmergencyGrantId | Class_ManualFlattenId

fun identity_tag :: "identity_class \<Rightarrow> string" where
  "identity_tag Class_BrokerId = ''broker_id''"
| "identity_tag Class_EnvironmentId = ''environment_id''"
| "identity_tag Class_AccountId = ''account_id''"
| "identity_tag Class_SymbolId = ''symbol_id''"
| "identity_tag Class_OrderId = ''order_id''"
| "identity_tag Class_RootFillId = ''root_fill_id''"
| "identity_tag Class_SourceEventId = ''source_event_id''"
| "identity_tag Class_ApplicationGenerationId = ''application_generation_id''"
| "identity_tag Class_EffectId = ''effect_id''"
| "identity_tag Class_RequestOccurrenceId = ''request_occurrence_id''"
| "identity_tag Class_ClientOrderId = ''client_order_id''"
| "identity_tag Class_ClaimOccurrenceId = ''claim_occurrence_id''"
| "identity_tag Class_ClosureId = ''closure_id''"
| "identity_tag Class_VenueInputId = ''venue_input_id''"
| "identity_tag Class_VenueObservationId = ''venue_observation_id''"
| "identity_tag Class_ActorId = ''actor_id''"
| "identity_tag Class_EvidenceReference = ''evidence_reference''"
| "identity_tag Class_MandateId = ''mandate_id''"
| "identity_tag Class_AcquisitionMandateId = ''acquisition_mandate_id''"
| "identity_tag Class_EmergencyRecoveryCompatibilityId = ''emergency_recovery_compatibility_id''"
| "identity_tag Class_MarketDataSourceId = ''market_data_source_id''"
| "identity_tag Class_MarketOccurrenceId = ''market_occurrence_id''"
| "identity_tag Class_MarketStreamGenerationId = ''market_stream_generation_id''"
| "identity_tag Class_AcquisitionGenerationId = ''acquisition_generation_id''"
| "identity_tag Class_AuthorityInputId = ''authority_input_id''"
| "identity_tag Class_QueryClaimId = ''query_claim_id''"
| "identity_tag Class_SessionId = ''session_id''"
| "identity_tag Class_EmergencyGrantId = ''emergency_grant_id''"
| "identity_tag Class_ManualFlattenId = ''manual_flatten_id''"

definition IDENTITY_CLASSES :: "identity_class list" where
  "IDENTITY_CLASSES = [Class_BrokerId, Class_EnvironmentId, Class_AccountId, Class_SymbolId,
     Class_OrderId, Class_RootFillId, Class_SourceEventId, Class_ApplicationGenerationId,
     Class_EffectId, Class_RequestOccurrenceId, Class_ClientOrderId, Class_ClaimOccurrenceId,
     Class_ClosureId, Class_VenueInputId, Class_VenueObservationId, Class_ActorId,
     Class_EvidenceReference, Class_MandateId, Class_AcquisitionMandateId,
     Class_EmergencyRecoveryCompatibilityId, Class_MarketDataSourceId, Class_MarketOccurrenceId,
     Class_MarketStreamGenerationId, Class_AcquisitionGenerationId, Class_AuthorityInputId,
     Class_QueryClaimId, Class_SessionId, Class_EmergencyGrantId, Class_ManualFlattenId]"

definition identity_class_of_tag :: "string \<Rightarrow> identity_class option" where
  "identity_class_of_tag t = find (\<lambda>c. identity_tag c = t) IDENTITY_CLASSES"

definition sealed_class :: "identity_class \<Rightarrow> bool" where
  "sealed_class c \<longleftrightarrow> c \<in> {Class_MarketOccurrenceId, Class_MarketStreamGenerationId, Class_AcquisitionGenerationId}"

text \<open>The constructor of an identity class; a sealed class also wants the text of a digest.\<close>

definition construct_identity :: "identity_class \<Rightarrow> string \<Rightarrow> string res" where
  "construct_identity c s =
     bind_res (exact_identity id s) (\<lambda>s. require (sealed_class c \<longrightarrow> is_lowercase_hex64 s) ValueError (Ok s))"

text \<open>\<^verbatim>\<open>Decimal.as_tuple()\<close> of a finite decimal, and the decimal of such a triple.\<close>

record dec =
  dec_sign :: nat
  dec_digits :: "nat list"
  dec_exponent :: int

definition dec_bounds :: "nat list \<Rightarrow> int \<Rightarrow> bool" where
  "dec_bounds digits e \<longleftrightarrow>
     - 1999999999999999997 \<le> e \<and> e + int (length digits) - 1 \<le> 999999999999999999 \<and>
     int (length digits) \<le> 999999999999999999"

definition mk_dec :: "nat \<Rightarrow> nat list \<Rightarrow> int \<Rightarrow> dec res" where
  "mk_dec sign digits e =
     require (- (2 ^ 63) \<le> e \<and> e < 2 ^ 63) OverflowError
     (require (dec_bounds digits e) InvalidOperation
       (Ok \<lparr>dec_sign = sign, dec_digits = digits, dec_exponent = e\<rparr>))"

text \<open>What holds of every finite decimal: a sign bit and a digit string without leading zeros.\<close>

definition dec_ok :: "dec \<Rightarrow> bool" where
  "dec_ok d \<longleftrightarrow> dec_sign d < 2 \<and> dec_digits d \<noteq> [] \<and> (\<forall>x \<in> set (dec_digits d). x < 10) \<and>
     (hd (dec_digits d) = 0 \<longrightarrow> length (dec_digits d) = 1) \<and> dec_bounds (dec_digits d) (dec_exponent d)"

definition dec_positive :: "dec \<Rightarrow> bool" where
  "dec_positive d \<longleftrightarrow> dec_sign d = 0 \<and> (\<exists>x \<in> set (dec_digits d). x \<noteq> 0)"

datatype m1_value =
    M1_Quantity quantity
  | M1_PriceUnits price_units
  | M1_PriceScale dec
  | M1_TickMetadata price_units dec
  | M1_ReportedPrice price_units dec "price_units \<times> dec"
  | M1_ExactBasis exact_basis
  | M1_Identity identity_class string
  | M1_ExecutionFactKey execution_fact_key
  | M1_RootFillKey root_fill_key
  | M1_VenueLegKey venue_leg_key

definition mk_m1_scale :: "dec \<Rightarrow> dec res" where
  "mk_m1_scale d = require (dec_positive d) ValueError (Ok d)"

definition mk_m1_tick :: "price_units \<Rightarrow> dec \<Rightarrow> (price_units \<times> dec) res" where
  "mk_m1_tick units scale = require (units_value units > 0) ValueError (Ok (units, scale))"

text \<open>A value that its owning constructors built.\<close>

definition scale_ok :: "dec \<Rightarrow> bool" where
  "scale_ok d \<longleftrightarrow> dec_ok d \<and> dec_positive d"

definition identity_ok :: "identity_class \<Rightarrow> string \<Rightarrow> bool" where
  "identity_ok c s \<longleftrightarrow> construct_identity c s = Ok s"

fun m1_ok :: "m1_value \<Rightarrow> bool" where
  "m1_ok (M1_Quantity q) \<longleftrightarrow> 0 \<le> quantity_value q"
| "m1_ok (M1_PriceUnits u) \<longleftrightarrow> True"
| "m1_ok (M1_PriceScale d) \<longleftrightarrow> scale_ok d"
| "m1_ok (M1_TickMetadata u d) \<longleftrightarrow> units_value u > 0 \<and> scale_ok d"
| "m1_ok (M1_ReportedPrice u d t) \<longleftrightarrow> scale_ok d \<and> units_value (fst t) > 0 \<and> scale_ok (snd t)"
| "m1_ok (M1_ExactBasis b) \<longleftrightarrow> 0 \<le> basis_value b"
| "m1_ok (M1_Identity c s) \<longleftrightarrow> identity_ok c s"
| "m1_ok (M1_ExecutionFactKey k) \<longleftrightarrow> identity_ok Class_BrokerId (broker_value (fk_broker k)) \<and>
     identity_ok Class_EnvironmentId (environment_value (fk_environment k)) \<and>
     identity_ok Class_AccountId (account_value (fk_account k)) \<and>
     identity_ok Class_SourceEventId (source_event_value (fk_source_event_id k))"
| "m1_ok (M1_RootFillKey k) \<longleftrightarrow> identity_ok Class_BrokerId (broker_value (rk_broker k)) \<and>
     identity_ok Class_EnvironmentId (environment_value (rk_environment k)) \<and>
     identity_ok Class_AccountId (account_value (rk_account k)) \<and>
     identity_ok Class_RootFillId (root_fill_value (rk_root_fill_id k))"
| "m1_ok (M1_VenueLegKey k) \<longleftrightarrow> identity_ok Class_BrokerId (broker_value (lk_broker k)) \<and>
     identity_ok Class_EnvironmentId (environment_value (lk_environment k)) \<and>
     identity_ok Class_AccountId (account_value (lk_account k)) \<and>
     identity_ok Class_OrderId (order_value (lk_order_id k))"

subsection \<open>Atoms\<close>

datatype durable_atom = DurableAtom (contract_version: string) (type_tag: string) (fields_of: "durable_field list")
  and durable_field = Field_text string | Field_atom durable_atom

datatype field_spec = Spec_text string | Spec_atom string

definition COMPOSITE_SPECS :: "(string \<times> field_spec list) list" where
  "COMPOSITE_SPECS =
    [(''quantity'', [Spec_text ''nonneg'']),
     (''price_units'', [Spec_text ''signed'']),
     (''_decimal'', [Spec_text ''dec_sign'', Spec_text ''dec_digits'', Spec_text ''dec_exponent'']),
     (''_fraction'', [Spec_text ''frac_num'', Spec_text ''frac_den'']),
     (''price_scale'', [Spec_atom ''_decimal'']),
     (''tick_metadata'', [Spec_atom ''price_units'', Spec_atom ''price_scale'']),
     (''reported_price'', [Spec_atom ''price_units'', Spec_atom ''price_scale'', Spec_atom ''tick_metadata'']),
     (''exact_basis'', [Spec_atom ''_fraction'']),
     (''execution_fact_key'', [Spec_atom ''broker_id'', Spec_atom ''environment_id'',
        Spec_atom ''account_id'', Spec_atom ''source_event_id'']),
     (''root_fill_key'', [Spec_atom ''broker_id'', Spec_atom ''environment_id'',
        Spec_atom ''account_id'', Spec_atom ''root_fill_id'']),
     (''venue_leg_key'', [Spec_atom ''broker_id'', Spec_atom ''environment_id'',
        Spec_atom ''account_id'', Spec_atom ''order_id''])]"

definition FIELD_SPECS :: "string \<Rightarrow> field_spec list option" where
  "FIELD_SPECS t =
     map_of (COMPOSITE_SPECS @ map (\<lambda>c. (identity_tag c, [Spec_text ''identity''])) IDENTITY_CLASSES) t"

subsection \<open>Leaf texts\<close>

definition is_canonical_int_text :: "bool \<Rightarrow> string \<Rightarrow> bool res" where
  "is_canonical_int_text allow_negative v =
     (if v = [] then Ok False
      else
        let negative = (hd v = CHR ''-'');
            digits = (if negative then tl v else v)
        in if negative \<and> \<not> allow_negative then Ok False
           else if negative \<and> digits = ''0'' then Ok False
           else if \<not> list_all is_digit digits then Ok False
           else if length digits = 1 then Ok True
           else (case digits of [] \<Rightarrow> Raise IndexError | d # _ \<Rightarrow> Ok (d \<noteq> CHR ''0'')))"

text \<open>The texts it accepts.\<close>

definition canonical_int_text :: "bool \<Rightarrow> string \<Rightarrow> bool" where
  "canonical_int_text allow_negative v =
     (case v of
        [] \<Rightarrow> False
      | c # rest \<Rightarrow>
          if c = CHR ''-''
          then allow_negative \<and> rest \<noteq> ''0'' \<and> decimal_text rest
          else decimal_text v)"

text \<open>Control characters are single bytes in UTF-8.\<close>

definition is_canonical_identity_text :: "(string \<Rightarrow> string) \<Rightarrow> string \<Rightarrow> bool" where
  "is_canonical_identity_text nfc v \<longleftrightarrow>
     \<not> is_blank v \<and> (\<forall>c \<in> set v. \<not> ((of_char c :: nat) < 0x20 \<or> (of_char c :: nat) = 0x7F)) \<and> nfc v = v"

text \<open>The loop of Euclid's algorithm; \<open>None\<close> would be a loop that never ends.\<close>

definition euclid_loop :: "nat \<Rightarrow> nat \<Rightarrow> (nat \<times> nat) option" where
  "euclid_loop left right = while_option (\<lambda>(left, right). right \<noteq> 0) (\<lambda>(left, right). (right, left mod right)) (left, right)"

definition is_reduced_ratio :: "int \<Rightarrow> nat \<Rightarrow> bool" where
  "is_reduced_ratio numerator denominator \<longleftrightarrow>
     (case euclid_loop (nat \<bar>numerator\<bar>) denominator of Some (left, right) \<Rightarrow> left = 1 | None \<Rightarrow> False)"

definition validate_leaf_text :: "(string \<Rightarrow> string) \<Rightarrow> string \<Rightarrow> string \<Rightarrow> unit res" where
  "validate_leaf_text nfc kind v =
     bind_res
       (if kind = ''nonneg'' then is_canonical_int_text False v
        else if kind = ''signed'' then is_canonical_int_text True v
        else if kind = ''dec_sign'' then Ok (v = ''0'' \<or> v = ''1'')
        else if kind = ''dec_digits'' then is_canonical_int_text False v
        else if kind = ''dec_exponent'' then is_canonical_int_text True v
        else if kind = ''frac_num'' then is_canonical_int_text True v
        else if kind = ''frac_den''
        then bind_res (is_canonical_int_text False v) (\<lambda>canonical. Ok (canonical \<and> v \<noteq> ''0''))
        else Ok (is_canonical_identity_text nfc v))
       (\<lambda>canonical. require canonical ValueError (Ok ()))"

text \<open>\<^verbatim>\<open>int(s)\<close> on a canonical text, and \<^verbatim>\<open>str(n)\<close>.\<close>

definition INT_MAX_STR_DIGITS :: nat where
  "INT_MAX_STR_DIGITS = 4300"

definition int_of_text :: "string \<Rightarrow> int res" where
  "int_of_text s =
     (let digits = (case s of c # rest \<Rightarrow> if c = CHR ''-'' then rest else s | [] \<Rightarrow> s);
          n = int (digits_value digits)
      in require (length digits \<le> INT_MAX_STR_DIGITS) ValueError (Ok (if digits = s then n else - n)))"

definition text_of_int :: "int \<Rightarrow> string res" where
  "text_of_int n = require (length (show_nat (nat \<bar>n\<bar>)) \<le> INT_MAX_STR_DIGITS) ValueError (Ok (show_int n))"

subsection \<open>Validation\<close>

definition leaf_text :: "durable_atom \<Rightarrow> nat \<Rightarrow> string res" where
  "leaf_text a i =
     (if i < length (fields_of a)
      then (case fields_of a ! i of Field_text s \<Rightarrow> Ok s | Field_atom _ \<Rightarrow> Raise TypeError)
      else Raise IndexError)"

definition child_atom :: "durable_atom \<Rightarrow> nat \<Rightarrow> durable_atom res" where
  "child_atom a i =
     (if i < length (fields_of a)
      then (case fields_of a ! i of Field_atom c \<Rightarrow> Ok c | Field_text _ \<Rightarrow> Raise TypeError)
      else Raise IndexError)"

definition check_fraction :: "durable_atom \<Rightarrow> unit res" where
  "check_fraction a =
     (if type_tag a = ''_fraction''
      then bind_res (leaf_text a 0) (\<lambda>n. bind_res (int_of_text n) (\<lambda>numerator.
           bind_res (leaf_text a 1) (\<lambda>d. bind_res (int_of_text d) (\<lambda>denominator.
             require (is_reduced_ratio numerator (nat denominator)) ValueError (Ok ())))))
      else Ok ())"

fun validate_atom :: "(string \<Rightarrow> string) \<Rightarrow> durable_atom \<Rightarrow> unit res"
  and validate_fields :: "(string \<Rightarrow> string) \<Rightarrow> durable_field list \<Rightarrow> field_spec list \<Rightarrow> unit res"
  and validate_field :: "(string \<Rightarrow> string) \<Rightarrow> durable_field \<Rightarrow> field_spec \<Rightarrow> unit res" where
  "validate_atom nfc (DurableAtom v t fs) =
     require (v = ''1'') ValueError
     (case FIELD_SPECS t of
        None \<Rightarrow> Raise ValueError
      | Some specification \<Rightarrow>
          require (length fs = length specification) ValueError
          (bind_res (validate_fields nfc fs specification) (\<lambda>_. check_fraction (DurableAtom v t fs))))"
| "validate_fields nfc [] specs = Ok ()"
| "validate_fields nfc (f # fs) [] = Ok ()"
| "validate_fields nfc (f # fs) (s # specs) =
     bind_res (validate_field nfc f s) (\<lambda>_. validate_fields nfc fs specs)"
| "validate_field nfc (Field_text x) (Spec_text kind) = validate_leaf_text nfc kind x"
| "validate_field nfc (Field_atom a) (Spec_text kind) = Raise TypeError"
| "validate_field nfc (Field_text x) (Spec_atom t) = Raise TypeError"
| "validate_field nfc (Field_atom a) (Spec_atom t) = require (type_tag a = t) ValueError (validate_atom nfc a)"

definition mk_atom :: "(string \<Rightarrow> string) \<Rightarrow> string \<Rightarrow> durable_field list \<Rightarrow> durable_atom res" where
  "mk_atom nfc t fs =
     bind_res (validate_atom nfc (DurableAtom ''1'' t fs)) (\<lambda>_. Ok (DurableAtom ''1'' t fs))"

subsection \<open>Encoding\<close>

definition encode_integer_atom :: "(string \<Rightarrow> string) \<Rightarrow> string \<Rightarrow> int \<Rightarrow> durable_atom res" where
  "encode_integer_atom nfc t n = bind_res (text_of_int n) (\<lambda>s. mk_atom nfc t [Field_text s])"

definition encode_decimal_leaf :: "(string \<Rightarrow> string) \<Rightarrow> dec \<Rightarrow> durable_atom res" where
  "encode_decimal_leaf nfc d =
     bind_res (text_of_int (dec_exponent d)) (\<lambda>e.
       mk_atom nfc ''_decimal''
         [Field_text (show_nat (dec_sign d)), Field_text (concat (map show_nat (dec_digits d))), Field_text e])"

definition encode_fraction_leaf :: "(string \<Rightarrow> string) \<Rightarrow> rat \<Rightarrow> durable_atom res" where
  "encode_fraction_leaf nfc q =
     (let (numerator, denominator) = quotient_of q
      in bind_res (text_of_int numerator) (\<lambda>n. bind_res (text_of_int denominator) (\<lambda>d.
           mk_atom nfc ''_fraction'' [Field_text n, Field_text d])))"

definition encode_price_units :: "(string \<Rightarrow> string) \<Rightarrow> price_units \<Rightarrow> durable_atom res" where
  "encode_price_units nfc u = encode_integer_atom nfc ''price_units'' (units_value u)"

definition encode_price_scale :: "(string \<Rightarrow> string) \<Rightarrow> dec \<Rightarrow> durable_atom res" where
  "encode_price_scale nfc d =
     bind_res (encode_decimal_leaf nfc d) (\<lambda>a. mk_atom nfc ''price_scale'' [Field_atom a])"

definition encode_tick_metadata :: "(string \<Rightarrow> string) \<Rightarrow> price_units \<Rightarrow> dec \<Rightarrow> durable_atom res" where
  "encode_tick_metadata nfc u d =
     bind_res (encode_price_units nfc u) (\<lambda>a. bind_res (encode_price_scale nfc d) (\<lambda>b.
       mk_atom nfc ''tick_metadata'' [Field_atom a, Field_atom b]))"

definition encode_reported_price_atom ::
  "(string \<Rightarrow> string) \<Rightarrow> price_units \<Rightarrow> dec \<Rightarrow> price_units \<times> dec \<Rightarrow> durable_atom res" where
  "encode_reported_price_atom nfc u d tick =
     bind_res (encode_price_units nfc u) (\<lambda>a. bind_res (encode_price_scale nfc d) (\<lambda>b.
     bind_res (encode_tick_metadata nfc (fst tick) (snd tick)) (\<lambda>c.
       mk_atom nfc ''reported_price'' [Field_atom a, Field_atom b, Field_atom c])))"

definition encode_exact_basis :: "(string \<Rightarrow> string) \<Rightarrow> exact_basis \<Rightarrow> durable_atom res" where
  "encode_exact_basis nfc b =
     bind_res (encode_fraction_leaf nfc (basis_value b)) (\<lambda>a. mk_atom nfc ''exact_basis'' [Field_atom a])"

definition encode_identity :: "(string \<Rightarrow> string) \<Rightarrow> identity_class \<Rightarrow> string \<Rightarrow> durable_atom res" where
  "encode_identity nfc c s = mk_atom nfc (identity_tag c) [Field_text s]"

definition encode_key ::
  "(string \<Rightarrow> string) \<Rightarrow> string \<Rightarrow> broker_id \<Rightarrow> environment_id \<Rightarrow> account_id \<Rightarrow> identity_class \<Rightarrow> string \<Rightarrow>
   durable_atom res" where
  "encode_key nfc t broker environment account c s =
     bind_res (encode_identity nfc Class_BrokerId (broker_value broker)) (\<lambda>a.
     bind_res (encode_identity nfc Class_EnvironmentId (environment_value environment)) (\<lambda>b.
     bind_res (encode_identity nfc Class_AccountId (account_value account)) (\<lambda>d.
     bind_res (encode_identity nfc c s) (\<lambda>e.
       mk_atom nfc t [Field_atom a, Field_atom b, Field_atom d, Field_atom e]))))"

fun encode_m1_value :: "(string \<Rightarrow> string) \<Rightarrow> m1_value \<Rightarrow> durable_atom res" where
  "encode_m1_value nfc (M1_Quantity q) = encode_integer_atom nfc ''quantity'' (quantity_value q)"
| "encode_m1_value nfc (M1_PriceUnits u) = encode_price_units nfc u"
| "encode_m1_value nfc (M1_PriceScale d) = encode_price_scale nfc d"
| "encode_m1_value nfc (M1_TickMetadata u d) = encode_tick_metadata nfc u d"
| "encode_m1_value nfc (M1_ReportedPrice u d t) = encode_reported_price_atom nfc u d t"
| "encode_m1_value nfc (M1_ExactBasis b) = encode_exact_basis nfc b"
| "encode_m1_value nfc (M1_Identity c s) = encode_identity nfc c s"
| "encode_m1_value nfc (M1_ExecutionFactKey k) = encode_key nfc ''execution_fact_key'' (fk_broker k)
     (fk_environment k) (fk_account k) Class_SourceEventId (source_event_value (fk_source_event_id k))"
| "encode_m1_value nfc (M1_RootFillKey k) = encode_key nfc ''root_fill_key'' (rk_broker k)
     (rk_environment k) (rk_account k) Class_RootFillId (root_fill_value (rk_root_fill_id k))"
| "encode_m1_value nfc (M1_VenueLegKey k) = encode_key nfc ''venue_leg_key'' (lk_broker k)
     (lk_environment k) (lk_account k) Class_OrderId (order_value (lk_order_id k))"

subsection \<open>Decoding\<close>

definition decode_decimal_leaf :: "durable_atom \<Rightarrow> dec res" where
  "decode_decimal_leaf a =
     bind_res (leaf_text a 0) (\<lambda>s. bind_res (int_of_text s) (\<lambda>sign.
     bind_res (leaf_text a 1) (\<lambda>digits.
     bind_res (leaf_text a 2) (\<lambda>e. bind_res (int_of_text e) (\<lambda>e.
       mk_dec (nat sign) (map digit_value digits) e)))))"

definition decode_identity :: "durable_atom \<Rightarrow> m1_value res" where
  "decode_identity a =
     (case identity_class_of_tag (type_tag a) of
        None \<Rightarrow> Raise KeyError
      | Some c \<Rightarrow> bind_res (leaf_text a 0) (\<lambda>s. bind_res (construct_identity c s) (\<lambda>s. Ok (M1_Identity c s))))"

text \<open>The check of \<^verbatim>\<open>_decode_owned\<close>, by the wanted constructor.\<close>

definition owned_units :: "m1_value \<Rightarrow> price_units res" where
  "owned_units v = (case v of M1_PriceUnits u \<Rightarrow> Ok u | _ \<Rightarrow> Raise TypeError)"

definition owned_scale :: "m1_value \<Rightarrow> dec res" where
  "owned_scale v = (case v of M1_PriceScale d \<Rightarrow> Ok d | _ \<Rightarrow> Raise TypeError)"

definition owned_tick :: "m1_value \<Rightarrow> (price_units \<times> dec) res" where
  "owned_tick v = (case v of M1_TickMetadata u d \<Rightarrow> Ok (u, d) | _ \<Rightarrow> Raise TypeError)"

definition owned_identity :: "identity_class \<Rightarrow> m1_value \<Rightarrow> string res" where
  "owned_identity c v =
     (case v of M1_Identity d s \<Rightarrow> if d = c then Ok s else Raise TypeError | _ \<Rightarrow> Raise TypeError)"

lemma bind_res_fundef_cong [fundef_cong]:
  "m = m' \<Longrightarrow> (\<And>x. m' = Inr x \<Longrightarrow> f x = g x) \<Longrightarrow> bind_res m f = bind_res m' g"
  using bind_res_cong by blast

lemma child_atom_size: "child_atom a i = Inr c \<Longrightarrow> size c < size a"
proof -
  assume c: "child_atom a i = Inr c"
  then have "Field_atom c \<in> set (fields_of a)"
    by (auto simp: child_atom_def in_set_conv_nth split: if_splits durable_field.splits)
  then have "size (Field_atom c) < Suc (size_list size (fields_of a))"
    by (simp add: size_list_estimation' less_Suc_eq_le)
  then show ?thesis by (cases a) simp
qed

function decode_m1_value :: "(string \<Rightarrow> string) \<Rightarrow> durable_atom \<Rightarrow> m1_value res" where
  "decode_m1_value nfc a =
     bind_res (validate_atom nfc a) (\<lambda>_.
     let t = type_tag a;
         units = (\<lambda>i. bind_res (child_atom a i) (\<lambda>c. bind_res (decode_m1_value nfc c) owned_units));
         scale = (\<lambda>i. bind_res (child_atom a i) (\<lambda>c. bind_res (decode_m1_value nfc c) owned_scale));
         tick = (\<lambda>i. bind_res (child_atom a i) (\<lambda>c. bind_res (decode_m1_value nfc c) owned_tick));
         identity = (\<lambda>i cls. bind_res (child_atom a i) (\<lambda>c. bind_res (decode_m1_value nfc c) (owned_identity cls)));
         key = (\<lambda>cls k. bind_res (identity 0 Class_BrokerId) (\<lambda>b. bind_res (identity 1 Class_EnvironmentId) (\<lambda>e.
                  bind_res (identity 2 Class_AccountId) (\<lambda>ac. bind_res (identity 3 cls) (\<lambda>s.
                    Ok (k (BrokerId b) (EnvironmentId e) (AccountId ac) s))))))
     in if t = ''quantity''
        then bind_res (leaf_text a 0) (\<lambda>s. bind_res (int_of_text s) (\<lambda>n.
             bind_res (mk_quantity n) (\<lambda>q. Ok (M1_Quantity q))))
        else if t = ''price_units''
        then bind_res (leaf_text a 0) (\<lambda>s. bind_res (int_of_text s) (\<lambda>n.
             bind_res (mk_price_units n) (\<lambda>u. Ok (M1_PriceUnits u))))
        else if t = ''price_scale''
        then bind_res (child_atom a 0) (\<lambda>c. bind_res (decode_decimal_leaf c) (\<lambda>d.
             bind_res (mk_m1_scale d) (\<lambda>d. Ok (M1_PriceScale d))))
        else if t = ''tick_metadata''
        then bind_res (units 0) (\<lambda>u. bind_res (scale 1) (\<lambda>d.
             bind_res (mk_m1_tick u d) (\<lambda>t. Ok (M1_TickMetadata (fst t) (snd t)))))
        else if t = ''reported_price''
        then bind_res (units 0) (\<lambda>u. bind_res (scale 1) (\<lambda>d. bind_res (tick 2) (\<lambda>t.
             Ok (M1_ReportedPrice u d t))))
        else if t = ''exact_basis''
        then bind_res (child_atom a 0) (\<lambda>c.
             bind_res (leaf_text c 0) (\<lambda>n. bind_res (int_of_text n) (\<lambda>numerator.
             bind_res (leaf_text c 1) (\<lambda>d. bind_res (int_of_text d) (\<lambda>denominator.
             bind_res (mk_exact_basis (of_int numerator / of_int denominator)) (\<lambda>b. Ok (M1_ExactBasis b)))))))
        else if t = ''execution_fact_key''
        then key Class_SourceEventId (\<lambda>b e ac s. M1_ExecutionFactKey
               \<lparr>fk_broker = b, fk_environment = e, fk_account = ac, fk_source_event_id = SourceEventId s\<rparr>)
        else if t = ''root_fill_key''
        then key Class_RootFillId (\<lambda>b e ac s. M1_RootFillKey
               \<lparr>rk_broker = b, rk_environment = e, rk_account = ac, rk_root_fill_id = RootFillId s\<rparr>)
        else if t = ''venue_leg_key''
        then key Class_OrderId (\<lambda>b e ac s. M1_VenueLegKey
               \<lparr>lk_broker = b, lk_environment = e, lk_account = ac, lk_order_id = OrderId s\<rparr>)
        else decode_identity a)"
  by pat_completeness auto
termination by (relation "measure (\<lambda>(nfc, a). size a)") (auto dest: child_atom_size)

declare decode_m1_value.simps [simp del]


subsection \<open>The schema\<close>

lemma euclid_loop_gcd: "euclid_loop left right = Some (gcd left right, 0)"
proof (induction right arbitrary: left rule: less_induct)
  case (less right)
  show ?case
  proof (cases "right = 0")
    case True
    then show ?thesis by (simp add: euclid_loop_def while_option_unfold)
  next
    case False
    then have "euclid_loop left right = euclid_loop right (left mod right)"
      by (simp add: euclid_loop_def while_option_unfold)
    also have "\<dots> = Some (gcd right (left mod right), 0)" using False by (intro less) simp
    finally show ?thesis using False by (simp add: gcd_red_nat [symmetric])
  qed
qed

lemma is_reduced_ratio_iff: "is_reduced_ratio n d \<longleftrightarrow> coprime n (int d)"
proof -
  have "int (gcd (nat \<bar>n\<bar>) d) = gcd n (int d)" unfolding gcd_int_def by (simp only: abs_of_nat nat_int)
  then show ?thesis unfolding is_reduced_ratio_def euclid_loop_gcd coprime_iff_gcd_eq_1 by simp linarith
qed

lemma identity_class_of_tag [simp]: "identity_class_of_tag (identity_tag c) = Some c"
  by (cases c) (simp_all add: identity_class_of_tag_def IDENTITY_CLASSES_def)

lemma identity_class_of_tagD: "identity_class_of_tag t = Some c \<Longrightarrow> t = identity_tag c"
  by (auto simp: identity_class_of_tag_def find_Some_iff)

lemma FIELD_SPECS_composite [simp]:
  "FIELD_SPECS ''quantity'' = Some [Spec_text ''nonneg'']"
  "FIELD_SPECS ''price_units'' = Some [Spec_text ''signed'']"
  "FIELD_SPECS ''_decimal'' = Some [Spec_text ''dec_sign'', Spec_text ''dec_digits'', Spec_text ''dec_exponent'']"
  "FIELD_SPECS ''_fraction'' = Some [Spec_text ''frac_num'', Spec_text ''frac_den'']"
  "FIELD_SPECS ''price_scale'' = Some [Spec_atom ''_decimal'']"
  "FIELD_SPECS ''tick_metadata'' = Some [Spec_atom ''price_units'', Spec_atom ''price_scale'']"
  "FIELD_SPECS ''reported_price'' = Some [Spec_atom ''price_units'', Spec_atom ''price_scale'', Spec_atom ''tick_metadata'']"
  "FIELD_SPECS ''exact_basis'' = Some [Spec_atom ''_fraction'']"
  "FIELD_SPECS ''execution_fact_key'' = Some [Spec_atom ''broker_id'', Spec_atom ''environment_id'',
     Spec_atom ''account_id'', Spec_atom ''source_event_id'']"
  "FIELD_SPECS ''root_fill_key'' = Some [Spec_atom ''broker_id'', Spec_atom ''environment_id'',
     Spec_atom ''account_id'', Spec_atom ''root_fill_id'']"
  "FIELD_SPECS ''venue_leg_key'' = Some [Spec_atom ''broker_id'', Spec_atom ''environment_id'',
     Spec_atom ''account_id'', Spec_atom ''order_id'']"
  by (simp_all add: FIELD_SPECS_def COMPOSITE_SPECS_def)

definition composite_tags :: "string list" where
  "composite_tags = map fst COMPOSITE_SPECS"

lemma identity_tag_not_composite: "identity_tag c \<notin> set composite_tags"
  by (cases c) (simp_all add: composite_tags_def COMPOSITE_SPECS_def)

lemma map_of_constant: "x \<in> f ` set cs \<Longrightarrow> map_of (map (\<lambda>c. (f c, v)) cs) x = Some v"
  by (induction cs) auto

lemma in_IDENTITY_CLASSES: "c \<in> set IDENTITY_CLASSES"
  by (cases c) (simp_all add: IDENTITY_CLASSES_def)

lemma FIELD_SPECS_identity [simp]: "FIELD_SPECS (identity_tag c) = Some [Spec_text ''identity'']"
proof -
  have "map_of COMPOSITE_SPECS (identity_tag c) = None"
    using identity_tag_not_composite [of c] by (simp add: map_of_eq_None_iff composite_tags_def)
  then show ?thesis using in_IDENTITY_CLASSES [of c] by (auto simp: FIELD_SPECS_def map_add_def map_of_constant)
qed

lemma identity_tag_neq [simp]:
  "identity_tag c \<noteq> ''quantity''" "identity_tag c \<noteq> ''price_units''" "identity_tag c \<noteq> ''_fraction''"
  "identity_tag c \<noteq> ''price_scale''" "identity_tag c \<noteq> ''tick_metadata''" "identity_tag c \<noteq> ''reported_price''"
  "identity_tag c \<noteq> ''exact_basis''" "identity_tag c \<noteq> ''execution_fact_key''"
  "identity_tag c \<noteq> ''root_fill_key''" "identity_tag c \<noteq> ''venue_leg_key''"
  using identity_tag_not_composite [of c] by (auto simp: composite_tags_def COMPOSITE_SPECS_def)

subsection \<open>Texts of integers and digits\<close>

lemma int_of_text_of_int: "text_of_int n = Ok s \<Longrightarrow> int_of_text s = Ok n"
proof -
  assume s: "text_of_int n = Ok s"
  then have len: "length (show_nat (nat \<bar>n\<bar>)) \<le> INT_MAX_STR_DIGITS" and show_s: "s = show_int n"
    by (simp_all add: text_of_int_def res_simps)
  have hd: "hd (show_nat (nat n)) \<noteq> CHR ''-''" using show_nat_not_minus [of "nat n" "tl (show_nat (nat n))"]
    by (metis list.collapse show_nat_nonempty)
  show ?thesis
  proof (cases "n < 0")
    case True
    with len show ?thesis by (simp add: int_of_text_def show_s show_int_def Let_def)
  next
    case False
    then have "s = show_nat (nat n)" by (simp add: show_s show_int_def)
    moreover obtain c r where "show_nat (nat n) = c # r" by (metis list.exhaust show_nat_nonempty)
    ultimately show ?thesis using False len hd digits_value_show_nat [of "nat n"]
      by (simp add: int_of_text_def Let_def)
  qed
qed

lemma int_of_textD:
  assumes "int_of_text s = Ok n" "canonical_int_text allow s"
  shows "text_of_int n = Ok s"
proof -
  consider (neg) r where "s = CHR ''-'' # r" "decimal_text r" "r \<noteq> ''0''" | (pos) "decimal_text s" "hd s \<noteq> CHR ''-''"
    using assms(2) by (auto simp: canonical_int_text_def split: list.splits if_splits)
  then show ?thesis
  proof cases
    case neg
    then have n: "n = - int (digits_value r)" "length r \<le> INT_MAX_STR_DIGITS"
      using assms(1) by (simp_all add: int_of_text_def Let_def res_simps)
    have r: "show_nat (digits_value r) = r" by (rule show_nat_digits_value [OF neg(2)])
    have "digits_value r \<noteq> 0" using r neg(3) by (metis decimal_text_show_nat show_nat_hd decimal_text_def)
    with n r neg(1) show ?thesis by (simp add: text_of_int_def show_int_def)
  next
    case pos
    then have "int_of_text s = (require (length s \<le> INT_MAX_STR_DIGITS) ValueError (Ok (int (digits_value s))))"
      by (cases s) (simp_all add: int_of_text_def)
    with assms(1) have n: "n = int (digits_value s)" "length s \<le> INT_MAX_STR_DIGITS" by (simp_all add: res_simps)
    with show_nat_digits_value [OF pos(1)] show ?thesis by (simp add: text_of_int_def show_int_def)
  qed
qed

lemma text_of_int_canonical:
  assumes "text_of_int n = Ok s"
  shows "canonical_int_text True s" "0 \<le> n \<Longrightarrow> canonical_int_text False s" "s = ''0'' \<longleftrightarrow> n = 0"
proof -
  have s: "s = show_int n" using assms by (simp add: text_of_int_def res_simps)
  have pos: "canonical_int_text allow (show_nat m)" for allow m
  proof -
    obtain c r where "show_nat m = c # r" by (metis list.exhaust show_nat_nonempty)
    moreover from this have "c \<noteq> CHR ''-''" using show_nat_not_minus by metis
    ultimately show ?thesis using decimal_text_show_nat [of m] by (simp add: canonical_int_text_def)
  qed
  have zero: "show_nat m = ''0'' \<longleftrightarrow> m = 0" for m
    by (metis decimal_text_def decimal_text_show_nat list.sel(1) show_nat_hd)
  show "canonical_int_text True s"
    using pos [of True] zero by (simp add: s show_int_def canonical_int_text_def decimal_text_show_nat)
  show "0 \<le> n \<Longrightarrow> canonical_int_text False s" using pos by (simp add: s show_int_def)
  show "s = ''0'' \<longleftrightarrow> n = 0" using zero by (simp add: s show_int_def)
qed

lemma show_nat_digit: "d < 10 \<Longrightarrow> show_nat d = [digit_char d]"
  by (subst show_nat.simps) simp

lemma digits_text: "\<forall>d \<in> set ds. d < 10 \<Longrightarrow> concat (map show_nat ds) = map digit_char ds"
  by (induction ds) (simp_all add: show_nat_digit)

lemma digit_values: "\<forall>d \<in> set ds. d < 10 \<Longrightarrow> map digit_value (map digit_char ds) = ds"
  by (induction ds) simp_all

lemma digit_chars: "list_all is_digit s \<Longrightarrow> map digit_char (map digit_value s) = s"
  by (induction s) (simp_all add: digit_char_value)

lemma canonical_digits:
  assumes "canonical_int_text False s"
  shows "decimal_text s" "list_all is_digit s"
  using assms by (auto simp: canonical_int_text_def decimal_text_def split: list.splits if_splits)

lemma decimal_text_digits:
  assumes "decimal_text s" "dec_bounds (map digit_value s) e" "sign < 2"
  shows "dec_ok \<lparr>dec_sign = sign, dec_digits = map digit_value s, dec_exponent = e\<rparr>"
proof -
  have digits: "list_all is_digit s" "s \<noteq> []" "hd s = CHR ''0'' \<longrightarrow> s = ''0''" using assms(1) by (simp_all add: decimal_text_def)
  have "digit_value (hd s) = 0 \<Longrightarrow> hd s = CHR ''0''"
    using digits(1,2) digit_char_value [of "hd s"] by (cases s) (auto simp: digit_char_0)
  then have "digit_value (hd s) = 0 \<Longrightarrow> length s = 1" using digits(3) by auto
  with assms(2,3) digits(1,2) show ?thesis by (auto simp: dec_ok_def hd_map list_all_iff digit_value_less)
qed

subsection \<open>Making an atom and taking it apart\<close>

lemma mk_atom_Ok: "mk_atom nfc t fs = Ok a \<longleftrightarrow> a = DurableAtom ''1'' t fs \<and> validate_atom nfc a = Ok ()"
  by (auto simp: mk_atom_def res_simps)

lemma validate_atom_Ok:
  "validate_atom nfc a = Ok () \<longleftrightarrow>
     contract_version a = ''1'' \<and>
     (\<exists>spec. FIELD_SPECS (type_tag a) = Some spec \<and> length (fields_of a) = length spec \<and>
        validate_fields nfc (fields_of a) spec = Ok ()) \<and> check_fraction a = Ok ()"
  by (cases a) (auto simp: res_simps split: option.splits)

lemma is_canonical_int_text_Ok: "is_canonical_int_text allow s = Ok True \<longleftrightarrow> canonical_int_text allow s"
  by (cases s) (auto simp: is_canonical_int_text_def canonical_int_text_def decimal_text_def Let_def length_Suc_conv
    split: list.splits)

lemma validate_leaf_Ok [simp]:
  "validate_leaf_text nfc ''nonneg'' s = Ok u \<longleftrightarrow> canonical_int_text False s"
  "validate_leaf_text nfc ''signed'' s = Ok u \<longleftrightarrow> canonical_int_text True s"
  "validate_leaf_text nfc ''dec_sign'' s = Ok u \<longleftrightarrow> s = ''0'' \<or> s = ''1''"
  "validate_leaf_text nfc ''dec_digits'' s = Ok u \<longleftrightarrow> canonical_int_text False s"
  "validate_leaf_text nfc ''dec_exponent'' s = Ok u \<longleftrightarrow> canonical_int_text True s"
  "validate_leaf_text nfc ''frac_num'' s = Ok u \<longleftrightarrow> canonical_int_text True s"
  "validate_leaf_text nfc ''frac_den'' s = Ok u \<longleftrightarrow> canonical_int_text False s \<and> s \<noteq> ''0''"
  "validate_leaf_text nfc ''identity'' s = Ok u \<longleftrightarrow> is_canonical_identity_text nfc s"
  by (auto simp: validate_leaf_text_def res_simps is_canonical_int_text_Ok [symmetric])

lemma fields_text:
  "length fs = Suc 0 \<and> validate_fields nfc fs [Spec_text k] = Ok u \<longleftrightarrow>
     (\<exists>s. fs = [Field_text s] \<and> validate_leaf_text nfc k s = Ok ())"
  by (auto simp: length_Suc_conv res_simps elim!: validate_field.elims)

lemma validate_field_text:
  "validate_field nfc f (Spec_text k) = Ok u \<longleftrightarrow> (\<exists>s. f = Field_text s \<and> validate_leaf_text nfc k s = Ok ())"
  by (cases f) auto

lemma validate_field_atom:
  "validate_field nfc f (Spec_atom t) = Ok u \<longleftrightarrow>
     (\<exists>a. f = Field_atom a \<and> type_tag a = t \<and> validate_atom nfc a = Ok ())"
  by (cases f) (auto simp: res_simps)

lemmas field_shapes = length_Suc_conv res_simps validate_field_text validate_field_atom

lemma leaf_text_simps [simp]:
  "leaf_text (DurableAtom v t (Field_text s # fs)) 0 = Ok s"
  "leaf_text (DurableAtom v t (f # Field_text s # fs)) (Suc 0) = Ok s"
  "leaf_text (DurableAtom v t (f # g # Field_text s # fs)) 2 = Ok s"
  by (simp_all add: leaf_text_def)

lemma child_atom_simps [simp]:
  "child_atom (DurableAtom v t (Field_atom a # fs)) 0 = Ok a"
  "child_atom (DurableAtom v t (f # Field_atom a # fs)) (Suc 0) = Ok a"
  "child_atom (DurableAtom v t (f # g # Field_atom a # fs)) 2 = Ok a"
  "child_atom (DurableAtom v t (f # g # h # Field_atom a # fs)) 3 = Ok a"
  by (simp_all add: child_atom_def)


subsection \<open>Each kind of atom\<close>

lemma integer_atom_iff:
  assumes "type_tag a = t" "FIELD_SPECS t = Some [Spec_text k]" "t \<noteq> ''_fraction''"
    and "\<And>n s. text_of_int n = Ok s \<Longrightarrow> P n \<longleftrightarrow> validate_leaf_text nfc k s = Ok ()"
    and "\<And>s. validate_leaf_text nfc k s = Ok () \<Longrightarrow> \<exists>allow. canonical_int_text allow s"
  shows "(validate_atom nfc a = Ok () \<and> (\<exists>s. leaf_text a 0 = Ok s \<and> int_of_text s = Ok n)) \<longleftrightarrow>
           P n \<and> encode_integer_atom nfc t n = Ok a"
proof
  assume "validate_atom nfc a = Ok () \<and> (\<exists>s. leaf_text a 0 = Ok s \<and> int_of_text s = Ok n)"
  then obtain s where a: "validate_atom nfc a = Ok ()" "a = DurableAtom ''1'' t [Field_text s]"
      "validate_leaf_text nfc k s = Ok ()" "int_of_text s = Ok n"
    using assms(1-3) by (cases a) (auto simp: validate_atom_Ok field_shapes)
  moreover from this have "text_of_int n = Ok s" using assms(5) int_of_textD by blast
  ultimately show "P n \<and> encode_integer_atom nfc t n = Ok a"
    using assms(4) by (simp add: encode_integer_atom_def mk_atom_Ok)
next
  assume r: "P n \<and> encode_integer_atom nfc t n = Ok a"
  then obtain s where "text_of_int n = Ok s" "a = DurableAtom ''1'' t [Field_text s]" "validate_atom nfc a = Ok ()"
    by (auto simp: encode_integer_atom_def mk_atom_Ok res_simps)
  then show "validate_atom nfc a = Ok () \<and> (\<exists>s. leaf_text a 0 = Ok s \<and> int_of_text s = Ok n)"
    by (simp add: int_of_text_of_int)
qed

lemma text_of_int_nonneg: "text_of_int n = Ok s \<Longrightarrow> canonical_int_text False s \<longleftrightarrow> 0 \<le> n"
proof (cases "n < 0")
  case True
  moreover assume "text_of_int n = Ok s"
  ultimately show ?thesis by (auto simp: text_of_int_def res_simps show_int_def canonical_int_text_def)
qed (simp add: text_of_int_canonical(2))

lemma decode_validates: "decode_m1_value nfc a = Ok v \<Longrightarrow> validate_atom nfc a = Ok ()"
  by (subst (asm) decode_m1_value.simps) (auto simp: res_simps)

declare validate_atom.simps [simp del]

lemma decode_quantity_iff:
  assumes "type_tag a = ''quantity''"
  shows "decode_m1_value nfc a = Ok v \<longleftrightarrow>
    (\<exists>q. v = M1_Quantity q \<and> 0 \<le> quantity_value q \<and> encode_integer_atom nfc ''quantity'' (quantity_value q) = Ok a)"
proof -
  have atom: "(validate_atom nfc a = Ok () \<and> (\<exists>s. leaf_text a 0 = Ok s \<and> int_of_text s = Ok n)) \<longleftrightarrow>
      0 \<le> n \<and> encode_integer_atom nfc ''quantity'' n = Ok a" for n
    by (rule integer_atom_iff [where k = "''nonneg''"]) (auto simp: assms text_of_int_nonneg)
  show ?thesis
    by (subst decode_m1_value.simps) (simp add: assms res_simps mk_quantity_def, metis atom quantity.sel quantity.collapse)
qed

lemma decode_price_units_iff:
  assumes "type_tag a = ''price_units''"
  shows "decode_m1_value nfc a = Ok v \<longleftrightarrow> (\<exists>u. v = M1_PriceUnits u \<and> encode_price_units nfc u = Ok a)"
proof -
  have atom: "(validate_atom nfc a = Ok () \<and> (\<exists>s. leaf_text a 0 = Ok s \<and> int_of_text s = Ok n)) \<longleftrightarrow>
      True \<and> encode_integer_atom nfc ''price_units'' n = Ok a" for n
    by (rule integer_atom_iff [where k = "''signed''"]) (auto simp: assms text_of_int_canonical)
  show ?thesis
    by (subst decode_m1_value.simps)
      (simp add: assms res_simps mk_price_units_def encode_price_units_def, metis atom price_units.sel price_units.collapse)
qed

lemma mk_dec_Ok: "mk_dec sign ds e = Ok d \<longleftrightarrow> d = \<lparr>dec_sign = sign, dec_digits = ds, dec_exponent = e\<rparr> \<and> dec_bounds ds e"
proof -
  have "dec_bounds ds e \<Longrightarrow> - (2 ^ 63) \<le> e \<and> e < 2 ^ 63" by (simp add: dec_bounds_def)
  then show ?thesis by (auto simp: mk_dec_def res_simps)
qed

lemma digit_char_1: "digit_char (Suc 0) = CHR ''1''"
  using digit_char_value [of "CHR ''1''"] by (simp add: is_digit_def digit_value_def)

lemma decimal_leaf_iff:
  assumes "type_tag a = ''_decimal''"
  shows "validate_atom nfc a = Ok () \<and> decode_decimal_leaf a = Ok d \<longleftrightarrow> dec_ok d \<and> encode_decimal_leaf nfc d = Ok a"
proof
  assume h: "validate_atom nfc a = Ok () \<and> decode_decimal_leaf a = Ok d"
  then obtain s ds e where a: "a = DurableAtom ''1'' ''_decimal'' [Field_text s, Field_text ds, Field_text e]"
    and s: "s = ''0'' \<or> s = ''1''" and ds: "canonical_int_text False ds" and e: "canonical_int_text True e"
    using assms by (cases a) (auto simp: validate_atom_Ok field_shapes)
  from h obtain sign ex where i: "int_of_text s = Ok sign" "int_of_text e = Ok ex"
    and d: "d = \<lparr>dec_sign = nat sign, dec_digits = map digit_value ds, dec_exponent = ex\<rparr>"
    and b: "dec_bounds (map digit_value ds) ex"
    by (auto simp: a decode_decimal_leaf_def res_simps mk_dec_Ok)
  have sign: "nat sign < 2" "show_nat (nat sign) = s"
    using s i(1) by (auto simp: int_of_text_def digits_value_def digit_value_def digit_char_0 digit_char_1 res_simps INT_MAX_STR_DIGITS_def show_nat_digit)
  have digits: "concat (map show_nat (map digit_value ds)) = ds"
    using canonical_digits(2) [OF ds] digits_text [of "map digit_value ds"] digit_chars [of ds]
    by (auto simp: list_all_iff digit_value_less)
  have "text_of_int ex = Ok e" using int_of_textD [OF i(2) e] .
  then show "dec_ok d \<and> encode_decimal_leaf nfc d = Ok a"
    using decimal_text_digits [OF canonical_digits(1) [OF ds] b sign(1)] h sign(2) digits
    by (simp add: d encode_decimal_leaf_def mk_atom_Ok a)
next
  assume h: "dec_ok d \<and> encode_decimal_leaf nfc d = Ok a"
  then obtain e where e: "text_of_int (dec_exponent d) = Ok e" and v: "validate_atom nfc a = Ok ()"
    and a: "a = DurableAtom ''1'' ''_decimal''
      [Field_text (show_nat (dec_sign d)), Field_text (concat (map show_nat (dec_digits d))), Field_text e]"
    by (auto simp: encode_decimal_leaf_def mk_atom_Ok res_simps)
  have ok: "dec_sign d < 2" "\<forall>x \<in> set (dec_digits d). x < 10" "dec_bounds (dec_digits d) (dec_exponent d)"
    using h by (simp_all add: dec_ok_def)
  have sign: "int_of_text (show_nat (dec_sign d)) = Ok (int (dec_sign d))"
    using ok(1) by (cases "dec_sign d") (auto simp: show_nat_digit digit_char_0 digit_char_1 digit_value_def int_of_text_def digits_value_def res_simps INT_MAX_STR_DIGITS_def less_Suc_eq numeral_2_eq_2)
  show "validate_atom nfc a = Ok () \<and> decode_decimal_leaf a = Ok d"
    using v ok sign int_of_text_of_int [OF e] digit_values [OF ok(2)]
    by (simp add: a decode_decimal_leaf_def mk_dec_Ok digits_text)
qed

lemma decode_price_scale_iff:
  assumes "type_tag a = ''price_scale''"
  shows "decode_m1_value nfc a = Ok v \<longleftrightarrow>
    (\<exists>d. v = M1_PriceScale d \<and> scale_ok d \<and> encode_price_scale nfc d = Ok a)"
proof
  assume h: "decode_m1_value nfc a = Ok v"
  then have va: "validate_atom nfc a = Ok ()" by (rule decode_validates)
  then obtain c where a: "a = DurableAtom ''1'' ''price_scale'' [Field_atom c]"
    and c: "type_tag c = ''_decimal''" "validate_atom nfc c = Ok ()"
    using assms by (cases a) (auto simp: validate_atom_Ok field_shapes)
  with h obtain d where d: "decode_decimal_leaf c = Ok d" "dec_positive d" "v = M1_PriceScale d"
    by (subst (asm) decode_m1_value.simps) (auto simp: res_simps mk_m1_scale_def)
  with c decimal_leaf_iff [of c nfc d] have "dec_ok d" "encode_decimal_leaf nfc d = Ok c" by simp_all
  with d va show "\<exists>d. v = M1_PriceScale d \<and> scale_ok d \<and> encode_price_scale nfc d = Ok a"
    by (simp add: scale_ok_def encode_price_scale_def mk_atom_Ok a)
next
  assume "\<exists>d. v = M1_PriceScale d \<and> scale_ok d \<and> encode_price_scale nfc d = Ok a"
  then obtain d c where d: "v = M1_PriceScale d" "dec_ok d" "dec_positive d"
    and c: "encode_decimal_leaf nfc d = Ok c" and a: "a = DurableAtom ''1'' ''price_scale'' [Field_atom c]"
    and va: "validate_atom nfc a = Ok ()"
    by (auto simp: scale_ok_def encode_price_scale_def mk_atom_Ok res_simps)
  have "type_tag c = ''_decimal''" using c by (auto simp: encode_decimal_leaf_def mk_atom_Ok res_simps)
  with c d have "decode_decimal_leaf c = Ok d" using decimal_leaf_iff [of c nfc d] by simp
  then show "decode_m1_value nfc a = Ok v"
    by (subst decode_m1_value.simps, subst va) (simp add: a d mk_m1_scale_def)
qed

lemma encode_tags:
  "encode_price_units nfc u = Ok a \<Longrightarrow> type_tag a = ''price_units''"
  "encode_price_scale nfc d = Ok a \<Longrightarrow> type_tag a = ''price_scale''"
  "encode_tick_metadata nfc u d = Ok a \<Longrightarrow> type_tag a = ''tick_metadata''"
  "encode_identity nfc c s = Ok a \<Longrightarrow> type_tag a = identity_tag c"
  by (auto simp: encode_price_units_def encode_integer_atom_def encode_price_scale_def
    encode_tick_metadata_def encode_identity_def mk_atom_Ok res_simps)

lemma owned_Ok:
  "owned_units v = Ok u \<longleftrightarrow> v = M1_PriceUnits u"
  "owned_scale v = Ok d \<longleftrightarrow> v = M1_PriceScale d"
  "owned_tick v = Ok t \<longleftrightarrow> v = M1_TickMetadata (fst t) (snd t)"
  "owned_identity c v = Ok s \<longleftrightarrow> v = M1_Identity c s"
  by (auto simp: owned_units_def owned_scale_def owned_tick_def owned_identity_def split: m1_value.splits if_splits)

lemma decode_tick_iff:
  assumes "type_tag a = ''tick_metadata''"
  shows "decode_m1_value nfc a = Ok v \<longleftrightarrow>
    (\<exists>u d. v = M1_TickMetadata u d \<and> units_value u > 0 \<and> scale_ok d \<and> encode_tick_metadata nfc u d = Ok a)"
proof
  assume h: "decode_m1_value nfc a = Ok v"
  then have va: "validate_atom nfc a = Ok ()" by (rule decode_validates)
  then obtain b c where a: "a = DurableAtom ''1'' ''tick_metadata'' [Field_atom b, Field_atom c]"
    and c: "type_tag b = ''price_units''" "type_tag c = ''price_scale''"
    using assms by (cases a) (auto simp: validate_atom_Ok field_shapes)
  with h obtain u d where d: "decode_m1_value nfc b = Ok (M1_PriceUnits u)" "decode_m1_value nfc c = Ok (M1_PriceScale d)"
      "units_value u > 0" "v = M1_TickMetadata u d"
    by (subst (asm) decode_m1_value.simps) (auto simp: res_simps owned_Ok mk_m1_tick_def)
  with va show "\<exists>u d. v = M1_TickMetadata u d \<and> units_value u > 0 \<and> scale_ok d \<and> encode_tick_metadata nfc u d = Ok a"
    by (auto simp: encode_tick_metadata_def mk_atom_Ok a decode_price_units_iff [OF c(1)] decode_price_scale_iff [OF c(2)])
next
  assume "\<exists>u d. v = M1_TickMetadata u d \<and> units_value u > 0 \<and> scale_ok d \<and> encode_tick_metadata nfc u d = Ok a"
  then obtain u d b c where d: "v = M1_TickMetadata u d" "units_value u > 0" "scale_ok d"
    and c: "encode_price_units nfc u = Ok b" "encode_price_scale nfc d = Ok c"
    and a: "a = DurableAtom ''1'' ''tick_metadata'' [Field_atom b, Field_atom c]" and va: "validate_atom nfc a = Ok ()"
    by (auto simp: encode_tick_metadata_def mk_atom_Ok res_simps)
  have "decode_m1_value nfc b = Ok (M1_PriceUnits u)" "decode_m1_value nfc c = Ok (M1_PriceScale d)"
    using c d by (simp_all add: decode_price_units_iff decode_price_scale_iff encode_tags)
  then show "decode_m1_value nfc a = Ok v"
    by (subst decode_m1_value.simps, subst va) (simp add: a d owned_Ok owned_units_def owned_scale_def mk_m1_tick_def)
qed


lemma decode_reported_price_iff:
  assumes "type_tag a = ''reported_price''"
  shows "decode_m1_value nfc a = Ok v \<longleftrightarrow>
    (\<exists>u d t. v = M1_ReportedPrice u d t \<and> scale_ok d \<and> units_value (fst t) > 0 \<and> scale_ok (snd t) \<and>
       encode_reported_price_atom nfc u d t = Ok a)"
proof
  assume h: "decode_m1_value nfc a = Ok v"
  then have va: "validate_atom nfc a = Ok ()" by (rule decode_validates)
  then obtain b c e where a: "a = DurableAtom ''1'' ''reported_price'' [Field_atom b, Field_atom c, Field_atom e]"
    and c: "type_tag b = ''price_units''" "type_tag c = ''price_scale''" "type_tag e = ''tick_metadata''"
    using assms by (cases a) (auto simp: validate_atom_Ok field_shapes)
  with h obtain u d t where d: "decode_m1_value nfc b = Ok (M1_PriceUnits u)" "decode_m1_value nfc c = Ok (M1_PriceScale d)"
      "decode_m1_value nfc e = Ok (M1_TickMetadata (fst t) (snd t))" "v = M1_ReportedPrice u d t"
    by (subst (asm) decode_m1_value.simps) (auto simp: res_simps owned_Ok)
  with va show "\<exists>u d t. v = M1_ReportedPrice u d t \<and> scale_ok d \<and> units_value (fst t) > 0 \<and> scale_ok (snd t) \<and>
       encode_reported_price_atom nfc u d t = Ok a"
    by (auto simp: encode_reported_price_atom_def mk_atom_Ok a decode_price_units_iff [OF c(1)]
      decode_price_scale_iff [OF c(2)] decode_tick_iff [OF c(3)])
next
  assume "\<exists>u d t. v = M1_ReportedPrice u d t \<and> scale_ok d \<and> units_value (fst t) > 0 \<and> scale_ok (snd t) \<and>
       encode_reported_price_atom nfc u d t = Ok a"
  then obtain u d t b c e where d: "v = M1_ReportedPrice u d t" "scale_ok d" "units_value (fst t) > 0" "scale_ok (snd t)"
    and c: "encode_price_units nfc u = Ok b" "encode_price_scale nfc d = Ok c"
      "encode_tick_metadata nfc (fst t) (snd t) = Ok e"
    and a: "a = DurableAtom ''1'' ''reported_price'' [Field_atom b, Field_atom c, Field_atom e]"
    and va: "validate_atom nfc a = Ok ()"
    by (auto simp: encode_reported_price_atom_def mk_atom_Ok res_simps)
  have "decode_m1_value nfc b = Ok (M1_PriceUnits u)" "decode_m1_value nfc c = Ok (M1_PriceScale d)"
      "decode_m1_value nfc e = Ok (M1_TickMetadata (fst t) (snd t))"
    using c d by (simp_all add: decode_price_units_iff decode_price_scale_iff decode_tick_iff encode_tags)
  then show "decode_m1_value nfc a = Ok v"
    by (subst decode_m1_value.simps, subst va) (simp add: a d owned_units_def owned_scale_def owned_tick_def)
qed

lemma reduced_quotient:
  assumes "is_reduced_ratio n (nat d)" "0 < d"
  shows "quotient_of (of_int n / of_int d) = (n, d)"
proof -
  have "coprime n d" using assms by (simp add: is_reduced_ratio_iff)
  with assms(2) have "quotient_of (Fract n d) = (n, d)" by (simp add: quotient_of_Fract normalize_stable)
  then show ?thesis by (simp add: Fract_of_int_quotient)
qed

lemma quotient_reduced:
  assumes "quotient_of q = (n, d)"
  shows "is_reduced_ratio n (nat d)" "0 < d" "of_int n / of_int d = q"
  using quotient_of_coprime [OF assms] quotient_of_denom_pos [OF assms] quotient_of_div [OF assms]
  by (simp_all add: is_reduced_ratio_iff)

lemma decode_exact_basis_iff:
  assumes "type_tag a = ''exact_basis''"
  shows "decode_m1_value nfc a = Ok v \<longleftrightarrow>
    (\<exists>b. v = M1_ExactBasis b \<and> 0 \<le> basis_value b \<and> encode_exact_basis nfc b = Ok a)"
proof
  assume h: "decode_m1_value nfc a = Ok v"
  then have va: "validate_atom nfc a = Ok ()" by (rule decode_validates)
  then obtain c where a: "a = DurableAtom ''1'' ''exact_basis'' [Field_atom c]"
    and c: "type_tag c = ''_fraction''" and vc: "validate_atom nfc c = Ok ()"
    using assms by (cases a) (auto simp: validate_atom_Ok field_shapes)
  from vc c obtain s r where cs: "c = DurableAtom ''1'' ''_fraction'' [Field_text s, Field_text r]"
    and canon: "canonical_int_text True s" "canonical_int_text False r" "r \<noteq> ''0''"
    by (cases c) (auto simp: validate_atom_Ok field_shapes)
  with h obtain n d where n: "int_of_text s = Ok n" "int_of_text r = Ok d"
    and b: "0 \<le> (of_int n / of_int d :: rat)" "v = M1_ExactBasis (ExactBasis (of_int n / of_int d))"
    by (subst (asm) decode_m1_value.simps) (auto simp: res_simps a mk_exact_basis_def)
  have t: "text_of_int n = Ok s" "text_of_int d = Ok r" using n canon int_of_textD by blast+
  have "is_reduced_ratio n (nat d)" using vc n by (simp add: validate_atom_Ok cs check_fraction_def res_simps)
  moreover have "0 < d" using text_of_int_canonical(3) [OF t(2)] text_of_int_nonneg [OF t(2)] canon by simp
  ultimately have "quotient_of (of_int n / of_int d) = (n, d)" by (rule reduced_quotient)
  with va vc t b cs show "\<exists>b. v = M1_ExactBasis b \<and> 0 \<le> basis_value b \<and> encode_exact_basis nfc b = Ok a"
    by (simp add: encode_exact_basis_def encode_fraction_leaf_def mk_atom_def a)
next
  assume "\<exists>b. v = M1_ExactBasis b \<and> 0 \<le> basis_value b \<and> encode_exact_basis nfc b = Ok a"
  then obtain b c where b: "v = M1_ExactBasis b" "0 \<le> basis_value b" and c: "encode_fraction_leaf nfc (basis_value b) = Ok c"
    and a: "a = DurableAtom ''1'' ''exact_basis'' [Field_atom c]" and va: "validate_atom nfc a = Ok ()"
    by (auto simp: encode_exact_basis_def mk_atom_Ok res_simps)
  obtain n d where q: "quotient_of (basis_value b) = (n, d)" by (cases "quotient_of (basis_value b)")
  with c obtain s r where "text_of_int n = Ok s" "text_of_int d = Ok r"
      "c = DurableAtom ''1'' ''_fraction'' [Field_text s, Field_text r]"
    by (auto simp: encode_fraction_leaf_def mk_atom_Ok res_simps)
  with b quotient_reduced [OF q] show "decode_m1_value nfc a = Ok v"
    by (subst decode_m1_value.simps, subst va) (simp add: a int_of_text_of_int mk_exact_basis_def)
qed

lemma construct_identity_Ok: "construct_identity c s = Ok t \<longleftrightarrow> t = s \<and> identity_ok c s"
  by (auto simp: identity_ok_def construct_identity_def exact_identity_def res_simps)

lemma decode_identity_iff:
  assumes "type_tag a = identity_tag c"
  shows "decode_m1_value nfc a = Ok v \<longleftrightarrow> (\<exists>s. v = M1_Identity c s \<and> identity_ok c s \<and> encode_identity nfc c s = Ok a)"
proof
  assume h: "decode_m1_value nfc a = Ok v"
  then have va: "validate_atom nfc a = Ok ()" by (rule decode_validates)
  then obtain s where a: "a = DurableAtom ''1'' (identity_tag c) [Field_text s]"
    using assms by (cases a) (auto simp: validate_atom_Ok field_shapes)
  with h va show "\<exists>s. v = M1_Identity c s \<and> identity_ok c s \<and> encode_identity nfc c s = Ok a"
    by (subst (asm) decode_m1_value.simps)
      (auto simp: res_simps decode_identity_def construct_identity_Ok encode_identity_def mk_atom_Ok)
next
  assume "\<exists>s. v = M1_Identity c s \<and> identity_ok c s \<and> encode_identity nfc c s = Ok a"
  then obtain s where "v = M1_Identity c s" "identity_ok c s" "a = DurableAtom ''1'' (identity_tag c) [Field_text s]"
      "validate_atom nfc a = Ok ()"
    by (auto simp: encode_identity_def mk_atom_Ok)
  then show "decode_m1_value nfc a = Ok v"
    by (subst decode_m1_value.simps) (simp add: decode_identity_def identity_ok_def)
qed

lemma identity_child:
  "type_tag b = identity_tag c \<Longrightarrow>
     bind_res (decode_m1_value nfc b) (owned_identity c) = Ok s \<longleftrightarrow> identity_ok c s \<and> encode_identity nfc c s = Ok b"
  by (auto simp: res_simps owned_Ok decode_identity_iff)

lemma encode_key_Ok:
  "encode_key nfc t (BrokerId b) (EnvironmentId e) (AccountId ac) c s = Ok a \<longleftrightarrow>
     (\<exists>a1 a2 a3 a4. a = DurableAtom ''1'' t [Field_atom a1, Field_atom a2, Field_atom a3, Field_atom a4] \<and>
        validate_atom nfc a = Ok () \<and> encode_identity nfc Class_BrokerId b = Ok a1 \<and>
        encode_identity nfc Class_EnvironmentId e = Ok a2 \<and> encode_identity nfc Class_AccountId ac = Ok a3 \<and>
        encode_identity nfc c s = Ok a4)"
  by (auto simp: encode_key_def mk_atom_Ok res_simps)

lemma decode_key_iff:
  fixes k :: "broker_id \<Rightarrow> environment_id \<Rightarrow> account_id \<Rightarrow> string \<Rightarrow> m1_value"
  assumes tag: "type_tag a = t"
    and spec: "FIELD_SPECS t = Some (map (Spec_atom \<circ> identity_tag) [Class_BrokerId, Class_EnvironmentId, Class_AccountId, c])"
    and step: "decode_m1_value nfc a = bind_res (validate_atom nfc a) (\<lambda>_.
      bind_res (bind_res (child_atom a 0) (\<lambda>x. bind_res (decode_m1_value nfc x) (owned_identity Class_BrokerId))) (\<lambda>b.
      bind_res (bind_res (child_atom a 1) (\<lambda>x. bind_res (decode_m1_value nfc x) (owned_identity Class_EnvironmentId))) (\<lambda>e.
      bind_res (bind_res (child_atom a 2) (\<lambda>x. bind_res (decode_m1_value nfc x) (owned_identity Class_AccountId))) (\<lambda>ac.
      bind_res (bind_res (child_atom a 3) (\<lambda>x. bind_res (decode_m1_value nfc x) (owned_identity c))) (\<lambda>s.
        Ok (k (BrokerId b) (EnvironmentId e) (AccountId ac) s))))))"
  shows "decode_m1_value nfc a = Ok v \<longleftrightarrow>
    (\<exists>b e ac s. v = k (BrokerId b) (EnvironmentId e) (AccountId ac) s \<and>
       identity_ok Class_BrokerId b \<and> identity_ok Class_EnvironmentId e \<and> identity_ok Class_AccountId ac \<and>
       identity_ok c s \<and> encode_key nfc t (BrokerId b) (EnvironmentId e) (AccountId ac) c s = Ok a)"
proof
  assume h: "decode_m1_value nfc a = Ok v"
  then have va: "validate_atom nfc a = Ok ()" by (rule decode_validates)
  then obtain a1 a2 a3 a4
    where a: "a = DurableAtom ''1'' t [Field_atom a1, Field_atom a2, Field_atom a3, Field_atom a4]"
      and tags: "type_tag a1 = identity_tag Class_BrokerId" "type_tag a2 = identity_tag Class_EnvironmentId"
        "type_tag a3 = identity_tag Class_AccountId" "type_tag a4 = identity_tag c"
    using tag spec by (cases a) (auto simp: validate_atom_Ok field_shapes)
  from h va show "\<exists>b e ac s. v = k (BrokerId b) (EnvironmentId e) (AccountId ac) s \<and>
       identity_ok Class_BrokerId b \<and> identity_ok Class_EnvironmentId e \<and> identity_ok Class_AccountId ac \<and>
       identity_ok c s \<and> encode_key nfc t (BrokerId b) (EnvironmentId e) (AccountId ac) c s = Ok a"
    unfolding step encode_key_Ok
    by (simp only: a bind_res_simps child_atom_simps One_nat_def bind_res_eq_Inr [of "bind_res _ _"]
        identity_child [OF tags(1)] identity_child [OF tags(2)] identity_child [OF tags(3)] identity_child [OF tags(4)])
      auto
next
  assume "\<exists>b e ac s. v = k (BrokerId b) (EnvironmentId e) (AccountId ac) s \<and>
       identity_ok Class_BrokerId b \<and> identity_ok Class_EnvironmentId e \<and> identity_ok Class_AccountId ac \<and>
       identity_ok c s \<and> encode_key nfc t (BrokerId b) (EnvironmentId e) (AccountId ac) c s = Ok a"
  then obtain b e ac s a1 a2 a3 a4
    where a: "a = DurableAtom ''1'' t [Field_atom a1, Field_atom a2, Field_atom a3, Field_atom a4]"
      and v: "v = k (BrokerId b) (EnvironmentId e) (AccountId ac) s" "validate_atom nfc a = Ok ()"
      and ok: "identity_ok Class_BrokerId b" "identity_ok Class_EnvironmentId e" "identity_ok Class_AccountId ac" "identity_ok c s"
      and enc: "encode_identity nfc Class_BrokerId b = Ok a1" "encode_identity nfc Class_EnvironmentId e = Ok a2"
        "encode_identity nfc Class_AccountId ac = Ok a3" "encode_identity nfc c s = Ok a4"
    unfolding encode_key_Ok by blast
  note tags = enc [THEN encode_tags(4)]
  have "bind_res (decode_m1_value nfc a1) (owned_identity Class_BrokerId) = Ok b"
      "bind_res (decode_m1_value nfc a2) (owned_identity Class_EnvironmentId) = Ok e"
      "bind_res (decode_m1_value nfc a3) (owned_identity Class_AccountId) = Ok ac"
      "bind_res (decode_m1_value nfc a4) (owned_identity c) = Ok s"
    using ok enc identity_child tags by blast+
  then show "decode_m1_value nfc a = Ok v" unfolding step v(2) by (simp add: a v(1))
qed

lemma ex_keys:
  "(\<exists>k. P k) \<longleftrightarrow> (\<exists>b e ac s. P \<lparr>fk_broker = BrokerId b, fk_environment = EnvironmentId e,
     fk_account = AccountId ac, fk_source_event_id = SourceEventId s\<rparr>)"
  "(\<exists>k. Q k) \<longleftrightarrow> (\<exists>b e ac s. Q \<lparr>rk_broker = BrokerId b, rk_environment = EnvironmentId e,
     rk_account = AccountId ac, rk_root_fill_id = RootFillId s\<rparr>)"
  "(\<exists>k. R k) \<longleftrightarrow> (\<exists>b e ac s. R \<lparr>lk_broker = BrokerId b, lk_environment = EnvironmentId e,
     lk_account = AccountId ac, lk_order_id = OrderId s\<rparr>)"
  by (metis execution_fact_key.cases root_fill_key.cases venue_leg_key.cases broker_id.exhaust
    environment_id.exhaust account_id.exhaust source_event_id.exhaust root_fill_id.exhaust order_id.exhaust)+

lemma decode_keys_iff:
  "type_tag a = ''execution_fact_key'' \<Longrightarrow> decode_m1_value nfc a = Ok v \<longleftrightarrow>
     (\<exists>k. v = M1_ExecutionFactKey k \<and> m1_ok v \<and> encode_m1_value nfc v = Ok a)"
  "type_tag a = ''root_fill_key'' \<Longrightarrow> decode_m1_value nfc a = Ok v \<longleftrightarrow>
     (\<exists>k. v = M1_RootFillKey k \<and> m1_ok v \<and> encode_m1_value nfc v = Ok a)"
  "type_tag a = ''venue_leg_key'' \<Longrightarrow> decode_m1_value nfc a = Ok v \<longleftrightarrow>
     (\<exists>k. v = M1_VenueLegKey k \<and> m1_ok v \<and> encode_m1_value nfc v = Ok a)"
proof -
  assume t: "type_tag a = ''execution_fact_key''"
  show "decode_m1_value nfc a = Ok v \<longleftrightarrow>
      (\<exists>k. v = M1_ExecutionFactKey k \<and> m1_ok v \<and> encode_m1_value nfc v = Ok a)"
    unfolding ex_keys
    by (subst decode_key_iff [where c = Class_SourceEventId, OF t], simp, subst decode_m1_value.simps, simp add: t)
      auto
next
  assume t: "type_tag a = ''root_fill_key''"
  show "decode_m1_value nfc a = Ok v \<longleftrightarrow> (\<exists>k. v = M1_RootFillKey k \<and> m1_ok v \<and> encode_m1_value nfc v = Ok a)"
    unfolding ex_keys
    by (subst decode_key_iff [where c = Class_RootFillId, OF t], simp, subst decode_m1_value.simps, simp add: t)
      auto
next
  assume t: "type_tag a = ''venue_leg_key''"
  show "decode_m1_value nfc a = Ok v \<longleftrightarrow> (\<exists>k. v = M1_VenueLegKey k \<and> m1_ok v \<and> encode_m1_value nfc v = Ok a)"
    unfolding ex_keys
    by (subst decode_key_iff [where c = Class_OrderId, OF t], simp, subst decode_m1_value.simps, simp add: t)
      auto
qed


subsection \<open>The whole codec\<close>

lemma FIELD_SPECS_tags:
  assumes "FIELD_SPECS t = Some spec"
  shows "t \<in> set composite_tags \<or> (\<exists>c. t = identity_tag c)"
  using map_of_SomeD [OF assms [unfolded FIELD_SPECS_def]] by (force simp: composite_tags_def)

lemma decode_encode:
  "decode_m1_value nfc a = Ok v \<longleftrightarrow> m1_ok v \<and> encode_m1_value nfc v = Ok a"
proof
  assume d: "decode_m1_value nfc a = Ok v"
  then have "type_tag a \<in> set composite_tags \<or> (\<exists>c. type_tag a = identity_tag c)"
    using decode_validates [OF d] FIELD_SPECS_tags unfolding validate_atom_Ok by blast
  moreover have "type_tag a \<noteq> ''_decimal''" "type_tag a \<noteq> ''_fraction''"
  proof -
    have none: "identity_class_of_tag ''_decimal'' = None" "identity_class_of_tag ''_fraction'' = None"
      by (simp_all add: identity_class_of_tag_def IDENTITY_CLASSES_def)
    show "type_tag a \<noteq> ''_decimal''" "type_tag a \<noteq> ''_fraction''"
      using d by (subst (asm) decode_m1_value.simps, auto simp: res_simps decode_identity_def none)+
  qed
  ultimately consider "type_tag a = ''quantity''" | "type_tag a = ''price_units''" | "type_tag a = ''price_scale''"
    | "type_tag a = ''tick_metadata''" | "type_tag a = ''reported_price''" | "type_tag a = ''exact_basis''"
    | "type_tag a = ''execution_fact_key''" | "type_tag a = ''root_fill_key''" | "type_tag a = ''venue_leg_key''"
    | c where "type_tag a = identity_tag c"
    by (auto simp: composite_tags_def COMPOSITE_SPECS_def)
  then show "m1_ok v \<and> encode_m1_value nfc v = Ok a"
    using d
    by cases (auto simp: decode_quantity_iff decode_price_units_iff decode_price_scale_iff decode_tick_iff
      decode_reported_price_iff decode_exact_basis_iff decode_keys_iff decode_identity_iff)
next
  assume h: "m1_ok v \<and> encode_m1_value nfc v = Ok a"
  show "decode_m1_value nfc a = Ok v"
  proof (cases v)
    case (M1_Quantity q)
    with h show ?thesis by (subst decode_quantity_iff) (auto simp: encode_integer_atom_def mk_atom_Ok res_simps)
  next
    case (M1_PriceUnits u)
    with h encode_tags show ?thesis by (subst decode_price_units_iff) auto
  next
    case (M1_PriceScale d)
    with h encode_tags show ?thesis by (subst decode_price_scale_iff) auto
  next
    case (M1_TickMetadata u d)
    with h encode_tags show ?thesis by (subst decode_tick_iff) auto
  next
    case (M1_ReportedPrice u d t)
    with h show ?thesis
      by (subst decode_reported_price_iff) (auto simp: encode_reported_price_atom_def mk_atom_Ok res_simps)
  next
    case (M1_ExactBasis b)
    with h show ?thesis by (subst decode_exact_basis_iff) (auto simp: encode_exact_basis_def mk_atom_Ok res_simps)
  next
    case (M1_Identity c s)
    with h encode_tags show ?thesis by (subst decode_identity_iff) auto
  next
    case (M1_ExecutionFactKey k)
    with h show ?thesis by (subst decode_keys_iff) (auto simp: encode_key_def mk_atom_Ok res_simps)
  next
    case (M1_RootFillKey k)
    with h show ?thesis by (subst decode_keys_iff) (auto simp: encode_key_def mk_atom_Ok res_simps)
  next
    case (M1_VenueLegKey k)
    with h show ?thesis by (subst decode_keys_iff) (auto simp: encode_key_def mk_atom_Ok res_simps)
  qed
qed

subsection \<open>Which values have an atom\<close>

definition int_text_fits :: "int \<Rightarrow> bool" where
  "int_text_fits n \<longleftrightarrow> length (show_nat (nat \<bar>n\<bar>)) \<le> INT_MAX_STR_DIGITS"

fun m1_encodable :: "(string \<Rightarrow> string) \<Rightarrow> m1_value \<Rightarrow> bool" where
  "m1_encodable nfc (M1_Quantity q) \<longleftrightarrow> int_text_fits (quantity_value q)"
| "m1_encodable nfc (M1_PriceUnits u) \<longleftrightarrow> int_text_fits (units_value u)"
| "m1_encodable nfc (M1_PriceScale d) \<longleftrightarrow> True"
| "m1_encodable nfc (M1_TickMetadata u d) \<longleftrightarrow> int_text_fits (units_value u)"
| "m1_encodable nfc (M1_ReportedPrice u d t) \<longleftrightarrow> int_text_fits (units_value u) \<and> int_text_fits (units_value (fst t))"
| "m1_encodable nfc (M1_ExactBasis b) \<longleftrightarrow>
     (case quotient_of (basis_value b) of (n, d) \<Rightarrow> int_text_fits n \<and> int_text_fits d)"
| "m1_encodable nfc (M1_Identity c s) \<longleftrightarrow> is_canonical_identity_text nfc s"
| "m1_encodable nfc (M1_ExecutionFactKey k) \<longleftrightarrow>
     is_canonical_identity_text nfc (broker_value (fk_broker k)) \<and>
     is_canonical_identity_text nfc (environment_value (fk_environment k)) \<and>
     is_canonical_identity_text nfc (account_value (fk_account k)) \<and>
     is_canonical_identity_text nfc (source_event_value (fk_source_event_id k))"
| "m1_encodable nfc (M1_RootFillKey k) \<longleftrightarrow>
     is_canonical_identity_text nfc (broker_value (rk_broker k)) \<and>
     is_canonical_identity_text nfc (environment_value (rk_environment k)) \<and>
     is_canonical_identity_text nfc (account_value (rk_account k)) \<and>
     is_canonical_identity_text nfc (root_fill_value (rk_root_fill_id k))"
| "m1_encodable nfc (M1_VenueLegKey k) \<longleftrightarrow>
     is_canonical_identity_text nfc (broker_value (lk_broker k)) \<and>
     is_canonical_identity_text nfc (environment_value (lk_environment k)) \<and>
     is_canonical_identity_text nfc (account_value (lk_account k)) \<and>
     is_canonical_identity_text nfc (order_value (lk_order_id k))"

lemma length_show_nat: "n < 10 ^ k \<Longrightarrow> 0 < k \<Longrightarrow> length (show_nat n) \<le> k"
proof (induction k arbitrary: n)
  case (Suc k)
  show ?case
  proof (cases "n < 10")
    case True
    then show ?thesis using Suc.prems by (simp add: show_nat_digit)
  next
    case False
    then have "0 < k" using Suc.prems by (cases k) auto
    moreover have "n div 10 < 10 ^ k" using Suc.prems(1) by (simp add: div_less_iff_less_mult mult.commute)
    ultimately have "length (show_nat (n div 10)) \<le> k" by (rule Suc.IH [rotated])
    with False show ?thesis by (subst show_nat.simps) simp
  qed
qed simp

lemma int_text_fits_Ok: "int_text_fits n \<Longrightarrow> text_of_int n = Ok (show_int n)"
  by (simp add: int_text_fits_def text_of_int_def)

lemma dec_exponent_fits:
  assumes "dec_ok d"
  shows "int_text_fits (dec_exponent d)"
proof -
  have "\<bar>dec_exponent d\<bar> < 10 ^ 19"
    using assms by (auto simp: dec_ok_def dec_bounds_def Suc_le_eq [symmetric] neq_Nil_conv)
  then have "nat \<bar>dec_exponent d\<bar> < 10 ^ 19" by (simp add: nat_less_iff)
  then have "length (show_nat (nat \<bar>dec_exponent d\<bar>)) \<le> 19" by (rule length_show_nat) simp
  then show ?thesis by (simp add: int_text_fits_def INT_MAX_STR_DIGITS_def)
qed

lemma digits_text_canonical:
  assumes "dec_ok d"
  shows "canonical_int_text False (concat (map show_nat (dec_digits d)))"
proof -
  have ok: "\<forall>x \<in> set (dec_digits d). x < 10" "dec_digits d \<noteq> []"
      "hd (dec_digits d) = 0 \<longrightarrow> length (dec_digits d) = 1"
    using assms by (simp_all add: dec_ok_def)
  have "decimal_text (map digit_char (dec_digits d))"
  proof -
    have "digit_char x = CHR ''0'' \<longleftrightarrow> x = 0" if "x < 10" for x
      using that digit_char_simps(2) digit_char_0 by (metis digit_char_simps(2) zero_less_numeral)
    with ok show ?thesis by (cases "dec_digits d") (auto simp: decimal_text_def list_all_iff)
  qed
  moreover have "hd (map digit_char (dec_digits d)) \<noteq> CHR ''-''"
    using ok(1,2) digit_char_simps(1) [of "hd (dec_digits d)"] not_digit(2) by (metis hd_in_set hd_map)
  ultimately show ?thesis using ok by (cases "dec_digits d") (simp_all add: digits_text canonical_int_text_def show_nat_digit)
qed

lemma mk_atom_total:
  assumes "FIELD_SPECS t = Some spec" "length fs = length spec" "validate_fields nfc fs spec = Ok ()"
    and "check_fraction (DurableAtom ''1'' t fs) = Ok ()"
  shows "mk_atom nfc t fs = Ok (DurableAtom ''1'' t fs)"
  unfolding mk_atom_Ok validate_atom_Ok using assms by simp

lemma no_fraction [simp]: "t \<noteq> ''_fraction'' \<Longrightarrow> check_fraction (DurableAtom v t fs) = Ok ()"
  by (simp add: check_fraction_def)

text \<open>\<open>encodes m t\<close>: the encoder \<open>m\<close> returns a valid atom with the tag \<open>t\<close>.\<close>

definition encodes :: "(string \<Rightarrow> string) \<Rightarrow> durable_atom res \<Rightarrow> string \<Rightarrow> bool" where
  "encodes nfc m t \<longleftrightarrow> (\<exists>a. m = Ok a \<and> type_tag a = t \<and> validate_atom nfc a = Ok ())"

lemma encodes_mk_atom:
  assumes "FIELD_SPECS t = Some spec" "length fs = length spec" "validate_fields nfc fs spec = Ok ()"
    and "check_fraction (DurableAtom ''1'' t fs) = Ok ()"
  shows "encodes nfc (mk_atom nfc t fs) t"
  using mk_atom_total [OF assms] unfolding encodes_def by (metis durable_atom.sel(2) mk_atom_Ok)

lemma encodes_child:
  assumes "encodes nfc m t" "\<And>a. type_tag a = t \<Longrightarrow> validate_atom nfc a = Ok () \<Longrightarrow> encodes nfc (f a) t'"
  shows "encodes nfc (bind_res m f) t'"
  using assms by (auto simp: encodes_def)

lemma encodes_integer:
  assumes "int_text_fits n" "FIELD_SPECS t = Some [Spec_text k]" "t \<noteq> ''_fraction''" "validate_leaf_text nfc k (show_int n) = Ok ()"
  shows "encodes nfc (encode_integer_atom nfc t n) t"
  unfolding encode_integer_atom_def int_text_fits_Ok [OF assms(1)] bind_res_simps
  by (rule encodes_mk_atom) (use assms in auto)

lemma encodes_decimal:
  assumes "dec_ok d"
  shows "encodes nfc (encode_decimal_leaf nfc d) ''_decimal''"
proof -
  note e = int_text_fits_Ok [OF dec_exponent_fits [OF assms]]
  have "show_nat (dec_sign d) = ''0'' \<or> show_nat (dec_sign d) = ''1''"
    using assms by (auto simp: dec_ok_def less_2_cases_iff show_nat_digit digit_char_0 digit_char_1)
  then show ?thesis
    unfolding encode_decimal_leaf_def e bind_res_simps
    by (intro encodes_mk_atom) (auto simp: res_simps digits_text_canonical [OF assms] text_of_int_canonical(1) [OF e])
qed

lemma encodes_fraction:
  assumes "quotient_of q = (n, d)" "int_text_fits n" "int_text_fits d"
  shows "encodes nfc (encode_fraction_leaf nfc q) ''_fraction''"
proof -
  note nd = assms(2,3) [THEN int_text_fits_Ok]
  note r = quotient_reduced [OF assms(1)]
  note canon = text_of_int_canonical(1) [OF nd(1)] text_of_int_canonical(2,3) [OF nd(2)]
  show ?thesis
    unfolding encode_fraction_leaf_def assms(1) Let_def case_prod_conv nd bind_res_simps
    by (intro encodes_mk_atom)
      (use r canon nd [THEN int_of_text_of_int] in \<open>auto simp: res_simps check_fraction_def\<close>)
qed

lemma encodes_units: "int_text_fits (units_value u) \<Longrightarrow> encodes nfc (encode_price_units nfc u) ''price_units''"
  unfolding encode_price_units_def
  by (rule encodes_integer) (auto simp: text_of_int_canonical(1) [OF int_text_fits_Ok])

lemma encodes_scale: "dec_ok d \<Longrightarrow> encodes nfc (encode_price_scale nfc d) ''price_scale''"
  unfolding encode_price_scale_def
  by (rule encodes_child [OF encodes_decimal], assumption, rule encodes_mk_atom) auto

lemma encodes_tick:
  "int_text_fits (units_value u) \<Longrightarrow> dec_ok d \<Longrightarrow> encodes nfc (encode_tick_metadata nfc u d) ''tick_metadata''"
  unfolding encode_tick_metadata_def
  by (rule encodes_child [OF encodes_units], assumption, rule encodes_child [OF encodes_scale], assumption,
    rule encodes_mk_atom) auto

lemma encodes_identity:
  "is_canonical_identity_text nfc s \<Longrightarrow> encodes nfc (encode_identity nfc c s) (identity_tag c)"
  unfolding encode_identity_def by (rule encodes_mk_atom) (auto simp: res_simps)

lemma encodes_key:
  assumes "FIELD_SPECS t = Some (map (Spec_atom \<circ> identity_tag) [Class_BrokerId, Class_EnvironmentId, Class_AccountId, c])"
    and "t \<noteq> ''_fraction''" "is_canonical_identity_text nfc (broker_value b)" "is_canonical_identity_text nfc (environment_value e)"
      "is_canonical_identity_text nfc (account_value ac)" "is_canonical_identity_text nfc s"
  shows "encodes nfc (encode_key nfc t b e ac c s) t"
  unfolding encode_key_def
  by (rule encodes_child [OF encodes_identity [OF assms(3)]], rule encodes_child [OF encodes_identity [OF assms(4)]],
    rule encodes_child [OF encodes_identity [OF assms(5)]], rule encodes_child [OF encodes_identity [OF assms(6)]],
    rule encodes_mk_atom [OF assms(1)]) (use assms(2) in auto)

lemma encode_total:
  assumes "m1_ok v" "m1_encodable nfc v"
  shows "\<exists>a. encode_m1_value nfc v = Ok a"
proof -
  have "\<exists>t. encodes nfc (encode_m1_value nfc v) t"
  proof (cases v)
    case (M1_Quantity q)
    with assms have q: "int_text_fits (quantity_value q)" "0 \<le> quantity_value q" by simp_all
    then have "encodes nfc (encode_integer_atom nfc ''quantity'' (quantity_value q)) ''quantity''"
      by (intro encodes_integer [where k = "''nonneg''"]) (auto simp: text_of_int_nonneg [OF int_text_fits_Ok])
    with M1_Quantity show ?thesis by auto
  next
    case (M1_PriceUnits u)
    with assms show ?thesis by (auto intro: encodes_units)
  next
    case (M1_PriceScale d)
    with assms show ?thesis by (auto simp: scale_ok_def intro: encodes_scale)
  next
    case (M1_TickMetadata u d)
    with assms show ?thesis by (auto simp: scale_ok_def intro: encodes_tick)
  next
    case (M1_ReportedPrice u d t)
    with assms have "encodes nfc (encode_reported_price_atom nfc u d t) ''reported_price''"
      unfolding encode_reported_price_atom_def
      by (intro encodes_child [OF encodes_units] encodes_child [OF encodes_scale] encodes_child [OF encodes_tick]
        encodes_mk_atom) (auto simp: scale_ok_def)
    with M1_ReportedPrice show ?thesis by auto
  next
    case (M1_ExactBasis b)
    obtain n d where q: "quotient_of (basis_value b) = (n, d)" by (cases "quotient_of (basis_value b)")
    with assms M1_ExactBasis have "encodes nfc (encode_exact_basis nfc b) ''exact_basis''"
      unfolding encode_exact_basis_def
      by (intro encodes_child [OF encodes_fraction [OF q]] encodes_mk_atom) auto
    with M1_ExactBasis show ?thesis by auto
  next
    case (M1_Identity c s)
    with assms show ?thesis by (auto intro: encodes_identity)
  next
    case (M1_ExecutionFactKey k)
    with assms encodes_key [where c = Class_SourceEventId and t = "''execution_fact_key''"] show ?thesis by fastforce
  next
    case (M1_RootFillKey k)
    with assms encodes_key [where c = Class_RootFillId and t = "''root_fill_key''"] show ?thesis by fastforce
  next
    case (M1_VenueLegKey k)
    with assms encodes_key [where c = Class_OrderId and t = "''venue_leg_key''"] show ?thesis by fastforce
  qed
  then show ?thesis by (auto simp: encodes_def)
qed

end
