(* ===== verification/Codec_Properties.thy ===== *)
theory Codec_Properties
  imports Durable_Codec
begin

text \<open>
  The properties of the durable codec.
\<close>

text \<open>
  C25. The loop that decides whether a fraction is reduced ends for every numerator and denominator,
  zero included, with the greatest common divisor and nothing left over; so the check accepts exactly
  the coprime pairs.
\<close>

theorem reduced_ratio_loop_ends:
  "euclid_loop left right = Some (gcd left right, 0) \<and>
   (is_reduced_ratio n right \<longleftrightarrow> coprime n (int right))"
  by (simp add: euclid_loop_gcd is_reduced_ratio_iff)

text \<open>
  C40. The durable codec is a bijection. An atom decodes to a value exactly when the value is one its
  constructors build and the atom is the one it encodes to: so nothing but the output of the encoder is
  ever accepted, two atoms never stand for one value, and a restored value is the stored one, the
  trailing zeros of a decimal included. A constructed value has an atom as soon as its integers have at
  most 4300 digits and its identity texts are canonical.
\<close>

theorem durable_codec_roundtrip:
  "(decode_m1_value nfc a = Ok v \<longleftrightarrow> m1_ok v \<and> encode_m1_value nfc v = Ok a) \<and>
   (m1_ok v \<and> m1_encodable nfc v \<longrightarrow>
      (\<exists>b. encode_m1_value nfc v = Ok b \<and> decode_m1_value nfc b = Ok v))"
  using encode_total decode_encode by blast

definition example_price :: m1_value where
  "example_price =
     M1_ReportedPrice (PriceUnits 15025) \<lparr>dec_sign = 0, dec_digits = [1, 0], dec_exponent = - 3\<rparr>
       (PriceUnits 1, \<lparr>dec_sign = 0, dec_digits = [1], dec_exponent = - 2\<rparr>)"

lemma durable_codec_roundtrip_witness:
  "\<exists>b. encode_m1_value id example_price = Ok b \<and> decode_m1_value id b = Ok example_price"
proof -
  have "int_text_fits 15025" "int_text_fits 1"
    using length_show_nat [of 15025 5] length_show_nat [of 1 1] by (simp_all add: int_text_fits_def INT_MAX_STR_DIGITS_def)
  then have "m1_ok example_price \<and> m1_encodable id example_price"
    by (simp add: example_price_def scale_ok_def dec_ok_def dec_bounds_def dec_positive_def)
  then show ?thesis using durable_codec_roundtrip [of id undefined example_price] by blast
qed

end
