(* ===== verification/Candidates.thy ===== *)
theory Candidates
  imports Fill_Append
begin

text \<open>
  From a candidate to an order: the pre-trade predicates of \<^verbatim>\<open>app/policy.py\<close>, the
  dispatch planner of \<^verbatim>\<open>app/store/core.py\<close>, the candidate writes of
  \<^verbatim>\<open>app/store/memory.py\<close> and the approval flow of \<^verbatim>\<open>app/approval/human.py\<close>
  and \<^verbatim>\<open>app/facade/store_backed.py\<close>.

  A table is the list of its rows in insertion order. The id of a new row and the clock are
  arguments, one reading per call. Three queries of the store come in as arguments: the order of a
  same-symbol exit that may still execute, the exposure before the order, and whether the symbol is
  quarantined. Symbols are normalised.
\<close>

subsection \<open>Numbers at the boundary\<close>

text \<open>\<^verbatim>\<open>math.isfinite\<close> of an integer converts it to a float first.\<close>

definition finite_number_reason :: "pyval \<Rightarrow> string option res" where
  "finite_number_reason v =
     (case v of
        PInt n \<Rightarrow> bind_res (int_to_float n) (\<lambda>_. Ok None)
      | PFloat x \<Rightarrow> Ok (if float_finite x then None else Some ''non_finite'')
      | _ \<Rightarrow> Ok (Some ''non_numeric''))"

definition float_is_integer :: "float64 \<Rightarrow> bool" where
  "float_is_integer x \<longleftrightarrow> float_finite x \<and> FLOAT_SCALE dvd float_units x"

definition number_negative :: "pyval \<Rightarrow> bool" where
  "number_negative v =
     (case v of PInt n \<Rightarrow> n < 0 | PFloat x \<Rightarrow> float_less x FLOAT_ZERO | _ \<Rightarrow> False)"

definition number_non_positive :: "pyval \<Rightarrow> bool" where
  "number_non_positive v =
     (case v of PInt n \<Rightarrow> n \<le> 0 | PFloat x \<Rightarrow> float_le x FLOAT_ZERO | _ \<Rightarrow> False)"

definition whole_count_value_reason :: "pyval \<Rightarrow> string option res" where
  "whole_count_value_reason v =
     bind_res (finite_number_reason v) (\<lambda>base.
       Ok (if base \<noteq> None then base
           else if (case v of PFloat x \<Rightarrow> \<not> float_is_integer x | _ \<Rightarrow> False) then Some ''non_integer''
           else if number_negative v then Some ''negative''
           else None))"

definition limit_price_reason :: "pyval \<Rightarrow> string option res" where
  "limit_price_reason limit_price =
     (if limit_price = PNone then Ok (Some ''missing_limit_price'')
      else bind_res (finite_number_reason limit_price) (\<lambda>bad.
        Ok (case bad of
              Some b \<Rightarrow> Some (b @ ''_limit_price'')
            | None \<Rightarrow> if number_non_positive limit_price then Some ''non_positive_limit_price'' else None)))"

definition suggested_quantity_reason :: "pyval \<Rightarrow> string option res" where
  "suggested_quantity_reason v =
     (if v = PNone then Ok None
      else bind_res (whole_count_value_reason v) (\<lambda>r.
        Ok (if r = None \<and> number_non_positive v then Some ''non_positive'' else r)))"

definition candidate_numeric_reason :: "pyval \<Rightarrow> pyval \<Rightarrow> (string \<times> string) option res" where
  "candidate_numeric_reason suggested_quantity suggested_limit_price =
     bind_res (suggested_quantity_reason suggested_quantity) (\<lambda>r.
       case r of
         Some reason \<Rightarrow> Ok (Some (''suggested_quantity'', reason))
       | None \<Rightarrow>
           if suggested_limit_price = PNone then Ok None
           else bind_res (limit_price_reason suggested_limit_price) (\<lambda>r.
             Ok (map_option (\<lambda>reason. (''suggested_limit_price'', reason)) r)))"

subsection \<open>The risk gate\<close>

record risk_limits =
  rl_max_shares_per_order :: "float64 option"
  rl_max_notional_per_order :: "float64 option"
  rl_max_total_exposure :: "float64 option"
  rl_allowlist :: "string set option"

text \<open>\<^verbatim>\<open>n > x\<close> for an integer and a float, which Python compares exactly.\<close>

definition int_exceeds_float :: "int \<Rightarrow> float64 \<Rightarrow> bool" where
  "int_exceeds_float n x \<longleftrightarrow> \<not> float_nan x \<and>
     (if float_infinite x then float_negative x else float_units x < n * FLOAT_SCALE)"

definition exceeds :: "float64 option \<Rightarrow> (float64 \<Rightarrow> bool) \<Rightarrow> bool" where
  "exceeds limit breach = (case limit of Some m \<Rightarrow> breach m | None \<Rightarrow> False)"

definition risk_limit_reason ::
  "string \<Rightarrow> int \<Rightarrow> float64 \<Rightarrow> float64 \<Rightarrow> risk_limits \<Rightarrow> string option res" where
  "risk_limit_reason symbol order_quantity order_limit_price exposure_before_order limits =
     (if (case rl_allowlist limits of Some allowed \<Rightarrow> allowed \<noteq> {} \<and> symbol \<notin> allowed | None \<Rightarrow> False)
      then Ok (Some ''not_on_allowlist'')
      else
       bind_res (finite_number_reason (PFloat exposure_before_order)) (\<lambda>a.
       bind_res (if a \<noteq> None then Ok a else finite_number_reason (PFloat order_limit_price)) (\<lambda>nonfinite.
       case nonfinite of
         Some r \<Rightarrow> Ok (Some (''nonfinite_risk_input_'' @ r))
       | None \<Rightarrow>
         if exceeds (rl_max_shares_per_order limits) (int_exceeds_float order_quantity)
         then Ok (Some ''exceeds_max_shares_per_order'')
         else bind_res (int_times_float order_quantity order_limit_price) (\<lambda>order_notional.
           Ok (if exceeds (rl_max_notional_per_order limits) (\<lambda>m. float_less m order_notional)
               then Some ''exceeds_max_notional_per_order''
               else if exceeds (rl_max_total_exposure limits)
                         (\<lambda>m. float_less m (float_add exposure_before_order order_notional))
               then Some ''exceeds_max_total_exposure''
               else None)))))"

definition order_session_resolution_reason :: "session_record option \<Rightarrow> string option" where
  "order_session_resolution_reason session =
     (case session of None \<Rightarrow> Some ''unresolved_session'' | Some _ \<Rightarrow> None)"

subsection \<open>Rows\<close>

fun candidate_status_value :: "candidate_status \<Rightarrow> string" where
  "candidate_status_value Candidate_PENDING = ''pending''"
| "candidate_status_value Candidate_APPROVED = ''approved''"
| "candidate_status_value Candidate_REJECTED = ''rejected''"
| "candidate_status_value Candidate_EXPIRED = ''expired''"
| "candidate_status_value Candidate_ORDERED = ''ordered''"

record candidate_row =
  ca_id :: string
  ca_symbol :: string
  ca_status :: candidate_status
  ca_strategy :: "string option"
  ca_reason :: "string option"
  ca_risk_decision :: "string option"
  ca_suggested_quantity :: "int option"
  ca_suggested_limit_price :: "float64 option"
  ca_session_id :: "string option"
  ca_order_id :: "string option"
  ca_created_at :: instant
  ca_updated_at :: instant
  ca_approved_at :: "instant option"
  ca_rejected_at :: "instant option"
  ca_expired_at :: "instant option"
  ca_ordered_at :: "instant option"

definition candidate_active :: "candidate_row \<Rightarrow> bool" where
  "candidate_active c \<longleftrightarrow> ca_status c = Candidate_PENDING \<or> ca_status c = Candidate_APPROVED"

fun candidate_timestamp :: "candidate_status \<Rightarrow> instant \<Rightarrow> candidate_row \<Rightarrow> candidate_row" where
  "candidate_timestamp Candidate_APPROVED now c = c\<lparr>ca_approved_at := Some now\<rparr>"
| "candidate_timestamp Candidate_REJECTED now c = c\<lparr>ca_rejected_at := Some now\<rparr>"
| "candidate_timestamp Candidate_EXPIRED now c = c\<lparr>ca_expired_at := Some now\<rparr>"
| "candidate_timestamp Candidate_ORDERED now c = c\<lparr>ca_ordered_at := Some now\<rparr>"
| "candidate_timestamp Candidate_PENDING now c = c"

record intake_book =
  ib_sessions :: "session_record list"
  ib_candidates :: "candidate_row list"
  ib_orders :: "order_row list"
  ib_audit :: "event_spec list"

definition find_candidate :: "intake_book \<Rightarrow> string \<Rightarrow> candidate_row option" where
  "find_candidate st i = find (\<lambda>c. ca_id c = i) (ib_candidates st)"

definition find_order :: "intake_book \<Rightarrow> string \<Rightarrow> order_row option" where
  "find_order st i = find (\<lambda>ord. or_id ord = i) (ib_orders st)"

definition find_session :: "intake_book \<Rightarrow> string option \<Rightarrow> session_record option" where
  "find_session st i = find (\<lambda>s. Some (se_id s) = i) (ib_sessions st)"

definition put_candidate :: "intake_book \<Rightarrow> candidate_row \<Rightarrow> intake_book" where
  "put_candidate st c =
     st\<lparr>ib_candidates := map (\<lambda>x. if ca_id x = ca_id c then c else x) (ib_candidates st)\<rparr>"

text \<open>An audit row gets the correlation key of its candidate, or of the sell intent of its order.\<close>

definition truthy :: "string option \<Rightarrow> bool" where
  "truthy s \<longleftrightarrow> s \<noteq> None \<and> s \<noteq> Some []"

definition resolved_correlation :: "intake_book \<Rightarrow> event_spec \<Rightarrow> string option" where
  "resolved_correlation st sp =
     (let key = (if truthy (sp_correlation_id sp) then sp_correlation_id sp else sp_candidate_id sp)
      in case (key, sp_order_id sp) of
           (None, Some i) \<Rightarrow>
             (case find_order st i of
                Some ord \<Rightarrow> if or_sell_intent_id ord \<noteq> None then or_sell_intent_id ord else key
              | None \<Rightarrow> key)
         | _ \<Rightarrow> key)"

definition append_event :: "event_spec \<Rightarrow> intake_book \<Rightarrow> intake_book" where
  "append_event sp st =
     st\<lparr>ib_audit := ib_audit st @ [sp\<lparr>sp_correlation_id := resolved_correlation st sp\<rparr>]\<rparr>"

subsection \<open>The dispatch planner\<close>

datatype create_order_plan =
    CREATE_ORDER_REJECT store_error "event_spec option"
  | CREATE_ORDER_CREATE order_row "event_spec list"

definition blocked_spec :: "string \<Rightarrow> candidate_row \<Rightarrow> string \<Rightarrow> payload \<Rightarrow> event_spec" where
  "blocked_spec event_type c message payload =
     (draft_spec event_type)
       \<lparr>sp_message := ''order intent for '' @ ca_symbol c @ '' blocked: '' @ message,
        sp_symbol := Some (ca_symbol c), sp_candidate_id := Some (ca_id c),
        sp_payload := payload, sp_session_id := ca_session_id c\<rparr>"

definition candidate_order :: "string \<Rightarrow> instant \<Rightarrow> candidate_row \<Rightarrow> int \<Rightarrow> float64 \<Rightarrow> order_row" where
  "candidate_order order_id now c qty limit_price =
     \<lparr>or_id = order_id, or_candidate_id = Some (ca_id c), or_sell_intent_id = None,
      or_symbol = ca_symbol c, or_side = Side_BUY, or_order_type = Type_LIMIT, or_quantity = qty,
      or_limit_price = Some limit_price, or_status = Order_CREATED, or_filled_quantity = 0,
      or_replaces_order_id = None, or_broker_order_id = None, or_session_id = ca_session_id c,
      or_created_at = now, or_updated_at = now, or_submitted_at = None, or_filled_at = None,
      or_canceled_at = None, or_rejected_at = None\<rparr>"

definition order_created_spec :: "candidate_row \<Rightarrow> string \<Rightarrow> event_spec" where
  "order_created_spec c order_id =
     (draft_spec ''order_created'')
       \<lparr>sp_message := ''order created for '' @ ca_symbol c, sp_symbol := Some (ca_symbol c),
        sp_candidate_id := Some (ca_id c), sp_order_id := Some order_id, sp_session_id := ca_session_id c\<rparr>"

definition candidate_ordered_spec :: "candidate_row \<Rightarrow> string \<Rightarrow> event_spec" where
  "candidate_ordered_spec c order_id =
     (draft_spec ''candidate_transition'')
       \<lparr>sp_message := ''candidate approved -> ordered'', sp_symbol := Some (ca_symbol c),
        sp_candidate_id := Some (ca_id c), sp_order_id := Some order_id,
        sp_payload := [''from'' \<mapsto> PStr ''approved'', ''to'' \<mapsto> PStr ''ordered''],
        sp_session_id := ca_session_id c\<rparr>"

definition limit_price_arg :: "float64 option \<Rightarrow> pyval" where
  "limit_price_arg p = (case p of None \<Rightarrow> PNone | Some x \<Rightarrow> PFloat x)"

definition plan_create_order_for_candidate ::
  "string \<Rightarrow> instant \<Rightarrow> candidate_row \<Rightarrow> session_record option \<Rightarrow> float64 \<Rightarrow> risk_limits \<Rightarrow> bool \<Rightarrow>
   create_order_plan res" where
  "plan_create_order_for_candidate order_id now candidate session exposure_before_order limits quarantined =
     (if ca_status candidate \<noteq> Candidate_APPROVED
      then Ok (CREATE_ORDER_REJECT CandidateTransitionError None)
      else case order_session_resolution_reason session of
        Some r \<Rightarrow> Ok (CREATE_ORDER_REJECT OrderIntentBlockedError
          (Some (blocked_spec ''order_intent_blocked'' candidate r [''reason'' \<mapsto> PStr r])))
      | None \<Rightarrow>
      case order_intent_block_reason session of
        Some r \<Rightarrow> Ok (CREATE_ORDER_REJECT OrderIntentBlockedError
          (Some (blocked_spec ''order_intent_blocked'' candidate r [''reason'' \<mapsto> PStr r])))
      | None \<Rightarrow>
      if quarantined
      then Ok (CREATE_ORDER_REJECT OrderIntentBlockedError
        (Some (blocked_spec ''order_intent_blocked_quarantine'' candidate
           ''symbol quarantined after a broker overfill (ADR-001)'' [''reason'' \<mapsto> PStr ''symbol_quarantined''])))
      else case ca_suggested_quantity candidate of
        None \<Rightarrow> Ok (CREATE_ORDER_REJECT InvalidOrderError None)
      | Some qty \<Rightarrow>
      if qty \<le> 0 then Ok (CREATE_ORDER_REJECT InvalidOrderError None)
      else bind_res (limit_price_reason (limit_price_arg (ca_suggested_limit_price candidate))) (\<lambda>bad_price.
      case ca_suggested_limit_price candidate of
        None \<Rightarrow> Ok (CREATE_ORDER_REJECT InvalidOrderError None)
      | Some limit_price \<Rightarrow>
      if bad_price \<noteq> None then Ok (CREATE_ORDER_REJECT InvalidOrderError None)
      else bind_res (risk_limit_reason (ca_symbol candidate) qty limit_price exposure_before_order limits) (\<lambda>risk_block.
        Ok (case risk_block of
          Some r \<Rightarrow> CREATE_ORDER_REJECT RiskLimitBlockedError
            (Some (blocked_spec ''risk_limit_blocked'' candidate r
              [''reason'' \<mapsto> PStr r, ''order_quantity'' \<mapsto> PInt qty, ''order_limit_price'' \<mapsto> PFloat limit_price]))
        | None \<Rightarrow> CREATE_ORDER_CREATE (candidate_order order_id now candidate qty limit_price)
            [order_created_spec candidate order_id, candidate_ordered_spec candidate order_id]))))"

subsection \<open>The writes\<close>

type_synonym 'a intake = "(store_error + 'a) \<times> intake_book"

definition candidate_transition_spec ::
  "candidate_row \<Rightarrow> candidate_status \<Rightarrow> string \<Rightarrow> string option \<Rightarrow> payload \<Rightarrow> event_spec" where
  "candidate_transition_spec c new_status message order_id extra =
     (draft_spec ''candidate_transition'')
       \<lparr>sp_message := message, sp_symbol := Some (ca_symbol c), sp_candidate_id := Some (ca_id c),
        sp_order_id := order_id,
        sp_payload := [''from'' \<mapsto> PStr (candidate_status_value (ca_status c)),
                       ''to'' \<mapsto> PStr (candidate_status_value new_status)] ++ extra,
        sp_session_id := ca_session_id c\<rparr>"

definition new_session :: "string \<Rightarrow> string \<Rightarrow> instant \<Rightarrow> session_record" where
  "new_session session_id today now =
     \<lparr>se_id = session_id, se_session_date = today, se_status = Session_ACTIVE, se_kill_switch = False,
      se_buys_paused = False, se_trading_state = State_ACTIVE, se_opened_at = now, se_closed_at = None,
      se_created_at = now, se_updated_at = now\<rparr>"

definition ensure_current_session :: "string \<Rightarrow> string \<Rightarrow> instant \<Rightarrow> intake_book \<Rightarrow> session_record \<times> intake_book" where
  "ensure_current_session session_id today now st =
     (case find (\<lambda>s. se_session_date s = today) (rev (ib_sessions st)) of
        Some s \<Rightarrow> (s, st)
      | None \<Rightarrow>
          let s = new_session session_id today now
          in (s, append_event ((draft_spec ''session_opened'')
                   \<lparr>sp_message := ''session opened for '' @ today, sp_session_id := Some (se_id s)\<rparr>)
                 (st\<lparr>ib_sessions := ib_sessions st @ [s]\<rparr>)))"

definition active_candidate :: "intake_book \<Rightarrow> string \<Rightarrow> string \<Rightarrow> candidate_row option" where
  "active_candidate st symbol session_id =
     find (\<lambda>c. ca_symbol c = symbol \<and> ca_session_id c = Some session_id \<and> candidate_active c)
       (rev (ib_candidates st))"

record candidate_draft =
  cd_symbol :: string
  cd_strategy :: "string option"
  cd_reason :: "string option"
  cd_risk_decision :: "string option"
  cd_suggested_quantity :: "int option"
  cd_suggested_limit_price :: "float64 option"

definition draft_candidate :: "string \<Rightarrow> instant \<Rightarrow> string \<Rightarrow> candidate_draft \<Rightarrow> candidate_row" where
  "draft_candidate candidate_id now session_id d =
     \<lparr>ca_id = candidate_id, ca_symbol = cd_symbol d, ca_status = Candidate_PENDING,
      ca_strategy = cd_strategy d, ca_reason = cd_reason d, ca_risk_decision = cd_risk_decision d,
      ca_suggested_quantity = cd_suggested_quantity d, ca_suggested_limit_price = cd_suggested_limit_price d,
      ca_session_id = Some session_id, ca_order_id = None, ca_created_at = now, ca_updated_at = now,
      ca_approved_at = None, ca_rejected_at = None, ca_expired_at = None, ca_ordered_at = None\<rparr>"

definition quantity_arg :: "int option \<Rightarrow> pyval" where
  "quantity_arg q = (case q of None \<Rightarrow> PNone | Some n \<Rightarrow> PInt n)"

definition admit_candidate ::
  "string \<Rightarrow> instant \<Rightarrow> string option \<Rightarrow> candidate_draft \<Rightarrow> session_record \<Rightarrow> intake_book \<Rightarrow>
   candidate_row intake" where
  "admit_candidate candidate_id now exit_hit d session st =
     (if se_status session = Session_CLOSED then (Inl SessionClosedError, st)
      else case candidate_numeric_reason (quantity_arg (cd_suggested_quantity d))
                  (limit_price_arg (cd_suggested_limit_price d)) of
        Inl e \<Rightarrow> (Inl (StoreExn e), st)
      | Inr (Some _) \<Rightarrow> (Inl InvalidOrderError, st)
      | Inr None \<Rightarrow>
        if exit_hit \<noteq> None then (Inl OrderIntentBlockedError, st)
        else case active_candidate st (cd_symbol d) (se_id session) of
          Some c \<Rightarrow> (Inr c, st)
        | None \<Rightarrow>
            let c = draft_candidate candidate_id now (se_id session) d
            in (Inr c, append_event ((draft_spec ''candidate_created'')
                  \<lparr>sp_message := ''candidate created for '' @ cd_symbol d, sp_symbol := Some (cd_symbol d),
                   sp_candidate_id := Some candidate_id, sp_session_id := Some (se_id session)\<rparr>)
                (st\<lparr>ib_candidates := ib_candidates st @ [c]\<rparr>)))"

definition create_candidate ::
  "string \<Rightarrow> string \<Rightarrow> string \<Rightarrow> instant \<Rightarrow> string option \<Rightarrow> candidate_draft \<Rightarrow> string option \<Rightarrow> intake_book \<Rightarrow>
   candidate_row intake" where
  "create_candidate candidate_id new_session_id today now exit_hit d session_id st =
     (case session_id of
        None \<Rightarrow> (case ensure_current_session new_session_id today now st of
                   (session, st') \<Rightarrow> admit_candidate candidate_id now exit_hit d session st')
      | Some i \<Rightarrow> (case find_session st (Some i) of
                   None \<Rightarrow> (Inl UnknownEntityError, st)
                 | Some session \<Rightarrow> admit_candidate candidate_id now exit_hit d session st))"

definition transition_candidate ::
  "string \<Rightarrow> candidate_status \<Rightarrow> string option \<Rightarrow> instant \<Rightarrow> intake_book \<Rightarrow> candidate_row intake" where
  "transition_candidate candidate_id new_status order_id now st =
     (case find_candidate st candidate_id of
        None \<Rightarrow> (Inl UnknownEntityError, st)
      | Some c \<Rightarrow>
          if new_status = ca_status c then (Inr c, st)
          else if new_status \<notin> CANDIDATE_TRANSITIONS (ca_status c)
          then (Inl CandidateTransitionError, st)
          else
            let updated = candidate_timestamp new_status now (c\<lparr>ca_status := new_status, ca_updated_at := now\<rparr>);
                updated = (if new_status = Candidate_ORDERED \<and> order_id \<noteq> None
                           then updated\<lparr>ca_order_id := order_id\<rparr> else updated)
            in (Inr updated, append_event
                 (candidate_transition_spec c new_status
                    (''candidate '' @ candidate_status_value (ca_status c) @ '' -> '' @ candidate_status_value new_status)
                    order_id Map.empty)
                 (put_candidate st updated)))"

text \<open>The terminal refusal of a candidate whose symbol is being exited.\<close>

definition expire_candidate :: "instant \<Rightarrow> candidate_row \<Rightarrow> candidate_row" where
  "expire_candidate now c = c\<lparr>ca_status := Candidate_EXPIRED, ca_expired_at := Some now, ca_updated_at := now\<rparr>"

definition preempt_candidate :: "instant \<Rightarrow> string \<Rightarrow> string \<Rightarrow> candidate_row \<Rightarrow> intake_book \<Rightarrow> intake_book" where
  "preempt_candidate now message actor c st =
     append_event
       (candidate_transition_spec c Candidate_EXPIRED message None
          [''reason'' \<mapsto> PStr ''exit_preemption'', ''actor'' \<mapsto> PStr actor])
       (put_candidate st (expire_candidate now c))"

definition dispatch_blocked_spec :: "candidate_row \<Rightarrow> string \<Rightarrow> event_spec" where
  "dispatch_blocked_spec c exit_order_id =
     (draft_spec ''candidate_dispatch_blocked'')
       \<lparr>sp_message := ''candidate '' @ ca_id c @ '' dispatch blocked: same-symbol exit may execute ('' @
                      exit_order_id @ '')'',
        sp_symbol := Some (ca_symbol c), sp_candidate_id := Some (ca_id c),
        sp_payload := [''reason'' \<mapsto> PStr ''same_symbol_exit_may_execute'', ''exit_order_id'' \<mapsto> PStr exit_order_id],
        sp_session_id := ca_session_id c\<rparr>"

definition block_dispatch :: "instant \<Rightarrow> candidate_row \<Rightarrow> string \<Rightarrow> intake_book \<Rightarrow> intake_book" where
  "block_dispatch now c exit_order_id st =
     append_event (dispatch_blocked_spec c exit_order_id)
       (if candidate_active c
        then preempt_candidate now (''candidate '' @ ca_symbol c @ '' '' @ candidate_status_value (ca_status c) @
               '' -> expired (exit preemption)'') COMMAND_ACTOR_SYSTEM c st
        else st)"

definition create_order_for_candidate ::
  "string \<Rightarrow> instant \<Rightarrow> string option \<Rightarrow> float64 res \<Rightarrow> bool \<Rightarrow> risk_limits \<Rightarrow> string \<Rightarrow> intake_book \<Rightarrow>
   order_row intake" where
  "create_order_for_candidate order_id now exit_hit exposure quarantined limits candidate_id st =
     (case find_candidate st candidate_id of
        None \<Rightarrow> (Inl UnknownEntityError, st)
      | Some c \<Rightarrow>
          if ca_status c = Candidate_ORDERED
          then (case Option.bind (ca_order_id c) (find_order st) of
                  None \<Rightarrow> (Inl InvalidOrderError, st)
                | Some existing \<Rightarrow> (Inr existing, st))
          else case exit_hit of
            Some exit_order_id \<Rightarrow> (Inl OrderIntentBlockedError, block_dispatch now c exit_order_id st)
          | None \<Rightarrow>
          case bind_res exposure (\<lambda>exposure_before_order.
                 plan_create_order_for_candidate order_id now c (find_session st (ca_session_id c))
                   exposure_before_order limits quarantined) of
            Inl e \<Rightarrow> (Inl (StoreExn e), st)
          | Inr (CREATE_ORDER_REJECT error reject_event) \<Rightarrow>
              (Inl error, case reject_event of Some sp \<Rightarrow> append_event sp st | None \<Rightarrow> st)
          | Inr (CREATE_ORDER_CREATE ord events) \<Rightarrow>
              (Inr ord, fold append_event events
                 (put_candidate (st\<lparr>ib_orders := ib_orders st @ [ord]\<rparr>)
                    (c\<lparr>ca_status := Candidate_ORDERED, ca_order_id := Some (or_id ord),
                       ca_updated_at := now, ca_ordered_at := Some now\<rparr>))))"

definition revert_candidate_approval :: "string \<Rightarrow> instant \<Rightarrow> intake_book \<Rightarrow> candidate_row intake" where
  "revert_candidate_approval candidate_id now st =
     (case find_candidate st candidate_id of
        None \<Rightarrow> (Inl UnknownEntityError, st)
      | Some c \<Rightarrow>
          if ca_status c \<noteq> Candidate_APPROVED \<or> ca_order_id c \<noteq> None then (Inr c, st)
          else
            let updated = c\<lparr>ca_status := Candidate_PENDING, ca_approved_at := None, ca_updated_at := now\<rparr>
            in (Inr updated, append_event
                 (candidate_transition_spec c Candidate_PENDING ''candidate approved -> pending (dispatch blocked)''
                    None [''reason'' \<mapsto> PStr ''dispatch_blocked''])
                 (put_candidate st updated)))"

text \<open>Standing down the candidates of a symbol, and expiring those of a session that closes.\<close>

definition stand_down_symbol_buy_candidates :: "instant \<Rightarrow> string \<Rightarrow> string \<Rightarrow> intake_book \<Rightarrow> intake_book" where
  "stand_down_symbol_buy_candidates now symbol actor st =
     fold (\<lambda>c st. if ca_symbol c = symbol \<and> candidate_active c
                  then preempt_candidate now (''candidate '' @ symbol @ '' '' @ candidate_status_value (ca_status c) @
                         '' -> expired (exit preemption, REV-0029 P0-2)'') actor c st
                  else st)
       (ib_candidates st) st"

definition expire_session_candidates :: "instant \<Rightarrow> string \<Rightarrow> intake_book \<Rightarrow> intake_book" where
  "expire_session_candidates now session_id st =
     fold (\<lambda>c st. append_event
             (candidate_transition_spec c Candidate_EXPIRED
                (''candidate '' @ candidate_status_value (ca_status c) @ '' -> expired (session close)'') None
                [''reason'' \<mapsto> PStr ''session_close''])
             (put_candidate st (expire_candidate now c)))
       (filter (\<lambda>c. ca_session_id c = Some session_id \<and> candidate_active c) (ib_candidates st)) st"

subsection \<open>The approval flow\<close>

definition human_approve :: "string \<Rightarrow> instant \<Rightarrow> intake_book \<Rightarrow> candidate_row intake" where
  "human_approve candidate_id now st =
     (case find_candidate st candidate_id of
        None \<Rightarrow> (Inl UnknownEntityError, st)
      | Some c \<Rightarrow> if ca_status c = Candidate_ORDERED then (Inr c, st)
                  else transition_candidate candidate_id Candidate_APPROVED None now st)"

definition human_reject :: "string \<Rightarrow> instant \<Rightarrow> intake_book \<Rightarrow> candidate_row intake" where
  "human_reject candidate_id now st = transition_candidate candidate_id Candidate_REJECTED None now st"

datatype facade_error =
    EntityNotFoundError | InvalidInputError | ConflictError | CancelledError | Unmapped store_error

definition facade_error_for :: "store_error \<Rightarrow> facade_error" where
  "facade_error_for e =
     (case e of
        UnknownEntityError \<Rightarrow> EntityNotFoundError
      | CandidateTransitionError \<Rightarrow> ConflictError
      | InvalidOrderError \<Rightarrow> ConflictError
      | OrderIntentBlockedError \<Rightarrow> ConflictError
      | RiskLimitBlockedError \<Rightarrow> ConflictError
      | _ \<Rightarrow> Unmapped e)"

text \<open>Where a cancellation of the request lands; each store call is one atomic step.\<close>

datatype interruption = Not_cancelled | Before_approval | Before_dispatch | After_dispatch

definition dispatchable :: "candidate_row \<Rightarrow> bool res" where
  "dispatchable c =
     (case ca_suggested_quantity c of
        None \<Rightarrow> Ok False
      | Some n \<Rightarrow> if n \<le> 0 then Ok False
          else bind_res (limit_price_reason (limit_price_arg (ca_suggested_limit_price c))) (\<lambda>r. Ok (r = None)))"

text \<open>
  The dispatch after the pre-checks, with the revert that follows every failure and cancellation.
\<close>

definition approve_and_dispatch ::
  "interruption \<Rightarrow> (intake_book \<Rightarrow> order_row intake) \<Rightarrow> string \<Rightarrow> instant \<Rightarrow> intake_book \<Rightarrow>
   (facade_error + candidate_row) \<times> intake_book" where
  "approve_and_dispatch stop dispatch candidate_id now st =
     (let revert = (\<lambda>e st. (Inl e, snd (revert_candidate_approval candidate_id now st)))
      in if stop = Before_approval then revert CancelledError st
         else case human_approve candidate_id now st of
           (Inl e, st) \<Rightarrow> revert (facade_error_for e) st
         | (Inr _, st) \<Rightarrow>
             if stop = Before_dispatch then revert CancelledError st
             else case dispatch st of
               (Inl e, st) \<Rightarrow> revert (facade_error_for e) st
             | (Inr _, st) \<Rightarrow>
                 if stop = After_dispatch then revert CancelledError st
                 else (case find_candidate st candidate_id of
                         Some c \<Rightarrow> (Inr c, st) | None \<Rightarrow> (Inl (Unmapped AssertionError), st)))"

definition approve_candidate ::
  "interruption \<Rightarrow> string \<Rightarrow> string \<Rightarrow> string \<Rightarrow> instant \<Rightarrow> float64 res \<Rightarrow> string option \<Rightarrow> float64 res \<Rightarrow> bool \<Rightarrow>
   risk_limits \<Rightarrow> string \<Rightarrow> intake_book \<Rightarrow> (facade_error + candidate_row) \<times> intake_book" where
  "approve_candidate stop order_id new_session_id today now exposure exit_hit exposure' quarantined limits candidate_id st =
     (let dispatch = create_order_for_candidate order_id now exit_hit exposure' quarantined limits candidate_id
      in case find_candidate st candidate_id of
        None \<Rightarrow> (Inl EntityNotFoundError, st)
      | Some c \<Rightarrow>
          if ca_status c = Candidate_ORDERED then approve_and_dispatch stop dispatch candidate_id now st
          else case dispatchable c of
            Inl e \<Rightarrow> (Inl (Unmapped (StoreExn e)), st)
          | Inr False \<Rightarrow> (Inl InvalidInputError, st)
          | Inr True \<Rightarrow>
          case ensure_current_session new_session_id today now st of
            (session, st) \<Rightarrow>
          if order_intent_block_reason (Some session) \<noteq> None then (Inl ConflictError, st)
          else case bind_res exposure (\<lambda>x. risk_limit_reason (ca_symbol c) (the (ca_suggested_quantity c))
                      (the (ca_suggested_limit_price c)) x limits) of
            Inl e \<Rightarrow> (Inl (Unmapped (StoreExn e)), st)
          | Inr (Some _) \<Rightarrow> (Inl ConflictError, st)
          | Inr None \<Rightarrow> approve_and_dispatch stop dispatch candidate_id now st)"

end
