(* ===== verification/Candidate_Log.thy ===== *)
theory Candidate_Log
  imports Candidates
begin

text \<open>
  Facts about the candidate table: what each write does to it, the invariant that a symbol has at most
  one open candidate in a session and a candidate at most one order, and the machine of the writes.
\<close>

subsection \<open>Lookups\<close>

lemma find_Some_set: "find P xs = Some x \<Longrightarrow> x \<in> set xs \<and> P x"
  by (auto simp: find_Some_iff)

lemma find_candidateD: "find_candidate st i = Some c \<Longrightarrow> c \<in> set (ib_candidates st) \<and> ca_id c = i"
  using find_Some_set by (fastforce simp: find_candidate_def)

lemma find_map_update:
  "find (\<lambda>x. key x = i) (map (\<lambda>x. if key x = key c then c else x) xs) =
     (if i = key c \<and> find (\<lambda>x. key x = i) xs \<noteq> None then Some c else find (\<lambda>x. key x = i) xs)"
  by (induction xs) auto

lemma find_put_candidate:
  "find_candidate (put_candidate st c) i =
     (if i = ca_id c \<and> find_candidate st i \<noteq> None then Some c else find_candidate st i)"
  unfolding find_candidate_def put_candidate_def by (simp add: find_map_update)

lemma append_event_simps [simp]:
  "ib_sessions (append_event sp st) = ib_sessions st" "ib_candidates (append_event sp st) = ib_candidates st"
  "ib_orders (append_event sp st) = ib_orders st" "find_candidate (append_event sp st) i = find_candidate st i"
  "find_order (append_event sp st) i = find_order st i" "find_session (append_event sp st) j = find_session st j"
  by (simp_all add: append_event_def find_candidate_def find_order_def find_session_def)

lemma put_candidate_simps [simp]:
  "ib_sessions (put_candidate st c) = ib_sessions st" "ib_orders (put_candidate st c) = ib_orders st"
  "ib_audit (put_candidate st c) = ib_audit st" "find_order (put_candidate st c) i = find_order st i"
  "find_session (put_candidate st c) j = find_session st j"
  "ib_candidates (put_candidate st c) = map (\<lambda>x. if ca_id x = ca_id c then c else x) (ib_candidates st)"
  by (simp_all add: put_candidate_def find_order_def find_session_def)

lemma candidate_timestamp_simps [simp]:
  "ca_id (candidate_timestamp s now c) = ca_id c" "ca_symbol (candidate_timestamp s now c) = ca_symbol c"
  "ca_status (candidate_timestamp s now c) = ca_status c" "ca_session_id (candidate_timestamp s now c) = ca_session_id c"
  "ca_order_id (candidate_timestamp s now c) = ca_order_id c"
  by (cases s; simp)+

lemma expire_candidate_simps [simp]:
  "ca_id (expire_candidate now c) = ca_id c" "ca_symbol (expire_candidate now c) = ca_symbol c"
  "ca_status (expire_candidate now c) = Candidate_EXPIRED" "ca_session_id (expire_candidate now c) = ca_session_id c"
  "ca_order_id (expire_candidate now c) = ca_order_id c"
  by (simp_all add: expire_candidate_def)

subsection \<open>The invariant\<close>

text \<open>Every candidate belongs to a session; an ordered one has its order and every order of a candidate is its own.\<close>

definition candidate_linked :: "order_row list \<Rightarrow> candidate_row \<Rightarrow> bool" where
  "candidate_linked orders c \<longleftrightarrow>
     ca_session_id c \<noteq> None \<and> (ca_status c = Candidate_ORDERED \<longleftrightarrow> ca_order_id c \<noteq> None) \<and>
     (\<forall>i. ca_order_id c = Some i \<longrightarrow> (\<exists>ord \<in> set orders. or_id ord = i \<and> or_candidate_id ord = Some (ca_id c)))"

definition order_linked :: "candidate_row list \<Rightarrow> order_row \<Rightarrow> bool" where
  "order_linked candidates ord \<longleftrightarrow>
     (\<forall>i. or_candidate_id ord = Some i \<longrightarrow>
        (\<exists>c \<in> set candidates. ca_id c = i \<and> ca_status c = Candidate_ORDERED \<and> ca_order_id c = Some (or_id ord)))"

definition same_slot :: "candidate_row \<Rightarrow> candidate_row \<Rightarrow> bool" where
  "same_slot c d \<longleftrightarrow> ca_symbol c = ca_symbol d \<and> ca_session_id c = ca_session_id d"

definition intake_ok :: "intake_book \<Rightarrow> bool" where
  "intake_ok st \<longleftrightarrow>
     distinct (map ca_id (ib_candidates st)) \<and> distinct (map or_id (ib_orders st)) \<and>
     (\<forall>c \<in> set (ib_candidates st). candidate_linked (ib_orders st) c) \<and>
     (\<forall>ord \<in> set (ib_orders st). order_linked (ib_candidates st) ord) \<and>
     (\<forall>c \<in> set (ib_candidates st). \<forall>d \<in> set (ib_candidates st).
        candidate_active c \<and> candidate_active d \<and> same_slot c d \<longrightarrow> c = d)"

text \<open>A rewrite of one row that keeps its slot and its link, and does not reopen it, keeps the invariant.\<close>

lemma put_candidate_ok:
  assumes ok: "intake_ok st" and c: "c \<in> set (ib_candidates st)"
    and u: "ca_id u = ca_id c" "same_slot u c" "ca_order_id u = ca_order_id c"
      "ca_status u = Candidate_ORDERED \<longleftrightarrow> ca_status c = Candidate_ORDERED"
      "candidate_active u \<Longrightarrow> candidate_active c"
  shows "intake_ok (put_candidate st u)"
proof -
  let ?f = "\<lambda>x. if ca_id x = ca_id u then u else x"
  have ids: "map ca_id (map ?f (ib_candidates st)) = map ca_id (ib_candidates st)" by simp
  have same: "x = c" if "x \<in> set (ib_candidates st)" "ca_id x = ca_id u" for x
    using that c u(1) ok by (auto simp: intake_ok_def distinct_map dest: inj_onD)
  have link_c: "candidate_linked (ib_orders st) (?f x)" if "x \<in> set (ib_candidates st)" for x
  proof -
    have "candidate_linked (ib_orders st) x" using ok that by (simp add: intake_ok_def)
    then show ?thesis using same [OF that] u by (auto simp: candidate_linked_def same_slot_def)
  qed
  have link_o: "order_linked (map ?f (ib_candidates st)) ord" if mem: "ord \<in> set (ib_orders st)" for ord
    unfolding order_linked_def
  proof (intro allI impI)
    fix i
    assume "or_candidate_id ord = Some i"
    then obtain x where x: "x \<in> set (ib_candidates st)" "ca_id x = i" "ca_status x = Candidate_ORDERED"
        "ca_order_id x = Some (or_id ord)"
      using ok mem unfolding intake_ok_def order_linked_def by blast
    have "ca_id (?f x) = i \<and> ca_status (?f x) = Candidate_ORDERED \<and> ca_order_id (?f x) = Some (or_id ord)"
    proof (cases "ca_id x = ca_id u")
      case True
      then have "x = c" by (rule same [OF x(1)])
      with x have "ca_id c = i" "ca_status c = Candidate_ORDERED" "ca_order_id c = Some (or_id ord)" by simp_all
      then show ?thesis unfolding if_P [OF True] using u(1,3,4) by simp
    qed (use x in simp)
    then show "\<exists>c \<in> set (map ?f (ib_candidates st)). ca_id c = i \<and> ca_status c = Candidate_ORDERED \<and> ca_order_id c = Some (or_id ord)"
      by (rule bexI [where x = "?f x"]) (unfold set_map, rule imageI, rule x(1))
  qed
  have slot: "ca_symbol (?f x) = ca_symbol x \<and> ca_session_id (?f x) = ca_session_id x \<and>
      (candidate_active (?f x) \<longrightarrow> candidate_active x)" if mem: "x \<in> set (ib_candidates st)" for x
  proof (cases "ca_id x = ca_id u")
    case True
    then have "x = c" by (rule same [OF mem])
    then show ?thesis unfolding if_P [OF True] using u(2,5) by (simp add: same_slot_def)
  qed simp
  have flight: "?f x = ?f y" if "x \<in> set (ib_candidates st)" "y \<in> set (ib_candidates st)"
      "candidate_active (?f x)" "candidate_active (?f y)" "same_slot (?f x) (?f y)" for x y
  proof -
    have "candidate_active x \<and> candidate_active y \<and> same_slot x y"
      using that(3-5) slot [OF that(1)] slot [OF that(2)] unfolding same_slot_def by metis
    then have "x = y" using ok that(1,2) unfolding intake_ok_def by blast
    then show ?thesis by simp
  qed
  have "\<forall>x \<in> set (map ?f (ib_candidates st)). candidate_linked (ib_orders st) x"
    unfolding set_map ball_simps(9) using link_c by blast
  moreover have "\<forall>x \<in> set (map ?f (ib_candidates st)). \<forall>y \<in> set (map ?f (ib_candidates st)).
      candidate_active x \<and> candidate_active y \<and> same_slot x y \<longrightarrow> x = y"
    unfolding set_map ball_simps(9) using flight by blast
  ultimately show ?thesis
    unfolding intake_ok_def put_candidate_simps ids using ok link_o unfolding intake_ok_def by blast
qed

lemma append_event_ok [simp]: "intake_ok (append_event sp st) \<longleftrightarrow> intake_ok st"
  by (simp add: intake_ok_def)

lemma sessions_ok [simp]: "intake_ok (st\<lparr>ib_sessions := s\<rparr>) \<longleftrightarrow> intake_ok st"
  by (simp add: intake_ok_def)

subsection \<open>Every write keeps it\<close>

lemma ensure_current_session_ok: "intake_ok st \<Longrightarrow> intake_ok (snd (ensure_current_session i today now st))"
  by (auto simp: ensure_current_session_def Let_def split: option.splits)

lemma ensure_current_session_candidates [simp]:
  "ib_candidates (snd (ensure_current_session i today now st)) = ib_candidates st"
  "ib_orders (snd (ensure_current_session i today now st)) = ib_orders st"
  by (auto simp: ensure_current_session_def Let_def split: option.splits)

lemma active_candidate_None:
  "active_candidate st symbol session_id = None \<Longrightarrow> c \<in> set (ib_candidates st) \<Longrightarrow>
     ca_symbol c = symbol \<Longrightarrow> ca_session_id c = Some session_id \<Longrightarrow> \<not> candidate_active c"
  by (auto simp: active_candidate_def find_None_iff)

lemma admit_candidate_ok:
  assumes ok: "intake_ok st" and fresh: "candidate_id \<notin> ca_id ` set (ib_candidates st)"
  shows "intake_ok (snd (admit_candidate candidate_id now exit_hit d session st))"
proof -
  let ?c = "draft_candidate candidate_id now (se_id session) d"
  let ?st = "st\<lparr>ib_candidates := ib_candidates st @ [?c]\<rparr>"
  have new: "ca_id ?c = candidate_id" "ca_symbol ?c = cd_symbol d" "ca_session_id ?c = Some (se_id session)"
      "ca_status ?c = Candidate_PENDING" "ca_order_id ?c = None"
    by (simp_all add: draft_candidate_def)
  have "intake_ok ?st" if "active_candidate st (cd_symbol d) (se_id session) = None"
  proof -
    have alone: "\<not> candidate_active x" if "x \<in> set (ib_candidates st)" "same_slot x ?c" for x
      using active_candidate_None [OF \<open>active_candidate st (cd_symbol d) (se_id session) = None\<close> that(1)] that(2) new
      by (simp add: same_slot_def)
    have linked: "order_linked (ib_candidates st @ [?c]) ord" if "ord \<in> set (ib_orders st)" for ord
      using ok that by (auto simp: intake_ok_def order_linked_def)
    show ?thesis
      using ok fresh new alone linked
      by (auto simp: intake_ok_def candidate_linked_def same_slot_def)
  qed
  then show ?thesis using ok by (auto simp: admit_candidate_def Let_def split: sum.splits option.splits)
qed

lemma create_candidate_ok:
  assumes "intake_ok st" "candidate_id \<notin> ca_id ` set (ib_candidates st)"
  shows "intake_ok (snd (create_candidate candidate_id new_id today now exit_hit d session_id st))"
  using assms admit_candidate_ok [of "snd (ensure_current_session new_id today now st)"] admit_candidate_ok [OF assms]
    ensure_current_session_ok [OF assms(1)]
  by (auto simp: create_candidate_def split: option.splits prod.splits)

lemma transition_active:
  "t \<in> CANDIDATE_TRANSITIONS s \<Longrightarrow> t \<noteq> Candidate_ORDERED \<Longrightarrow>
     s \<noteq> Candidate_ORDERED \<and> (t = Candidate_APPROVED \<longrightarrow> s = Candidate_PENDING) \<and> t \<noteq> Candidate_PENDING"
  by (cases s) auto

lemma transition_candidate_ok:
  assumes "intake_ok st" "new_status \<noteq> Candidate_ORDERED"
  shows "intake_ok (snd (transition_candidate candidate_id new_status order_id now st))"
proof (cases "find_candidate st candidate_id")
  case None
  with assms show ?thesis by (simp add: transition_candidate_def)
next
  case (Some c)
  then have c: "c \<in> set (ib_candidates st)" "ca_id c = candidate_id" using find_candidateD by blast+
  show ?thesis
  proof (cases "new_status \<in> CANDIDATE_TRANSITIONS (ca_status c) \<and> new_status \<noteq> ca_status c")
    case True
    let ?u = "candidate_timestamp new_status now (c\<lparr>ca_status := new_status, ca_updated_at := now\<rparr>)"
    have "intake_ok (put_candidate st ?u)"
      by (rule put_candidate_ok [OF assms(1) c(1)])
        (use transition_active [of new_status "ca_status c"] True assms(2) in
          \<open>auto simp: same_slot_def candidate_active_def\<close>)
    with True Some assms(2) show ?thesis by (simp add: transition_candidate_def Let_def)
  next
    case False
    with Some assms show ?thesis by (auto simp: transition_candidate_def)
  qed
qed

lemma preempt_candidate_ok:
  "intake_ok st \<Longrightarrow> c \<in> set (ib_candidates st) \<Longrightarrow> candidate_active c \<Longrightarrow> intake_ok (preempt_candidate now m actor c st)"
  unfolding preempt_candidate_def append_event_ok
  by (rule put_candidate_ok) (auto simp: same_slot_def candidate_active_def)

lemma revert_candidate_approval_ok:
  assumes "intake_ok st"
  shows "intake_ok (snd (revert_candidate_approval candidate_id now st))"
proof (cases "find_candidate st candidate_id")
  case None
  with assms show ?thesis by (simp add: revert_candidate_approval_def)
next
  case (Some c)
  then have c: "c \<in> set (ib_candidates st)" "ca_id c = candidate_id" using find_candidateD by blast+
  show ?thesis
  proof (cases "ca_status c \<noteq> Candidate_APPROVED \<or> ca_order_id c \<noteq> None")
    case False
    have "intake_ok (put_candidate st (c\<lparr>ca_status := Candidate_PENDING, ca_approved_at := None, ca_updated_at := now\<rparr>))"
      by (rule put_candidate_ok [OF assms c(1)]) (use False in \<open>auto simp: same_slot_def candidate_active_def\<close>)
    with False Some show ?thesis by (simp add: revert_candidate_approval_def Let_def)
  qed (use Some assms in \<open>simp add: revert_candidate_approval_def\<close>)
qed

subsection \<open>Dispatch\<close>

text \<open>The numbers that pass the risk gate.\<close>

definition within_limits :: "string \<Rightarrow> int \<Rightarrow> float64 \<Rightarrow> float64 \<Rightarrow> risk_limits \<Rightarrow> bool" where
  "within_limits symbol qty price exposure limits \<longleftrightarrow>
     (\<forall>allowed. rl_allowlist limits = Some allowed \<longrightarrow> allowed = {} \<or> symbol \<in> allowed) \<and>
     float_finite exposure \<and> float_finite price \<and>
     (\<forall>m. rl_max_shares_per_order limits = Some m \<longrightarrow> \<not> int_exceeds_float qty m) \<and>
     (\<exists>notional. int_times_float qty price = Ok notional \<and>
        (\<forall>m. rl_max_notional_per_order limits = Some m \<longrightarrow> \<not> float_less m notional) \<and>
        (\<forall>m. rl_max_total_exposure limits = Some m \<longrightarrow> \<not> float_less m (float_add exposure notional)))"

lemma exceeds_simps: "exceeds limit breach \<longleftrightarrow> (\<exists>m. limit = Some m \<and> breach m)"
  by (cases limit) (simp_all add: exceeds_def)

lemma finite_number_reason_float [simp]:
  "finite_number_reason (PFloat x) = Ok (if float_finite x then None else Some ''non_finite'')"
  by (simp add: finite_number_reason_def)

lemma risk_limit_reason_None:
  "risk_limit_reason symbol qty price exposure limits = Ok None \<longleftrightarrow> within_limits symbol qty price exposure limits"
  by (auto simp: risk_limit_reason_def within_limits_def exceeds_simps res_simps split: option.splits)

lemma limit_price_reason_float:
  "limit_price_reason (limit_price_arg p) = Ok None \<longleftrightarrow> (\<exists>x. p = Some x \<and> float_finite x \<and> \<not> float_le x FLOAT_ZERO)"
  by (auto simp: limit_price_reason_def limit_price_arg_def number_non_positive_def split: option.splits)

lemma order_intent_clear:
  "order_intent_block_reason (Some s) = None \<longleftrightarrow> se_trading_state s = State_ACTIVE"
  by (simp add: order_intent_block_reason_def split: trading_state.splits)

text \<open>The planner creates an order exactly here.\<close>

definition dispatch_allowed ::
  "candidate_row \<Rightarrow> session_record option \<Rightarrow> float64 \<Rightarrow> risk_limits \<Rightarrow> bool \<Rightarrow> int \<Rightarrow> float64 \<Rightarrow> bool" where
  "dispatch_allowed c session exposure limits quarantined qty price \<longleftrightarrow>
     ca_status c = Candidate_APPROVED \<and> (\<exists>s. session = Some s \<and> se_trading_state s = State_ACTIVE) \<and> \<not> quarantined \<and>
     ca_suggested_quantity c = Some qty \<and> 0 < qty \<and> ca_suggested_limit_price c = Some price \<and>
     \<not> float_le price FLOAT_ZERO \<and> within_limits (ca_symbol c) qty price exposure limits"

lemma within_limits_finite: "within_limits symbol qty price exposure limits \<Longrightarrow> float_finite price \<and> float_finite exposure"
  by (simp add: within_limits_def)

lemma plan_create_order_for_candidate_CREATE:
  "plan_create_order_for_candidate order_id now c session exposure limits quarantined = Ok (CREATE_ORDER_CREATE ord events) \<longleftrightarrow>
     (\<exists>qty price. dispatch_allowed c session exposure limits quarantined qty price \<and>
        ord = candidate_order order_id now c qty price \<and>
        events = [order_created_spec c order_id, candidate_ordered_spec c order_id])"
proof (cases "ca_status c = Candidate_APPROVED \<and> (\<exists>s. session = Some s \<and> se_trading_state s = State_ACTIVE) \<and> \<not> quarantined \<and>
    (\<exists>qty. ca_suggested_quantity c = Some qty \<and> 0 < qty)")
  case False
  then show ?thesis
    by (auto simp: plan_create_order_for_candidate_def dispatch_allowed_def order_session_resolution_reason_def
      order_intent_clear res_simps split: option.splits)
next
  case True
  then obtain s qty where t: "ca_status c = Candidate_APPROVED" "session = Some s" "se_trading_state s = State_ACTIVE"
      "\<not> quarantined" "ca_suggested_quantity c = Some qty" "0 < qty" by blast
  have "order_intent_block_reason (Some s) = None" using t(3) by (simp add: order_intent_clear)
  then have plan: "plan_create_order_for_candidate order_id now c session exposure limits quarantined =
      bind_res (limit_price_reason (limit_price_arg (ca_suggested_limit_price c))) (\<lambda>bad_price.
      case ca_suggested_limit_price c of
        None \<Rightarrow> Ok (CREATE_ORDER_REJECT InvalidOrderError None)
      | Some limit_price \<Rightarrow>
      if bad_price \<noteq> None then Ok (CREATE_ORDER_REJECT InvalidOrderError None)
      else bind_res (risk_limit_reason (ca_symbol c) qty limit_price exposure limits) (\<lambda>risk_block.
        Ok (case risk_block of
          Some r \<Rightarrow> CREATE_ORDER_REJECT RiskLimitBlockedError
            (Some (blocked_spec ''risk_limit_blocked'' c r
              [''reason'' \<mapsto> PStr r, ''order_quantity'' \<mapsto> PInt qty, ''order_limit_price'' \<mapsto> PFloat limit_price]))
        | None \<Rightarrow> CREATE_ORDER_CREATE (candidate_order order_id now c qty limit_price)
            [order_created_spec c order_id, candidate_ordered_spec c order_id])))"
    using t by (simp add: plan_create_order_for_candidate_def order_session_resolution_reason_def)
  show ?thesis
  proof (cases "ca_suggested_limit_price c")
    case None
    then show ?thesis unfolding plan by (auto simp: dispatch_allowed_def res_simps)
  next
    case (Some price)
    show ?thesis
      unfolding plan using t Some limit_price_reason_float [of "Some price"]
        risk_limit_reason_None [of "ca_symbol c" qty price exposure limits] within_limits_finite
      by (fastforce simp: dispatch_allowed_def res_simps split: option.splits)
  qed
qed

definition ordered_candidate :: "candidate_row \<Rightarrow> string \<Rightarrow> instant \<Rightarrow> candidate_row" where
  "ordered_candidate c order_id now =
     c\<lparr>ca_status := Candidate_ORDERED, ca_order_id := Some order_id, ca_updated_at := now, ca_ordered_at := Some now\<rparr>"

text \<open>A store after a dispatch.\<close>

definition dispatched :: "candidate_row \<Rightarrow> order_row \<Rightarrow> instant \<Rightarrow> intake_book \<Rightarrow> intake_book" where
  "dispatched c ord now st =
     fold append_event [order_created_spec c (or_id ord), candidate_ordered_spec c (or_id ord)]
       (put_candidate (st\<lparr>ib_orders := ib_orders st @ [ord]\<rparr>) (ordered_candidate c (or_id ord) now))"

lemma create_order_for_candidate_Inr:
  assumes "find_candidate st candidate_id = Some c" "ca_status c \<noteq> Candidate_ORDERED"
  shows "create_order_for_candidate order_id now exit_hit exposure quarantined limits candidate_id st = (Inr ord, st') \<longleftrightarrow>
    exit_hit = None \<and> (\<exists>x qty price. exposure = Ok x \<and>
      dispatch_allowed c (find_session st (ca_session_id c)) x limits quarantined qty price \<and>
      ord = candidate_order order_id now c qty price) \<and> st' = dispatched c ord now st"
proof (cases "exit_hit")
  case (Some i)
  with assms show ?thesis by (simp add: create_order_for_candidate_def)
next
  case None
  let ?plan = "\<lambda>x. plan_create_order_for_candidate order_id now c (find_session st (ca_session_id c)) x limits quarantined"
  show ?thesis
  proof (cases exposure)
    case (Inl e)
    with assms None show ?thesis by (simp add: create_order_for_candidate_def)
  next
    case (Inr x)
    show ?thesis
    proof (cases "?plan x")
      case (Inl e)
      then have "\<nexists>ord events. ?plan x = Ok (CREATE_ORDER_CREATE ord events)" by simp
      then have "\<nexists>qty price. dispatch_allowed c (find_session st (ca_session_id c)) x limits quarantined qty price"
        by (simp add: plan_create_order_for_candidate_CREATE)
      with Inl assms None Inr show ?thesis by (simp add: create_order_for_candidate_def)
    next
      case (Inr p)
      note px = this
      show ?thesis
      proof (cases p)
        case (CREATE_ORDER_REJECT e r)
        with px have "\<nexists>ord events. ?plan x = Ok (CREATE_ORDER_CREATE ord events)" by simp
        then have "\<nexists>qty price. dispatch_allowed c (find_session st (ca_session_id c)) x limits quarantined qty price"
          by (simp add: plan_create_order_for_candidate_CREATE)
        with px CREATE_ORDER_REJECT assms None \<open>exposure = Inr x\<close> show ?thesis by (simp add: create_order_for_candidate_def)
      next
        case (CREATE_ORDER_CREATE o' events)
        with px have pc: "?plan x = Ok (CREATE_ORDER_CREATE o' events)" by simp
        then obtain qty price where d: "dispatch_allowed c (find_session st (ca_session_id c)) x limits quarantined qty price"
            "o' = candidate_order order_id now c qty price"
            "events = [order_created_spec c order_id, candidate_ordered_spec c order_id]"
          by (auto simp: plan_create_order_for_candidate_CREATE)
        have same: "q = qty \<and> p = price" if "dispatch_allowed c (find_session st (ca_session_id c)) x limits quarantined q p" for q p
          using that d(1) by (simp add: dispatch_allowed_def)
        have "create_order_for_candidate order_id now exit_hit exposure quarantined limits candidate_id st =
            (Inr o', dispatched c o' now st)"
          using d(2,3) pc assms None \<open>exposure = Inr x\<close>
          by (simp add: create_order_for_candidate_def dispatched_def ordered_candidate_def candidate_order_def)
        moreover have "(\<exists>y qty price. exposure = Ok y \<and>
            dispatch_allowed c (find_session st (ca_session_id c)) y limits quarantined qty price \<and>
            ord = candidate_order order_id now c qty price) \<longleftrightarrow> ord = o'"
          using d(1,2) same \<open>exposure = Inr x\<close> by (metis Inr_inject)
        ultimately show ?thesis using None by auto
      qed
    qed
  qed
qed

lemma find_candidate_None: "find_candidate st i = None \<longleftrightarrow> i \<notin> ca_id ` set (ib_candidates st)"
  by (auto simp: find_candidate_def find_None_iff)

lemma dispatched_simps [simp]:
  "ib_orders (dispatched c ord now st) = ib_orders st @ [ord]" "ib_sessions (dispatched c ord now st) = ib_sessions st"
  "ib_candidates (dispatched c ord now st) =
     map (\<lambda>x. if ca_id x = ca_id c then ordered_candidate c (or_id ord) now else x) (ib_candidates st)"
  by (simp_all add: dispatched_def ordered_candidate_def)

lemma dispatched_ok:
  assumes ok: "intake_ok st" and c: "c \<in> set (ib_candidates st)" "ca_status c \<noteq> Candidate_ORDERED"
    and fresh: "or_id ord \<notin> or_id ` set (ib_orders st)" and ord: "or_candidate_id ord = Some (ca_id c)"
  shows "intake_ok (dispatched c ord now st)"
proof -
  let ?u = "ordered_candidate c (or_id ord) now"
  let ?f = "\<lambda>x. if ca_id x = ca_id c then ?u else x"
  have u: "ca_id ?u = ca_id c" "ca_status ?u = Candidate_ORDERED" "ca_order_id ?u = Some (or_id ord)"
      "ca_session_id ?u = ca_session_id c"
    by (simp_all add: ordered_candidate_def)
  have same: "x = c" if "x \<in> set (ib_candidates st)" "ca_id x = ca_id c" for x
    using that c(1) ok by (auto simp: intake_ok_def distinct_map dest: inj_onD)
  have linked: "candidate_linked (ib_orders st) c" using ok c(1) by (simp add: intake_ok_def)
  have ids: "map ca_id (map ?f (ib_candidates st)) = map ca_id (ib_candidates st)" using u(1) by simp
  have link_c: "candidate_linked (ib_orders st @ [ord]) (?f x)" if mem: "x \<in> set (ib_candidates st)" for x
  proof (cases "ca_id x = ca_id c")
    case True
    have "ca_session_id ?u \<noteq> None" using linked u(4) by (simp add: candidate_linked_def)
    then show ?thesis unfolding if_P [OF True] using u(1-3) ord by (simp add: candidate_linked_def)
  next
    case False
    have "candidate_linked (ib_orders st) x" using ok mem by (simp add: intake_ok_def)
    then show ?thesis unfolding if_not_P [OF False] by (auto simp: candidate_linked_def)
  qed
  have link_o: "order_linked (map ?f (ib_candidates st)) o'" if mem: "o' \<in> set (ib_orders st @ [ord])" for o'
    unfolding order_linked_def
  proof (intro allI impI)
    fix i
    assume i: "or_candidate_id o' = Some i"
    show "\<exists>x \<in> set (map ?f (ib_candidates st)). ca_id x = i \<and> ca_status x = Candidate_ORDERED \<and> ca_order_id x = Some (or_id o')"
    proof (cases "o' = ord")
      case True
      have "?f c \<in> ?f ` set (ib_candidates st)" using c(1) by (rule imageI)
      then have "?u \<in> set (map ?f (ib_candidates st))" by simp
      moreover have "ca_id c = i" using ord i True by simp
      ultimately show ?thesis using u True by (intro bexI [where x = ?u]) simp_all
    next
      case False
      with mem have "o' \<in> set (ib_orders st)" by simp
      then obtain x where x: "x \<in> set (ib_candidates st)" "ca_id x = i" "ca_status x = Candidate_ORDERED"
          "ca_order_id x = Some (or_id o')"
        using ok i unfolding intake_ok_def order_linked_def by blast
      then have "ca_id x \<noteq> ca_id c" using same [OF x(1)] c(2) by auto
      then have "?f x = x" by simp
      then have "x \<in> ?f ` set (ib_candidates st)" using imageI [OF x(1), of ?f] by (simp only:)
      then have "x \<in> set (map ?f (ib_candidates st))" unfolding set_map .
      with x show ?thesis by blast
    qed
  qed
  have flight: "?f x = ?f y" if "x \<in> set (ib_candidates st)" "y \<in> set (ib_candidates st)"
      "candidate_active (?f x)" "candidate_active (?f y)" "same_slot (?f x) (?f y)" for x y
  proof -
    have no: "\<not> candidate_active ?u" using u(2) by (simp add: candidate_active_def)
    have fx: "?f x = x" using that(3) no by (auto split: if_splits)
    have fy: "?f y = y" using that(4) no by (auto split: if_splits)
    have "candidate_active x \<and> candidate_active y \<and> same_slot x y" using that(3-5) unfolding fx fy by blast
    then have "x = y" using ok that(1,2) unfolding intake_ok_def by blast
    then show ?thesis by simp
  qed
  have "\<forall>x \<in> set (map ?f (ib_candidates st)). candidate_linked (ib_orders st @ [ord]) x"
    unfolding set_map ball_simps(9) using link_c by blast
  moreover have "\<forall>x \<in> set (map ?f (ib_candidates st)). \<forall>y \<in> set (map ?f (ib_candidates st)).
      candidate_active x \<and> candidate_active y \<and> same_slot x y \<longrightarrow> x = y"
    unfolding set_map ball_simps(9) using flight by blast
  moreover have "distinct (map or_id (ib_orders st @ [ord]))" using ok fresh by (simp add: intake_ok_def)
  ultimately show ?thesis
    unfolding intake_ok_def dispatched_simps ids using ok link_o unfolding intake_ok_def by blast
qed

lemma block_dispatch_ok:
  "intake_ok st \<Longrightarrow> c \<in> set (ib_candidates st) \<Longrightarrow> intake_ok (block_dispatch now c i st)"
  by (simp add: block_dispatch_def preempt_candidate_ok)

text \<open>A call that returns no new order leaves the candidate, or expires it for an exit.\<close>

lemma create_order_for_candidate_Inl:
  assumes "find_candidate st candidate_id = Some c" "ca_status c \<noteq> Candidate_ORDERED"
    "create_order_for_candidate order_id now exit_hit exposure quarantined limits candidate_id st = (Inl e, st')"
  shows "(\<exists>i. exit_hit = Some i \<and> st' = block_dispatch now c i st) \<or> st' = st \<or> (\<exists>sp. st' = append_event sp st)"
  using assms by (auto simp: create_order_for_candidate_def split: option.splits sum.splits create_order_plan.splits)

lemma create_order_for_candidate_ok:
  assumes "intake_ok st" "order_id \<notin> or_id ` set (ib_orders st)"
  shows "intake_ok (snd (create_order_for_candidate order_id now exit_hit exposure quarantined limits candidate_id st))"
proof (cases "find_candidate st candidate_id")
  case None
  with assms show ?thesis by (simp add: create_order_for_candidate_def)
next
  case (Some c)
  then have c: "c \<in> set (ib_candidates st)" "ca_id c = candidate_id" using find_candidateD by blast+
  show ?thesis
  proof (cases "ca_status c = Candidate_ORDERED")
    case True
    with Some assms show ?thesis by (auto simp: create_order_for_candidate_def split: option.splits)
  next
    case False
    obtain r st' where r: "create_order_for_candidate order_id now exit_hit exposure quarantined limits candidate_id st = (r, st')"
      by fastforce
    show ?thesis
    proof (cases r)
      case (Inl e)
      from create_order_for_candidate_Inl [OF Some False r [unfolded Inl]] show ?thesis
        unfolding r snd_conv using assms(1) block_dispatch_ok [OF assms(1) c(1)] by auto
    next
      case (Inr ord)
      from create_order_for_candidate_Inr [OF Some False, THEN iffD1, OF r [unfolded Inr]]
      obtain qty price where "ord = candidate_order order_id now c qty price" "st' = dispatched c ord now st" by blast
      then show ?thesis
        unfolding r snd_conv using dispatched_ok [OF assms(1) c(1) False, of ord now] assms(2)
        by (simp add: candidate_order_def)
    qed
  qed
qed

subsection \<open>Sweeps\<close>

text \<open>A sweep rewrites each row it was started with at most once, so a row is unchanged when its turn comes.\<close>

lemma sweep_ok:
  assumes "\<And>c st. c \<in> set (ib_candidates st) \<Longrightarrow> intake_ok st \<Longrightarrow> P c \<Longrightarrow> intake_ok (f c st)"
    and "\<And>c d st. d \<in> set (ib_candidates st) \<Longrightarrow> ca_id d \<noteq> ca_id c \<Longrightarrow> d \<in> set (ib_candidates (f c st))"
    and "distinct (map ca_id cs)" "set cs \<subseteq> set (ib_candidates st)" "intake_ok st"
  shows "intake_ok (fold (\<lambda>c st. if P c then f c st else st) cs st)"
  using assms(3-5)
proof (induction cs arbitrary: st)
  case (Cons c cs)
  have "intake_ok (f c st)" if "P c" using Cons.prems assms(1) that by simp
  moreover have "set cs \<subseteq> set (ib_candidates (f c st))"
  proof
    fix d
    assume d: "d \<in> set cs"
    then have "ca_id d \<noteq> ca_id c" using Cons.prems(1) by (metis distinct.simps(2) image_eqI list.set_map list.simps(9))
    moreover have "d \<in> set (ib_candidates st)" using d Cons.prems(2) by auto
    ultimately show "d \<in> set (ib_candidates (f c st))" by (rule assms(2) [rotated])
  qed
  ultimately show ?case using Cons by simp
qed simp

lemma put_other: "d \<in> set (ib_candidates st) \<Longrightarrow> ca_id d \<noteq> ca_id c \<Longrightarrow> d \<in> set (ib_candidates (put_candidate st c))"
  by (force simp: image_iff)

lemma stand_down_symbol_buy_candidates_ok:
  assumes "intake_ok st"
  shows "intake_ok (stand_down_symbol_buy_candidates now symbol actor st)"
  unfolding stand_down_symbol_buy_candidates_def
proof (rule sweep_ok [where st = st])
  show "distinct (map ca_id (ib_candidates st))" using assms by (simp add: intake_ok_def)
  show "intake_ok (preempt_candidate now (''candidate '' @ symbol @ '' '' @ candidate_status_value (ca_status c) @
      '' -> expired (exit preemption, REV-0029 P0-2)'') actor c st)"
    if "c \<in> set (ib_candidates st)" "intake_ok st" "ca_symbol c = symbol \<and> candidate_active c" for c st
    using that by (blast intro: preempt_candidate_ok)
qed (use assms put_other in \<open>auto simp: preempt_candidate_def\<close>)

lemma expire_session_candidates_ok:
  assumes "intake_ok st"
  shows "intake_ok (expire_session_candidates now session_id st)"
proof -
  let ?P = "\<lambda>c. ca_session_id c = Some session_id \<and> candidate_active c"
  let ?f = "\<lambda>c st. append_event
             (candidate_transition_spec c Candidate_EXPIRED
                (''candidate '' @ candidate_status_value (ca_status c) @ '' -> expired (session close)'') None
                [''reason'' \<mapsto> PStr ''session_close''])
             (put_candidate st (expire_candidate now c))"
  have "intake_ok (fold (\<lambda>c st. if ?P c then ?f c st else st) (filter ?P (ib_candidates st)) st)"
  proof (rule sweep_ok [where st = st])
    show "distinct (map ca_id (filter ?P (ib_candidates st)))"
      using assms by (auto simp: intake_ok_def distinct_map intro: inj_on_subset)
    show "intake_ok (?f c st)" if "c \<in> set (ib_candidates st)" "intake_ok st" "?P c" for c st
      unfolding append_event_ok using that
      by (intro put_candidate_ok [OF that(2,1)]) (auto simp: same_slot_def candidate_active_def)
  qed (use assms put_other in auto)
  moreover have "fold (\<lambda>c st. if ?P c then ?f c st else st) (filter ?P cs) s = fold ?f (filter ?P cs) s" for cs s
    by (induction cs arbitrary: s) auto
  ultimately show ?thesis unfolding expire_session_candidates_def by simp
qed

subsection \<open>The machine\<close>

text \<open>
  The writes of other components may change sessions and audit rows and rewrite orders, but keep an
  order's identity and origin; the orders they add belong to no candidate.
\<close>

inductive intake_step :: "intake_book \<Rightarrow> intake_book \<Rightarrow> bool" where
  Step_create: "candidate_id \<notin> ca_id ` set (ib_candidates st) \<Longrightarrow>
     intake_step st (snd (create_candidate candidate_id new_id today now exit_hit d session_id st))"
| Step_transition: "new_status \<noteq> Candidate_ORDERED \<Longrightarrow>
     intake_step st (snd (transition_candidate candidate_id new_status order_id now st))"
| Step_dispatch: "order_id \<notin> or_id ` set (ib_orders st) \<Longrightarrow>
     intake_step st (snd (create_order_for_candidate order_id now exit_hit exposure quarantined limits candidate_id st))"
| Step_revert: "intake_step st (snd (revert_candidate_approval candidate_id now st))"
| Step_stand_down: "intake_step st (stand_down_symbol_buy_candidates now symbol actor st)"
| Step_close: "intake_step st (expire_session_candidates now session_id st)"
| Step_other: "map (\<lambda>ord. (or_id ord, or_candidate_id ord)) orders = map (\<lambda>ord. (or_id ord, or_candidate_id ord)) (ib_orders st) \<Longrightarrow>
     \<forall>ord \<in> set added. or_candidate_id ord = None \<Longrightarrow> distinct (map or_id (orders @ added)) \<Longrightarrow>
     intake_step st (st\<lparr>ib_sessions := sessions, ib_orders := orders @ added, ib_audit := audit\<rparr>)"

definition intake_empty :: intake_book where
  "intake_empty = \<lparr>ib_sessions = [], ib_candidates = [], ib_orders = [], ib_audit = []\<rparr>"

definition intake_reachable :: "intake_book \<Rightarrow> bool" where
  "intake_reachable st \<longleftrightarrow> intake_step\<^sup>*\<^sup>* intake_empty st"

lemma other_write_ok:
  assumes ok: "intake_ok st"
    and keys: "map (\<lambda>ord. (or_id ord, or_candidate_id ord)) orders = map (\<lambda>ord. (or_id ord, or_candidate_id ord)) (ib_orders st)"
    and new: "\<forall>ord \<in> set added. or_candidate_id ord = None" "distinct (map or_id (orders @ added))"
  shows "intake_ok (st\<lparr>ib_sessions := sessions, ib_orders := orders @ added, ib_audit := audit\<rparr>)"
proof -
  have same: "(\<exists>ord \<in> set orders. or_id ord = i \<and> or_candidate_id ord = k) \<longleftrightarrow>
      (\<exists>ord \<in> set (ib_orders st). or_id ord = i \<and> or_candidate_id ord = k)" for i k
  proof -
    have "(i, k) \<in> set (map (\<lambda>ord. (or_id ord, or_candidate_id ord)) orders) \<longleftrightarrow>
        (i, k) \<in> set (map (\<lambda>ord. (or_id ord, or_candidate_id ord)) (ib_orders st))" by (simp only: keys)
    then show ?thesis by auto
  qed
  have link_c: "candidate_linked (orders @ added) c" if "c \<in> set (ib_candidates st)" for c
  proof -
    have "candidate_linked (ib_orders st) c" using ok that by (simp add: intake_ok_def)
    then have "candidate_linked orders c" unfolding candidate_linked_def same .
    then show ?thesis by (auto simp: candidate_linked_def)
  qed
  have link_o: "order_linked (ib_candidates st) ord" if mem: "ord \<in> set (orders @ added)" for ord
  proof (cases "ord \<in> set orders")
    case True
    then obtain o' where "o' \<in> set (ib_orders st)" "or_id o' = or_id ord" "or_candidate_id o' = or_candidate_id ord"
      using same [of "or_id ord" "or_candidate_id ord"] by auto
    moreover from this(1) ok have "order_linked (ib_candidates st) o'" by (simp add: intake_ok_def)
    ultimately show ?thesis by (simp add: order_linked_def)
  next
    case False
    with mem new(1) show ?thesis by (simp add: order_linked_def)
  qed
  show ?thesis using ok new(2) link_c link_o by (simp add: intake_ok_def)
qed

lemma intake_step_ok: "intake_step st st' \<Longrightarrow> intake_ok st \<Longrightarrow> intake_ok st'"
  by (induction rule: intake_step.induct)
    (blast intro: create_candidate_ok transition_candidate_ok create_order_for_candidate_ok revert_candidate_approval_ok
      stand_down_symbol_buy_candidates_ok expire_session_candidates_ok other_write_ok)+

lemma intake_reachable_ok: "intake_reachable st \<Longrightarrow> intake_ok st"
  unfolding intake_reachable_def
proof (induction rule: rtranclp_induct)
  case base
  then show ?case by (simp add: intake_ok_def intake_empty_def)
qed (rule intake_step_ok)

subsection \<open>The approval flow\<close>

lemma human_approve_pending:
  assumes "find_candidate st candidate_id = Some c" "ca_status c = Candidate_PENDING"
  obtains c' st' where "human_approve candidate_id now st = (Inr c', st')" "find_candidate st' candidate_id = Some c'"
    "ca_status c' = Candidate_APPROVED" "ca_order_id c' = ca_order_id c" "ib_orders st' = ib_orders st"
proof -
  have i: "ca_id c = candidate_id" using assms(1) find_candidateD by blast
  let ?u = "c\<lparr>ca_status := Candidate_APPROVED, ca_updated_at := now, ca_approved_at := Some now\<rparr>"
  let ?s = "snd (human_approve candidate_id now st)"
  have "human_approve candidate_id now st = (Inr ?u, ?s) \<and> find_candidate ?s candidate_id = Some ?u \<and> ib_orders ?s = ib_orders st"
    using assms i by (simp add: human_approve_def transition_candidate_def Let_def find_put_candidate)
  then show ?thesis using that [of ?u ?s] by simp
qed

definition reverted :: "candidate_row \<Rightarrow> instant \<Rightarrow> candidate_row" where
  "reverted c now =
     (if ca_status c \<noteq> Candidate_APPROVED \<or> ca_order_id c \<noteq> None then c
      else c\<lparr>ca_status := Candidate_PENDING, ca_approved_at := None, ca_updated_at := now\<rparr>)"

lemma revert_candidate_approval_effect:
  assumes "find_candidate st candidate_id = Some c"
  shows "find_candidate (snd (revert_candidate_approval candidate_id now st)) candidate_id = Some (reverted c now)"
    "ib_orders (snd (revert_candidate_approval candidate_id now st)) = ib_orders st"
  using assms find_candidateD [OF assms]
  by (auto simp: revert_candidate_approval_def reverted_def Let_def find_put_candidate)

lemma reverted_status: "ca_order_id c = None \<Longrightarrow> ca_status (reverted c now) \<noteq> Candidate_APPROVED"
  by (simp add: reverted_def)

lemma block_dispatch_candidate:
  assumes "find_candidate st (ca_id c) = Some c" "ca_status c = Candidate_APPROVED"
  shows "find_candidate (block_dispatch now c i st) (ca_id c) = Some (expire_candidate now c)"
    "ib_orders (block_dispatch now c i st) = ib_orders st"
  using assms by (simp_all add: block_dispatch_def preempt_candidate_def candidate_active_def find_put_candidate)

lemma find_dispatched:
  assumes "find_candidate st (ca_id c) = Some c"
  shows "find_candidate (dispatched c ord now st) (ca_id c) = Some (ordered_candidate c (or_id ord) now)"
proof -
  have "find_candidate (st\<lparr>ib_orders := os\<rparr>) i = find_candidate st i" for os i by (simp add: find_candidate_def)
  then show ?thesis using assms by (simp add: dispatched_def find_put_candidate ordered_candidate_def)
qed

text \<open>What a dispatch of an approved candidate leaves.\<close>

lemma dispatch_approved:
  assumes c: "find_candidate st candidate_id = Some c" "ca_status c = Candidate_APPROVED" "ca_order_id c = None"
    and r: "create_order_for_candidate order_id now exit_hit exposure quarantined limits candidate_id st = (r, st')"
  obtains c' where "find_candidate st' candidate_id = Some c'"
    "\<And>ord. r = Inr ord \<Longrightarrow> ca_status c' = Candidate_ORDERED \<and> ca_order_id c' = Some (or_id ord) \<and>
       ib_orders st' = ib_orders st @ [ord] \<and> or_candidate_id ord = Some candidate_id"
    "\<And>e. r = Inl e \<Longrightarrow> ib_orders st' = ib_orders st \<and> ca_order_id c' = None \<and>
       (ca_status c' = Candidate_APPROVED \<or> exit_hit \<noteq> None \<and> ca_status c' = Candidate_EXPIRED)"
proof -
  have i: "ca_id c = candidate_id" using c(1) find_candidateD by blast
  have n: "ca_status c \<noteq> Candidate_ORDERED" using c(2) by simp
  show ?thesis
  proof (cases r)
    case (Inl e)
    from create_order_for_candidate_Inl [OF c(1) n r [unfolded Inl]]
    consider (blocked) j where "exit_hit = Some j" "st' = block_dispatch now c j st" | (same) "st' = st"
      | (row) sp where "st' = append_event sp st" by blast
    then show ?thesis
    proof cases
      case blocked
      then show ?thesis
        using that [of "expire_candidate now c"] block_dispatch_candidate [of st c now j] c i Inl by simp
    qed (use that [of c] c Inl in simp_all)
  next
    case (Inr ord)
    from create_order_for_candidate_Inr [OF c(1) n, THEN iffD1, OF r [unfolded Inr]]
    obtain qty price where o': "ord = candidate_order order_id now c qty price" "st' = dispatched c ord now st" by blast
    have f: "find_candidate st' candidate_id = Some (ordered_candidate c (or_id ord) now)"
      using find_dispatched [of st c ord now] c(1) i o'(2) by simp
    show ?thesis
      by (rule that [OF f]) (use Inr o' i in \<open>auto simp: ordered_candidate_def candidate_order_def\<close>)
  qed
qed

text \<open>A candidate after an approval flow: dispatched, or as a failed flow leaves it.\<close>

definition flow_outcome ::
  "interruption \<Rightarrow> bool \<Rightarrow> order_row list \<Rightarrow> (facade_error + candidate_row) \<Rightarrow> candidate_row \<Rightarrow> order_row list \<Rightarrow> bool" where
  "flow_outcome stop preempted orders r c' orders' \<longleftrightarrow>
     (case r of
        Inr c'' \<Rightarrow> c'' = c' \<and> (\<exists>ord. orders' = orders @ [ord] \<and> or_candidate_id ord = Some (ca_id c') \<and>
          ca_status c' = Candidate_ORDERED \<and> ca_order_id c' = Some (or_id ord))
      | Inl _ \<Rightarrow>
          if stop = After_dispatch \<and> orders' \<noteq> orders
          then (\<exists>ord. orders' = orders @ [ord] \<and> ca_status c' = Candidate_ORDERED \<and> ca_order_id c' = Some (or_id ord))
          else orders' = orders \<and>
               (ca_status c' = Candidate_PENDING \<or> preempted \<and> ca_status c' = Candidate_EXPIRED))"

lemma approve_and_dispatch_outcome:
  assumes c: "find_candidate st candidate_id = Some c" "ca_status c = Candidate_PENDING" "ca_order_id c = None"
    and dispatch: "dispatch = create_order_for_candidate order_id now exit_hit exposure quarantined limits candidate_id"
    and r: "approve_and_dispatch stop dispatch candidate_id now st = (r, st')"
  shows "\<exists>c'. find_candidate st' candidate_id = Some c' \<and> flow_outcome stop (exit_hit \<noteq> None) (ib_orders st) r c' (ib_orders st')"
proof -
  let ?revert = "\<lambda>s. snd (revert_candidate_approval candidate_id now s)"
  have undo: "\<exists>c'. find_candidate (?revert s) candidate_id = Some c' \<and>
      flow_outcome stop (exit_hit \<noteq> None) (ib_orders st) (Inl e) c' (ib_orders (?revert s))"
    if "find_candidate s candidate_id = Some d" "ib_orders s = ib_orders st" "ca_order_id d = None"
      "ca_status d = Candidate_PENDING \<or> ca_status d = Candidate_APPROVED \<or> exit_hit \<noteq> None \<and> ca_status d = Candidate_EXPIRED"
    for s d e
    using revert_candidate_approval_effect [OF that(1)] that(2-4) by (auto simp: flow_outcome_def reverted_def)
  show ?thesis
  proof (cases "stop = Before_approval")
    case True
    then have "st' = ?revert st" "r = Inl CancelledError" using r by (simp_all add: approve_and_dispatch_def)
    then show ?thesis using undo [OF c(1) refl c(3)] c(2) by simp
  next
    case False
    obtain c1 st1 where a: "human_approve candidate_id now st = (Inr c1, st1)" "find_candidate st1 candidate_id = Some c1"
        "ca_status c1 = Candidate_APPROVED" "ca_order_id c1 = ca_order_id c" "ib_orders st1 = ib_orders st"
      using human_approve_pending [OF c(1,2)] .
    show ?thesis
    proof (cases "stop = Before_dispatch")
      case True
      then have "st' = ?revert st1" "r = Inl CancelledError" using r a(1) by (simp_all add: approve_and_dispatch_def)
      then show ?thesis using undo [OF a(2,5)] a(3,4) c(3) by simp
    next
      case nb: False
      obtain q st2 where d: "dispatch st1 = (q, st2)" by fastforce
      obtain c2 where c2: "find_candidate st2 candidate_id = Some c2"
        "\<And>ord. q = Inr ord \<Longrightarrow> ca_status c2 = Candidate_ORDERED \<and> ca_order_id c2 = Some (or_id ord) \<and>
           ib_orders st2 = ib_orders st1 @ [ord] \<and> or_candidate_id ord = Some candidate_id"
        "\<And>e. q = Inl e \<Longrightarrow> ib_orders st2 = ib_orders st1 \<and> ca_order_id c2 = None \<and>
           (ca_status c2 = Candidate_APPROVED \<or> exit_hit \<noteq> None \<and> ca_status c2 = Candidate_EXPIRED)"
        using dispatch_approved [OF a(2,3) _ d [unfolded dispatch]] a(4) c(3) by metis
      show ?thesis
      proof (cases q)
        case (Inl e)
        then have "st' = ?revert st2" "r = Inl (facade_error_for e)"
          using r a(1) d False nb by (simp_all add: approve_and_dispatch_def)
        then show ?thesis using undo [OF c2(1)] c2(3) [OF Inl] a(5) by auto
      next
        case (Inr ord)
        note o' = c2(2) [OF Inr]
        have i: "ca_id c2 = candidate_id" using c2(1) find_candidateD by blast
        show ?thesis
        proof (cases "stop = After_dispatch")
          case True
          then have "st' = ?revert st2" "r = Inl CancelledError"
            using r a(1) d Inr by (simp_all add: approve_and_dispatch_def)
          moreover have "reverted c2 now = c2" using o' by (simp add: reverted_def)
          ultimately show ?thesis
            using revert_candidate_approval_effect [OF c2(1), of now] o' a(5) True by (auto simp: flow_outcome_def)
        next
          case False
          then have "st' = st2" "r = Inr c2"
            using r a(1) d Inr nb \<open>stop \<noteq> Before_approval\<close> c2(1) by (simp_all add: approve_and_dispatch_def)
          then show ?thesis using c2(1) o' a(5) i by (auto simp: flow_outcome_def)
        qed
      qed
    qed
  qed
qed

lemma approve_candidate_outcome:
  assumes c: "find_candidate st candidate_id = Some c" "ca_status c = Candidate_PENDING" "ca_order_id c = None"
    and r: "approve_candidate stop order_id new_id today now exposure exit_hit exposure' quarantined limits candidate_id st = (r, st')"
  shows "\<exists>c'. find_candidate st' candidate_id = Some c' \<and> flow_outcome stop (exit_hit \<noteq> None) (ib_orders st) r c' (ib_orders st')"
proof -
  obtain session st1 where s: "ensure_current_session new_id today now st = (session, st1)" by fastforce
  then have st1: "ib_candidates st1 = ib_candidates st" "ib_orders st1 = ib_orders st"
    using ensure_current_session_candidates [of new_id today now st] by simp_all
  then have f: "find_candidate st1 candidate_id = Some c" using c(1) by (simp add: find_candidate_def)
  have keep: ?thesis if "r = Inl e" "st' = st \<or> st' = st1" for e
    using that c f st1 by (auto simp: flow_outcome_def)
  note dispatch = approve_and_dispatch_outcome [OF f c(2,3) refl]
  show ?thesis
  proof (cases "dispatchable c = Ok True \<and> order_intent_block_reason (Some session) = None \<and>
      bind_res exposure (\<lambda>x. risk_limit_reason (ca_symbol c) (the (ca_suggested_quantity c))
        (the (ca_suggested_limit_price c)) x limits) = Ok None")
    case True
    then have "approve_and_dispatch stop
        (create_order_for_candidate order_id now exit_hit exposure' quarantined limits candidate_id) candidate_id now st1 = (r, st')"
      using r c(1,2) s by (simp add: approve_candidate_def)
    from dispatch [OF this] show ?thesis by (simp add: st1)
  next
    case False
    then have "\<exists>e. r = Inl e \<and> (st' = st \<or> st' = st1)"
      using r c(1,2) s by (auto simp: approve_candidate_def Let_def split: sum.splits bool.splits option.splits if_splits)
    then show ?thesis using keep by blast
  qed
qed

end
