(* ===== verification/Float_Ops.thy ===== *)
theory Float_Ops
  imports Floats
begin

text \<open>
  The float operations of the analytic code: difference, absolute value, \<^verbatim>\<open>min\<close> and
  \<^verbatim>\<open>max\<close> as Python picks them, conversion to integers, decimal rounding, and the literals.
\<close>

subsection \<open>Operations\<close>

definition float_neg :: "float64 \<Rightarrow> float64" where
  "float_neg x = float_make (\<not> float_negative x) (float_magnitude x)"

definition float_sub :: "float64 \<Rightarrow> float64 \<Rightarrow> float64" where
  "float_sub a b = float_add a (if float_nan b then b else float_neg b)"

definition float_abs :: "float64 \<Rightarrow> float64" where
  "float_abs x = float_make False (float_magnitude x)"

definition float_eq :: "float64 \<Rightarrow> float64 \<Rightarrow> bool" where
  "float_eq a b \<longleftrightarrow> \<not> float_nan a \<and> \<not> float_nan b \<and> float_key a = float_key b"

definition FLOAT_INF :: float64 where
  "FLOAT_INF = float_make False FLOAT_INF_BITS"

text \<open>
  \<^verbatim>\<open>max(a, b)\<close> keeps its first argument unless the second is greater,
  \<^verbatim>\<open>min(a, b)\<close> unless the second is less.
\<close>

definition float_max :: "float64 \<Rightarrow> float64 \<Rightarrow> float64" where
  "float_max a b = (if float_less a b then b else a)"

definition float_min :: "float64 \<Rightarrow> float64 \<Rightarrow> float64" where
  "float_min a b = (if float_less b a then b else a)"

definition floats_max :: "float64 list \<Rightarrow> float64" where
  "floats_max xs = foldl float_max (hd xs) (tl xs)"

definition floats_min :: "float64 list \<Rightarrow> float64" where
  "floats_min xs = foldl float_min (hd xs) (tl xs)"

text \<open>\<^verbatim>\<open>sum\<close> adds from the left, as CPython up to 3.11 does; the empty sum is zero.\<close>

definition float_sum :: "float64 list \<Rightarrow> float64" where
  "float_sum xs = foldl float_add FLOAT_ZERO xs"

text \<open>A division or conversion that the surrounding code keeps from raising.\<close>

definition unguarded :: "float64 res \<Rightarrow> float64" where
  "unguarded r = (case r of Inr x \<Rightarrow> x | Inl _ \<Rightarrow> FLOAT_NAN)"

text \<open>\<^verbatim>\<open>int(x)\<close>, \<^verbatim>\<open>math.ceil(x)\<close> and \<^verbatim>\<open>round(x)\<close>.\<close>

definition whole :: "(int \<Rightarrow> int) \<Rightarrow> float64 \<Rightarrow> int res" where
  "whole convert x =
     (if float_nan x then Raise ValueError
      else if float_infinite x then Raise OverflowError
      else Ok (convert (float_units x)))"

definition float_trunc :: "float64 \<Rightarrow> int res" where
  "float_trunc = whole (\<lambda>u. sgn u * (\<bar>u\<bar> div FLOAT_SCALE))"

definition float_ceil :: "float64 \<Rightarrow> int res" where
  "float_ceil = whole (\<lambda>u. - (- u div FLOAT_SCALE))"

definition float_round_int :: "float64 \<Rightarrow> int res" where
  "float_round_int = whole (\<lambda>u. sgn u * round_half_even \<bar>u\<bar> FLOAT_SCALE)"

text \<open>\<^verbatim>\<open>round(x, digits)\<close>: the nearest decimal, ties to even, and the float nearest to that.\<close>

definition float_round_digits :: "float64 \<Rightarrow> nat \<Rightarrow> float64" where
  "float_round_digits x digits =
     (if float_finite x
      then float_round (float_negative x) (round_half_even (\<bar>float_units x\<bar> * 10 ^ digits) FLOAT_SCALE * FLOAT_SCALE) (10 ^ digits)
      else x)"

text \<open>\<^verbatim>\<open>0.5 ** n\<close>.\<close>

definition half_power :: "nat \<Rightarrow> float64" where
  "half_power n = float_round False FLOAT_SCALE (2 ^ n)"

text \<open>\<^verbatim>\<open>price or 0.0\<close>.\<close>

definition price_or_zero :: "float64 option \<Rightarrow> float64" where
  "price_or_zero p = (case p of None \<Rightarrow> FLOAT_ZERO | Some x \<Rightarrow> if float_zero x then FLOAT_ZERO else x)"

subsection \<open>Order\<close>

lemma float_finite_iff: "float_finite x \<longleftrightarrow> \<not> float_nan x \<and> \<not> float_infinite x"
  by (auto simp: float_finite_def float_nan_def float_infinite_def float_magnitude_def FLOAT_INF_BITS_def)

lemma float_less_trans [trans]: "float_less a b \<Longrightarrow> float_less b c \<Longrightarrow> float_less a c"
  by (auto simp: float_less_def)

lemma float_less_irrefl [simp]: "\<not> float_less a a"
  by (simp add: float_less_def)

lemma float_le_less_trans: "float_le a b \<Longrightarrow> float_less b c \<Longrightarrow> float_less a c"
  and float_less_le_trans: "float_less a b \<Longrightarrow> float_le b c \<Longrightarrow> float_less a c"
  and float_le_trans: "float_le a b \<Longrightarrow> float_le b c \<Longrightarrow> float_le a c"
  by (auto simp: float_less_def float_le_def)

lemma not_float_less: "\<not> float_nan a \<Longrightarrow> \<not> float_nan b \<Longrightarrow> \<not> float_less a b \<longleftrightarrow> float_le b a"
  by (auto simp: float_less_def float_le_def)

text \<open>The running maximum: the first value stays unless a greater one comes.\<close>

definition at_least :: "float64 \<Rightarrow> float64 \<Rightarrow> bool" where
  "at_least a b \<longleftrightarrow> a = b \<or> float_less b a"

lemma at_least_refl [simp]: "at_least a a"
  by (simp add: at_least_def)

lemma at_least_trans: "at_least a b \<Longrightarrow> at_least b c \<Longrightarrow> at_least a c"
  by (auto simp: at_least_def intro: float_less_trans)

lemma float_max_at_least: "at_least (float_max a b) a"
  by (simp add: at_least_def float_max_def)

lemma foldl_float_max_at_least: "at_least (foldl float_max a xs) a"
  by (induction xs arbitrary: a) (auto intro: at_least_trans float_max_at_least)

end
