(* ===== verification/Exposure.thy ===== *)
theory Exposure
  imports Candidates Float_Ops Order_Events "HOL-Library.AList" "HOL-Library.List_Lexorder" "HOL-Library.Char_ord"
begin

text \<open>
  The exposure before an order: \<^verbatim>\<open>existing_exposure\<close>,
  \<^verbatim>\<open>unrepresented_accepted_buy_exposure\<close> and the accepted-submit facts of
  \<^verbatim>\<open>app/policy.py\<close>, and their composition in \<^verbatim>\<open>app/store/memory.py\<close>.

  \<^verbatim>\<open>sum\<close> adds from the left, as CPython up to 3.11 does; the empty sum, the integer 0, is
  kept as the float 0. A dictionary is an association list in insertion order. The random id of an
  event, which the event record leaves out, is the argument \<open>event_id\<close>.
\<close>

subsection \<open>Helpers\<close>

definition order_non_terminal :: "order_status \<Rightarrow> bool" where
  "order_non_terminal s \<longleftrightarrow> ORDER_TRANSITIONS s \<noteq> {}"

text \<open>\<^verbatim>\<open>str.strip()\<close> on the UTF-8 bytes of a text.\<close>

fun lstrip :: "string \<Rightarrow> string" where
  "lstrip (a # b # c # cs) =
     (if space1 (of_char a) then lstrip (b # c # cs)
      else if space2 (of_char a) (of_char b) then lstrip (c # cs)
      else if space3 (of_char a) (of_char b) (of_char c) then lstrip cs
      else a # b # c # cs)"
| "lstrip s = (if is_blank s then [] else if s \<noteq> [] \<and> space1 (of_char (hd s)) then tl s else s)"

fun rstrip :: "string \<Rightarrow> string" where
  "rstrip [] = []"
| "rstrip (c # cs) = (if is_blank (c # cs) then [] else c # rstrip cs)"

definition strip :: "string \<Rightarrow> string" where
  "strip s = rstrip (lstrip s)"

subsection \<open>Rows\<close>

datatype recovery_status =
    RECOVERY_UNRESOLVED | RECOVERY_RESOLVED | RECOVERY_NEEDS_REVIEW | RECOVERY_OPERATOR_RECONCILED

definition recovery_open :: "recovery_status \<Rightarrow> bool" where
  "recovery_open s \<longleftrightarrow> s = RECOVERY_UNRESOLVED \<or> s = RECOVERY_NEEDS_REVIEW"

record recovery_row =
  rr_id :: string
  rr_local_order_id :: string
  rr_broker_order_id :: string
  rr_client_order_id :: "string option"
  rr_symbol :: string
  rr_side :: order_side
  rr_quantity :: int
  rr_limit_price :: "float64 option"
  rr_failure_reason :: string
  rr_cleanup_status :: recovery_status
  rr_retry_count :: int
  rr_session_id :: "string option"
  rr_created_at :: instant
  rr_last_attempt_at :: "instant option"

subsection \<open>Ordinary exposure\<close>

definition filled_by_order :: "fill_row list \<Rightarrow> string \<Rightarrow> int option" where
  "filled_by_order fills i =
     (let own = filter (\<lambda>f. fr_order_id f = i) fills
      in if own = [] then None else Some (sum_list (map fr_quantity own)))"

definition order_remaining :: "fill_row list \<Rightarrow> order_row \<Rightarrow> int" where
  "order_remaining fills ord =
     or_quantity ord - (case filled_by_order fills (or_id ord) of Some n \<Rightarrow> n | None \<Rightarrow> or_filled_quantity ord)"

definition existing_exposure :: "position_row list \<Rightarrow> order_row list \<Rightarrow> fill_row list \<Rightarrow> float64 res" where
  "existing_exposure positions open_orders fills =
     bind_res (map_res (\<lambda>ord. int_times_float (order_remaining fills ord) (price_or_zero (or_limit_price ord)))
                 (filter (\<lambda>ord. order_non_terminal (or_status ord) \<and> or_side ord = Side_BUY) open_orders))
       (\<lambda>notionals. Ok (float_add (float_sum (map ps_cost_basis positions)) (float_sum notionals)))"

subsection \<open>Accepted-submit facts\<close>

definition ACCEPTED_SUBMIT_UNPERSISTED_REASON :: string where
  "ACCEPTED_SUBMIT_UNPERSISTED_REASON = ''accepted_submit_unpersisted''"

definition is_accepted_submit_uncertainty_event :: "execution_event \<Rightarrow> bool" where
  "is_accepted_submit_uncertainty_event e \<longleftrightarrow>
     ev_event_type e = Event_UNKNOWN_RECONCILE_REQUIRED \<and>
     ev_payload e ''reason'' = Some (PStr ACCEPTED_SUBMIT_UNPERSISTED_REASON)"

definition payload_broker_id :: "execution_event \<Rightarrow> string option" where
  "payload_broker_id e =
     (case ev_payload e ''broker_order_id'' of
        Some (PStr s) \<Rightarrow> if strip s \<noteq> [] then Some s else None
      | _ \<Rightarrow> None)"

definition price_matches :: "float64 option \<Rightarrow> float64 option \<Rightarrow> bool" where
  "price_matches a b = (case (a, b) of (None, None) \<Rightarrow> True | (Some x, Some y) \<Rightarrow> float_eq x y | _ \<Rightarrow> False)"

definition canonical_accepted_submit_broker_id :: "execution_event \<Rightarrow> order_row option \<Rightarrow> string option" where
  "canonical_accepted_submit_broker_id e referenced =
     (case (referenced, payload_broker_id e) of
        (Some ord, Some raw) \<Rightarrow>
          (let canonical_broker_id = strip raw
           in if is_accepted_submit_uncertainty_event e \<and> ev_order_id e = Some (or_id ord) \<and>
                 ev_source e = Source_ENGINE \<and> ev_authority e = Authority_LOCAL \<and>
                 ev_dedupe_key e = Some (''accepted_submit_unpersisted:'' @ or_id ord @ '':'' @ canonical_broker_id) \<and>
                 ev_symbol e = Some (or_symbol ord) \<and> ev_side e = Some (or_side ord) \<and>
                 ev_quantity e = Some (or_quantity ord) \<and> price_matches (ev_price e) (or_limit_price ord) \<and>
                 ev_session_id e = or_session_id ord \<and>
                 ev_correlation_id e = (if truthy (or_sell_intent_id ord) then or_sell_intent_id ord
                                        else or_candidate_id ord)
              then Some canonical_broker_id else None)
      | _ \<Rightarrow> None)"

text \<open>Whether the order row or a recovery row already stands for the accepted venue order.\<close>

definition represented :: "execution_event \<Rightarrow> order_row option \<Rightarrow> recovery_row list \<Rightarrow> bool" where
  "represented e referenced recoveries =
     (case (canonical_accepted_submit_broker_id e referenced, referenced, ev_order_id e) of
        (Some b, Some ord, Some i) \<Rightarrow>
          or_broker_order_id ord = Some b \<or>
          (\<exists>r \<in> set recoveries. rr_local_order_id r = i \<and> rr_broker_order_id r = b)
      | _ \<Rightarrow> False)"

definition order_by_id :: "order_row list \<Rightarrow> string \<Rightarrow> order_row option" where
  "order_by_id orders i = find (\<lambda>ord. or_id ord = i) (rev orders)"

definition accepted_submit_uncertainty_order_ids ::
  "execution_event list \<Rightarrow> order_row list \<Rightarrow> recovery_row list \<Rightarrow> string \<Rightarrow> order_side \<Rightarrow> string option \<Rightarrow> string list" where
  "accepted_submit_uncertainty_order_ids events orders recoveries symbol side exclude_order_id =
     rev (remdups (rev (List.map_filter (\<lambda>e.
       case ev_order_id e of
         None \<Rightarrow> None
       | Some i \<Rightarrow>
           (let referenced = order_by_id orders i
            in if is_accepted_submit_uncertainty_event e \<and> i \<noteq> [] \<and> Some i \<noteq> exclude_order_id \<and>
                  (ev_symbol e = Some symbol \<and> ev_side e = Some side \<or>
                   (\<exists>ord \<in> set_option referenced. or_symbol ord = symbol \<and> or_side ord = side)) \<and>
                  \<not> represented e referenced recoveries
               then Some i else None)) events)))"

subsection \<open>Unrepresented accepted buys\<close>

text \<open>A leg is a quantity and a unit price; \<open>None\<close> is a bound that is not known.\<close>

type_synonym leg = "int option \<times> float64 option"

definition positive_quantity :: "int option \<Rightarrow> int list" where
  "positive_quantity q = (case q of Some n \<Rightarrow> if n > 0 then [n] else [] | None \<Rightarrow> [])"

definition positive_price :: "float64 option \<Rightarrow> float64 list" where
  "positive_price p =
     (case p of Some x \<Rightarrow> if float_finite x \<and> float_less FLOAT_ZERO x then [x] else [] | None \<Rightarrow> [])"

definition first_max :: "('a \<Rightarrow> 'a \<Rightarrow> 'a) \<Rightarrow> 'a list \<Rightarrow> 'a option" where
  "first_max larger xs = (case xs of [] \<Rightarrow> None | x # xs \<Rightarrow> Some (foldl larger x xs))"

definition leg_scope :: "order_row option \<Rightarrow> int option \<Rightarrow> float64 option \<Rightarrow> leg" where
  "leg_scope referenced quantity price =
     (first_max max (positive_quantity quantity @
        (case referenced of Some ord \<Rightarrow> positive_quantity (Some (or_quantity ord)) | None \<Rightarrow> [])),
      first_max float_max (positive_price price @
        (case referenced of Some ord \<Rightarrow> positive_price (or_limit_price ord) | None \<Rightarrow> [])))"

definition merge_scope :: "leg \<Rightarrow> leg \<Rightarrow> leg" where
  "merge_scope prior incoming =
     ((case (fst prior, fst incoming) of (Some a, Some b) \<Rightarrow> Some (max a b) | _ \<Rightarrow> None),
      (case (snd prior, snd incoming) of (Some a, Some b) \<Rightarrow> Some (float_max a b) | _ \<Rightarrow> None))"

type_synonym legs = "(string \<times> leg) list"

definition retain_leg :: "string \<Rightarrow> leg \<Rightarrow> legs \<Rightarrow> legs" where
  "retain_leg identity incoming legs =
     AList.update identity (case map_of legs identity of None \<Rightarrow> incoming | Some prior \<Rightarrow> merge_scope prior incoming) legs"

definition retain ::
  "order_row list \<Rightarrow> string \<Rightarrow> string \<Rightarrow> int option \<Rightarrow> float64 option \<Rightarrow> (string \<times> legs) list \<Rightarrow> (string \<times> legs) list" where
  "retain orders i identity quantity price legs_by_order =
     AList.update i (retain_leg identity (leg_scope (order_by_id orders i) quantity price)
       (case map_of legs_by_order i of Some legs \<Rightarrow> legs | None \<Rightarrow> [])) legs_by_order"

definition is_buy :: "order_side option \<Rightarrow> order_row option \<Rightarrow> bool" where
  "is_buy side referenced \<longleftrightarrow> side = Some Side_BUY \<or> (\<exists>ord \<in> set_option referenced. or_side ord = Side_BUY)"

definition retain_recovery ::
  "order_row list \<Rightarrow> recovery_row \<Rightarrow> (string \<times> legs) list \<Rightarrow> (string \<times> legs) list" where
  "retain_recovery orders r legs_by_order =
     (if recovery_open (rr_cleanup_status r) \<and> is_buy (Some (rr_side r)) (order_by_id orders (rr_local_order_id r))
      then retain orders (rr_local_order_id r)
             (if strip (rr_broker_order_id r) \<noteq> [] then ''broker:'' @ rr_broker_order_id r else ''recovery:'' @ rr_id r)
             (Some (rr_quantity r)) (rr_limit_price r) legs_by_order
      else legs_by_order)"

definition retain_event ::
  "(execution_event \<Rightarrow> string) \<Rightarrow> order_row list \<Rightarrow> recovery_row list \<Rightarrow> execution_event \<Rightarrow> (string \<times> legs) list \<Rightarrow>
   (string \<times> legs) list" where
  "retain_event event_id orders recoveries e legs_by_order =
     (case ev_order_id e of
        None \<Rightarrow> legs_by_order
      | Some i \<Rightarrow>
          if is_accepted_submit_uncertainty_event e \<and> i \<noteq> [] \<and> is_buy (ev_side e) (order_by_id orders i) \<and>
             \<not> represented e (order_by_id orders i) recoveries
          then retain orders i
                 (case payload_broker_id e of Some b \<Rightarrow> ''broker:'' @ b | None \<Rightarrow> ''event:'' @ event_id e)
                 (ev_quantity e) (ev_price e) legs_by_order
          else legs_by_order)"

definition accepted_legs ::
  "(execution_event \<Rightarrow> string) \<Rightarrow> order_row list \<Rightarrow> recovery_row list \<Rightarrow> execution_event list \<Rightarrow> (string \<times> legs) list" where
  "accepted_legs event_id orders recoveries events =
     fold (retain_event event_id orders recoveries) events (fold (retain_recovery orders) recoveries [])"

definition nominal :: "leg \<Rightarrow> float64 res" where
  "nominal l = (case l of (Some q, Some p) \<Rightarrow> int_times_float q p | _ \<Rightarrow> Ok FLOAT_INF)"

text \<open>The key of the first smallest value.\<close>

fun min_key :: "(string \<times> float64) \<Rightarrow> (string \<times> float64) list \<Rightarrow> string" where
  "min_key best [] = fst best"
| "min_key best (x # xs) = min_key (if float_less (snd x) (snd best) then x else best) xs"

text \<open>A row without a broker identity stands for one of the legs; the smallest is the careful choice.\<close>

definition merge_smallest :: "leg \<Rightarrow> legs \<Rightarrow> legs res" where
  "merge_smallest scope legs =
     bind_res (map_res (\<lambda>entry. bind_res (nominal (snd entry)) (\<lambda>x. Ok (fst entry, x))) legs) (\<lambda>nominals.
       Ok (if nominals = [] then legs else retain_leg (min_key (hd nominals) (tl nominals)) scope legs))"

definition merge_ordinary :: "order_row \<Rightarrow> legs \<Rightarrow> legs res" where
  "merge_ordinary ord legs =
     (let scope = leg_scope (Some ord) (Some (or_quantity ord)) (or_limit_price ord)
      in case or_broker_order_id ord of
           Some b \<Rightarrow> if strip b \<noteq> [] then Ok (retain_leg (''broker:'' @ b) scope legs) else merge_smallest scope legs
         | None \<Rightarrow> merge_smallest scope legs)"

text \<open>Known fills are consumed by the cheapest legs first.\<close>

fun consume_fills :: "(int \<times> float64) list \<Rightarrow> int \<Rightarrow> float64 \<Rightarrow> float64 res" where
  "consume_fills [] fills_remaining accepted = Ok accepted"
| "consume_fills ((quantity, price) # scopes) fills_remaining accepted =
     (let consumed = min quantity fills_remaining
      in bind_res (int_times_float (quantity - consumed) price) (\<lambda>x.
           consume_fills scopes (fills_remaining - consumed) (float_add accepted x)))"

definition ordinary_order :: "order_row list \<Rightarrow> string option \<Rightarrow> string \<Rightarrow> order_row option" where
  "ordinary_order orders exclude_order_id i =
     (case order_by_id orders i of
        Some ord \<Rightarrow> if Some (or_id ord) \<noteq> exclude_order_id \<and> or_side ord = Side_BUY \<and>
                        order_non_terminal (or_status ord) then Some ord else None
      | None \<Rightarrow> None)"

definition leg_bounded :: "leg \<Rightarrow> bool" where
  "leg_bounded l \<longleftrightarrow> fst l \<noteq> None \<and> snd l \<noteq> None"

definition bought_of_order :: "fill_row list \<Rightarrow> string \<Rightarrow> int" where
  "bought_of_order fills i = sum_list (map fr_quantity (filter (\<lambda>f. fr_order_id f = i \<and> fr_side f = Side_BUY) fills))"

text \<open>What one order adds; \<open>None\<close> when one of its legs has no bound.\<close>

definition order_additional ::
  "order_row list \<Rightarrow> fill_row list \<Rightarrow> string option \<Rightarrow> string \<times> legs \<Rightarrow> float64 option res" where
  "order_additional orders fills exclude_order_id entry =
     (let i = fst entry; ordinary = ordinary_order orders exclude_order_id i
      in bind_res (case ordinary of Some ord \<Rightarrow> merge_ordinary ord (snd entry) | None \<Rightarrow> Ok (snd entry)) (\<lambda>legs.
         if \<exists>l \<in> set (map snd legs). \<not> leg_bounded l then Ok None
         else
           let scopes = sort_key (\<lambda>(q, p). float_key p) (map (\<lambda>l. (the (fst l), the (snd l))) (map snd legs))
           in bind_res (consume_fills scopes (max 0 (bought_of_order fills i)) FLOAT_ZERO) (\<lambda>accepted_remaining.
              bind_res (case ordinary of
                  Some ord \<Rightarrow> int_times_float (max 0 (or_quantity ord - bought_of_order fills i)) (price_or_zero (or_limit_price ord))
                | None \<Rightarrow> Ok FLOAT_ZERO) (\<lambda>ordinary_remaining.
              Ok (Some (float_max FLOAT_ZERO (float_sub accepted_remaining ordinary_remaining)))))))"

fun total_additional ::
  "order_row list \<Rightarrow> fill_row list \<Rightarrow> string option \<Rightarrow> (string \<times> legs) list \<Rightarrow> float64 \<Rightarrow> float64 res" where
  "total_additional orders fills exclude_order_id [] so_far = Ok so_far"
| "total_additional orders fills exclude_order_id (entry # entries) so_far =
     bind_res (order_additional orders fills exclude_order_id entry) (\<lambda>x.
       case x of
         None \<Rightarrow> Ok FLOAT_INF
       | Some y \<Rightarrow> total_additional orders fills exclude_order_id entries (float_add so_far y))"

definition unrepresented_accepted_buy_exposure ::
  "(execution_event \<Rightarrow> string) \<Rightarrow> order_row list \<Rightarrow> recovery_row list \<Rightarrow> execution_event list \<Rightarrow> fill_row list \<Rightarrow>
   string option \<Rightarrow> float64 res" where
  "unrepresented_accepted_buy_exposure event_id orders recoveries events fills exclude_order_id =
     total_additional orders fills exclude_order_id (accepted_legs event_id orders recoveries events) FLOAT_ZERO"

subsection \<open>The exposure of a store\<close>

definition fill_event_symbols :: "event_log \<Rightarrow> string list" where
  "fill_event_symbols events = remdups (event_symbols Event_FILL events)"

text \<open>
  The tables the exposure is computed from. \<open>status_order\<close> is the order in which the open recovery
  states, a set, are visited.
\<close>

record exposure_tables =
  et_events :: event_log
  et_orders :: "order_row list"
  et_fills :: "fill_row list"
  et_recoveries :: "recovery_row list"

definition relevant_recoveries :: "recovery_status list \<Rightarrow> exposure_tables \<Rightarrow> execution_event list \<Rightarrow> recovery_row list" where
  "relevant_recoveries status_order t accepted_events =
     (let open_recoveries = concat (map (\<lambda>s. filter (\<lambda>r. rr_cleanup_status r = s) (et_recoveries t)) status_order)
      in open_recoveries @
         filter (\<lambda>r. r \<notin> set open_recoveries \<and> (\<exists>e \<in> set accepted_events. ev_order_id e = Some (rr_local_order_id r)))
           (et_recoveries t))"

definition current_exposure ::
  "(execution_event \<Rightarrow> instant) \<Rightarrow> (execution_event \<Rightarrow> string) \<Rightarrow> recovery_status list \<Rightarrow> string option \<Rightarrow>
   exposure_tables \<Rightarrow> float64 res" where
  "current_exposure ts_init event_id status_order exclude_order_id t =
     bind_res (map_res (project_symbol_position ts_init (et_events t)) (sort (fill_event_symbols (et_events t)))) (\<lambda>positions.
       let all_orders = map (project_order (et_events t)) (et_orders t);
           open_orders = filter (\<lambda>ord. Some (or_id ord) \<noteq> exclude_order_id \<and> order_non_terminal (or_status ord)) all_orders;
           accepted_events = filter is_accepted_submit_uncertainty_event (et_events t);
           recoveries = relevant_recoveries status_order t accepted_events;
           relevant_order_ids = List.map_filter ev_order_id accepted_events @ map rr_local_order_id recoveries
       in bind_res (existing_exposure positions open_orders (et_fills t)) (\<lambda>ordinary_exposure.
          if accepted_events = [] \<and> filter (\<lambda>r. recovery_open (rr_cleanup_status r)) (et_recoveries t) = []
          then Ok ordinary_exposure
          else bind_res (unrepresented_accepted_buy_exposure event_id
                 (filter (\<lambda>ord. or_id ord \<in> set relevant_order_ids) all_orders) recoveries accepted_events
                 (filter (\<lambda>f. fr_order_id f \<in> set relevant_order_ids) (et_fills t)) exclude_order_id) (\<lambda>accepted.
               Ok (float_add ordinary_exposure accepted))))"

subsection \<open>An accepted buy without a bound\<close>

definition unbounded_in :: "legs \<Rightarrow> bool" where
  "unbounded_in legs \<longleftrightarrow> (\<exists>k l. map_of legs k = Some l \<and> \<not> leg_bounded l)"

lemma merge_scope_bounded: "leg_bounded (merge_scope a b) \<longleftrightarrow> leg_bounded a \<and> leg_bounded b"
  by (auto simp: merge_scope_def leg_bounded_def split: option.splits)

lemma retain_leg_unbounded:
  "unbounded_in legs \<or> \<not> leg_bounded incoming \<Longrightarrow> unbounded_in (retain_leg identity incoming legs)"
proof (cases "\<not> leg_bounded incoming")
  case True
  then have "\<not> leg_bounded (case map_of legs identity of None \<Rightarrow> incoming | Some prior \<Rightarrow> merge_scope prior incoming)"
    by (auto simp: merge_scope_bounded split: option.splits)
  moreover have "map_of (retain_leg identity incoming legs) identity =
      Some (case map_of legs identity of None \<Rightarrow> incoming | Some prior \<Rightarrow> merge_scope prior incoming)"
    by (simp add: retain_leg_def update_conv')
  ultimately show ?thesis unfolding unbounded_in_def by blast
next
  case False
  assume "unbounded_in legs \<or> \<not> leg_bounded incoming"
  with False obtain k l where k: "map_of legs k = Some l" "\<not> leg_bounded l" by (auto simp: unbounded_in_def)
  show ?thesis
  proof (cases "k = identity")
    case True
    then have "map_of (retain_leg identity incoming legs) identity = Some (merge_scope l incoming)"
      using k(1) by (simp add: retain_leg_def update_conv')
    moreover have "\<not> leg_bounded (merge_scope l incoming)" using k(2) by (simp add: merge_scope_bounded)
    ultimately show ?thesis unfolding unbounded_in_def by blast
  next
    case False
    then have "map_of (retain_leg identity incoming legs) k = Some l" using k by (simp add: retain_leg_def update_conv')
    with k(2) show ?thesis unfolding unbounded_in_def by blast
  qed
qed

definition unbounded_for :: "string \<Rightarrow> (string \<times> legs) list \<Rightarrow> bool" where
  "unbounded_for i lbo \<longleftrightarrow> (\<exists>legs. map_of lbo i = Some legs \<and> unbounded_in legs)"

lemma retain_keeps: "unbounded_for i lbo \<Longrightarrow> unbounded_for i (retain orders j identity q p lbo)"
  by (auto simp: unbounded_for_def retain_def update_conv' intro: retain_leg_unbounded)

lemma retain_adds: "\<not> leg_bounded (leg_scope (order_by_id orders i) q p) \<Longrightarrow> unbounded_for i (retain orders i identity q p lbo)"
  by (auto simp: unbounded_for_def retain_def update_conv' intro: retain_leg_unbounded)

lemma retain_event_keeps: "unbounded_for i lbo \<Longrightarrow> unbounded_for i (retain_event event_id orders recoveries e lbo)"
  by (auto simp: retain_event_def retain_keeps split: option.splits)

lemma accepted_legs_unbounded:
  assumes e: "e \<in> set events" "is_accepted_submit_uncertainty_event e" "ev_order_id e = Some i" "i \<noteq> []"
      "is_buy (ev_side e) (order_by_id orders i)" "\<not> represented e (order_by_id orders i) recoveries"
    and leg: "\<not> leg_bounded (leg_scope (order_by_id orders i) (ev_quantity e) (ev_price e))"
  shows "unbounded_for i (accepted_legs event_id orders recoveries events)"
proof -
  have keeps: "unbounded_for i (fold (retain_event event_id orders recoveries) es lbo)" if "unbounded_for i lbo" for es lbo
    using that by (induction es arbitrary: lbo) (auto simp: retain_event_keeps)
  have "unbounded_for i (fold (retain_event event_id orders recoveries) es lbo)" if "e \<in> set es" for es lbo
    using that
  proof (induction es arbitrary: lbo)
    case (Cons f es)
    show ?case
    proof (cases "f = e")
      case True
      have "unbounded_for i (retain_event event_id orders recoveries e lbo)"
        using e leg by (simp add: retain_event_def retain_adds)
      with True show ?thesis by (simp add: keeps)
    qed (use Cons in simp)
  qed simp
  then show ?thesis using e(1) by (simp add: accepted_legs_def)
qed

lemma merge_ordinary_unbounded: "merge_ordinary ord legs = Ok legs' \<Longrightarrow> unbounded_in legs \<Longrightarrow> unbounded_in legs'"
  by (auto simp: merge_ordinary_def merge_smallest_def Let_def res_simps retain_leg_unbounded split: option.splits if_splits)

lemma unbounded_leg: "unbounded_in legs \<Longrightarrow> \<exists>l \<in> set (map snd legs). \<not> leg_bounded l"
  by (force simp: unbounded_in_def dest: map_of_SomeD)

lemma order_additional_unbounded:
  assumes "unbounded_in (snd entry)" "order_additional orders fills exclude entry = Ok x"
  shows "x = None"
proof -
  obtain legs where "(case ordinary_order orders exclude (fst entry) of Some ord \<Rightarrow> merge_ordinary ord (snd entry) | None \<Rightarrow> Ok (snd entry)) = Ok legs"
    and x: "(if \<exists>l \<in> set (map snd legs). \<not> leg_bounded l then Ok None
         else
           let scopes = sort_key (\<lambda>(q, p). float_key p) (map (\<lambda>l. (the (fst l), the (snd l))) (map snd legs))
           in bind_res (consume_fills scopes (max 0 (bought_of_order fills (fst entry))) FLOAT_ZERO) (\<lambda>accepted_remaining.
              bind_res (case ordinary_order orders exclude (fst entry) of
                  Some ord \<Rightarrow> int_times_float (max 0 (or_quantity ord - bought_of_order fills (fst entry))) (price_or_zero (or_limit_price ord))
                | None \<Rightarrow> Ok FLOAT_ZERO) (\<lambda>ordinary_remaining.
              Ok (Some (float_max FLOAT_ZERO (float_sub accepted_remaining ordinary_remaining)))))) = Ok x"
    using assms(2) unfolding order_additional_def Let_def bind_res_eq_Inr by blast
  then have "unbounded_in legs" using assms(1) merge_ordinary_unbounded by (auto split: option.splits)
  from unbounded_leg [OF this] x show ?thesis by (simp only: if_True simp_thms) simp
qed

lemma total_additional_unbounded:
  assumes "entry \<in> set entries" "unbounded_in (snd entry)" "total_additional orders fills exclude entries so_far = Ok x"
  shows "x = FLOAT_INF"
  using assms
proof (induction entries arbitrary: so_far)
  case (Cons f entries)
  from Cons.prems(3) obtain y where y: "order_additional orders fills exclude f = Ok y"
    "(case y of None \<Rightarrow> Ok FLOAT_INF | Some z \<Rightarrow> total_additional orders fills exclude entries (float_add so_far z)) = Ok x"
    by (auto simp: res_simps)
  show ?case
  proof (cases "f = entry")
    case True
    then have "y = None" using order_additional_unbounded [OF Cons.prems(2)] y(1) by simp
    with y(2) show ?thesis by simp
  next
    case False
    with Cons y(2) show ?thesis by (cases y) auto
  qed
qed simp

lemma FLOAT_INF_parts: "float_magnitude FLOAT_INF = FLOAT_INF_BITS" "float_magnitude FLOAT_NAN = FLOAT_INF_BITS + 2 ^ 51"
  unfolding FLOAT_INF_def FLOAT_NAN_def by (rule float_make_parts(2); simp add: FLOAT_INF_BITS_def)+

lemma float_finite_magnitude: "float_finite x \<longleftrightarrow> float_magnitude x < FLOAT_INF_BITS"
  by (simp only: float_finite_def float_magnitude_def FLOAT_INF_BITS_def)

lemma add_infinity: "\<not> float_finite (float_add a FLOAT_INF)"
  by (auto simp: float_add_def float_finite_magnitude float_nan_def float_infinite_def FLOAT_INF_parts)

lemma order_by_id_None: "order_by_id orders i = None \<longleftrightarrow> (\<forall>ord \<in> set orders. or_id ord \<noteq> i)"
  by (auto simp: order_by_id_def find_None_iff)

text \<open>An accepted buy whose order is gone and whose size or price is unusable makes the exposure infinite.\<close>

lemma current_exposure_unbounded:
  assumes e: "e \<in> set (et_events t)" "is_accepted_submit_uncertainty_event e" "ev_order_id e = Some i" "i \<noteq> []"
      "ev_side e = Some Side_BUY" and gone: "\<forall>ord \<in> set (et_orders t). or_id ord \<noteq> i"
    and useless: "positive_quantity (ev_quantity e) = [] \<or> positive_price (ev_price e) = []"
    and x: "current_exposure ts_init event_id status_order exclude t = Ok x"
  shows "\<not> float_finite x"
proof -
  let ?accepted = "filter is_accepted_submit_uncertainty_event (et_events t)"
  let ?recoveries = "relevant_recoveries status_order t ?accepted"
  let ?orders = "filter (\<lambda>ord. or_id ord \<in> set (List.map_filter ev_order_id ?accepted @ map rr_local_order_id ?recoveries))
    (map (project_order (et_events t)) (et_orders t))"
  let ?fills = "filter (\<lambda>f. fr_order_id f \<in> set (List.map_filter ev_order_id ?accepted @ map rr_local_order_id ?recoveries)) (et_fills t)"
  have ne: "?accepted \<noteq> []" using e(1,2) by (auto simp: filter_empty_conv)
  from x ne obtain ordinary accepted where a:
      "unrepresented_accepted_buy_exposure event_id ?orders ?recoveries ?accepted ?fills exclude = Ok accepted"
      "x = float_add ordinary accepted"
    by (auto simp: current_exposure_def Let_def res_simps)
  have none: "order_by_id ?orders i = None"
    using gone by (auto simp: order_by_id_None project_order_def Let_def)
  have "unbounded_for i (accepted_legs event_id ?orders ?recoveries ?accepted)"
  proof (rule accepted_legs_unbounded)
    show "\<not> leg_bounded (leg_scope (order_by_id ?orders i) (ev_quantity e) (ev_price e))"
      using useless unfolding none by (auto simp: leg_scope_def leg_bounded_def first_max_def)
    show "\<not> represented e (order_by_id ?orders i) ?recoveries"
      unfolding none by (auto simp: represented_def split: option.splits)
  qed (use e in \<open>auto simp: is_buy_def\<close>)
  then obtain legs where l: "(i, legs) \<in> set (accepted_legs event_id ?orders ?recoveries ?accepted)" "unbounded_in legs"
    unfolding unbounded_for_def using map_of_SomeD by fastforce
  have "accepted = FLOAT_INF"
    by (rule total_additional_unbounded [OF l(1)])
      (use l(2) a(1) in \<open>simp_all add: unrepresented_accepted_buy_exposure_def\<close>)
  then show ?thesis by (simp add: a(2) add_infinity)
qed

end
