(* ===== verification/Exits.thy ===== *)
theory Exits
  imports Candidates
begin

text \<open>
  The exits: the sell intents of \<^verbatim>\<open>app/models.py\<close> and the planners of
  \<^verbatim>\<open>app/store/core.py\<close> that dispatch them, decide a manual flatten and close a session.
  The random id of a position snapshot is left out, and the text of a float in a message is the
  argument \<open>price_text\<close>.
\<close>

subsection \<open>Sell intents\<close>

fun sell_status_value :: "sell_intent_status \<Rightarrow> string" where
  "sell_status_value Sell_PENDING = ''pending''"
| "sell_status_value Sell_APPROVED = ''approved''"
| "sell_status_value Sell_REJECTED = ''rejected''"
| "sell_status_value Sell_EXPIRED = ''expired''"
| "sell_status_value Sell_ORDERED = ''ordered''"

fun sell_reason_value :: "sell_reason \<Rightarrow> string" where
  "sell_reason_value MANUAL_FLATTEN = ''manual_flatten''"
| "sell_reason_value PROTECTION_FLOOR = ''protection_floor''"

fun order_type_value :: "order_type \<Rightarrow> string" where
  "order_type_value Type_LIMIT = ''limit''"
| "order_type_value Type_MARKET = ''market''"
| "order_type_value Type_TRAILING_STOP = ''trailing_stop''"

record sell_intent =
  si_id :: string
  si_symbol :: string
  si_reason :: sell_reason
  si_status :: sell_intent_status
  si_target_quantity :: int
  si_floor_price :: "float64 option"
  si_observed_price :: "float64 option"
  si_session_id :: "string option"
  si_order_id :: "string option"
  si_created_at :: instant
  si_updated_at :: instant
  si_approved_at :: "instant option"
  si_rejected_at :: "instant option"
  si_expired_at :: "instant option"
  si_ordered_at :: "instant option"

definition new_sell_intent ::
  "string \<Rightarrow> instant \<Rightarrow> string \<Rightarrow> sell_reason \<Rightarrow> int \<Rightarrow> float64 option \<Rightarrow> float64 option \<Rightarrow> string option \<Rightarrow> sell_intent" where
  "new_sell_intent intent_id now symbol reason target_quantity floor_price observed_price session_id =
     \<lparr>si_id = intent_id, si_symbol = symbol, si_reason = reason, si_status = Sell_PENDING,
      si_target_quantity = target_quantity, si_floor_price = floor_price, si_observed_price = observed_price,
      si_session_id = session_id, si_order_id = None, si_created_at = now, si_updated_at = now,
      si_approved_at = None, si_rejected_at = None, si_expired_at = None, si_ordered_at = None\<rparr>"

definition sell_intent_created_spec :: "sell_intent \<Rightarrow> string \<Rightarrow> event_spec" where
  "sell_intent_created_spec si actor =
     (draft_spec ''sell_intent_created'')
       \<lparr>sp_message := ''sell intent ('' @ sell_reason_value (si_reason si) @ '') created for '' @ si_symbol si,
        sp_symbol := Some (si_symbol si), sp_session_id := si_session_id si, sp_correlation_id := Some (si_id si),
        sp_payload := [''reason'' \<mapsto> PStr (sell_reason_value (si_reason si)),
                       ''target_quantity'' \<mapsto> PInt (si_target_quantity si), ''actor'' \<mapsto> PStr actor]\<rparr>"

definition sell_transition_spec ::
  "sell_intent \<Rightarrow> sell_intent_status \<Rightarrow> string \<Rightarrow> string option \<Rightarrow> payload \<Rightarrow> event_spec" where
  "sell_transition_spec si new_status message order_id extra =
     (draft_spec ''sell_intent_transition'')
       \<lparr>sp_message := message, sp_symbol := Some (si_symbol si), sp_order_id := order_id,
        sp_payload := [''from'' \<mapsto> PStr (sell_status_value (si_status si)),
                       ''to'' \<mapsto> PStr (sell_status_value new_status)] ++ extra,
        sp_session_id := si_session_id si, sp_correlation_id := Some (si_id si)\<rparr>"

text \<open>The timestamp of a status; a restored intent keeps the one it has.\<close>

fun sell_timestamp :: "bool \<Rightarrow> sell_intent_status \<Rightarrow> instant \<Rightarrow> sell_intent \<Rightarrow> sell_intent" where
  "sell_timestamp restoring Sell_APPROVED now si =
     (if restoring \<and> si_approved_at si \<noteq> None then si else si\<lparr>si_approved_at := Some now\<rparr>)"
| "sell_timestamp restoring Sell_REJECTED now si =
     (if restoring \<and> si_rejected_at si \<noteq> None then si else si\<lparr>si_rejected_at := Some now\<rparr>)"
| "sell_timestamp restoring Sell_EXPIRED now si =
     (if restoring \<and> si_expired_at si \<noteq> None then si else si\<lparr>si_expired_at := Some now\<rparr>)"
| "sell_timestamp restoring Sell_ORDERED now si =
     (if restoring \<and> si_ordered_at si \<noteq> None then si else si\<lparr>si_ordered_at := Some now\<rparr>)"
| "sell_timestamp restoring Sell_PENDING now si = si"

text \<open>The transition of one row: \<open>None\<close> when the status does not change.\<close>

definition transition_sell_intent_row ::
  "sell_intent \<Rightarrow> sell_intent_status \<Rightarrow> string option \<Rightarrow> instant \<Rightarrow> string option \<Rightarrow> bool \<Rightarrow>
   store_error + (sell_intent \<times> event_spec) option" where
  "transition_sell_intent_row si new_status order_id now reason allow_envelope_restore =
     (let current = si_status si;
          restoring = (allow_envelope_restore \<and> current = Sell_EXPIRED \<and> new_status = Sell_APPROVED)
      in if new_status = current then Inr None
         else if \<not> restoring \<and> new_status \<notin> SELL_INTENT_TRANSITIONS current then Inl SellIntentTransitionError
         else
           let updated = sell_timestamp restoring new_status now (si\<lparr>si_status := new_status, si_updated_at := now\<rparr>);
               updated = (if restoring then updated\<lparr>si_expired_at := None\<rparr> else updated);
               updated = (if new_status = Sell_ORDERED \<and> order_id \<noteq> None then updated\<lparr>si_order_id := order_id\<rparr> else updated)
           in Inr (Some (updated, sell_transition_spec si new_status
                (''sell intent '' @ sell_status_value current @ '' -> '' @ sell_status_value new_status) order_id
                (case reason of Some r \<Rightarrow> [''reason'' \<mapsto> PStr r] | None \<Rightarrow> Map.empty))))"

definition order_terminal :: "order_status \<Rightarrow> bool" where
  "order_terminal s \<longleftrightarrow> s \<in> {Order_FILLED, Order_CANCELED, Order_REJECTED}"

definition sell_intent_is_active :: "sell_intent \<Rightarrow> order_row option \<Rightarrow> bool \<Rightarrow> bool \<Rightarrow> bool \<Rightarrow> bool" where
  "sell_intent_is_active si ord order_needs_review envelope_linked envelope_obligation =
     (if envelope_obligation then True
      else if envelope_linked \<and> (si_status si = Sell_PENDING \<or> si_status si = Sell_APPROVED) then False
      else if si_status si = Sell_PENDING \<or> si_status si = Sell_APPROVED then True
      else if si_status si = Sell_ORDERED
      then (case ord of None \<Rightarrow> False
              | Some r \<Rightarrow> if order_terminal (or_status r) then False else \<not> order_needs_review)
      else False)"

subsection \<open>Dispatch\<close>

datatype sell_order_plan =
    SELL_ORDER_REJECT store_error "(sell_intent \<times> event_spec) option"
  | SELL_ORDER_CREATE order_row "event_spec list"

definition expire_sell_intent :: "instant \<Rightarrow> sell_intent \<Rightarrow> sell_intent" where
  "expire_sell_intent now si = si\<lparr>si_status := Sell_EXPIRED, si_expired_at := Some now, si_updated_at := now\<rparr>"

definition reject_and_self_heal :: "instant \<Rightarrow> sell_intent \<Rightarrow> string \<Rightarrow> sell_order_plan" where
  "reject_and_self_heal now si error_text =
     SELL_ORDER_REJECT InvalidOrderError (Some (expire_sell_intent now si,
       sell_transition_spec (si\<lparr>si_status := Sell_APPROVED\<rparr>) Sell_EXPIRED
         (''sell intent approved -> expired (order dispatch rejected: '' @ error_text @ '')'') None
         [''reason'' \<mapsto> PStr ''dispatch_rejected'']))"

definition sell_order :: "string \<Rightarrow> instant \<Rightarrow> sell_intent \<Rightarrow> order_type \<Rightarrow> float64 option \<Rightarrow> order_row" where
  "sell_order order_id now si order_type limit_price =
     \<lparr>or_id = order_id, or_candidate_id = None, or_sell_intent_id = Some (si_id si),
      or_symbol = si_symbol si, or_side = Side_SELL, or_order_type = order_type,
      or_quantity = si_target_quantity si, or_limit_price = limit_price, or_status = Order_CREATED,
      or_filled_quantity = 0, or_replaces_order_id = None, or_broker_order_id = None,
      or_session_id = si_session_id si, or_created_at = now, or_updated_at = now, or_submitted_at = None,
      or_filled_at = None, or_canceled_at = None, or_rejected_at = None\<rparr>"

definition sell_order_specs :: "sell_intent \<Rightarrow> string \<Rightarrow> event_spec list" where
  "sell_order_specs si order_id =
     [(draft_spec ''order_created'')
        \<lparr>sp_message := ''protective sell order created for '' @ si_symbol si, sp_symbol := Some (si_symbol si),
         sp_order_id := Some order_id, sp_session_id := si_session_id si, sp_correlation_id := Some (si_id si)\<rparr>,
      sell_transition_spec (si\<lparr>si_status := Sell_APPROVED\<rparr>) Sell_ORDERED ''sell intent approved -> ordered''
        (Some order_id) Map.empty]"

definition plan_create_order_for_sell_intent ::
  "(float64 \<Rightarrow> string) \<Rightarrow> string \<Rightarrow> instant \<Rightarrow> sell_intent \<Rightarrow> int \<Rightarrow> order_type \<Rightarrow> float64 option \<Rightarrow> sell_order_plan res" where
  "plan_create_order_for_sell_intent price_text order_id now si live_position_quantity order_type limit_price =
     (let qty = si_target_quantity si;
          reject = (\<lambda>t. Ok (reject_and_self_heal now si t));
          create = Ok (SELL_ORDER_CREATE (sell_order order_id now si order_type limit_price) (sell_order_specs si order_id))
      in if si_status si \<noteq> Sell_APPROVED then Ok (SELL_ORDER_REJECT SellIntentTransitionError None)
         else if qty \<le> 0 then reject (''sell intent '' @ si_id si @ '' has no positive target_quantity'')
         else if qty > live_position_quantity
         then reject (''sell intent '' @ si_id si @ '' target_quantity '' @ show_int qty @ '' exceeds the live '' @
                si_symbol si @ '' position quantity '' @ show_int live_position_quantity @ '' (would create a short)'')
         else if order_type = Type_LIMIT
         then bind_res (limit_price_reason (limit_price_arg limit_price)) (\<lambda>bad_price.
                case bad_price of
                  Some r \<Rightarrow> reject (''limit sell for intent '' @ si_id si @ '' needs a valid limit_price ('' @ r @ '')'')
                | None \<Rightarrow> create)
         else (case limit_price of
                 Some p \<Rightarrow> reject (order_type_value order_type @ '' sell for intent '' @ si_id si @
                             '' must not carry a limit_price (got '' @ price_text p @ '')'')
               | None \<Rightarrow> create))"

subsection \<open>The manual flatten\<close>

datatype flatten_plan =
    FLATTEN_FLAT
  | FLATTEN_DENIED_HALTED
  | FLATTEN_BUYS_OPEN int
  | FLATTEN_EXISTING sell_intent "order_row option" "event_spec option"
  | FLATTEN_SUPERSEDE_AND_CREATE "(order_row \<times> event_spec) option" "(sell_intent \<times> event_spec) option" int

definition flatten_deferral_spec :: "string \<Rightarrow> sell_intent \<Rightarrow> order_row \<Rightarrow> bool \<Rightarrow> string \<Rightarrow> event_spec" where
  "flatten_deferral_spec symbol active_intent active_order deferral_via_envelope_child actor =
     (draft_spec ''manual_flatten_deferred'')
       \<lparr>sp_message := ''manual flatten for '' @ symbol @ '' deferred to '' @
          (if deferral_via_envelope_child then ''the live envelope child'' else ''the in-flight protection_floor exit'') @
          '' (order '' @ order_status_value (or_status active_order) @ '')'',
        sp_symbol := Some symbol, sp_order_id := Some (or_id active_order),
        sp_payload := [''reason'' \<mapsto> PStr (if deferral_via_envelope_child then ''deferred_to_live_envelope_child''
                                          else ''deferred_to_live_protection''),
                       ''order_status'' \<mapsto> PStr (order_status_value (or_status active_order)),
                       ''deferred_intent_reason'' \<mapsto> PStr (sell_reason_value (si_reason active_intent)),
                       ''actor'' \<mapsto> PStr actor],
        sp_session_id := or_session_id active_order, sp_correlation_id := Some (si_id active_intent)\<rparr>"

definition supersede_cancel :: "instant \<Rightarrow> sell_intent \<Rightarrow> order_row \<Rightarrow> order_row \<times> event_spec" where
  "supersede_cancel now active_intent active_order =
     (active_order\<lparr>or_status := Order_CANCELED, or_canceled_at := Some now, or_updated_at := now\<rparr>,
      (draft_spec ''order_transition'')
        \<lparr>sp_message := ''order '' @ or_symbol active_order @ '' created -> canceled (superseded by manual flatten)'',
         sp_symbol := Some (or_symbol active_order), sp_order_id := Some (or_id active_order),
         sp_payload := [''from'' \<mapsto> PStr ''created'', ''to'' \<mapsto> PStr ''canceled'',
                        ''reason'' \<mapsto> PStr ''superseded_by_manual_flatten''],
         sp_session_id := or_session_id active_order, sp_correlation_id := Some (si_id active_intent)\<rparr>)"

definition plan_flatten_position ::
  "instant \<Rightarrow> position_row \<Rightarrow> sell_intent option \<Rightarrow> order_row option \<Rightarrow> trading_state \<Rightarrow> bool \<Rightarrow> string \<Rightarrow> string list \<Rightarrow>
   bool \<Rightarrow> flatten_plan" where
  "plan_flatten_position now position active_intent active_order trading_state override_active actor open_buy_order_ids
     deferral_via_envelope_child =
     (if ps_quantity position \<le> 0 then FLATTEN_FLAT
      else if trading_state = State_HALTED \<and> \<not> override_active then FLATTEN_DENIED_HALTED
      else if open_buy_order_ids \<noteq> [] then FLATTEN_BUYS_OPEN (ps_quantity position)
      else case active_intent of
        None \<Rightarrow> FLATTEN_SUPERSEDE_AND_CREATE None None (ps_quantity position)
      | Some si \<Rightarrow>
          if si_reason si = MANUAL_FLATTEN \<and> si_status si = Sell_ORDERED
          then FLATTEN_EXISTING si active_order None
          else if si_reason si = PROTECTION_FLOOR \<and> (\<exists>ord \<in> set_option active_order. or_status ord \<noteq> Order_CREATED)
          then FLATTEN_EXISTING si active_order
                 (Some (flatten_deferral_spec (ps_symbol position) si (the active_order) deferral_via_envelope_child actor))
          else case active_order of
            Some ord \<Rightarrow> FLATTEN_SUPERSEDE_AND_CREATE (Some (supersede_cancel now si ord)) None (ps_quantity position)
          | None \<Rightarrow>
              FLATTEN_SUPERSEDE_AND_CREATE None
                (if si_status si = Sell_PENDING \<or> si_status si = Sell_APPROVED
                 then Some (expire_sell_intent now si,
                        sell_transition_spec si Sell_EXPIRED
                          (''sell intent '' @ sell_status_value (si_status si) @ '' -> expired (superseded by manual flatten)'')
                          None [''reason'' \<mapsto> PStr ''superseded_by_manual_flatten''])
                 else None)
                (ps_quantity position))"

text \<open>
  The last part of a flatten that creates an exit: the fresh intent is approved and dispatched as a
  market order against the position the decision was made on.
\<close>

definition approved_flatten_intent :: "string \<Rightarrow> instant \<Rightarrow> string \<Rightarrow> int \<Rightarrow> string option \<Rightarrow> sell_intent" where
  "approved_flatten_intent intent_id now symbol target_quantity session_id =
     (case transition_sell_intent_row (new_sell_intent intent_id now symbol MANUAL_FLATTEN target_quantity None None session_id)
             Sell_APPROVED None now None False of
        Inr (Some (si, _)) \<Rightarrow> si
      | _ \<Rightarrow> new_sell_intent intent_id now symbol MANUAL_FLATTEN target_quantity None None session_id)"

definition flatten_dispatch ::
  "(float64 \<Rightarrow> string) \<Rightarrow> string \<Rightarrow> string \<Rightarrow> instant \<Rightarrow> position_row \<Rightarrow> string option \<Rightarrow> flatten_plan \<Rightarrow> sell_order_plan res option" where
  "flatten_dispatch price_text order_id intent_id now position session_id plan =
     (case plan of
        FLATTEN_SUPERSEDE_AND_CREATE _ _ target_quantity \<Rightarrow>
          Some (plan_create_order_for_sell_intent price_text order_id now
                  (approved_flatten_intent intent_id now (ps_symbol position) target_quantity session_id)
                  (ps_quantity position) Type_MARKET None)
      | _ \<Rightarrow> None)"

subsection \<open>Closing a session\<close>

record position_snapshot =
  px_session_id :: string
  px_symbol :: string
  px_quantity :: int
  px_cost_basis :: float64
  px_average_price :: "float64 option"
  px_captured_at :: instant

record session_close_plan =
  cl_candidate_events :: "event_spec list"
  cl_order_events :: "event_spec list"
  cl_sell_intent_events :: "event_spec list"
  cl_snapshots :: "position_snapshot list"
  cl_close_event :: event_spec

definition plan_close_session ::
  "session_record \<Rightarrow> candidate_row list \<Rightarrow> order_row list \<Rightarrow> sell_intent list \<Rightarrow> position_row list \<Rightarrow> instant \<Rightarrow> string \<Rightarrow>
   int \<Rightarrow> session_close_plan" where
  "plan_close_session session open_candidates created_orders open_sell_intents nonzero_positions now actor spared_sell_intents =
     (let sid = Some (se_id session);
          close_reason = [''reason'' \<mapsto> PStr ''session_close''];
          count = (\<lambda>n. PInt (int n));
          snapshots = map (\<lambda>pos. \<lparr>px_session_id = se_id session, px_symbol = ps_symbol pos, px_quantity = ps_quantity pos,
              px_cost_basis = ps_cost_basis pos, px_average_price = ps_average_price pos, px_captured_at = now\<rparr>) nonzero_positions
      in \<lparr>cl_candidate_events = map (\<lambda>c. (candidate_transition_spec c Candidate_EXPIRED
              (''candidate '' @ candidate_status_value (ca_status c) @ '' -> expired (session close)'') None close_reason)
              \<lparr>sp_session_id := sid\<rparr>) open_candidates,
          cl_order_events = map (\<lambda>ord. (draft_spec ''order_transition'')
              \<lparr>sp_message := ''order '' @ or_symbol ord @ '' created -> canceled (session close)'',
               sp_symbol := Some (or_symbol ord), sp_candidate_id := or_candidate_id ord, sp_order_id := Some (or_id ord),
               sp_payload := [''from'' \<mapsto> PStr ''created'', ''to'' \<mapsto> PStr ''canceled''] ++ close_reason,
               sp_session_id := sid\<rparr>) created_orders,
          cl_sell_intent_events = map (\<lambda>si. (sell_transition_spec si Sell_EXPIRED
              (''sell intent '' @ sell_status_value (si_status si) @ '' -> expired (session close)'') None close_reason)
              \<lparr>sp_session_id := sid\<rparr>) open_sell_intents,
          cl_snapshots = snapshots,
          cl_close_event = (draft_spec ''session_closed'')
              \<lparr>sp_message := ''session closed ('' @ show_nat (length open_candidates) @ '' candidates expired, '' @
                 show_nat (length created_orders) @ '' created orders canceled, '' @
                 show_nat (length open_sell_intents) @ '' sell intents expired, '' @
                 show_nat (length snapshots) @ '' positions snapshotted)'',
               sp_session_id := sid,
               sp_payload := [''expired_candidates'' \<mapsto> count (length open_candidates),
                 ''canceled_orders'' \<mapsto> count (length created_orders),
                 ''expired_sell_intents'' \<mapsto> count (length open_sell_intents),
                 ''spared_sell_intents'' \<mapsto> PInt spared_sell_intents,
                 ''position_snapshots'' \<mapsto> count (length snapshots), ''actor'' \<mapsto> PStr actor]\<rparr>\<rparr>)"

subsection \<open>What the planners decide\<close>

lemma sell_order_created:
  "plan_create_order_for_sell_intent price_text order_id now si live order_type limit_price = Ok (SELL_ORDER_CREATE ord specs) \<longleftrightarrow>
     si_status si = Sell_APPROVED \<and> 0 < si_target_quantity si \<and> si_target_quantity si \<le> live \<and>
     (if order_type = Type_LIMIT then limit_price_reason (limit_price_arg limit_price) = Ok None else limit_price = None) \<and>
     ord = sell_order order_id now si order_type limit_price \<and> specs = sell_order_specs si order_id"
  by (auto simp: plan_create_order_for_sell_intent_def Let_def reject_and_self_heal_def res_simps split: option.splits if_splits)

lemma sell_order_rejected:
  "plan_create_order_for_sell_intent price_text order_id now si live order_type limit_price = Ok (SELL_ORDER_REJECT e healed) \<Longrightarrow>
     si_status si = Sell_APPROVED \<Longrightarrow> \<exists>sp. healed = Some (expire_sell_intent now si, sp)"
  by (auto simp: plan_create_order_for_sell_intent_def Let_def reject_and_self_heal_def res_simps split: option.splits if_splits)

lemma approved_flatten_intent_simps [simp]:
  "si_status (approved_flatten_intent i now symbol q s) = Sell_APPROVED"
  "si_target_quantity (approved_flatten_intent i now symbol q s) = q"
  "si_reason (approved_flatten_intent i now symbol q s) = MANUAL_FLATTEN"
  "si_symbol (approved_flatten_intent i now symbol q s) = symbol"
  "si_id (approved_flatten_intent i now symbol q s) = i"
  by (simp_all add: approved_flatten_intent_def transition_sell_intent_row_def new_sell_intent_def Let_def)

end
