(* ===== verification/Intake_Properties.thy ===== *)
theory Intake_Properties
  imports Candidate_Log Exposure Exits Fill_Quantity
begin

text \<open>
  The properties of the order intake, from a candidate to an order, and of the manual exit.
\<close>

subsection \<open>A run of the intake\<close>

definition ex_draft :: candidate_draft where
  "ex_draft = \<lparr>cd_symbol = ''AAPL'', cd_strategy = None, cd_reason = None, cd_risk_decision = None,
     cd_suggested_quantity = Some 10, cd_suggested_limit_price = Some 0x4059000000000000\<rparr>"

definition ex_limits :: risk_limits where
  "ex_limits = \<lparr>rl_max_shares_per_order = None, rl_max_notional_per_order = None,
     rl_max_total_exposure = None, rl_allowlist = Some {''AAPL''}\<rparr>"

definition ex_proposed :: intake_book where
  "ex_proposed = snd (create_candidate ''c1'' ''s1'' ''2026-01-05'' 7 None ex_draft None intake_empty)"

definition ex_pending :: candidate_row where
  "ex_pending = draft_candidate ''c1'' 7 ''s1'' ex_draft"

definition ex_candidate :: candidate_row where
  "ex_candidate = ex_pending\<lparr>ca_status := Candidate_APPROVED, ca_updated_at := 8, ca_approved_at := Some 8\<rparr>"

definition ex_approved :: intake_book where
  "ex_approved = snd (transition_candidate ''c1'' Candidate_APPROVED None 8 ex_proposed)"

definition ex_order :: order_row where
  "ex_order = candidate_order ''o1'' 9 ex_candidate 10 0x4059000000000000"

definition ex_ordered :: intake_book where
  "ex_ordered = snd (create_order_for_candidate ''o1'' 9 None (Ok FLOAT_ZERO) False ex_limits ''c1'' ex_approved)"

lemma ex_dispatch_price:
  "float_finite (0x4059000000000000 :: float64)" "\<not> float_le (0x4059000000000000 :: float64) FLOAT_ZERO" "float_finite FLOAT_ZERO"
  by code_simp+

lemma ex_numbers: "candidate_numeric_reason (PInt 10) (PFloat 0x4059000000000000) = Ok None"
proof -
  obtain x where "int_to_float 10 = Ok x" using int_to_float_Ok [of 10] by auto
  then show ?thesis
    using ex_dispatch_price
    by (simp add: candidate_numeric_reason_def suggested_quantity_reason_def whole_count_value_reason_def
      limit_price_reason_def finite_number_reason_def number_negative_def number_non_positive_def)
qed


lemma ex_session: "find_session ex_proposed (Some ''s1'') = Some (new_session ''s1'' ''2026-01-05'' 7)"
    "ib_candidates ex_proposed = [ex_pending]" "ib_orders ex_proposed = []"
  by (simp_all add: ex_proposed_def create_candidate_def Let_def ensure_current_session_def intake_empty_def admit_candidate_def
    new_session_def find_session_def ex_numbers ex_draft_def quantity_arg_def limit_price_arg_def active_candidate_def
    append_event_def ex_pending_def)

lemma ex_approved_rows: "find_session ex_approved (Some ''s1'') = Some (new_session ''s1'' ''2026-01-05'' 7)"
    "ib_candidates ex_approved = [ex_candidate]" "ib_orders ex_approved = []"
  using ex_session
  by (simp_all add: ex_approved_def transition_candidate_def Let_def find_candidate_def find_session_def append_event_def
    ex_pending_def draft_candidate_def ex_candidate_def)


lemma ex_find: "find_candidate ex_approved ''c1'' = Some ex_candidate" "ca_status ex_candidate = Candidate_APPROVED"
  using ex_approved_rows(2) by (simp_all add: find_candidate_def ex_candidate_def ex_pending_def draft_candidate_def)



lemma ex_reachable: "intake_reachable ex_proposed" "intake_reachable ex_approved" "intake_reachable ex_ordered"
proof -
  have "intake_step intake_empty ex_proposed" unfolding ex_proposed_def by (rule Step_create) (simp add: intake_empty_def)
  then show 1: "intake_reachable ex_proposed" unfolding intake_reachable_def by (rule r_into_rtranclp)
  have "intake_step ex_proposed ex_approved" unfolding ex_approved_def by (rule Step_transition) simp
  with 1 show 2: "intake_reachable ex_approved" unfolding intake_reachable_def by (rule rtranclp.rtrancl_into_rtrancl)
  have "intake_step ex_approved ex_ordered" unfolding ex_ordered_def by (rule Step_dispatch) (simp add: ex_approved_rows)
  with 2 show "intake_reachable ex_ordered" unfolding intake_reachable_def by (rule rtranclp.rtrancl_into_rtrancl)
qed

subsection \<open>Properties\<close>

text \<open>
  C8. The dispatch gate is exact. For a candidate that is not yet ordered, an order is created exactly
  when no same-symbol exit may still execute, the candidate is approved, its session exists and is
  neither halted nor paused, its symbol is on the list and not quarantined, it has a positive quantity
  and a finite positive limit price, the exposure is known and finite, and share count, notional and
  exposure including the notional stay within the caps that are set. The order is a buy of exactly the
  approved quantity at exactly the approved price, and the store gains that order, the link of the
  candidate and the two audit rows, nothing else.
\<close>

theorem dispatch_is_gated:
  assumes "find_candidate st candidate_id = Some c" "ca_status c \<noteq> Candidate_ORDERED"
  shows "create_order_for_candidate order_id now exit_hit exposure quarantined limits candidate_id st = (Inr ord, st') \<longleftrightarrow>
    exit_hit = None \<and> ca_status c = Candidate_APPROVED \<and> \<not> quarantined \<and>
    (\<exists>s. find_session st (ca_session_id c) = Some s \<and> se_trading_state s = State_ACTIVE) \<and>
    (\<forall>allowed. rl_allowlist limits = Some allowed \<longrightarrow> allowed = {} \<or> ca_symbol c \<in> allowed) \<and>
    (\<exists>qty price x notional. ca_suggested_quantity c = Some qty \<and> 0 < qty \<and> ca_suggested_limit_price c = Some price \<and>
       float_finite price \<and> \<not> float_le price FLOAT_ZERO \<and> exposure = Ok x \<and> float_finite x \<and>
       int_times_float qty price = Ok notional \<and>
       (\<forall>m. rl_max_shares_per_order limits = Some m \<longrightarrow> \<not> int_exceeds_float qty m) \<and>
       (\<forall>m. rl_max_notional_per_order limits = Some m \<longrightarrow> \<not> float_less m notional) \<and>
       (\<forall>m. rl_max_total_exposure limits = Some m \<longrightarrow> \<not> float_less m (float_add x notional)) \<and>
       ord = candidate_order order_id now c qty price) \<and>
    st' = dispatched c ord now st"
  unfolding create_order_for_candidate_Inr [OF assms] dispatch_allowed_def within_limits_def by blast

lemma dispatch_is_gated_witness:
  "create_order_for_candidate ''o1'' 9 None (Ok FLOAT_ZERO) True ex_limits ''c1'' ex_approved \<noteq> (Inr ex_order, ex_ordered)"
  using dispatch_is_gated [OF ex_find(1), of "''o1''" 9 None "Ok FLOAT_ZERO" True ex_limits ex_order ex_ordered] ex_find(2) by simp



text \<open>
  C19. An approval never strands its candidate. Whatever refuses the dispatch of a pending candidate, an
  early check, a control or cap that changed in between, an exit or a cancellation of the request at any
  point, the flow either leaves the candidate ordered with exactly one new order of its own, or leaves
  no order and the candidate pending again, or expired when an exit preempted it: never approved
  without an order. A successful answer is the ordered candidate.
\<close>

theorem approval_never_strands:
  assumes "intake_reachable st" "find_candidate st candidate_id = Some c" "ca_status c = Candidate_PENDING"
    "approve_candidate stop order_id new_id today now exposure exit_hit exposure' quarantined limits candidate_id st = (r, st')"
  shows "\<exists>c'. find_candidate st' candidate_id = Some c' \<and>
    ((\<exists>ord. ib_orders st' = ib_orders st @ [ord] \<and> ca_status c' = Candidate_ORDERED \<and> ca_order_id c' = Some (or_id ord) \<and>
        (r = Inr c' \<or> stop = After_dispatch)) \<or>
     ib_orders st' = ib_orders st \<and> (\<exists>e. r = Inl e) \<and>
       (ca_status c' = Candidate_PENDING \<or> exit_hit \<noteq> None \<and> ca_status c' = Candidate_EXPIRED))"
    (is "\<exists>c'. _ \<and> ?outcome c'")
proof -
  have "c \<in> set (ib_candidates st)" using find_candidateD [OF assms(2)] by blast
  then have "ca_order_id c = None"
    using intake_reachable_ok [OF assms(1)] assms(3) by (auto simp: intake_ok_def candidate_linked_def)
  from approve_candidate_outcome [OF assms(2,3) this assms(4)] obtain c'
    where c': "find_candidate st' candidate_id = Some c'"
      "flow_outcome stop (exit_hit \<noteq> None) (ib_orders st) r c' (ib_orders st')" by blast
  show ?thesis
  proof (rule exI [of _ c'], cases r)
    case (Inl e)
    with c' show "find_candidate st' candidate_id = Some c' \<and> ?outcome c'" by (auto simp: flow_outcome_def split: if_splits)
  next
    case (Inr d)
    with c' show "find_candidate st' candidate_id = Some c' \<and> ?outcome c'" by (auto simp: flow_outcome_def)
  qed
qed

lemma approval_never_strands_witness:
  "\<exists>c'. find_candidate (snd (approve_candidate Before_dispatch ''o1'' ''s2'' ''2026-01-05'' 8 (Ok FLOAT_ZERO) None (Ok FLOAT_ZERO)
      False ex_limits ''c1'' ex_proposed)) ''c1'' = Some c' \<and> ca_status c' \<noteq> Candidate_APPROVED"
proof -
  have "find_candidate ex_proposed ''c1'' = Some ex_pending \<and> ca_status ex_pending = Candidate_PENDING"
    using ex_session(2) by (simp add: find_candidate_def ex_pending_def draft_candidate_def)
  then show ?thesis
    using approval_never_strands [OF ex_reachable(1), of "''c1''" ex_pending Before_dispatch "''o1''" "''s2''" "''2026-01-05''" 8
      "Ok FLOAT_ZERO" None "Ok FLOAT_ZERO" False ex_limits, OF _ _ prod.collapse [symmetric]]
    by auto
qed

text \<open>
  C21. An acceptance the store cannot price stops all buying. When the log holds the fact that the venue
  accepted a buy the store could not record, its order is gone, and the fact has no usable size or no
  usable price, the exposure is not finite, and no candidate is turned into an order, whatever caps are
  configured, even none.
\<close>

theorem unbounded_acceptance_blocks_buys:
  assumes "e \<in> set (et_events t)" "is_accepted_submit_uncertainty_event e" "ev_order_id e = Some i" "i \<noteq> []"
    and "ev_side e = Some Side_BUY" "\<forall>ord \<in> set (et_orders t). or_id ord \<noteq> i"
    and "positive_quantity (ev_quantity e) = [] \<or> positive_price (ev_price e) = []"
    and "find_candidate st candidate_id = Some c" "ca_status c \<noteq> Candidate_ORDERED"
  shows "create_order_for_candidate order_id now exit_hit (current_exposure ts_init event_id status_order None t)
    quarantined limits candidate_id st \<noteq> (Inr ord, st')"
proof
  assume "create_order_for_candidate order_id now exit_hit (current_exposure ts_init event_id status_order None t)
    quarantined limits candidate_id st = (Inr ord, st')"
  then obtain x qty price where "current_exposure ts_init event_id status_order None t = Ok x"
      "dispatch_allowed c (find_session st (ca_session_id c)) x limits quarantined qty price"
    unfolding create_order_for_candidate_Inr [OF assms(8,9)] by blast
  with current_exposure_unbounded [OF assms(1-7)] show False by (auto simp: dispatch_allowed_def within_limits_def)
qed

definition ex_unpriced :: execution_event where
  "ex_unpriced = (draft_event Event_UNKNOWN_RECONCILE_REQUIRED Source_ENGINE Authority_LOCAL)
     \<lparr>ev_order_id := Some ''o9'', ev_symbol := Some ''MSFT'', ev_side := Some Side_BUY, ev_quantity := Some 5,
      ev_payload := [''reason'' \<mapsto> PStr ACCEPTED_SUBMIT_UNPERSISTED_REASON, ''broker_order_id'' \<mapsto> PStr ''b9'']\<rparr>"

lemma unbounded_acceptance_blocks_buys_witness:
  "create_order_for_candidate ''o1'' 9 None
     (current_exposure (\<lambda>_. 0) (\<lambda>_. ''e'') [RECOVERY_UNRESOLVED, RECOVERY_NEEDS_REVIEW] None
        \<lparr>et_events = [ex_unpriced], et_orders = [], et_fills = [], et_recoveries = []\<rparr>)
     False ex_limits ''c1'' ex_approved \<noteq> (Inr ex_order, ex_ordered)"
  by (rule unbounded_acceptance_blocks_buys [where e = ex_unpriced and i = "''o9''", OF _ _ _ _ _ _ _ ex_find(1)])
    (simp_all add: ex_unpriced_def is_accepted_submit_uncertainty_event_def draft_event_def positive_price_def ex_find(2))




end
