(* ===== verification/Obligation.thy ===== *)
theory Obligation
  imports Envelopes Order_Events Exits Float_Ops
begin

text \<open>
  What an execution envelope still owes: the projection of its action events, its child orders and their
  lifecycle events into the children that may execute, the ones that may be claimed, and whether the
  delegation is outstanding (\<^verbatim>\<open>project_envelope_obligation\<close> of
  \<^verbatim>\<open>app/store/core.py\<close>), and the same question for a direct sell order. The loops of
  the source are folds over a record of their variables; a list together with its set of seen values is
  the list alone. Integer texts are ASCII.
\<close>

subsection \<open>Values of a payload\<close>

text \<open>Equality as Python has it: booleans are integers, integers and floats compare by value.\<close>

fun py_number :: "pyval \<Rightarrow> int option" where
  "py_number (PBool b) = Some (if b then 1 else 0)"
| "py_number (PInt n) = Some n"
| "py_number _ = None"

definition float_int_eq :: "float64 \<Rightarrow> int \<Rightarrow> bool" where
  "float_int_eq x n \<longleftrightarrow> float_finite x \<and> float_units x = n * FLOAT_SCALE"

function py_eq :: "pyval \<Rightarrow> pyval \<Rightarrow> bool" where
  "py_eq PNone w = (w = PNone)"
| "py_eq (PStr s) w = (w = PStr s)"
| "py_eq (PBool b) w =
     (case w of PFloat y \<Rightarrow> float_int_eq y (if b then 1 else 0) | _ \<Rightarrow> py_number w = Some (if b then 1 else 0))"
| "py_eq (PInt n) w = (case w of PFloat y \<Rightarrow> float_int_eq y n | _ \<Rightarrow> py_number w = Some n)"
| "py_eq (PFloat x) w =
     (case w of PFloat y \<Rightarrow> float_eq x y | _ \<Rightarrow> (case py_number w of Some n \<Rightarrow> float_int_eq x n | None \<Rightarrow> False))"
| "py_eq (PList xs) w =
     (case w of PList ys \<Rightarrow> length xs = length ys \<and> list_all (\<lambda>(x, y). py_eq x y) (zip xs ys) | _ \<Rightarrow> False)"
| "py_eq (PDict d) w =
     (case w of
        PDict d' \<Rightarrow> length d = length d' \<and>
          list_all (\<lambda>(k, v). case map_of d' k of Some v' \<Rightarrow> py_eq v v' | None \<Rightarrow> False) d
      | _ \<Rightarrow> False)"
  by pat_completeness auto

termination
proof (relation "measure (size \<circ> fst)", goal_cases)
  case (2 xs w ys pair x y)
  then have "x \<in> set xs" by (auto dest: set_zip_leftD)
  then show ?case by (simp add: size_list_estimation' less_Suc_eq_le)
next
  case (3 d w d' entry k v v')
  then have "(k, v) \<in> set d" by simp
  then have "size_prod (\<lambda>x. 0) size (k, v) \<le> size_list (size_prod (\<lambda>x. 0) size) d"
    by (rule size_list_estimation') simp
  then show ?case by simp
qed simp

definition opt_float_eq :: "float64 option \<Rightarrow> float64 option \<Rightarrow> bool" where
  "opt_float_eq a b = (case (a, b) of (None, None) \<Rightarrow> True | (Some x, Some y) \<Rightarrow> float_eq x y | _ \<Rightarrow> False)"

definition payload_eq :: "payload \<Rightarrow> payload \<Rightarrow> bool" where
  "payload_eq p q \<longleftrightarrow> dom p = dom q \<and> (\<forall>k \<in> dom p. py_eq (the (p k)) (the (q k)))"

definition text_or :: "string option \<Rightarrow> string \<Rightarrow> string" where
  "text_or t other = (case t of Some s \<Rightarrow> if s \<noteq> [] then s else other | None \<Rightarrow> other)"

definition note_once :: "string \<Rightarrow> string list \<Rightarrow> string list" where
  "note_once x xs = (if x \<in> set xs then xs else xs @ [x])"

subsection \<open>Lifecycle facts of a child order\<close>

definition ENVELOPE_DELEGATING_STATUSES :: "envelope_status set" where
  "ENVELOPE_DELEGATING_STATUSES = {Envelope_APPROVED, Envelope_ACTIVE, Envelope_FROZEN}"

definition ENVELOPE_CHILD_LIFECYCLE_EVENTS :: "execution_event_type set" where
  "ENVELOPE_CHILD_LIFECYCLE_EVENTS =
     {Event_SUBMIT_PENDING, Event_SUBMIT_RELEASED, Event_SUBMIT_RECOVERY_OPERATOR_RECONCILED, Event_SUBMITTED,
      Event_PARTIALLY_FILLED, Event_CANCEL_PENDING, Event_FILLED, Event_CANCELED, Event_REJECTED, Event_TIMEOUT_QUARANTINE}"

definition BROKER_WORKING_EVENTS :: "execution_event_type set" where
  "BROKER_WORKING_EVENTS = {Event_SUBMITTED, Event_PARTIALLY_FILLED}"

definition BROKER_TERMINAL_EVENTS :: "execution_event_type set" where
  "BROKER_TERMINAL_EVENTS = {Event_FILLED, Event_CANCELED, Event_REJECTED}"

definition LOCAL_CHILD_LIFECYCLE_EVENTS :: "execution_event_type set" where
  "LOCAL_CHILD_LIFECYCLE_EVENTS =
     {Event_SUBMIT_PENDING, Event_SUBMIT_RELEASED, Event_SUBMIT_RECOVERY_OPERATOR_RECONCILED, Event_CANCEL_PENDING,
      Event_TIMEOUT_QUARANTINE}"

definition BROKER_EVENT_SOURCES :: "event_source set" where
  "BROKER_EVENT_SOURCES = {Source_BROKER_REST, Source_BROKER_STREAM}"

definition local_fact :: "execution_event \<Rightarrow> bool" where
  "local_fact e \<longleftrightarrow> ev_source e = Source_ENGINE \<and> ev_authority e = Authority_LOCAL"

definition broker_fact :: "execution_event \<Rightarrow> bool" where
  "broker_fact e \<longleftrightarrow> ev_source e \<in> BROKER_EVENT_SOURCES \<and> ev_authority e = Authority_BROKER_AUTHORITATIVE"

definition child_lifecycle_provenance_is_valid :: "execution_event \<Rightarrow> bool" where
  "child_lifecycle_provenance_is_valid e =
     (if ev_source e = Source_RECONCILIATION \<and> ev_authority e = Authority_SYNTHETIC \<and>
         (\<exists>i \<in> set_option (ev_order_id e). ev_dedupe_key e = Some (''backfill_status:'' @ i))
      then ev_event_type e \<noteq> Event_SUBMIT_RELEASED
      else if ev_event_type e \<in> LOCAL_CHILD_LIFECYCLE_EVENTS then local_fact e
      else if ev_event_type e = Event_CANCELED then local_fact e \<or> broker_fact e
      else broker_fact e)"

text \<open>\<^verbatim>\<open>int(text)\<close>: blanks around, a sign, digits with single underscores between them.\<close>

definition python_blank :: "char \<Rightarrow> bool" where
  "python_blank c \<longleftrightarrow> (of_char c :: nat) \<in> {9, 10, 11, 12, 13, 28, 29, 30, 31, 32}"

definition python_strip :: "string \<Rightarrow> string" where
  "python_strip s = rev (dropWhile python_blank (rev (dropWhile python_blank s)))"

fun grouped_digits :: "bool \<Rightarrow> string \<Rightarrow> bool" where
  "grouped_digits after_digit [] = after_digit"
| "grouped_digits after_digit (c # s) =
     (if is_digit c then grouped_digits True s
      else c = CHR ''_'' \<and> after_digit \<and> grouped_digits False s)"

definition unsigned_int :: "string \<Rightarrow> int option" where
  "unsigned_int s =
     (if grouped_digits False s \<and> length (filter is_digit s) \<le> 4300
      then Some (int (digits_value (filter is_digit s))) else None)"

definition python_int :: "string \<Rightarrow> int option" where
  "python_int text =
     (case python_strip text of
        [] \<Rightarrow> None
      | c # s \<Rightarrow> if c = CHR ''-'' then map_option uminus (unsigned_int s)
                 else if c = CHR ''+'' then unsigned_int s
                 else unsigned_int (c # s))"

definition after_last_colon :: "string \<Rightarrow> string" where
  "after_last_colon s = rev (takeWhile (\<lambda>c. c \<noteq> CHR '':'') (rev s))"

definition claim_occurrence_from_event :: "execution_event \<Rightarrow> int option" where
  "claim_occurrence_from_event e =
     (case ev_payload e ''claim_occurrence'' of
        Some (PInt n) \<Rightarrow> if n \<ge> 0 then Some n else None
      | raw \<Rightarrow>
          if raw \<noteq> None \<and> raw \<noteq> Some PNone then None
          else
            let prefix = (if ev_event_type e = Event_SUBMIT_PENDING then Some ''submit_pending:''
                          else if ev_event_type e = Event_SUBMIT_RELEASED then Some ''release:'' else None)
            in case (ev_dedupe_key e, prefix) of
                 (Some key, Some p) \<Rightarrow>
                   if take (length p) key = p
                   then (case python_int (after_last_colon key) of Some n \<Rightarrow> if n \<ge> 0 then Some n else None | None \<Rightarrow> None)
                   else None
               | _ \<Rightarrow> None)"

text \<open>The claim that was the latest at an instant: the fold carries it and the next occurrence.\<close>

definition claim_occurrence_at :: "(execution_event \<Rightarrow> instant) \<Rightarrow> execution_event list \<Rightarrow> string \<Rightarrow> instant \<Rightarrow> int option" where
  "claim_occurrence_at ts_init events order_id at_time =
     fst (fold (\<lambda>e (latest, upcoming).
       if ev_order_id e \<noteq> Some order_id \<or> ev_event_type e \<noteq> Event_SUBMIT_PENDING \<or> ts_init e > at_time
       then (latest, upcoming)
       else let occurrence = (case claim_occurrence_from_event e of Some n \<Rightarrow> n | None \<Rightarrow> upcoming)
            in (Some occurrence, max upcoming (occurrence + 1))) events (None, 0))"

subsection \<open>A direct sell order\<close>

record direct_intervals =
  di_claims :: "int set"
  di_known :: "int set"
  di_venue :: "int option set"
  di_latest :: "int option"
  di_next :: int

definition named_or_latest :: "int option \<Rightarrow> int option \<Rightarrow> int option" where
  "named_or_latest occurrence latest = (case occurrence of None \<Rightarrow> latest | Some n \<Rightarrow> Some n)"

definition close_claims :: "int option \<Rightarrow> int set \<Rightarrow> int set" where
  "close_claims occurrence claims = (case occurrence of None \<Rightarrow> {} | Some n \<Rightarrow> claims - {n})"

text \<open>No value: the code has answered that the order may execute.\<close>

definition direct_step :: "order_row \<Rightarrow> execution_event \<Rightarrow> direct_intervals \<Rightarrow> direct_intervals option" where
  "direct_step ord e st =
     (let occurrence = claim_occurrence_from_event e;
          named = named_or_latest occurrence (di_latest st)
      in if ev_order_id e \<noteq> Some (or_id ord) \<or> ev_event_type e \<notin> ENVELOPE_CHILD_LIFECYCLE_EVENTS then Some st
         else if \<not> child_lifecycle_provenance_is_valid e then None
         else if ev_payload e ''claim_occurrence'' \<noteq> None \<and> occurrence = None then None
         else if ev_symbol e \<noteq> Some (or_symbol ord) \<or> ev_side e \<noteq> Some Side_SELL \<or> ev_session_id e \<noteq> or_session_id ord \<or>
                 (ev_correlation_id e \<noteq> None \<and> ev_correlation_id e \<noteq> or_sell_intent_id ord) then None
         else if ev_event_type e = Event_SUBMIT_PENDING
         then (let n = (case occurrence of None \<Rightarrow> di_next st | Some n \<Rightarrow> n)
               in if n \<noteq> di_next st \<or> n \<in> di_known st then None
                  else Some (st\<lparr>di_known := insert n (di_known st), di_next := n + 1, di_latest := Some n,
                                di_claims := insert n (di_claims st)\<rparr>))
         else if ev_event_type e = Event_SUBMIT_RELEASED
         then (case named of
                 None \<Rightarrow> None
               | Some n \<Rightarrow> if n \<notin> di_claims st then None else Some (st\<lparr>di_claims := di_claims st - {n}\<rparr>))
         else if ev_event_type e = Event_SUBMIT_RECOVERY_OPERATOR_RECONCILED
         then (case named of
                 None \<Rightarrow> None
               | Some n \<Rightarrow> Some (st\<lparr>di_claims := di_claims st - {n}, di_venue := di_venue st - {Some n}\<rparr>))
         else if ev_authority e \<noteq> Authority_BROKER_AUTHORITATIVE then Some st
         else if \<exists>n \<in> set_option occurrence. n \<notin> di_known st then None
         else if ev_event_type e \<in> BROKER_WORKING_EVENTS
         then Some (st\<lparr>di_venue := insert named (di_venue st), di_claims := close_claims named (di_claims st)\<rparr>)
         else if ev_event_type e \<in> BROKER_TERMINAL_EVENTS
         then Some (st\<lparr>di_claims := close_claims occurrence (di_claims st),
                       di_venue := (if occurrence = None then {} else di_venue st - {occurrence})\<rparr>)
         else Some st)"

fun direct_fold :: "order_row \<Rightarrow> execution_event list \<Rightarrow> direct_intervals \<Rightarrow> direct_intervals option" where
  "direct_fold ord [] st = Some st"
| "direct_fold ord (e # es) st = Option.bind (direct_step ord e st) (direct_fold ord es)"

definition NO_DIRECT_INTERVALS :: direct_intervals where
  "NO_DIRECT_INTERVALS = \<lparr>di_claims = {}, di_known = {}, di_venue = {}, di_latest = None, di_next = 0\<rparr>"

definition direct_sell_order_may_execute :: "order_row \<Rightarrow> execution_event list \<Rightarrow> bool \<Rightarrow> bool \<Rightarrow> bool" where
  "direct_sell_order_may_execute ord order_events has_open_recovery needs_review =
     (has_open_recovery \<or>
      (case direct_fold ord order_events NO_DIRECT_INTERVALS of
         None \<Rightarrow> True
       | Some st \<Rightarrow> \<not> needs_review \<and> (di_claims st \<noteq> {} \<or> di_venue st \<noteq> {} \<or> \<not> order_terminal (or_status ord))))"

subsection \<open>The scope of a cancel decision\<close>

definition cancel_target :: "pyval \<Rightarrow> (string \<times> string) option" where
  "cancel_target item =
     (case item of
        PDict d \<Rightarrow>
          if set (map fst d) \<noteq> {''order_id'', ''broker_order_id''} then None
          else (case (map_of d ''order_id'', map_of d ''broker_order_id'') of
                  (Some (PStr i), Some (PStr b)) \<Rightarrow> if i \<noteq> [] \<and> b \<noteq> [] then Some (i, b) else None
                | _ \<Rightarrow> None)
      | _ \<Rightarrow> None)"

text \<open>Texts compare by their bytes, which is the order of code points.\<close>

definition text_less :: "string \<Rightarrow> string \<Rightarrow> bool" where
  "text_less a b \<longleftrightarrow> (a, b) \<in> lexord {(c, d). (of_char c :: nat) < of_char d}"

definition canonical_targets :: "(string \<times> string) list \<Rightarrow> bool" where
  "canonical_targets targets \<longleftrightarrow>
     sorted_wrt (\<lambda>(i, b) (j, c). text_less i j \<or> i = j \<and> text_less b c) targets \<and>
     distinct (map fst targets) \<and> distinct (map snd targets)"

definition cancel_target_snapshot :: "payload \<Rightarrow> (string \<times> string) list option" where
  "cancel_target_snapshot payload =
     (case payload ''target_snapshot'' of
        Some (PList raw) \<Rightarrow>
          if raw = [] \<or> (\<exists>item \<in> set raw. cancel_target item = None) then None
          else let targets = map (\<lambda>item. the (cancel_target item)) raw
               in if canonical_targets targets then Some targets else None
      | _ \<Rightarrow> None)"

definition target_text :: "pyval \<Rightarrow> string option" where
  "target_text item = (case item of PStr s \<Rightarrow> if s \<noteq> [] then Some s else None | _ \<Rightarrow> None)"

definition cancel_request_target_order_ids :: "payload \<Rightarrow> string list option" where
  "cancel_request_target_order_ids payload =
     (case payload ''target_order_ids'' of
        Some (PList raw) \<Rightarrow>
          if raw = [] \<or> (\<exists>item \<in> set raw. target_text item = None) then None
          else let ids = map (\<lambda>item. the (target_text item)) raw
               in if sorted_wrt text_less ids then Some ids else None
      | _ \<Rightarrow> None)"

subsection \<open>The chain of envelopes\<close>

definition envelopes_by_id :: "execution_envelope list \<Rightarrow> (string \<rightharpoonup> execution_envelope)" where
  "envelopes_by_id envelopes = map_of (rev (map (\<lambda>env. (en_id env, env)) envelopes))"

definition same_mandate :: "execution_envelope \<Rightarrow> execution_envelope \<Rightarrow> bool" where
  "same_mandate a b \<longleftrightarrow>
     en_sell_intent_id a = en_sell_intent_id b \<and> en_symbol a = en_symbol b \<and> en_session_id a = en_session_id b"

definition malformed_envelope :: "(string \<rightharpoonup> execution_envelope) \<Rightarrow> execution_envelope \<Rightarrow> bool" where
  "malformed_envelope universe env \<longleftrightarrow>
     (en_status env = Envelope_COMPLETED \<and> (case en_remaining_quantity env of Some r \<Rightarrow> r | None \<Rightarrow> 0) \<noteq> 0) \<or>
     (en_status env = Envelope_SUPERSEDED \<and>
        (case Option.bind (en_superseded_by_id env) universe of
           None \<Rightarrow> True
         | Some successor \<Rightarrow> en_supersedes_id successor \<noteq> Some (en_id env) \<or> \<not> same_mandate successor env)) \<or>
     (\<exists>i \<in> set_option (en_supersedes_id env).
        case universe i of
          None \<Rightarrow> True
        | Some predecessor \<Rightarrow>
            en_status predecessor \<noteq> Envelope_SUPERSEDED \<or> en_superseded_by_id predecessor \<noteq> Some (en_id env) \<or>
            \<not> same_mandate predecessor env)"

definition malformed_ids :: "(string \<rightharpoonup> execution_envelope) \<Rightarrow> execution_envelope list \<Rightarrow> string list" where
  "malformed_ids universe envelopes = fold note_once (map en_id (filter (malformed_envelope universe) envelopes)) []"

subsection \<open>The action events\<close>

record action_scan =
  as_linked :: bool
  as_missing :: "string list"
  as_missing_envelopes :: "string list"
  as_invalid :: "string list"
  as_order_ids :: "string list"
  as_scopes :: "string \<rightharpoonup> execution_envelope"
  as_canonical :: "string \<rightharpoonup> execution_event"
  as_requests :: "(string \<times> execution_event list) list"
  as_cancels :: "(string \<times> execution_event list) list"

fun add_to :: "string \<Rightarrow> execution_event \<Rightarrow> (string \<times> execution_event list) list \<Rightarrow> (string \<times> execution_event list) list" where
  "add_to i e [] = [(i, [e])]"
| "add_to i e ((j, es) # rest) = (if i = j then (j, es @ [e]) # rest else (j, es) # add_to i e rest)"

definition refused_without_child :: "execution_event \<Rightarrow> bool" where
  "refused_without_child e \<longleftrightarrow>
     ev_payload e ''action'' = Some (PStr ''refused_stale'') \<and> ev_quantity e = None \<and> ev_price e = None"

text \<open>The economics of an action event within its envelope.\<close>

definition outside_envelope :: "execution_envelope \<Rightarrow> execution_event \<Rightarrow> bool" where
  "outside_envelope env e \<longleftrightarrow>
     \<not> local_fact e \<or> ev_symbol e \<noteq> Some (en_symbol env) \<or> ev_side e \<noteq> Some Side_SELL \<or>
     ev_correlation_id e \<noteq> Some (en_sell_intent_id env) \<or> ev_session_id e \<noteq> en_session_id env \<or>
     (case ev_quantity e of None \<Rightarrow> True | Some q \<Rightarrow> q \<le> 0 \<or> q > en_qty_ceiling env) \<or>
     (case ev_price e of None \<Rightarrow> True | Some p \<Rightarrow> float_less p (en_floor_price env))"

definition disposition_of :: "execution_event \<Rightarrow> string option" where
  "disposition_of e =
     (case ev_payload e ''disposition'' of
        Some (PStr d) \<Rightarrow> if d \<in> {''expiry_cancel_and_return'', ''stale_data_cancel''} then Some d else None
      | _ \<Rightarrow> None)"

definition cancel_invalid :: "execution_envelope \<Rightarrow> string \<Rightarrow> execution_event \<Rightarrow> bool" where
  "cancel_invalid env order_id e \<longleftrightarrow>
     outside_envelope env e \<or> ev_ts_event e = None \<or> ev_payload e ''actor'' \<noteq> Some (PStr ''engine'') \<or>
     (case (disposition_of e, ev_payload e ''broker_order_id'', ev_payload e ''attempt'', cancel_target_snapshot (ev_payload e)) of
        (Some d, Some (PStr b), Some (PInt n), Some targets) \<Rightarrow>
          b = [] \<or> n \<le> 0 \<or> (order_id, b) \<notin> set targets \<or>
          dom (ev_payload e) \<noteq>
            {''action'', ''actor'', ''disposition'', ''broker_order_id'', ''attempt'', ''target_snapshot''} \<or>
          ev_dedupe_key e \<noteq> Some (''envelope:'' @ en_id env @ '':disposition_cancel:'' @ order_id @ '':'' @ d @ '':'' @ show_int n)
      | _ \<Rightarrow> True)"

definition action_differs :: "execution_event \<Rightarrow> execution_event \<Rightarrow> bool" where
  "action_differs e prior \<longleftrightarrow>
     ev_envelope_id e \<noteq> ev_envelope_id prior \<or> ev_source e \<noteq> ev_source prior \<or> ev_authority e \<noteq> ev_authority prior \<or>
     ev_symbol e \<noteq> ev_symbol prior \<or> ev_side e \<noteq> ev_side prior \<or> ev_correlation_id e \<noteq> ev_correlation_id prior \<or>
     ev_session_id e \<noteq> ev_session_id prior \<or> ev_quantity e \<noteq> ev_quantity prior \<or>
     \<not> opt_float_eq (ev_price e) (ev_price prior) \<or> ev_ts_event e \<noteq> ev_ts_event prior \<or>
     \<not> payload_eq (ev_payload e) (ev_payload prior)"

definition minting_action :: "execution_event \<Rightarrow> bool" where
  "minting_action e \<longleftrightarrow> ev_payload e ''action'' \<in> {Some (PStr ''submit''), Some (PStr ''reprice'')}"

definition mint_invalid :: "action_scan \<Rightarrow> execution_envelope \<Rightarrow> string \<Rightarrow> execution_event \<Rightarrow> bool" where
  "mint_invalid st env order_id e \<longleftrightarrow>
     \<not> minting_action e \<or> outside_envelope env e \<or>
     (\<exists>scope \<in> set_option (as_scopes st order_id). en_id scope \<noteq> en_id env) \<or>
     (\<exists>prior \<in> set_option (as_canonical st order_id). action_differs e prior)"

definition note_invalid :: "bool \<Rightarrow> string \<Rightarrow> action_scan \<Rightarrow> action_scan" where
  "note_invalid bad order_id st = (if bad then st\<lparr>as_invalid := note_once order_id (as_invalid st)\<rparr> else st)"

definition scan_child :: "execution_envelope \<Rightarrow> string \<Rightarrow> execution_event \<Rightarrow> action_scan \<Rightarrow> action_scan" where
  "scan_child env order_id e st =
     (if ev_payload e ''action'' = Some (PStr ''cancel_request'')
      then st\<lparr>as_requests := add_to order_id e (as_requests st), as_linked := True\<rparr>
      else if ev_payload e ''action'' = Some (PStr ''cancel'')
      then note_invalid (cancel_invalid env order_id e) order_id
             (st\<lparr>as_cancels := add_to order_id e (as_cancels st), as_linked := True\<rparr>)
      else
        let st' = note_invalid (mint_invalid st env order_id e) order_id st
        in if order_id \<in> set (as_order_ids st') then st'
           else st'\<lparr>as_scopes := (as_scopes st')(order_id \<mapsto> env), as_canonical := (as_canonical st')(order_id \<mapsto> e),
                    as_order_ids := as_order_ids st' @ [order_id]\<rparr>)"

definition scan_action :: "(string \<rightharpoonup> execution_envelope) \<Rightarrow> execution_event \<Rightarrow> action_scan \<Rightarrow> action_scan" where
  "scan_action by_id e st =
     (if ev_event_type e \<noteq> Event_ENVELOPE_ACTION then st
      else
        let st = (if ev_order_id e = None \<and> \<not> refused_without_child e
                  then st\<lparr>as_missing := note_once (''<missing-order-id:'' @ text_or (ev_envelope_id e) ''missing-envelope'' @ ''>'')
                             (as_missing st), as_linked := True\<rparr>
                  else st)
        in case Option.bind (ev_envelope_id e) by_id of
             None \<Rightarrow>
               (let st = st\<lparr>as_missing_envelopes := note_once (text_or (ev_envelope_id e) ''<missing-envelope-id>'')
                              (as_missing_envelopes st), as_linked := True\<rparr>
                in case ev_order_id e of Some i \<Rightarrow> note_invalid True i st | None \<Rightarrow> st)
           | Some env \<Rightarrow> (case ev_order_id e of None \<Rightarrow> st | Some i \<Rightarrow> scan_child env i e st))"

definition NO_ACTIONS :: "string list \<Rightarrow> bool \<Rightarrow> action_scan" where
  "NO_ACTIONS malformed linked =
     \<lparr>as_linked = linked \<or> malformed \<noteq> [], as_missing = [], as_missing_envelopes = malformed, as_invalid = [],
      as_order_ids = [], as_scopes = Map.empty, as_canonical = Map.empty, as_requests = [], as_cancels = []\<rparr>"

text \<open>Sequence numbers are compared only where both events have one.\<close>

definition sequenced_after :: "execution_event \<Rightarrow> execution_event \<Rightarrow> bool" where
  "sequenced_after e prior \<longleftrightarrow> \<not> (ev_sequence prior > 0 \<and> ev_sequence e > 0 \<and> ev_sequence e \<le> ev_sequence prior)"

definition follows_canonical :: "execution_event \<Rightarrow> execution_event \<Rightarrow> order_row \<Rightarrow> bool" where
  "follows_canonical e canonical ord \<longleftrightarrow>
     ev_envelope_id e = ev_envelope_id canonical \<and> ev_symbol e = ev_symbol canonical \<and> ev_side e = ev_side canonical \<and>
     ev_correlation_id e = ev_correlation_id canonical \<and> ev_session_id e = ev_session_id canonical \<and>
     ev_quantity e = Some (or_quantity ord) \<and> opt_float_eq (ev_price e) (or_limit_price ord)"

definition target_edge :: "action_scan \<Rightarrow> (string \<rightharpoonup> order_row) \<Rightarrow> execution_event \<Rightarrow> execution_event \<Rightarrow> string \<Rightarrow> bool" where
  "target_edge st orders canonical e i =
     (case (as_canonical st i, orders i) of
        (Some target, Some ord) \<Rightarrow> ev_envelope_id target = ev_envelope_id canonical \<and> sequenced_after e target
      | _ \<Rightarrow> False)"

definition request_shape :: "string \<Rightarrow> execution_event \<Rightarrow> bool" where
  "request_shape order_id e =
     (case (disposition_of e, ev_payload e ''claim_occurrence'', cancel_request_target_order_ids (ev_payload e)) of
        (Some d, Some (PInt n), Some targets) \<Rightarrow>
          n \<ge> 0 \<and> order_id \<in> set targets \<and> ev_payload e ''actor'' = Some (PStr ''engine'') \<and>
          dom (ev_payload e) = {''action'', ''actor'', ''disposition'', ''claim_occurrence'', ''target_order_ids''} \<and>
          ev_dedupe_key e = Some (''envelope:'' @ text_or (ev_envelope_id e) ''None'' @ '':disposition_cancel_request:'' @ order_id @
            '':'' @ d @ '':'' @ show_int n)
      | _ \<Rightarrow> False)"

definition requests_valid :: "action_scan \<Rightarrow> (string \<rightharpoonup> order_row) \<Rightarrow> string \<Rightarrow> execution_event list \<Rightarrow> bool" where
  "requests_valid st orders order_id requests =
     (case (as_canonical st order_id, orders order_id) of
        (Some canonical, Some ord) \<Rightarrow>
          (\<forall>e \<in> set requests. ev_payload e ''disposition'' = ev_payload (hd requests) ''disposition'') \<and>
          (\<forall>e \<in> set requests. follows_canonical e canonical ord \<and> local_fact e \<and> request_shape order_id e \<and>
             sequenced_after e canonical \<and>
             (\<forall>i \<in> set (the (cancel_request_target_order_ids (ev_payload e))). target_edge st orders canonical e i)) \<and>
          distinct (map (\<lambda>e. ev_payload e ''claim_occurrence'') requests)
      | _ \<Rightarrow> False)"

fun in_sequence :: "nat \<Rightarrow> execution_event list \<Rightarrow> bool" where
  "in_sequence prior [] \<longleftrightarrow> True"
| "in_sequence prior (e # es) \<longleftrightarrow>
     \<not> (ev_sequence e > 0 \<and> prior > 0 \<and> ev_sequence e \<le> prior) \<and>
     in_sequence (if ev_sequence e > 0 then ev_sequence e else prior) es"

definition attempts_valid :: "action_scan \<Rightarrow> (string \<rightharpoonup> order_row) \<Rightarrow> string \<Rightarrow> execution_event list \<Rightarrow> bool" where
  "attempts_valid st orders order_id attempts =
     (case (as_canonical st order_id, orders order_id) of
        (None, _) \<Rightarrow> False
      | (Some canonical, None) \<Rightarrow> True
      | (Some canonical, Some ord) \<Rightarrow>
          let first = hd attempts;
              disposition = ev_payload first ''disposition'';
              snapshot = cancel_target_snapshot (ev_payload first);
              requests = (case map_of (as_requests st) order_id of Some es \<Rightarrow> es | None \<Rightarrow> [])
          in or_broker_order_id ord \<noteq> None \<and>
             (\<forall>r \<in> set requests. ev_payload r ''disposition'' = disposition \<and> sequenced_after first r) \<and>
             (\<forall>k < length attempts.
                let e = attempts ! k
                in follows_canonical e canonical ord \<and>
                   ev_source e = ev_source canonical \<and> ev_authority e = ev_authority canonical \<and>
                   ev_payload e ''broker_order_id'' = map_option PStr (or_broker_order_id ord) \<and>
                   ev_payload e ''disposition'' = disposition \<and> cancel_target_snapshot (ev_payload e) = snapshot \<and>
                   ev_payload e ''attempt'' = Some (PInt (int k + 1))) \<and>
             in_sequence (ev_sequence canonical) attempts \<and>
             (\<forall>(i, b) \<in> set (case snapshot of Some ts \<Rightarrow> ts | None \<Rightarrow> []).
                target_edge st orders canonical first i \<and>
                (\<forall>target \<in> set_option (orders i). or_broker_order_id target = Some b)))"

definition check_requests :: "(string \<rightharpoonup> order_row) \<Rightarrow> action_scan \<Rightarrow> action_scan" where
  "check_requests orders st = fold (\<lambda>(i, es). note_invalid (\<not> requests_valid st orders i es) i) (as_requests st) st"

definition check_cancels :: "(string \<rightharpoonup> order_row) \<Rightarrow> action_scan \<Rightarrow> action_scan" where
  "check_cancels orders st = fold (\<lambda>(i, es). note_invalid (\<not> attempts_valid st orders i es) i) (as_cancels st) st"

subsection \<open>The intervals of a child\<close>

record child_intervals =
  ci_claims :: "int set"
  ci_venue :: "int option set"
  ci_latest :: "int option"
  ci_next :: int
  ci_known :: "int set"
  ci_claim_sequence :: "int \<rightharpoonup> nat"
  ci_boundary :: "int \<rightharpoonup> nat"

definition NO_INTERVALS :: child_intervals where
  "NO_INTERVALS = \<lparr>ci_claims = {}, ci_venue = {}, ci_latest = None, ci_next = 0, ci_known = {},
     ci_claim_sequence = Map.empty, ci_boundary = Map.empty\<rparr>"

definition record_claim_boundary :: "int option \<Rightarrow> nat \<Rightarrow> child_intervals \<Rightarrow> child_intervals" where
  "record_claim_boundary occurrence sequence st =
     (case occurrence of
        None \<Rightarrow> st
      | Some n \<Rightarrow>
          (case ci_boundary st n of
             None \<Rightarrow> st\<lparr>ci_boundary := (ci_boundary st)(n \<mapsto> sequence)\<rparr>
           | Some prior \<Rightarrow> if sequence > 0 \<and> (prior = 0 \<or> sequence < prior)
                           then st\<lparr>ci_boundary := (ci_boundary st)(n \<mapsto> sequence)\<rparr> else st))"

definition outside_child_scope :: "execution_envelope \<Rightarrow> execution_event \<Rightarrow> bool" where
  "outside_child_scope env e \<longleftrightarrow>
     ev_symbol e \<noteq> Some (en_symbol env) \<or> ev_side e \<noteq> Some Side_SELL \<or> ev_session_id e \<noteq> en_session_id env \<or>
     (ev_correlation_id e \<noteq> None \<and> ev_correlation_id e \<noteq> Some (en_sell_intent_id env)) \<or>
     (ev_envelope_id e \<noteq> None \<and> ev_envelope_id e \<noteq> Some (en_id env)) \<or>
     (ev_payload e ''claim_occurrence'' \<noteq> None \<and> claim_occurrence_from_event e = None)"

text \<open>No value: the event is malformed, and the child is.\<close>

definition child_step :: "execution_envelope \<Rightarrow> execution_event \<Rightarrow> child_intervals \<Rightarrow> child_intervals option" where
  "child_step env e st =
     (let occurrence = claim_occurrence_from_event e;
          named = named_or_latest occurrence (ci_latest st);
          bounded = record_claim_boundary named (ev_sequence e) st
      in if \<not> child_lifecycle_provenance_is_valid e \<or> outside_child_scope env e then None
         else if ev_event_type e = Event_SUBMIT_PENDING
         then (let n = (case occurrence of None \<Rightarrow> ci_next st | Some n \<Rightarrow> n)
               in if n \<noteq> ci_next st \<or> n \<in> ci_known st \<or> ci_claims st \<noteq> {} then None
                  else Some (st\<lparr>ci_known := insert n (ci_known st),
                                ci_claim_sequence := (ci_claim_sequence st)(n \<mapsto> ev_sequence e),
                                ci_next := n + 1, ci_latest := Some n, ci_claims := insert n (ci_claims st)\<rparr>))
         else if ev_event_type e = Event_SUBMIT_RELEASED
         then (case named of
                 None \<Rightarrow> None
               | Some n \<Rightarrow> if n \<notin> ci_claims st then None else Some (bounded\<lparr>ci_claims := ci_claims st - {n}\<rparr>))
         else if ev_event_type e = Event_SUBMIT_RECOVERY_OPERATOR_RECONCILED
         then (case named of
                 None \<Rightarrow> None
               | Some n \<Rightarrow> Some (bounded\<lparr>ci_claims := ci_claims st - {n}, ci_venue := ci_venue st - {Some n}\<rparr>))
         else if ev_authority e \<noteq> Authority_BROKER_AUTHORITATIVE then Some bounded
         else if \<exists>n \<in> set_option occurrence. n \<notin> ci_known st then None
         else if ev_event_type e \<in> BROKER_WORKING_EVENTS
         then Some (bounded\<lparr>ci_venue := insert named (ci_venue st), ci_claims := close_claims named (ci_claims st)\<rparr>)
         else if ev_event_type e \<in> BROKER_TERMINAL_EVENTS
         then Some (bounded\<lparr>ci_claims := close_claims named (ci_claims st),
                            ci_venue := (if named = None then {} else ci_venue st - {named})\<rparr>)
         else Some st)"

definition lifecycle_step ::
  "(string \<rightharpoonup> execution_envelope) \<Rightarrow> execution_event \<Rightarrow> (string \<rightharpoonup> child_intervals) \<times> string list \<Rightarrow>
   (string \<rightharpoonup> child_intervals) \<times> string list" where
  "lifecycle_step scopes e st =
     (case st of (children, invalid) \<Rightarrow>
        case ev_order_id e of
          None \<Rightarrow> st
        | Some i \<Rightarrow>
            (case (children i, scopes i) of
               (Some child, Some env) \<Rightarrow>
                 if ev_event_type e \<notin> ENVELOPE_CHILD_LIFECYCLE_EVENTS then st
                 else (case child_step env e child of
                         None \<Rightarrow> (children, note_once i invalid)
                       | Some child' \<Rightarrow> (children(i \<mapsto> child'), invalid))
             | _ \<Rightarrow> st))"

text \<open>A request holds the claim it names: the last one, or the next when the one before has ended.\<close>

definition request_timed :: "child_intervals \<Rightarrow> execution_event \<Rightarrow> int \<Rightarrow> bool" where
  "request_timed child request n \<longleftrightarrow>
     (let highest = (if ci_known child = {} then -1 else Max (ci_known child))
      in (n = 0 \<or> (\<exists>b \<in> set_option (ci_boundary child (n - 1)). b > 0 \<and> ev_sequence request > b)) \<and>
         (case ci_claim_sequence child n of
            None \<Rightarrow> n = highest + 1
          | Some c \<Rightarrow> n = highest \<and> ev_sequence request > 0 \<and> c > 0 \<and> ev_sequence request > c))"

definition hold_request ::
  "(string \<rightharpoonup> child_intervals) \<Rightarrow> string \<Rightarrow> execution_event \<Rightarrow> string list \<times> string list \<Rightarrow> string list \<times> string list" where
  "hold_request children order_id request st =
     (case (ev_payload request ''claim_occurrence'', st) of
        (Some (PInt n), (invalid, held)) \<Rightarrow>
          if \<not> request_timed (case children order_id of Some c \<Rightarrow> c | None \<Rightarrow> NO_INTERVALS) request n
          then (note_once order_id invalid, held)
          else (invalid, (case cancel_request_target_order_ids (ev_payload request) of Some ids \<Rightarrow> held @ ids | None \<Rightarrow> held))
      | _ \<Rightarrow> st)"

definition hold_requests ::
  "(string \<rightharpoonup> child_intervals) \<Rightarrow> (string \<times> execution_event list) list \<Rightarrow> string list \<Rightarrow> string list \<times> string list" where
  "hold_requests children requests invalid =
     fold (\<lambda>(i, es). fold (hold_request children i) es) requests (invalid, [])"

subsection \<open>The rows of the children\<close>

definition action_shape_invalid :: "execution_event \<Rightarrow> order_row \<Rightarrow> bool" where
  "action_shape_invalid action ord \<longleftrightarrow>
     (let predecessor = ev_payload action ''replaces_order_id''
      in (ev_payload action ''action'' = Some (PStr ''submit'') \<and>
            (or_replaces_order_id ord \<noteq> None \<or> predecessor \<notin> {None, Some PNone})) \<or>
         (ev_payload action ''action'' = Some (PStr ''reprice'') \<and>
            (case predecessor of
               Some (PStr p) \<Rightarrow> p = [] \<or> or_replaces_order_id ord \<noteq> Some p \<or> or_replaces_order_id ord = Some (or_id ord)
             | _ \<Rightarrow> True)))"

definition child_row_valid :: "execution_envelope \<Rightarrow> execution_event \<Rightarrow> order_row \<Rightarrow> bool" where
  "child_row_valid env action ord \<longleftrightarrow>
     or_sell_intent_id ord = Some (en_sell_intent_id env) \<and> or_symbol ord = en_symbol env \<and> or_side ord = Side_SELL \<and>
     or_order_type ord = Type_LIMIT \<and> or_session_id ord = en_session_id env \<and> or_quantity ord \<le> en_qty_ceiling env \<and>
     (\<exists>p. or_limit_price ord = Some p \<and> \<not> float_less p (en_floor_price env)) \<and>
     ev_quantity action = Some (or_quantity ord) \<and> opt_float_eq (or_limit_price ord) (ev_price action) \<and>
     or_session_id ord = ev_session_id action \<and> \<not> action_shape_invalid action ord"

text \<open>The valid rows, the invalid children and the missing rows.\<close>

definition row_step ::
  "action_scan \<Rightarrow> (string \<rightharpoonup> order_row) \<Rightarrow> string \<Rightarrow> (string \<rightharpoonup> order_row) \<times> string list \<times> string list \<Rightarrow>
   (string \<rightharpoonup> order_row) \<times> string list \<times> string list" where
  "row_step scan orders i st =
     (case st of (valid, invalid, missing) \<Rightarrow>
        if i \<in> set invalid then st
        else case orders i of
          None \<Rightarrow> (valid, invalid, note_once i missing)
        | Some ord \<Rightarrow>
            if child_row_valid (the (as_scopes scan i)) (the (as_canonical scan i)) ord then (valid(i \<mapsto> ord), invalid, missing)
            else (valid, invalid @ [i], missing))"

text \<open>
  A replacement is valid when its chain of predecessors ends in a submit; the list holds the children
  that the walk has not met. The code keeps the answers in a cache, which changes none of them.
\<close>

function replacement_lineage_is_valid ::
  "(string \<rightharpoonup> order_row) \<Rightarrow> (string \<rightharpoonup> execution_event) \<Rightarrow> string list \<Rightarrow> string \<Rightarrow> bool" where
  "replacement_lineage_is_valid valid canonical unvisited i =
     (if i \<notin> set unvisited then False
      else case (valid i, canonical i) of
        (Some ord, Some action) \<Rightarrow>
          if ev_payload action ''action'' = Some (PStr ''submit'') then True
          else (case or_replaces_order_id ord of
                  None \<Rightarrow> False
                | Some p \<Rightarrow>
                    if p = i then False
                    else (case (valid p, canonical p) of
                            (Some predecessor, Some prior) \<Rightarrow>
                              ev_envelope_id prior = ev_envelope_id action \<and> or_broker_order_id predecessor \<noteq> None \<and>
                              sequenced_after action prior \<and>
                              replacement_lineage_is_valid valid canonical (removeAll i unvisited) p
                          | _ \<Rightarrow> False))
      | _ \<Rightarrow> False)"
  by pat_completeness auto

termination
  by (relation "measure (\<lambda>(valid, canonical, unvisited, i). length unvisited)") (auto intro: length_removeAll_less)

declare replacement_lineage_is_valid.simps [simp del]

subsection \<open>The children that may execute\<close>

record child_sorting =
  cs_unresolved :: "string list"
  cs_recovery :: "string list"
  cs_uncertain :: "string list"
  cs_venue :: "order_row list"
  cs_review :: "string list"

definition sort_child ::
  "(string \<rightharpoonup> child_intervals) \<Rightarrow> string set \<Rightarrow> string set \<Rightarrow> string \<Rightarrow> order_row \<Rightarrow> child_sorting \<Rightarrow> child_sorting" where
  "sort_child children open_recovery needs_review i ord st =
     (let child = the (children i)
      in if i \<in> open_recovery
         then st\<lparr>cs_unresolved := cs_unresolved st @ [i], cs_recovery := cs_recovery st @ [i], cs_venue := cs_venue st @ [ord]\<rparr>
         else if i \<in> needs_review then st\<lparr>cs_review := cs_review st @ [i]\<rparr>
         else if ci_claims child \<noteq> {}
         then st\<lparr>cs_unresolved := cs_unresolved st @ [i], cs_uncertain := cs_uncertain st @ [i], cs_venue := cs_venue st @ [ord]\<rparr>
         else if ci_venue child \<noteq> {}
         then st\<lparr>cs_unresolved := cs_unresolved st @ [i], cs_venue := cs_venue st @ [ord]\<rparr>
         else if order_terminal (or_status ord) then st
         else st\<lparr>cs_unresolved := cs_unresolved st @ [i],
                 cs_venue := (if or_status ord \<noteq> Order_CREATED then cs_venue st @ [ord] else cs_venue st)\<rparr>)"

definition sort_children ::
  "(string \<rightharpoonup> order_row) \<Rightarrow> (string \<rightharpoonup> child_intervals) \<Rightarrow> string set \<Rightarrow> string set \<Rightarrow> string list \<Rightarrow> string list \<Rightarrow> child_sorting" where
  "sort_children valid children open_recovery needs_review invalid order_ids =
     fold (\<lambda>i st. if i \<in> set invalid then st
                  else case valid i of
                    None \<Rightarrow> st
                  | Some ord \<Rightarrow> sort_child children open_recovery needs_review i ord st)
       order_ids \<lparr>cs_unresolved = [], cs_recovery = [], cs_uncertain = [], cs_venue = [], cs_review = []\<rparr>"

definition claim_candidate :: "string list \<Rightarrow> string \<Rightarrow> order_row \<Rightarrow> bool" where
  "claim_candidate held i ord \<longleftrightarrow> or_status ord = Order_CREATED \<and> i \<notin> set held"

definition acknowledge_candidate :: "child_intervals \<Rightarrow> string set \<Rightarrow> string set \<Rightarrow> string \<Rightarrow> order_row \<Rightarrow> bool" where
  "acknowledge_candidate child open_recovery needs_review i ord \<longleftrightarrow>
     or_status ord = Order_SUBMITTING \<and> card (ci_claims child) = 1 \<and> ci_venue child = {} \<and>
     i \<notin> open_recovery \<and> i \<notin> needs_review"

text \<open>A submit has to be the only unresolved child, a reprice the only one beside its working predecessor.\<close>

definition sole_child ::
  "(string \<rightharpoonup> order_row) \<Rightarrow> (string \<rightharpoonup> execution_event) \<Rightarrow> (string \<rightharpoonup> child_intervals) \<Rightarrow> string set \<Rightarrow> string set \<Rightarrow> string set \<Rightarrow>
   string \<Rightarrow> order_row \<Rightarrow> bool" where
  "sole_child valid canonical children open_recovery needs_review unresolved i ord =
     (if \<exists>action \<in> set_option (canonical i). ev_payload action ''action'' = Some (PStr ''submit'') then unresolved = {i}
      else case or_replaces_order_id ord of
        None \<Rightarrow> False
      | Some p \<Rightarrow>
          (case (valid p, children p) of
             (Some predecessor, Some child) \<Rightarrow>
               unresolved = {i, p} \<and> or_status predecessor \<in> {Order_SUBMITTED, Order_PARTIALLY_FILLED} \<and>
               ci_venue child \<noteq> {} \<and> p \<notin> open_recovery \<and> p \<notin> needs_review
           | _ \<Rightarrow> False))"

record envelope_obligation =
  ob_linked :: bool
  ob_retains_intent :: bool
  ob_unresolved :: "string list"
  ob_missing_envelopes :: "string list"
  ob_missing_orders :: "string list"
  ob_invalid :: "string list"
  ob_recovery :: "string list"
  ob_uncertain_claims :: "string list"
  ob_venue_orders :: "order_row list"
  ob_claimable :: "string list"
  ob_acknowledgeable :: "string list"
  ob_delegating :: bool
  ob_active_delegating :: bool
  ob_pre_activation :: "string list"
  ob_needs_review :: "string list"
  ob_retains_strict :: bool
  ob_retains_across_close :: bool

definition scan_actions ::
  "execution_envelope list \<Rightarrow> (string \<rightharpoonup> execution_envelope) \<Rightarrow> (string \<rightharpoonup> order_row) \<Rightarrow> execution_event list \<Rightarrow> action_scan" where
  "scan_actions envelopes known orders action_events =
     (let by_id = envelopes_by_id envelopes;
          linked = (\<exists>env \<in> set envelopes. en_timestamps env Envelope_APPROVED \<noteq> None \<or>
                      en_status env \<in> ENVELOPE_DELEGATING_STATUSES)
      in check_cancels orders (check_requests orders
           (fold (scan_action by_id) action_events (NO_ACTIONS (malformed_ids (known ++ by_id) envelopes) linked))))"

definition project_envelope_obligation ::
  "execution_envelope list \<Rightarrow> execution_event list \<Rightarrow> (string \<rightharpoonup> order_row) \<Rightarrow> execution_event list \<Rightarrow> string set \<Rightarrow> string set \<Rightarrow>
   (string \<rightharpoonup> execution_envelope) \<Rightarrow> envelope_obligation" where
  "project_envelope_obligation envelopes action_events orders order_events open_recovery needs_review known =
     (let delegating = (\<exists>env \<in> set envelopes. en_status env \<in> ENVELOPE_DELEGATING_STATUSES);
          scan = scan_actions envelopes known orders action_events;
          order_ids = as_order_ids scan;
          (children, invalid1) = fold (lifecycle_step (as_scopes scan)) order_events
             (\<lambda>i. if i \<in> set order_ids then Some NO_INTERVALS else None, as_invalid scan);
          (invalid2, held) = hold_requests children (as_requests scan) invalid1;
          (valid, invalid3, missing) = fold (row_step scan orders) order_ids (Map.empty, invalid2, as_missing scan);
          invalid = fold (\<lambda>i inv. if valid i \<noteq> None \<and> \<not> replacement_lineage_is_valid valid (as_canonical scan) order_ids i
                                  then inv @ [i] else inv) order_ids invalid3;
          sorting = sort_children valid children open_recovery needs_review invalid order_ids;
          unresolved = cs_unresolved sorting;
          sole = (\<lambda>i. sole_child valid (as_canonical scan) children open_recovery needs_review (set unresolved) i (the (valid i)));
          claimable = filter (\<lambda>i. claim_candidate held i (the (valid i)) \<and> sole i) unresolved;
          acknowledgeable = filter (\<lambda>i. \<not> claim_candidate held i (the (valid i)) \<and>
             acknowledge_candidate (the (children i)) open_recovery needs_review i (the (valid i)) \<and> sole i) unresolved;
          active_delegating = (\<exists>env \<in> set envelopes. en_status env \<in> {Envelope_ACTIVE, Envelope_FROZEN});
          ambiguous = (as_missing_envelopes scan \<noteq> [] \<or> missing \<noteq> [] \<or> invalid \<noteq> []);
          strict = (delegating \<or> unresolved \<noteq> [] \<or> ambiguous)
      in \<lparr>ob_linked = as_linked scan \<or> order_ids \<noteq> [], ob_retains_intent = (strict \<or> cs_review sorting \<noteq> []),
          ob_unresolved = unresolved, ob_missing_envelopes = as_missing_envelopes scan, ob_missing_orders = missing,
          ob_invalid = invalid, ob_recovery = cs_recovery sorting, ob_uncertain_claims = cs_uncertain sorting,
          ob_venue_orders = cs_venue sorting, ob_claimable = claimable, ob_acknowledgeable = acknowledgeable,
          ob_delegating = delegating, ob_active_delegating = active_delegating,
          ob_pre_activation = map en_id (filter (\<lambda>env. en_status env = Envelope_APPROVED) envelopes),
          ob_needs_review = cs_review sorting, ob_retains_strict = strict,
          ob_retains_across_close = (active_delegating \<or> unresolved \<noteq> [] \<or> ambiguous \<or> cs_review sorting \<noteq> [])\<rparr>)"

end
