(* ===== verification/Obligation_Correct.thy ===== *)
theory Obligation_Correct
  imports Obligation
begin

text \<open>
  What the obligation of an envelope promises: the scan accounts for every action event and every
  child it keeps has its envelope and its action, the rows and the intervals of a child are those of its
  own events, at most one child may be claimed or acknowledged, an interval that is not open any more
  has an event that ended it, and the obligation of a single child follows its events alone.
\<close>

subsection \<open>The scan of the actions\<close>

lemma set_note_once [simp]: "set (note_once x xs) = insert x (set xs)"
  by (auto simp: note_once_def)

lemma note_once_not_Nil [simp]: "note_once x xs \<noteq> []"
  by (auto simp: note_once_def)

lemma distinct_note_once [simp]: "distinct (note_once x xs) \<longleftrightarrow> distinct xs"
  by (simp add: note_once_def)

lemma note_invalid_simps [simp]:
  "as_order_ids (note_invalid b i st) = as_order_ids st" "as_scopes (note_invalid b i st) = as_scopes st"
  "as_canonical (note_invalid b i st) = as_canonical st" "as_missing (note_invalid b i st) = as_missing st"
  "as_missing_envelopes (note_invalid b i st) = as_missing_envelopes st" "as_linked (note_invalid b i st) = as_linked st"
  "as_requests (note_invalid b i st) = as_requests st" "as_cancels (note_invalid b i st) = as_cancels st"
  "set (as_invalid (note_invalid b i st)) = (if b then insert i (set (as_invalid st)) else set (as_invalid st))"
  by (simp_all add: note_invalid_def)

lemma envelopes_by_id_Some: "envelopes_by_id envelopes i = Some env \<Longrightarrow> env \<in> set envelopes \<and> en_id env = i"
  by (auto simp: envelopes_by_id_def dest: map_of_SomeD)

definition child_ok :: "execution_envelope list \<Rightarrow> execution_event set \<Rightarrow> action_scan \<Rightarrow> string \<Rightarrow> bool" where
  "child_ok envelopes events st i \<longleftrightarrow>
     (\<exists>env e. as_scopes st i = Some env \<and> as_canonical st i = Some e \<and> env \<in> set envelopes \<and> e \<in> events \<and>
        ev_order_id e = Some i \<and> ev_event_type e = Event_ENVELOPE_ACTION \<and> ev_envelope_id e = Some (en_id env) \<and>
        (i \<notin> set (as_invalid st) \<longrightarrow> minting_action e \<and> \<not> outside_envelope env e))"

definition scan_ok :: "execution_envelope list \<Rightarrow> execution_event set \<Rightarrow> action_scan \<Rightarrow> bool" where
  "scan_ok envelopes events st \<longleftrightarrow> distinct (as_order_ids st) \<and> (\<forall>i \<in> set (as_order_ids st). child_ok envelopes events st i)"

lemma child_ok_note_invalid [intro]: "child_ok envelopes events st i \<Longrightarrow> child_ok envelopes events (note_invalid b j st) i"
  unfolding child_ok_def note_invalid_simps by (elim exE) (intro exI, auto split: if_splits)

lemma scan_ok_note_invalid [intro]: "scan_ok envelopes events st \<Longrightarrow> scan_ok envelopes events (note_invalid b j st)"
  by (auto simp: scan_ok_def)

lemma scan_child_ok:
  assumes ok: "scan_ok envelopes events st" and env: "env \<in> set envelopes" and e: "e \<in> events" "ev_order_id e = Some i"
    "ev_event_type e = Event_ENVELOPE_ACTION" "ev_envelope_id e = Some (en_id env)"
  shows "scan_ok envelopes events (scan_child env i e st)"
proof -
  consider "ev_payload e ''action'' = Some (PStr ''cancel_request'')" | "ev_payload e ''action'' = Some (PStr ''cancel'')"
    | "ev_payload e ''action'' \<notin> {Some (PStr ''cancel_request''), Some (PStr ''cancel'')}" by blast
  then show ?thesis
  proof cases
    case 1
    then show ?thesis using ok by (simp add: scan_child_def scan_ok_def child_ok_def)
  next
    case 2
    have "scan_ok envelopes events (st\<lparr>as_cancels := add_to i e (as_cancels st), as_linked := True\<rparr>)"
      using ok by (simp add: scan_ok_def child_ok_def)
    with 2 show ?thesis by (auto simp: scan_child_def)
  next
    case 3
    define st' where "st' = note_invalid (mint_invalid st env i e) i st"
    have ok': "scan_ok envelopes events st'" using ok unfolding st'_def by blast
    have step: "scan_child env i e st = (if i \<in> set (as_order_ids st') then st'
        else st'\<lparr>as_scopes := (as_scopes st')(i \<mapsto> env), as_canonical := (as_canonical st')(i \<mapsto> e),
          as_order_ids := as_order_ids st' @ [i]\<rparr>)"
      using 3 by (simp add: scan_child_def Let_def st'_def)
    have new: "minting_action e \<and> \<not> outside_envelope env e" if "i \<notin> set (as_invalid st')"
      using that by (auto simp: st'_def mint_invalid_def split: if_splits)
    show ?thesis
    proof (cases "i \<in> set (as_order_ids st')")
      case False
      let ?new = "st'\<lparr>as_scopes := (as_scopes st')(i \<mapsto> env), as_canonical := (as_canonical st')(i \<mapsto> e),
          as_order_ids := as_order_ids st' @ [i]\<rparr>"
      have "child_ok envelopes events ?new i" using env e new by (simp add: child_ok_def)
      moreover have "child_ok envelopes events ?new j" if "j \<in> set (as_order_ids st')" for j
      proof -
        have "j \<noteq> i" using that False by blast
        moreover have "child_ok envelopes events st' j" using that ok' by (simp add: scan_ok_def)
        ultimately show ?thesis by (simp add: child_ok_def)
      qed
      ultimately show ?thesis using False ok' by (simp add: step scan_ok_def)
    qed (simp add: step ok')
  qed
qed

lemma scan_ok_notes:
  assumes "scan_ok envelopes events st"
  shows "scan_ok envelopes events (st\<lparr>as_missing := m, as_linked := l\<rparr>)"
    "scan_ok envelopes events (st\<lparr>as_missing_envelopes := m, as_linked := l\<rparr>)"
  using assms by (simp_all add: scan_ok_def child_ok_def)

lemma scan_action_ok:
  assumes "scan_ok envelopes events st" "e \<in> events"
  shows "scan_ok envelopes events (scan_action (envelopes_by_id envelopes) e st)"
proof (cases "ev_event_type e = Event_ENVELOPE_ACTION")
  case True
  define st' where "st' = (if ev_order_id e = None \<and> \<not> refused_without_child e
    then st\<lparr>as_missing := note_once (''<missing-order-id:'' @ text_or (ev_envelope_id e) ''missing-envelope'' @ ''>'') (as_missing st),
      as_linked := True\<rparr> else st)"
  have ok: "scan_ok envelopes events st'" using scan_ok_notes(1) [OF assms(1)] assms(1) by (simp add: st'_def)
  have step: "scan_action (envelopes_by_id envelopes) e st =
      (case Option.bind (ev_envelope_id e) (envelopes_by_id envelopes) of
         None \<Rightarrow>
           (let st = st'\<lparr>as_missing_envelopes := note_once (text_or (ev_envelope_id e) ''<missing-envelope-id>'')
              (as_missing_envelopes st'), as_linked := True\<rparr>
            in case ev_order_id e of Some i \<Rightarrow> note_invalid True i st | None \<Rightarrow> st)
       | Some env \<Rightarrow> (case ev_order_id e of None \<Rightarrow> st' | Some i \<Rightarrow> scan_child env i e st'))"
    using True unfolding scan_action_def st'_def by (simp only: Let_def simp_thms if_False)
  show ?thesis
  proof (cases "Option.bind (ev_envelope_id e) (envelopes_by_id envelopes)")
    case None
    show ?thesis
      unfolding step None Let_def option.case
      by (cases "ev_order_id e") (simp_all only: option.case scan_ok_notes(2) [OF ok] scan_ok_note_invalid)
  next
    case (Some env)
    then have env: "env \<in> set envelopes" "ev_envelope_id e = Some (en_id env)"
      by (auto simp: bind_eq_Some_conv dest!: envelopes_by_id_Some)
    show ?thesis
      unfolding step Some option.case
      using ok scan_child_ok [OF ok env(1) assms(2) _ True env(2)] by (cases "ev_order_id e") simp_all
  qed
qed (simp add: scan_action_def assms(1))

lemma fold_preserves: "(\<And>x s. x \<in> set xs \<Longrightarrow> P s \<Longrightarrow> P (f x s)) \<Longrightarrow> P s \<Longrightarrow> P (fold f xs s)"
  by (induction xs arbitrary: s) auto

lemma scan_actions_ok: "scan_ok envelopes (set action_events) (scan_actions envelopes known orders action_events)"
proof -
  have start: "scan_ok envelopes (set action_events) (NO_ACTIONS m l)" for m l by (simp add: scan_ok_def NO_ACTIONS_def)
  show ?thesis
    unfolding scan_actions_def Let_def check_requests_def check_cancels_def case_prod_beta
    by (intro fold_preserves [where P = "scan_ok envelopes (set action_events)"] scan_ok_note_invalid start scan_action_ok)
qed

text \<open>Every order that an action names is a child, or an envelope is missing.\<close>

definition covered :: "execution_event \<Rightarrow> action_scan \<Rightarrow> bool" where
  "covered e st \<longleftrightarrow>
     (minting_action e \<and> ev_event_type e = Event_ENVELOPE_ACTION \<longrightarrow>
        (\<forall>i. ev_order_id e = Some i \<longrightarrow> i \<in> set (as_order_ids st)) \<or> as_missing_envelopes st \<noteq> [])"

lemma scan_child_grows: "set (as_order_ids st) \<subseteq> set (as_order_ids (scan_child env i e st))"
    "as_missing_envelopes (scan_child env i e st) = as_missing_envelopes st"
  by (auto simp: scan_child_def Let_def)

lemma scan_action_grows:
  "set (as_order_ids st) \<subseteq> set (as_order_ids (scan_action by_id e st))"
  "as_missing_envelopes st \<noteq> [] \<Longrightarrow> as_missing_envelopes (scan_action by_id e st) \<noteq> []"
proof -
  have grows: "set (as_order_ids st) \<subseteq> set (as_order_ids (scan_child env i e (st\<lparr>as_missing := m, as_linked := True\<rparr>)))" for env i m
    using scan_child_grows(1) [of "st\<lparr>as_missing := m, as_linked := True\<rparr>"] by simp
  show "set (as_order_ids st) \<subseteq> set (as_order_ids (scan_action by_id e st))"
    unfolding scan_action_def Let_def using grows scan_child_grows(1) [of st] by (simp split: option.splits)
  show "as_missing_envelopes st \<noteq> [] \<Longrightarrow> as_missing_envelopes (scan_action by_id e st) \<noteq> []"
    unfolding scan_action_def Let_def by (simp add: scan_child_grows(2) split: option.splits)
qed

lemma scan_action_covers: "covered e (scan_action by_id e st)"
proof -
  have "i \<in> set (as_order_ids (scan_child env i e st))" if "minting_action e" for env i st
    using that by (auto simp: scan_child_def Let_def minting_action_def)
  then show ?thesis by (auto simp: covered_def scan_action_def Let_def split: option.splits)
qed

lemma fold_scan_covers: "\<forall>e \<in> set es. covered e (fold (scan_action by_id) es st)"
proof (induction es rule: rev_induct)
  case (snoc e es)
  have "covered e' (scan_action by_id e st')" if "covered e' st'" for e' st'
    using that scan_action_grows [of st' by_id e] by (auto simp: covered_def)
  with snoc show ?case by (auto simp: scan_action_covers)
qed simp

lemma scan_actions_cover: "e \<in> set action_events \<Longrightarrow> covered e (scan_actions envelopes known orders action_events)"
proof -
  assume e: "e \<in> set action_events"
  have step: "covered e (note_invalid b i st)" if "covered e st" for b i st using that by (simp add: covered_def)
  have start: "covered e (fold (scan_action by_id) action_events st)" for by_id st
    using fold_scan_covers e by blast
  show ?thesis
    unfolding scan_actions_def Let_def check_requests_def check_cancels_def case_prod_beta
    by (intro fold_preserves [where P = "covered e"] start step)
qed

subsection \<open>The rows and the intervals\<close>

lemma lifecycle_step_invalid: "lifecycle_step scopes e (children, invalid) = (children', invalid') \<Longrightarrow> set invalid \<subseteq> set invalid'"
  by (auto simp: lifecycle_step_def split: option.splits if_splits)

lemma lifecycle_fold_invalid:
  "fold (lifecycle_step scopes) es (children, invalid) = (children', invalid') \<Longrightarrow> set invalid \<subseteq> set invalid'"
proof (induction es arbitrary: children invalid)
  case (Cons e es)
  obtain c i where step: "lifecycle_step scopes e (children, invalid) = (c, i)" by fastforce
  with Cons.prems have "fold (lifecycle_step scopes) es (c, i) = (children', invalid')" by simp
  from Cons.IH [OF this] lifecycle_step_invalid [OF step] show ?case by blast
qed simp

text \<open>The intervals of one child, from its own events alone.\<close>

definition child_events :: "string \<Rightarrow> execution_event list \<Rightarrow> execution_event list" where
  "child_events i es = filter (\<lambda>e. ev_order_id e = Some i \<and> ev_event_type e \<in> ENVELOPE_CHILD_LIFECYCLE_EVENTS) es"

fun child_fold :: "execution_envelope \<Rightarrow> execution_event list \<Rightarrow> child_intervals \<Rightarrow> child_intervals option" where
  "child_fold env [] st = Some st"
| "child_fold env (e # es) st = Option.bind (child_step env e st) (child_fold env es)"

lemma lifecycle_fold_child:
  assumes "fold (lifecycle_step scopes) es (children, invalid) = (children', invalid')"
    and "children i = Some st" "scopes i = Some env" "i \<notin> set invalid'"
  shows "\<exists>st'. children' i = Some st' \<and> child_fold env (child_events i es) st = Some st'"
  using assms
proof (induction es arbitrary: children invalid st)
  case Nil
  then show ?case by (simp add: child_events_def)
next
  case (Cons e es)
  obtain c inv where step: "lifecycle_step scopes e (children, invalid) = (c, inv)" by fastforce
  with Cons.prems(1) have rest: "fold (lifecycle_step scopes) es (c, inv) = (children', invalid')" by simp
  show ?case
  proof (cases "ev_order_id e = Some i \<and> ev_event_type e \<in> ENVELOPE_CHILD_LIFECYCLE_EVENTS")
    case True
    have "i \<notin> set inv" using lifecycle_fold_invalid [OF rest] Cons.prems(4) by blast
    with step True Cons.prems(2,3) obtain st1 where st1: "child_step env e st = Some st1" "c i = Some st1"
      by (auto simp: lifecycle_step_def split: option.splits)
    from Cons.IH [OF rest st1(2) Cons.prems(3,4)] True st1(1) show ?thesis by (auto simp: child_events_def)
  next
    case False
    then have "c i = Some st"
      using step Cons.prems(2) by (auto simp: lifecycle_step_def split: option.splits if_splits)
    from Cons.IH [OF rest this Cons.prems(3,4)] False show ?thesis by (auto simp: child_events_def)
  qed
qed

lemma hold_request_invalid: "hold_request children i r (invalid, held) = (invalid', held') \<Longrightarrow> set invalid \<subseteq> set invalid'"
  by (auto simp: hold_request_def split: option.splits pyval.splits if_splits)

lemma fold_grows:
  assumes "\<And>x s. m s \<subseteq> m (f x s)"
  shows "m s \<subseteq> m (fold f xs s)"
proof (induction xs arbitrary: s)
  case (Cons x xs)
  show ?case using subset_trans [OF assms Cons.IH [of "f x s"]] by simp
qed simp

lemma hold_requests_invalid:
  assumes "hold_requests children requests invalid = (invalid', held)"
  shows "set invalid \<subseteq> set invalid'"
proof -
  have one: "set (fst st) \<subseteq> set (fst (hold_request children i r st))" for i r st
    using hold_request_invalid [of children i r "fst st" "snd st"] by (metis prod.collapse)
  have "set (fst (invalid, [] :: string list)) \<subseteq> set (fst (hold_requests children requests invalid))"
    unfolding hold_requests_def case_prod_beta
    by (rule fold_grows [where m = "\<lambda>st :: string list \<times> string list. set (fst st)"], rule fold_grows [where m = "\<lambda>st :: string list \<times> string list. set (fst st)"], rule one)
  with assms show ?thesis by simp
qed

definition rows_ok ::
  "action_scan \<Rightarrow> (string \<rightharpoonup> order_row) \<Rightarrow> (string \<rightharpoonup> order_row) \<times> string list \<times> string list \<Rightarrow> bool" where
  "rows_ok scan orders st \<longleftrightarrow>
     (\<forall>i ord. fst st i = Some ord \<longrightarrow>
        orders i = Some ord \<and> child_row_valid (the (as_scopes scan i)) (the (as_canonical scan i)) ord)"

lemma row_step_ok: "rows_ok scan orders st \<Longrightarrow> rows_ok scan orders (row_step scan orders i st)"
  by (auto simp: rows_ok_def row_step_def split: prod.splits option.splits)

text \<open>What a step of the rows may only add to.\<close>

definition rows_facts :: "(string \<rightharpoonup> order_row) \<times> string list \<times> string list \<Rightarrow> string set \<times> string set \<times> bool" where
  "rows_facts st = (case st of (valid, invalid, missing) \<Rightarrow> (dom valid, set invalid, missing \<noteq> []))"

definition facts_le :: "string set \<times> string set \<times> bool \<Rightarrow> string set \<times> string set \<times> bool \<Rightarrow> bool" where
  "facts_le a b \<longleftrightarrow> fst a \<subseteq> fst b \<and> fst (snd a) \<subseteq> fst (snd b) \<and> (snd (snd a) \<longrightarrow> snd (snd b))"

definition row_settled :: "string \<Rightarrow> string set \<times> string set \<times> bool \<Rightarrow> bool" where
  "row_settled i a \<longleftrightarrow> i \<in> fst a \<or> i \<in> fst (snd a) \<or> snd (snd a)"

lemma facts_le_refl [simp]: "facts_le a a"
  by (simp add: facts_le_def)

lemma facts_le_trans: "facts_le a b \<Longrightarrow> facts_le b c \<Longrightarrow> facts_le a c"
  by (auto simp: facts_le_def)

lemma row_settled_mono: "row_settled i a \<Longrightarrow> facts_le a b \<Longrightarrow> row_settled i b"
  by (auto simp: facts_le_def row_settled_def)

lemma row_step_grows: "facts_le (rows_facts st) (rows_facts (row_step scan orders i st))"
  by (auto simp: facts_le_def rows_facts_def row_step_def split: prod.splits option.splits)

lemma row_step_settles: "row_settled i (rows_facts (row_step scan orders i st))"
  by (auto simp: row_settled_def rows_facts_def row_step_def split: prod.splits option.splits)

lemma row_step_dom: "dom (fst (row_step scan orders i st)) \<subseteq> insert i (dom (fst st))"
  by (auto simp: row_step_def split: prod.splits option.splits if_splits)

lemma row_fold_grows: "facts_le (rows_facts st) (rows_facts (fold (row_step scan orders) is st))"
proof (induction "is" arbitrary: st)
  case (Cons i "is")
  show ?case using facts_le_trans [OF row_step_grows Cons.IH] by simp
qed simp

lemma row_fold_settles: "i \<in> set is \<Longrightarrow> row_settled i (rows_facts (fold (row_step scan orders) is st))"
proof (induction "is" arbitrary: st)
  case (Cons j "is")
  show ?case
  proof (cases "i = j")
    case True
    then show ?thesis using row_settled_mono [OF row_step_settles row_fold_grows] by simp
  qed (use Cons in simp)
qed simp

lemma row_fold_dom: "dom (fst (fold (row_step scan orders) is st)) \<subseteq> set is \<union> dom (fst st)"
proof (induction "is" arbitrary: st)
  case (Cons i "is")
  show ?case using Cons.IH [of "row_step scan orders i st"] row_step_dom [of scan orders i st] by auto
qed simp

lemma row_fold_ok: "rows_ok scan orders st \<Longrightarrow> rows_ok scan orders (fold (row_step scan orders) is st)"
  by (rule fold_preserves [where P = "rows_ok scan orders"]) (rule row_step_ok)

subsection \<open>The sorting\<close>

definition child_unresolved :: "(string \<rightharpoonup> order_row) \<Rightarrow> (string \<rightharpoonup> child_intervals) \<Rightarrow> string set \<Rightarrow> string set \<Rightarrow> string list \<Rightarrow> string \<Rightarrow> bool" where
  "child_unresolved valid children open_recovery needs_review invalid i \<longleftrightarrow>
     i \<notin> set invalid \<and>
     (\<exists>ord. valid i = Some ord \<and>
        (i \<in> open_recovery \<or>
         i \<notin> needs_review \<and> (ci_claims (the (children i)) \<noteq> {} \<or> ci_venue (the (children i)) \<noteq> {} \<or> \<not> order_terminal (or_status ord))))"

definition child_reviewed :: "(string \<rightharpoonup> order_row) \<Rightarrow> string set \<Rightarrow> string set \<Rightarrow> string list \<Rightarrow> string \<Rightarrow> bool" where
  "child_reviewed valid open_recovery needs_review invalid i \<longleftrightarrow>
     i \<notin> set invalid \<and> valid i \<noteq> None \<and> i \<notin> open_recovery \<and> i \<in> needs_review"

lemma sort_child_fields:
  "cs_unresolved (sort_child children recov review i ord st) =
     cs_unresolved st @ (if i \<in> recov \<or> i \<notin> review \<and> (ci_claims (the (children i)) \<noteq> {} \<or> ci_venue (the (children i)) \<noteq> {} \<or>
       \<not> order_terminal (or_status ord)) then [i] else [])"
  "cs_review (sort_child children recov review i ord st) = cs_review st @ (if i \<notin> recov \<and> i \<in> review then [i] else [])"
  by (simp_all add: sort_child_def Let_def)

lemma sort_children_fields:
  "cs_unresolved (sort_children valid children recov review invalid order_ids) =
     filter (child_unresolved valid children recov review invalid) order_ids"
  "cs_review (sort_children valid children recov review invalid order_ids) =
     filter (child_reviewed valid recov review invalid) order_ids"
proof -
  let ?f = "\<lambda>i st. if i \<in> set invalid then st
    else case valid i of None \<Rightarrow> st | Some ord \<Rightarrow> sort_child children recov review i ord st"
  have "cs_unresolved (fold ?f is st) = cs_unresolved st @ filter (child_unresolved valid children recov review invalid) is \<and>
      cs_review (fold ?f is st) = cs_review st @ filter (child_reviewed valid recov review invalid) is" for "is" st
  proof (induction "is" arbitrary: st)
    case (Cons i "is")
    have "cs_unresolved (?f i st) = cs_unresolved st @ (if child_unresolved valid children recov review invalid i then [i] else [])"
      "cs_review (?f i st) = cs_review st @ (if child_reviewed valid recov review invalid i then [i] else [])"
      by (cases "valid i"; auto simp: child_unresolved_def child_reviewed_def sort_child_fields)+
    with Cons.IH [of "?f i st"] show ?case by simp
  qed simp
  from this [of order_ids "\<lparr>cs_unresolved = [], cs_recovery = [], cs_uncertain = [], cs_venue = [], cs_review = []\<rparr>"]
  show "cs_unresolved (sort_children valid children recov review invalid order_ids) =
      filter (child_unresolved valid children recov review invalid) order_ids"
    "cs_review (sort_children valid children recov review invalid order_ids) =
     filter (child_reviewed valid recov review invalid) order_ids"
    unfolding sort_children_def by simp_all
qed

subsection \<open>The projection\<close>

definition obligation_view ::
  "action_scan \<Rightarrow> (string \<rightharpoonup> order_row) \<Rightarrow> (string \<rightharpoonup> child_intervals) \<Rightarrow> string list \<Rightarrow> string set \<Rightarrow> string set \<Rightarrow>
   execution_envelope list \<Rightarrow> envelope_obligation \<Rightarrow> bool" where
  "obligation_view scan valid children held recov review envelopes ob \<longleftrightarrow>
     (let sole = (\<lambda>i. sole_child valid (as_canonical scan) children recov review (set (ob_unresolved ob)) i (the (valid i)))
      in ob_unresolved ob = filter (child_unresolved valid children recov review (ob_invalid ob)) (as_order_ids scan) \<and>
         ob_needs_review ob = filter (child_reviewed valid recov review (ob_invalid ob)) (as_order_ids scan) \<and>
         ob_claimable ob = filter (\<lambda>i. claim_candidate held i (the (valid i)) \<and> sole i) (ob_unresolved ob) \<and>
         ob_acknowledgeable ob = filter (\<lambda>i. \<not> claim_candidate held i (the (valid i)) \<and>
            acknowledge_candidate (the (children i)) recov review i (the (valid i)) \<and> sole i) (ob_unresolved ob) \<and>
         ob_missing_envelopes ob = as_missing_envelopes scan \<and>
         (ob_delegating ob \<longleftrightarrow> (\<exists>env \<in> set envelopes. en_status env \<in> ENVELOPE_DELEGATING_STATUSES)) \<and>
         (ob_retains_strict ob \<longleftrightarrow> ob_delegating ob \<or> ob_unresolved ob \<noteq> [] \<or> ob_missing_envelopes ob \<noteq> [] \<or>
            ob_missing_orders ob \<noteq> [] \<or> ob_invalid ob \<noteq> []) \<and>
         (ob_retains_intent ob \<longleftrightarrow> ob_retains_strict ob \<or> ob_needs_review ob \<noteq> []))"

definition child_settled ::
  "action_scan \<Rightarrow> (string \<rightharpoonup> order_row) \<Rightarrow> (string \<rightharpoonup> order_row) \<Rightarrow> (string \<rightharpoonup> child_intervals) \<Rightarrow> execution_event list \<Rightarrow>
   string list \<Rightarrow> string \<Rightarrow> bool" where
  "child_settled scan orders valid children order_events invalid i \<longleftrightarrow>
     i \<in> set invalid \<or>
     (\<exists>env child. as_scopes scan i = Some env \<and> children i = Some child \<and>
        child_fold env (child_events i order_events) NO_INTERVALS = Some child)"

lemma obligation_facts:
  fixes envelopes action_events orders order_events recov review known
  defines "ob \<equiv> project_envelope_obligation envelopes action_events orders order_events recov review known"
    and "scan \<equiv> scan_actions envelopes known orders action_events"
  shows "\<exists>valid children held.
    obligation_view scan valid children held recov review envelopes ob \<and>
    set (as_invalid scan) \<subseteq> set (ob_invalid ob) \<and>
    (\<forall>i ord. valid i = Some ord \<longrightarrow> i \<in> set (as_order_ids scan) \<and> orders i = Some ord \<and>
       child_row_valid (the (as_scopes scan i)) (the (as_canonical scan i)) ord) \<and>
    (\<forall>i \<in> set (as_order_ids scan). valid i \<noteq> None \<or> i \<in> set (ob_invalid ob) \<or> ob_missing_orders ob \<noteq> []) \<and>
    (\<forall>i \<in> set (as_order_ids scan). child_settled scan orders valid children order_events (ob_invalid ob) i)"
proof -
  let ?start = "\<lambda>i. if i \<in> set (as_order_ids scan) then Some NO_INTERVALS else None"
  obtain children inv1 where f1: "fold (lifecycle_step (as_scopes scan)) order_events (?start, as_invalid scan) = (children, inv1)"
    by fastforce
  obtain inv2 held where f2: "hold_requests children (as_requests scan) inv1 = (inv2, held)" by fastforce
  obtain valid inv3 missing where f3:
      "fold (row_step scan orders) (as_order_ids scan) (Map.empty, inv2, as_missing scan) = (valid, inv3, missing)"
    by (metis prod.exhaust)
  define inv where "inv = fold (\<lambda>i inv. if valid i \<noteq> None \<and> \<not> replacement_lineage_is_valid valid (as_canonical scan)
    (as_order_ids scan) i then inv @ [i] else inv) (as_order_ids scan) inv3"
  have ob: "ob_invalid ob = inv" "ob_missing_orders ob = missing" "obligation_view scan valid children held recov review envelopes ob"
    unfolding ob_def project_envelope_obligation_def scan_def [symmetric] obligation_view_def Let_def f1 f2 f3 case_prod_conv
      inv_def [symmetric]
    by (simp_all add: sort_children_fields cong: conj_cong)
  have le1: "set (as_invalid scan) \<subseteq> set inv1" by (rule lifecycle_fold_invalid [OF f1])
  have le2: "set inv1 \<subseteq> set inv2" by (rule hold_requests_invalid [OF f2])
  have le3: "set inv2 \<subseteq> set inv3"
    using row_fold_grows [of "(Map.empty, inv2, as_missing scan)" scan orders "as_order_ids scan"]
    by (simp add: f3 facts_le_def rows_facts_def)
  have le4: "set inv3 \<subseteq> set inv"
    unfolding inv_def by (rule fold_grows [where m = "set :: string list \<Rightarrow> string set"]) auto
  have "rows_ok scan orders (Map.empty, inv2, as_missing scan)" by (simp add: rows_ok_def)
  from row_fold_ok [OF this, of "as_order_ids scan"]
  have rows: "\<forall>i ord. valid i = Some ord \<longrightarrow> orders i = Some ord \<and>
      child_row_valid (the (as_scopes scan i)) (the (as_canonical scan i)) ord"
    by (simp add: f3 rows_ok_def)
  have dom: "dom valid \<subseteq> set (as_order_ids scan)"
    using row_fold_dom [of scan orders "as_order_ids scan" "(Map.empty, inv2, as_missing scan)"] by (simp add: f3)
  have settled: "valid i \<noteq> None \<or> i \<in> set inv \<or> missing \<noteq> []" if "i \<in> set (as_order_ids scan)" for i
    using row_fold_settles [OF that, of scan orders "(Map.empty, inv2, as_missing scan)"] le4
    by (auto simp: f3 row_settled_def rows_facts_def)
  have "child_settled scan orders valid children order_events inv i" if i: "i \<in> set (as_order_ids scan)" for i
  proof (cases "i \<in> set inv")
    case False
    obtain env where env: "as_scopes scan i = Some env"
      using scan_actions_ok [of envelopes action_events known orders] i by (auto simp: scan_ok_def child_ok_def scan_def)
    have "i \<notin> set inv1" using False le2 le3 le4 by blast
    from lifecycle_fold_child [OF f1 _ env this, of NO_INTERVALS] i env show ?thesis by (auto simp: child_settled_def)
  qed (simp add: child_settled_def)
  moreover have "set (as_invalid scan) \<subseteq> set inv" using le1 le2 le3 le4 by blast
  ultimately show ?thesis
    using ob rows dom settled by (intro exI [of _ valid] exI [of _ children] exI [of _ held]) (auto simp: domIff)
qed

text \<open>At most one child may be claimed or acknowledged.\<close>

lemma sole_child_excludes:
  assumes "sole_child valid canonical children recov review unresolved i ord" "j \<in> unresolved" "j \<noteq> i"
  shows "\<exists>o'. valid j = Some o' \<and> or_status o' \<in> {Order_SUBMITTED, Order_PARTIALLY_FILLED}"
  using assms by (auto simp: sole_child_def split: if_splits option.splits)

lemma one_child_at_most:
  assumes "obligation_view scan valid children held recov review envelopes ob" "distinct (as_order_ids scan)"
  shows "length (ob_claimable ob @ ob_acknowledgeable ob) \<le> 1"
proof -
  note v = assms(1) [unfolded obligation_view_def Let_def]
  let ?go = "ob_claimable ob @ ob_acknowledgeable ob"
  have same: "i = j" if i: "i \<in> set ?go" and j: "j \<in> set ?go" for i j
  proof (rule ccontr)
    assume ne: "i \<noteq> j"
    have "sole_child valid (as_canonical scan) children recov review (set (ob_unresolved ob)) i (the (valid i))"
      "j \<in> set (ob_unresolved ob)" using i j v by auto
    from sole_child_excludes [OF this] ne obtain o' where "valid j = Some o'"
        "or_status o' \<in> {Order_SUBMITTED, Order_PARTIALLY_FILLED}" by metis
    moreover have "or_status (the (valid j)) \<in> {Order_CREATED, Order_SUBMITTING}"
      using j v by (auto simp: claim_candidate_def acknowledge_candidate_def)
    ultimately show False by auto
  qed
  have u: "distinct (ob_unresolved ob)" using v assms(2) by simp
  have c: "ob_claimable ob = filter (\<lambda>i. claim_candidate held i (the (valid i)) \<and>
      sole_child valid (as_canonical scan) children recov review (set (ob_unresolved ob)) i (the (valid i))) (ob_unresolved ob)"
    and a: "ob_acknowledgeable ob = filter (\<lambda>i. \<not> claim_candidate held i (the (valid i)) \<and>
      acknowledge_candidate (the (children i)) recov review i (the (valid i)) \<and>
      sole_child valid (as_canonical scan) children recov review (set (ob_unresolved ob)) i (the (valid i))) (ob_unresolved ob)"
    using v by blast+
  have "distinct (ob_claimable ob)" "distinct (ob_acknowledgeable ob)" by (subst c a, rule distinct_filter [OF u])+
  moreover have "set (ob_claimable ob) \<inter> set (ob_acknowledgeable ob) = {}"
    by (subst c, subst a) auto
  ultimately have "distinct ?go" by simp
  moreover have "card (set ?go) \<le> 1" using same by (simp add: card_le_Suc0_iff_eq)
  ultimately show ?thesis by (metis distinct_card)
qed

subsection \<open>Intervals that have ended\<close>

definition closes_venue :: "execution_event \<Rightarrow> bool" where
  "closes_venue e \<longleftrightarrow>
     ev_event_type e = Event_SUBMIT_RECOVERY_OPERATOR_RECONCILED \<or>
     ev_event_type e \<in> BROKER_TERMINAL_EVENTS \<and> ev_authority e = Authority_BROKER_AUTHORITATIVE"

definition opens_venue :: "execution_event \<Rightarrow> bool" where
  "opens_venue e \<longleftrightarrow> ev_event_type e \<in> BROKER_WORKING_EVENTS \<and> ev_authority e = Authority_BROKER_AUTHORITATIVE"

definition closes_claim :: "execution_event \<Rightarrow> bool" where
  "closes_claim e \<longleftrightarrow> closes_venue e \<or> opens_venue e \<or> ev_event_type e = Event_SUBMIT_RELEASED"

lemma record_claim_boundary_fields [simp]:
  "ci_claims (record_claim_boundary n q st) = ci_claims st" "ci_venue (record_claim_boundary n q st) = ci_venue st"
  "ci_latest (record_claim_boundary n q st) = ci_latest st" "ci_next (record_claim_boundary n q st) = ci_next st"
  "ci_known (record_claim_boundary n q st) = ci_known st"
  by (simp_all add: record_claim_boundary_def split: option.splits)

lemma lifecycle_types:
  "Event_SUBMIT_PENDING \<notin> BROKER_TERMINAL_EVENTS" "Event_SUBMIT_RELEASED \<notin> BROKER_TERMINAL_EVENTS"
  "Event_SUBMIT_PENDING \<notin> BROKER_WORKING_EVENTS" "Event_SUBMIT_RELEASED \<notin> BROKER_WORKING_EVENTS"
  by (simp_all add: BROKER_TERMINAL_EVENTS_def BROKER_WORKING_EVENTS_def)

lemma child_step_keeps:
  assumes "child_step env e st = Some st'"
  shows "\<not> closes_venue e \<Longrightarrow> ci_venue st \<subseteq> ci_venue st'" "\<not> closes_claim e \<Longrightarrow> ci_claims st \<subseteq> ci_claims st'"
  using assms
  by (auto simp: child_step_def Let_def closes_venue_def closes_claim_def opens_venue_def lifecycle_types split: if_splits option.splits)

lemma child_step_opens:
  assumes "child_step env e st = Some st'"
  shows "opens_venue e \<Longrightarrow> ci_venue st' \<noteq> {}" "ev_event_type e = Event_SUBMIT_PENDING \<Longrightarrow> ci_claims st' \<noteq> {}"
  using assms
  by (auto simp: child_step_def Let_def opens_venue_def BROKER_WORKING_EVENTS_def split: if_splits option.splits)

lemma child_fold_append: "child_fold env (xs @ ys) st = Option.bind (child_fold env xs st) (child_fold env ys)"
proof (induction xs arbitrary: st)
  case (Cons e xs)
  then show ?case by (cases "child_step env e st") simp_all
qed simp

lemma child_fold_keeps:
  "child_fold env es st = Some st' \<Longrightarrow> \<forall>e \<in> set es. \<not> closes_venue e \<Longrightarrow> ci_venue st \<subseteq> ci_venue st'"
  "child_fold env es st = Some st' \<Longrightarrow> \<forall>e \<in> set es. \<not> closes_claim e \<Longrightarrow> ci_claims st \<subseteq> ci_claims st'"
proof (induction es arbitrary: st)
  case (Cons e es)
  { case 1
    then obtain s where s: "child_step env e st = Some s" "child_fold env es s = Some st'" by (auto simp: bind_eq_Some_conv)
    with child_step_keeps(1) [OF s(1)] Cons.IH(1) [OF s(2)] 1 show ?case by auto
  next
    case 2
    then obtain s where s: "child_step env e st = Some s" "child_fold env es s = Some st'" by (auto simp: bind_eq_Some_conv)
    with child_step_keeps(2) [OF s(1)] Cons.IH(2) [OF s(2)] 2 show ?case by auto }
qed simp_all

lemma child_fold_closed:
  assumes "child_fold env (xs @ e # ys) st = Some st'"
  shows "opens_venue e \<Longrightarrow> ci_venue st' = {} \<Longrightarrow> \<exists>d \<in> set ys. closes_venue d"
    "ev_event_type e = Event_SUBMIT_PENDING \<Longrightarrow> ci_claims st' = {} \<Longrightarrow> \<exists>d \<in> set ys. closes_claim d"
proof -
  obtain s1 s2 where s: "child_step env e s1 = Some s2" "child_fold env ys s2 = Some st'"
    using assms by (auto simp: child_fold_append bind_eq_Some_conv)
  show "opens_venue e \<Longrightarrow> ci_venue st' = {} \<Longrightarrow> \<exists>d \<in> set ys. closes_venue d"
    using child_step_opens(1) [OF s(1)] child_fold_keeps(1) [OF s(2)] by blast
  show "ev_event_type e = Event_SUBMIT_PENDING \<Longrightarrow> ci_claims st' = {} \<Longrightarrow> \<exists>d \<in> set ys. closes_claim d"
    using child_step_opens(2) [OF s(1)] child_fold_keeps(2) [OF s(2)] by blast
qed

subsection \<open>A single child\<close>

lemma scan_single:
  assumes "ev_event_type e = Event_ENVELOPE_ACTION" "ev_order_id e = Some i" "ev_envelope_id e = Some (en_id env)"
    and "ev_payload e ''action'' = Some (PStr ''submit'')" "\<not> outside_envelope env e"
    and "en_status env \<notin> {Envelope_COMPLETED, Envelope_SUPERSEDED}" "en_supersedes_id env = None"
  shows "scan_actions [env] known orders [e] =
    \<lparr>as_linked = (en_timestamps env Envelope_APPROVED \<noteq> None \<or> en_status env \<in> ENVELOPE_DELEGATING_STATUSES), as_missing = [], as_missing_envelopes = [], as_invalid = [], as_order_ids = [i],
     as_scopes = [i \<mapsto> env], as_canonical = [i \<mapsto> e], as_requests = [], as_cancels = []\<rparr>"
  using assms
  by (simp add: scan_actions_def Let_def envelopes_by_id_def malformed_ids_def malformed_envelope_def
    NO_ACTIONS_def scan_action_def scan_child_def note_invalid_def mint_invalid_def minting_action_def check_requests_def
    check_cancels_def)

lemma lifecycle_fold_single:
  assumes "child_fold env es st = Some st'" "\<forall>e \<in> set es. ev_order_id e = Some i \<and> ev_event_type e \<in> ENVELOPE_CHILD_LIFECYCLE_EVENTS"
  shows "fold (lifecycle_step [i \<mapsto> env]) es ([i \<mapsto> st], invalid) = ([i \<mapsto> st'], invalid)"
  using assms
proof (induction es arbitrary: st)
  case (Cons e es)
  then obtain s where "child_step env e st = Some s" "child_fold env es s = Some st'" by (auto simp: bind_eq_Some_conv)
  moreover from this Cons.prems(2) have "lifecycle_step [i \<mapsto> env] e ([i \<mapsto> st], invalid) = ([i \<mapsto> s], invalid)"
    by (simp add: lifecycle_step_def)
  moreover have "\<forall>e \<in> set es. ev_order_id e = Some i \<and> ev_event_type e \<in> ENVELOPE_CHILD_LIFECYCLE_EVENTS" using Cons.prems(2) by simp
  ultimately show ?case by (simp only: fold_simps Cons.IH)
qed simp

lemma single_obligation:
  fixes known :: "string \<rightharpoonup> execution_envelope"
  assumes e: "ev_event_type e = Event_ENVELOPE_ACTION" "ev_order_id e = Some i" "ev_envelope_id e = Some (en_id env)"
    "ev_payload e ''action'' = Some (PStr ''submit'')" "\<not> outside_envelope env e"
    and env: "en_status env \<notin> {Envelope_COMPLETED, Envelope_SUPERSEDED}" "en_supersedes_id env = None"
    and row: "orders i = Some ord" "child_row_valid env e ord" "or_replaces_order_id ord = None"
    and fold: "child_fold env es NO_INTERVALS = Some child"
      "\<forall>e \<in> set es. ev_order_id e = Some i \<and> ev_event_type e \<in> ENVELOPE_CHILD_LIFECYCLE_EVENTS"
  defines "ob \<equiv> project_envelope_obligation [env] [e] orders es {} {} known"
    and "live \<equiv> ci_claims child \<noteq> {} \<or> ci_venue child \<noteq> {} \<or> \<not> order_terminal (or_status ord)"
  shows "ob_invalid ob = [] \<and> ob_missing_orders ob = [] \<and> ob_unresolved ob = (if live then [i] else []) \<and>
    ob_claimable ob = (if live \<and> or_status ord = Order_CREATED then [i] else []) \<and>
    ob_acknowledgeable ob = (if live \<and> or_status ord = Order_SUBMITTING \<and> card (ci_claims child) = 1 \<and> ci_venue child = {}
      then [i] else []) \<and>
    ob_uncertain_claims ob = (if ci_claims child \<noteq> {} then [i] else []) \<and>
    (ob_retains_intent ob \<longleftrightarrow> en_status env \<in> ENVELOPE_DELEGATING_STATUSES \<or> live)"
proof -
  have start: "(\<lambda>j. if j \<in> set [i] then Some NO_INTERVALS else None) = [i \<mapsto> NO_INTERVALS]" by auto
  have lineage: "replacement_lineage_is_valid [i \<mapsto> ord] [i \<mapsto> e] [i] i"
    by (subst replacement_lineage_is_valid.simps) (simp add: e(4))
  show ?thesis
    unfolding ob_def project_envelope_obligation_def scan_single [OF e env] Let_def action_scan.simps start
      lifecycle_fold_single [OF fold]
    using row lineage e(4)
    by (simp add: hold_requests_def row_step_def sort_children_def sort_child_def Let_def live_def claim_candidate_def
      acknowledge_candidate_def sole_child_def)
qed

end
