(* ===== verification/Sellside_Tape.thy ===== *)
theory Sellside_Tape
  imports Envelopes Fill_Append Float_Ops
begin

text \<open>
  What the sell side reads from the market: snapshots, the session clock, bars, indicators, the volume
  window and the regime (\<^verbatim>\<open>app/sellside/\<close>: \<^verbatim>\<open>session.py\<close>,
  \<^verbatim>\<open>bars.py\<close>, \<^verbatim>\<open>indicators.py\<close>, \<^verbatim>\<open>profiler.py\<close>,
  \<^verbatim>\<open>regime.py\<close>).

  An instant is its number of microseconds since the epoch, and so is a duration. The time-zone
  database is the argument \<open>zone\<close>, the offset of New York from UTC at an instant. The grid of the
  bars is computed on integers: a whole number of seconds divides an instant exactly, and the floats
  the code divides hold every microsecond of the next two centuries apart from the grid points.
\<close>

subsection \<open>Snapshots\<close>

record market_snapshot =
  mkt_symbol :: string
  mkt_last_price :: "float64 option"
  mkt_bid :: "float64 option"
  mkt_ask :: "float64 option"
  mkt_volume :: "float64 option"
  mkt_prev_close :: "float64 option"
  mkt_updated_at :: instant
  mkt_stale :: bool

definition float_positive :: "float64 \<Rightarrow> bool" where
  "float_positive x \<longleftrightarrow> float_less FLOAT_ZERO x"

definition finite_positive :: "float64 option \<Rightarrow> bool" where
  "finite_positive value = (case value of Some x \<Rightarrow> float_finite x \<and> float_positive x | None \<Rightarrow> False)"

definition finite_volume :: "float64 option \<Rightarrow> bool" where
  "finite_volume value = (case value of Some x \<Rightarrow> float_finite x \<and> float_le FLOAT_ZERO x | None \<Rightarrow> False)"

subsection \<open>The session clock\<close>

definition SECOND :: int where "SECOND = 1000000"
definition MINUTE :: int where "MINUTE = 60 * SECOND"
definition HOUR :: int where "HOUR = 60 * MINUTE"
definition DAY :: int where "DAY = 24 * HOUR"

record session_clock =
  sc_phase :: "session_type option"
  sc_time_to_phase_close :: "int option"

fun phase_start :: "session_type \<Rightarrow> int" where
  "phase_start PRE_MARKET = 4 * HOUR"
| "phase_start REGULAR = 9 * HOUR + 30 * MINUTE"
| "phase_start AFTER_HOURS = 16 * HOUR"

fun phase_end :: "session_type \<Rightarrow> int" where
  "phase_end PRE_MARKET = 9 * HOUR + 30 * MINUTE"
| "phase_end REGULAR = 16 * HOUR"
| "phase_end AFTER_HOURS = 20 * HOUR"

text \<open>The epoch was a Thursday; Monday is 0.\<close>

definition weekday :: "int \<Rightarrow> int" where
  "weekday local_dt = (local_dt div DAY + 3) mod 7"

definition session_context :: "(instant \<Rightarrow> int) \<Rightarrow> instant \<Rightarrow> session_clock" where
  "session_context zone now =
     (let local_dt = now + zone now;
          time_of_day = local_dt mod DAY
      in if weekday local_dt \<ge> 5 then \<lparr>sc_phase = None, sc_time_to_phase_close = None\<rparr>
         else case find (\<lambda>p. phase_start p \<le> time_of_day \<and> time_of_day < phase_end p) [PRE_MARKET, REGULAR, AFTER_HOURS] of
           None \<Rightarrow> \<lparr>sc_phase = None, sc_time_to_phase_close = None\<rparr>
         | Some p \<Rightarrow> \<lparr>sc_phase = Some p, sc_time_to_phase_close = Some (phase_end p - time_of_day)\<rparr>)"

subsection \<open>Bars\<close>

record bar =
  bar_start :: instant
  bar_end :: instant
  bar_open :: float64
  bar_high :: float64
  bar_low :: float64
  bar_close :: float64
  bar_volume :: float64

definition bar_of :: "int \<Rightarrow> int \<Rightarrow> float64 list \<Rightarrow> float64 \<Rightarrow> bar" where
  "bar_of interval index prices volume =
     \<lparr>bar_start = index * interval, bar_end = index * interval + interval, bar_open = hd prices,
      bar_high = floats_max prices, bar_low = floats_min prices, bar_close = last prices, bar_volume = volume\<rparr>"

text \<open>The rows of a bucket in time order; the volume is a difference of cumulative volumes.\<close>

definition bucket_rows :: "int \<Rightarrow> market_snapshot list \<Rightarrow> int \<Rightarrow> market_snapshot list" where
  "bucket_rows interval snapshots index =
     sort_key mkt_updated_at (filter (\<lambda>s. finite_positive (mkt_last_price s) \<and> mkt_updated_at s div interval = index) snapshots)"

definition bucket_volume :: "float64 option \<Rightarrow> float64 list \<Rightarrow> float64" where
  "bucket_volume prev_cum cums =
     (if cums = [] then FLOAT_ZERO
      else
        let intra = float_max FLOAT_ZERO (float_sub (last cums) (hd cums))
        in case prev_cum of
             None \<Rightarrow> intra
           | Some p \<Rightarrow> let delta = float_sub (last cums) p in if float_le FLOAT_ZERO delta then delta else intra)"

definition row_prices :: "market_snapshot list \<Rightarrow> float64 list" where
  "row_prices rows = List.map_filter mkt_last_price rows"

definition row_cums :: "market_snapshot list \<Rightarrow> float64 list" where
  "row_cums rows = List.map_filter (\<lambda>s. if finite_volume (mkt_volume s) then mkt_volume s else None) rows"

fun bars_from :: "int \<Rightarrow> market_snapshot list \<Rightarrow> float64 option \<Rightarrow> int list \<Rightarrow> bar list" where
  "bars_from interval snapshots prev_cum [] = []"
| "bars_from interval snapshots prev_cum (index # indices) =
     (let rows = bucket_rows interval snapshots index; cums = row_cums rows
      in bar_of interval index (row_prices rows) (bucket_volume prev_cum cums)
         # bars_from interval snapshots (if cums = [] then prev_cum else Some (last cums)) indices)"

definition bucket_indices :: "int \<Rightarrow> market_snapshot list \<Rightarrow> int list" where
  "bucket_indices interval snapshots =
     sort (remdups (map (\<lambda>s. mkt_updated_at s div interval) (filter (\<lambda>s. finite_positive (mkt_last_price s)) snapshots)))"

definition aggregate_bars :: "market_snapshot list \<Rightarrow> int \<Rightarrow> bar list res" where
  "aggregate_bars snapshots interval =
     require (interval > 0) ValueError (Ok (bars_from interval snapshots None (bucket_indices interval snapshots)))"

subsection \<open>Indicators\<close>

definition last_n :: "nat \<Rightarrow> 'a list \<Rightarrow> 'a list" where
  "last_n n xs = drop (length xs - n) xs"

definition true_range :: "bar \<times> bar \<Rightarrow> float64" where
  "true_range pair = (case pair of (prev, cur) \<Rightarrow>
     floats_max [float_sub (bar_high cur) (bar_low cur),
       float_abs (float_sub (bar_high cur) (bar_close prev)),
       float_abs (float_sub (bar_low cur) (bar_close prev))])"

definition atr :: "bar list \<Rightarrow> nat \<Rightarrow> float64 option" where
  "atr bars period =
     (if period = 0 \<or> length bars < 2 then None
      else
        let trs = float_sub (bar_high (hd bars)) (bar_low (hd bars)) # map true_range (zip bars (tl bars))
        in if length trs < period then None
           else Some (unguarded (float_over_int (float_sum (last_n period trs)) (int period))))"

text \<open>Fold state of the anchored average: the last cumulative volume, price times volume, volume.\<close>

definition vwap_step :: "market_snapshot \<Rightarrow> float64 option \<times> float64 \<times> float64 \<Rightarrow> float64 option \<times> float64 \<times> float64" where
  "vwap_step snap st =
     (case (mkt_last_price snap, mkt_volume snap, st) of
        (Some price, Some cum, (prev_cum, sum_pv, sum_v)) \<Rightarrow>
          if \<not> finite_volume (Some cum) \<or> \<not> finite_positive (Some price) then st
          else
            (case prev_cum of
               Some p \<Rightarrow>
                 (let delta = float_sub cum p
                  in if float_positive delta
                     then (Some cum, float_add sum_pv (float_mul price delta), float_add sum_v delta)
                     else (Some cum, sum_pv, sum_v))
             | None \<Rightarrow> (Some cum, sum_pv, sum_v))
      | _ \<Rightarrow> st)"

definition anchored_vwap :: "market_snapshot list \<Rightarrow> float64 option" where
  "anchored_vwap snapshots =
     (case fold vwap_step snapshots (None, FLOAT_ZERO, FLOAT_ZERO) of
        (_, sum_pv, sum_v) \<Rightarrow> if float_positive sum_v then Some (unguarded (float_div sum_pv sum_v)) else None)"

text \<open>The smoothed average, and the volume of the last bars relative to a longer window.\<close>

definition ema :: "float64 list \<Rightarrow> int \<Rightarrow> float64 option res" where
  "ema values period =
     (if values = [] \<or> period \<le> 0 then Ok None
      else bind_res (int_to_float period) (\<lambda>p.
             let alpha = unguarded (float_div 0x4000000000000000 (float_add p FLOAT_ONE))
             in Ok (Some (foldl (\<lambda>out v. float_add (float_mul alpha v) (float_mul (float_sub FLOAT_ONE alpha) out))
                  (hd values) (tl values)))))"

definition rvol :: "bar list \<Rightarrow> int \<Rightarrow> int \<Rightarrow> float64 option res" where
  "rvol bars short_bars long_bars =
     (if short_bars \<le> 0 \<or> long_bars \<le> short_bars \<or> int (length bars) < long_bars then Ok None
      else bind_res (float_over_int (float_sum (map bar_volume (last_n (nat long_bars) bars))) long_bars) (\<lambda>base.
             if float_le base FLOAT_ZERO then Ok None
             else bind_res (float_over_int (float_sum (map bar_volume (last_n (nat short_bars) bars))) short_bars) (\<lambda>short.
               bind_res (float_div short base) (\<lambda>ratio. Ok (Some ratio)))))"

definition bar_returns :: "float64 list \<Rightarrow> float64 list" where
  "bar_returns closes =
     map (\<lambda>(a, b). float_sub (unguarded (float_div b a)) FLOAT_ONE)
       (filter (\<lambda>(a, b). float_positive a) (zip closes (tl closes)))"

definition fade_flag :: "bar list \<Rightarrow> nat \<Rightarrow> float64 \<Rightarrow> bool res" where
  "fade_flag bars window quantile =
     (let closes = map bar_close bars; returns = bar_returns closes
      in if length closes < window + 2 \<or> length returns < window + 1 then Ok False
         else
           let last_return = last returns;
               dist = sort_key float_key (butlast (last_n (window + 1) returns))
           in if float_le FLOAT_ZERO last_return then Ok False
              else bind_res (bind_res (int_to_float (int (length dist) - 1)) (\<lambda>n. float_trunc (float_mul quantile n))) (\<lambda>idx.
                if \<not> float_less last_return (dist ! nat idx) then Ok False
                else
                  let magnitudes = sort_key float_key (map float_abs dist)
                  in Ok (float_less (magnitudes ! (length magnitudes div 2)) (float_abs last_return))))"

subsection \<open>The volume window\<close>

record volume_window =
  vw_horizon :: int
  vw_observations :: "(instant \<times> float64) list"

definition observe :: "volume_window \<Rightarrow> instant \<Rightarrow> float64 option \<Rightarrow> volume_window" where
  "observe window seen_at cumulative_volume =
     (case cumulative_volume of
        None \<Rightarrow> window
      | Some v \<Rightarrow>
          if \<not> float_finite v \<or> float_less v FLOAT_ZERO then window
          else window\<lparr>vw_observations := filter (\<lambda>(t, _). seen_at - vw_horizon window \<le> t) (vw_observations window) @ [(seen_at, v)]\<rparr>)"

definition recent_volume :: "volume_window \<Rightarrow> float64" where
  "recent_volume window =
     (let volumes = map snd (vw_observations window)
      in foldl (\<lambda>acc (a, b). let delta = float_sub b a in if float_positive delta then float_add acc delta else acc)
           FLOAT_ZERO (zip volumes (tl volumes)))"

definition participation_size :: "float64 \<Rightarrow> float64 \<Rightarrow> int \<Rightarrow> int res" where
  "participation_size recent cap remaining =
     (if float_le recent FLOAT_ZERO \<or> float_le cap FLOAT_ZERO \<or> remaining \<le> 0 then Ok 0
      else bind_res (float_trunc (float_mul cap recent)) (\<lambda>n. Ok (min remaining n)))"

subsection \<open>The regime\<close>

datatype regime = FAST_SPIKE | STEADY_SURGE | MATURE_TREND | STALL_FADE | UNCERTAIN

definition MIN_CLASSIFY_BARS :: nat where "MIN_CLASSIFY_BARS = 16"
definition TREND_BARS :: nat where "TREND_BARS = 8"
definition FADE_WINDOW :: nat where "FADE_WINDOW = 16"
definition FADE_QUANTILE :: float64 where "FADE_QUANTILE = 0x3FB999999999999A"
definition FLOAT_HALF :: float64 where "FLOAT_HALF = 0x3FE0000000000000"
definition FLOAT_TWO :: float64 where "FLOAT_TWO = 0x4000000000000000"
definition FLOAT_1_5 :: float64 where "FLOAT_1_5 = 0x3FF8000000000000"
definition STRONG_UP_FRAC :: float64 where "STRONG_UP_FRAC = 0x3FE3333333333333"
definition FADE_NET_ATR :: float64 where "FADE_NET_ATR = 0xBFF0000000000000"

definition count_bars :: "(bar \<Rightarrow> bool) \<Rightarrow> bar list \<Rightarrow> int" where
  "count_bars test bars = int (length (filter test bars))"

definition classify :: "bar list \<Rightarrow> float64 option \<Rightarrow> float64 option \<Rightarrow> regime res" where
  "classify bars atr_now atr_baseline =
     (case (atr_now, atr_baseline) of
        (Some now, Some baseline) \<Rightarrow>
          if length bars < MIN_CLASSIFY_BARS \<or> float_le now FLOAT_ZERO \<or> float_le baseline FLOAT_ZERO then Ok UNCERTAIN
          else
            let window = last_n TREND_BARS bars;
                net = float_sub (bar_close (last window)) (bar_open (hd window))
            in bind_res (float_div net now) (\<lambda>net_atr.
               let ups = count_bars (\<lambda>b. float_less (bar_open b) (bar_close b)) window;
                   downs = count_bars (\<lambda>b. float_less (bar_close b) (bar_open b)) window
               in bind_res (int_truediv ups (max 1 (ups + downs))) (\<lambda>up_frac.
                  bind_res (float_div now baseline) (\<lambda>atr_ratio.
                  bind_res (fade_flag bars FADE_WINDOW FADE_QUANTILE) (\<lambda>faded.
                  Ok (if faded \<or> float_le net_atr FADE_NET_ATR then STALL_FADE
                      else if float_le FLOAT_TWO atr_ratio \<and> float_le FLOAT_TWO net_atr \<and> float_le STRONG_UP_FRAC up_frac
                      then FAST_SPIKE
                      else if float_le FLOAT_ONE net_atr \<and> float_le STRONG_UP_FRAC up_frac then STEADY_SURGE
                      else if float_less FLOAT_ZERO net_atr \<and> float_le FLOAT_HALF up_frac \<and> float_le atr_ratio FLOAT_1_5
                      then MATURE_TREND
                      else UNCERTAIN)))))
      | _ \<Rightarrow> Ok UNCERTAIN)"

end
