(* ===== verification/Sellside_Trail.thy ===== *)
theory Sellside_Trail
  imports Sellside_Tape
begin

text \<open>
  The trailing stop of the sell side (\<^verbatim>\<open>app/sellside/trails.py\<close>): the candidate of one bar
  prefix and the ratchet over all prefixes. Trail distances are multiples of the average true range,
  between the two bounds of the envelope.
\<close>

subsection \<open>One step\<close>

record clamp_note =
  cn_field :: string
  cn_computed :: float64
  cn_clamped_to :: float64

record trail_step =
  ts_candidate :: "float64 option"
  ts_ref_high :: "float64 option"
  ts_trail_atr :: "float64 option"
  ts_regime :: regime
  ts_tightened :: bool
  ts_clamps :: "clamp_note list"

definition NO_STEP :: trail_step where
  "NO_STEP = \<lparr>ts_candidate = None, ts_ref_high = None, ts_trail_atr = None, ts_regime = UNCERTAIN,
     ts_tightened = False, ts_clamps = []\<rparr>"

definition TRAIL_ATR_PERIOD :: nat where "TRAIL_ATR_PERIOD = 14"
definition CLASSIFY_ATR_SHORT :: nat where "CLASSIFY_ATR_SHORT = 8"
definition CLASSIFY_ATR_BASELINE :: nat where "CLASSIFY_ATR_BASELINE = 14"
definition VOLUME_EXPAND_RATIO :: float64 where "VOLUME_EXPAND_RATIO = FLOAT_1_5"
definition VOLUME_LOOKBACK :: nat where "VOLUME_LOOKBACK = 4"
definition FLOAT_2_5 :: float64 where "FLOAT_2_5 = 0x4004000000000000"

fun REGIME_MULTIPLE :: "regime \<Rightarrow> float64" where
  "REGIME_MULTIPLE STEADY_SURGE = FLOAT_2_5"
| "REGIME_MULTIPLE MATURE_TREND = FLOAT_TWO"
| "REGIME_MULTIPLE STALL_FADE = FLOAT_TWO"
| "REGIME_MULTIPLE FAST_SPIKE = FLOAT_NAN"
| "REGIME_MULTIPLE UNCERTAIN = FLOAT_NAN"

text \<open>
  The table has no entry for \<^verbatim>\<open>FAST_SPIKE\<close> and \<^verbatim>\<open>UNCERTAIN\<close>, which are decided
  before it is read.
\<close>

definition pullback_tightened :: "bar list \<Rightarrow> bool res" where
  "pullback_tightened prefix =
     (let pulling_back = (length prefix \<ge> 2 \<and> float_less (bar_close (last prefix)) (bar_close (prefix ! (length prefix - 2))));
          lookback = map bar_volume (butlast (last_n (VOLUME_LOOKBACK + 1) prefix));
          base_vol = (if lookback = [] then FLOAT_ZERO
                      else unguarded (float_over_int (float_sum lookback) (int (length lookback))));
          expanding = (float_positive base_vol \<and> float_le (float_mul VOLUME_EXPAND_RATIO base_vol) (bar_volume (last prefix)))
      in bind_res (fade_flag prefix FADE_WINDOW FADE_QUANTILE) (\<lambda>faded. Ok (pulling_back \<and> (expanding \<or> faded))))"

definition adverse_run :: "bar list \<Rightarrow> nat" where
  "adverse_run prefix = length (takeWhile (\<lambda>b. float_less (bar_close b) (bar_open b)) (rev prefix))"

definition below_bar_vwap :: "bar list \<Rightarrow> bool" where
  "below_bar_vwap prefix =
     (let vol_total = float_sum (map bar_volume prefix)
      in float_positive vol_total \<and>
         float_less (bar_close (last prefix))
           (unguarded (float_div (float_sum (map (\<lambda>b. float_mul (bar_close b) (bar_volume b)) prefix)) vol_total)))"

definition trail_multiple :: "execution_envelope \<Rightarrow> bar list \<Rightarrow> regime \<Rightarrow> float64" where
  "trail_multiple env prefix r =
     (if r = UNCERTAIN then en_trail_distance_max env
      else
        let multiple = (if r = STALL_FADE then float_mul (REGIME_MULTIPLE r) (half_power (adverse_run prefix))
                        else REGIME_MULTIPLE r)
        in if r \<in> {STEADY_SURGE, MATURE_TREND} \<and> below_bar_vwap prefix then en_trail_distance_min env else multiple)"

text \<open>The distance below the high, with a note where a bound of the envelope changed it.\<close>

definition trail_distance :: "execution_envelope \<Rightarrow> bar list \<Rightarrow> float64 \<Rightarrow> float64 \<Rightarrow> float64 \<Rightarrow> regime \<Rightarrow> bool \<Rightarrow>
  float64 \<times> clamp_note list" where
  "trail_distance env prefix urgency trail_atr ref_high r tightened =
     (let min_mult = en_trail_distance_min env; max_mult = en_trail_distance_max env
      in if tightened then (float_mul min_mult trail_atr, [])
         else if r = FAST_SPIKE then
           let one_bar = float_sub ref_high (bar_low (prefix ! (length prefix - 2)));
               distance = float_min (float_max one_bar (float_mul min_mult trail_atr)) (float_mul max_mult trail_atr)
           in (distance, if float_eq distance one_bar then []
                         else [\<lparr>cn_field = ''trail_distance'', cn_computed = one_bar, cn_clamped_to = distance\<rparr>])
         else
           let multiple = trail_multiple env prefix r;
               effective = float_sub multiple (float_mul urgency (float_sub multiple min_mult));
               bounded = float_min (float_max effective min_mult) max_mult
           in (float_mul bounded trail_atr, if float_eq bounded effective then []
                         else [\<lparr>cn_field = ''trail_multiple'', cn_computed = effective, cn_clamped_to = bounded\<rparr>]))"

definition step_candidate :: "execution_envelope \<Rightarrow> bar list \<Rightarrow> float64 \<Rightarrow> trail_step res" where
  "step_candidate env prefix urgency =
     (if length prefix < MIN_CLASSIFY_BARS then Ok NO_STEP
      else case atr prefix TRAIL_ATR_PERIOD of
        None \<Rightarrow> Ok NO_STEP
      | Some trail_atr \<Rightarrow>
          if float_le trail_atr FLOAT_ZERO then Ok NO_STEP
          else
            bind_res (classify prefix (atr (last_n CLASSIFY_ATR_SHORT prefix) CLASSIFY_ATR_SHORT)
                        (atr (take (length prefix - CLASSIFY_ATR_SHORT) prefix) CLASSIFY_ATR_BASELINE)) (\<lambda>r.
            let ref_high = floats_max (map bar_high prefix)
            in bind_res (pullback_tightened prefix) (\<lambda>tightened.
               case trail_distance env prefix urgency trail_atr ref_high r tightened of (distance, clamps) \<Rightarrow>
                 Ok \<lparr>ts_candidate = Some (float_sub ref_high distance), ts_ref_high = Some ref_high,
                     ts_trail_atr = Some trail_atr, ts_regime = r, ts_tightened = tightened, ts_clamps = clamps\<rparr>)))"

subsection \<open>The ratchet\<close>

record working_stop_result =
  ws_stop :: "float64 option"
  ws_candidate :: "float64 option"
  ws_ref_high :: "float64 option"
  ws_regime :: regime
  ws_atr :: "float64 option"
  ws_tightened :: bool
  ws_clamps :: "clamp_note list"

definition ratchet :: "float64 option \<Rightarrow> float64 option \<Rightarrow> float64 option" where
  "ratchet stop candidate =
     (case candidate of
        None \<Rightarrow> stop
      | Some c \<Rightarrow> (case stop of None \<Rightarrow> Some c | Some s \<Rightarrow> Some (float_max s c)))"

definition ratchet_step ::
  "execution_envelope \<Rightarrow> bar list \<Rightarrow> float64 \<Rightarrow> (instant \<Rightarrow> float64) option \<Rightarrow> nat \<Rightarrow> float64 option \<Rightarrow> float64 option res" where
  "ratchet_step env bars urgency urgency_at step stop =
     (let step_urgency = (case urgency_at of Some f \<Rightarrow> f (bar_end (bars ! (step - 1))) | None \<Rightarrow> urgency)
      in bind_res (step_candidate env (take step bars) step_urgency) (\<lambda>c. Ok (ratchet stop (ts_candidate c))))"

definition compute_working_stop ::
  "execution_envelope \<Rightarrow> bar list \<Rightarrow> float64 \<Rightarrow> (instant \<Rightarrow> float64) option \<Rightarrow> bool \<Rightarrow> working_stop_result res" where
  "compute_working_stop env bars urgency urgency_at last_bar_open =
     (let ratchet_end = (if last_bar_open then length bars - 1 else length bars)
      in bind_res (fold_res (ratchet_step env bars urgency urgency_at) [MIN_CLASSIFY_BARS ..< Suc ratchet_end] None) (\<lambda>stop.
         bind_res (if length bars \<ge> MIN_CLASSIFY_BARS then step_candidate env bars urgency else Ok NO_STEP) (\<lambda>c.
           Ok \<lparr>ws_stop = stop, ws_candidate = ts_candidate c, ws_ref_high = ts_ref_high c, ws_regime = ts_regime c,
               ws_atr = ts_trail_atr c, ws_tightened = ts_tightened c, ws_clamps = ts_clamps c\<rparr>)))"

end
