(* ===== verification/Sellside_Policy.thy ===== *)
theory Sellside_Policy
  imports Sellside_Trail
begin

text \<open>
  The decision of one tick (\<^verbatim>\<open>app/sellside/policy.py\<close>) and the hard-rail check that planning
  and writing share. The free-text details of a decision are left out. The ingest time of an event,
  which the event record leaves out, is the argument \<open>ts_init\<close>.
\<close>

subsection \<open>Decisions\<close>

datatype action_kind = ACTION_SUBMIT | ACTION_REPRICE

fun action_kind_value :: "action_kind \<Rightarrow> string" where
  "action_kind_value ACTION_SUBMIT = ''submit''"
| "action_kind_value ACTION_REPRICE = ''reprice''"

datatype no_action_reason =
    NOT_ACTIVE | OUT_OF_PHASE | NOTHING_TO_DO | INSUFFICIENT_DATA | COOLDOWN_WAIT | NO_LIQUIDITY | MONITORING

record planned_action =
  pa_kind :: action_kind
  pa_limit_price :: float64
  pa_quantity :: int
  pa_regime :: "regime option"
  pa_urgency :: float64
  pa_working_stop :: "float64 option"
  pa_atr :: "float64 option"
  pa_tranche :: bool
  pa_stop_triggered :: bool
  pa_clamps :: "clamp_note list"

record no_action =
  na_reason :: no_action_reason
  na_wait_until :: "instant option"
  na_working_stop :: "float64 option"
  na_regime :: "regime option"

datatype decision =
    Planned planned_action
  | NoAction no_action
  | BreachSignal string
  | ExhaustedSignal
  | ExpiredSignal expiry_disposition
  | StaleDataSignal stale_data_disposition "string list"

definition idle :: "no_action_reason \<Rightarrow> decision" where
  "idle reason = NoAction \<lparr>na_reason = reason, na_wait_until = None, na_working_stop = None, na_regime = None\<rparr>"

definition observing :: "no_action_reason \<Rightarrow> instant option \<Rightarrow> working_stop_result \<Rightarrow> decision" where
  "observing reason wait_until ws =
     NoAction \<lparr>na_reason = reason, na_wait_until = wait_until, na_working_stop = ws_stop ws, na_regime = Some (ws_regime ws)\<rparr>"

subsection \<open>What the envelope did before\<close>

definition py_truthy :: "pyval option \<Rightarrow> bool" where
  "py_truthy v =
     (case v of
        Some (PBool b) \<Rightarrow> b
      | Some (PInt n) \<Rightarrow> n \<noteq> 0
      | Some (PFloat x) \<Rightarrow> \<not> float_zero x
      | Some (PStr s) \<Rightarrow> s \<noteq> []
      | Some (PList l) \<Rightarrow> l \<noteq> []
      | Some (PDict d) \<Rightarrow> d \<noteq> []
      | _ \<Rightarrow> False)"

definition event_time :: "(execution_event \<Rightarrow> instant) \<Rightarrow> execution_event \<Rightarrow> instant" where
  "event_time ts_init e = (case ev_ts_event e of Some t \<Rightarrow> t | None \<Rightarrow> ts_init e)"

definition budget_action :: "execution_event \<Rightarrow> bool" where
  "budget_action e \<longleftrightarrow> ev_payload e ''action'' = Some (PStr ''reprice'')"

definition working_action :: "execution_event \<Rightarrow> bool" where
  "working_action e \<longleftrightarrow> ev_payload e ''action'' \<in> {Some (PStr ''submit''), Some (PStr ''reprice'')}"

definition own_actions :: "(execution_event \<Rightarrow> instant) \<Rightarrow> execution_envelope \<Rightarrow> execution_event list \<Rightarrow> execution_event list" where
  "own_actions ts_init env history =
     sort_key (event_time ts_init)
       (filter (\<lambda>e. ev_envelope_id e = Some (en_id env) \<and> ev_event_type e = Event_ENVELOPE_ACTION) history)"

definition project_envelope_replaces_used :: "execution_event list \<Rightarrow> (string \<rightharpoonup> int)" where
  "project_envelope_replaces_used history =
     fold (\<lambda>e projected.
        case ev_envelope_id e of
          Some i \<Rightarrow> if ev_event_type e = Event_ENVELOPE_ACTION \<and> budget_action e
                    then projected(i \<mapsto> (case projected i of Some n \<Rightarrow> n | None \<Rightarrow> 0) + 1) else projected
        | None \<Rightarrow> projected) history Map.empty"

definition replaces_used :: "execution_envelope \<Rightarrow> execution_event list \<Rightarrow> int" where
  "replaces_used env history = (case project_envelope_replaces_used history (en_id env) of Some n \<Rightarrow> n | None \<Rightarrow> 0)"

definition last_action_at :: "(execution_event \<Rightarrow> instant) \<Rightarrow> execution_event list \<Rightarrow> instant option" where
  "last_action_at ts_init actions =
     (let working = filter working_action actions
      in if working = [] then None else Some (event_time ts_init (last working)))"

definition terminal_order_event :: "execution_event \<Rightarrow> bool" where
  "terminal_order_event e \<longleftrightarrow> ev_event_type e \<in> {Event_FILLED, Event_CANCELED, Event_REJECTED}"

definition live_working_order_id :: "execution_event list \<Rightarrow> execution_event list \<Rightarrow> string option" where
  "live_working_order_id actions history =
     (let working = filter (\<lambda>e. working_action e \<and> ev_order_id e \<noteq> None) actions;
          terminal_ids = List.map_filter ev_order_id (filter terminal_order_event history)
      in Option.bind (find (\<lambda>e. the (ev_order_id e) \<notin> set terminal_ids) (rev working)) ev_order_id)"

definition rejected_probe_count :: "execution_event list \<Rightarrow> execution_event list \<Rightarrow> nat" where
  "rejected_probe_count actions history =
     (let rejected_ids = List.map_filter ev_order_id (filter (\<lambda>e. ev_event_type e = Event_REJECTED) history)
      in length (filter (\<lambda>e. ev_payload e ''action'' = Some (PStr ''submit'') \<and> py_truthy (ev_payload e ''stop_triggered'') \<and>
           (\<exists>i \<in> set_option (ev_order_id e). i \<in> set rejected_ids)) actions))"

definition tranche_taken :: "execution_event list \<Rightarrow> bool" where
  "tranche_taken actions \<longleftrightarrow> (\<exists>e \<in> set actions. working_action e \<and> py_truthy (ev_payload e ''tranche''))"

subsection \<open>The hard rails\<close>

definition remaining_of :: "execution_envelope \<Rightarrow> int" where
  "remaining_of env = (case en_remaining_quantity env of Some r \<Rightarrow> r | None \<Rightarrow> 0)"

definition phase_allowed :: "(instant \<Rightarrow> int) \<Rightarrow> execution_envelope \<Rightarrow> instant \<Rightarrow> bool" where
  "phase_allowed zone env now \<longleftrightarrow>
     (case sc_phase (session_context zone now) of None \<Rightarrow> False | Some p \<Rightarrow> p \<in> set (en_allowed_session_phases env))"

definition cooldown :: "execution_envelope \<Rightarrow> int" where
  "cooldown env = en_cooldown_floor_ms env * 1000"

definition validate_action ::
  "(instant \<Rightarrow> int) \<Rightarrow> (execution_event \<Rightarrow> instant) \<Rightarrow> execution_envelope \<Rightarrow> planned_action \<Rightarrow> execution_event list \<Rightarrow> instant \<Rightarrow>
   string option" where
  "validate_action zone ts_init env action history now =
     (if now \<ge> dl_at (en_expires_at env) then Some ''ttl''
      else if \<not> phase_allowed zone env now then Some ''session_phase''
      else if float_less (pa_limit_price action) (en_floor_price env) then Some ''floor_price''
      else if pa_quantity action \<le> 0 \<or> pa_quantity action > remaining_of env then Some ''qty_ceiling''
      else if (case last_action_at ts_init (own_actions ts_init env history) of
                 Some last_at \<Rightarrow> now - last_at < cooldown env | None \<Rightarrow> False)
      then Some ''cooldown_floor''
      else if pa_kind action = ACTION_REPRICE \<and> replaces_used env history \<ge> en_cancel_replace_budget env
      then Some ''cancel_replace_budget''
      else None)"

subsection \<open>The tape of a tick\<close>

definition BAR_INTERVAL :: int where "BAR_INTERVAL = 30 * SECOND"
definition PARTICIPATION_HORIZON :: int where "PARTICIPATION_HORIZON = 5 * MINUTE"
definition URGENCY_RAMP :: int where "URGENCY_RAMP = 30 * MINUTE"
definition MAX_STEP_DEVIATION :: float64 where "MAX_STEP_DEVIATION = 0x3FD0000000000000"
definition TRANCHE_EXTENSION_MULT :: float64 where "TRANCHE_EXTENSION_MULT = FLOAT_1_5"
definition TRANCHE_FRACTION :: float64 where "TRANCHE_FRACTION = FLOAT_HALF"

definition snapshot_invalid_reasons :: "market_snapshot option \<Rightarrow> string list" where
  "snapshot_invalid_reasons snap =
     (case snap of
        None \<Rightarrow> [''no_snapshot'']
      | Some s \<Rightarrow>
          (if mkt_stale s then [''stale''] else []) @
          (if finite_positive (mkt_last_price s) then [] else [''last_price_invalid'']) @
          (if finite_positive (mkt_bid s) then [] else [''bid_invalid'']) @
          (if finite_positive (mkt_ask s) then [] else [''ask_invalid'']) @
          (if finite_volume (mkt_volume s) then [] else [''volume_invalid'']) @
          (case (mkt_bid s, mkt_ask s) of
             (Some b, Some a) \<Rightarrow> if float_finite b \<and> float_finite a \<and> float_le a b then [''crossed_quote''] else []
           | _ \<Rightarrow> []))"

definition urgency_at :: "(instant \<Rightarrow> int) \<Rightarrow> execution_envelope \<Rightarrow> instant \<Rightarrow> float64" where
  "urgency_at zone env t =
     (let left = dl_at (en_expires_at env) - t;
          ttc = (case sc_time_to_phase_close (session_context zone t) of
                   None \<Rightarrow> left | Some c \<Rightarrow> if left < c then left else c)
      in float_sub FLOAT_ONE
           (float_min (float_max (unguarded (int_truediv ttc URGENCY_RAMP)) FLOAT_ZERO) FLOAT_ONE))"

definition active_window :: "execution_envelope \<Rightarrow> market_snapshot list \<Rightarrow> market_snapshot list" where
  "active_window env snapshots =
     filter (\<lambda>s. case en_timestamps env Envelope_ACTIVE of Some t \<Rightarrow> mkt_updated_at s \<ge> t | None \<Rightarrow> True) snapshots"

definition suspect_step :: "market_snapshot \<Rightarrow> market_snapshot \<Rightarrow> bool" where
  "suspect_step prev cur =
     (case (mkt_last_price prev, mkt_last_price cur) of
        (Some p, Some c) \<Rightarrow>
          float_finite p \<and> float_finite c \<and> float_positive p \<and>
          float_less MAX_STEP_DEVIATION (float_abs (float_sub (unguarded (float_div c p)) FLOAT_ONE))
      | _ \<Rightarrow> False)"

text \<open>The rows of a window with the mark whether the step to them is suspect.\<close>

definition marked :: "market_snapshot list \<Rightarrow> (bool \<times> market_snapshot) list" where
  "marked window = zip (map (\<lambda>i. i > 0 \<and> suspect_step (window ! (i - 1)) (window ! i)) [0 ..< length window]) window"

definition screened_tape :: "execution_envelope \<Rightarrow> market_snapshot list \<Rightarrow> market_snapshot list" where
  "screened_tape env snapshots =
     map snd (filter (\<lambda>(suspect, s). \<not> suspect \<and> snapshot_invalid_reasons (Some s) = []) (marked (active_window env snapshots)))"

definition tape_working_stop ::
  "(instant \<Rightarrow> int) \<Rightarrow> execution_envelope \<Rightarrow> bar list \<Rightarrow> instant \<Rightarrow> working_stop_result res" where
  "tape_working_stop zone env bars now =
     compute_working_stop env bars (urgency_at zone env now) (Some (urgency_at zone env))
       (bars \<noteq> [] \<and> bar_end (last bars) > now)"

definition absorbable_size :: "execution_envelope \<Rightarrow> market_snapshot list \<Rightarrow> int res" where
  "absorbable_size env tape =
     participation_size
       (recent_volume (foldl (\<lambda>w s. observe w (mkt_updated_at s) (mkt_volume s))
          \<lparr>vw_horizon = PARTICIPATION_HORIZON, vw_observations = []\<rparr> tape))
       (en_participation_rate_cap env) (remaining_of env)"

subsection \<open>Triggers\<close>

definition stop_exit ::
  "execution_envelope \<Rightarrow> execution_event list \<Rightarrow> execution_event list \<Rightarrow> float64 \<Rightarrow> float64 \<Rightarrow> working_stop_result \<Rightarrow> int \<Rightarrow>
   planned_action res" where
  "stop_exit env actions history bid urgency ws absorbable =
     (let remaining = remaining_of env;
          probe_floor = min remaining (2 ^ rejected_probe_count actions history);
          quantity = min remaining (max probe_floor absorbable)
      in bind_res (if quantity > absorbable
                   then bind_res (int_to_float absorbable) (\<lambda>a. bind_res (int_to_float quantity) (\<lambda>q.
                          Ok [\<lparr>cn_field = ''participation'', cn_computed = a, cn_clamped_to = q\<rparr>]))
                   else Ok []) (\<lambda>note.
         Ok \<lparr>pa_kind = ACTION_SUBMIT, pa_limit_price = bid, pa_quantity = quantity, pa_regime = Some (ws_regime ws),
             pa_urgency = urgency, pa_working_stop = ws_stop ws, pa_atr = ws_atr ws, pa_tranche = False,
             pa_stop_triggered = True, pa_clamps = ws_clamps ws @ note\<rparr>))"

definition tranche_exit :: "float64 \<Rightarrow> float64 \<Rightarrow> working_stop_result \<Rightarrow> int \<Rightarrow> planned_action" where
  "tranche_exit bid urgency ws shares =
     \<lparr>pa_kind = ACTION_SUBMIT, pa_limit_price = bid, pa_quantity = shares, pa_regime = Some (ws_regime ws),
      pa_urgency = urgency, pa_working_stop = ws_stop ws, pa_atr = ws_atr ws, pa_tranche = True,
      pa_stop_triggered = False, pa_clamps = ws_clamps ws\<rparr>"

definition tranche_size :: "execution_envelope \<Rightarrow> int \<Rightarrow> int res" where
  "tranche_size env absorbable =
     bind_res (bind_res (int_times_float (remaining_of env) TRANCHE_FRACTION) float_ceil) (\<lambda>half. Ok (min absorbable (max 1 half)))"

text \<open>The action a tick asks for: an early answer, or an action, or none.\<close>

definition desired_action ::
  "execution_envelope \<Rightarrow> execution_event list \<Rightarrow> execution_event list \<Rightarrow> market_snapshot list \<Rightarrow> float64 \<Rightarrow> float64 \<Rightarrow> float64 \<Rightarrow>
   working_stop_result \<Rightarrow> int \<Rightarrow> (decision + planned_action option) res" where
  "desired_action env actions history tape last_price bid urgency ws absorbable =
     (if \<exists>stop \<in> set_option (ws_stop ws). float_le last_price stop
      then bind_res (stop_exit env actions history bid urgency ws absorbable) (\<lambda>a. Ok (Inr (Some a)))
      else if \<not> tranche_taken actions \<and> ws_regime ws \<in> {FAST_SPIKE, STEADY_SURGE}
      then (case (anchored_vwap tape, ws_atr ws) of
              (Some vwap, Some a) \<Rightarrow>
                if float_le (float_mul TRANCHE_EXTENSION_MULT a) (float_sub last_price vwap)
                then bind_res (tranche_size env absorbable) (\<lambda>shares.
                       Ok (if shares < 1 then Inl (observing NO_LIQUIDITY None ws)
                           else Inr (Some (tranche_exit bid urgency ws shares))))
                else Ok (Inr None)
            | _ \<Rightarrow> Ok (Inr None))
      else Ok (Inr None))"

subsection \<open>The decision\<close>

text \<open>The gates from the history, and the check at planning time.\<close>

definition gate_action ::
  "(instant \<Rightarrow> int) \<Rightarrow> (execution_event \<Rightarrow> instant) \<Rightarrow> execution_envelope \<Rightarrow> execution_event list \<Rightarrow> instant \<Rightarrow> working_stop_result \<Rightarrow>
   planned_action \<Rightarrow> decision" where
  "gate_action zone ts_init env history now ws desired =
     (let actions = own_actions ts_init env history;
          last_at = last_action_at ts_init actions
      in if (case last_at of Some t \<Rightarrow> now - t < cooldown env | None \<Rightarrow> False)
         then observing COOLDOWN_WAIT (Some (the last_at + cooldown env)) ws
         else
           let desired = (if live_working_order_id actions history \<noteq> None then desired\<lparr>pa_kind := ACTION_REPRICE\<rparr> else desired)
           in if pa_kind desired = ACTION_REPRICE \<and> replaces_used env history \<ge> en_cancel_replace_budget env
              then ExhaustedSignal
              else case validate_action zone ts_init env desired history now of
                     Some rail \<Rightarrow> BreachSignal rail
                   | None \<Rightarrow> Planned desired)"

text \<open>The part after the gates: structure of the tape, sizing, trigger, rate and budget.\<close>

definition decide_on_tape ::
  "(instant \<Rightarrow> int) \<Rightarrow> (execution_event \<Rightarrow> instant) \<Rightarrow> execution_envelope \<Rightarrow> market_snapshot list \<Rightarrow> instant \<Rightarrow> execution_event list \<Rightarrow>
   decision res" where
  "decide_on_tape zone ts_init env snapshots now history =
     (let tape = screened_tape env snapshots
      in bind_res (aggregate_bars tape BAR_INTERVAL) (\<lambda>bars.
         if length bars < MIN_CLASSIFY_BARS then Ok (idle INSUFFICIENT_DATA)
         else bind_res (tape_working_stop zone env bars now) (\<lambda>ws.
              bind_res (absorbable_size env tape) (\<lambda>absorbable.
              bind_res (desired_action env (own_actions ts_init env history) history tape
                  (the (mkt_last_price (last snapshots))) (the (mkt_bid (last snapshots)))
                  (urgency_at zone env now) ws absorbable) (\<lambda>outcome.
              Ok (case outcome of
                    Inl early \<Rightarrow> early
                  | Inr None \<Rightarrow> observing MONITORING None ws
                  | Inr (Some desired) \<Rightarrow> gate_action zone ts_init env history now ws desired))))))"

definition decide ::
  "(instant \<Rightarrow> int) \<Rightarrow> (execution_event \<Rightarrow> instant) \<Rightarrow> execution_envelope \<Rightarrow> market_snapshot list \<Rightarrow> instant \<Rightarrow> execution_event list \<Rightarrow>
   decision res" where
  "decide zone ts_init env snapshots now history =
     (let latest = (if snapshots = [] then None else Some (last snapshots));
          bad = snapshot_invalid_reasons latest;
          window = active_window env snapshots
      in if en_status env \<noteq> Envelope_ACTIVE then Ok (idle NOT_ACTIVE)
         else if now \<ge> dl_at (en_expires_at env) then Ok (ExpiredSignal (en_expiry_disposition env))
         else if \<not> phase_allowed zone env now then Ok (idle OUT_OF_PHASE)
         else if bad \<noteq> [] then Ok (StaleDataSignal (en_stale_data_disposition env) bad)
         else if remaining_of env \<le> 0 then Ok (idle NOTHING_TO_DO)
         else if window \<noteq> [] \<and> fst (last (marked window))
         then Ok (if \<exists>p \<in> set_option (mkt_last_price (last window)). float_le p (en_floor_price env)
                  then BreachSignal ''floor_price''
                  else StaleDataSignal (en_stale_data_disposition env) [''price_deviation''])
         else decide_on_tape zone ts_init env snapshots now history)"

end
