(* ===== verification/Envelope_Staging.thy ===== *)
theory Envelope_Staging
  imports Sellside_Policy Exits
begin

text \<open>
  From a planned action to a venue order (\<^verbatim>\<open>app/store/core.py\<close>): the write-time half of the
  hard-rail check, which stages an order or refuses, the same rails again at the venue claim, the clock
  of a staged action, and the binding of an envelope to its owner. The free text of a violation and the
  text of a float are the arguments \<open>detail_text\<close> and \<open>price_text\<close>.
\<close>

subsection \<open>Staging\<close>

datatype stage_plan =
    Stage_Error store_error
  | Stage_Divergence envelope_plan execution_event event_spec
  | Stage_Refused_Stale execution_event event_spec
  | Stage_Staged order_row execution_event event_spec

fun regime_value :: "regime \<Rightarrow> string" where
  "regime_value FAST_SPIKE = ''fast_spike''"
| "regime_value STEADY_SURGE = ''steady_surge''"
| "regime_value MATURE_TREND = ''mature_trend''"
| "regime_value STALL_FADE = ''stall_fade''"
| "regime_value UNCERTAIN = ''uncertain''"

definition clamp_value :: "clamp_note \<Rightarrow> pyval" where
  "clamp_value c = PDict [(''field'', PStr (cn_field c)), (''computed'', PFloat (cn_computed c)),
     (''clamped_to'', PFloat (cn_clamped_to c))]"

definition action_payload :: "planned_action \<Rightarrow> payload" where
  "action_payload a =
     [''action'' \<mapsto> PStr (action_kind_value (pa_kind a)), ''limit_price'' \<mapsto> PFloat (pa_limit_price a),
      ''quantity'' \<mapsto> PInt (pa_quantity a), ''tranche'' \<mapsto> PBool (pa_tranche a),
      ''stop_triggered'' \<mapsto> PBool (pa_stop_triggered a), ''urgency'' \<mapsto> PFloat (pa_urgency a),
      ''regime'' \<mapsto> opt_text (map_option regime_value (pa_regime a)),
      ''working_stop'' \<mapsto> limit_price_arg (pa_working_stop a), ''atr'' \<mapsto> limit_price_arg (pa_atr a),
      ''clamps'' \<mapsto> PList (map clamp_value (pa_clamps a))]"

text \<open>The dash in a message.\<close>

definition DASH :: string where
  "DASH = [CHR 0xE2, CHR 0x80, CHR 0x94]"

definition stage_divergence :: "execution_envelope \<Rightarrow> string \<Rightarrow> string \<Rightarrow> payload \<Rightarrow> string \<Rightarrow> instant \<Rightarrow> stage_plan" where
  "stage_divergence env rail detail payload snapshot_fingerprint now =
     (let freeze = plan_envelope_transition env Envelope_FROZEN ''engine'' (Some (''plan_divergence:'' @ rail)) None now False False
      in case freeze of
           Envelope_Apply frozen _ _ \<Rightarrow>
             Stage_Divergence freeze
               (envelope_event frozen Event_ENVELOPE_PLAN_DIVERGENCE None
                  ([''rail'' \<mapsto> PStr rail, ''detail'' \<mapsto> PStr detail,
                    ''snapshot_fingerprint'' \<mapsto> PStr snapshot_fingerprint] ++ payload) None)
               ((draft_spec ''envelope_plan_divergence'')
                  \<lparr>sp_message := ''DEFECT: plan/write validator disagreement on '' @ en_symbol env @ '' ('' @ rail @
                     '') '' @ DASH @ '' envelope frozen, no venue call'',
                   sp_symbol := Some (en_symbol env),
                   sp_payload := [''rail'' \<mapsto> PStr rail, ''detail'' \<mapsto> PStr detail, ''envelope_id'' \<mapsto> PStr (en_id env)],
                   sp_session_id := en_session_id env, sp_correlation_id := Some (en_sell_intent_id env)\<rparr>)
         | _ \<Rightarrow> Stage_Error AssertionError)"

definition refused_stale :: "execution_envelope \<Rightarrow> string \<Rightarrow> string \<Rightarrow> payload \<Rightarrow> string \<Rightarrow> stage_plan" where
  "refused_stale env rail detail payload snapshot_fingerprint =
     Stage_Refused_Stale
       (envelope_event env Event_ENVELOPE_ACTION None
          (payload ++ [''action'' \<mapsto> PStr ''refused_stale'',
             ''refused_action'' \<mapsto> (case payload ''action'' of Some v \<Rightarrow> v | None \<Rightarrow> PNone),
             ''rail'' \<mapsto> PStr rail, ''detail'' \<mapsto> PStr detail,
             ''snapshot_fingerprint'' \<mapsto> PStr snapshot_fingerprint]) None)
       ((draft_spec ''envelope_action_refused_stale'')
          \<lparr>sp_message := ''stale plan refused on '' @ en_symbol env @ '' ('' @ rail @
             '') '' @ DASH @ '' facts changed between plan and write; policy replans next tick'',
           sp_symbol := Some (en_symbol env),
           sp_payload := [''rail'' \<mapsto> PStr rail, ''detail'' \<mapsto> PStr detail, ''envelope_id'' \<mapsto> PStr (en_id env)],
           sp_session_id := en_session_id env, sp_correlation_id := Some (en_sell_intent_id env)\<rparr>)"

definition STALE_REFUSAL_RAILS :: "string list" where
  "STALE_REFUSAL_RAILS = [''qty_ceiling'', ''structural'']"

text \<open>Live here is every order that is not terminal.\<close>

definition stage_working_live :: "order_row option \<Rightarrow> bool" where
  "stage_working_live working_order =
     (case working_order of Some ord \<Rightarrow> \<not> order_terminal (or_status ord) | None \<Rightarrow> False)"

definition structural_detail :: "planned_action \<Rightarrow> order_row option \<Rightarrow> string option" where
  "structural_detail action working_order =
     (if pa_kind action = ACTION_REPRICE
      then (if \<not> stage_working_live working_order \<or> (\<forall>ord \<in> set_option working_order. or_broker_order_id ord = None)
            then Some ''REPRICE planned but no live working order with a venue id'' else None)
      else if stage_working_live working_order
      then Some ''SUBMIT planned over a live working order (max outstanding=1)''
      else None)"

definition staged_order ::
  "string \<Rightarrow> instant \<Rightarrow> execution_envelope \<Rightarrow> planned_action \<Rightarrow> order_row option \<Rightarrow> string option \<Rightarrow> order_row" where
  "staged_order order_id created env action working_order session_id =
     \<lparr>or_id = order_id, or_candidate_id = None, or_sell_intent_id = Some (en_sell_intent_id env),
      or_symbol = en_symbol env, or_side = Side_SELL, or_order_type = Type_LIMIT, or_quantity = pa_quantity action,
      or_limit_price = Some (pa_limit_price action), or_status = Order_CREATED, or_filled_quantity = 0,
      or_replaces_order_id = (if pa_kind action = ACTION_REPRICE then map_option or_id working_order else None),
      or_broker_order_id = None, or_session_id = session_id, or_created_at = created, or_updated_at = created,
      or_submitted_at = None, or_filled_at = None, or_canceled_at = None, or_rejected_at = None\<rparr>"

definition staged_event ::
  "execution_envelope \<Rightarrow> planned_action \<Rightarrow> order_row \<Rightarrow> string option \<Rightarrow> string \<Rightarrow> string \<Rightarrow> instant \<Rightarrow> execution_event" where
  "staged_event env action ord session_id snapshot_fingerprint actor now =
     (draft_event Event_ENVELOPE_ACTION Source_ENGINE Authority_LOCAL)
       \<lparr>ev_ts_event := Some now, ev_symbol := Some (en_symbol env), ev_side := Some Side_SELL,
        ev_quantity := Some (pa_quantity action), ev_price := Some (pa_limit_price action),
        ev_order_id := Some (or_id ord), ev_envelope_id := Some (en_id env), ev_session_id := session_id,
        ev_correlation_id := Some (en_sell_intent_id env),
        ev_payload := action_payload action ++ [''snapshot_fingerprint'' \<mapsto> PStr snapshot_fingerprint,
          ''actor'' \<mapsto> PStr actor, ''replaces_order_id'' \<mapsto> opt_text (or_replaces_order_id ord)]\<rparr>"

definition staged_spec :: "(float64 \<Rightarrow> string) \<Rightarrow> execution_envelope \<Rightarrow> planned_action \<Rightarrow> order_row \<Rightarrow> string option \<Rightarrow> event_spec" where
  "staged_spec price_text env action ord session_id =
     (draft_spec ''envelope_action_staged'')
       \<lparr>sp_message := ''envelope action staged: '' @ action_kind_value (pa_kind action) @ '' '' @ show_int (pa_quantity action) @
          '' '' @ en_symbol env @ '' @ '' @ price_text (pa_limit_price action),
        sp_symbol := Some (en_symbol env), sp_order_id := Some (or_id ord),
        sp_payload := [''envelope_id'' \<mapsto> PStr (en_id env)] ++ action_payload action,
        sp_session_id := session_id, sp_correlation_id := Some (en_sell_intent_id env)\<rparr>"

definition plan_stage_envelope_action ::
  "(instant \<Rightarrow> int) \<Rightarrow> (execution_event \<Rightarrow> instant) \<Rightarrow> (string \<Rightarrow> string) \<Rightarrow> (float64 \<Rightarrow> string) \<Rightarrow> string \<Rightarrow> instant \<Rightarrow>
   execution_envelope \<Rightarrow> planned_action \<Rightarrow> execution_event list \<Rightarrow> order_row option \<Rightarrow> string option \<Rightarrow> string \<Rightarrow> string \<Rightarrow>
   instant \<Rightarrow> int option \<Rightarrow> stage_plan" where
  "plan_stage_envelope_action zone ts_init detail_text price_text order_id created env action history working_order session_id
     snapshot_fingerprint actor now current_position =
     (let payload = action_payload action
      in if en_status env \<noteq> Envelope_ACTIVE then Stage_Error EnvelopeTransitionError
         else case structural_detail action working_order of
           Some detail \<Rightarrow> refused_stale env ''structural'' detail payload snapshot_fingerprint
         | None \<Rightarrow>
         case validate_action zone ts_init env action history now of
           Some rail \<Rightarrow>
             if rail \<in> set STALE_REFUSAL_RAILS
             then refused_stale env rail (detail_text rail) payload snapshot_fingerprint
             else stage_divergence env rail (detail_text rail) payload snapshot_fingerprint now
         | None \<Rightarrow>
         if \<exists>p \<in> set_option current_position. pa_quantity action > max 0 p
         then stage_divergence env ''reduce_only'' (detail_text ''reduce_only'') payload snapshot_fingerprint now
         else
           let ord = staged_order order_id created env action working_order session_id
           in Stage_Staged ord (staged_event env action ord session_id snapshot_fingerprint actor now)
                (staged_spec price_text env action ord session_id))"

subsection \<open>The rails at the venue claim\<close>

definition ENVELOPE_MAX_STAGED_AGE :: int where
  "ENVELOPE_MAX_STAGED_AGE = 120 * SECOND"

definition replayed_action :: "order_row \<Rightarrow> execution_event \<Rightarrow> planned_action" where
  "replayed_action ord action_event =
     \<lparr>pa_kind = (if ev_payload action_event ''action'' = Some (PStr ''reprice'') then ACTION_REPRICE else ACTION_SUBMIT),
      pa_limit_price = price_or_zero (or_limit_price ord), pa_quantity = or_quantity ord, pa_regime = None,
      pa_urgency = FLOAT_ZERO, pa_working_stop = None, pa_atr = None,
      pa_tranche = py_truthy (ev_payload action_event ''tranche''),
      pa_stop_triggered = py_truthy (ev_payload action_event ''stop_triggered''), pa_clamps = []\<rparr>"

definition prior_history :: "execution_envelope \<Rightarrow> order_row \<Rightarrow> execution_event list \<Rightarrow> execution_event list" where
  "prior_history env ord history =
     filter (\<lambda>e. \<not> (ev_event_type e = Event_ENVELOPE_ACTION \<and> ev_envelope_id e = Some (en_id env) \<and> ev_order_id e = Some (or_id ord)))
       history"

definition envelope_claim_hard_rail_reason ::
  "(instant \<Rightarrow> int) \<Rightarrow> (execution_event \<Rightarrow> instant) \<Rightarrow> execution_envelope \<Rightarrow> order_row \<Rightarrow> execution_event \<Rightarrow>
   execution_event list \<Rightarrow> int \<Rightarrow> instant \<Rightarrow> string option" where
  "envelope_claim_hard_rail_reason zone ts_init env ord action_event history current_position now =
     (let age = now - event_time ts_init action_event
      in if age < 0 \<or> age > ENVELOPE_MAX_STAGED_AGE then Some ''staleness''
         else case validate_action zone ts_init env (replayed_action ord action_event) (prior_history env ord history) now of
           Some rail \<Rightarrow> Some rail
         | None \<Rightarrow> if or_quantity ord > max 0 current_position then Some ''reduce_only'' else None)"

text \<open>The clock of a staged action: its event time advanced by the time since its ingest.\<close>

definition envelope_action_logical_now :: "(execution_event \<Rightarrow> instant) \<Rightarrow> execution_event \<Rightarrow> instant \<Rightarrow> string + instant" where
  "envelope_action_logical_now ts_init action_event wall_now =
     (let init_at = ts_init action_event
      in case ev_ts_event action_event of
           None \<Rightarrow> Inr wall_now
         | Some event_at \<Rightarrow>
             if wall_now - init_at < 0
             then (if event_at > wall_now then Inl ''staleness'' else Inr wall_now)
             else if event_at > init_at then Inl ''staleness''
             else Inr (event_at + (wall_now - init_at)))"

subsection \<open>The owner of an envelope\<close>

datatype owner_reason =
    Owner_Not_Found | Owner_Id_Mismatch | Owner_Symbol_Mismatch | Owner_Wrong_Reason | Owner_Ceiling_Exceeded
  | Owner_Session_Mismatch | Owner_Not_Open

definition envelope_owner_scope_reason :: "execution_envelope \<Rightarrow> sell_intent option \<Rightarrow> owner_reason option" where
  "envelope_owner_scope_reason env intent =
     (case intent of
        None \<Rightarrow> Some Owner_Not_Found
      | Some si \<Rightarrow>
          if si_id si \<noteq> en_sell_intent_id env then Some Owner_Id_Mismatch
          else if si_symbol si \<noteq> en_symbol env then Some Owner_Symbol_Mismatch
          else if si_reason si \<noteq> PROTECTION_FLOOR then Some Owner_Wrong_Reason
          else if en_qty_ceiling env > si_target_quantity si then Some Owner_Ceiling_Exceeded
          else if en_session_id env \<noteq> si_session_id si then Some Owner_Session_Mismatch
          else None)"

definition envelope_owner_binding_reason :: "execution_envelope \<Rightarrow> sell_intent option \<Rightarrow> owner_reason option" where
  "envelope_owner_binding_reason env intent =
     (case envelope_owner_scope_reason env intent of
        Some r \<Rightarrow> Some r
      | None \<Rightarrow> (case intent of
                   Some si \<Rightarrow> if si_status si \<in> {Sell_PENDING, Sell_APPROVED} then None else Some Owner_Not_Open
                 | None \<Rightarrow> Some Owner_Not_Found))"

end
