(* ===== verification/Sellside_Ratchet.thy ===== *)
theory Sellside_Ratchet
  imports Envelope_Staging
begin

text \<open>
  The trailing stop of the sell side: no input makes a tick raise, and the stop that a later tick
  computes from a tape that has only grown at its end is at least the earlier one. The candidates
  of app/sellside/trails.py may fall; the ratchet over the completed bars keeps their maximum, and
  bars completed at one tick are the same bars at the next.
\<close>

subsection \<open>Nothing raises\<close>

lemma float_mul_finite:
  assumes "float_finite a" "float_finite b" "\<bar>float_units a * float_units b\<bar> < 2 ^ n * FLOAT_SCALE" "n \<le> 2097"
  shows "float_finite (float_mul a b)"
proof -
  have s: "0 < FLOAT_SCALE" by (simp add: FLOAT_SCALE_def)
  have "float_magnitude (float_round c \<bar>float_units a * float_units b\<bar> FLOAT_SCALE) < FLOAT_INF_BITS" for c
    using round_bits_finite [OF abs_ge_zero s assms(3,4)] float_round_parts(2) [OF abs_ge_zero s] by simp
  then show ?thesis
    using assms(1,2) unfolding float_mul_def Let_def float_finite_iff float_nan_def float_infinite_def
    by (smt (verit))
qed

lemma fade_quantile: "float_finite FADE_QUANTILE" "\<bar>float_units FADE_QUANTILE\<bar> < 2 ^ 1074"
  by code_simp+

lemma fade_index: "\<exists>i. bind_res (int_to_float 15) (\<lambda>n. float_trunc (float_mul FADE_QUANTILE n)) = Ok i"
proof -
  obtain x where x: "int_to_float 15 = Ok x" "float_units x = 15 * FLOAT_SCALE"
    using int_to_float_exact [of 15] by auto
  obtain y where "int_to_float 15 = Ok y" "float_finite y" using int_to_float_Ok [of 15] by auto
  with x have fin: "float_finite x" by simp
  have "\<bar>float_units FADE_QUANTILE\<bar> * (15 * FLOAT_SCALE) < 2 ^ 1074 * (2 ^ 4 * FLOAT_SCALE)"
    by (rule mult_strict_mono [OF fade_quantile(2)]) (simp_all add: FLOAT_SCALE_def)
  also have "\<dots> = 2 ^ 1078 * FLOAT_SCALE" by (simp only: mult.assoc [symmetric] power_add [symmetric]) simp
  finally have "\<bar>float_units FADE_QUANTILE * float_units x\<bar> < 2 ^ 1078 * FLOAT_SCALE"
    unfolding x(2) abs_mult by (simp add: FLOAT_SCALE_def)
  from float_mul_finite [OF fade_quantile(1) fin this] show ?thesis
    by (simp add: x(1) float_trunc_def whole_def float_finite_iff)
qed

lemma length_last_n [simp]: "length (last_n n xs) = min n (length xs)"
  by (simp add: last_n_def)

lemma fade_flag_total: "\<not> isl (fade_flag bars FADE_WINDOW FADE_QUANTILE)"
proof -
  obtain i where i: "bind_res (int_to_float 15) (\<lambda>n. float_trunc (float_mul FADE_QUANTILE n)) = Ok i"
    using fade_index by blast
  have n: "int (length (sort_key float_key (butlast (last_n (FADE_WINDOW + 1) xs)))) - 1 = 15"
    if "\<not> length xs < FADE_WINDOW + 1" for xs
    using that by (simp add: FADE_WINDOW_def)
  show ?thesis
  proof (cases "length (map bar_close bars) < FADE_WINDOW + 2 \<or> length (bar_returns (map bar_close bars)) < FADE_WINDOW + 1")
    case False
    then have "\<not> length (bar_returns (map bar_close bars)) < FADE_WINDOW + 1" by blast
    note n = n [OF this]
    show ?thesis unfolding fade_flag_def Let_def n i by simp
  qed (simp add: fade_flag_def Let_def)
qed

lemma bind_res_total: "\<not> isl m \<Longrightarrow> (\<And>x. m = Ok x \<Longrightarrow> \<not> isl (f x)) \<Longrightarrow> \<not> isl (bind_res m f)"
  by (cases m) auto

lemma total_Ok: "\<not> isl r \<Longrightarrow> \<exists>x. r = Ok x"
  by (cases r) auto

lemma float_div_total: "\<not> float_zero b \<Longrightarrow> \<not> isl (float_div a b)"
  by (simp add: float_div_def Let_def)

lemma float_zero_cases: "float_zero x \<Longrightarrow> x = 0 \<or> x = 2 ^ 63"
proof -
  assume "float_zero x"
  then have "uint x mod 2 ^ 63 = 0" by (simp add: float_zero_def float_magnitude_def)
  then have x: "uint x = uint x div 2 ^ 63 * 2 ^ 63" using div_mult_mod_eq [of "uint x" "2 ^ 63"] by linarith
  have "uint x div 2 ^ 63 < 2" using uint_lt2p [of x] by (intro quotient_less) simp_all
  moreover have "0 \<le> uint x div 2 ^ 63" by (simp add: pos_imp_zdiv_nonneg_iff)
  ultimately have "uint x div 2 ^ 63 = 0 \<or> uint x div 2 ^ 63 = 1" by linarith
  then have "uint x = 0 \<or> uint x = 2 ^ 63" by (rule disj_forward) (subst x, simp)+
  then show "x = 0 \<or> x = 2 ^ 63"
  proof
    assume "uint x = 2 ^ 63"
    then have "uint x = uint (2 ^ 63 :: float64)" by simp
    then show ?thesis by (simp only: word_uint_eq_iff) simp
  qed (simp add: word_uint_eq_iff)
qed

lemma zero_le_zero: "float_zero x \<Longrightarrow> float_le x FLOAT_ZERO"
  by (drule float_zero_cases) (auto simp: float_le_def float_nan_def float_magnitude_def float_key_def FLOAT_ZERO_def
    float_make_def FLOAT_INF_BITS_def)

lemma int_truediv_total:
  assumes "0 \<le> m" "m \<le> n" "0 < n"
  shows "\<not> isl (int_truediv m n)"
proof -
  have "m * FLOAT_SCALE \<le> n * FLOAT_SCALE" using assms by (intro mult_right_mono) (simp_all add: FLOAT_SCALE_def)
  also have "\<dots> < n * 2 ^ 1075" using assms(3) unfolding FLOAT_SCALE_def by (intro mult_strict_left_mono power_strict_increasing) simp_all
  finally have "\<bar>m\<bar> * FLOAT_SCALE < 2 ^ 1075 * \<bar>n\<bar>" using assms by (simp add: mult.commute)
  from round_bits_finite [OF _ _ this] assms have b: "round_bits (\<bar>m\<bar> * FLOAT_SCALE) \<bar>n\<bar> < FLOAT_INF_BITS"
    by (simp add: FLOAT_SCALE_def)
  have "float_magnitude (float_round c (\<bar>m\<bar> * FLOAT_SCALE) \<bar>n\<bar>) = round_bits (\<bar>m\<bar> * FLOAT_SCALE) \<bar>n\<bar>" for c
    using assms by (intro float_round_parts) (simp_all add: FLOAT_SCALE_def)
  with b assms show ?thesis by (simp add: int_truediv_def finite_result_def)
qed

lemma classify_total: "\<not> isl (classify bars atr_now atr_baseline)"
proof (cases "\<exists>now baseline. atr_now = Some now \<and> atr_baseline = Some baseline \<and> \<not> length bars < MIN_CLASSIFY_BARS \<and>
    \<not> float_le now FLOAT_ZERO \<and> \<not> float_le baseline FLOAT_ZERO")
  case True
  then obtain now baseline where a: "atr_now = Some now" "atr_baseline = Some baseline" "\<not> length bars < MIN_CLASSIFY_BARS"
    "\<not> float_le now FLOAT_ZERO" "\<not> float_le baseline FLOAT_ZERO" by blast
  have z: "\<not> float_zero now" "\<not> float_zero baseline" using a zero_le_zero by blast+
  have up: "\<not> isl (int_truediv (count_bars P w) (max 1 (count_bars P w + count_bars Q w)))" for P Q w
    by (intro int_truediv_total) (simp_all add: count_bars_def)
  show ?thesis
    unfolding classify_def a Let_def using a(3-5)
    by (simp) (intro bind_res_total float_div_total z up fade_flag_total, simp)
next
  case False
  then show ?thesis by (auto simp: classify_def split: option.splits)
qed

lemma pullback_tightened_total: "\<not> isl (pullback_tightened prefix)"
  unfolding pullback_tightened_def Let_def by (intro bind_res_total fade_flag_total) simp

lemma step_candidate_total: "\<not> isl (step_candidate env prefix urgency)"
  unfolding step_candidate_def Let_def
  by (cases "atr prefix TRAIL_ATR_PERIOD")
    (simp_all add: bind_res_total classify_total pullback_tightened_total case_prod_beta)

lemma fold_res_total: "(\<And>x s. \<not> isl (f x s)) \<Longrightarrow> \<not> isl (fold_res f xs s)"
  by (induction xs arbitrary: s) (simp_all add: bind_res_total)

lemma ratchet_step_total: "\<not> isl (ratchet_step env bars urgency at_time step stop)"
  unfolding ratchet_step_def Let_def by (intro bind_res_total step_candidate_total) simp

lemma compute_working_stop_total: "\<not> isl (compute_working_stop env bars urgency at_time last_open)"
  unfolding compute_working_stop_def Let_def
  by (intro bind_res_total fold_res_total ratchet_step_total) (simp_all add: step_candidate_total)

subsection \<open>The ratchet only rises\<close>

definition risen :: "float64 option \<Rightarrow> float64 option \<Rightarrow> bool" where
  "risen old new \<longleftrightarrow> (\<forall>s. old = Some s \<longrightarrow> (\<exists>t. new = Some t \<and> at_least t s))"

lemma risen_refl [simp]: "risen s s"
  by (simp add: risen_def)

lemma risen_trans: "risen a b \<Longrightarrow> risen b c \<Longrightarrow> risen a c"
  unfolding risen_def by (metis at_least_trans option.inject)

lemma ratchet_risen: "risen stop (ratchet stop c)"
  by (auto simp: risen_def ratchet_def float_max_at_least split: option.splits)

lemma ratchet_step_risen: "ratchet_step env bars urgency at_time step stop = Ok stop' \<Longrightarrow> risen stop stop'"
  by (cases "step_candidate env (take step bars) (case at_time of Some f \<Rightarrow> f (bar_end (bars ! (step - 1))) | None \<Rightarrow> urgency)")
    (auto simp: ratchet_step_def Let_def ratchet_risen)

lemma fold_ratchet_risen: "fold_res (ratchet_step env bars urgency at_time) steps stop = Ok stop' \<Longrightarrow> risen stop stop'"
  by (induction steps arbitrary: stop) (auto simp: bind_res_eq_Inr dest: ratchet_step_risen intro: risen_trans)

lemma fold_res_cong_list: "(\<And>x s. x \<in> set xs \<Longrightarrow> f x s = g x s) \<Longrightarrow> fold_res f xs s = fold_res g xs s"
  by (induction xs arbitrary: s) (auto intro!: bind_res_cong)

text \<open>A longer tape whose completed bars continue those of a shorter one has no lower stop.\<close>

lemma working_stop_risen:
  assumes r: "compute_working_stop env bars u (Some at_time) open1 = Ok r"
    and r': "compute_working_stop env bars' u' (Some at_time) open2 = Ok r'"
    and n: "n = (if open1 then length bars - 1 else length bars)" "n \<le> (if open2 then length bars' - 1 else length bars')"
    and same: "take n bars' = take n bars"
  shows "risen (ws_stop r) (ws_stop r')"
proof -
  let ?n' = "if open2 then length bars' - 1 else length bars'"
  have s: "fold_res (ratchet_step env bars u (Some at_time)) [MIN_CLASSIFY_BARS ..< Suc n] None = Ok (ws_stop r)"
    using r unfolding compute_working_stop_def Let_def n(1) [symmetric] by (auto simp: bind_res_eq_Inr)
  have s': "fold_res (ratchet_step env bars' u' (Some at_time)) [MIN_CLASSIFY_BARS ..< Suc ?n'] None = Ok (ws_stop r')"
    using r' unfolding compute_working_stop_def Let_def by (auto simp: bind_res_eq_Inr)
  have step: "ratchet_step env bars' u' (Some at_time) k stop = ratchet_step env bars u (Some at_time) k stop"
    if "k \<in> set [MIN_CLASSIFY_BARS ..< Suc n]" for k stop
  proof -
    have k: "k \<le> n" "0 < k" using that by (auto simp: MIN_CLASSIFY_BARS_def)
    then have "take k bars' = take k bars" using same by (metis min.absorb1 take_take)
    moreover have "bars' ! (k - 1) = bars ! (k - 1)" using k same by (metis diff_less less_le_trans nth_take zero_less_one)
    ultimately show ?thesis by (simp add: ratchet_step_def)
  qed
  show ?thesis
  proof (cases "MIN_CLASSIFY_BARS \<le> Suc n")
    case True
    then have "[MIN_CLASSIFY_BARS ..< Suc ?n'] = [MIN_CLASSIFY_BARS ..< Suc n] @ [Suc n ..< Suc ?n']"
      using n(2) by (metis Suc_le_mono upt_add_eq_append le_Suc_ex)
    then have "bind_res (fold_res (ratchet_step env bars' u' (Some at_time)) [MIN_CLASSIFY_BARS ..< Suc n] None)
        (fold_res (ratchet_step env bars' u' (Some at_time)) [Suc n ..< Suc ?n']) = Ok (ws_stop r')"
      using s' by (simp only: fold_res_append)
    then have "fold_res (ratchet_step env bars' u' (Some at_time)) [Suc n ..< Suc ?n'] (ws_stop r) = Ok (ws_stop r')"
      by (simp only: fold_res_cong_list [OF step] s bind_res_simps)
    then show ?thesis by (rule fold_ratchet_risen)
  next
    case False
    then have "ws_stop r = None" using s by simp
    then show ?thesis by (simp add: risen_def)
  qed
qed

subsection \<open>The tape grows at its end\<close>

lemma active_window_append: "active_window env (xs @ ys) = active_window env xs @ active_window env ys"
  by (simp add: active_window_def)

lemma marked_append: "\<exists>zs. marked (xs @ ys) = marked xs @ zs \<and> snd ` set zs \<subseteq> set ys"
proof -
  let ?m = "\<lambda>w i. i > 0 \<and> suspect_step (w ! (i - 1)) (w ! i)"
  have "map (?m (xs @ ys)) [0 ..< length (xs @ ys)] =
      map (?m xs) [0 ..< length xs] @ map (?m (xs @ ys)) [length xs ..< length (xs @ ys)]"
  proof -
    have "[0 ..< length (xs @ ys)] = [0 ..< length xs] @ [length xs ..< length (xs @ ys)]"
      using upt_add_eq_append [of 0 "length xs" "length ys"] by simp
    moreover have "map (?m (xs @ ys)) [0 ..< length xs] = map (?m xs) [0 ..< length xs]"
      by (intro map_cong refl) (auto simp: nth_append)
    ultimately show ?thesis by simp
  qed
  then have "marked (xs @ ys) = marked xs @ zip (map (?m (xs @ ys)) [length xs ..< length (xs @ ys)]) ys"
    unfolding marked_def by (simp only: zip_append length_map length_upt diff_zero)
  moreover have "snd ` set (zip (map (?m (xs @ ys)) [length xs ..< length (xs @ ys)]) ys) \<subseteq> set ys"
    by (auto dest: set_zip_rightD)
  ultimately show ?thesis by blast
qed

lemma screened_tape_append: "\<exists>added. screened_tape env (xs @ ys) = screened_tape env xs @ added \<and> set added \<subseteq> set ys"
proof -
  obtain zs where "marked (active_window env xs @ active_window env ys) = marked (active_window env xs) @ zs"
      "snd ` set zs \<subseteq> set (active_window env ys)"
    using marked_append by blast
  moreover have "set (active_window env ys) \<subseteq> set ys" by (simp add: active_window_def)
  moreover have "set (map snd (filter P zs)) \<subseteq> snd ` set zs" for P by auto
  ultimately have "set (map snd (filter P zs)) \<subseteq> set ys" for P by (meson order_trans)
  then show ?thesis
    using \<open>marked _ = _\<close> unfolding screened_tape_def active_window_append by (metis filter_append map_append)
qed

lemma screened_tape_subset: "set (screened_tape env xs) \<subseteq> set xs"
  by (auto simp: screened_tape_def marked_def active_window_def dest: set_zip_rightD)

lemma bars_from_append:
  "\<exists>prev'. bars_from interval tape prev (is @ js) = bars_from interval tape prev is @ bars_from interval tape prev' js"
  by (induction "is" arbitrary: prev) (auto simp: Let_def)

lemma length_bars_from [simp]: "length (bars_from interval tape prev is) = length is"
  by (induction "is" arbitrary: prev) (simp_all add: Let_def)

lemma bars_from_cong:
  "(\<And>i. i \<in> set is \<Longrightarrow> bucket_rows interval tape' i = bucket_rows interval tape i) \<Longrightarrow>
     bars_from interval tape' prev is = bars_from interval tape prev is"
  by (induction "is" arbitrary: prev) (simp_all add: Let_def)

lemma bars_from_nth:
  "i < length is \<Longrightarrow> bar_start (bars_from interval tape prev is ! i) = is ! i * interval"
  "i < length is \<Longrightarrow> bar_end (bars_from interval tape prev is ! i) = is ! i * interval + interval"
  by (induction "is" arbitrary: prev i) (auto simp: Let_def nth_Cons bar_of_def split: nat.splits)

lemma set_bucket_indices:
  "set (bucket_indices interval tape) = (\<lambda>s. mkt_updated_at s div interval) ` {s \<in> set tape. finite_positive (mkt_last_price s)}"
  by (simp add: bucket_indices_def)

lemma sorted_bucket_indices: "sorted_wrt (<) (bucket_indices interval tape)"
  by (simp add: bucket_indices_def strict_sorted_iff)

lemma sorted_split: "sorted_wrt (<) xs \<Longrightarrow> xs = filter (\<lambda>x. x < m) xs @ filter (\<lambda>x. m \<le> x) xs" for m :: "'a :: linorder"
proof (induction xs)
  case (Cons a xs)
  show ?case
  proof (cases "a < m")
    case False
    then have "\<forall>x \<in> set xs. m \<le> x \<and> \<not> x < m" using Cons.prems by auto
    then have "filter (\<lambda>x. x < m) xs = []" "filter (\<lambda>x. m \<le> x) xs = xs" by (simp_all add: filter_empty_conv)
    with False show ?thesis by simp
  qed (use Cons in simp)
qed simp

lemma bucket_indices_below:
  assumes "\<forall>s \<in> set added. m \<le> mkt_updated_at s div interval"
  shows "filter (\<lambda>i. i < m) (bucket_indices interval (tape @ added)) = filter (\<lambda>i. i < m) (bucket_indices interval tape)"
proof (rule sorted_distinct_set_unique)
  show "set (filter (\<lambda>i. i < m) (bucket_indices interval (tape @ added))) = set (filter (\<lambda>i. i < m) (bucket_indices interval tape))"
    using assms by (auto simp: set_bucket_indices)
qed (use sorted_wrt_filter [OF sorted_bucket_indices] in \<open>auto simp: strict_sorted_iff\<close>)

lemma bucket_rows_append:
  assumes "\<forall>s \<in> set added. m \<le> mkt_updated_at s div interval" "i < m"
  shows "bucket_rows interval (tape @ added) i = bucket_rows interval tape i"
proof -
  have "filter (\<lambda>s. finite_positive (mkt_last_price s) \<and> mkt_updated_at s div interval = i) added = []"
    using assms by (auto simp: filter_empty_conv)
  then show ?thesis by (simp add: bucket_rows_def)
qed

lemma bars_from_Nil_iff [simp]: "bars_from interval tape prev is = [] \<longleftrightarrow> is = []"
  by (cases "is") (simp_all add: Let_def)

lemma last_bar_end: "is \<noteq> [] \<Longrightarrow> bar_end (last (bars_from interval tape prev is)) = last is * interval + interval"
  by (simp add: last_conv_nth bars_from_nth(2))

lemma ends_after: "i * I + I > t \<longleftrightarrow> t div I \<le> i" if "0 < I" for i t I :: int
proof -
  have "t div I < i + 1 \<longleftrightarrow> t < (i + 1) * I"
  proof
    assume "t div I < i + 1"
    then have "(t div I + 1) * I \<le> (i + 1) * I" using that by (intro mult_right_mono) simp_all
    moreover have "t < (t div I + 1) * I"
      unfolding distrib_right using div_mult_mod_eq [of t I] pos_mod_bound [OF that, of t] by linarith
    ultimately show "t < (i + 1) * I" by linarith
  qed (rule quotient_less [OF that])
  then show ?thesis by (simp add: distrib_right)
qed

text \<open>The completed bars of a tick are all bars but an open last one, and a later tick keeps them.\<close>

definition completed :: "bar list \<Rightarrow> instant \<Rightarrow> nat" where
  "completed bars now = (if bars \<noteq> [] \<and> bar_end (last bars) > now then length bars - 1 else length bars)"

lemma completed_bars:
  assumes I: "0 < I" and old: "\<forall>s \<in> set tape. mkt_updated_at s \<le> now" and new: "\<forall>s \<in> set added. now \<le> mkt_updated_at s"
    and later: "now \<le> now'"
    and bars: "bars = bars_from I tape None (bucket_indices I tape)"
    and bars': "bars' = bars_from I (tape @ added) None (bucket_indices I (tape @ added))"
  shows "take (completed bars now) bars' = take (completed bars now) bars \<and> completed bars now \<le> completed bars' now'"
proof -
  define m where "m = now div I"
  have m_new: "\<forall>s \<in> set added. m \<le> mkt_updated_at s div I" using new I by (simp add: m_def zdiv_mono1)
  define A where "A = filter (\<lambda>i. i < m) (bucket_indices I tape)"
  define B where "B = filter (\<lambda>i. m \<le> i) (bucket_indices I tape)"
  define B' where "B' = filter (\<lambda>i. m \<le> i) (bucket_indices I (tape @ added))"
  have AB: "bucket_indices I tape = A @ B" unfolding A_def B_def by (rule sorted_split [OF sorted_bucket_indices])
  have AB': "bucket_indices I (tape @ added) = A @ B'"
    unfolding A_def B'_def bucket_indices_below [OF m_new, of tape, symmetric] by (rule sorted_split [OF sorted_bucket_indices])
  have B: "B = [] \<or> B = [m]"
  proof -
    have "i \<le> m" if "i \<in> set B" for i
      using that old I by (auto simp: B_def set_bucket_indices m_def intro: zdiv_mono1)
    moreover have "m \<le> i" if "i \<in> set B" for i using that by (simp add: B_def)
    ultimately have "\<forall>i \<in> set B. i = m" by (meson antisym)
    moreover have "distinct B" unfolding B_def bucket_indices_def by simp
    ultimately show ?thesis by (cases B; cases "tl B") auto
  qed
  have same: "bars_from I (tape @ added) None A = bars_from I tape None A"
    by (rule bars_from_cong) (use bucket_rows_append [OF m_new] in \<open>simp add: A_def\<close>)
  obtain p where b: "bars = bars_from I tape None A @ bars_from I tape p B"
    unfolding bars AB using bars_from_append by blast
  obtain p' where b': "bars' = bars_from I tape None A @ bars_from I (tape @ added) p' B'"
    unfolding bars' AB' same [symmetric] using bars_from_append by blast
  have below: "\<not> now div I \<le> last A" if "A \<noteq> []"
    using last_in_set [OF that] by (simp add: A_def m_def)
  have n: "completed bars now = length A"
    using B
  proof
    assume "B = []"
    then show ?thesis using below by (auto simp: completed_def b last_bar_end ends_after [OF I])
  next
    assume "B = [m]"
    then show ?thesis by (simp add: completed_def b last_bar_end ends_after [OF I] m_def del: bars_from.simps)
  qed
  moreover have "length A \<le> completed bars' now'"
  proof (cases "B' = []")
    case True
    have "\<not> now' div I \<le> last A" if "A \<noteq> []"
      using below [OF that] zdiv_mono1 [OF later I] by linarith
    with True show ?thesis by (auto simp: completed_def b' last_bar_end ends_after [OF I])
  next
    case False
    then show ?thesis by (cases B') (simp_all add: completed_def b' del: bars_from.simps)
  qed
  ultimately show ?thesis by (simp add: b b')
qed

text \<open>One tick: the bars of the screened tape and the stop they give.\<close>

definition tick_working_stop ::
  "(instant \<Rightarrow> int) \<Rightarrow> execution_envelope \<Rightarrow> market_snapshot list \<Rightarrow> instant \<Rightarrow> working_stop_result res" where
  "tick_working_stop zone env snapshots now =
     bind_res (aggregate_bars (screened_tape env snapshots) BAR_INTERVAL) (\<lambda>bars. tape_working_stop zone env bars now)"

lemma bar_interval: "0 < BAR_INTERVAL"
  by (simp add: BAR_INTERVAL_def SECOND_def)

lemma tape_stop_risen:
  assumes "tape_working_stop zone env bars now = Ok r" "tape_working_stop zone env bars' now' = Ok r'"
    and "take (completed bars now) bars' = take (completed bars now) bars" "completed bars now \<le> completed bars' now'"
  shows "risen (ws_stop r) (ws_stop r')"
  using working_stop_risen [OF assms(1) [unfolded tape_working_stop_def] assms(2) [unfolded tape_working_stop_def],
      of "completed bars now"] assms(3,4)
  by (simp add: completed_def)

lemma tick_stop_risen:
  assumes old: "\<forall>s \<in> set old. mkt_updated_at s \<le> now" and new: "\<forall>s \<in> set new. now \<le> mkt_updated_at s" and later: "now \<le> now'"
  shows "\<exists>r r'. tick_working_stop zone env old now = Ok r \<and> tick_working_stop zone env (old @ new) now' = Ok r' \<and>
    risen (ws_stop r) (ws_stop r')"
proof -
  obtain added where added: "screened_tape env (old @ new) = screened_tape env old @ added" "set added \<subseteq> set new"
    using screened_tape_append by blast
  let ?bars = "\<lambda>tape. bars_from BAR_INTERVAL tape None (bucket_indices BAR_INTERVAL tape)"
  have tick: "tick_working_stop zone env snapshots t = tape_working_stop zone env (?bars (screened_tape env snapshots)) t"
    for snapshots t using bar_interval by (simp add: tick_working_stop_def aggregate_bars_def)
  have "\<forall>s \<in> set (screened_tape env old). mkt_updated_at s \<le> now" "\<forall>s \<in> set added. now \<le> mkt_updated_at s"
    using old new added(2) screened_tape_subset by blast+
  note c = completed_bars [OF bar_interval this later refl refl]
  obtain r r' where r: "tape_working_stop zone env (?bars (screened_tape env old)) now = Ok r"
      "tape_working_stop zone env (?bars (screened_tape env old @ added)) now' = Ok r'"
    unfolding tape_working_stop_def using total_Ok [OF compute_working_stop_total] by meson
  have "risen (ws_stop r) (ws_stop r')"
    by (rule tape_stop_risen [OF r]) (use c in blast)+
  with r show ?thesis by (auto simp: tick added(1))
qed

end
