(* ===== verification/Sellside_Rails.thy ===== *)
theory Sellside_Rails
  imports Sellside_Ratchet Envelope_Log
begin

text \<open>
  The rails of an envelope, read off the definitions: what a bar of app/sellside/bars.py contains,
  what app/sellside/policy.py checks before it plans an action, and what the store checks again
  when it stages and when it claims the action.
\<close>

subsection \<open>Bars\<close>

lemma float_nan_key: "float_le a b \<longleftrightarrow> \<not> float_nan a \<and> \<not> float_nan b \<and> float_key a \<le> float_key b"
  by (simp add: float_le_def)

lemma foldl_float_max_bound:
  "\<not> float_nan a \<Longrightarrow> \<forall>x \<in> set xs. \<not> float_nan x \<Longrightarrow>
     foldl float_max a xs \<in> insert a (set xs) \<and> (\<forall>x \<in> insert a (set xs). float_le x (foldl float_max a xs))"
proof (induction xs arbitrary: a)
  case (Cons x xs)
  have "\<not> float_nan (float_max a x)" using Cons.prems by (simp add: float_max_def)
  from Cons.IH [OF this] Cons.prems(2)
  have ih: "foldl float_max (float_max a x) xs \<in> insert (float_max a x) (set xs)"
    "\<forall>y \<in> insert (float_max a x) (set xs). float_le y (foldl float_max (float_max a x) xs)" by simp_all
  have "float_le a (float_max a x)" "float_le x (float_max a x)"
    using Cons.prems by (auto simp: float_max_def float_less_def float_le_def)
  moreover have "float_max a x \<in> {a, x}" by (simp add: float_max_def)
  ultimately show ?case using ih by (auto intro: float_le_trans)
qed (simp add: float_le_def)

lemma foldl_float_min_bound:
  "\<not> float_nan a \<Longrightarrow> \<forall>x \<in> set xs. \<not> float_nan x \<Longrightarrow>
     foldl float_min a xs \<in> insert a (set xs) \<and> (\<forall>x \<in> insert a (set xs). float_le (foldl float_min a xs) x)"
proof (induction xs arbitrary: a)
  case (Cons x xs)
  have "\<not> float_nan (float_min a x)" using Cons.prems by (simp add: float_min_def)
  from Cons.IH [OF this] Cons.prems(2)
  have ih: "foldl float_min (float_min a x) xs \<in> insert (float_min a x) (set xs)"
    "\<forall>y \<in> insert (float_min a x) (set xs). float_le (foldl float_min (float_min a x) xs) y" by simp_all
  have "float_le (float_min a x) a" "float_le (float_min a x) x"
    using Cons.prems by (auto simp: float_min_def float_less_def float_le_def)
  moreover have "float_min a x \<in> {a, x}" by (simp add: float_min_def)
  ultimately show ?case using ih by (auto intro: float_le_trans)
qed (simp add: float_le_def)

lemma floats_max_bound:
  "xs \<noteq> [] \<Longrightarrow> \<forall>x \<in> set xs. \<not> float_nan x \<Longrightarrow> floats_max xs \<in> set xs \<and> (\<forall>x \<in> set xs. float_le x (floats_max xs))"
  using foldl_float_max_bound [of "hd xs" "tl xs"] by (cases xs) (simp_all add: floats_max_def)

lemma floats_min_bound:
  "xs \<noteq> [] \<Longrightarrow> \<forall>x \<in> set xs. \<not> float_nan x \<Longrightarrow> floats_min xs \<in> set xs \<and> (\<forall>x \<in> set xs. float_le (floats_min xs) x)"
  using foldl_float_min_bound [of "hd xs" "tl xs"] by (cases xs) (simp_all add: floats_min_def)

definition bar_ok :: "market_snapshot list \<Rightarrow> int \<Rightarrow> bar \<Rightarrow> bool" where
  "bar_ok tape interval b \<longleftrightarrow>
     bar_end b = bar_start b + interval \<and> interval dvd bar_start b \<and>
     (\<forall>p \<in> {bar_open b, bar_high b, bar_low b, bar_close b}.
        finite_positive (Some p) \<and> float_le (bar_low b) p \<and> float_le p (bar_high b) \<and>
        (\<exists>s \<in> set tape. mkt_last_price s = Some p \<and> bar_start b \<le> mkt_updated_at s \<and> mkt_updated_at s < bar_end b)) \<and>
     float_le FLOAT_ZERO (bar_volume b)"

lemma bucket_volume_nonneg: "float_le FLOAT_ZERO (bucket_volume prev cums)"
proof -
  have z: "float_le FLOAT_ZERO FLOAT_ZERO" by code_simp
  have "float_le FLOAT_ZERO (float_max FLOAT_ZERO x)" for x
    using z by (auto simp: float_max_def float_less_def float_le_def)
  with z show ?thesis by (simp add: bucket_volume_def Let_def split: option.splits)
qed

lemma bucket_bar_ok:
  assumes I: "0 < I" and i: "i \<in> set (bucket_indices I tape)"
  shows "bar_ok tape I (bar_of I i (row_prices (bucket_rows I tape i)) (bucket_volume prev cums))"
proof -
  let ?prices = "row_prices (bucket_rows I tape i)"
  have row: "\<exists>s \<in> set tape. mkt_last_price s = Some p \<and> mkt_updated_at s div I = i \<and> finite_positive (Some p)"
    if "p \<in> set ?prices" for p
    using that by (auto simp: row_prices_def map_filter_def bucket_rows_def)
  have ne: "?prices \<noteq> []"
  proof -
    obtain s where "s \<in> set tape" "finite_positive (mkt_last_price s)" "mkt_updated_at s div I = i"
      using i by (auto simp: set_bucket_indices)
    then have "s \<in> set (bucket_rows I tape i)" "mkt_last_price s \<noteq> None" by (cases "mkt_last_price s"; simp add: bucket_rows_def finite_positive_def)+
    then have "\<exists>p. p \<in> set ?prices" by (force simp: row_prices_def map_filter_def)
    then show ?thesis by (metis empty_iff list.set(1))
  qed
  have nan: "\<forall>p \<in> set ?prices. \<not> float_nan p"
    using row by (force simp: finite_positive_def float_finite_iff)
  note mx = floats_max_bound [OF ne nan] and mn = floats_min_bound [OF ne nan]
  have inside: "i * I \<le> t \<and> t < i * I + I" if "t div I = i" for t
    using ends_after [OF I, of i t] div_mult_mod_eq [of t I] pos_mod_sign [OF I, of t] that
    by (smt (verit) ends_after [OF I] pos_mod_bound [OF I])
  have point: "finite_positive (Some p) \<and> float_le (floats_min ?prices) p \<and> float_le p (floats_max ?prices) \<and>
      (\<exists>s \<in> set tape. mkt_last_price s = Some p \<and> i * I \<le> mkt_updated_at s \<and> mkt_updated_at s < i * I + I)"
    if "p \<in> set ?prices" for p
    using row [OF that] mx mn that inside by blast
  show ?thesis
    using point [of "hd ?prices"] point [of "last ?prices"] point [of "floats_max ?prices"] point [of "floats_min ?prices"]
      mx mn ne bucket_volume_nonneg
    by (simp add: bar_ok_def bar_of_def)
qed

lemma bars_from_ok:
  "0 < I \<Longrightarrow> set is \<subseteq> set (bucket_indices I tape) \<Longrightarrow> \<forall>b \<in> set (bars_from I tape prev is). bar_ok tape I b"
  by (induction "is" arbitrary: prev) (auto simp: Let_def bucket_bar_ok)

lemma bars_ordered:
  assumes "0 < I" "i < j" "j < length (bars_from I tape None (bucket_indices I tape))"
  shows "bar_end (bars_from I tape None (bucket_indices I tape) ! i) \<le> bar_start (bars_from I tape None (bucket_indices I tape) ! j)"
proof -
  have "bucket_indices I tape ! i < bucket_indices I tape ! j"
    using sorted_bucket_indices assms(2,3) by (simp add: sorted_wrt_iff_nth_less)
  then have "(bucket_indices I tape ! i + 1) * I \<le> bucket_indices I tape ! j * I" using assms(1) by (intro mult_right_mono) simp_all
  with assms show ?thesis by (simp add: bars_from_nth distrib_right)
qed

subsection \<open>The accounts of an envelope\<close>

lemma replaces_used_count:
  "replaces_used env history =
     int (length (filter (\<lambda>e. ev_event_type e = Event_ENVELOPE_ACTION \<and> ev_envelope_id e = Some (en_id env) \<and> budget_action e) history))"
proof (induction history rule: rev_induct)
  case Nil
  then show ?case by (simp add: replaces_used_def project_envelope_replaces_used_def)
next
  case (snoc e history)
  have "replaces_used env (history @ [e]) =
      replaces_used env history + (if ev_event_type e = Event_ENVELOPE_ACTION \<and> ev_envelope_id e = Some (en_id env) \<and> budget_action e
        then 1 else 0)"
    by (auto simp: replaces_used_def project_envelope_replaces_used_def split: option.splits)
  with snoc show ?case by auto
qed

lemma set_own_actions:
  "e \<in> set (own_actions ts_init env history) \<longleftrightarrow>
     e \<in> set history \<and> ev_envelope_id e = Some (en_id env) \<and> ev_event_type e = Event_ENVELOPE_ACTION"
  by (auto simp: own_actions_def)

lemma le_last: "sorted xs \<Longrightarrow> x \<in> set xs \<Longrightarrow> x \<le> last xs" for x :: "'a :: linorder"
  by (induction xs) auto

lemma last_action_latest:
  assumes "e \<in> set history" "ev_envelope_id e = Some (en_id env)" "ev_event_type e = Event_ENVELOPE_ACTION" "working_action e"
  shows "\<exists>t. last_action_at ts_init (own_actions ts_init env history) = Some t \<and> event_time ts_init e \<le> t"
proof -
  let ?w = "filter working_action (own_actions ts_init env history)"
  have e: "e \<in> set ?w" using assms by (simp add: set_own_actions)
  then have ne: "?w \<noteq> []" by (metis empty_iff list.set(1))
  have "sorted (map (event_time ts_init) ?w)" unfolding own_actions_def by (intro sorted_filter) simp
  then have "event_time ts_init e \<le> event_time ts_init (last ?w)"
    using le_last [of "map (event_time ts_init) ?w" "event_time ts_init e"] e ne by (simp add: last_map)
  with ne show ?thesis by (auto simp: last_action_at_def Let_def)
qed

lemma last_action_member:
  assumes "last_action_at ts_init (own_actions ts_init env history) = Some t"
  shows "\<exists>e \<in> set history. ev_envelope_id e = Some (en_id env) \<and> ev_event_type e = Event_ENVELOPE_ACTION \<and> working_action e \<and>
    event_time ts_init e = t"
proof -
  let ?w = "filter working_action (own_actions ts_init env history)"
  have "?w \<noteq> []" "t = event_time ts_init (last ?w)" using assms by (auto simp: last_action_at_def Let_def split: if_splits)
  moreover from this have "last ?w \<in> set ?w" by (intro last_in_set)
  ultimately show ?thesis by (auto simp: set_own_actions)
qed

text \<open>The rails in one line each.\<close>

definition rested :: "(execution_event \<Rightarrow> instant) \<Rightarrow> execution_envelope \<Rightarrow> execution_event list \<Rightarrow> instant \<Rightarrow> bool" where
  "rested ts_init env history now \<longleftrightarrow>
     (\<forall>e \<in> set history. ev_envelope_id e = Some (en_id env) \<and> ev_event_type e = Event_ENVELOPE_ACTION \<and> working_action e \<longrightarrow>
        cooldown env \<le> now - event_time ts_init e)"

lemma rested_iff:
  "(case last_action_at ts_init (own_actions ts_init env history) of Some t \<Rightarrow> now - t < cooldown env | None \<Rightarrow> False) \<longleftrightarrow>
     \<not> rested ts_init env history now"
proof (cases "last_action_at ts_init (own_actions ts_init env history)")
  case None
  then have "rested ts_init env history now"
    unfolding rested_def using last_action_latest by (metis option.distinct(1))
  with None show ?thesis by simp
next
  case (Some t)
  have "now - t < cooldown env \<longleftrightarrow> \<not> rested ts_init env history now"
  proof
    assume "now - t < cooldown env"
    moreover obtain e where "e \<in> set history" "ev_envelope_id e = Some (en_id env)" "ev_event_type e = Event_ENVELOPE_ACTION"
      "working_action e" "event_time ts_init e = t" using last_action_member [OF Some] by blast
    ultimately show "\<not> rested ts_init env history now" unfolding rested_def by (metis not_less)
  next
    assume "\<not> rested ts_init env history now"
    then obtain e where e: "e \<in> set history" "ev_envelope_id e = Some (en_id env)" "ev_event_type e = Event_ENVELOPE_ACTION"
      "working_action e" "now - event_time ts_init e < cooldown env" unfolding rested_def by (metis not_less)
    from last_action_latest [OF e(1-4), of ts_init] Some have "event_time ts_init e \<le> t" by simp
    with e(5) show "now - t < cooldown env" by linarith
  qed
  with Some show ?thesis by simp
qed

lemma validate_action_None:
  "validate_action zone ts_init env a history now = None \<longleftrightarrow>
     now < dl_at (en_expires_at env) \<and> phase_allowed zone env now \<and> \<not> float_less (pa_limit_price a) (en_floor_price env) \<and>
     0 < pa_quantity a \<and> pa_quantity a \<le> remaining_of env \<and> rested ts_init env history now \<and>
     (pa_kind a = ACTION_REPRICE \<longrightarrow> replaces_used env history < en_cancel_replace_budget env)"
  unfolding validate_action_def rested_iff by auto

subsection \<open>What a planned action rests on\<close>

lemma gate_action_Planned:
  assumes "gate_action zone ts_init env history now ws desired = Planned a"
  shows "a = desired\<lparr>pa_kind := (if live_working_order_id (own_actions ts_init env history) history \<noteq> None then ACTION_REPRICE
      else pa_kind desired)\<rparr>"
    "validate_action zone ts_init env a history now = None"
  using assms by (auto simp: gate_action_def Let_def observing_def split: if_splits option.splits)

lemma stop_exit_Ok:
  "stop_exit env actions history bid urgency ws absorbable = Ok a \<Longrightarrow>
     pa_kind a = ACTION_SUBMIT \<and> pa_limit_price a = bid \<and> \<not> pa_tranche a \<and> pa_stop_triggered a \<and> pa_working_stop a = ws_stop ws"
  by (auto simp: stop_exit_def Let_def bind_res_eq_Inr)

lemma desired_action_Some:
  assumes "desired_action env actions history tape last_price bid urgency ws absorbable = Ok (Inr (Some a))"
  shows "pa_kind a = ACTION_SUBMIT \<and> pa_limit_price a = bid \<and> pa_working_stop a = ws_stop ws \<and>
    (pa_tranche a \<longrightarrow> \<not> tranche_taken actions) \<and>
    (pa_stop_triggered a \<longleftrightarrow> \<not> pa_tranche a) \<and>
    (pa_stop_triggered a \<longleftrightarrow> (\<exists>stop \<in> set_option (ws_stop ws). float_le last_price stop))"
proof (cases "\<exists>stop \<in> set_option (ws_stop ws). float_le last_price stop")
  case True
  then show ?thesis using assms by (auto simp: desired_action_def bind_res_eq_Inr dest: stop_exit_Ok)
next
  case False
  then have "\<not> tranche_taken actions" and "\<exists>shares. a = tranche_exit bid urgency ws shares"
    using assms unfolding desired_action_def by (auto simp: bind_res_eq_Inr split: option.splits if_splits)
  then show ?thesis using False by (auto simp: tranche_exit_def)
qed

lemma invalid_reasons_Nil:
  "snapshot_invalid_reasons (Some s) = [] \<longleftrightarrow>
     \<not> mkt_stale s \<and> finite_positive (mkt_last_price s) \<and> finite_volume (mkt_volume s) \<and>
     (\<exists>b a. mkt_bid s = Some b \<and> mkt_ask s = Some a \<and> finite_positive (Some b) \<and> finite_positive (Some a) \<and> float_less b a)"
  by (cases "mkt_bid s"; cases "mkt_ask s")
    (auto simp: snapshot_invalid_reasons_def finite_positive_def float_finite_iff not_float_less [symmetric])

lemma not_planned [simp]:
  "idle r \<noteq> Planned a" "observing r t ws \<noteq> Planned a"
  by (simp_all add: idle_def observing_def)

lemma desired_action_early:
  "desired_action env actions history tape last_price bid urgency ws absorbable = Ok (Inl d) \<Longrightarrow> d \<noteq> Planned a"
  by (auto simp: desired_action_def bind_res_eq_Inr split: if_splits option.splits)

definition wanted ::
  "(instant \<Rightarrow> int) \<Rightarrow> (execution_event \<Rightarrow> instant) \<Rightarrow> execution_envelope \<Rightarrow> market_snapshot list \<Rightarrow> instant \<Rightarrow> execution_event list \<Rightarrow>
   working_stop_result \<Rightarrow> planned_action \<Rightarrow> bool" where
  "wanted zone ts_init env snapshots now history ws desired \<longleftrightarrow>
     (\<exists>absorbable. desired_action env (own_actions ts_init env history) history (screened_tape env snapshots)
        (the (mkt_last_price (last snapshots))) (the (mkt_bid (last snapshots))) (urgency_at zone env now) ws absorbable =
          Ok (Inr (Some desired)))"

lemma decide_on_tape_Planned:
  assumes "decide_on_tape zone ts_init env snapshots now history = Ok (Planned a)"
  shows "\<exists>ws desired. tick_working_stop zone env snapshots now = Ok ws \<and>
    wanted zone ts_init env snapshots now history ws desired \<and> gate_action zone ts_init env history now ws desired = Planned a"
proof -
  obtain bars ws absorbable outcome where r:
      "aggregate_bars (screened_tape env snapshots) BAR_INTERVAL = Ok bars" "tape_working_stop zone env bars now = Ok ws"
      "desired_action env (own_actions ts_init env history) history (screened_tape env snapshots)
        (the (mkt_last_price (last snapshots))) (the (mkt_bid (last snapshots))) (urgency_at zone env now) ws absorbable = Ok outcome"
      "(case outcome of Inl early \<Rightarrow> early | Inr None \<Rightarrow> observing MONITORING None ws
         | Inr (Some desired) \<Rightarrow> gate_action zone ts_init env history now ws desired) = Planned a"
    using assms unfolding decide_on_tape_def Let_def by (auto simp: bind_res_eq_Inr split: if_splits)
  show ?thesis
  proof (cases outcome)
    case (Inl d)
    then show ?thesis using r(3,4) desired_action_early by fastforce
  next
    case (Inr d)
    then show ?thesis
      using r by (cases d) (auto simp: tick_working_stop_def wanted_def)
  qed
qed

lemma decide_Planned:
  assumes "decide zone ts_init env snapshots now history = Ok (Planned a)"
  shows "en_status env = Envelope_ACTIVE \<and> snapshots \<noteq> [] \<and> snapshot_invalid_reasons (Some (last snapshots)) = [] \<and>
    decide_on_tape zone ts_init env snapshots now history = Ok (Planned a)"
proof -
  have "en_status env = Envelope_ACTIVE \<and> snapshot_invalid_reasons (if snapshots = [] then None else Some (last snapshots)) = [] \<and>
      decide_on_tape zone ts_init env snapshots now history = Ok (Planned a)"
    using assms by (auto simp: decide_def Let_def split: if_splits)
  then show ?thesis by (cases "snapshots = []") (simp add: snapshot_invalid_reasons_def, simp)
qed

lemma planned_action_facts:
  assumes "decide zone ts_init env snapshots now history = Ok (Planned a)"
  shows "\<exists>ws. tick_working_stop zone env snapshots now = Ok ws \<and>
    pa_limit_price a = the (mkt_bid (last snapshots)) \<and> pa_working_stop a = ws_stop ws \<and>
    (pa_tranche a \<longrightarrow> \<not> tranche_taken (own_actions ts_init env history)) \<and>
    (pa_stop_triggered a \<longleftrightarrow> \<not> pa_tranche a) \<and>
    (pa_stop_triggered a \<longleftrightarrow> (\<exists>stop \<in> set_option (ws_stop ws). float_le (the (mkt_last_price (last snapshots))) stop)) \<and>
    (pa_kind a = ACTION_REPRICE \<longleftrightarrow> live_working_order_id (own_actions ts_init env history) history \<noteq> None) \<and>
    validate_action zone ts_init env a history now = None"
proof -
  obtain ws desired where d: "tick_working_stop zone env snapshots now = Ok ws"
      "wanted zone ts_init env snapshots now history ws desired" "gate_action zone ts_init env history now ws desired = Planned a"
    using decide_on_tape_Planned decide_Planned [OF assms] by blast
  obtain absorbable where w: "desired_action env (own_actions ts_init env history) history (screened_tape env snapshots)
        (the (mkt_last_price (last snapshots))) (the (mkt_bid (last snapshots))) (urgency_at zone env now) ws absorbable =
          Ok (Inr (Some desired))"
    using d(2) unfolding wanted_def by blast
  note a = gate_action_Planned [OF d(3)]
  show ?thesis
    using d(1) desired_action_Some [OF w] a(2) by (intro exI [of _ ws]) (auto simp: a(1))
qed

subsection \<open>Staging\<close>

lemma stage_divergence_applies:
  assumes "en_status env = Envelope_ACTIVE"
  shows "\<exists>frozen e sp dv au. stage_divergence env rail detail payload fingerprint now =
    Stage_Divergence (Envelope_Apply frozen e sp) dv au \<and> en_status frozen = Envelope_FROZEN"
proof -
  have "Envelope_FROZEN \<in> ENVELOPE_TRANSITIONS (en_status env)" using assms by simp
  then obtain env' e sp where p: "plan_envelope_transition env Envelope_FROZEN ''engine'' (Some (''plan_divergence:'' @ rail)) None
      now False False = Envelope_Apply env' e sp"
    using plan_envelope_transition_applies [of Envelope_FROZEN env] assms by fastforce
  with plan_envelope_transition_Apply(1) [OF p] show ?thesis by (simp add: stage_divergence_def)
qed

lemma stage_Staged:
  "plan_stage_envelope_action zone ts_init detail_text price_text order_id created env a history working_order session_id
     fingerprint actor now position = Stage_Staged ord e sp \<longleftrightarrow>
   en_status env = Envelope_ACTIVE \<and> structural_detail a working_order = None \<and>
   validate_action zone ts_init env a history now = None \<and> (\<forall>p \<in> set_option position. pa_quantity a \<le> max 0 p) \<and>
   ord = staged_order order_id created env a working_order session_id \<and>
   e = staged_event env a ord session_id fingerprint actor now \<and> sp = staged_spec price_text env a ord session_id"
  by (auto simp: plan_stage_envelope_action_def Let_def refused_stale_def stage_divergence_def split: option.splits
    envelope_plan.splits)

subsection \<open>The claim of a staged action\<close>

lemma staged_event_simps [simp]:
  "ev_event_type (staged_event env a ord s f actor now) = Event_ENVELOPE_ACTION"
  "ev_envelope_id (staged_event env a ord s f actor now) = Some (en_id env)"
  "ev_order_id (staged_event env a ord s f actor now) = Some (or_id ord)"
  "event_time ts_init (staged_event env a ord s f actor now) = now"
  "ev_payload (staged_event env a ord s f actor now) ''action'' = Some (PStr (action_kind_value (pa_kind a)))"
  by (simp_all add: staged_event_def event_time_def draft_event_def action_payload_def)

lemma replayed_kind: "pa_kind (replayed_action ord (staged_event env a ord' s f actor now)) = pa_kind a"
  by (cases "pa_kind a") (simp_all add: replayed_action_def)

lemma price_or_zero_less: "float_less (price_or_zero (Some x)) f \<longleftrightarrow> float_less x f"
proof (cases "float_zero x")
  case True
  then show ?thesis
    by (drule_tac float_zero_cases) (auto simp: price_or_zero_def float_zero_def float_less_def float_nan_def float_magnitude_def
      float_key_def FLOAT_ZERO_def float_make_def FLOAT_INF_BITS_def)
qed (simp add: price_or_zero_def)

text \<open>Two histories that agree on the actions of an envelope.\<close>

definition same_actions :: "execution_envelope \<Rightarrow> execution_event list \<Rightarrow> execution_event list \<Rightarrow> bool" where
  "same_actions env h h' \<longleftrightarrow>
     filter (\<lambda>e. ev_event_type e = Event_ENVELOPE_ACTION \<and> ev_envelope_id e = Some (en_id env)) h =
     filter (\<lambda>e. ev_event_type e = Event_ENVELOPE_ACTION \<and> ev_envelope_id e = Some (en_id env)) h'"

lemma same_actions_rested: "same_actions env h h' \<Longrightarrow> rested ts_init env h now \<longleftrightarrow> rested ts_init env h' now"
  unfolding same_actions_def rested_def by (metis (mono_tags, lifting) mem_Collect_eq set_filter)

lemma same_actions_used: "same_actions env h h' \<Longrightarrow> replaces_used env h = replaces_used env h'"
proof -
  assume "same_actions env h h'"
  then have "filter budget_action (filter (\<lambda>e. ev_event_type e = Event_ENVELOPE_ACTION \<and> ev_envelope_id e = Some (en_id env)) h) =
      filter budget_action (filter (\<lambda>e. ev_event_type e = Event_ENVELOPE_ACTION \<and> ev_envelope_id e = Some (en_id env)) h')"
    by (simp only: same_actions_def)
  then show ?thesis by (simp add: replaces_used_count conj_commute conj_left_commute)
qed

lemma rested_mono: "rested ts_init env h now \<Longrightarrow> now \<le> now' \<Longrightarrow> rested ts_init env h now'"
  unfolding rested_def by (meson diff_right_mono order_trans)

end
