(* ===== verification/Float_Exact.thy ===== *)
theory Float_Exact
  imports Float_Ops
begin

text \<open>
  Whole numbers below \<open>2 ^ 53\<close> are floats, and their sums, differences, products and exact
  quotients are computed without rounding, so a concrete run over whole prices can be followed exactly.
\<close>

subsection \<open>Whole numbers compute exactly\<close>

definition float_of_int :: "int \<Rightarrow> float64" where
  "float_of_int n = float_round (n < 0) (\<bar>n\<bar> * FLOAT_SCALE) 1"

lemma float_scale_pos: "0 < FLOAT_SCALE"
  by (simp add: FLOAT_SCALE_def)

lemma round_half_even_cancel:
  assumes "0 < q"
  shows "round_half_even (p * q) (m * q) = round_half_even p m"
proof -
  have "2 * (p mod m * q) > m * q \<longleftrightarrow> 2 * (p mod m) > m"
    using mult_less_cancel_right_pos [OF assms, of m "2 * (p mod m)"] by (simp only: mult.assoc)
  moreover have "2 * (p mod m * q) = m * q \<longleftrightarrow> 2 * (p mod m) = m"
    using mult_cancel_right [of "2 * (p mod m)" q m] assms by (simp only: mult.assoc) simp
  ultimately show ?thesis
    using assms by (simp add: round_half_even_def Let_def mod_mult_mult2)
qed

lemma round_bits_cancel: "0 < q \<Longrightarrow> round_bits (p * q) q = round_bits p 1"
  using round_half_even_cancel [of q p "2 ^ (bit_len (nat p) - 53)"]
  by (simp add: round_bits_def round_shift_def mult.commute [of q])

lemma float_of_int_facts:
  assumes "\<bar>n\<bar> < 2 ^ 53"
  shows "int_to_float n = Ok (float_of_int n)" "float_units (float_of_int n) = n * FLOAT_SCALE"
    "float_finite (float_of_int n)" "float_negative (float_of_int n) \<longleftrightarrow> n < 0"
proof -
  obtain x where x: "int_to_float n = Ok x" "float_units x = n * FLOAT_SCALE" using int_to_float_exact [OF assms] by blast
  have "(2 :: int) ^ 53 < 2 ^ 1023" by (rule power_strict_increasing) simp_all
  with assms have b: "\<bar>n\<bar> < 2 ^ 1023" by (rule less_trans)
  obtain y where y: "int_to_float n = Ok y" "float_finite y" using int_to_float_Ok [OF b] by blast
  have "x = float_of_int n"
    using x(1) unfolding int_to_float_def finite_result_def float_of_int_def require_def by (metis Inl_Inr_False Inr_inject)
  with x y show "int_to_float n = Ok (float_of_int n)" "float_units (float_of_int n) = n * FLOAT_SCALE"
    "float_finite (float_of_int n)" by simp_all
  show "float_negative (float_of_int n) \<longleftrightarrow> n < 0"
    unfolding float_of_int_def by (rule float_round_parts) (simp_all add: less_imp_le float_scale_pos)
qed

lemma float_of_int_zero: "float_of_int 0 = FLOAT_ZERO"
  by (simp add: float_of_int_def float_round_def round_bits_def round_shift_def round_half_even_def FLOAT_ZERO_def
    FLOAT_INF_BITS_def)

lemma scaled:
  "(m * FLOAT_SCALE < 0) = (m < 0)" "\<bar>m * FLOAT_SCALE\<bar> = \<bar>m\<bar> * FLOAT_SCALE" "(m * FLOAT_SCALE = 0) = (m = 0)"
  using float_scale_pos by (simp_all add: mult_less_0_iff abs_mult)

lemma add_units:
  assumes "float_finite a" "float_finite b" "float_units a = m * FLOAT_SCALE" "float_units b = n * FLOAT_SCALE"
    "\<not> (float_negative a \<and> float_negative b) \<or> m + n \<noteq> 0"
  shows "float_add a b = float_of_int (m + n)"
proof -
  have s: "float_units a + float_units b = (m + n) * FLOAT_SCALE" by (simp add: assms(3,4) distrib_right)
  have f: "float_add a b = (if m + n = 0 then float_make (float_negative a \<and> float_negative b) 0 else float_of_int (m + n))"
    using assms(1,2) unfolding float_add_def Let_def s float_finite_iff scaled float_of_int_def by simp
  show ?thesis
  proof (cases "m + n = 0")
    case True
    then have "(float_negative a \<and> float_negative b) = False" using assms(5) by simp
    with f True have "float_add a b = FLOAT_ZERO" by (simp only: FLOAT_ZERO_def if_True simp_thms)
    with True show ?thesis by (simp add: float_of_int_zero)
  qed (simp add: f)
qed


lemma float_add_of_int:
  "\<bar>m\<bar> < 2 ^ 53 \<Longrightarrow> \<bar>n\<bar> < 2 ^ 53 \<Longrightarrow> float_add (float_of_int m) (float_of_int n) = float_of_int (m + n)"
  by (rule add_units) (auto simp: float_of_int_facts)

lemma magnitude_bounds: "0 \<le> float_magnitude x" "float_magnitude x < 2 ^ 63"
  by (simp_all add: float_magnitude_def)

lemma float_neg_parts:
  "float_negative (float_neg x) \<longleftrightarrow> \<not> float_negative x" "float_magnitude (float_neg x) = float_magnitude x"
  "float_units (float_neg x) = - float_units x" "float_finite (float_neg x) \<longleftrightarrow> float_finite x"
proof -
  note p = float_make_parts [OF magnitude_bounds, of "\<not> float_negative x" x, folded float_neg_def]
  then show "float_negative (float_neg x) \<longleftrightarrow> \<not> float_negative x" "float_magnitude (float_neg x) = float_magnitude x" .
  from p show "float_units (float_neg x) = - float_units x" "float_finite (float_neg x) \<longleftrightarrow> float_finite x"
    by (simp_all add: float_units_def float_finite_iff float_nan_def float_infinite_def)
qed

lemma float_sub_of_int:
  assumes "\<bar>m\<bar> < 2 ^ 53" "\<bar>n\<bar> < 2 ^ 53"
  shows "float_sub (float_of_int m) (float_of_int n) = float_of_int (m - n)"
proof -
  have "float_add (float_of_int m) (float_neg (float_of_int n)) = float_of_int (m + - n)"
    by (rule add_units) (use assms in \<open>auto simp: float_of_int_facts float_neg_parts\<close>)
  then show ?thesis
    using float_of_int_facts(3) [OF assms(2)] by (simp add: float_sub_def float_finite_iff)
qed

lemma float_abs_of_int: "float_abs (float_of_int n) = float_of_int \<bar>n\<bar>"
proof -
  have "float_magnitude (float_of_int n) = round_bits (\<bar>n\<bar> * FLOAT_SCALE) 1"
    unfolding float_of_int_def by (rule float_round_parts) (simp_all add: less_imp_le float_scale_pos)
  then show ?thesis by (simp add: float_abs_def float_of_int_def [of "\<bar>n\<bar>"] float_round_def)
qed

lemma float_mul_of_int:
  assumes "0 \<le> m" "m < 2 ^ 53" "0 \<le> n" "n < 2 ^ 53"
  shows "float_mul (float_of_int m) (float_of_int n) = float_of_int (m * n)"
proof -
  have "round_bits \<bar>m * FLOAT_SCALE * (n * FLOAT_SCALE)\<bar> FLOAT_SCALE = round_bits (\<bar>m * n\<bar> * FLOAT_SCALE) 1"
    using round_bits_cancel [OF float_scale_pos, of "\<bar>m * n\<bar> * FLOAT_SCALE"] float_scale_pos
    by (simp add: abs_mult mult.assoc mult.left_commute)
  moreover have "\<not> m * n < 0" using assms by (simp add: not_less)
  ultimately show ?thesis
    using assms float_of_int_facts [of m] float_of_int_facts [of n]
    by (simp add: float_mul_def Let_def float_finite_iff float_of_int_def float_round_def)
qed

lemma float_units_zero: "float_zero x \<Longrightarrow> float_units x = 0"
  by (simp add: float_zero_def float_units_def magnitude_units_def)

lemma float_div_of_int:
  assumes "0 \<le> m" "0 < n" "n < 2 ^ 53" "m * n < 2 ^ 53"
  shows "float_div (float_of_int (m * n)) (float_of_int n) = Ok (float_of_int m)"
proof -
  define c where "c = m * n"
  have c: "0 \<le> c" "c < 2 ^ 53" using assms by (simp_all add: c_def)
  have z: "\<not> float_zero (float_of_int n)"
    using float_units_zero [of "float_of_int n"] float_of_int_facts(2) [of n] assms(2,3) float_scale_pos by auto
  have "round_bits (c * FLOAT_SCALE * FLOAT_SCALE) (n * FLOAT_SCALE) = round_bits (m * FLOAT_SCALE) 1"
    using round_bits_cancel [of "n * FLOAT_SCALE" "m * FLOAT_SCALE"] assms(2) float_scale_pos
    by (simp add: c_def mult.assoc mult.left_commute)
  then show ?thesis
    using z c assms(1-3) float_of_int_facts [of c] float_of_int_facts [of n] less_imp_le [OF float_scale_pos]
    by (simp add: float_div_def Let_def float_finite_iff float_of_int_def [of m] float_round_def c_def [symmetric] abs_mult)
qed

lemma int_truediv_of_int:
  assumes "0 \<le> m" "m < 2 ^ 53" "0 < n"
  shows "int_truediv (m * n) n = Ok (float_of_int m)"
proof -
  have "round_bits (\<bar>m * n\<bar> * FLOAT_SCALE) \<bar>n\<bar> = round_bits (\<bar>m\<bar> * FLOAT_SCALE) 1"
    using round_bits_cancel [OF assms(3), of "\<bar>m\<bar> * FLOAT_SCALE"] assms by (simp add: abs_mult mult.commute mult.left_commute)
  moreover have "\<not> m * n < 0" "\<not> m < 0" using assms by (simp_all add: not_less)
  ultimately show ?thesis
    using assms float_of_int_facts(1) [of m] by (simp add: int_truediv_def int_to_float_def float_round_def)
qed

text \<open>The pattern of a small number.\<close>

lemma bit_len_scaled: "0 < n \<Longrightarrow> bit_len (n * 2 ^ k) = bit_len n + k"
proof (induction k)
  case (Suc k)
  have "bit_len (n * 2 ^ Suc k) = Suc (bit_len (n * 2 ^ k))"
    by (subst bit_len.simps) (simp add: Suc.prems)
  with Suc show ?case by simp
qed simp

lemma float_of_int_pattern:
  assumes "0 < n" "n < 2 ^ 53"
  shows "float_of_int n = word_of_int (int (bit_len (nat n) + 1021) * 2 ^ 52 + n * 2 ^ (53 - bit_len (nat n)))"
proof -
  have len: "bit_len (nat n) \<le> 53" by (rule bit_len_le) (use assms in \<open>simp add: nat_less_iff\<close>)
  have "nat (n * FLOAT_SCALE) = nat n * 2 ^ 1074" using assms(1) by (simp add: nat_mult_distrib FLOAT_SCALE_def nat_power_eq)
  then have k: "round_shift (n * FLOAT_SCALE) 1 = bit_len (nat n) + 1021"
    using bit_len_scaled [of "nat n" 1074] assms(1) by (simp add: round_shift_def)
  have "n * FLOAT_SCALE = n * 2 ^ (53 - bit_len (nat n)) * 2 ^ (bit_len (nat n) + 1021)"
    using len by (simp only: FLOAT_SCALE_def mult.assoc power_add [symmetric]) simp
  then have r: "round_half_even (n * FLOAT_SCALE) (2 ^ (bit_len (nat n) + 1021)) = n * 2 ^ (53 - bit_len (nat n))"
    by (simp only: round_half_even_exact zero_less_power zero_less_numeral)
  have fin: "round_bits (n * FLOAT_SCALE) 1 < FLOAT_INF_BITS"
  proof -
    have "n * FLOAT_SCALE < 2 ^ (53 + 1074) * 1" using assms by (simp only: FLOAT_SCALE_def power_add) simp
    then show ?thesis by (rule round_bits_finite [rotated 2]) (use assms float_scale_pos in \<open>simp_all add: less_imp_le\<close>)
  qed
  have "round_bits (n * FLOAT_SCALE) 1 = int (bit_len (nat n) + 1021) * 2 ^ 52 + n * 2 ^ (53 - bit_len (nat n))"
    using fin unfolding round_bits_def Let_def k mult_1 r by (simp add: min_def split: if_splits)
  with assms show ?thesis by (simp add: float_of_int_def float_round_def float_make_def)
qed

end
