(* ===== verification/Sellside_Properties.thy ===== *)
theory Sellside_Properties
  imports Sellside_Rails Float_Exact
begin

text \<open>
  The properties of the sell side: what a planned order may be, what the trailing stop and the bars
  promise, and that planning, staging and claiming agree. A concrete tick that plans an order witnesses
  them.
\<close>

section \<open>The sell side\<close>

subsection \<open>A tick that sells\<close>

text \<open>
  Sixteen bars between 100 and 101 at an average true range of one put the stop two below the high, and
  a last price of 99 is at the stop.
\<close>

definition EX_START :: instant where "EX_START = 1767625200000000"

definition ex_row :: "nat \<Rightarrow> int \<Rightarrow> float64 option \<Rightarrow> market_snapshot" where
  "ex_row i second price =
     \<lparr>mkt_symbol = ''AAPL'', mkt_last_price = price, mkt_bid = Some 0x4058C00000000000, mkt_ask = Some 0x4059800000000000,
      mkt_volume = Some FLOAT_ZERO, mkt_prev_close = None, mkt_updated_at = EX_START + int i * BAR_INTERVAL + second * SECOND,
      mkt_stale = False\<rparr>"

definition ex_last :: market_snapshot where
  "ex_last = ex_row 16 1 (Some 0x4058C00000000000)"

definition ex_tape :: "market_snapshot list" where
  "ex_tape = concat (map (\<lambda>i. [ex_row i 1 (Some 0x4059000000000000), ex_row i 2 None,
     ex_row i 3 (Some 0x4059400000000000), ex_row i 4 None]) [0 ..< 16]) @ [ex_last]"

definition ex_clean :: "market_snapshot list" where
  "ex_clean = concat (map (\<lambda>i. [ex_row i 1 (Some 0x4059000000000000),
     ex_row i 3 (Some 0x4059400000000000)]) [0 ..< 16]) @ [ex_last]"

definition ex_rails_env :: execution_envelope where
  "ex_rails_env = \<lparr>en_id = ''e1'', en_sell_intent_id = ''i1'', en_symbol = ''AAPL'', en_side = Side_SELL,
     en_reduce_only = True, en_qty_ceiling = 10, en_remaining_quantity = Some 10, en_floor_price = 0x4056800000000000,
     en_trail_distance_min = FLOAT_ONE, en_trail_distance_max = FLOAT_TWO, en_participation_rate_cap = FLOAT_HALF,
     en_aggressiveness = [], en_cooldown_floor_ms = 1000, en_cancel_replace_budget = 5, en_max_outstanding_children = 1,
     en_expires_at = \<lparr>dl_at = EX_START + 16 * BAR_INTERVAL + HOUR, dl_aware = True, dl_isoformat = ''''\<rparr>,
     en_allowed_session_phases = [REGULAR], en_expiry_disposition = CANCEL_AND_RETURN,
     en_stale_data_disposition = LEAVE_RESTING, en_status = Envelope_ACTIVE, en_supersedes_id = None,
     en_superseded_by_id = None, en_session_id = None, en_updated_at = EX_START, en_timestamps = Map.empty\<rparr>"

definition ex_bar :: "nat \<Rightarrow> bar" where
  "ex_bar i = \<lparr>bar_start = EX_START + int i * BAR_INTERVAL, bar_end = EX_START + int i * BAR_INTERVAL + BAR_INTERVAL,
     bar_open = 0x4059000000000000, bar_high = 0x4059400000000000, bar_low = 0x4059000000000000,
     bar_close = 0x4059400000000000, bar_volume = FLOAT_ZERO\<rparr>"

definition ex_open_bar :: bar where
  "ex_open_bar = (ex_bar 16)\<lparr>bar_open := 0x4058C00000000000, bar_high := 0x4058C00000000000,
     bar_low := 0x4058C00000000000, bar_close := 0x4058C00000000000\<rparr>"

lemma marked_calm: "successively (\<lambda>p c. \<not> suspect_step p c) w \<Longrightarrow> marked w = map (Pair False) w"
proof -
  assume "successively (\<lambda>p c. \<not> suspect_step p c) w"
  then have calm: "\<not> (i > 0 \<and> suspect_step (w ! (i - 1)) (w ! i))" if "i < length w" for i
    using that by (cases i) (simp_all add: successively_conv_nth)
  have "map (\<lambda>i. i > 0 \<and> suspect_step (w ! (i - 1)) (w ! i)) [0 ..< length w] = map (\<lambda>i. False) [0 ..< length w]"
    by (rule map_cong [OF refl]) (use calm in force)
  then show ?thesis unfolding marked_def by (simp only: map_replicate_const length_upt zip_replicate1) simp
qed

lemma ex_row_gap [simp]: "\<not> suspect_step (ex_row i s None) r" "\<not> suspect_step r (ex_row i s None)"
  by (simp_all add: suspect_step_def ex_row_def split: option.splits)

lemma ex_positive [simp]: "finite_positive (Some 0x4058C00000000000)" "finite_positive (Some 0x4059000000000000)"
    "finite_positive (Some 0x4059400000000000)" "finite_positive (Some 0x4059800000000000)"
    "finite_volume (Some FLOAT_ZERO)" "float_less (0x4058C00000000000) (0x4059800000000000)"
    "float_le (0x4058C00000000000) (0x4058C00000000000)"
  by code_simp+

lemma ex_row_valid [simp]:
  "snapshot_invalid_reasons (Some (ex_row i s p)) = [] \<longleftrightarrow> finite_positive p" "mkt_last_price (ex_row i s p) = p"
  "mkt_volume (ex_row i s p) = Some FLOAT_ZERO" "mkt_bid (ex_row i s p) = Some 0x4058C00000000000"
  unfolding invalid_reasons_Nil by (simp_all add: ex_row_def)

lemma not_finite_positive_None [simp]: "\<not> finite_positive None"
  by (simp add: finite_positive_def)

lemma ex_window: "active_window ex_rails_env ex_tape = ex_tape"
  by (simp add: active_window_def ex_rails_env_def)

lemma ex_calm: "successively (\<lambda>p c. \<not> suspect_step p c) ex_tape"
  by (simp add: ex_tape_def ex_last_def upt_rec)

lemma ex_screened: "screened_tape ex_rails_env ex_tape = ex_clean"
  unfolding screened_tape_def ex_window marked_calm [OF ex_calm]
  by (simp add: ex_tape_def ex_clean_def ex_last_def upt_rec)

lemma ex_row_at [simp]:
  "0 \<le> s \<Longrightarrow> s < 30 \<Longrightarrow> mkt_updated_at (ex_row i s p) div BAR_INTERVAL = 58920840 + int i"
  by (simp add: ex_row_def EX_START_def BAR_INTERVAL_def SECOND_def)

lemma ex_indices: "bucket_indices BAR_INTERVAL ex_clean = map (\<lambda>i. 58920840 + int i) [0 ..< 17]"
  by (simp add: bucket_indices_def ex_clean_def ex_last_def upt_rec)

lemma ex_row_order [simp]:
  "mkt_updated_at (ex_row i s p) \<le> mkt_updated_at (ex_row i t q) \<longleftrightarrow> s \<le> t"
  by (simp add: ex_row_def SECOND_def)

lemma ex_compare [simp]:
  "float_less 0x4059000000000000 0x4059400000000000" "\<not> float_less 0x4059400000000000 0x4059000000000000"
  by code_simp+

lemma zero_minus_zero [simp]: "float_sub FLOAT_ZERO FLOAT_ZERO = FLOAT_ZERO"
  using float_sub_of_int [of 0 0] by (simp add: float_of_int_zero)

lemma zero_compare [simp]: "float_le FLOAT_ZERO FLOAT_ZERO" "\<not> float_less FLOAT_ZERO FLOAT_ZERO"
  by code_simp+

lemma ex_volume [simp]: "bucket_volume p (FLOAT_ZERO # replicate n FLOAT_ZERO) = FLOAT_ZERO" if "p \<in> {None, Some FLOAT_ZERO}"
  using that by (auto simp: bucket_volume_def Let_def float_max_def)

lemma concat_only: "concat (map (\<lambda>j. if j = i then g j else []) [0 ..< n]) = (if i < n then g i else [])"
  by (induction n) auto

lemma ex_bucket [simp]:
  "i < 16 \<Longrightarrow> bucket_rows BAR_INTERVAL ex_clean (58920840 + int i) =
     [ex_row i 1 (Some 0x4059000000000000), ex_row i 3 (Some 0x4059400000000000)]"
  "bucket_rows BAR_INTERVAL ex_clean (58920840 + 16) = [ex_last]"
proof -
  have rows: "filter (\<lambda>s. finite_positive (mkt_last_price s) \<and> mkt_updated_at s div BAR_INTERVAL = 58920840 + int i) ex_clean =
      concat (map (\<lambda>j. if j = i then [ex_row j 1 (Some 0x4059000000000000), ex_row j 3 (Some 0x4059400000000000)] else [])
        [0 ..< 16]) @ (if i = 16 then [ex_last] else [])" for i
  proof -
    have "(\<lambda>j. filter (\<lambda>s. finite_positive (mkt_last_price s) \<and> mkt_updated_at s div BAR_INTERVAL = 58920840 + int i)
        [ex_row j 1 (Some 0x4059000000000000), ex_row j 3 (Some 0x4059400000000000)]) =
      (\<lambda>j. if j = i then [ex_row j 1 (Some 0x4059000000000000), ex_row j 3 (Some 0x4059400000000000)] else [])"
      by (rule ext) simp
    then show ?thesis by (simp only: ex_clean_def filter_append filter_concat map_map comp_def) (simp add: ex_last_def)
  qed
  show "i < 16 \<Longrightarrow> bucket_rows BAR_INTERVAL ex_clean (58920840 + int i) =
     [ex_row i 1 (Some 0x4059000000000000), ex_row i 3 (Some 0x4059400000000000)]"
    unfolding bucket_rows_def rows concat_only by simp
  show "bucket_rows BAR_INTERVAL ex_clean (58920840 + 16) = [ex_last]"
    using rows [of 16] unfolding bucket_rows_def concat_only by simp
qed

lemma ex_bars_from:
  "n \<le> 16 \<Longrightarrow> p \<in> {None, Some FLOAT_ZERO} \<Longrightarrow>
     bars_from BAR_INTERVAL ex_clean p (map (\<lambda>i. 58920840 + int i) [16 - n ..< 17]) = map ex_bar [16 - n ..< 16] @ [ex_open_bar]"
proof (induction n arbitrary: p)
  case 0
  have "row_prices [ex_last] = [0x4058C00000000000]" "row_cums [ex_last] = [FLOAT_ZERO]"
    by (simp_all add: row_prices_def row_cums_def ex_last_def map_filter_def)
  then show ?case
    using 0 ex_volume [of p 0] ex_bucket(2)
    by (simp add: upt_rec ex_open_bar_def ex_bar_def bar_of_def floats_max_def floats_min_def EX_START_def BAR_INTERVAL_def SECOND_def)
next
  case (Suc n)
  define i where "i = 16 - Suc n"
  have i: "i < 16" "[16 - Suc n ..< 17] = i # [16 - n ..< 17]" "[16 - Suc n ..< 16] = i # [16 - n ..< 16]"
    using Suc.prems(1) upt_conv_Cons [of i 17] upt_conv_Cons [of i 16] Suc_diff_Suc [of n 16]
    by (simp_all add: i_def)
  have "row_prices (bucket_rows BAR_INTERVAL ex_clean (58920840 + int i)) = [0x4059000000000000, 0x4059400000000000]"
    "row_cums (bucket_rows BAR_INTERVAL ex_clean (58920840 + int i)) = [FLOAT_ZERO, FLOAT_ZERO]"
    using i(1) by (simp_all add: row_prices_def row_cums_def map_filter_def)
  moreover have "bar_of BAR_INTERVAL (58920840 + int i) [0x4059000000000000, 0x4059400000000000] FLOAT_ZERO = ex_bar i"
    by (simp add: ex_bar_def bar_of_def floats_max_def floats_min_def float_max_def float_min_def EX_START_def BAR_INTERVAL_def
      SECOND_def)
  ultimately show ?case
    using Suc.IH [of "Some FLOAT_ZERO"] Suc.prems ex_volume [of p 1] unfolding i(2,3) by (simp del: ex_bucket)
qed

lemma ex_bars: "aggregate_bars ex_clean BAR_INTERVAL = Ok (map ex_bar [0 ..< 16] @ [ex_open_bar])"
  using ex_bars_from [of 16 None] bar_interval by (simp add: aggregate_bars_def ex_indices)


lemma ex_prices:
  "0x4058C00000000000 = float_of_int 99" "0x4059000000000000 = float_of_int 100" "0x4059400000000000 = float_of_int 101"
  "FLOAT_ONE = float_of_int 1" "FLOAT_TWO = float_of_int 2"
  by (simp_all add: float_of_int_pattern bit_len.simps FLOAT_ONE_def FLOAT_TWO_def)

lemma ex_true_range: "true_range (ex_bar i, ex_bar j) = float_of_int 1"
proof -
  have "float_sub 0x4059000000000000 0x4059400000000000 = float_of_int (- 1)"
    "float_sub 0x4059400000000000 0x4059000000000000 = float_of_int 1"
    "float_sub 0x4059400000000000 0x4059400000000000 = float_of_int 0"
    unfolding ex_prices by (simp_all add: float_sub_of_int)
  moreover have "\<not> float_less (float_of_int 1) (float_of_int 0)" "\<not> float_less (float_of_int 1) (float_of_int 1)"
    unfolding ex_prices [symmetric] float_of_int_zero by code_simp+
  ultimately show ?thesis
    by (simp add: true_range_def ex_bar_def floats_max_def float_max_def float_abs_of_int)
qed

abbreviation ex_zone :: "instant \<Rightarrow> int" where
  "ex_zone t \<equiv> - (5 * HOUR)"

lemma ex_number_order [simp]:
  "\<not> float_less (float_of_int 99) (float_of_int 99)" "\<not> float_less (float_of_int 101) (float_of_int 101)"
  "\<not> float_less (float_of_int 2) (float_of_int 0)" "\<not> float_less (float_of_int 2) (float_of_int 1)"
  "\<not> float_less (float_of_int 2) (float_of_int 2)" "float_less (float_of_int 1) (float_of_int 2)"
  "\<not> float_le (float_of_int 1) (float_of_int 0)"
  unfolding ex_prices [symmetric] float_of_int_zero by code_simp+

lemma ex_fields [simp]:
  "bar_high (ex_bar i) = float_of_int 101" "bar_low (ex_bar i) = float_of_int 100" "bar_close (ex_bar i) = float_of_int 101"
  "bar_end (ex_bar 15) = EX_START + 16 * BAR_INTERVAL"
  by (simp_all add: ex_bar_def ex_prices)

lemma sum_of_ones: "m + n \<le> 100 \<Longrightarrow> foldl float_add (float_of_int (int m)) (replicate n (float_of_int 1)) = float_of_int (int (m + n))"
proof (induction n arbitrary: m)
  case (Suc n)
  then show ?case using Suc.IH [of "Suc m"] by (simp add: float_add_of_int add.commute [of 1])
qed simp

lemma ex_ranges: "map true_range (zip (map ex_bar is) (map ex_bar js)) = replicate (min (length is) (length js)) (float_of_int 1)"
  by (auto simp: list_eq_iff_nth_eq ex_true_range)

lemma ex_atr: "atr (map ex_bar [0 ..< 16]) TRAIL_ATR_PERIOD = Some (float_of_int 1)"
proof -
  let ?bars = "map ex_bar [0 ..< 16]"
  have trs: "float_sub (bar_high (hd ?bars)) (bar_low (hd ?bars)) # map true_range (zip ?bars (tl ?bars)) =
      replicate (Suc 15) (float_of_int 1)"
    using ex_ranges [of "[0 ..< 16]" "[1 ..< 16]"] unfolding replicate_Suc by (simp add: map_tl [symmetric] tl_upt float_sub_of_int hd_map)
  have "float_sum (replicate 14 (float_of_int 1)) = float_of_int 14"
    using sum_of_ones [of 0 14] by (simp add: float_sum_def float_of_int_zero)
  moreover have "float_over_int (float_of_int 14) 14 = Ok (float_of_int 1)"
    using float_div_of_int [of 1 14] float_of_int_facts(1) [of 14] by (simp add: float_over_int_def)
  ultimately show ?thesis
    unfolding atr_def Let_def trs TRAIL_ATR_PERIOD_def by (simp add: last_n_def unguarded_def del: replicate_Suc)
qed

lemma ex_step:
  "step_candidate ex_rails_env (map ex_bar [0 ..< 16]) (float_of_int 0) = Ok c \<Longrightarrow> ts_candidate c = Some (float_of_int 99)"
proof -
  let ?bars = "map ex_bar [0 ..< 16]"
  have "atr (take 8 ?bars) 14 = None" by (simp add: atr_def)
  then have "classify ?bars x (atr (take (length ?bars - CLASSIFY_ATR_SHORT) ?bars) CLASSIFY_ATR_BASELINE) = Ok UNCERTAIN" for x
    by (simp add: classify_def CLASSIFY_ATR_SHORT_def CLASSIFY_ATR_BASELINE_def split: option.splits)
  moreover have "pullback_tightened ?bars = Ok False"
    by (simp add: pullback_tightened_def Let_def fade_flag_def FADE_WINDOW_def last_map)
  moreover have "floats_max (map bar_high ?bars) = float_of_int 101"
  proof -
    have "foldl float_max (float_of_int 101) (replicate n (float_of_int 101)) = float_of_int 101" for n
      by (induction n) (simp_all add: float_max_def)
    moreover have "map bar_high ?bars = float_of_int 101 # replicate 15 (float_of_int 101)"
      by (simp add: list_eq_iff_nth_eq nth_Cons split: nat.splits)
    ultimately show ?thesis by (simp add: floats_max_def)
  qed
  moreover have "fst (trail_distance ex_rails_env ?bars (float_of_int 0) (float_of_int 1) (float_of_int 101) UNCERTAIN False) =
      float_of_int 2"
  proof -
    have "en_trail_distance_min ex_rails_env = float_of_int 1" "en_trail_distance_max ex_rails_env = float_of_int 2"
      by (simp_all add: ex_rails_env_def ex_prices(4,5))
    then show ?thesis
      by (simp add: trail_distance_def Let_def trail_multiple_def float_sub_of_int float_mul_of_int float_max_def float_min_def)
  qed
  ultimately show "step_candidate ex_rails_env ?bars (float_of_int 0) = Ok c \<Longrightarrow> ts_candidate c = Some (float_of_int 99)"
    using ex_atr
    by (auto simp: step_candidate_def Let_def MIN_CLASSIFY_BARS_def float_of_int_zero [symmetric] bind_res_eq_Inr float_sub_of_int
      split: prod.splits)
qed

lemma ex_urgency: "urgency_at ex_zone ex_rails_env (EX_START + 16 * BAR_INTERVAL) = float_of_int 0"
proof -
  have "session_context ex_zone (EX_START + 16 * BAR_INTERVAL) =
      \<lparr>sc_phase = Some REGULAR, sc_time_to_phase_close = Some (5 * HOUR + 52 * MINUTE)\<rparr>"
    by code_simp
  moreover have "int_truediv HOUR URGENCY_RAMP = Ok (float_of_int 2)"
    using int_truediv_of_int [of 2 URGENCY_RAMP] by (simp add: HOUR_def URGENCY_RAMP_def MINUTE_def SECOND_def)
  moreover have "HOUR < 5 * HOUR + 52 * MINUTE" by code_simp
  ultimately show ?thesis
    by (simp add: urgency_at_def Let_def ex_rails_env_def HOUR_def [symmetric] unguarded_def float_max_def float_min_def
      del: less_add_same_cancel1 add: ex_prices(4) float_of_int_zero [symmetric] float_sub_of_int)
qed

definition EX_NOW :: instant where
  "EX_NOW = EX_START + 16 * BAR_INTERVAL + SECOND"

lemma ex_stop: "\<exists>ws. tick_working_stop ex_zone ex_rails_env ex_tape EX_NOW = Ok ws \<and> ws_stop ws = Some (float_of_int 99)"
proof -
  let ?bars = "map ex_bar [0 ..< 16] @ [ex_open_bar]"
  obtain c where c: "step_candidate ex_rails_env (map ex_bar [0 ..< 16]) (float_of_int 0) = Ok c"
    using total_Ok [OF step_candidate_total] by blast
  have open_bar: "bar_end ex_open_bar > EX_NOW"
    by (simp add: ex_open_bar_def ex_bar_def EX_NOW_def BAR_INTERVAL_def SECOND_def)
  have step: "ratchet_step ex_rails_env ?bars u (Some (urgency_at ex_zone ex_rails_env)) 16 None = Ok (Some (float_of_int 99))" for u
    using c ex_step [OF c] by (simp add: ratchet_step_def Let_def nth_append ex_urgency ratchet_def)
  obtain ws where ws: "tape_working_stop ex_zone ex_rails_env ?bars EX_NOW = Ok ws"
    using total_Ok [OF compute_working_stop_total] unfolding tape_working_stop_def by blast
  have "ws_stop ws = Some (float_of_int 99)"
    using ws open_bar unfolding tape_working_stop_def compute_working_stop_def
    by (auto simp: MIN_CLASSIFY_BARS_def step Let_def bind_res_eq_Inr)
  with ws show ?thesis by (simp add: tick_working_stop_def ex_screened ex_bars)
qed

lemma no_volume:
  "\<forall>s \<in> set tape. mkt_volume s = Some FLOAT_ZERO \<Longrightarrow> snd ` set (vw_observations w) \<subseteq> {FLOAT_ZERO} \<Longrightarrow>
     recent_volume (foldl (\<lambda>w s. observe w (mkt_updated_at s) (mkt_volume s)) w tape) = FLOAT_ZERO"
proof (induction tape arbitrary: w)
  case Nil
  have "foldl (\<lambda>acc (a, b). let delta = float_sub b a in if float_positive delta then float_add acc delta else acc)
      FLOAT_ZERO (zip xs ys) = FLOAT_ZERO" if "set xs \<subseteq> {FLOAT_ZERO}" "set ys \<subseteq> {FLOAT_ZERO}" for xs ys
    using that by (induction xs ys rule: list_induct2') (auto simp: float_positive_def)
  moreover have "set (map snd (vw_observations w)) \<subseteq> {FLOAT_ZERO}" using Nil by auto
  moreover from this have "set (tl (map snd (vw_observations w))) \<subseteq> {FLOAT_ZERO}" by (cases "vw_observations w") auto
  ultimately show ?case by (simp add: recent_volume_def Let_def)
next
  case (Cons s tape)
  have "snd ` set (vw_observations (observe w (mkt_updated_at s) (mkt_volume s))) \<subseteq> {FLOAT_ZERO}"
    using Cons.prems by (auto simp: observe_def)
  with Cons show ?case by simp
qed

lemma ex_absorbable: "absorbable_size ex_rails_env ex_clean = Ok 0"
proof -
  have "\<forall>s \<in> set ex_clean. mkt_volume s = Some FLOAT_ZERO" by (auto simp: ex_clean_def ex_last_def)
  from no_volume [OF this] show ?thesis by (simp add: absorbable_size_def participation_size_def)
qed

lemma ex_planned:
  "\<exists>a. decide ex_zone (\<lambda>e. 0) ex_rails_env ex_tape EX_NOW [] = Ok (Planned a) \<and> pa_kind a = ACTION_SUBMIT \<and>
     pa_limit_price a = float_of_int 99 \<and> pa_quantity a = 1 \<and> \<not> pa_tranche a"
proof -
  obtain ws where ws: "tick_working_stop ex_zone ex_rails_env ex_tape EX_NOW = Ok ws" "ws_stop ws = Some (float_of_int 99)"
    using ex_stop by blast
  then have tws: "tape_working_stop ex_zone ex_rails_env (map ex_bar [0 ..< 16] @ [ex_open_bar]) EX_NOW = Ok ws"
    by (simp add: tick_working_stop_def ex_screened ex_bars)
  define a where "a = \<lparr>pa_kind = ACTION_SUBMIT, pa_limit_price = float_of_int 99, pa_quantity = 1, pa_regime = Some (ws_regime ws),
     pa_urgency = urgency_at ex_zone ex_rails_env EX_NOW, pa_working_stop = ws_stop ws, pa_atr = ws_atr ws, pa_tranche = False,
     pa_stop_triggered = True, pa_clamps = ws_clamps ws @ [\<lparr>cn_field = ''participation'', cn_computed = float_of_int 0,
       cn_clamped_to = float_of_int 1\<rparr>]\<rparr>"
  have last: "last ex_tape = ex_last" "ex_tape \<noteq> []" by (simp_all add: ex_tape_def)
  have price: "mkt_last_price ex_last = Some (float_of_int 99)" "mkt_bid ex_last = Some (float_of_int 99)"
    by (simp_all add: ex_last_def ex_prices)
  have le: "float_le (float_of_int 99) (float_of_int 99)" unfolding ex_prices(1) [symmetric] by simp
  have floor_ok: "\<not> float_less (float_of_int 99) (en_floor_price ex_rails_env)"
    unfolding ex_prices(1) [symmetric] by code_simp
  have remaining: "remaining_of ex_rails_env = 10" by (simp add: remaining_of_def ex_rails_env_def)
  have phase: "phase_allowed ex_zone ex_rails_env EX_NOW" "EX_NOW < dl_at (en_expires_at ex_rails_env)" by code_simp+
  have "desired_action ex_rails_env [] [] ex_clean (float_of_int 99) (float_of_int 99) (urgency_at ex_zone ex_rails_env EX_NOW) ws 0 =
      Ok (Inr (Some a))"
    using ws(2) le float_of_int_facts(1) [of 0] float_of_int_facts(1) [of 1]
    by (simp add: desired_action_def stop_exit_def Let_def remaining rejected_probe_count_def a_def)
  moreover have "gate_action ex_zone (\<lambda>e. 0) ex_rails_env [] EX_NOW ws a = Planned a"
    using phase floor_ok
    by (simp add: gate_action_def Let_def own_actions_def last_action_at_def live_working_order_id_def a_def validate_action_def remaining)
  ultimately have "decide_on_tape ex_zone (\<lambda>e. 0) ex_rails_env ex_tape EX_NOW [] = Ok (Planned a)"
    using tws by (simp add: decide_on_tape_def Let_def ex_screened ex_bars MIN_CLASSIFY_BARS_def ex_absorbable last price own_actions_def)
  moreover have "\<not> fst (last (marked (active_window ex_rails_env ex_tape)))"
    unfolding ex_window marked_calm [OF ex_calm] using last by (simp add: last_map)
  moreover have "en_status ex_rails_env = Envelope_ACTIVE" by (simp add: ex_rails_env_def)
  moreover have "snapshot_invalid_reasons (Some ex_last) = []" by (simp add: ex_last_def)
  ultimately have "decide ex_zone (\<lambda>e. 0) ex_rails_env ex_tape EX_NOW [] = Ok (Planned a)"
    using phase by (simp add: decide_def Let_def last remaining)
  then show ?thesis by (auto simp: a_def)
qed

subsection \<open>Properties\<close>

text \<open>
  C16. Every order that the policy plans is inside the envelope the operator approved. When a tick
  decides on an action, the envelope is active, its deadline has not passed, the session phase is an
  allowed one and the latest snapshot is fresh, finite, positive and uncrossed; the order is a limit at
  the bid, not below the floor, for at least one share and at most the remaining ceiling; every earlier
  order of the envelope is at least one cooldown old; it replaces an order exactly when one is live at
  the venue, and then the budget of replacements is not used up; it is a tranche only when none was
  taken, and otherwise the last price is at or below the working stop.
\<close>

theorem planned_action_within_rails:
  assumes "decide zone ts_init env snapshots now history = Ok (Planned a)"
  shows "en_status env = Envelope_ACTIVE \<and> now < dl_at (en_expires_at env) \<and> phase_allowed zone env now \<and>
    snapshot_invalid_reasons (Some (last snapshots)) = [] \<and>
    mkt_bid (last snapshots) = Some (pa_limit_price a) \<and> \<not> float_less (pa_limit_price a) (en_floor_price env) \<and>
    0 < pa_quantity a \<and> pa_quantity a \<le> remaining_of env \<and>
    rested ts_init env history now \<and>
    (pa_kind a = ACTION_REPRICE \<longleftrightarrow> live_working_order_id (own_actions ts_init env history) history \<noteq> None) \<and>
    \<not> (pa_kind a = ACTION_REPRICE \<and> en_cancel_replace_budget env \<le> replaces_used env history) \<and>
    \<not> (pa_tranche a \<and> tranche_taken (own_actions ts_init env history)) \<and>
    (\<not> pa_tranche a \<longleftrightarrow> (\<exists>stop p. pa_working_stop a = Some stop \<and> mkt_last_price (last snapshots) = Some p \<and> float_le p stop))"
proof -
  have d: "en_status env = Envelope_ACTIVE" "snapshot_invalid_reasons (Some (last snapshots)) = []"
    using decide_Planned [OF assms] by blast+
  obtain b p where b: "mkt_bid (last snapshots) = Some b" "mkt_last_price (last snapshots) = Some p"
    using d(2) unfolding invalid_reasons_Nil finite_positive_def by (auto split: option.splits)
  obtain ws :: working_stop_result where f: "pa_limit_price a = b" "pa_working_stop a = ws_stop ws"
      "pa_tranche a \<longrightarrow> \<not> tranche_taken (own_actions ts_init env history)"
      "pa_stop_triggered a \<longleftrightarrow> \<not> pa_tranche a" "pa_stop_triggered a \<longleftrightarrow> (\<exists>stop \<in> set_option (ws_stop ws). float_le p stop)"
      "pa_kind a = ACTION_REPRICE \<longleftrightarrow> live_working_order_id (own_actions ts_init env history) history \<noteq> None"
      "validate_action zone ts_init env a history now = None"
    using planned_action_facts [OF assms] unfolding b option.sel by blast
  show ?thesis
    using d b f(1-6) f(7) [unfolded validate_action_None] by (auto simp: not_le)
qed

theorem planned_action_within_rails_witness:
  "\<exists>a. decide ex_zone (\<lambda>e. 0) ex_rails_env ex_tape EX_NOW [] = Ok (Planned a) \<and> pa_quantity a \<le> 10 \<and>
    (\<exists>stop. pa_working_stop a = Some stop) \<and> pa_kind a = ACTION_SUBMIT"
proof -
  obtain a where a: "decide ex_zone (\<lambda>e. 0) ex_rails_env ex_tape EX_NOW [] = Ok (Planned a)" "pa_kind a = ACTION_SUBMIT"
      "\<not> pa_tranche a" "pa_quantity a = 1"
    using ex_planned by blast
  have "\<exists>stop. pa_working_stop a = Some stop"
    using planned_action_within_rails [OF a(1)] a(3) by blast
  with a show ?thesis by (intro exI [of _ a]) simp
qed

text \<open>
  C23. The working stop only rises. Whatever the market does, no tick raises an error, and when the
  tape has only grown at its end the stop of the later tick is the earlier stop or a greater one, once
  there is a stop: the ratchet takes completed bars only, and a completed bar never changes.
\<close>

theorem working_stop_only_rises:
  assumes "\<forall>s \<in> set old. mkt_updated_at s \<le> now" "\<forall>s \<in> set new. now \<le> mkt_updated_at s" "now \<le> now'"
  shows "\<exists>r r'. tick_working_stop zone env old now = Ok r \<and> tick_working_stop zone env (old @ new) now' = Ok r' \<and>
    (ws_stop r = None \<or>
     (\<exists>s s'. ws_stop r = Some s \<and> ws_stop r' = Some s' \<and> (s' = s \<or> float_less s s')))"
  using tick_stop_risen [OF assms, of zone env] unfolding risen_def at_least_def by (metis option.exhaust)

theorem working_stop_only_rises_witness:
  "\<exists>r' s'. tick_working_stop ex_zone ex_rails_env (ex_tape @ [ex_row 17 0 None]) (EX_NOW + BAR_INTERVAL) = Ok r' \<and>
    ws_stop r' = Some s' \<and> (s' = float_of_int 99 \<or> float_less (float_of_int 99) s')"
proof -
  have "\<forall>s \<in> set ex_tape. mkt_updated_at s \<le> EX_NOW"
    by (auto simp: ex_tape_def ex_last_def ex_row_def EX_NOW_def BAR_INTERVAL_def SECOND_def)
  moreover have "\<forall>s \<in> set [ex_row 17 0 None]. EX_NOW \<le> mkt_updated_at s"
    by (simp add: ex_row_def EX_NOW_def BAR_INTERVAL_def SECOND_def)
  moreover have "EX_NOW \<le> EX_NOW + BAR_INTERVAL" by (simp add: BAR_INTERVAL_def SECOND_def)
  ultimately show ?thesis
    using working_stop_only_rises [of ex_tape EX_NOW "[ex_row 17 0 None]" "EX_NOW + BAR_INTERVAL" ex_zone ex_rails_env] ex_stop
    by fastforce
qed



text \<open>
  C27. Planning and writing agree. An action that the policy has planned on a history is staged when
  the store checks it against the same history, provided the working order of the store is live exactly
  when the history says so and then has a venue id: the staged order sells that quantity at that
  price and replaces the working order exactly for a reprice. The only other outcome is a position
  smaller than the order, which freezes the envelope; the planner and the writer never differ on a
  rail.
\<close>

theorem decided_action_is_staged:
  assumes "decide zone ts_init env snapshots now history = Ok (Planned a)"
    and "stage_working_live working \<longleftrightarrow> live_working_order_id (own_actions ts_init env history) history \<noteq> None"
    and "stage_working_live working \<Longrightarrow> \<exists>ord. working = Some ord \<and> or_broker_order_id ord \<noteq> None"
  shows "plan_stage_envelope_action zone ts_init detail_text price_text order_id created env a history working session_id
      fingerprint actor now position =
    (if \<exists>p. position = Some p \<and> max 0 p < pa_quantity a
     then stage_divergence env ''reduce_only'' (detail_text ''reduce_only'') (action_payload a) fingerprint now
     else Stage_Staged (staged_order order_id created env a working session_id)
            (staged_event env a (staged_order order_id created env a working session_id) session_id fingerprint actor now)
            (staged_spec price_text env a (staged_order order_id created env a working session_id) session_id))"
proof -
  have "en_status env = Envelope_ACTIVE" using decide_Planned [OF assms(1)] by blast
  moreover have v: "validate_action zone ts_init env a history now = None" "pa_kind a = ACTION_REPRICE \<longleftrightarrow> stage_working_live working"
    using planned_action_facts [OF assms(1)] assms(2) by auto
  then have "structural_detail a working = None"
    using assms(3) by (auto simp: structural_detail_def)
  ultimately show ?thesis
    using v(1) by (auto simp: plan_stage_envelope_action_def Let_def not_le)
qed

theorem decided_action_is_staged_witness:
  "\<exists>a ord e spec. decide ex_zone (\<lambda>e. 0) ex_rails_env ex_tape EX_NOW [] = Ok (Planned a) \<and>
    plan_stage_envelope_action ex_zone (\<lambda>e. 0) id (\<lambda>p. []) ''o1'' EX_NOW ex_rails_env a [] None None [] ''engine'' EX_NOW (Some 10) =
      Stage_Staged ord e spec"
proof -
  obtain a where a: "decide ex_zone (\<lambda>e. 0) ex_rails_env ex_tape EX_NOW [] = Ok (Planned a)" "pa_quantity a = 1"
    using ex_planned by blast
  have "stage_working_live None \<longleftrightarrow> live_working_order_id (own_actions (\<lambda>e. 0) ex_rails_env []) [] \<noteq> None"
    by (simp add: stage_working_live_def own_actions_def live_working_order_id_def)
  from decided_action_is_staged [OF a(1) this] a show ?thesis by (simp add: stage_working_live_def)
qed



end
