(* ===== verification/Obligation_Properties.thy ===== *)
theory Obligation_Properties
  imports Obligation_Correct Sellside_Properties
begin

text \<open>
  The properties of the obligation of an envelope: that at most one child may go to the venue, that a
  released delegation has nothing live, and that a staged order goes once. The order that the example tick
  of \<^verbatim>\<open>Sellside_Properties\<close> stages witnesses them.
\<close>

section \<open>The obligation of an envelope\<close>

subsection \<open>Claims, releases and acknowledgements of one child\<close>

lemma text_after_last_colon: "CHR '':'' \<notin> set t \<Longrightarrow> after_last_colon (s @ CHR '':'' # t) = t"
proof -
  assume "CHR '':'' \<notin> set t"
  then have "takeWhile (\<lambda>c. c \<noteq> CHR '':'') (rev t @ CHR '':'' # rev s) = rev t"
    by (subst takeWhile_append2) auto
  then show ?thesis by (simp add: after_last_colon_def)
qed

lemma zero_key: "show_nat 0 = ''0''" "python_int ''0'' = Some 0"
  by code_simp+

definition claim_event :: "order_row \<Rightarrow> execution_event" where
  "claim_event ord = order_event ord Event_SUBMIT_PENDING Source_ENGINE Authority_LOCAL (''submit_pending:'' @ or_id ord @ '':0'')"

definition release_event :: "order_row \<Rightarrow> execution_event" where
  "release_event ord = order_event ord Event_SUBMIT_RELEASED Source_ENGINE Authority_LOCAL (''release:'' @ or_id ord @ '':0'')"

abbreviation broker_event :: "order_row \<Rightarrow> execution_event_type \<Rightarrow> string \<Rightarrow> execution_event" where
  "broker_event ord t key \<equiv> order_event ord t Source_BROKER_REST Authority_BROKER_AUTHORITATIVE key"

lemma order_event_fields [simp]:
  "ev_event_type (order_event ord t s a k) = t" "ev_source (order_event ord t s a k) = s"
  "ev_authority (order_event ord t s a k) = a" "ev_dedupe_key (order_event ord t s a k) = Some k"
  "ev_symbol (order_event ord t s a k) = Some (or_symbol ord)" "ev_side (order_event ord t s a k) = Some (or_side ord)"
  "ev_order_id (order_event ord t s a k) = Some (or_id ord)" "ev_session_id (order_event ord t s a k) = or_session_id ord"
  "ev_payload (order_event ord t s a k) = Map.empty" "ev_sequence (order_event ord t s a k) = 0"
  "ev_envelope_id (order_event ord t s a k) = None" "ev_correlation_id (order_event ord t s a k) = None"
  by (simp_all add: order_event_def draft_event_def)

lemma claim_event_fields [simp]:
  "ev_event_type (claim_event ord) = Event_SUBMIT_PENDING" "ev_event_type (release_event ord) = Event_SUBMIT_RELEASED"
  "ev_order_id (claim_event ord) = Some (or_id ord)" "ev_order_id (release_event ord) = Some (or_id ord)"
  "ev_sequence (claim_event ord) = 0" "ev_sequence (release_event ord) = 0"
  by (simp_all add: claim_event_def release_event_def)

lemma occurrence_of_events [simp]:
  "claim_occurrence_from_event (claim_event ord) = Some 0" "claim_occurrence_from_event (release_event ord) = Some 0"
  "t \<notin> {Event_SUBMIT_PENDING, Event_SUBMIT_RELEASED} \<Longrightarrow> claim_occurrence_from_event (broker_event ord t k) = None"
proof -
  have "after_last_colon (s @ or_id ord @ '':0'') = ''0''" for s
    using text_after_last_colon [of "''0''" "s @ or_id ord"] by simp
  from this [of "''submit_pending:''"] this [of "''release:''"]
  show "claim_occurrence_from_event (claim_event ord) = Some 0" "claim_occurrence_from_event (release_event ord) = Some 0"
    by (simp_all add: claim_event_def release_event_def claim_occurrence_from_event_def zero_key(2))
  show "t \<notin> {Event_SUBMIT_PENDING, Event_SUBMIT_RELEASED} \<Longrightarrow> claim_occurrence_from_event (broker_event ord t k) = None"
    by (simp add: claim_occurrence_from_event_def)
qed


text \<open>An order within its envelope, and the action that staged it.\<close>

definition child_of :: "execution_envelope \<Rightarrow> execution_event \<Rightarrow> order_row \<Rightarrow> bool" where
  "child_of env e ord \<longleftrightarrow>
     ev_event_type e = Event_ENVELOPE_ACTION \<and> ev_order_id e = Some (or_id ord) \<and> ev_envelope_id e = Some (en_id env) \<and>
     ev_payload e ''action'' = Some (PStr ''submit'') \<and> \<not> outside_envelope env e \<and> child_row_valid env e ord \<and>
     or_replaces_order_id ord = None \<and> or_symbol ord = en_symbol env \<and> or_side ord = Side_SELL \<and>
     or_session_id ord = en_session_id env"

lemma provenance_of_events [simp]:
  "child_lifecycle_provenance_is_valid (claim_event ord)" "child_lifecycle_provenance_is_valid (release_event ord)"
  "t \<in> {Event_SUBMITTED, Event_FILLED} \<Longrightarrow> child_lifecycle_provenance_is_valid (broker_event ord t k)"
  by (auto simp: claim_event_def release_event_def child_lifecycle_provenance_is_valid_def LOCAL_CHILD_LIFECYCLE_EVENTS_def local_fact_def broker_fact_def
    BROKER_EVENT_SOURCES_def)

lemma scope_of_events:
  assumes "child_of env e ord"
  shows "\<not> outside_child_scope env (claim_event ord)" "\<not> outside_child_scope env (release_event ord)"
    "t \<notin> {Event_SUBMIT_PENDING, Event_SUBMIT_RELEASED} \<Longrightarrow> \<not> outside_child_scope env (broker_event ord t k)"
  using assms
    occurrence_of_events(1,2) [of ord, unfolded claim_event_def release_event_def]
  by (simp_all add: outside_child_scope_def child_of_def claim_event_def release_event_def)

lemma child_folds:
  assumes "child_of env e ord"
  shows "child_fold env [claim_event ord] NO_INTERVALS =
      Some (NO_INTERVALS\<lparr>ci_known := {0}, ci_claim_sequence := [0 \<mapsto> 0], ci_next := 1, ci_latest := Some 0, ci_claims := {0}\<rparr>)"
    "\<exists>c. child_fold env [claim_event ord, release_event ord] NO_INTERVALS = Some c \<and> ci_claims c = {} \<and> ci_venue c = {}"
    "\<exists>c. child_fold env [claim_event ord, broker_event ord Event_SUBMITTED k] NO_INTERVALS = Some c \<and>
       ci_claims c = {} \<and> ci_venue c = {Some 0}"
    "\<exists>c. child_fold env [claim_event ord, broker_event ord Event_SUBMITTED k, broker_event ord Event_FILLED k'] NO_INTERVALS = Some c \<and>
       ci_claims c = {} \<and> ci_venue c = {}"
  by (simp_all add: child_step_def Let_def scope_of_events [OF assms] NO_INTERVALS_def named_or_latest_def close_claims_def
    BROKER_WORKING_EVENTS_def BROKER_TERMINAL_EVENTS_def)

lemma status_of_row: "child_row_valid env e (ord\<lparr>or_status := st\<rparr>) = child_row_valid env e ord"
  by (simp add: child_row_valid_def action_shape_invalid_def cong: option.case_cong pyval.case_cong)

lemma obligation_of_child:
  assumes "child_of env e ord" "en_status env \<notin> {Envelope_COMPLETED, Envelope_SUPERSEDED}" "en_supersedes_id env = None"
    and "child_fold env es NO_INTERVALS = Some child"
      "\<forall>d \<in> set es. ev_order_id d = Some (or_id ord) \<and> ev_event_type d \<in> ENVELOPE_CHILD_LIFECYCLE_EVENTS"
  shows "let ob = project_envelope_obligation [env] [e] [or_id ord \<mapsto> ord\<lparr>or_status := st\<rparr>] es {} {} known;
      live = (ci_claims child \<noteq> {} \<or> ci_venue child \<noteq> {} \<or> \<not> order_terminal st)
     in ob_invalid ob = [] \<and> ob_missing_orders ob = [] \<and> ob_unresolved ob = (if live then [or_id ord] else []) \<and>
        ob_claimable ob = (if live \<and> st = Order_CREATED then [or_id ord] else []) \<and>
        ob_acknowledgeable ob = (if live \<and> st = Order_SUBMITTING \<and> card (ci_claims child) = 1 \<and> ci_venue child = {}
          then [or_id ord] else []) \<and>
        ob_uncertain_claims ob = (if ci_claims child \<noteq> {} then [or_id ord] else []) \<and>
        (ob_retains_intent ob \<longleftrightarrow> en_status env \<in> ENVELOPE_DELEGATING_STATUSES \<or> live)"
proof -
  have "child_row_valid env e (ord\<lparr>or_status := st\<rparr>)"
    using assms(1) by (simp add: child_of_def status_of_row)
  with single_obligation [of e "or_id ord" env "[or_id ord \<mapsto> ord\<lparr>or_status := st\<rparr>]" "ord\<lparr>or_status := st\<rparr>" es child known]
    assms
  show ?thesis by (simp add: child_of_def Let_def)
qed

lemma staged_child_of:
  assumes "plan_stage_envelope_action zone ts_init detail_text price_text order_id created env a history working (en_session_id env)
      fingerprint actor now position = Stage_Staged ord e spec"
    and "pa_kind a = ACTION_SUBMIT" "remaining_of env \<le> en_qty_ceiling env" "float_eq (pa_limit_price a) (pa_limit_price a)"
  shows "child_of env e ord \<and> en_status env = Envelope_ACTIVE \<and> or_status ord = Order_CREATED"
proof -
  have v: "validate_action zone ts_init env a history now = None" "en_status env = Envelope_ACTIVE"
    and ord: "ord = staged_order order_id created env a working (en_session_id env)"
    and e: "e = staged_event env a ord (en_session_id env) fingerprint actor now"
    using assms(1) unfolding stage_Staged by blast+
  have q: "0 < pa_quantity a" "pa_quantity a \<le> remaining_of env" "\<not> float_less (pa_limit_price a) (en_floor_price env)"
    using v(1) [unfolded validate_action_None] by auto
  have payload: "ev_payload e ''action'' = Some (PStr ''submit'')" "ev_payload e ''replaces_order_id'' = Some PNone"
    using assms(2) by (simp_all add: e ord staged_event_def action_payload_def draft_event_def staged_order_def opt_text_def)
  have "\<not> outside_envelope env e"
    using q assms(3) by (simp add: outside_envelope_def e staged_event_def draft_event_def local_fact_def)
  moreover have "child_row_valid env e ord"
    using q assms payload
    by (simp add: child_row_valid_def action_shape_invalid_def payload) (simp add: e ord staged_order_def staged_event_def draft_event_def opt_float_eq_def)
  ultimately show ?thesis
    using v(2) assms(2) payload
    by (simp add: child_of_def) (simp add: e ord staged_order_def staged_event_def draft_event_def)
qed


lemma staged_obligation:
  assumes "plan_stage_envelope_action zone ts_init detail_text price_text order_id created env a history working (en_session_id env)
      fingerprint actor now position = Stage_Staged ord e spec"
    and "pa_kind a = ACTION_SUBMIT" "remaining_of env \<le> en_qty_ceiling env" "float_eq (pa_limit_price a) (pa_limit_price a)"
    and "en_supersedes_id env = None"
  shows "let ob = (\<lambda>st es. project_envelope_obligation [env] [e] [or_id ord \<mapsto> ord\<lparr>or_status := st\<rparr>] es {} {} known);
        claim = claim_event ord; release = release_event ord; sent = broker_event ord Event_SUBMITTED k;
        filled = broker_event ord Event_FILLED k'
      in ob_claimable (ob Order_CREATED []) = [or_id ord] \<and> ob_acknowledgeable (ob Order_CREATED []) = [] \<and>
        ob_claimable (ob Order_SUBMITTING [claim]) = [] \<and> ob_acknowledgeable (ob Order_SUBMITTING [claim]) = [or_id ord] \<and>
        ob_uncertain_claims (ob Order_SUBMITTING [claim]) = [or_id ord] \<and>
        ob_claimable (ob Order_CREATED [claim, release]) = [or_id ord] \<and>
        ob_unresolved (ob Order_SUBMITTED [claim, sent]) = [or_id ord] \<and>
        ob_claimable (ob Order_SUBMITTED [claim, sent]) = [] \<and> ob_acknowledgeable (ob Order_SUBMITTED [claim, sent]) = [] \<and>
        ob_unresolved (ob Order_FILLED [claim, sent, filled]) = []"
proof -
  have c: "child_of env e ord" "en_status env = Envelope_ACTIVE" using staged_child_of [OF assms(1-4)] by blast+
  then have status: "en_status env \<notin> {Envelope_COMPLETED, Envelope_SUPERSEDED}" by simp
  note one = obligation_of_child [OF c(1) status assms(5), unfolded Let_def]
  have start: "child_fold env [] NO_INTERVALS = Some NO_INTERVALS" by simp
  obtain c2 where c2: "child_fold env [claim_event ord, release_event ord] NO_INTERVALS = Some c2"
      "ci_claims c2 = {}" "ci_venue c2 = {}" using child_folds(2) [OF c(1)] by blast
  obtain c3 where c3: "child_fold env [claim_event ord, broker_event ord Event_SUBMITTED k] NO_INTERVALS = Some c3"
      "ci_claims c3 = {}" "ci_venue c3 = {Some 0}" using child_folds(3) [OF c(1)] by blast
  obtain c4 where c4: "child_fold env [claim_event ord, broker_event ord Event_SUBMITTED k, broker_event ord Event_FILLED k']
      NO_INTERVALS = Some c4" "ci_claims c4 = {}" "ci_venue c4 = {}" using child_folds(4) [OF c(1)] by blast
  have in_set: "\<forall>d \<in> set es. ev_order_id d = Some (or_id ord) \<and> ev_event_type d \<in> ENVELOPE_CHILD_LIFECYCLE_EVENTS"
    if "set es \<subseteq> {claim_event ord, release_event ord, broker_event ord Event_SUBMITTED k, broker_event ord Event_FILLED k'}" for es
    using that by (auto simp: ENVELOPE_CHILD_LIFECYCLE_EVENTS_def dest!: subsetD)
  show ?thesis
    unfolding Let_def
    using one [OF start in_set, of Order_CREATED known] one [OF child_folds(1) [OF c(1)] in_set, of Order_SUBMITTING known]
      one [OF c2(1) in_set, of Order_CREATED known] one [OF c3(1) in_set, of Order_SUBMITTED known]
      one [OF c4(1) in_set, of Order_FILLED known]
    by (simp add: c2(2,3) c3(2,3) c4(2,3) order_terminal_def NO_INTERVALS_def)
qed

lemma routine_claim:
  assumes "or_status ord = Order_CREATED"
  shows "execution_event_for_routine_transition ord Order_SUBMITTING None (Some 0) = Inr (Some (claim_event ord))"
    "execution_event_for_routine_transition (ord\<lparr>or_status := Order_SUBMITTING\<rparr>) Order_CREATED None (Some 0) =
       Inr (Some (release_event ord))"
    "execution_event_for_routine_transition (ord\<lparr>or_status := Order_SUBMITTING\<rparr>) Order_SUBMITTED None None =
       Inr (Some (broker_event ord Event_SUBMITTED (order_status_value Order_SUBMITTED @ '':'' @ or_id ord)))"
    "execution_event_for_routine_transition (ord\<lparr>or_status := Order_SUBMITTED\<rparr>) Order_FILLED q None =
       Inr (Some (broker_event ord Event_FILLED (order_status_value Order_FILLED @ '':'' @ or_id ord)))"
  using assms
  by (simp_all add: execution_event_for_routine_transition_def routine_event_provenance_def claim_event_def release_event_def
    zero_key(1) SHARED_FORMAT_KEY_STATUSES_def order_event_def)


subsection \<open>An example\<close>

abbreviation ex_stage :: "planned_action \<Rightarrow> stage_plan" where
  "ex_stage a \<equiv> plan_stage_envelope_action ex_zone (\<lambda>e. 0) id (\<lambda>p. []) ''o1'' EX_NOW ex_rails_env a [] None
     (en_session_id ex_rails_env) [] ''engine'' EX_NOW (Some 10)"

lemma ex_staged:
  "\<exists>a ord e spec. ex_stage a = Stage_Staged ord e spec \<and> pa_kind a = ACTION_SUBMIT \<and>
    float_eq (pa_limit_price a) (pa_limit_price a) \<and> remaining_of ex_rails_env \<le> en_qty_ceiling ex_rails_env \<and>
    en_supersedes_id ex_rails_env = None \<and> pa_quantity a = 1"
proof -
  obtain a where a: "decide ex_zone (\<lambda>e. 0) ex_rails_env ex_tape EX_NOW [] = Ok (Planned a)" "pa_kind a = ACTION_SUBMIT"
      "pa_quantity a = 1" "pa_limit_price a = float_of_int 99"
    using ex_planned by blast
  have "validate_action ex_zone (\<lambda>e. 0) ex_rails_env a [] EX_NOW = None"
    using planned_action_facts [OF a(1)] by blast
  moreover have "float_eq (float_of_int 99) (float_of_int 99)" unfolding ex_prices(1) [symmetric] by code_simp
  ultimately show ?thesis
    using a(2-4)
    by (intro exI [of _ a] exI) (simp add: stage_Staged structural_detail_def stage_working_live_def, simp add: ex_rails_env_def remaining_of_def)
qed

lemma child_of_status: "child_of (env\<lparr>en_status := s\<rparr>) e ord = child_of env e ord"
  by (simp add: child_of_def child_row_valid_def outside_envelope_def cong: option.case_cong)

text \<open>The child that has been claimed, sent and filled, under an envelope that has expired.\<close>

lemma ex_released:
  assumes "child_of ex_rails_env e ord"
  shows "\<not> ob_retains_intent (project_envelope_obligation [ex_rails_env\<lparr>en_status := Envelope_EXPIRED\<rparr>] [e]
    [or_id ord \<mapsto> ord\<lparr>or_status := Order_FILLED\<rparr>]
    [claim_event ord, broker_event ord Event_SUBMITTED [], broker_event ord Event_FILLED []] {} {} Map.empty)"
proof -
  let ?env = "ex_rails_env\<lparr>en_status := Envelope_EXPIRED\<rparr>"
  have c: "child_of ?env e ord" using assms by (simp add: child_of_status)
  obtain c4 where c4: "child_fold ?env [claim_event ord, broker_event ord Event_SUBMITTED [], broker_event ord Event_FILLED []]
      NO_INTERVALS = Some c4" "ci_claims c4 = {}" "ci_venue c4 = {}" using child_folds(4) [OF c] by blast
  have "en_status ?env \<notin> {Envelope_COMPLETED, Envelope_SUPERSEDED}" "en_supersedes_id ?env = None"
    by (simp_all add: ex_rails_env_def)
  from obligation_of_child [OF c this c4(1), of Order_FILLED Map.empty]
  show ?thesis by (simp add: Let_def c4(2,3) order_terminal_def ENVELOPE_DELEGATING_STATUSES_def ENVELOPE_CHILD_LIFECYCLE_EVENTS_def)
qed

subsection \<open>Properties\<close>

text \<open>
  The comment at the terminal facts says that one without an occurrence is order-wide. The loop has put the
  latest claim in its place before, so it closes the interval of that claim alone; the projection of a direct
  sell order closes them all.
\<close>

lemma terminal_fact_closes_latest_interval:
  assumes "child_of env e ord"
  defines "again \<equiv> (claim_event ord)\<lparr>ev_dedupe_key := Some ''submit_pending:1''\<rparr>"
    and "sent \<equiv> broker_event ord Event_SUBMITTED []" and "filled \<equiv> broker_event ord Event_FILLED []"
  shows "\<exists>c d. child_fold env [claim_event ord, sent, again, sent, filled] NO_INTERVALS = Some c \<and> ci_venue c = {Some 0} \<and>
    direct_fold (ord\<lparr>or_sell_intent_id := None\<rparr>) [claim_event ord, sent, again, sent, filled] NO_DIRECT_INTERVALS = Some d \<and>
    di_venue d = {}"
proof -
  have one: "python_int (after_last_colon ''submit_pending:1'') = Some 1" by code_simp
  have again: "claim_occurrence_from_event again = Some 1" "child_lifecycle_provenance_is_valid again"
      "\<not> outside_child_scope env again" "ev_event_type again = Event_SUBMIT_PENDING" "ev_sequence again = 0"
      "ev_order_id again = Some (or_id ord)" "ev_payload again = Map.empty" "ev_symbol again = Some (or_symbol ord)"
      "ev_side again = Some Side_SELL" "ev_session_id again = or_session_id ord" "ev_correlation_id again = None"
    using assms(1) one
    by (simp_all add: again_def claim_event_def claim_occurrence_from_event_def outside_child_scope_def child_of_def
      child_lifecycle_provenance_is_valid_def LOCAL_CHILD_LIFECYCLE_EVENTS_def local_fact_def)
  have claim: "ev_payload (claim_event ord) = Map.empty" "ev_symbol (claim_event ord) = Some (or_symbol ord)"
      "ev_side (claim_event ord) = Some Side_SELL" "ev_session_id (claim_event ord) = or_session_id ord"
      "ev_correlation_id (claim_event ord) = None"
    using assms(1) by (simp_all add: claim_event_def child_of_def)
  show ?thesis
    using assms(1)
    by (simp add: child_step_def direct_step_def Let_def scope_of_events [OF assms(1)] NO_INTERVALS_def NO_DIRECT_INTERVALS_def
      named_or_latest_def close_claims_def BROKER_WORKING_EVENTS_def BROKER_TERMINAL_EVENTS_def again claim sent_def filled_def
      ENVELOPE_CHILD_LIFECYCLE_EVENTS_def child_of_def insert_Diff_if)
qed

text \<open>
  C6. At most one child of an owner may go to the venue. However many envelopes, orders and events a
  sell intent has, malformed ones included, the projection of its obligation lets at most one order be
  claimed or acknowledged; each has an action event in the log that minted it within an envelope of the
  list, and its row is a limit sell of that envelope's symbol and intent, of at least one share and at most
  the approved ceiling, at a price not below the floor.
\<close>

theorem one_child_may_go:
  shows "let ob = project_envelope_obligation envelopes action_events orders order_events open_recovery needs_review known
      in length (ob_claimable ob @ ob_acknowledgeable ob) \<le> 1 \<and>
        (\<forall>i \<in> set (ob_claimable ob @ ob_acknowledgeable ob).
           \<exists>env \<in> set envelopes. \<exists>e \<in> set action_events. \<exists>ord p.
             orders i = Some ord \<and> ev_event_type e = Event_ENVELOPE_ACTION \<and> ev_order_id e = Some i \<and>
             ev_envelope_id e = Some (en_id env) \<and> minting_action e \<and>
             or_sell_intent_id ord = Some (en_sell_intent_id env) \<and> or_symbol ord = en_symbol env \<and>
             or_side ord = Side_SELL \<and> or_order_type ord = Type_LIMIT \<and> or_limit_price ord = Some p \<and>
             \<not> float_less p (en_floor_price env) \<and> 0 < or_quantity ord \<and> or_quantity ord \<le> en_qty_ceiling env \<and>
             or_status ord = (if i \<in> set (ob_claimable ob) then Order_CREATED else Order_SUBMITTING))"
proof -
  define ob where "ob = project_envelope_obligation envelopes action_events orders order_events open_recovery needs_review known"
  define scan where "scan = scan_actions envelopes known orders action_events"
  obtain valid children held where f: "obligation_view scan valid children held open_recovery needs_review envelopes ob"
      "set (as_invalid scan) \<subseteq> set (ob_invalid ob)"
      "\<And>i ord. valid i = Some ord \<Longrightarrow> i \<in> set (as_order_ids scan) \<and> orders i = Some ord \<and>
         child_row_valid (the (as_scopes scan i)) (the (as_canonical scan i)) ord"
    using obligation_facts [where envelopes = envelopes and action_events = action_events and orders = orders and
      order_events = order_events and recov = open_recovery and review = needs_review and known = known]
    unfolding ob_def scan_def by blast
  have ok: "scan_ok envelopes (set action_events) scan" unfolding scan_def by (rule scan_actions_ok)
  note v = f(1) [unfolded obligation_view_def Let_def]
  have "\<exists>env \<in> set envelopes. \<exists>e \<in> set action_events. \<exists>ord p.
      orders i = Some ord \<and> ev_event_type e = Event_ENVELOPE_ACTION \<and> ev_order_id e = Some i \<and>
      ev_envelope_id e = Some (en_id env) \<and> minting_action e \<and>
      or_sell_intent_id ord = Some (en_sell_intent_id env) \<and> or_symbol ord = en_symbol env \<and>
      or_side ord = Side_SELL \<and> or_order_type ord = Type_LIMIT \<and> or_limit_price ord = Some p \<and>
      \<not> float_less p (en_floor_price env) \<and> 0 < or_quantity ord \<and> or_quantity ord \<le> en_qty_ceiling env \<and>
      or_status ord = (if i \<in> set (ob_claimable ob) then Order_CREATED else Order_SUBMITTING)"
    if i: "i \<in> set (ob_claimable ob @ ob_acknowledgeable ob)" for i
  proof -
    have u: "child_unresolved valid children open_recovery needs_review (ob_invalid ob) i"
      and status: "or_status (the (valid i)) = (if i \<in> set (ob_claimable ob) then Order_CREATED else Order_SUBMITTING)"
      using i v by (auto simp: claim_candidate_def acknowledge_candidate_def)
    then obtain ord where ord: "valid i = Some ord" "i \<notin> set (ob_invalid ob)" by (auto simp: child_unresolved_def)
    obtain env e where e: "as_scopes scan i = Some env" "as_canonical scan i = Some e" "env \<in> set envelopes"
        "e \<in> set action_events" "ev_order_id e = Some i" "ev_event_type e = Event_ENVELOPE_ACTION"
        "ev_envelope_id e = Some (en_id env)" "minting_action e" "\<not> outside_envelope env e"
      using ok f(2) f(3) [OF ord(1)] ord(2) unfolding scan_ok_def child_ok_def by blast
    have row: "child_row_valid env e ord" "orders i = Some ord" using f(3) [OF ord(1)] e(1,2) by simp_all
    then obtain p where p: "or_limit_price ord = Some p" "\<not> float_less p (en_floor_price env)" by (auto simp: child_row_valid_def)
    have "0 < or_quantity ord" using e(9) row(1) by (simp add: outside_envelope_def child_row_valid_def)
    with e p row status ord(1) show ?thesis
      by (intro bexI [OF _ e(3)] bexI [OF _ e(4)] exI [of _ ord] exI [of _ p]) (simp add: child_row_valid_def)
  qed
  moreover have "length (ob_claimable ob @ ob_acknowledgeable ob) \<le> 1"
    using one_child_at_most [OF f(1)] ok by (simp add: scan_ok_def)
  ultimately show ?thesis unfolding ob_def [symmetric] Let_def by blast
qed

theorem one_child_may_go_witness:
  "\<exists>env e ord. let ob = project_envelope_obligation [env] [e] [or_id ord \<mapsto> ord] [] {} {} Map.empty
    in ob_claimable ob = [or_id ord] \<and> length (ob_claimable ob @ ob_acknowledgeable ob) \<le> 1 \<and>
      0 < or_quantity ord \<and> or_quantity ord \<le> en_qty_ceiling env \<and> minting_action e"
proof -
  obtain a ord e spec where a: "ex_stage a = Stage_Staged ord e spec" "pa_kind a = ACTION_SUBMIT"
      "remaining_of ex_rails_env \<le> en_qty_ceiling ex_rails_env" "float_eq (pa_limit_price a) (pa_limit_price a)"
      "en_supersedes_id ex_rails_env = None"
    using ex_staged by blast
  let ?ob = "project_envelope_obligation [ex_rails_env] [e] [or_id ord \<mapsto> ord] [] {} {} Map.empty"
  have "ord\<lparr>or_status := Order_CREATED\<rparr> = ord" using staged_child_of [OF a(1-4)] by simp
  with staged_obligation [OF a] have c: "ob_claimable ?ob = [or_id ord]" by (simp add: Let_def)
  have "length (ob_claimable ?ob @ ob_acknowledgeable ?ob) \<le> 1 \<and> 0 < or_quantity ord \<and>
      or_quantity ord \<le> en_qty_ceiling ex_rails_env \<and> minting_action e"
    using one_child_may_go [of "[ex_rails_env]" "[e]" "[or_id ord \<mapsto> ord]" "[]" "{}" "{}" Map.empty] c
    by (auto simp: Let_def)
  with c show ?thesis by (intro exI [of _ ex_rails_env] exI [of _ e] exI [of _ ord]) (simp add: Let_def)
qed

text \<open>
  C15. A released delegation has nothing live. When the projection no longer retains the intent, no
  envelope delegates, and every order that an action event minted has a terminal row, no open recovery and
  no pending review; in its events every venue claim was later ended by a release, an acknowledgement, a
  broker terminal fact or an operator, and every working report by a broker terminal fact or an operator.
\<close>

theorem released_delegation_has_nothing_live:
  assumes "\<not> ob_retains_intent (project_envelope_obligation envelopes action_events orders order_events open_recovery needs_review known)"
  shows "(\<forall>env \<in> set envelopes. en_status env \<notin> {Envelope_APPROVED, Envelope_ACTIVE, Envelope_FROZEN}) \<and>
    (\<forall>e \<in> set action_events. \<forall>i. ev_event_type e = Event_ENVELOPE_ACTION \<and> minting_action e \<and> ev_order_id e = Some i \<longrightarrow>
       (\<exists>ord. orders i = Some ord \<and> order_terminal (or_status ord)) \<and> i \<notin> open_recovery \<and> i \<notin> needs_review \<and>
       (\<forall>before d after. child_events i order_events = before @ d # after \<longrightarrow>
          (ev_event_type d = Event_SUBMIT_PENDING \<longrightarrow> (\<exists>c \<in> set after. closes_claim c)) \<and>
          (opens_venue d \<longrightarrow> (\<exists>c \<in> set after. closes_venue c))))"
proof -
  define ob where "ob = project_envelope_obligation envelopes action_events orders order_events open_recovery needs_review known"
  define scan where "scan = scan_actions envelopes known orders action_events"
  obtain valid children held where f: "obligation_view scan valid children held open_recovery needs_review envelopes ob"
      "\<And>i ord. valid i = Some ord \<Longrightarrow> orders i = Some ord"
      "\<And>i. i \<in> set (as_order_ids scan) \<Longrightarrow> valid i \<noteq> None \<or> i \<in> set (ob_invalid ob) \<or> ob_missing_orders ob \<noteq> []"
      "\<And>i. i \<in> set (as_order_ids scan) \<Longrightarrow> child_settled scan orders valid children order_events (ob_invalid ob) i"
    using obligation_facts [where envelopes = envelopes and action_events = action_events and orders = orders and
      order_events = order_events and recov = open_recovery and review = needs_review and known = known]
    unfolding ob_def scan_def by blast
  note v = f(1) [unfolded obligation_view_def Let_def]
  have none: "\<not> ob_delegating ob" "ob_unresolved ob = []" "ob_missing_envelopes ob = []" "ob_missing_orders ob = []"
    "ob_invalid ob = []" "ob_needs_review ob = []"
    using assms v unfolding ob_def [symmetric] by blast+
  have "ob_unresolved ob = filter (child_unresolved valid children open_recovery needs_review (ob_invalid ob)) (as_order_ids scan)"
    "ob_needs_review ob = filter (child_reviewed valid open_recovery needs_review (ob_invalid ob)) (as_order_ids scan)"
    using v by blast+
  then have idle: "filter (child_unresolved valid children open_recovery needs_review []) (as_order_ids scan) = []"
    "filter (child_reviewed valid open_recovery needs_review []) (as_order_ids scan) = []"
    using none(2,5,6) by simp_all
  have child: "(\<exists>ord. orders i = Some ord \<and> order_terminal (or_status ord)) \<and> i \<notin> open_recovery \<and> i \<notin> needs_review \<and>
      (\<forall>before d after. child_events i order_events = before @ d # after \<longrightarrow>
         (ev_event_type d = Event_SUBMIT_PENDING \<longrightarrow> (\<exists>c \<in> set after. closes_claim c)) \<and>
         (opens_venue d \<longrightarrow> (\<exists>c \<in> set after. closes_venue c)))"
    if e: "e \<in> set action_events" "ev_event_type e = Event_ENVELOPE_ACTION" "minting_action e" "ev_order_id e = Some i" for e i
  proof -
    have i: "i \<in> set (as_order_ids scan)"
      using scan_actions_cover [OF e(1), of envelopes known orders] e(2-4) none(3) v by (auto simp: covered_def scan_def)
    obtain ord where ord: "valid i = Some ord" "orders i = Some ord" using f(2,3) i none(4,5) by fastforce
    obtain env c where c: "children i = Some c" "child_fold env (child_events i order_events) NO_INTERVALS = Some c"
      using f(4) [OF i] none(5) by (auto simp: child_settled_def)
    have "\<not> child_unresolved valid children open_recovery needs_review [] i" "\<not> child_reviewed valid open_recovery needs_review [] i"
      using idle i by (simp_all add: filter_empty_conv)
    with ord c(1) have settled: "i \<notin> open_recovery" "i \<notin> needs_review" "ci_claims c = {}" "ci_venue c = {}"
        "order_terminal (or_status ord)"
      by (auto simp: child_unresolved_def child_reviewed_def)
    show ?thesis using settled ord(2) child_fold_closed c(2) by metis
  qed
  have "\<forall>env \<in> set envelopes. en_status env \<notin> {Envelope_APPROVED, Envelope_ACTIVE, Envelope_FROZEN}"
    using none(1) v by (auto simp: ENVELOPE_DELEGATING_STATUSES_def)
  with child show ?thesis by blast
qed

theorem released_delegation_has_nothing_live_witness:
  "\<exists>env e ord es. \<not> ob_retains_intent (project_envelope_obligation [env] [e] [or_id ord \<mapsto> ord] es {} {} Map.empty) \<and>
    minting_action e \<and> order_terminal (or_status ord) \<and>
    (\<exists>before d after c. child_events (or_id ord) es = before @ d # after \<and> opens_venue d \<and> c \<in> set after \<and> closes_venue c)"
proof -
  obtain a ord e spec where a: "ex_stage a = Stage_Staged ord e spec" "pa_kind a = ACTION_SUBMIT"
      "remaining_of ex_rails_env \<le> en_qty_ceiling ex_rails_env" "float_eq (pa_limit_price a) (pa_limit_price a)"
    using ex_staged by blast
  have c: "child_of ex_rails_env e ord" using staged_child_of [OF a] by blast
  then have e: "ev_event_type e = Event_ENVELOPE_ACTION" "ev_order_id e = Some (or_id ord)" "minting_action e"
    by (simp_all add: child_of_def minting_action_def)
  let ?sent = "broker_event ord Event_SUBMITTED []" and ?filled = "broker_event ord Event_FILLED []"
  let ?es = "[claim_event ord, ?sent, ?filled]"
  have events: "child_events (or_id ord) ?es = [claim_event ord] @ ?sent # [?filled]"
    by (simp add: child_events_def ENVELOPE_CHILD_LIFECYCLE_EVENTS_def)
  have sent: "opens_venue ?sent" by (simp add: opens_venue_def BROKER_WORKING_EVENTS_def)
  note released = released_delegation_has_nothing_live [OF ex_released [OF c]]
  have "\<exists>d \<in> set [?filled]. closes_venue d"
    using released e events sent by (metis list.set_intros(1))
  then have "closes_venue ?filled" by simp
  moreover have "order_terminal Order_FILLED" using released e by (auto simp: order_terminal_def)
  ultimately show ?thesis
    using ex_released [OF c] e(3) events sent
    by (intro exI [of _ "ex_rails_env\<lparr>en_status := Envelope_EXPIRED\<rparr>"] exI [of _ e] exI [of _ "ord\<lparr>or_status := Order_FILLED\<rparr>"]
      exI [of _ ?es]) (auto intro!: exI [of _ "[claim_event ord]"])
qed

text \<open>
  C20. A staged order goes to the venue once. The order that staging writes for a submit is claimable
  before any claim. Once it is claimed it is not claimable and only its acknowledgement is awaited; a
  release makes it claimable again; once the venue works it, it is neither claimable nor acknowledgeable
  but still unresolved; after its fill nothing is unresolved. The events are those that the routine
  transitions of the order write.
\<close>

theorem staged_order_goes_once:
  assumes "plan_stage_envelope_action zone ts_init detail_text price_text order_id created env a history working (en_session_id env)
      fingerprint actor now position = Stage_Staged ord e spec"
    and "pa_kind a = ACTION_SUBMIT" "remaining_of env \<le> en_qty_ceiling env" "float_eq (pa_limit_price a) (pa_limit_price a)"
    and "en_supersedes_id env = None"
    and "execution_event_for_routine_transition ord Order_SUBMITTING None (Some 0) = Inr (Some claim)"
    and "execution_event_for_routine_transition (ord\<lparr>or_status := Order_SUBMITTING\<rparr>) Order_CREATED None (Some 0) = Inr (Some release)"
    and "execution_event_for_routine_transition (ord\<lparr>or_status := Order_SUBMITTING\<rparr>) Order_SUBMITTED None None = Inr (Some sent)"
    and "execution_event_for_routine_transition (ord\<lparr>or_status := Order_SUBMITTED\<rparr>) Order_FILLED q None = Inr (Some filled)"
  shows "let ob = (\<lambda>st es. project_envelope_obligation [env] [e] [or_id ord \<mapsto> ord\<lparr>or_status := st\<rparr>] es {} {} known)
      in ob_claimable (ob Order_CREATED []) = [or_id ord] \<and> ob_acknowledgeable (ob Order_CREATED []) = [] \<and>
        ob_claimable (ob Order_SUBMITTING [claim]) = [] \<and> ob_acknowledgeable (ob Order_SUBMITTING [claim]) = [or_id ord] \<and>
        ob_uncertain_claims (ob Order_SUBMITTING [claim]) = [or_id ord] \<and>
        ob_claimable (ob Order_CREATED [claim, release]) = [or_id ord] \<and>
        ob_unresolved (ob Order_SUBMITTED [claim, sent]) = [or_id ord] \<and>
        ob_claimable (ob Order_SUBMITTED [claim, sent]) = [] \<and> ob_acknowledgeable (ob Order_SUBMITTED [claim, sent]) = [] \<and>
        ob_unresolved (ob Order_FILLED [claim, sent, filled]) = []"
proof -
  have "or_status ord = Order_CREATED" using staged_child_of [OF assms(1-4)] by blast
  from routine_claim [OF this] assms(6-9)
  have "claim = claim_event ord" "release = release_event ord"
    "sent = broker_event ord Event_SUBMITTED (order_status_value Order_SUBMITTED @ '':'' @ or_id ord)"
    "filled = broker_event ord Event_FILLED (order_status_value Order_FILLED @ '':'' @ or_id ord)"
    by simp_all
  with staged_obligation [OF assms(1-5), unfolded Let_def] show ?thesis unfolding Let_def by blast
qed


theorem staged_order_goes_once_witness:
  "\<exists>e ord claim. let ob = (\<lambda>st es. project_envelope_obligation [ex_rails_env] [e] [or_id ord \<mapsto> ord\<lparr>or_status := st\<rparr>] es {} {} Map.empty)
    in ob_claimable (ob Order_CREATED []) = [or_id ord] \<and> ob_claimable (ob Order_SUBMITTING [claim]) = [] \<and>
      ob_acknowledgeable (ob Order_SUBMITTING [claim]) = [or_id ord]"
proof -
  obtain a ord e spec where a: "ex_stage a = Stage_Staged ord e spec" "pa_kind a = ACTION_SUBMIT"
      "remaining_of ex_rails_env \<le> en_qty_ceiling ex_rails_env" "float_eq (pa_limit_price a) (pa_limit_price a)"
      "en_supersedes_id ex_rails_env = None"
    using ex_staged by blast
  have "or_status ord = Order_CREATED" using staged_child_of [OF a(1-4)] by blast
  note r = routine_claim [OF this]
  have "ob_claimable (project_envelope_obligation [ex_rails_env] [e] [or_id ord \<mapsto> ord\<lparr>or_status := st\<rparr>] es {} {} Map.empty) =
      (if st = Order_CREATED then [or_id ord] else [])" and
    "st = Order_SUBMITTING \<Longrightarrow>
      ob_acknowledgeable (project_envelope_obligation [ex_rails_env] [e] [or_id ord \<mapsto> ord\<lparr>or_status := st\<rparr>] es {} {} Map.empty) = [or_id ord]"
    if "st = Order_CREATED \<and> es = [] \<or> st = Order_SUBMITTING \<and> es = [claim_event ord]" for st es
    using that staged_order_goes_once [OF a r(1) r(2) r(3) r(4) [of None], of Map.empty] unfolding Let_def by auto
  then show ?thesis by (intro exI [of _ e] exI [of _ ord] exI [of _ "claim_event ord"]) (simp add: Let_def)
qed

end
