(* ===== verification/Spec2Isabelle.thy ===== *)
theory Spec2Isabelle
  imports Store_Properties Fill_Properties Codec_Properties Intake_Properties Obligation_Properties
begin

text \<open>
  A verification library for the paper-trading engine: its execution kernel
  (\<^verbatim>\<open>src/app/execution_core/\<close>), which decides what a position holds from the execution
  facts a broker or an operator reports, and the event-sourced trading state of its stores
  (\<^verbatim>\<open>src/app/store/\<close>, \<^verbatim>\<open>src/app/events/\<close>): orders, session control,
  execution envelopes, fills, the way from a candidate to an order and from a position to an exit, and
  the sell side (\<^verbatim>\<open>src/app/sellside/\<close>), which decides on each market tick whether an
  envelope acts.

  \<^bold>\<open>The program and its parts.\<close> A position is one symbol of one account. Every execution fact
  (fill, operator-attested fill, trade correction, trade bust) has an identity given by its source
  event; a fill opens a root, corrections and busts revise the current head of a root. A snapshot has
  four parts: the position state, an integrity flag, the index of root heads and the account-wide
  registry of first observations. The parts live in hash-committed persistent maps and sequences and
  share one binding object; an operation that gets parts which do not belong together refuses them.
  Before a broker fact is applied, a compact layer (M2) classifies it from a bounded state and an
  authenticated slice of the indexes, and the result is compared with the transition.

  Around the kernel stand the stores. A store keeps tables of orders, sessions and envelopes and one
  append-only log of execution events; every write is decided by a pure planner of
  \<^verbatim>\<open>core.py\<close>, which both backends call under their lock, and puts the new row and its
  event into the table and the log together. The tables are read models: projectors fold the log back
  into the status of an order, the trading state of a session and the state of an envelope. An event
  whose dedupe key is in the log is dropped. A candidate becomes an order only through the approval
  flow, whose last step, under the lock, checks the controls, the quarantine and the caps against the
  exposure of the store; an exit is planned against the live position. An envelope delegates an exit to
  the engine: at each tick the policy computes a trailing stop from the tape and may plan an action,
  the store checks the same hard rails again when it stages the action as an order, and once more
  when the order is claimed for the venue.

  \<^bold>\<open>Theories and source.\<close>
  \<^item> \<^verbatim>\<open>Prelude\<close>: the result type for Python exceptions, loops over it, bytes.
    \<^verbatim>\<open>Sha256\<close>: the digest, complete. \<^verbatim>\<open>Interfaces\<close>: the locales between the
    components.
  \<^item> \<^verbatim>\<open>Values\<close> (\<^verbatim>\<open>values.py\<close>), \<^verbatim>\<open>Identity\<close>
    (\<^verbatim>\<open>identity.py\<close>): exact values and identities with their checked constructors.
  \<^item> \<^verbatim>\<open>Encoding\<close>, \<^verbatim>\<open>Radix_Map\<close>, \<^verbatim>\<open>Radix_Correct\<close>,
    \<^verbatim>\<open>Persistent_Sequence\<close>, \<^verbatim>\<open>Facts\<close>, \<^verbatim>\<open>Root_Heads\<close>,
    \<^verbatim>\<open>Seen_Facts\<close> (\<^verbatim>\<open>fills.py\<close>): canonical encodings, the radix map with its
    membership witnesses, the sequence, the four fact classes, the root index and the registry.
  \<^item> \<^verbatim>\<open>Fold\<close>, \<^verbatim>\<open>Position\<close>, \<^verbatim>\<open>Transition\<close>, \<^verbatim>\<open>M2\<close>,
    \<^verbatim>\<open>Hydration\<close> (\<^verbatim>\<open>position.py\<close>): flags and exact fold, position state and
    binding, the transitions, the compact layer, the slow candidate and hydration by replay.
  \<^item> \<^verbatim>\<open>Kernel_Invariant\<close>, \<^verbatim>\<open>Apply_Correct\<close>, \<^verbatim>\<open>Ledger\<close>,
    \<^verbatim>\<open>M2_Correct\<close>, \<^verbatim>\<open>Machine\<close>, \<^verbatim>\<open>Reachable\<close>: the invariant of a bound
    snapshot, that every operation keeps it, the abstract ledger and the simulation, that the compact
    layer is transparent, the kernel as a machine, and its reachable snapshots.
  \<^item> \<^verbatim>\<open>Texts\<close>, \<^verbatim>\<open>Lifecycle\<close> (\<^verbatim>\<open>transitions.py\<close>),
    \<^verbatim>\<open>Event_Log\<close> (\<^verbatim>\<open>models.py\<close>, \<^verbatim>\<open>memory.py\<close>): decimal texts,
    the transition tables, the log with its dedupe rule.
  \<^item> \<^verbatim>\<open>Orders\<close>, \<^verbatim>\<open>Order_Events\<close>, \<^verbatim>\<open>Order_Log\<close>
    (\<^verbatim>\<open>policy.py\<close>, \<^verbatim>\<open>core.py\<close>, \<^verbatim>\<open>projectors.py\<close>): the order
    planners, the events they emit and the projections, the writes as a step relation.
    \<^verbatim>\<open>Session_Control\<close>: the trading state and its two drivers.
    \<^verbatim>\<open>Envelopes\<close>, \<^verbatim>\<open>Envelope_Log\<close>, \<^verbatim>\<open>Envelope_Quantity\<close>: the
    envelope planners, the replay, the conservation of quantity.
  \<^item> \<^verbatim>\<open>Floats\<close>: binary64 arithmetic with its rounding. \<^verbatim>\<open>Fill_Append\<close>,
    \<^verbatim>\<open>Fill_Quantity\<close>, \<^verbatim>\<open>Fill_Log\<close> (\<^verbatim>\<open>app/position.py\<close>,
    \<^verbatim>\<open>core.py\<close>, \<^verbatim>\<open>memory.py\<close>, \<^verbatim>\<open>projectors.py\<close>): the position fold,
    the append of a fill, the quarantine, and the writes. \<^verbatim>\<open>Trading_Properties\<close>,
    \<^verbatim>\<open>Fill_Properties\<close>: the properties of all these.
  \<^item> \<^verbatim>\<open>Candidates\<close>, \<^verbatim>\<open>Candidate_Log\<close>
    (\<^verbatim>\<open>policy.py\<close>, \<^verbatim>\<open>core.py\<close>, \<^verbatim>\<open>memory.py\<close>,
    \<^verbatim>\<open>approval/human.py\<close>, \<^verbatim>\<open>facade/store_backed.py\<close>): the risk gate, the
    dispatch planner, the candidate writes, the approval flow, and the writes as a step relation.
    \<^verbatim>\<open>Exposure\<close> (\<^verbatim>\<open>policy.py\<close>, \<^verbatim>\<open>memory.py\<close>): the
    exposure before an order. \<^verbatim>\<open>Exits\<close> (\<^verbatim>\<open>core.py\<close>,
    \<^verbatim>\<open>memory.py\<close>): sell intents, their dispatch, the manual flatten, the session close.
    \<^verbatim>\<open>Intake_Properties\<close>: the properties of these.
  \<^item> \<^verbatim>\<open>Float_Ops\<close>, \<^verbatim>\<open>Float_Exact\<close>: the float operations of analytic code, and
    that whole numbers compute exactly. \<^verbatim>\<open>Sellside_Tape\<close>
    (\<^verbatim>\<open>session.py\<close>, \<^verbatim>\<open>bars.py\<close>, \<^verbatim>\<open>indicators.py\<close>,
    \<^verbatim>\<open>profiler.py\<close>, \<^verbatim>\<open>regime.py\<close>): clock, bars, indicators, volume window,
    regime. \<^verbatim>\<open>Sellside_Trail\<close> (\<^verbatim>\<open>trails.py\<close>): the candidate and the ratchet.
    \<^verbatim>\<open>Sellside_Policy\<close> (\<^verbatim>\<open>types.py\<close>, \<^verbatim>\<open>policy.py\<close>): the
    hard rails and the decision. \<^verbatim>\<open>Envelope_Staging\<close> (\<^verbatim>\<open>core.py\<close>): staging and
    claim of an action, its clock, the owner of an envelope. \<^verbatim>\<open>Sellside_Ratchet\<close>,
    \<^verbatim>\<open>Sellside_Rails\<close>, \<^verbatim>\<open>Sellside_Properties\<close>: totality and monotonicity of the
    stop, the rails read off the definitions, and the properties.
  \<^item> \<^verbatim>\<open>Obligation\<close> (\<^verbatim>\<open>core.py\<close>): the projection of what an envelope
    lineage still owes, from its action events, child rows and lifecycle events, and whether a direct sell
    order may still execute. \<^verbatim>\<open>Obligation_Correct\<close>,
    \<^verbatim>\<open>Obligation_Properties\<close>: its lemmas and properties.
  \<^item> \<^verbatim>\<open>Durable_Codec\<close> (\<^verbatim>\<open>durable_codec.py\<close>): the persisted atoms of
    values, identities and keys, their validation, encoder and decoder, and that these are inverse;
    \<^verbatim>\<open>Codec_Properties\<close>: its properties.
  \<^item> \<^verbatim>\<open>Examples\<close>: concrete facts and runs. \<^verbatim>\<open>Store_Properties\<close>: the properties
    of the components below the kernel. This theory: the properties of the kernel as a whole.

  \<^bold>\<open>How state and operations correspond.\<close> A class is a record or a datatype with the source's fields;
  its \<^verbatim>\<open>__post_init__\<close> is a function \<open>mk_*\<close>; a method is a function with the same name
  and, where two classes share one, a prefix (\<open>ri_\<close> for the root index, \<open>si_\<close> for the registry,
  \<open>po_\<close> position, \<open>sn_\<close> snapshot, \<open>fi_\<close> fold input, \<open>ms_\<close>/\<open>mp_\<close> compact state and proof).
  Exceptions are the left side of the result type. Objects are immutable in the source, so state
  passing is exact; the one use of object identity, the shared binding, is kept by the number of the
  object, which every operation that allocates a binding takes as an argument. Exact-type guards
  hold by typing. A string is its UTF-8 bytes.

  \<^bold>\<open>What the lemmas show.\<close> The radix map and the sequence satisfy the contracts
  \<open>keyed_store\<close> and \<open>committed_sequence\<close>; the indexes are the lists of their
  entries; the transitions keep the kernel invariant and simulate the ledger; every admissible run
  goes through and ends in a snapshot that implements the ledger (contract
  \<open>simulating_machine\<close>). The four transition tables satisfy \<open>transition_table\<close> (a rank
  that no move lowers, so nothing is entered twice), and orders, sessions, envelopes and positions satisfy
  \<open>read_model\<close>: on every run of writes the table is what the projection reads from the log. The
  properties C1 to C5, C7, C9 to C14 and C17 are those of the kernel,
  C28 to C39 those of the trading state, C8, C18, C19, C21 and C26 those of the intake and the exits,
  C16, C22 to C24 and C27 those of the sell side, C6, C15 and C20 those of the obligation, C25 and C40 those of the durable codec.

  \<^bold>\<open>Bounds.\<close> The registry and the sequences hold at most \<open>2 ^ 64\<close> values, because an index is
  written in eight bytes; \<open>registry_room\<close> is what is left, and a step uses at most one. Texts have
  to fit their eight-byte length frame (\<open>*_fits\<close>), and CPython converts integers of at most 4300
  digits to and from text. Every function is total; there is no fuel.

  \<^bold>\<open>Arguments for code outside.\<close> \<open>zone\<close> is the offset of New York from UTC at an instant (the
  time-zone database), \<open>ts_init\<close> the ingest time of an event, \<open>detail_text\<close> and
  \<open>price_text\<close> the free text of a violation and of a float; nothing is assumed of them.
  \<^verbatim>\<open>sum\<close> over floats adds from the left, as CPython up to 3.11 does.

  \<^bold>\<open>Not modelled.\<close> Of the kernel: the venue, authority, acquisition and protection machines,
  recovery, profiles and the SQLite persistence. Of the stores: audit rows beyond
  the planners' descriptions, event ids, the composition of a flatten and of a session close out of their planned writes, the
  single-flight rule of sell intents, the query for an exit that may still execute (an argument of the
  intake), submit recovery and the terminal facts it writes, attribution repair, the writes around the
  staging of an action, signals. A step relation of the stores has a rule for
  every modelled write and one for the events of other components, which neither claim a reserved
  dedupe key nor carry an event type of the modelled family. Not modelled as well are the monitoring
  loop, the broker adapters, the HTTP interface and the market-data streams, which are I/O, and the
  buy-side strategy.
\<close>

section \<open>The kernel against its ledger\<close>

lemma broker_application_simulates:
  assumes "implements s L" "fact_admissible f" "is_broker_fact f" "has_room (lg_observations L)"
  shows "simulates s L (apply_broker_execution_fact obj (sn_position s) (sn_integrity s) (sn_root_heads s)
    (sn_seen_facts s) f) (ledger_step f L)"
  using m2_transparent [OF assms] canonical_simulates [OF assms(1,2,4)] by simp

text \<open>
  C1. Every sequence of admissible kernel events (broker executions, operator-attested fills,
  reconciliation and corroboration records, latches) from a flat position goes through without an
  error, and the snapshot it ends in implements the abstract ledger after the same events: same
  effective heads, same first observations in the same order, same integrity, same availability of
  the basis, and the raw quantity is the ledger's.
\<close>

theorem kernel_run_refines_ledger:
  assumes "scope_fits scope" "sn_flat obj scope = Ok s0" "list_all (event_admissible scope) es"
    "length es \<le> 2 ^ 64"
  shows "\<exists>s. fold_res kernel_step es s0 = Ok s \<and>
    implements s (fold ledger_event es (ledger_flat scope)) \<and>
    po_raw_quantity (sn_position s) = ledger_quantity (fold ledger_event es (ledger_flat scope))"
proof -
  have "related_in scope s0 (ledger_flat scope)"
    using flat_implements [OF assms(1,2)] by (simp add: related_in_def ledger_flat_def)
  then obtain s where "fold_res kernel_step es s0 = Ok s"
      "implements s (fold ledger_event es (ledger_flat scope))"
    using kernel_machine.run_related [of scope s0 "ledger_flat scope" es] assms(3,4) flat_room [OF assms(2)]
    by (auto simp: related_in_def)
  with implements_quantity show ?thesis by blast
qed

theorem kernel_run_refines_ledger_witness:
  "\<exists>s0 s. sn_flat 0 ex_scope = Ok s0 \<and>
    fold_res kernel_step [ApplyBroker ex_buy, ApplyBroker ex_oversell, LatchAccount] s0 = Ok s \<and>
    po_raw_quantity (sn_position s) = -5 \<and> sn_integrity s = OVERFILL_QUARANTINE"
proof -
  let ?es = "[ApplyBroker ex_buy, ApplyBroker ex_oversell, LatchAccount]"
  obtain s0 where s0: "sn_flat 0 ex_scope = Ok s0" by (simp add: sn_flat_ok)
  have "ledger_quantity (fold ledger_event ?es (ledger_flat ex_scope)) = -5"
    "lg_integrity (fold ledger_event ?es (ledger_flat ex_scope)) = OVERFILL_QUARANTINE"
    using ex_oversold by (simp_all add: ex_ledger_def ledger_event_def [of LatchAccount])
  with s0 kernel_run_refines_ledger [OF ex_scope_fits s0, of ?es] show ?thesis
    by (auto simp: ex_events_admissible implements_def)
qed

text \<open>
  C2. The indexed (M2) classification of a broker fact, made from the compact state and an
  authenticated proof slice, changes nothing: on every reachable snapshot with room the broker entry
  point returns exactly the transition that the canonical routine returns without it, for every
  fill, correction and bust, and on every branch.
\<close>

theorem broker_application_is_canonical:
  assumes "reachable scope s" "fact_admissible f" "is_broker_fact f" "0 < registry_room s"
  shows "apply_broker_execution_fact obj (sn_position s) (sn_integrity s) (sn_root_heads s)
      (sn_seen_facts s) f =
    apply_canonical_execution_fact obj (sn_position s) (sn_integrity s) (sn_root_heads s)
      (sn_seen_facts s) f None"
proof -
  obtain L where "implements s L" using reachable_implements [OF assms(1)] .
  with assms(2-4) room_pos [of s L] show ?thesis by (intro m2_transparent) simp_all
qed

theorem broker_application_is_canonical_witness:
  "\<exists>s. reachable ex_scope s \<and>
    apply_broker_execution_fact 7 (sn_position s) (sn_integrity s) (sn_root_heads s) (sn_seen_facts s) ex_correct =
    apply_canonical_execution_fact 7 (sn_position s) (sn_integrity s) (sn_root_heads s) (sn_seen_facts s) ex_correct None"
proof -
  obtain s where "reachable ex_scope s" "registry_room s \<ge> 2 ^ 64 - 1"
    using ex_run [of "[ApplyBroker ex_buy]"] by (auto simp: ex_events_admissible)
  with broker_application_is_canonical [of ex_scope s ex_correct 7] show ?thesis by (auto simp: ex_facts)
qed

text \<open>
  C3. Applying a broker fact to a snapshot that implements a ledger always returns a transition, and
  it is the one the ledger step describes: its disposition and classification are the step's, its
  quantity delta is the difference of the ledger quantities, and its snapshot implements the ledger
  after the step, with the reconciliation cursor and the account restriction unchanged.
\<close>

theorem broker_application_implements_ledger_step:
  assumes "implements s L" "fact_admissible f" "is_broker_fact f" "0 < registry_room s"
    "ledger_step f L = (L', disposition, classification)"
  shows "\<exists>s' basis_change. apply_broker_execution_fact obj (sn_position s) (sn_integrity s) (sn_root_heads s)
      (sn_seen_facts s) f =
        Ok (transition_of s' (ledger_quantity L' - ledger_quantity L) basis_change disposition classification) \<and>
    implements s' L' \<and> cursor_of s' = cursor_of s \<and> account_latched s' = account_latched s"
  using broker_application_simulates [OF assms(1-3), of obj] assms(4,5) room_pos [OF assms(1)]
  by (auto simp: simulates_def)

theorem broker_application_implements_ledger_step_witness:
  "\<exists>s s' b. reachable ex_scope s \<and>
    apply_broker_execution_fact 7 (sn_position s) (sn_integrity s) (sn_root_heads s) (sn_seen_facts s) ex_correct =
      Ok (transition_of s' (-2) b APPLIED APPLIED_AVAILABLE)"
proof -
  obtain s where s: "reachable ex_scope s" "implements s (ex_ledger [ApplyBroker ex_buy])" "registry_room s \<ge> 2 ^ 64 - 1"
    using ex_run [of "[ApplyBroker ex_buy]"] by (auto simp: ex_events_admissible)
  obtain L' where L': "ledger_step ex_correct (ex_ledger [ApplyBroker ex_buy]) = (L', APPLIED, APPLIED_AVAILABLE)"
    "ledger_quantity L' = 8"
    by (simp add: ledger_quantity_def ex_eval)
  from s broker_application_implements_ledger_step [OF s(2) ex_facts(6) ex_broker(6) _ L'(1), of 7] show ?thesis
    by (auto simp: L'(2) ex_bought(1))
qed

section \<open>Economics\<close>

text \<open>
  C4. On every reachable snapshot the materialized root entries can be read, and the raw quantity of
  the position, the running total of the root index and the sum of the signed quantities of the
  entries are the same number.
\<close>

theorem quantity_is_sum_of_entries:
  assumes "reachable scope s"
  shows "\<exists>hs. ri_entries (sn_root_heads s) = Ok hs \<and>
    po_raw_quantity (sn_position s) = sum_list (map signed_quantity_of hs) \<and>
    ri_signed_quantity (sn_root_heads s) = sum_list (map signed_quantity_of hs) \<and>
    po_root_count (sn_position s) = length hs"
proof -
  obtain hs os where k: "kernel_ok s hs os" using reachable_kernel_ok [OF assms] .
  show ?thesis
    using ri_entries_ok [OF kernel_okD(2) [OF k]] kernel_ok_parts(4,5) [OF k] ri_okD(10) [OF kernel_okD(2) [OF k]]
    by auto
qed

theorem quantity_is_sum_of_entries_witness:
  "\<exists>s hs. reachable ex_scope s \<and> ri_entries (sn_root_heads s) = Ok hs \<and>
    sum_list (map signed_quantity_of hs) = -5"
proof -
  obtain s where s: "reachable ex_scope s" "implements s (ex_ledger [ApplyBroker ex_buy, ApplyBroker ex_oversell])"
    using ex_run [of "[ApplyBroker ex_buy, ApplyBroker ex_oversell]"] by (auto simp: ex_events_admissible)
  with quantity_is_sum_of_entries [OF s(1)] implements_quantity [OF s(2)] ex_oversold(1) show ?thesis by auto
qed

text \<open>
  C5. An available cost basis is exact: on every reachable snapshot whose roots are all the broker's
  and whose basis is available, the ordered slow fold over the materialized entries succeeds and
  gives exactly the raw quantity and the cost basis that the fast transitions kept.
\<close>

theorem available_basis_is_ordered_fold:
  assumes "reachable scope s" "po_basis_authority (sn_position s) = AVAILABLE"
    "ri_entries (sn_root_heads s) = Ok hs" "\<forall>h \<in> set hs. rh_authority h = BROKER_AUTHORITATIVE"
  shows "\<exists>basis. po_cost_basis (sn_position s) = Some basis \<and>
    fold_ordered_heads (sn_root_heads s) = Ok (Some (po_raw_quantity (sn_position s), basis))"
proof -
  obtain hs' os where k: "kernel_ok s hs' os" using reachable_kernel_ok [OF assms(1)] .
  note ok = kernel_okD [OF k]
  have hs: "hs' = hs" using ri_entries_ok [OF ok(2)] assms(3) by simp
  obtain b where b: "po_cost_basis (sn_position s) = Some b"
    using snapshot_okD(2) [OF ok(1)] assms(2) by (auto simp: position_valid_def)
  have "heads_fold hs = Some (po_raw_quantity (sn_position s), basis_value b, po_basis_price_metadata (sn_position s))"
    using ok(5) assms(2) b by (simp add: basis_state_ok_def hs)
  with fold_ordered_heads_fold [of "sn_root_heads s" hs] ok(2) assms(4) b hs show ?thesis by simp
qed

lemma ex_head_authority:
  assumes "implements s (ex_ledger es)" "ri_entries (sn_root_heads s) = Ok hs"
  shows "map unproven hs = lg_heads (ex_ledger es)"
  using assms by (auto simp: implements_def dest!: kernel_okD(2) ri_entries_ok)

theorem available_basis_is_ordered_fold_witness:
  "\<exists>s basis. reachable ex_scope s \<and> po_cost_basis (sn_position s) = Some basis \<and>
    fold_ordered_heads (sn_root_heads s) = Ok (Some (6, basis))"
proof -
  let ?es = "[ApplyBroker ex_buy, ApplyBroker ex_sell]"
  obtain s where s: "reachable ex_scope s" "implements s (ex_ledger ?es)"
    using ex_run [of ?es] by (auto simp: ex_events_admissible)
  obtain hs where hs: "ri_entries (sn_root_heads s) = Ok hs"
    using reachable_kernel_ok [OF s(1)] ri_entries_ok kernel_okD(2) by metis
  have L: "ledger_quantity (ex_ledger ?es) = 6" "lg_available (ex_ledger ?es)"
    "\<forall>h \<in> set (lg_heads (ex_ledger ?es)). rh_authority h = BROKER_AUTHORITATIVE"
    by (simp_all add: ledger_quantity_def ex_eval)
  have "\<forall>h \<in> set hs. rh_authority h = BROKER_AUTHORITATIVE"
    using L(3) unfolding ex_head_authority [OF s(2) hs, symmetric] by simp
  then show ?thesis
    using available_basis_is_ordered_fold [OF s(1) _ hs] s L(1,2) implements_quantity [OF s(2)]
    by (auto simp: implements_def)
qed

text \<open>
  The derived basis candidate is total and exact on every reachable snapshot: it never raises,
  reports the raw quantity and the root and head sequences of the entries, and its status and basis
  are those of the ordered fold over the entries; an operator-attested root makes it
  \<^verbatim>\<open>SNAPSHOT_INCONSISTENT\<close>, otherwise a price outside the metadata makes it
  \<^verbatim>\<open>INCOMPATIBLE_PRICE_METADATA\<close>, and otherwise it is \<^verbatim>\<open>DERIVED\<close>.
\<close>

theorem derived_candidate_is_ordered_fold:
  assumes "reachable scope s"
  shows "\<exists>hs. ri_entries (sn_root_heads s) = Ok hs \<and>
    derive_ordered_basis_candidate (sn_position s) (sn_root_heads s) = Ok
      \<lparr>bc_status = (if \<exists>h \<in> set hs. rh_authority h \<noteq> BROKER_AUTHORITATIVE then SNAPSHOT_INCONSISTENT
                   else if heads_fold hs = None then INCOMPATIBLE_PRICE_METADATA else DERIVED),
       bc_raw_quantity = po_raw_quantity (sn_position s),
       bc_cost_basis = (if \<exists>h \<in> set hs. rh_authority h \<noteq> BROKER_AUTHORITATIVE then None
                       else map_option (\<lambda>(r, c, m). ExactBasis c) (heads_fold hs)),
       bc_root_fill_sequence = map rh_root_key hs,
       bc_effective_head_ids = map rh_current_source_event_id hs\<rparr>"
proof -
  obtain hs os where k: "kernel_ok s hs os" using reachable_kernel_ok [OF assms] .
  show ?thesis
    using ri_entries_ok [OF kernel_okD(2) [OF k]] derive_ordered_basis_candidate_ok [OF k]
    by (intro exI [of _ hs]) (auto simp: expected_candidate_def Let_def split: option.splits)
qed

theorem derived_candidate_is_ordered_fold_witness:
  "\<exists>s candidate. reachable ex_scope s \<and>
    derive_ordered_basis_candidate (sn_position s) (sn_root_heads s) = Ok candidate \<and>
    bc_raw_quantity candidate = 10"
proof -
  obtain s where s: "reachable ex_scope s" "implements s (ex_ledger [ApplyBroker ex_buy])"
    using ex_run [of "[ApplyBroker ex_buy]"] by (auto simp: ex_events_admissible)
  with derived_candidate_is_ordered_fold [OF s(1)] implements_quantity [OF s(2)] ex_bought(1) show ?thesis
    by fastforce
qed

text \<open>
  C7. The average price of a reachable long position with an available basis lies between any bounds
  on the prices of its effective entries.
\<close>

theorem average_price_within_prices:
  assumes "reachable scope s" "average_price (sn_position s) = Some a" "ri_entries (sn_root_heads s) = Ok hs"
    "\<forall>h \<in> set hs. \<forall>p \<in> set_option (rh_price h). lo \<le> exact_value p \<and> exact_value p \<le> hi"
  shows "lo \<le> a \<and> a \<le> hi"
proof -
  obtain hs' os where k: "kernel_ok s hs' os" using reachable_kernel_ok [OF assms(1)] .
  note ok = kernel_okD [OF k]
  have hs: "hs' = hs" using ri_entries_ok [OF ok(2)] assms(3) by simp
  let ?q = "po_raw_quantity (sn_position s)" and ?c = "basis_value (the (po_cost_basis (sn_position s)))"
  have q: "po_basis_authority (sn_position s) = AVAILABLE" "0 < ?q" "a = ?c / of_int ?q"
    using assms(2) by (auto simp: average_price_def split: if_splits)
  have "heads_fold hs = Some (?q, ?c, po_basis_price_metadata (sn_position s))"
    using ok(5) q(1) by (simp add: basis_state_ok_def hs)
  then have "basis_between lo hi ?q ?c"
    using heads_fold_between assms(4) heads_okD(3) [OF ri_okD(1) [OF ok(2)]] hs by blast
  then show ?thesis using q(2) by (simp add: basis_between_def q(3) field_simps)
qed

theorem average_price_within_prices_witness:
  "\<exists>s a. reachable ex_scope s \<and> average_price (sn_position s) = Some a \<and> 49 \<le> a \<and> a \<le> 51"
proof -
  let ?es = "[ApplyBroker ex_buy, ApplyBroker ex_sell]"
  obtain s where s: "reachable ex_scope s" "implements s (ex_ledger ?es)"
    using ex_run [of ?es] by (auto simp: ex_events_admissible)
  obtain hs os where k: "kernel_ok s hs os" using reachable_kernel_ok [OF s(1)] .
  have L: "ledger_quantity (ex_ledger ?es) = 6" "lg_available (ex_ledger ?es)"
    "\<forall>h \<in> set (lg_heads (ex_ledger ?es)). rh_price h = Some (ex_price 5000)"
    by (simp_all add: ledger_quantity_def ex_eval)
  have hs: "ri_entries (sn_root_heads s) = Ok hs" by (rule ri_entries_ok [OF kernel_okD(2) [OF k]])
  have "\<forall>h \<in> set hs. rh_price h = Some (ex_price 5000)"
    using L(3) unfolding ex_head_authority [OF s(2) hs, symmetric] by simp
  moreover obtain b where "po_cost_basis (sn_position s) = Some b"
    "po_basis_authority (sn_position s) = AVAILABLE" "po_raw_quantity (sn_position s) = 6"
    using s(2) L(1,2) implements_quantity [OF s(2)] snapshot_okD(2) [OF kernel_okD(1) [OF k]]
    by (auto simp: implements_def position_valid_def)
  then have a: "average_price (sn_position s) = Some (basis_value b / 6)" by (simp add: average_price_def)
  ultimately have "49 \<le> basis_value b / 6 \<and> basis_value b / 6 \<le> 51"
    by (intro average_price_within_prices [OF s(1) a hs]) (simp add: ex_price_def exact_value_def)
  with s(1) a show ?thesis by blast
qed

section \<open>Replays, conflicts and repetition\<close>

text \<open>
  Reporting an already observed fact again is a no-operation: on every reachable snapshot, a fact
  equal to the first observation under its key, made at this position, returns the transition
  \<^verbatim>\<open>EXACT_REPLAY\<close> with the very same snapshot, both deltas zero and the original
  classification.
\<close>

theorem exact_replay_keeps_snapshot:
  assumes "reachable scope s" "si_get (sn_seen_facts s) (fact_key f) = Some first" "sf_fact first = f"
    "sf_position_scope first = scope"
  shows "apply_canonical_execution_fact obj (sn_position s) (sn_integrity s) (sn_root_heads s)
      (sn_seen_facts s) f None =
    Ok (transition_of s 0 (Some 0) EXACT_REPLAY (sf_classification first))"
proof -
  obtain hs os where k: "kernel_ok s hs os" "po_scope (sn_position s) = scope"
    using reachable_kernel_ok [OF assms(1)] .
  note ok = kernel_okD(1) [OF k(1)]
  obtain s' where "unchanged_transition obj (sn_position s) (sn_integrity s) (sn_root_heads s) (sn_seen_facts s)
      EXACT_REPLAY (sf_classification first) = Ok (transition_of s' 0 (Some 0) EXACT_REPLAY (sf_classification first))"
      "s' = s"
    using unchanged_transition_ok [OF ok order_refl] by metis
  with snapshot_okD(1) [OF ok] assms(2-4) k(2) show ?thesis
    by (simp add: apply_canonical_execution_fact_def)
qed

lemma ex_bought_get:
  assumes "implements s (ex_ledger [ApplyBroker ex_buy])"
  shows "\<exists>first. si_get (sn_seen_facts s) (fact_key ex_buy) = Some first \<and> sf_fact first = ex_buy \<and>
    sf_position_scope first = ex_scope \<and> sf_classification first = APPLIED_AVAILABLE"
  using implements_get [OF assms, of "fact_key ex_buy"] ex_facts(1)
  by (simp add: fact_admissible_def fact_fits_def) (simp add: ex_eval)

theorem exact_replay_keeps_snapshot_witness:
  "\<exists>s. reachable ex_scope s \<and>
    apply_canonical_execution_fact 7 (sn_position s) (sn_integrity s) (sn_root_heads s) (sn_seen_facts s) ex_buy None =
      Ok (transition_of s 0 (Some 0) EXACT_REPLAY APPLIED_AVAILABLE)"
proof -
  obtain s where s: "reachable ex_scope s" "implements s (ex_ledger [ApplyBroker ex_buy])"
    using ex_run [of "[ApplyBroker ex_buy]"] by (auto simp: ex_events_admissible)
  obtain first where "si_get (sn_seen_facts s) (fact_key ex_buy) = Some first" "sf_fact first = ex_buy"
    "sf_position_scope first = ex_scope" "sf_classification first = APPLIED_AVAILABLE"
    using ex_bought_get [OF s(2)] by blast
  with exact_replay_keeps_snapshot [OF s(1), of ex_buy first 7] s(1) show ?thesis by auto
qed

text \<open>
  C9. A different fact under an observed key never changes the economics: on every reachable snapshot
  it returns \<^verbatim>\<open>FACT_CONFLICT\<close> with zero deltas and the original classification; the new
  snapshot has the conflict flag on top of the integrity there was, and quantity, cost basis, root
  entries and registry are those before.
\<close>

theorem conflict_latches_and_keeps_economics:
  assumes "reachable scope s" "si_get (sn_seen_facts s) (fact_key f) = Some first" "sf_fact first \<noteq> f"
  shows "\<exists>s'. apply_canonical_execution_fact obj (sn_position s) (sn_integrity s) (sn_root_heads s)
        (sn_seen_facts s) f None =
      Ok (transition_of s' 0 (Some 0) FACT_CONFLICT (sf_classification first)) \<and>
    has_conflict (sn_integrity s') \<and> sn_integrity s \<le> sn_integrity s' \<and>
    po_raw_quantity (sn_position s') = po_raw_quantity (sn_position s) \<and>
    po_cost_basis (sn_position s') = po_cost_basis (sn_position s) \<and>
    ri_entries (sn_root_heads s') = ri_entries (sn_root_heads s) \<and>
    si_entries (sn_seen_facts s') = si_entries (sn_seen_facts s)"
proof -
  obtain hs os where k: "kernel_ok s hs os" "po_scope (sn_position s) = scope"
    using reachable_kernel_ok [OF assms(1)] .
  note ok = kernel_okD(1) [OF k(1)]
  define i where "i = sup (if sf_position_scope first \<noteq> scope
    then sup (sn_integrity s) EXECUTION_RECONCILIATION_REQUIRED else sn_integrity s) EXECUTION_FACT_CONFLICT"
  have i: "sn_integrity s \<le> i" "has_conflict i"
    by (simp add: i_def le_supI1) (simp add: i_def sup_position_integrity_def EXECUTION_FACT_CONFLICT_def)
  obtain s' where s': "unchanged_transition obj (sn_position s) i (sn_root_heads s) (sn_seen_facts s)
      FACT_CONFLICT (sf_classification first) = Ok (transition_of s' 0 (Some 0) FACT_CONFLICT (sf_classification first))"
      "rebound s s' i"
    using unchanged_transition_ok [OF ok i(1)] by metis
  have "apply_canonical_execution_fact obj (sn_position s) (sn_integrity s) (sn_root_heads s) (sn_seen_facts s) f None =
      unchanged_transition obj (sn_position s) i (sn_root_heads s) (sn_seen_facts s) FACT_CONFLICT (sf_classification first)"
    using snapshot_okD(1) [OF ok] assms(2,3) k(2) by (simp add: apply_canonical_execution_fact_def i_def Let_def)
  moreover have k': "kernel_ok s' hs os" by (rule rebound_kernel_ok [OF k(1) s'(2) i(1)])
  have "ri_entries (sn_root_heads s') = ri_entries (sn_root_heads s)"
    "si_entries (sn_seen_facts s') = si_entries (sn_seen_facts s)"
    using ri_entries_ok [OF kernel_okD(2)] si_entries_ok [OF kernel_okD(3)] k(1) k' by metis+
  ultimately show ?thesis using s' i by (auto simp: rebound_def)
qed

theorem conflict_latches_and_keeps_economics_witness:
  "\<exists>s s'. reachable ex_scope s \<and>
    apply_canonical_execution_fact 7 (sn_position s) (sn_integrity s) (sn_root_heads s) (sn_seen_facts s) ex_conflict None =
      Ok (transition_of s' 0 (Some 0) FACT_CONFLICT APPLIED_AVAILABLE) \<and> has_conflict (sn_integrity s')"
proof -
  obtain s where s: "reachable ex_scope s" "implements s (ex_ledger [ApplyBroker ex_buy])"
    using ex_run [of "[ApplyBroker ex_buy]"] by (auto simp: ex_events_admissible)
  obtain first where "si_get (sn_seen_facts s) (fact_key ex_conflict) = Some first" "sf_fact first \<noteq> ex_conflict"
    "sf_classification first = APPLIED_AVAILABLE"
    using ex_bought_get [OF s(2)] by (auto simp: ex_defs)
  with conflict_latches_and_keeps_economics [OF s(1), of ex_conflict first 7] s(1) show ?thesis by auto
qed

lemma find_snoc_key:
  "find P (xs @ [y]) = (case find P xs of None \<Rightarrow> if P y then Some y else None | Some x \<Rightarrow> Some x)"
  by (induction xs) auto

lemma ledger_step_observes:
  "\<exists>first. find (\<lambda>obs. obs_key obs = fact_key f) (lg_observations (fst (ledger_step f L))) = Some first \<and>
    (let L1 = fst (ledger_step f L); i = lg_integrity L1
     in (sf_fact first \<noteq> f \<longrightarrow> has_conflict i) \<and>
        (sf_position_scope first \<noteq> lg_scope L1 \<longrightarrow> has_reconciliation i))"
  by (cases "find (\<lambda>obs. obs_key obs = fact_key f) (lg_observations L)")
    (auto simp: ledger_ops find_snoc_key obs_key_def sup_position_integrity_def EXECUTION_FACT_CONFLICT_def
      EXECUTION_RECONCILIATION_REQUIRED_def split: option.splits if_splits)

lemma sup_latched:
  "has_conflict i \<Longrightarrow> sup i EXECUTION_FACT_CONFLICT = i"
  "has_reconciliation i \<Longrightarrow> sup i EXECUTION_RECONCILIATION_REQUIRED = i"
  by (simp_all add: sup_absorb1 conflict_le_iff reconciliation_le_iff)

text \<open>
  C10. Delivering a broker fact twice has the effect of delivering it once: on every reachable
  snapshot with room, whatever the first delivery did, a second delivery of the same fact leaves the
  snapshot the first one left.
\<close>

theorem delivery_is_idempotent:
  assumes "reachable scope s" "fact_admissible f" "is_broker_fact f" "1 < registry_room s"
  shows "\<exists>s1. kernel_step (ApplyBroker f) s = Ok s1 \<and> kernel_step (ApplyBroker f) s1 = Ok s1"
proof -
  obtain L where L: "related_in scope s L" using reachable_related [OF assms(1)] by blast
  have e: "event_admissible scope (ApplyBroker f)" using assms(2,3) by (simp add: event_admissible_def)
  obtain s1 where s1: "kernel_step (ApplyBroker f) s = Ok s1" "related_in scope s1 (fst (ledger_step f L))"
      "registry_room s \<le> Suc (registry_room s1)"
    using kernel_step_related [OF L e] assms(4) by (auto simp: ledger_event_def)
  let ?L1 = "fst (ledger_step f L)" and ?obj = "Suc (sb_object (binding_of s1))"
  have imp: "implements s1 ?L1" using s1(2) by (simp add: related_in_def)
  obtain hs where hs: "kernel_ok s1 hs (lg_observations ?L1)" "lg_integrity ?L1 = sn_integrity s1"
      "lg_scope ?L1 = po_scope (sn_position s1)"
    using imp by (elim implementsE)
  note ok = kernel_okD(1) [OF hs(1)]
  obtain first where first: "si_get (sn_seen_facts s1) (fact_key f) = Some first"
      "sf_fact first \<noteq> f \<Longrightarrow> has_conflict (sn_integrity s1)"
      "sf_position_scope first \<noteq> po_scope (sn_position s1) \<Longrightarrow> has_reconciliation (sn_integrity s1)"
    using ledger_step_observes [of f L] implements_get [OF imp, of "fact_key f"] assms(2) hs(2,3)
    by (auto simp: fact_admissible_def fact_fits_def Let_def)
  have same: "unchanged_transition ?obj (sn_position s1) (sn_integrity s1) (sn_root_heads s1) (sn_seen_facts s1) d c =
      Ok (transition_of s1 0 (Some 0) d c)" for d c
    using unchanged_transition_ok [OF ok order_refl, of ?obj d c] by metis
  obtain d where "apply_canonical_execution_fact ?obj (sn_position s1) (sn_integrity s1) (sn_root_heads s1)
      (sn_seen_facts s1) f None = Ok (transition_of s1 0 (Some 0) d (sf_classification first))"
    using snapshot_okD(1) [OF ok] first sup_latched [of "sn_integrity s1"] same
    by (cases "sf_fact first = f"; cases "sf_position_scope first = po_scope (sn_position s1)")
      (simp_all add: apply_canonical_execution_fact_def Let_def)
  moreover have "has_room (lg_observations ?L1)" using room_pos [OF imp] s1(3) assms(4) by simp
  ultimately have "kernel_step (ApplyBroker f) s1 = Ok s1"
    using m2_transparent [OF imp assms(2,3)] snapshot_okD(1) [OF ok]
    by (simp add: kernel_step_def snapshot_after_def transition_of_def mk_execution_snapshot_def)
  with s1(1) show ?thesis by blast
qed

theorem delivery_is_idempotent_witness:
  "\<exists>s s1. reachable ex_scope s \<and> kernel_step (ApplyBroker ex_correct) s = Ok s1 \<and>
    kernel_step (ApplyBroker ex_correct) s1 = Ok s1"
proof -
  obtain s where "reachable ex_scope s" "registry_room s \<ge> 2 ^ 64 - 1"
    using ex_run [of "[ApplyBroker ex_buy]"] by (auto simp: ex_events_admissible)
  with delivery_is_idempotent [of ex_scope s ex_correct] show ?thesis by (auto simp: ex_facts)
qed

section \<open>What never goes back\<close>

lemma ledger_event_monotone:
  "lg_integrity L \<le> lg_integrity (ledger_event e L)"
  "\<not> lg_available L \<Longrightarrow> \<not> lg_available (ledger_event e L)"
  "\<exists>os. lg_observations (ledger_event e L) = lg_observations L @ os"
  by (auto simp: ledger_event_def ledger_ops le_supI1 split: kernel_event.splits option.splits)

text \<open>
  C11. No kernel event takes anything back: the integrity flags only grow, a cost basis that is
  pending stays pending, the account restriction stays latched, the reconciliation cursor does not
  move, and the registry keeps every first observation in its place.
\<close>

theorem kernel_events_are_monotone:
  assumes "reachable scope s" "event_admissible scope e" "0 < registry_room s" "kernel_step e s = Ok s'"
    "si_entries (sn_seen_facts s) = Ok os"
  shows "sn_integrity s \<le> sn_integrity s' \<and>
    (po_basis_authority (sn_position s) = BASIS_RECONCILIATION_PENDING \<longrightarrow>
     po_basis_authority (sn_position s') = BASIS_RECONCILIATION_PENDING) \<and>
    (account_latched s \<longrightarrow> account_latched s') \<and> cursor_of s' = cursor_of s \<and>
    (\<exists>os'. si_entries (sn_seen_facts s') = Ok (os @ os'))"
proof -
  obtain L where L: "related_in scope s L" using reachable_related [OF assms(1)] by blast
  have step: "related_in scope s' (ledger_event e L)" "cursor_of s' = cursor_of s"
    "account_latched s' = (account_latched s \<or> e = LatchAccount)"
    using kernel_step_related [OF L assms(2,3)] assms(4) by auto
  have entries: "si_entries (sn_seen_facts t) = Ok (lg_observations M)" if "related_in scope t M" for t M
    using that by (auto simp: related_in_def implements_def dest!: kernel_okD(3) si_entries_ok)
  from L step(1) ledger_event_monotone(1,2) [where L = L and e = e]
  have "sn_integrity s \<le> sn_integrity s'"
    "po_basis_authority (sn_position s) \<noteq> AVAILABLE \<Longrightarrow> po_basis_authority (sn_position s') \<noteq> AVAILABLE"
    by (auto simp: related_in_def implements_def)
  moreover have "\<exists>os'. si_entries (sn_seen_facts s') = Ok (os @ os')"
    using entries [OF L] entries [OF step(1)] ledger_event_monotone(3) [where L = L and e = e] assms(5) by auto
  ultimately show ?thesis
    using step(2,3) by (cases "po_basis_authority (sn_position s')") auto
qed

theorem kernel_events_are_monotone_witness:
  "\<exists>s s' os os'. reachable ex_scope s \<and> kernel_step (ApplyBroker ex_oversell) s = Ok s' \<and>
    si_entries (sn_seen_facts s) = Ok os \<and> si_entries (sn_seen_facts s') = Ok (os @ os')"
proof -
  obtain s where s: "reachable ex_scope s" "registry_room s \<ge> 2 ^ 64 - 1"
    using ex_run [of "[ApplyBroker ex_buy]"] by (auto simp: ex_events_admissible)
  then have room: "0 < registry_room s" by simp
  obtain s' where s': "kernel_step (ApplyBroker ex_oversell) s = Ok s'"
    using reachable_related [OF s(1)] kernel_step_related [OF _ ex_events_admissible(3) room] by blast
  obtain os where os: "si_entries (sn_seen_facts s) = Ok os"
    using reachable_kernel_ok [OF s(1)] kernel_okD(3) si_entries_ok by metis
  from kernel_events_are_monotone [OF s(1) ex_events_admissible(3) room s' os] s(1) s' os show ?thesis by blast
qed

text \<open>
  C12. An oversold position is always quarantined: no reachable snapshot has a negative raw quantity,
  or an overfill observation of its scope in the registry, without the overfill flag.
\<close>

theorem oversold_is_quarantined:
  assumes "reachable scope s"
    "po_raw_quantity (sn_position s) < 0 \<or> has_overfill_observation (sn_seen_facts s) scope"
  shows "has_overfill (sn_integrity s)"
proof -
  obtain hs os where k: "kernel_ok s hs os" "po_scope (sn_position s) = scope"
    using reachable_kernel_ok [OF assms(1)] .
  have "has_overfill_observation (sn_seen_facts s) scope \<longleftrightarrow> overfill_seen scope os"
    using has_overfill_observation_ok [OF kernel_okD(3) [OF k(1)], of scope] kernel_okD(4) [OF k(1)] k(2)
    by (auto simp: overfill_seen_def)
  with kernel_okD(7) [OF k(1)] assms(2) k(2) show ?thesis by (auto simp: overfill_latched_def)
qed

theorem oversold_is_quarantined_witness:
  "\<exists>s. reachable ex_scope s \<and> po_raw_quantity (sn_position s) = -5 \<and> has_overfill (sn_integrity s)"
proof -
  obtain s where s: "reachable ex_scope s" "implements s (ex_ledger [ApplyBroker ex_buy, ApplyBroker ex_oversell])"
    using ex_run [of "[ApplyBroker ex_buy, ApplyBroker ex_oversell]"] by (auto simp: ex_events_admissible)
  with oversold_is_quarantined [OF s(1)] implements_quantity [OF s(2)] ex_oversold(1) show ?thesis by auto
qed

section \<open>Revisions and claimed roots\<close>

lemma revised_heads_nth:
  assumes "i < length hs"
  shows "revised_heads hs i h' available ! i = h' \<or> revised_heads hs i h' available ! i = unproven h'"
    and "i < length (revised_heads hs i h' available)"
  using assms by (auto simp: revised_heads_def nth_list_update)

text \<open>
  C13. A correction or bust of the current head always applies: on every reachable snapshot with
  room, a new revision whose root is held by the broker in the revision's own scope, and which names
  that head's current event as its predecessor, returns \<^verbatim>\<open>APPLIED\<close>; the quantity moves
  by exactly the signed difference of the revised and the held quantity, and the head then carries
  the revision's event, quantity and price.
\<close>

theorem current_revision_applies:
  assumes "reachable scope s" "fact_admissible f" "0 < registry_room s"
    "revision_of f = Some (rh_current_source_event_id h, quantity, price)"
    "si_get (sn_seen_facts s) (fact_key f) = None"
    "ri_get (sn_root_heads s) (fact_root_key f) = Some h"
    "rh_scope h = fact_scope f" "rh_authority h = BROKER_AUTHORITATIVE"
  shows "\<exists>s' basis_change classification h'.
    apply_broker_execution_fact obj (sn_position s) (sn_integrity s) (sn_root_heads s) (sn_seen_facts s) f =
      Ok (transition_of s' (signed_change (es_side (fact_scope f))
            (quantity_value quantity - quantity_value (rh_quantity h))) basis_change APPLIED classification) \<and>
    ri_get (sn_root_heads s') (fact_root_key f) = Some h' \<and>
    rh_current_source_event_id h' = fk_source_event_id (fact_key f) \<and>
    rh_quantity h' = quantity \<and> rh_price h' = price"
proof -
  obtain L where imp: "implements s L" using reachable_implements [OF assms(1)] .
  obtain hs where k: "kernel_ok s hs (lg_observations L)" using imp by (elim implementsE)
  note ok = kernel_okD [OF k]
  have fits: "root_key_fits (fact_root_key f)" using assms(2) fact_fits_root_key by (simp add: fact_admissible_def)
  have room: "has_room (lg_observations L)" using room_pos [OF imp] assms(3) by simp
  have br: "is_broker_fact f" using assms(4) by (cases f) simp_all
  define i where "i = rh_original_sequence h"
  have i: "i < length hs" "hs ! i = h" "rh_root_key (hs ! i) = fact_root_key f"
    using ri_get_Some_nth [OF ok(2) fits assms(6)] by (simp_all add: i_def)
  let ?h = "revised_head f quantity price h"
  obtain s' b c available where s': "apply_revision obj (sn_position s) (sn_integrity s) (sn_root_heads s)
      (sn_seen_facts s) f (rh_current_source_event_id h) quantity price =
       Ok (transition_of s' (signed_quantity_of ?h - signed_quantity_of h) b APPLIED c)"
      "ri_ok (sn_root_heads s') (revised_heads hs i ?h available)"
    using apply_revision_ok [OF k assms(2,4,5) room i(1,3), of obj] assms(7,8) i(2) kernel_okD(2) by metis
  have "apply_canonical_execution_fact obj (sn_position s) (sn_integrity s) (sn_root_heads s) (sn_seen_facts s) f None =
      Ok (transition_of s' (signed_quantity_of ?h - signed_quantity_of h) b APPLIED c)"
    using s'(1) assms(4,5) snapshot_okD(1) [OF ok(1)]
    by (cases f) (auto simp: apply_canonical_execution_fact_def apply_first_observation_def)
  moreover have "signed_quantity_of ?h - signed_quantity_of h =
      signed_change (es_side (fact_scope f)) (quantity_value quantity - quantity_value (rh_quantity h))"
    using assms(7) by (simp add: signed_quantity_of_def signed_change_def)
  moreover let ?g = "revised_heads hs i ?h available ! i"
  have g: "?g = ?h \<or> ?g = unproven ?h" by (rule revised_heads_nth(1) [OF i(1)])
  then have "rh_root_key ?g = fact_root_key f" using i by auto
  then have "ri_get (sn_root_heads s') (fact_root_key f) = Some ?g"
    using ri_get_nth [OF s'(2) revised_heads_nth(2) [OF i(1)]] by simp
  moreover have "rh_quantity ?g = quantity" "rh_price ?g = price"
    "rh_current_source_event_id ?g = fk_source_event_id (fact_key f)"
    using g by (auto simp: revised_head_def)
  ultimately show ?thesis
    using m2_transparent [OF imp assms(2) br room, of obj] by metis
qed

theorem current_revision_applies_witness:
  "\<exists>s s' b c. reachable ex_scope s \<and>
    apply_broker_execution_fact 7 (sn_position s) (sn_integrity s) (sn_root_heads s) (sn_seen_facts s) ex_bust =
      Ok (transition_of s' (-10) b APPLIED c)"
proof -
  let ?L = "ex_ledger [ApplyBroker ex_buy]"
  obtain s where s: "reachable ex_scope s" "implements s ?L" "registry_room s \<ge> 2 ^ 64 - 1"
    using ex_run [of "[ApplyBroker ex_buy]"] by (auto simp: ex_events_admissible)
  obtain hs where hs: "kernel_ok s hs (lg_observations ?L)" "map unproven hs = lg_heads ?L"
    using s(2) by (auto simp: implements_def)
  have fits: "root_key_fits (fact_root_key ex_bust)" "fact_key_fits (fact_key ex_bust)"
    using ex_facts(7) fact_fits_root_key by (auto simp: fact_admissible_def fact_fits_def)
  have "si_get (sn_seen_facts s) (fact_key ex_bust) = None"
    using implements_get [OF s(2) fits(2)] by (simp add: ex_eval)
  moreover obtain h where h: "hs = [h]" "unproven h = hd (lg_heads ?L)" using hs(2) by (auto simp: ex_eval)
  have eq: "rh_root_key h = rh_root_key (unproven h)" "rh_scope h = rh_scope (unproven h)"
    "rh_authority h = rh_authority (unproven h)" "rh_quantity h = rh_quantity (unproven h)"
    "rh_current_source_event_id h = rh_current_source_event_id (unproven h)" by simp_all
  have h': "rh_root_key h = fact_root_key ex_bust" "rh_scope h = fact_scope ex_bust"
    "rh_authority h = BROKER_AUTHORITATIVE" "rh_quantity h = Quantity 10"
    "revision_of ex_bust = Some (rh_current_source_event_id h, Quantity 0, None)" "es_side (fact_scope ex_bust) = BUY"
    unfolding eq h(2) by (simp_all add: ex_eval)
  then have "ri_get (sn_root_heads s) (fact_root_key ex_bust) = Some h"
    using ri_get_nth [OF kernel_okD(2) [OF hs(1)], of 0] h(1) by simp
  ultimately show ?thesis
    using current_revision_applies [OF s(1) ex_facts(7) _ h'(5), of 7] s(1,3) h'
    by (auto simp: signed_change_def)
qed

text \<open>
  C14. A root is counted at most once: a fill with a new identity whose root key the account registry
  has already seen is never applied. It returns \<^verbatim>\<open>RECONCILIATION_REQUIRED\<close> with zero
  deltas, the reconciliation flag is latched, and the quantity and the root entries stay as they are.
\<close>

theorem claimed_root_is_not_applied_again:
  assumes "reachable scope s" "fact_admissible f" "is_broker_fact f" "0 < registry_room s"
    "root_fill_of f \<noteq> None" "si_get (sn_seen_facts s) (fact_key f) = None"
    "contains_root (sn_seen_facts s) (fact_root_key f)"
  shows "\<exists>s'. apply_broker_execution_fact obj (sn_position s) (sn_integrity s) (sn_root_heads s)
        (sn_seen_facts s) f =
      Ok (transition_of s' 0 (Some 0) RECONCILIATION_REQUIRED CLASS_RECONCILIATION_REQUIRED) \<and>
    has_reconciliation (sn_integrity s') \<and>
    po_raw_quantity (sn_position s') = po_raw_quantity (sn_position s) \<and>
    ri_entries (sn_root_heads s') = ri_entries (sn_root_heads s)"
proof -
  obtain L where imp: "implements s L" using reachable_implements [OF assms(1)] .
  obtain hs where k: "kernel_ok s hs (lg_observations L)" using imp by (elim implementsE)
  note ok = kernel_okD [OF k]
  have room: "has_room (lg_observations L)" using room_pos [OF imp] assms(4) by simp
  define obs where "obs = \<lparr>sf_fact = f, sf_classification = CLASS_RECONCILIATION_REQUIRED,
    sf_position_scope = po_scope (sn_position s)\<rparr>"
  have obs: "fact_admissible (sf_fact obs)" "seen_valid obs" "sf_position_scope obs = po_scope (sn_position s)"
    "si_get (sn_seen_facts s) (obs_key obs) = None" "\<not> is_overfill_class (sf_classification obs)"
    "mk_seen_fact f CLASS_RECONCILIATION_REQUIRED (Some (po_scope (sn_position s))) = Ok obs"
    using assms(2,6) by (simp_all add: obs_def seen_valid_def is_overfill_class_def obs_key_def mk_seen_fact_valid(1))
  let ?i = "sup (sn_integrity s) EXECUTION_RECONCILIATION_REQUIRED"
  obtain seen' s' where s': "si_add (sn_seen_facts s) obs = Ok seen'"
    "bind_components obj (sn_position s) ?i (sn_root_heads s) seen' None None None = Ok s'"
    "kernel_ok s' hs (lg_observations L @ [obs])" "sn_integrity s' = ?i"
    "sn_position s' = (sn_position s)\<lparr>po_integrity_floor := ?i, po_binding := Some (binding_of s')\<rparr>"
    using record_kernel_ok [OF k obs(1-4) room obs(5) sup_ge1] by metis
  have "apply_canonical_execution_fact obj (sn_position s) (sn_integrity s) (sn_root_heads s) (sn_seen_facts s) f None =
      reconciliation_transition obj (sn_position s) (sn_integrity s) (sn_root_heads s) (sn_seen_facts s) f"
    using assms(5-7) snapshot_okD(1,5) [OF ok(1)]
    by (cases f) (simp_all add: apply_canonical_execution_fact_def apply_first_observation_def apply_root_fill_def)
  with s'(1,2) obs(6) have "apply_broker_execution_fact obj (sn_position s) (sn_integrity s) (sn_root_heads s)
        (sn_seen_facts s) f =
      Ok (transition_of s' 0 (Some 0) RECONCILIATION_REQUIRED CLASS_RECONCILIATION_REQUIRED)"
    using m2_transparent [OF imp assms(2,3) room] by (simp add: reconciliation_transition_def)
  moreover have "ri_entries (sn_root_heads s') = ri_entries (sn_root_heads s)"
    using ri_entries_ok [OF kernel_okD(2) [OF s'(3)]] ri_entries_ok [OF ok(2)] by simp
  ultimately show ?thesis
    using s'(4,5) by (auto simp: sup_position_integrity_def EXECUTION_RECONCILIATION_REQUIRED_def)
qed

theorem claimed_root_is_not_applied_again_witness:
  "\<exists>s s'. reachable ex_scope s \<and>
    apply_broker_execution_fact 7 (sn_position s) (sn_integrity s) (sn_root_heads s) (sn_seen_facts s) ex_again =
      Ok (transition_of s' 0 (Some 0) RECONCILIATION_REQUIRED CLASS_RECONCILIATION_REQUIRED) \<and>
    po_raw_quantity (sn_position s') = 10"
proof -
  let ?L = "ex_ledger [ApplyBroker ex_buy]"
  obtain s where s: "reachable ex_scope s" "implements s ?L" "registry_room s \<ge> 2 ^ 64 - 1"
    using ex_run [of "[ApplyBroker ex_buy]"] by (auto simp: ex_events_admissible)
  obtain hs where hs: "kernel_ok s hs (lg_observations ?L)" using s(2) by (auto simp: implements_def)
  have fits: "root_key_fits (fact_root_key ex_again)" "fact_key_fits (fact_key ex_again)"
    using ex_facts(5) fact_fits_root_key by (auto simp: fact_admissible_def fact_fits_def)
  have "si_get (sn_seen_facts s) (fact_key ex_again) = None"
    using implements_get [OF s(2) fits(2)] by (simp add: ex_eval)
  moreover have "contains_root (sn_seen_facts s) (fact_root_key ex_again)"
    unfolding contains_root_ok [OF kernel_okD(3) [OF hs] fits(1)] by (simp add: ex_eval)
  moreover have "root_fill_of ex_again \<noteq> None" by (simp add: ex_again_def)
  ultimately show ?thesis
    using claimed_root_is_not_applied_again [OF s(1) ex_facts(5) ex_broker(5), of 7] s implements_quantity [OF s(2)]
    by (auto simp: ex_bought(1))
qed

section \<open>The account cursor, the registry of the account and incoherent parts\<close>

lemma cursor_binding:
  assumes "reachable scope s"
  shows "(\<exists>s'. bind_execution_reconciliation_cursor obj s count head required = Ok s') \<longleftrightarrow>
      0 \<le> count \<and> length head = 32 \<and> (cursor_of s = (count, head) \<or> fst (cursor_of s) < count)"
    and "bind_execution_reconciliation_cursor obj s count head required = Ok s' \<Longrightarrow>
      cursor_of s' = (count, head) \<and> account_latched s' = (account_latched s \<or> required) \<and>
      po_raw_quantity (sn_position s') = po_raw_quantity (sn_position s) \<and>
      sn_integrity s' = sn_integrity s \<and> ri_entries (sn_root_heads s') = ri_entries (sn_root_heads s)"
proof -
  obtain L where imp: "implements s L" using reachable_implements [OF assms] .
  {
    fix s' assume b: "bind_execution_reconciliation_cursor obj s count head required = Ok s'"
    note r = bind_cursor_rebound [OF imp b]
    obtain hs' where k': "kernel_ok s' hs' (lg_observations L)" using r(1) by (elim implementsE)
    have "0 \<le> count" "length head = 32"
      using snapshot_okD(8,9) [OF kernel_okD(1) [OF k']] by (simp_all add: r(2))
    with r(4) have "0 \<le> count \<and> length head = 32 \<and> (cursor_of s = (count, head) \<or> fst (cursor_of s) < count)"
      by (simp add: cursor_le_def)
  }
  then show "(\<exists>s'. bind_execution_reconciliation_cursor obj s count head required = Ok s') \<longleftrightarrow>
      0 \<le> count \<and> length head = 32 \<and> (cursor_of s = (count, head) \<or> fst (cursor_of s) < count)"
    using bind_cursor_succeeds [OF imp, of count head obj required] by (auto simp: cursor_le_def)
  assume b: "bind_execution_reconciliation_cursor obj s count head required = Ok s'"
  note r = bind_cursor_rebound [OF imp b]
  obtain hs where k: "kernel_ok s hs (lg_observations L)" using imp by (elim implementsE)
  have seen: "si_binding (sn_seen_facts s) = Some (binding_of s) \<or> si_binding (sn_seen_facts s) = None"
    using snapshot_okD(7) [OF kernel_okD(1) [OF k]] by simp
  have "sn_root_heads s' = ri_with_binding (sn_root_heads s) (binding_of s')"
    by (rule rebind_inv(6) [OF kernel_okD(1) [OF k] seen b [unfolded bind_execution_reconciliation_cursor_def]])
  then have "ri_entries (sn_root_heads s') = ri_entries (sn_root_heads s)"
    using ri_entries_ok [of _ hs] kernel_okD(2) [OF k] by simp
  with r imp implements_quantity [OF imp] implements_quantity [OF r(1)] show
    "cursor_of s' = (count, head) \<and> account_latched s' = (account_latched s \<or> required) \<and>
      po_raw_quantity (sn_position s') = po_raw_quantity (sn_position s) \<and>
      sn_integrity s' = sn_integrity s \<and> ri_entries (sn_root_heads s') = ri_entries (sn_root_heads s)"
    by (simp add: implements_def)
qed

text \<open>
  The account's reconciliation cursor can neither roll back nor fork: binding a cursor to a
  reachable snapshot succeeds exactly for a count that is not negative and a head of 32 bytes that
  repeat the cursor bound now or have a greater count; and then the snapshot carries that cursor,
  the account restriction is the one there was or the one asked for, and the quantity, the integrity
  and the root entries are unchanged.
\<close>

theorem cursor_never_rolls_back:
  assumes "reachable scope s"
  shows "((\<exists>s'. bind_execution_reconciliation_cursor obj s count head required = Ok s') \<longleftrightarrow>
      0 \<le> count \<and> length head = 32 \<and> (cursor_of s = (count, head) \<or> fst (cursor_of s) < count)) \<and>
    (\<forall>s'. bind_execution_reconciliation_cursor obj s count head required = Ok s' \<longrightarrow>
      cursor_of s' = (count, head) \<and> account_latched s' = (account_latched s \<or> required) \<and>
      po_raw_quantity (sn_position s') = po_raw_quantity (sn_position s) \<and>
      sn_integrity s' = sn_integrity s \<and> ri_entries (sn_root_heads s') = ri_entries (sn_root_heads s))"
  using cursor_binding [OF assms] by blast

theorem cursor_never_rolls_back_witness:
  "\<exists>s s'. reachable ex_scope s \<and>
    bind_execution_reconciliation_cursor 7 s 3 (replicate 32 0) True = Ok s' \<and> account_latched s' \<and>
    (\<nexists>t. bind_execution_reconciliation_cursor 8 s' 2 (replicate 32 0) False = Ok t)"
proof -
  obtain s where s: "sn_flat 0 ex_scope = Ok s" by (simp add: sn_flat_ok)
  then have r: "reachable ex_scope s" "fst (cursor_of s) = 0"
    using reachable.start [OF ex_scope_fits s] by (auto simp: sn_flat_ok)
  obtain s' where s': "bind_execution_reconciliation_cursor 7 s 3 (replicate 32 0) True = Ok s'"
    using cursor_never_rolls_back [OF r(1), of 7 3 "replicate 32 0" True] r(2) by auto
  have "account_latched s'" "cursor_of s' = (3, replicate 32 0)"
    using cursor_never_rolls_back [OF r(1), of 7 3 "replicate 32 0" True] s' by simp_all
  with cursor_never_rolls_back [OF reachable.cursor [OF r(1) s'], of 8 2 "replicate 32 0" False] r(1) s'
  show ?thesis by auto
qed

lemma project_bindable:
  assumes t: "snapshot_ok t" and u: "snapshot_ok u"
  shows "project_execution_registry obj t u count head =
    (if account_scope_from_position (po_scope (sn_position t)) \<noteq> account_scope_from_position (po_scope (sn_position u)) \<or>
        has_prefix (sn_seen_facts u) (int (si_count (sn_seen_facts t))) (si_commitment (sn_seen_facts t)) \<noteq> Ok True
     then Raise ValueError
     else bind_components obj (sn_position t) (sn_integrity t) (sn_root_heads t) (sn_seen_facts u)
       (Some (account_latched t \<or> account_latched u)) (Some count) (Some head))"
proof -
  have req: "sn_account_reconciliation_required x = Ok (account_latched x)" if "snapshot_ok x" for x
    using snapshot_okD(5) [OF that] by (simp add: sn_account_reconciliation_required_def sn_binding_def account_latched_def)
  obtain b where b: "has_prefix (sn_seen_facts u) (int (si_count (sn_seen_facts t))) (si_commitment (sn_seen_facts t)) = Ok b"
    by (simp add: has_prefix_def require_def)
  show ?thesis
    by (cases "account_latched t"; cases b)
      (simp_all add: project_execution_registry_def account_scope_from_position_def require_def Let_def b
        req [OF t] req [OF u] conj_commute)
qed

lemma project_cursors:
  assumes t: "snapshot_ok t" and u: "snapshot_ok u"
  shows "bind_cursor (inherited_reconciliation_cursors (sn_position t) (sn_root_heads t) (sn_seen_facts u))
      (Some count) (Some head) =
    (if 0 \<le> count \<and> length head = 32 \<and> cursor_le (cursor_of t) (count, head) \<and> cursor_le (cursor_of u) (count, head)
     then Ok (count, head) else Raise ValueError)"
proof -
  have set_eq: "set (inherited_reconciliation_cursors (sn_position t) (sn_root_heads t) (sn_seen_facts u)) =
      {cursor_of t, cursor_of u}"
    using snapshot_okD(5,6) [OF t] snapshot_okD(7) [OF u]
    by (auto simp: inherited_reconciliation_cursors_def cursor_of_def)
  have "cursor_continues (inherited_reconciliation_cursors (sn_position t) (sn_root_heads t) (sn_seen_facts u)) count head \<longleftrightarrow>
      cursor_le (cursor_of t) (count, head) \<and> cursor_le (cursor_of u) (count, head)"
    unfolding cursor_continues_def list_all_iff set_eq
    by (cases "cursor_of t"; cases "cursor_of u") (auto simp: cursor_le_def)
  then show ?thesis by (simp add: bind_cursor_def select_cursor_def require_def not_less)
qed

lemma registry_projection:
  assumes "reachable scope t" "reachable scope' u"
  shows "(\<exists>r. project_execution_registry obj t u count head = Ok r) \<longleftrightarrow>
      account_scope_from_position scope = account_scope_from_position scope' \<and>
      has_prefix (sn_seen_facts u) (int (si_count (sn_seen_facts t))) (si_commitment (sn_seen_facts t)) = Ok True \<and>
      0 \<le> count \<and> length head = 32 \<and>
      cursor_le (cursor_of t) (count, head) \<and> cursor_le (cursor_of u) (count, head)"
    and "project_execution_registry obj t u count head = Ok r \<Longrightarrow>
      po_raw_quantity (sn_position r) = po_raw_quantity (sn_position t) \<and>
      po_cost_basis (sn_position r) = po_cost_basis (sn_position t) \<and>
      sn_integrity r = sn_integrity t \<and>
      ri_entries (sn_root_heads r) = ri_entries (sn_root_heads t) \<and>
      si_entries (sn_seen_facts r) = si_entries (sn_seen_facts u) \<and>
      account_latched r = (account_latched t \<or> account_latched u) \<and> cursor_of r = (count, head)"
proof -
  obtain hs os where t: "kernel_ok t hs os" "po_scope (sn_position t) = scope"
    using reachable_kernel_ok [OF assms(1)] .
  obtain hs' os' where u: "kernel_ok u hs' os'" "po_scope (sn_position u) = scope'"
    using reachable_kernel_ok [OF assms(2)] .
  note tok = kernel_okD [OF t(1)] and uok = kernel_okD [OF u(1)]
  let ?c = "account_scope_from_position scope = account_scope_from_position scope' \<and>
      has_prefix (sn_seen_facts u) (int (si_count (sn_seen_facts t))) (si_commitment (sn_seen_facts t)) = Ok True"
  let ?d = "0 \<le> count \<and> length head = 32 \<and>
      cursor_le (cursor_of t) (count, head) \<and> cursor_le (cursor_of u) (count, head)"
  note cur = project_cursors [OF tok(1) uok(1), of count head]
  define r0 where "r0 = sealed_snapshot obj ((sn_position t)\<lparr>po_integrity_floor := sn_integrity t, po_binding := None\<rparr>)
      (sn_integrity t) (sn_root_heads t) (sn_seen_facts u) (account_latched t \<or> account_latched u) (count, head)"
  have acc: "inherited_account_reconciliation_required (sn_position t) (sn_root_heads t) (sn_seen_facts u) =
      (account_latched t \<or> account_latched u)"
    using snapshot_okD(5,6) [OF tok(1)] snapshot_okD(7) [OF uok(1)]
    by (simp add: inherited_account_reconciliation_required_def account_latched_def)
  have res: "project_execution_registry obj t u count head = (if ?c \<and> ?d then Ok r0 else Raise ValueError)"
  proof (cases ?c)
    case True
    have bindable: "bindable (sn_position t) (sn_root_heads t) (sn_seen_facts u)"
      using snapshot_okD(4) [OF tok(1)] kernel_ok_parts(2) [OF u(1)] True t(2) u(2)
      by (simp add: bindable_def belongs_to_def)
    show ?thesis
    proof (cases ?d)
      case d: True
      with True cur bind_components_ok [OF bindable, of "sn_integrity t" "Some count" "Some head" "(count, head)" obj
          "Some (account_latched t \<or> account_latched u)"] snapshot_okD(3) [OF tok(1)] acc t(2) u(2)
      show ?thesis by (simp add: project_bindable [OF tok(1) uok(1)] r0_def)
    next
      case False
      with True cur t(2) u(2) show ?thesis
        by (simp add: project_bindable [OF tok(1) uok(1)] bind_components_def)
    qed
  next
    case False
    with t(2) u(2) show ?thesis by (auto simp: project_bindable [OF tok(1) uok(1)])
  qed
  then show "(\<exists>r. project_execution_registry obj t u count head = Ok r) \<longleftrightarrow>
      account_scope_from_position scope = account_scope_from_position scope' \<and>
      has_prefix (sn_seen_facts u) (int (si_count (sn_seen_facts t))) (si_commitment (sn_seen_facts t)) = Ok True \<and>
      0 \<le> count \<and> length head = 32 \<and>
      cursor_le (cursor_of t) (count, head) \<and> cursor_le (cursor_of u) (count, head)"
    by auto
  assume "project_execution_registry obj t u count head = Ok r"
  with res have r: "r = r0" by (simp split: if_splits)
  have "ri_entries (sn_root_heads r0) = ri_entries (sn_root_heads t)"
    "si_entries (sn_seen_facts r0) = si_entries (sn_seen_facts u)"
    using ri_entries_ok [of _ hs] tok(2) si_entries_ok [of _ os'] uok(3) by (simp_all add: r0_def)
  then show "po_raw_quantity (sn_position r) = po_raw_quantity (sn_position t) \<and>
      po_cost_basis (sn_position r) = po_cost_basis (sn_position t) \<and>
      sn_integrity r = sn_integrity t \<and>
      ri_entries (sn_root_heads r) = ri_entries (sn_root_heads t) \<and>
      si_entries (sn_seen_facts r) = si_entries (sn_seen_facts u) \<and>
      account_latched r = (account_latched t \<or> account_latched u) \<and> cursor_of r = (count, head)"
    by (simp add: r) (simp add: r0_def)
qed

text \<open>
  Sharing one account registry between positions never touches the position that takes it: the
  projection of a source snapshot's registry onto a target succeeds exactly when both are of the same
  account, the target's registry is a recorded prefix of the source's, and the new cursor continues
  the cursors of both. The result keeps the target's quantity, cost basis, integrity and root
  entries, has the source's observations, and is account-restricted when either was.
\<close>

theorem registry_projection_keeps_target:
  assumes "reachable scope t" "reachable scope' u"
  shows "((\<exists>r. project_execution_registry obj t u count head = Ok r) \<longleftrightarrow>
      account_scope_from_position scope = account_scope_from_position scope' \<and>
      has_prefix (sn_seen_facts u) (int (si_count (sn_seen_facts t))) (si_commitment (sn_seen_facts t)) = Ok True \<and>
      0 \<le> count \<and> length head = 32 \<and>
      cursor_le (cursor_of t) (count, head) \<and> cursor_le (cursor_of u) (count, head)) \<and>
    (\<forall>r. project_execution_registry obj t u count head = Ok r \<longrightarrow>
      po_raw_quantity (sn_position r) = po_raw_quantity (sn_position t) \<and>
      po_cost_basis (sn_position r) = po_cost_basis (sn_position t) \<and>
      sn_integrity r = sn_integrity t \<and>
      ri_entries (sn_root_heads r) = ri_entries (sn_root_heads t) \<and>
      si_entries (sn_seen_facts r) = si_entries (sn_seen_facts u) \<and>
      account_latched r = (account_latched t \<or> account_latched u) \<and> cursor_of r = (count, head))"
  using registry_projection [OF assms] by blast

theorem registry_projection_keeps_target_witness:
  "\<exists>t u r. reachable ex_scope t \<and> reachable ex_other_scope u \<and>
    project_execution_registry 9 t u 1 (replicate 32 0) = Ok r \<and> cursor_of r = (1, replicate 32 0)"
proof -
  obtain t u where t: "sn_flat 0 ex_scope = Ok t" and u: "sn_flat 1 ex_other_scope = Ok u" by (simp add: sn_flat_ok)
  have r: "reachable ex_scope t" "reachable ex_other_scope u"
    using reachable.start [OF ex_scope_fits t] reachable.start [OF _ u] ex_scope_fits
    by (simp_all add: ex_other_scope_def scope_fits_def text_fits_def)
  have acc: "account_scope_from_position ex_scope = account_scope_from_position ex_other_scope"
    by (simp add: ex_other_scope_def account_scope_from_position_def)
  then have "si_empty (Some ex_scope) = si_empty (Some ex_other_scope)" by (simp add: si_empty_def)
  then have "has_prefix (sn_seen_facts u) (int (si_count (sn_seen_facts t))) (si_commitment (sn_seen_facts t)) = Ok True"
    "cursor_of t = (0, RECONCILIATION_GENESIS_HEAD)" "cursor_of u = (0, RECONCILIATION_GENESIS_HEAD)"
    using t u by (auto simp: sn_flat_ok has_prefix_def require_def)
  then have "\<exists>s. project_execution_registry 9 t u 1 (replicate 32 0) = Ok s"
    using acc registry_projection_keeps_target [OF r, of 9 1 "replicate 32 0"] by (simp add: cursor_le_def)
  with r registry_projection_keeps_target [OF r, of 9 1 "replicate 32 0"] show ?thesis by blast
qed

text \<open>
  C17. Parts that do not belong together are never traded on: whenever the four parts handed to the
  canonical routine are not one coherent snapshot and it returns, the transition asks for
  reconciliation with zero deltas, keeps the quantity, the basis and the root index as they were
  given, unbinds the position so that no later call accepts it as coherent, and its integrity has
  the reconciliation flag and every flag of the integrity given and of the position's floor.
\<close>

theorem incoherent_parts_are_quarantined:
  assumes "\<not> snapshot_is_coherent p i roots seen"
    "apply_canonical_execution_fact obj p i roots seen f m2 = Ok tr"
  shows "tr_disposition tr = RECONCILIATION_REQUIRED \<and> tr_quantity_delta tr = 0 \<and> tr_basis_delta tr = Some 0 \<and>
    po_raw_quantity (tr_position tr) = po_raw_quantity p \<and> po_cost_basis (tr_position tr) = po_cost_basis p \<and>
    tr_root_heads tr = roots \<and>
    \<not> snapshot_is_coherent (tr_position tr) (tr_integrity tr) (tr_root_heads tr) (tr_seen_facts tr) \<and>
    sup (sup i (po_integrity_floor p)) EXECUTION_RECONCILIATION_REQUIRED \<le> tr_integrity tr"
proof -
  have grow: "fold_res (\<lambda>b acc. bind_res (integrity_of_bits (sb_integrity_bits b)) (\<lambda>i. Ok (sup acc i))) bs acc = Ok t \<Longrightarrow>
      acc \<le> t" for bs acc t
    by (induction bs arbitrary: acc) (auto simp: bind_res_eq_Inr dest: le_supE)
  define raise_if :: "bool \<Rightarrow> position_integrity \<Rightarrow> position_integrity \<Rightarrow> position_integrity" where
    "raise_if c x y = (if c then sup x y else x)" for c x y
  have le: "x \<le> raise_if c x y" for c x y by (simp add: raise_if_def)
  from assms obtain trusted c c' where t: "sup i (po_integrity_floor p) \<le> trusted"
    and i: "tr_integrity tr = sup (raise_if c (raise_if c' trusted OVERFILL_QUARANTINE) EXECUTION_FACT_CONFLICT)
      EXECUTION_RECONCILIATION_REQUIRED"
    and tr: "tr_disposition tr = RECONCILIATION_REQUIRED" "tr_quantity_delta tr = 0" "tr_basis_delta tr = Some 0"
      "tr_position tr = p\<lparr>po_integrity_floor := sup (po_integrity_floor p) (tr_integrity tr), po_binding := None\<rparr>"
      "tr_root_heads tr = roots"
    by (clarsimp simp: apply_canonical_execution_fact_def incoherent_snapshot_transition_def Let_def bind_res_eq_Inr
        raise_if_def [symmetric] simp del: le_sup_iff dest!: grow split del: if_split) (auto simp: mk_position_state_valid split: if_splits)
  have "trusted \<le> tr_integrity tr" unfolding i by (intro le_supI1) (rule order_trans [OF le le])
  then have "sup i (po_integrity_floor p) \<le> tr_integrity tr" using t by (rule order_trans [rotated])
  then show ?thesis
    by (simp add: tr i snapshot_is_coherent_def snapshot_parts_share_binding_def)
qed

theorem incoherent_parts_are_quarantined_witness:
  "\<exists>s tr. reachable ex_scope s \<and>
    apply_canonical_execution_fact 7 (sn_position s) top (sn_root_heads s) (sn_seen_facts s) ex_buy None = Ok tr \<and>
    tr_disposition tr = RECONCILIATION_REQUIRED \<and> tr_quantity_delta tr = 0"
proof -
  obtain s where s: "reachable ex_scope s" "implements s (ex_ledger [ApplyBroker ex_buy])"
    using ex_run [of "[ApplyBroker ex_buy]"] by (auto simp: ex_events_admissible)
  obtain hs os where k: "kernel_ok s hs os" using reachable_kernel_ok [OF s(1)] .
  have inc: "\<not> snapshot_is_coherent (sn_position s) top (sn_root_heads s) (sn_seen_facts s)"
    using coherent_integrity(1) [OF kernel_okD(1) [OF k], of top] s(2)
    by (auto simp: implements_def ex_bought(4) top_position_integrity_def CONSISTENT_def)
  obtain first where first: "si_get (sn_seen_facts s) (fact_key ex_buy) = Some first" using ex_bought_get [OF s(2)] by blast
  have "\<exists>t. fold_res (\<lambda>b acc. bind_res (integrity_of_bits (sb_integrity_bits b)) (\<lambda>i. Ok (sup acc i))) bs acc = Ok t"
    if "set bs \<subseteq> {binding_of s}" for bs acc
    using that by (induction bs arbitrary: acc) (simp_all add: snapshot_okD(10) [OF kernel_okD(1) [OF k]])
  moreover have "set (trusted_bindings (sn_position s) (sn_root_heads s) (sn_seen_facts s) a b) \<subseteq> {binding_of s}" for a b
    by (cases a; cases b) (simp_all add: trusted_bindings_def snapshot_okD(5,6,7) [OF kernel_okD(1) [OF k]])
  ultimately obtain trusted where "fold_res (\<lambda>b acc. bind_res (integrity_of_bits (sb_integrity_bits b)) (\<lambda>i. Ok (sup acc i)))
      (trusted_bindings (sn_position s) (sn_root_heads s) (sn_seen_facts s) True True)
      (sup top (po_integrity_floor (sn_position s))) = Ok trusted" by blast
  then obtain tr where tr: "apply_canonical_execution_fact 7 (sn_position s) top (sn_root_heads s)
      (sn_seen_facts s) ex_buy None = Ok tr"
    using inc snapshot_okD(2) [OF kernel_okD(1) [OF k]] first kernel_ok_parts(1,3) [OF k]
    by (simp add: apply_canonical_execution_fact_def incoherent_snapshot_transition_def Let_def mk_position_state_valid)
  with incoherent_parts_are_quarantined [OF inc tr] s(1) show ?thesis by blast
qed

end
